(* ===== verification/Prelude.thy ===== *)
theory Prelude
  imports Main "HOL-Library.AList"
begin

text \<open>
  What every component shares: the outcome of a Go call, the reading of a slice, the
  association list that stands for a Go map, the collections of simplification and
  introduction facts that the component proofs use, and the contract of a
  replace-or-append update on a keyed slice, stated as a locale because five operations
  of the program implement it.
\<close>

named_theorems outcome_simps \<open>unfolding of sequenced Go calls\<close>
named_theorems map_simps \<open>look-up and update of Go maps\<close>
named_theorems inv_intros \<open>preservation lemmas of the component invariants\<close>

section \<open>Outcomes of a Go call\<close>

text \<open>
  A Go function with an error result returns a value or an error, and any function may
  panic (an index out of range, a write to a nil map, a send on a closed channel).
\<close>

datatype ('e, 'a) outcome = Ok 'a | Err 'e | Panic string

fun obind :: "('e, 'a) outcome \<Rightarrow> ('a \<Rightarrow> ('e, 'b) outcome) \<Rightarrow> ('e, 'b) outcome" where
  "obind (Ok a) f = f a"
| "obind (Err e) f = Err e"
| "obind (Panic m) f = Panic m"

lemma obind_eq_Ok [simp]: "obind r f = Ok b \<longleftrightarrow> (\<exists>a. r = Ok a \<and> f a = Ok b)"
  by (cases r) auto

lemma obind_eq_Panic [simp]:
  "obind r f = Panic m \<longleftrightarrow> r = Panic m \<or> (\<exists>a. r = Ok a \<and> f a = Panic m)"
  by (cases r) auto

lemma obind_eq_Err [simp]:
  "obind r f = Err e \<longleftrightarrow> r = Err e \<or> (\<exists>a. r = Ok a \<and> f a = Err e)"
  by (cases r) auto

fun is_panic :: "('e, 'a) outcome \<Rightarrow> bool" where
  "is_panic (Panic m) = True"
| "is_panic r = False"

lemma is_panic_iff: "is_panic r \<longleftrightarrow> (\<exists>m. r = Panic m)"
  by (cases r) auto

fun is_ok :: "('e, 'a) outcome \<Rightarrow> bool" where
  "is_ok (Ok a) = True"
| "is_ok r = False"

lemma is_ok_iff: "is_ok r \<longleftrightarrow> (\<exists>a. r = Ok a)"
  by (cases r) auto

lemma ran_ok:
  assumes "is_ok (fst r)"
  obtains a st' where "r = (Ok a, st')"
  using assms by (cases r) (auto simp: is_ok_iff)

text \<open>Reading \<open>xs[i]\<close>: an index outside the slice panics.\<close>

definition slice_at :: "'a list \<Rightarrow> int \<Rightarrow> ('e, 'a) outcome" where
  "slice_at xs i =
     (if 0 \<le> i \<and> i < int (length xs) then Ok (xs ! nat i) else Panic ''index out of range'')"

lemma slice_at_Ok [simp]:
  "0 \<le> i \<Longrightarrow> i < int (length xs) \<Longrightarrow> slice_at xs i = Ok (xs ! nat i)"
  by (simp add: slice_at_def)

lemma slice_at_Panic [simp]:
  "i < 0 \<or> int (length xs) \<le> i \<Longrightarrow> slice_at xs i = Panic ''index out of range''"
  by (auto simp: slice_at_def)

text \<open>Slicing \<open>xs[lo:hi]\<close> of a slice whose capacity is its length.\<close>

definition slice_range :: "'a list \<Rightarrow> int \<Rightarrow> int \<Rightarrow> ('e, 'a list) outcome" where
  "slice_range xs lo hi =
     (if 0 \<le> lo \<and> lo \<le> hi \<and> hi \<le> int (length xs)
      then Ok (take (nat hi - nat lo) (drop (nat lo) xs))
      else Panic ''slice bounds out of range'')"

section \<open>Go maps\<close>

text \<open>
  A Go map is an association list with distinct keys, updated by \<open>AList.update\<close> and read
  by \<open>map_of\<close>. Where the program ranges over a map, the order of the list is one possible
  iteration order, and a definition whose result could depend on it says so.
\<close>

type_synonym ('k, 'v) gomap = "('k \<times> 'v) list"

definition wf_map :: "('k, 'v) gomap \<Rightarrow> bool" where
  "wf_map m \<longleftrightarrow> distinct (map fst m)"

abbreviation map_put :: "'k \<Rightarrow> 'v \<Rightarrow> ('k, 'v) gomap \<Rightarrow> ('k, 'v) gomap" where
  "map_put \<equiv> AList.update"

text \<open>\<open>m[k]\<close> reads the zero value \<open>d\<close> where the key is absent.\<close>

definition map_get_or :: "'v \<Rightarrow> ('k, 'v) gomap \<Rightarrow> 'k \<Rightarrow> 'v" where
  "map_get_or d m k = (case map_of m k of None \<Rightarrow> d | Some v \<Rightarrow> v)"

lemma map_get_or_Nil [simp]: "map_get_or d [] k = d"
  by (simp add: map_get_or_def)

text \<open>Ranging over \<open>src\<close> and storing every pair in \<open>dst\<close>.\<close>

definition map_put_all :: "('k, 'v) gomap \<Rightarrow> ('k, 'v) gomap \<Rightarrow> ('k, 'v) gomap" where
  "map_put_all src dst = fold (\<lambda>(k, v) d. map_put k v d) src dst"

lemma map_of_put [map_simps]: "map_of (map_put k v m) = (map_of m)(k \<mapsto> v)"
  by (rule update_conv')

lemma wf_map_put [inv_intros]: "wf_map m \<Longrightarrow> wf_map (map_put k v m)"
  by (simp add: wf_map_def distinct_update)

lemma map_put_nonempty [simp]: "map_put k v m \<noteq> []"
  by (cases m) auto

lemma map_put_new: "k \<notin> fst ` set m \<Longrightarrow> map_put k v m = m @ [(k, v)]"
  by (induction m) auto

lemma wf_map_put_all [inv_intros]: "wf_map dst \<Longrightarrow> wf_map (map_put_all src dst)"
  unfolding map_put_all_def
  by (induction src arbitrary: dst) (auto intro: wf_map_put)

lemma map_put_all_Nil [simp]: "map_put_all [] dst = dst"
  by (simp add: map_put_all_def)

lemma map_put_all_Cons [simp]:
  "map_put_all ((k, v) # src) dst = map_put_all src (map_put k v dst)"
  by (simp add: map_put_all_def)

lemma map_of_put_all [map_simps]:
  "wf_map src \<Longrightarrow> map_of (map_put_all src dst) = map_of dst ++ map_of src"
proof (induction src arbitrary: dst)
  case Nil
  then show ?case by simp
next
  case (Cons kv src)
  obtain k v where kv: "kv = (k, v)" by (cases kv)
  have k: "map_of src k = None" and wf: "wf_map src"
    using Cons.prems by (auto simp: wf_map_def kv map_of_eq_None_iff)
  have "map_of (map_put_all (kv # src) dst) = (map_of dst)(k \<mapsto> v) ++ map_of src"
    unfolding kv map_put_all_Cons Cons.IH [OF wf] map_of_put ..
  also have "\<dots> = map_of dst ++ (map_of src)(k \<mapsto> v)"
    using k by (auto simp: map_add_def fun_eq_iff split: option.split)
  finally show ?case by (simp only: kv map_of.simps fst_conv snd_conv)
qed

lemma keys_map_put: "fst ` set (map_put k v m) = insert k (fst ` set m)"
  using dom_update [of k v m] by (simp add: dom_map_of_conv_image_fst)

lemma set_map_put: "wf_map m \<Longrightarrow> (k', v') \<in> set (map_put k v m) \<Longrightarrow> k' = k \<and> v' = v \<or> (k', v') \<in> set m"
proof -
  assume wf: "wf_map m" and mem: "(k', v') \<in> set (map_put k v m)"
  have "map_of (map_put k v m) k' = Some v'"
    using mem wf_map_put [OF wf] by (simp add: wf_map_def)
  then have "((map_of m)(k \<mapsto> v)) k' = Some v'" by (simp add: map_simps)
  then show ?thesis by (auto split: if_splits dest: map_of_SomeD)
qed

text \<open>A loop that puts one key after the other keeps an invariant and collects the keys.\<close>

lemma fold_keys:
  assumes "\<And>x m. P m \<Longrightarrow> P (f x m)"
    and "\<And>x m. fst ` set (f x m) = insert (k x) (fst ` set m)"
    and "P m"
  shows "P (fold f xs m) \<and> fst ` set (fold f xs m) = k ` set xs \<union> fst ` set m"
  using assms(3)
proof (induction xs arbitrary: m)
  case (Cons x xs)
  then show ?case using Cons.IH [of "f x m"] assms(1,2) by auto
qed simp

section \<open>Replace the first match, or append\<close>

text \<open>
  The loop \<open>for i := range xs { if key(xs[i]) == key(x) { xs[i] = x; return xs } };
  return append(xs, x)\<close> occurs in the ledger (publications, voice rooms, schedules) and in
  the message parts. Its contract is the locale's two laws.
\<close>

locale keyed_upsert =
  fixes key :: "'a \<Rightarrow> 'k"
    and upsert :: "'a list \<Rightarrow> 'a \<Rightarrow> 'a list"
  assumes upsert_Nil: "upsert [] x = [x]"
    and upsert_Cons:
      "upsert (y # ys) x = (if key y = key x then x # ys else y # upsert ys x)"
begin

lemma set_upsert_key: "key ` set (upsert xs x) = insert (key x) (key ` set xs)"
  by (induction xs) (auto simp: upsert_Nil upsert_Cons)

lemma upsert_mem: "x \<in> set (upsert xs x)"
  by (induction xs) (auto simp: upsert_Nil upsert_Cons)

lemma upsert_distinct:
  "distinct (map key xs) \<Longrightarrow> distinct (map key (upsert xs x))"
proof (induction xs)
  case Nil
  then show ?case by (simp add: upsert_Nil)
next
  case (Cons y ys)
  then show ?case using set_upsert_key [of ys x] by (auto simp: upsert_Cons)
qed

lemma find_upsert_same: "find (\<lambda>y. key y = key x) (upsert xs x) = Some x"
  by (induction xs) (auto simp: upsert_Nil upsert_Cons)

lemma find_upsert_other:
  "k \<noteq> key x \<Longrightarrow> find (\<lambda>y. key y = k) (upsert xs x) = find (\<lambda>y. key y = k) xs"
  by (induction xs) (auto simp: upsert_Nil upsert_Cons)

lemma length_upsert:
  "length (upsert xs x) = (if key x \<in> key ` set xs then length xs else Suc (length xs))"
  by (induction xs) (auto simp: upsert_Nil upsert_Cons)

lemma map_key_upsert:
  "map key (upsert xs x) = (if key x \<in> key ` set xs then map key xs else map key xs @ [key x])"
  by (induction xs) (auto simp: upsert_Nil upsert_Cons)

lemma upsert_twice: "key x = key z \<Longrightarrow> upsert (upsert xs x) z = upsert xs z"
  by (induction xs) (auto simp: upsert_Nil upsert_Cons)

end

section \<open>Transition systems and their invariants\<close>

text \<open>
  A component whose operations interleave is a start state and a step relation; the
  reachable states are the least set closed under steps. An invariant that holds at the
  start and that every step keeps holds in all of them.
\<close>

inductive reach :: "('s \<Rightarrow> bool) \<Rightarrow> ('s \<Rightarrow> 's \<Rightarrow> bool) \<Rightarrow> 's \<Rightarrow> bool"
  for init :: "'s \<Rightarrow> bool" and step :: "'s \<Rightarrow> 's \<Rightarrow> bool" where
  reach_init: "init s \<Longrightarrow> reach init step s"
| reach_step: "reach init step s \<Longrightarrow> step s t \<Longrightarrow> reach init step t"

locale invariant_system =
  fixes init :: "'s \<Rightarrow> bool"
    and step :: "'s \<Rightarrow> 's \<Rightarrow> bool"
    and inv :: "'s \<Rightarrow> bool"
  assumes init_inv: "init s \<Longrightarrow> inv s"
    and step_inv: "step s t \<Longrightarrow> inv s \<Longrightarrow> inv t"
begin

lemma reachable_inv: "reach init step s \<Longrightarrow> inv s"
  by (induction rule: reach.induct) (auto intro: init_inv step_inv)

lemma steps_inv: "step\<^sup>*\<^sup>* s t \<Longrightarrow> inv s \<Longrightarrow> inv t"
  by (induction rule: rtranclp_induct) (auto intro: step_inv)

end

end
