(* ===== verification/Go_Strings.thy ===== *)
theory Go_Strings
  imports Prelude
begin

text \<open>
  The parts of Go's standard library that the modelled code calls on strings. A Go string
  is a sequence of bytes, a HOL \<open>string\<close> a list of 8-bit characters, so lengths and indices
  agree. Everything here is computable.
\<close>

section \<open>Prefixes, splitting, joining\<close>

text \<open>\<open>strings.HasPrefix(s, p)\<close>.\<close>

fun has_prefix :: "string \<Rightarrow> string \<Rightarrow> bool" where
  "has_prefix s [] = True"
| "has_prefix [] (p # ps) = False"
| "has_prefix (c # cs) (p # ps) = (c = p \<and> has_prefix cs ps)"

lemma has_prefix_iff: "has_prefix s p \<longleftrightarrow> (\<exists>t. s = p @ t)"
  by (induction s p rule: has_prefix.induct) auto

lemma has_prefix_append [simp]: "has_prefix (p @ t) p"
  by (auto simp: has_prefix_iff)

lemma has_prefix_length: "has_prefix s p \<Longrightarrow> length p \<le> length s"
  by (auto simp: has_prefix_iff)

lemma has_prefix_trans: "has_prefix s p \<Longrightarrow> has_prefix p q \<Longrightarrow> has_prefix s q"
  by (auto simp: has_prefix_iff)

text \<open>\<open>strings.Split(s, sep)\<close> for a one-byte separator: never the empty list.\<close>

fun split_on :: "char \<Rightarrow> string \<Rightarrow> string list" where
  "split_on c [] = [[]]"
| "split_on c (x # xs) =
     (if x = c then [] # split_on c xs
      else (case split_on c xs of [] \<Rightarrow> [[x]] | y # ys \<Rightarrow> (x # y) # ys))"

text \<open>\<open>strings.Join(xs, sep)\<close>.\<close>

fun join :: "string \<Rightarrow> string list \<Rightarrow> string" where
  "join sep [] = []"
| "join sep [x] = x"
| "join sep (x # y # ys) = x @ sep @ join sep (y # ys)"

lemma split_on_nonempty [simp]: "split_on c s \<noteq> []"
  by (induction s) (auto split: list.splits)

lemma join_split [simp]: "join [c] (split_on c s) = s"
proof (induction s)
  case Nil
  then show ?case by simp
next
  case (Cons x xs)
  obtain y ys where yys: "split_on c xs = y # ys"
    by (cases "split_on c xs") auto
  show ?case
    using Cons.IH by (cases ys) (auto simp: yys)
qed

lemma split_on_no_sep: "c \<notin> set s \<Longrightarrow> split_on c s = [s]"
  by (induction s) auto

lemma split_on_sep: "c \<notin> set x \<Longrightarrow> split_on c (x @ c # s) = x # split_on c s"
  by (induction x) auto

lemma split_join:
  "xs \<noteq> [] \<Longrightarrow> \<forall>x\<in>set xs. c \<notin> set x \<Longrightarrow> split_on c (join [c] xs) = xs"
proof (induction xs rule: induct_list012)
  case 1
  then show ?case by simp
next
  case (2 x)
  then show ?case by (simp add: split_on_no_sep)
next
  case (3 x y ys)
  then show ?case by (simp add: split_on_sep)
qed

lemma split_on_mem: "x \<in> set (split_on c s) \<Longrightarrow> c \<notin> set x"
proof (induction s arbitrary: x)
  case Nil
  then show ?case by simp
next
  case (Cons a s)
  then show ?case
    by (cases "split_on c s") (fastforce split: if_splits)+
qed

section \<open>Trimming\<close>

text \<open>
  \<open>strings.TrimRight(s, " \t")\<close> removes a cut set of bytes at the end, \<open>strings.Trim\<close> at
  both ends.
\<close>

definition trim_right_set :: "char list \<Rightarrow> string \<Rightarrow> string" where
  "trim_right_set cs s = rev (dropWhile (\<lambda>c. c \<in> set cs) (rev s))"

definition trim_set :: "char list \<Rightarrow> string \<Rightarrow> string" where
  "trim_set cs s = trim_right_set cs (dropWhile (\<lambda>c. c \<in> set cs) s)"

text \<open>
  \<open>strings.TrimSpace\<close> removes white space as Unicode defines it. The table holds the UTF-8
  encodings of the 25 white-space code points; no encoding is a prefix of another, and a
  string ends in one of them exactly if Go's \<open>utf8.DecodeLastRune\<close> finds that rune there.
\<close>

definition white_space :: "string list" where
  "white_space =
     [[CHR 0x09], [CHR 0x0A], [CHR 0x0B], [CHR 0x0C], [CHR 0x0D], [CHR 0x20],
      [CHR 0xC2, CHR 0x85], [CHR 0xC2, CHR 0xA0], [CHR 0xE1, CHR 0x9A, CHR 0x80],
      [CHR 0xE2, CHR 0x80, CHR 0x80], [CHR 0xE2, CHR 0x80, CHR 0x81],
      [CHR 0xE2, CHR 0x80, CHR 0x82], [CHR 0xE2, CHR 0x80, CHR 0x83],
      [CHR 0xE2, CHR 0x80, CHR 0x84], [CHR 0xE2, CHR 0x80, CHR 0x85],
      [CHR 0xE2, CHR 0x80, CHR 0x86], [CHR 0xE2, CHR 0x80, CHR 0x87],
      [CHR 0xE2, CHR 0x80, CHR 0x88], [CHR 0xE2, CHR 0x80, CHR 0x89],
      [CHR 0xE2, CHR 0x80, CHR 0x8A], [CHR 0xE2, CHR 0x80, CHR 0xA8],
      [CHR 0xE2, CHR 0x80, CHR 0xA9], [CHR 0xE2, CHR 0x80, CHR 0xAF],
      [CHR 0xE2, CHR 0x81, CHR 0x9F], [CHR 0xE3, CHR 0x80, CHR 0x80]]"

function strip_runes :: "string list \<Rightarrow> string \<Rightarrow> string" where
  "strip_runes rs s =
     (case find (\<lambda>r. r \<noteq> [] \<and> has_prefix s r) rs of
        None \<Rightarrow> s
      | Some r \<Rightarrow> strip_runes rs (drop (length r) s))"
  by pat_completeness auto
termination
proof (relation "measure (\<lambda>(rs, s). length s)")
  fix rs s r
  assume "find (\<lambda>r. r \<noteq> [] \<and> has_prefix s r) rs = Some r"
  then have "r \<noteq> []" and "has_prefix s r"
    by (auto simp: find_Some_iff)
  then have "0 < length r" and "length r \<le> length s"
    by (auto dest: has_prefix_length)
  then have "length s - length r < length s" by linarith
  then show "((rs, drop (length r) s), (rs, s)) \<in> measure (\<lambda>(rs, s). length s)"
    by simp
qed simp

declare strip_runes.simps [simp del]

definition trim_left_space :: "string \<Rightarrow> string" where
  "trim_left_space s = strip_runes white_space s"

definition trim_right_space :: "string \<Rightarrow> string" where
  "trim_right_space s = rev (strip_runes (map rev white_space) (rev s))"

definition trim_space :: "string \<Rightarrow> string" where
  "trim_space s = trim_right_space (trim_left_space s)"

section \<open>Case, decimal numbers\<close>

text \<open>\<open>strings.ToLower\<close> on a string of ASCII bytes.\<close>

definition ascii_lower :: "char \<Rightarrow> char" where
  "ascii_lower c =
     (let n = of_char c :: nat in if 65 \<le> n \<and> n \<le> 90 then char_of (n + 32) else c)"

definition to_lower_ascii :: "string \<Rightarrow> string" where
  "to_lower_ascii s = map ascii_lower s"

text \<open>\<open>strconv.Itoa\<close>, and \<open>%d\<close> in \<open>fmt.Sprintf\<close>.\<close>

fun show_nat :: "nat \<Rightarrow> string" where
  "show_nat n =
     (if n < 10 then [char_of (48 + n)] else show_nat (n div 10) @ [char_of (48 + n mod 10)])"

declare show_nat.simps [simp del]

definition show_int :: "int \<Rightarrow> string" where
  "show_int i = (if i < 0 then CHR ''-'' # show_nat (nat (- i)) else show_nat (nat i))"

text \<open>The newline string, used by every line-based routine.\<close>

definition nl :: string where
  "nl = [CHR 0x0A]"

text \<open>Two decimal digits are read back: the inverse of \<^const>\<open>show_nat\<close>.\<close>

definition digit_val :: "char \<Rightarrow> nat option" where
  "digit_val c =
     (let n = of_char c :: nat in if 48 \<le> n \<and> n \<le> 57 then Some (n - 48) else None)"

fun read_nat_acc :: "nat \<Rightarrow> string \<Rightarrow> nat option" where
  "read_nat_acc acc [] = Some acc"
| "read_nat_acc acc (c # cs) =
     (case digit_val c of None \<Rightarrow> None | Some d \<Rightarrow> read_nat_acc (10 * acc + d) cs)"

lemma digit_val_char_of [simp]: "d < 10 \<Longrightarrow> digit_val (char_of (48 + d)) = Some d"
  by (simp add: digit_val_def Let_def)

lemma read_nat_acc_append:
  "read_nat_acc acc (xs @ ys) =
     (case read_nat_acc acc xs of None \<Rightarrow> None | Some a \<Rightarrow> read_nat_acc a ys)"
  by (induction xs arbitrary: acc) (auto split: option.splits)

lemma show_nat_nonempty [simp]: "show_nat n \<noteq> []"
  by (subst show_nat.simps) simp

lemma read_show_nat: "read_nat_acc 0 (show_nat n) = Some n"
proof (induction n rule: show_nat.induct)
  case (1 n)
  show ?case
  proof (cases "n < 10")
    case True
    then have "show_nat n = [char_of (48 + n)]"
      by (simp add: show_nat.simps [of n])
    with True show ?thesis
      by (simp only: read_nat_acc.simps digit_val_char_of option.case) simp
  next
    case False
    then have "show_nat n = show_nat (n div 10) @ [char_of (48 + n mod 10)]"
      by (simp add: show_nat.simps [of n])
    moreover have "digit_val (char_of (48 + n mod 10)) = Some (n mod 10)"
      by (rule digit_val_char_of) simp
    ultimately show ?thesis
      using 1 [OF False]
      by (simp only: read_nat_acc_append read_nat_acc.simps option.case) simp
  qed
qed

lemma show_nat_inject: "show_nat m = show_nat n \<longleftrightarrow> m = n"
  by (metis read_show_nat option.inject)

text \<open>The verb \<open>%q\<close>, on text without characters that it escapes.\<close>

definition quoted :: "string \<Rightarrow> string" where
  "quoted s = CHR 0x22 # s @ [CHR 0x22]"

section \<open>Order of strings\<close>

text \<open>Go compares strings byte by byte; this is the order of \<open>sort.Strings\<close>.\<close>

fun str_less :: "string \<Rightarrow> string \<Rightarrow> bool" where
  "str_less xs [] = False"
| "str_less [] (y # ys) = True"
| "str_less (x # xs) (y # ys) =
     (of_char x < (of_char y :: nat) \<or> x = y \<and> str_less xs ys)"

lemma str_less_irrefl [simp]: "\<not> str_less xs xs"
  by (induction xs) auto

lemma str_less_Nil_right [simp]: "\<not> str_less xs []"
  by (cases xs) auto

lemma str_less_trans: "str_less xs ys \<Longrightarrow> str_less ys zs \<Longrightarrow> str_less xs zs"
proof (induction xs ys arbitrary: zs rule: str_less.induct)
  case (3 x xs y ys)
  then show ?case by (cases zs) auto
qed (auto elim: str_less.elims)

lemma str_less_linear: "str_less xs ys \<or> xs = ys \<or> str_less ys xs"
proof (induction xs ys rule: str_less.induct)
  case (1 xs)
  then show ?case by (cases xs) auto
next
  case (3 x xs y ys)
  have "of_char x < (of_char y :: nat) \<or> of_char y < (of_char x :: nat) \<or> x = y"
    using of_char_eq_iff [of x y, where 'a = nat] by (metis linorder_neqE_nat)
  with 3 show ?case by auto
qed auto

lemma str_less_asym: "str_less xs ys \<Longrightarrow> \<not> str_less ys xs"
  using str_less_trans [of xs ys xs] by auto

fun insert_str :: "string \<Rightarrow> string list \<Rightarrow> string list" where
  "insert_str x [] = [x]"
| "insert_str x (y # ys) = (if str_less y x then y # insert_str x ys else x # y # ys)"

text \<open>
  \<open>sort.Strings\<close>: equal strings cannot be told apart, so there is only one sorted
  arrangement, and insertion sort computes it.
\<close>

definition sort_strings :: "string list \<Rightarrow> string list" where
  "sort_strings xs = foldr insert_str xs []"

lemma set_insert_str [simp]: "set (insert_str x ys) = insert x (set ys)"
  by (induction ys) auto

lemma length_insert_str [simp]: "length (insert_str x ys) = Suc (length ys)"
  by (induction ys) auto

lemma set_sort_strings [simp]: "set (sort_strings xs) = set xs"
  unfolding sort_strings_def by (induction xs) auto

lemma length_sort_strings [simp]: "length (sort_strings xs) = length xs"
  unfolding sort_strings_def by (induction xs) auto

lemma sorted_insert_str:
  "sorted_wrt (\<lambda>a b. \<not> str_less b a) ys \<Longrightarrow> sorted_wrt (\<lambda>a b. \<not> str_less b a) (insert_str x ys)"
proof (induction ys)
  case (Cons y ys)
  then show ?case
    using str_less_asym [of y x] str_less_linear str_less_trans [of _ x y] by auto
qed simp

lemma sorted_sort_strings: "sorted_wrt (\<lambda>a b. \<not> str_less b a) (sort_strings xs)"
  unfolding sort_strings_def by (induction xs) (auto intro: sorted_insert_str)

lemma distinct_insert_str [simp]: "distinct (insert_str x ys) \<longleftrightarrow> x \<notin> set ys \<and> distinct ys"
  by (induction ys) auto

lemma distinct_sort_strings [simp]: "distinct (sort_strings xs) \<longleftrightarrow> distinct xs"
proof (induction xs)
  case (Cons x xs)
  then show ?case
    using set_sort_strings [of xs] by (simp add: sort_strings_def)
qed (simp add: sort_strings_def)

end
