(* ===== verification/Patch_Parse.thy ===== *)
theory Patch_Parse
  imports Go_Strings
begin

text \<open>
  The parser of \<open>internal/diff/patch.go\<close>: the patch data model, the parser state, the
  search for a section's context in the file, the section reader and the two parsing
  loops. The loops of the code can run forever, so they take fuel; \<open>None\<close> is "did not
  return within the fuel". Line indices that the code never makes negative are \<open>nat\<close>,
  those it computes by subtraction are \<open>int\<close>.
\<close>

section \<open>Data model\<close>

datatype patch_kind = ActionAdd | ActionDelete | ActionUpdate

record file_change =
  fc_Type :: patch_kind
  fc_OldContent :: "string option"
  fc_NewContent :: "string option"
  fc_MovePath :: "string option"

type_synonym commit = "(string, file_change) gomap"

record chunk =
  OrigIndex :: int
  DelLines :: "string list"
  InsLines :: "string list"

record patch_action =
  pa_Type :: patch_kind
  pa_NewFile :: "string option"
  pa_Chunks :: "chunk list"
  pa_MovePath :: "string option"

type_synonym patch = "(string, patch_action) gomap"

definition fileError :: "string \<Rightarrow> string \<Rightarrow> string \<Rightarrow> string" where
  "fileError action reason path = action @ '' File Error: '' @ reason @ '': '' @ path"

definition contextError :: "int \<Rightarrow> string \<Rightarrow> bool \<Rightarrow> string" where
  "contextError index ctx isEOF =
     (if isEOF then ''Invalid EOF Context'' else ''Invalid Context'')
     @ '' '' @ show_int index @ '':'' @ nl @ ctx"

section \<open>Parser state and line reader\<close>

record parser =
  currentFiles :: "(string, string) gomap"
  p_lines :: "string list"
  p_index :: nat
  p_patch :: patch
  p_fuzz :: int

definition NewParser :: "(string, string) gomap \<Rightarrow> string list \<Rightarrow> parser" where
  "NewParser files ls =
     \<lparr>currentFiles = files, p_lines = ls, p_index = 0, p_patch = [], p_fuzz = 0\<rparr>"

definition isDone :: "parser \<Rightarrow> string list \<Rightarrow> bool" where
  "isDone p prefixes \<longleftrightarrow>
     length (p_lines p) \<le> p_index p
     \<or> list_ex (\<lambda>pfx. has_prefix (p_lines p ! p_index p) pfx) prefixes"

fun startsWith :: "parser \<Rightarrow> string list \<Rightarrow> (string, bool) outcome" where
  "startsWith p [] = Ok False"
| "startsWith p (pfx # rest) =
     obind (slice_at (p_lines p) (int (p_index p)))
       (\<lambda>l. if has_prefix l pfx then Ok True else startsWith p rest)"

definition readStr :: "parser \<Rightarrow> string \<Rightarrow> bool \<Rightarrow> string \<times> parser" where
  "readStr p pfx returnEverything =
     (if length (p_lines p) \<le> p_index p then ([], p)
      else let l = p_lines p ! p_index p in
        if has_prefix l pfx
        then (if returnEverything then l else drop (length pfx) l,
              p\<lparr>p_index := Suc (p_index p)\<rparr>)
        else ([], p))"

section \<open>Finding a context in the file\<close>

text \<open>
  \<open>match_at\<close> is the inner loop of \<open>tryFindMatch\<close>: it compares the context with the lines
  from \<open>i\<close> on and stops at the first difference. Reading before the start of the file
  panics.
\<close>

fun match_at ::
  "(string \<Rightarrow> string \<Rightarrow> bool) \<Rightarrow> string list \<Rightarrow> int \<Rightarrow> string list \<Rightarrow> (string, bool) outcome"
where
  "match_at cmp ls i [] = Ok True"
| "match_at cmp ls i (c # cs) =
     obind (slice_at ls i)
       (\<lambda>l. if cmp l c then match_at cmp ls (i + 1) cs else Ok False)"

text \<open>The fuzz level that \<open>tryFindMatch\<close> derives by probing its comparison function.\<close>

definition probe_fuzz :: "(string \<Rightarrow> string \<Rightarrow> bool) \<Rightarrow> int" where
  "probe_fuzz cmp =
     (if cmp ''a '' ''a'' \<and> \<not> cmp ''a'' ''b'' then 1
      else if cmp ''a  '' ''a'' then 100
      else 0)"

function tryFindMatch ::
  "string list \<Rightarrow> string list \<Rightarrow> int \<Rightarrow> (string \<Rightarrow> string \<Rightarrow> bool) \<Rightarrow> (string, int \<times> int) outcome"
where
  "tryFindMatch ls ctx i cmp =
     (if i < int (length ls) then
        (if i + int (length ctx) \<le> int (length ls) then
           obind (match_at cmp ls i ctx)
             (\<lambda>m. if m then Ok (i, probe_fuzz cmp) else tryFindMatch ls ctx (i + 1) cmp)
         else tryFindMatch ls ctx (i + 1) cmp)
      else Ok (-1, 0))"
  by pat_completeness auto
termination
  by (relation "measure (\<lambda>(ls, ctx, i, cmp). nat (int (length ls) - i))") auto

declare tryFindMatch.simps [simp del]

definition cmp_exact :: "string \<Rightarrow> string \<Rightarrow> bool" where
  "cmp_exact a b \<longleftrightarrow> a = b"

definition cmp_trim_right :: "string \<Rightarrow> string \<Rightarrow> bool" where
  "cmp_trim_right a b \<longleftrightarrow>
     trim_right_set [CHR '' '', CHR 0x09] a = trim_right_set [CHR '' '', CHR 0x09] b"

definition cmp_trim_space :: "string \<Rightarrow> string \<Rightarrow> bool" where
  "cmp_trim_space a b \<longleftrightarrow> trim_space a = trim_space b"

definition findContextCore ::
  "string list \<Rightarrow> string list \<Rightarrow> int \<Rightarrow> (string, int \<times> int) outcome"
where
  "findContextCore ls ctx start =
     (if ctx = [] then Ok (start, 0)
      else obind (tryFindMatch ls ctx start cmp_exact) (\<lambda>(i1, f1).
        if 0 \<le> i1 then Ok (i1, f1)
        else obind (tryFindMatch ls ctx start cmp_trim_right) (\<lambda>(i2, f2).
          if 0 \<le> i2 then Ok (i2, f2)
          else obind (tryFindMatch ls ctx start cmp_trim_space) (\<lambda>(i3, f3).
            if 0 \<le> i3 then Ok (i3, f3) else Ok (-1, 0)))))"

definition findContext ::
  "string list \<Rightarrow> string list \<Rightarrow> int \<Rightarrow> bool \<Rightarrow> (string, int \<times> int) outcome"
where
  "findContext ls ctx start eof =
     (if eof then
        obind (findContextCore ls ctx (int (length ls) - int (length ctx))) (\<lambda>(i, f).
          if i \<noteq> -1 then Ok (i, f)
          else obind (findContextCore ls ctx start) (\<lambda>(i', f'). Ok (i', f' + 10000)))
      else findContextCore ls ctx start)"

section \<open>Reading one section\<close>

datatype section_mode = Keep | Add | Delete

definition endSection :: "string \<Rightarrow> bool" where
  "endSection s \<longleftrightarrow>
     has_prefix s ''@@'' \<or> has_prefix s ''*** End Patch''
     \<or> has_prefix s ''*** Update File:'' \<or> has_prefix s ''*** Delete File:''
     \<or> has_prefix s ''*** Add File:'' \<or> has_prefix s ''*** End of File''
     \<or> s = ''***'' \<or> has_prefix s ''***''"

text \<open>The mode of a patch line and the line without its marker.\<close>

fun line_mode :: "string \<Rightarrow> section_mode \<times> string" where
  "line_mode [] = (Keep, [])"
| "line_mode (c # cs) =
     (if c = CHR ''+'' then (Add, cs)
      else if c = CHR ''-'' then (Delete, cs)
      else if c = CHR '' '' then (Keep, cs)
      else (Keep, c # cs))"

definition mk_chunk :: "string list \<Rightarrow> string list \<Rightarrow> string list \<Rightarrow> chunk" where
  "mk_chunk old del ins =
     \<lparr>OrigIndex = int (length old) - int (length del), DelLines = del, InsLines = ins\<rparr>"

definition flush_chunk ::
  "string list \<Rightarrow> string list \<Rightarrow> string list \<Rightarrow> chunk list \<Rightarrow> chunk list"
where
  "flush_chunk old del ins chunks =
     (if ins \<noteq> [] \<or> del \<noteq> [] then chunks @ [mk_chunk old del ins] else chunks)"

text \<open>
  The loop of \<open>peekNextSection\<close> over the remaining lines: the lines the section expects in
  the file (\<open>old\<close>), the pending deletions and insertions, the finished chunks, and the
  index where it stopped.
\<close>

fun peek_loop ::
  "string list \<Rightarrow> nat \<Rightarrow> string list \<Rightarrow> string list \<Rightarrow> string list \<Rightarrow> chunk list \<Rightarrow> section_mode
   \<Rightarrow> string list \<times> string list \<times> string list \<times> chunk list \<times> nat"
where
  "peek_loop [] i old del ins chunks mode = (old, del, ins, chunks, i)"
| "peek_loop (s # rest) i old del ins chunks mode =
     (if endSection s then (old, del, ins, chunks, i)
      else
        (case line_mode s of
           (Keep, line) \<Rightarrow>
             (if mode \<noteq> Keep
              then peek_loop rest (Suc i) (old @ [line]) [] []
                     (flush_chunk old del ins chunks) Keep
              else peek_loop rest (Suc i) (old @ [line]) del ins chunks Keep)
         | (Delete, line) \<Rightarrow>
             peek_loop rest (Suc i) (old @ [line]) (del @ [line]) ins chunks Delete
         | (Add, line) \<Rightarrow>
             peek_loop rest (Suc i) old del (ins @ [line]) chunks Add))"

definition peekNextSection ::
  "string list \<Rightarrow> nat \<Rightarrow> string list \<times> chunk list \<times> nat \<times> bool"
where
  "peekNextSection ls i =
     (case peek_loop (drop i ls) i [] [] [] [] Keep of
        (old, del, ins, chunks, j) \<Rightarrow>
          (let chunks' = flush_chunk old del ins chunks in
           if j < length ls \<and> ls ! j = ''*** End of File''
           then (old, chunks', Suc j, True)
           else (old, chunks', j, False)))"

section \<open>The parsing loops\<close>

definition update_end_prefixes :: "string list" where
  "update_end_prefixes =
     [''*** End Patch'', ''*** Update File:'', ''*** Delete File:'', ''*** Add File:'',
      ''*** End of File'']"

definition add_end_prefixes :: "string list" where
  "add_end_prefixes =
     [''*** End Patch'', ''*** Update File:'', ''*** Delete File:'', ''*** Add File:'']"

fun first_from :: "('a \<Rightarrow> bool) \<Rightarrow> 'a list \<Rightarrow> int \<Rightarrow> int option" where
  "first_from P [] i = None"
| "first_from P (x # xs) i = (if P x then Some i else first_from P xs (i + 1))"

text \<open>
  The search for the line named after \<open>@@\<close>: exact before the cursor, exact after it,
  trimmed before it, trimmed after it. A hit before the cursor leaves the cursor where it
  is. The result is the new cursor and the added fuzz.
\<close>

definition locate_def :: "string list \<Rightarrow> string \<Rightarrow> int \<Rightarrow> (string, int \<times> int) outcome" where
  "locate_def fileLines defStr index =
     obind (slice_range fileLines 0 index) (\<lambda>pre.
       let post = drop (nat index) fileLines;
           same = (\<lambda>l. trim_space l = trim_space defStr)
       in if list_ex (\<lambda>l. l = defStr) pre then Ok (index, 0)
          else (case first_from (\<lambda>l. l = defStr) post index of
             Some i \<Rightarrow> Ok (i + 1, 0)
           | None \<Rightarrow>
               if list_ex same pre then Ok (index, 0)
               else (case first_from same post index of
                  Some i \<Rightarrow> Ok (i + 1, 1)
                | None \<Rightarrow> Ok (index, 0))))"

definition shift_chunk :: "int \<Rightarrow> chunk \<Rightarrow> chunk" where
  "shift_chunk d ch = ch\<lparr>OrigIndex := OrigIndex ch + d\<rparr>"

text \<open>
  One pass of the loop of \<open>parseUpdateFile\<close> after its guard: \<open>Inl\<close> is a return from the
  function, \<open>Inr\<close> the parser, cursor and chunks for the next pass.
\<close>

definition update_step ::
  "parser \<Rightarrow> string list \<Rightarrow> int \<Rightarrow> chunk list \<Rightarrow> (string, parser \<times> int \<times> chunk list) outcome"
where
  "update_step p fileLines index chunks =
     (let (defStr, p1) = readStr p ''@@ '' False;
          bare = (defStr = [] \<and> p_index p1 < length (p_lines p1)
                  \<and> p_lines p1 ! p_index p1 = ''@@'');
          p2 = (if bare then p1\<lparr>p_index := Suc (p_index p1)\<rparr> else p1)
      in if defStr = [] \<and> \<not> bare \<and> index \<noteq> 0
         then obind (slice_at (p_lines p2) (int (p_index p2)))
                (\<lambda>l. Err (''Invalid Line:'' @ nl @ l))
         else obind (if trim_space defStr \<noteq> [] then locate_def fileLines defStr index
                     else Ok (index, 0)) (\<lambda>(index1, f1).
           let (ctx, chs, endIndex, eof) = peekNextSection (p_lines p2) (p_index p2)
           in obind (findContext fileLines ctx index1 eof) (\<lambda>(newIndex, f2).
             if newIndex = -1 then Err (contextError index1 (join nl ctx) eof)
             else Ok (p2\<lparr>p_fuzz := p_fuzz p2 + f1 + f2, p_index := endIndex\<rparr>,
                      newIndex + int (length ctx),
                      chunks @ map (shift_chunk newIndex) chs))))"

fun update_loop ::
  "nat \<Rightarrow> parser \<Rightarrow> string list \<Rightarrow> int \<Rightarrow> chunk list
   \<Rightarrow> (string, parser \<times> chunk list) outcome option"
where
  "update_loop 0 p fileLines index chunks = None"
| "update_loop (Suc n) p fileLines index chunks =
     (if isDone p update_end_prefixes then Some (Ok (p, chunks))
      else (case update_step p fileLines index chunks of
          Ok (p', index', chunks') \<Rightarrow> update_loop n p' fileLines index' chunks'
        | Err e \<Rightarrow> Some (Err e)
        | Panic m \<Rightarrow> Some (Panic m)))"

definition parseUpdateFile ::
  "nat \<Rightarrow> parser \<Rightarrow> string \<Rightarrow> (string, parser \<times> patch_action) outcome option"
where
  "parseUpdateFile fuel p text =
     map_option
       (\<lambda>r. obind r (\<lambda>(p', chunks).
          Ok (p', \<lparr>pa_Type = ActionUpdate, pa_NewFile = None, pa_Chunks = chunks,
                   pa_MovePath = None\<rparr>)))
       (update_loop fuel p (split_on (CHR 0x0A) text) 0 [])"

function add_loop ::
  "parser \<Rightarrow> string list \<Rightarrow> (string, parser \<times> string list) outcome"
where
  "add_loop p ls =
     (if isDone p add_end_prefixes then Ok (p, ls)
      else (case readStr p [] True of (s, p') \<Rightarrow>
        if \<not> has_prefix s ''+'' then Err (''Invalid Add File Line: '' @ s)
        else add_loop p' (ls @ [drop 1 s])))"
  by pat_completeness auto
termination
  by (relation "measure (\<lambda>(p, ls). length (p_lines p) - p_index p)")
     (auto simp: isDone_def readStr_def Let_def split: if_splits)

declare add_loop.simps [simp del]

definition parseAddFile :: "parser \<Rightarrow> (string, parser \<times> patch_action) outcome" where
  "parseAddFile p =
     obind (add_loop p []) (\<lambda>(p', ls).
       Ok (p', \<lparr>pa_Type = ActionAdd, pa_NewFile = Some (join nl ls), pa_Chunks = [],
                pa_MovePath = None\<rparr>))"

text \<open>
  One pass of the loop of \<open>Parse\<close>: the three kinds of file header in the code's order, and
  the error for any other line.
\<close>

definition put_action :: "string \<Rightarrow> patch_action \<Rightarrow> parser \<Rightarrow> parser" where
  "put_action path a p = p\<lparr>p_patch := map_put path a (p_patch p)\<rparr>"

definition parse_update :: "nat \<Rightarrow> string \<Rightarrow> parser \<Rightarrow> (string, parser) outcome option" where
  "parse_update fuel path p1 =
     (if map_of (p_patch p1) path \<noteq> None
      then Some (Err (fileError ''Update'' ''Duplicate Path'' path))
      else (case readStr p1 ''*** Move to: '' False of (moveTo, p2) \<Rightarrow>
        (case map_of (currentFiles p2) path of
           None \<Rightarrow> Some (Err (fileError ''Update'' ''Missing File'' path))
         | Some text \<Rightarrow>
             map_option
               (\<lambda>r. obind r (\<lambda>(p3, action).
                  Ok (put_action path
                        (if moveTo \<noteq> [] then action\<lparr>pa_MovePath := Some moveTo\<rparr> else action)
                        p3)))
               (parseUpdateFile fuel p2 text))))"

definition parse_delete :: "string \<Rightarrow> parser \<Rightarrow> (string, parser) outcome" where
  "parse_delete path p1 =
     (if map_of (p_patch p1) path \<noteq> None
      then Err (fileError ''Delete'' ''Duplicate Path'' path)
      else if map_of (currentFiles p1) path = None
      then Err (fileError ''Delete'' ''Missing File'' path)
      else Ok (put_action path
                 \<lparr>pa_Type = ActionDelete, pa_NewFile = None, pa_Chunks = [],
                  pa_MovePath = None\<rparr> p1))"

definition parse_add :: "string \<Rightarrow> parser \<Rightarrow> (string, parser) outcome" where
  "parse_add path p1 =
     (if map_of (p_patch p1) path \<noteq> None
      then Err (fileError ''Add'' ''Duplicate Path'' path)
      else if map_of (currentFiles p1) path \<noteq> None
      then Err (fileError ''Add'' ''File already exists'' path)
      else obind (parseAddFile p1) (\<lambda>(p2, action). Ok (put_action path action p2)))"

definition parse_step :: "nat \<Rightarrow> parser \<Rightarrow> (string, parser) outcome option" where
  "parse_step fuel p =
     (let (path, p1) = readStr p ''*** Update File: '' False in
      if path \<noteq> [] then parse_update fuel path p1
      else let (path, p2) = readStr p1 ''*** Delete File: '' False in
      if path \<noteq> [] then Some (parse_delete path p2)
      else let (path, p3) = readStr p2 ''*** Add File: '' False in
      if path \<noteq> [] then Some (parse_add path p3)
      else Some (obind (slice_at (p_lines p3) (int (p_index p3)))
                   (\<lambda>l. Err (''Unknown Line: '' @ l))))"

fun parse_loop :: "nat \<Rightarrow> nat \<Rightarrow> parser \<Rightarrow> (string, parser) outcome option" where
  "parse_loop fuel 0 p = None"
| "parse_loop fuel (Suc n) p =
     (if isDone p [''*** End Patch''] then
        Some (obind (startsWith p [''*** End Patch''])
          (\<lambda>b. if b then Ok (p\<lparr>p_index := Suc (p_index p)\<rparr>) else Err ''Missing End Patch''))
      else (case parse_step fuel p of
          None \<Rightarrow> None
        | Some (Ok p') \<Rightarrow> parse_loop fuel n p'
        | Some (Err e) \<Rightarrow> Some (Err e)
        | Some (Panic m) \<Rightarrow> Some (Panic m)))"

definition patch_lines :: "string \<Rightarrow> string list" where
  "patch_lines text = split_on (CHR 0x0A) (trim_space text)"

definition TextToPatch ::
  "nat \<Rightarrow> string \<Rightarrow> (string, string) gomap \<Rightarrow> (string, patch \<times> int) outcome option"
where
  "TextToPatch fuel text orig =
     (let ls = patch_lines text in
      if length ls < 2 \<or> \<not> has_prefix (hd ls) ''*** Begin Patch''
         \<or> last ls \<noteq> ''*** End Patch''
      then Some (Err ''Invalid patch text'')
      else map_option (\<lambda>r. obind r (\<lambda>p. Ok (p_patch p, p_fuzz p)))
             (parse_loop fuel fuel ((NewParser orig ls)\<lparr>p_index := 1\<rparr>)))"

end
