(* ===== verification/Patch_Apply.thy ===== *)
theory Patch_Apply
  imports Patch_Parse
begin

text \<open>
  The second half of \<open>internal/diff/patch.go\<close>: applying the chunks of an update to a file,
  turning a patch into a commit, writing a commit through the file functions the caller
  passes, and the entry points \<open>ProcessPatch\<close> and \<open>ValidatePatch\<close>.
\<close>

section \<open>Applying chunks\<close>

fun apply_chunks ::
  "string \<Rightarrow> string list \<Rightarrow> chunk list \<Rightarrow> int \<Rightarrow> string list
   \<Rightarrow> (string, int \<times> string list) outcome"
where
  "apply_chunks path origLines [] origIndex dest = Ok (origIndex, dest)"
| "apply_chunks path origLines (ch # chs) origIndex dest =
     (if OrigIndex ch > int (length origLines) then
        Err (path @ '': chunk.orig_index '' @ show_int (OrigIndex ch) @ '' > len(lines) ''
             @ show_int (int (length origLines)))
      else if origIndex > OrigIndex ch then
        Err (path @ '': orig_index '' @ show_int origIndex @ '' > chunk.orig_index ''
             @ show_int (OrigIndex ch))
      else obind (slice_range origLines origIndex (OrigIndex ch)) (\<lambda>s.
        apply_chunks path origLines chs
          (origIndex + (OrigIndex ch - origIndex) + int (length (DelLines ch)))
          (dest @ s @ InsLines ch)))"

definition getUpdatedFile :: "string \<Rightarrow> patch_action \<Rightarrow> string \<Rightarrow> (string, string) outcome" where
  "getUpdatedFile text action path =
     (if pa_Type action \<noteq> ActionUpdate then Err ''expected UPDATE action''
      else let origLines = split_on (CHR 0x0A) text in
        obind (apply_chunks path origLines (pa_Chunks action) 0 []) (\<lambda>(origIndex, dest).
          obind (slice_range origLines origIndex (int (length origLines))) (\<lambda>s.
            Ok (join nl (dest @ s)))))"

section \<open>Patches, commits\<close>

text \<open>A Go map read without the comma-ok form: the zero value for a missing key.\<close>

definition map_get_str :: "(string, string) gomap \<Rightarrow> string \<Rightarrow> string" where
  "map_get_str m k = (case map_of m k of None \<Rightarrow> [] | Some v \<Rightarrow> v)"

definition action_change ::
  "(string, string) gomap \<Rightarrow> string \<Rightarrow> patch_action \<Rightarrow> (string, file_change) outcome"
where
  "action_change orig path action =
     (case pa_Type action of
        ActionDelete \<Rightarrow>
          Ok \<lparr>fc_Type = ActionDelete, fc_OldContent = Some (map_get_str orig path),
              fc_NewContent = None, fc_MovePath = None\<rparr>
      | ActionAdd \<Rightarrow>
          Ok \<lparr>fc_Type = ActionAdd, fc_OldContent = None, fc_NewContent = pa_NewFile action,
              fc_MovePath = None\<rparr>
      | ActionUpdate \<Rightarrow>
          obind (getUpdatedFile (map_get_str orig path) action path) (\<lambda>newContent.
            Ok \<lparr>fc_Type = ActionUpdate, fc_OldContent = Some (map_get_str orig path),
                fc_NewContent = Some newContent,
                fc_MovePath = (if pa_MovePath action \<noteq> None then pa_MovePath action
                               else None)\<rparr>))"

text \<open>The loop over the patch's actions, in the order of the list.\<close>

fun commit_loop ::
  "patch \<Rightarrow> (string, string) gomap \<Rightarrow> commit \<Rightarrow> (string, commit) outcome"
where
  "commit_loop [] orig c = Ok c"
| "commit_loop ((path, action) # rest) orig c =
     obind (action_change orig path action)
       (\<lambda>fc. commit_loop rest orig (map_put path fc c))"

definition PatchToCommit ::
  "patch \<Rightarrow> (string, string) gomap \<Rightarrow> (string, commit) outcome"
where
  "PatchToCommit patch orig = commit_loop patch orig []"

text \<open>
  \<open>AssembleChanges\<close> ranges over the updated files; the last branch returns from the whole
  function, so what it drops depends on the iteration order.
\<close>

fun assemble_loop ::
  "(string, string) gomap \<Rightarrow> (string, string) gomap \<Rightarrow> commit \<Rightarrow> commit"
where
  "assemble_loop orig [] c = c"
| "assemble_loop orig ((p, newContent) # rest) c =
     (case map_of orig p of
        Some oldContent \<Rightarrow>
          if oldContent = newContent then assemble_loop orig rest c
          else if newContent \<noteq> [] then
            assemble_loop orig rest
              (map_put p \<lparr>fc_Type = ActionUpdate, fc_OldContent = Some oldContent,
                          fc_NewContent = Some newContent, fc_MovePath = None\<rparr> c)
          else
            assemble_loop orig rest
              (map_put p \<lparr>fc_Type = ActionDelete, fc_OldContent = Some oldContent,
                          fc_NewContent = None, fc_MovePath = None\<rparr> c)
      | None \<Rightarrow>
          if newContent \<noteq> [] then
            assemble_loop orig rest
              (map_put p \<lparr>fc_Type = ActionAdd, fc_OldContent = None,
                          fc_NewContent = Some newContent, fc_MovePath = None\<rparr> c)
          else c)"

definition AssembleChanges ::
  "(string, string) gomap \<Rightarrow> (string, string) gomap \<Rightarrow> commit"
where
  "AssembleChanges orig updatedFiles = assemble_loop orig updatedFiles []"

section \<open>Files named by a patch\<close>

text \<open>
  The keys are collected in a Go map and returned in the order a range over it yields;
  \<open>ord\<close> is that order, applied to the distinct keys in order of appearance.
\<close>

definition header_paths :: "string \<Rightarrow> string list \<Rightarrow> string list" where
  "header_paths pfx ls = map (drop (length pfx)) (filter (\<lambda>l. has_prefix l pfx) ls)"

definition IdentifyFilesNeeded :: "(string list \<Rightarrow> string list) \<Rightarrow> string \<Rightarrow> string list" where
  "IdentifyFilesNeeded ord text =
     (let ls = patch_lines text in
      ord (remdups (concat (map (\<lambda>l.
        (if has_prefix l ''*** Update File: ''
         then [drop (length ''*** Update File: '') l] else [])
        @ (if has_prefix l ''*** Delete File: ''
           then [drop (length ''*** Delete File: '') l] else [])) ls))))"

definition IdentifyFilesAdded :: "(string list \<Rightarrow> string list) \<Rightarrow> string \<Rightarrow> string list" where
  "IdentifyFilesAdded ord text =
     ord (remdups (header_paths ''*** Add File: '' (patch_lines text)))"

section \<open>Reading and writing files\<close>

fun load_loop ::
  "string list \<Rightarrow> (string \<Rightarrow> (string, string) outcome) \<Rightarrow> (string, string) gomap
   \<Rightarrow> (string, (string, string) gomap) outcome"
where
  "load_loop [] openFn orig = Ok orig"
| "load_loop (p # ps) openFn orig =
     (case openFn p of
        Ok content \<Rightarrow> load_loop ps openFn (map_put p content orig)
      | Err e \<Rightarrow> Err (fileError ''Open'' ''File not found'' p)
      | Panic m \<Rightarrow> Panic m)"

definition LoadFiles ::
  "string list \<Rightarrow> (string \<Rightarrow> (string, string) outcome)
   \<Rightarrow> (string, (string, string) gomap) outcome"
where
  "LoadFiles paths openFn = load_loop paths openFn []"

text \<open>
  The file functions passed by the caller work on a world \<open>'w\<close> and return it with an error,
  if any. \<open>ApplyCommit\<close> stops at the first error and leaves what was written. A commit is a Go
  map: the order of the list is the order in which this run ranges over it.
\<close>

type_synonym 'w write_fn = "string \<Rightarrow> string \<Rightarrow> 'w \<Rightarrow> 'w \<times> string option"
type_synonym 'w remove_fn = "string \<Rightarrow> 'w \<Rightarrow> 'w \<times> string option"

definition apply_change ::
  "'w write_fn \<Rightarrow> 'w remove_fn \<Rightarrow> string \<Rightarrow> file_change \<Rightarrow> 'w \<Rightarrow> 'w \<times> string option"
where
  "apply_change writeFn removeFn p change w =
     (case fc_Type change of
        ActionDelete \<Rightarrow> removeFn p w
      | ActionAdd \<Rightarrow>
          (case fc_NewContent change of
             None \<Rightarrow> (w, Some (''Add action for '' @ p @ '' has nil new_content''))
           | Some content \<Rightarrow> writeFn p content w)
      | ActionUpdate \<Rightarrow>
          (case fc_NewContent change of
             None \<Rightarrow> (w, Some (''Update action for '' @ p @ '' has nil new_content''))
           | Some content \<Rightarrow>
               (case fc_MovePath change of
                  Some dst \<Rightarrow>
                    (case writeFn dst content w of
                       (w', Some e) \<Rightarrow> (w', Some e)
                     | (w', None) \<Rightarrow> removeFn p w')
                | None \<Rightarrow> writeFn p content w)))"

fun ApplyCommit ::
  "commit \<Rightarrow> 'w write_fn \<Rightarrow> 'w remove_fn \<Rightarrow> 'w \<Rightarrow> 'w \<times> string option"
where
  "ApplyCommit [] writeFn removeFn w = (w, None)"
| "ApplyCommit ((p, change) # rest) writeFn removeFn w =
     (case apply_change writeFn removeFn p change w of
        (w', Some e) \<Rightarrow> (w', Some e)
      | (w', None) \<Rightarrow> ApplyCommit rest writeFn removeFn w')"

definition ProcessPatch ::
  "nat \<Rightarrow> (string list \<Rightarrow> string list) \<Rightarrow> string \<Rightarrow> ('w \<Rightarrow> string \<Rightarrow> (string, string) outcome)
   \<Rightarrow> 'w write_fn \<Rightarrow> 'w remove_fn \<Rightarrow> 'w \<Rightarrow> ((string, string) outcome \<times> 'w) option"
where
  "ProcessPatch fuel ord text openFn writeFn removeFn w =
     (if \<not> has_prefix text ''*** Begin Patch''
      then Some (Err ''Patch must start with *** Begin Patch'', w)
      else (case LoadFiles (IdentifyFilesNeeded ord text) (openFn w) of
          Err e \<Rightarrow> Some (Err e, w)
        | Panic m \<Rightarrow> Some (Panic m, w)
        | Ok orig \<Rightarrow>
            (case TextToPatch fuel text orig of
               None \<Rightarrow> None
             | Some (Err e) \<Rightarrow> Some (Err e, w)
             | Some (Panic m) \<Rightarrow> Some (Panic m, w)
             | Some (Ok (patch, fuzz)) \<Rightarrow>
                 if fuzz > 0
                 then Some (Err (''Patch contains fuzzy matches (fuzz level: ''
                                 @ show_int fuzz @ '')''), w)
                 else (case PatchToCommit patch orig of
                     Err e \<Rightarrow> Some (Err e, w)
                   | Panic m \<Rightarrow> Some (Panic m, w)
                   | Ok commit \<Rightarrow>
                       (case ApplyCommit commit writeFn removeFn w of
                          (w', Some e) \<Rightarrow> Some (Err e, w')
                        | (w', None) \<Rightarrow> Some (Ok ''Patch applied successfully'', w'))))))"

definition ValidatePatch ::
  "nat \<Rightarrow> (string list \<Rightarrow> string list) \<Rightarrow> string \<Rightarrow> (string, string) gomap
   \<Rightarrow> (string, bool \<times> string) outcome option"
where
  "ValidatePatch fuel ord patchText files =
     (if \<not> has_prefix patchText ''*** Begin Patch''
      then Some (Ok (False, ''Patch must start with *** Begin Patch''))
      else (case find (\<lambda>p. map_of files p = None) (IdentifyFilesNeeded ord patchText) of
          Some p \<Rightarrow> Some (Ok (False, ''File not found: '' @ p))
        | None \<Rightarrow>
            (case TextToPatch fuel patchText files of
               None \<Rightarrow> None
             | Some (Panic m) \<Rightarrow> Some (Panic m)
             | Some (Err e) \<Rightarrow> Some (Ok (False, e))
             | Some (Ok (patch, fuzz)) \<Rightarrow>
                 if fuzz > 0
                 then Some (Ok (False, ''Patch contains fuzzy matches (fuzz level: ''
                                       @ show_int fuzz @ '')''))
                 else (case PatchToCommit patch files of
                     Panic m \<Rightarrow> Some (Panic m)
                   | Err e \<Rightarrow> Some (Ok (False, e))
                   | Ok commit \<Rightarrow> Some (Ok (True, ''Patch is valid''))))))"

section \<open>The file functions of the package\<close>

text \<open>
  A file system as far as \<open>OpenFile\<close>, \<open>WriteFile\<close> and \<open>RemoveFile\<close> see it: the files, and
  the paths on which the operating system refuses a write or a removal.
\<close>

record filesys =
  fs_files :: "(string, string) gomap"
  fs_no_write :: "string list"
  fs_no_remove :: "string list"

definition OpenFile :: "filesys \<Rightarrow> string \<Rightarrow> (string, string) outcome" where
  "OpenFile w p =
     (case map_of (fs_files w) p of None \<Rightarrow> Err ''no such file'' | Some c \<Rightarrow> Ok c)"

definition WriteFile :: "filesys write_fn" where
  "WriteFile p content w =
     (if has_prefix p ''/'' then (w, Some ''We do not support absolute paths.'')
      else if p \<in> set (fs_no_write w) then (w, Some ''permission denied'')
      else (w\<lparr>fs_files := map_put p content (fs_files w)\<rparr>, None))"

definition RemoveFile :: "filesys remove_fn" where
  "RemoveFile p w =
     (if p \<in> set (fs_no_remove w) then (w, Some ''permission denied'')
      else if map_of (fs_files w) p = None then (w, Some ''no such file'')
      else (w\<lparr>fs_files := AList.delete p (fs_files w)\<rparr>, None))"

section \<open>The contract of the file functions\<close>

text \<open>
  What \<open>ApplyCommit\<close> relies on: a write that succeeds is read back and touches nothing
  else, a removal that succeeds removes that file only, and an error changes nothing.
\<close>

locale file_store =
  fixes contents :: "'w \<Rightarrow> string \<Rightarrow> string option"
    and writeFn :: "'w write_fn"
    and removeFn :: "'w remove_fn"
  assumes write_ok: "writeFn p c w = (w', None) \<Longrightarrow> contents w' = (contents w)(p \<mapsto> c)"
    and write_err: "writeFn p c w = (w', Some e) \<Longrightarrow> contents w' = contents w"
    and remove_ok: "removeFn p w = (w', None) \<Longrightarrow> contents w' = (contents w)(p := None)"
    and remove_err: "removeFn p w = (w', Some e) \<Longrightarrow> contents w' = contents w"

text \<open>The effect a change promises on the files.\<close>

definition change_effect ::
  "string \<Rightarrow> file_change \<Rightarrow> (string \<Rightarrow> string option) \<Rightarrow> (string \<Rightarrow> string option)"
where
  "change_effect p change m =
     (case fc_Type change of
        ActionDelete \<Rightarrow> m(p := None)
      | ActionAdd \<Rightarrow> m(p := fc_NewContent change)
      | ActionUpdate \<Rightarrow>
          (case fc_MovePath change of
             Some dst \<Rightarrow> (m(dst := fc_NewContent change))(p := None)
           | None \<Rightarrow> m(p := fc_NewContent change)))"

definition commit_effect ::
  "commit \<Rightarrow> (string \<Rightarrow> string option) \<Rightarrow> (string \<Rightarrow> string option)"
where
  "commit_effect c m = fold (\<lambda>(p, change). change_effect p change) c m"

context file_store
begin

lemma apply_change_effect:
  assumes "apply_change writeFn removeFn p change w = (w', None)"
  shows "contents w' = change_effect p change (contents w)"
  using assms
  by (auto simp: apply_change_def change_effect_def write_ok remove_ok
           split: patch_kind.splits option.splits prod.splits)

lemma apply_commit_effect:
  "ApplyCommit c writeFn removeFn w = (w', None) \<Longrightarrow>
   contents w' = commit_effect c (contents w)"
proof (induction c arbitrary: w)
  case Nil
  then show ?case by (simp add: commit_effect_def)
next
  case (Cons pc c)
  obtain p change where pc: "pc = (p, change)" by (cases pc)
  from Cons.prems obtain w1
    where w1: "apply_change writeFn removeFn p change w = (w1, None)"
      and rest: "ApplyCommit c writeFn removeFn w1 = (w', None)"
    by (auto simp: pc split: prod.splits option.splits)
  show ?case
    using Cons.IH [OF rest] apply_change_effect [OF w1]
    by (simp add: pc commit_effect_def)
qed

text \<open>An interrupted commit leaves the effect of some prefix of its changes.\<close>

lemma apply_change_error:
  assumes "apply_change writeFn removeFn p change w = (w', Some e)"
  shows "contents w' = contents w \<or>
         (\<exists>dst. fc_MovePath change = Some dst
                \<and> contents w' = (contents w)(dst := fc_NewContent change))"
  using assms
  by (fastforce simp: apply_change_def write_ok write_err remove_err
           split: patch_kind.splits option.splits prod.splits)

end

interpretation package_files: file_store "\<lambda>w. map_of (fs_files w)" WriteFile RemoveFile
  by unfold_locales
     (auto simp: WriteFile_def RemoveFile_def map_simps delete_conv' split: if_splits)

end
