(* ===== verification/Patch_Sections.thy ===== *)
theory Patch_Sections
  imports Patch_Apply
begin

text \<open>
  What one section of an update guarantees: its chunks lie in order inside the lines it
  expects, their deletions are those lines, and a context that the search reports is a
  context of the file.
\<close>

section \<open>Chunks against a list of lines\<close>

text \<open>Chunks in order, not overlapping, between two line numbers.\<close>

fun ordered_from :: "int \<Rightarrow> chunk list \<Rightarrow> int \<Rightarrow> bool" where
  "ordered_from lo [] hi = (lo \<le> hi)"
| "ordered_from lo (c # cs) hi =
     (lo \<le> OrigIndex c \<and> ordered_from (OrigIndex c + int (length (DelLines c))) cs hi)"

text \<open>The lines a chunk deletes are the lines found at its place.\<close>

definition deletes_at :: "string list \<Rightarrow> chunk \<Rightarrow> bool" where
  "deletes_at ls c \<longleftrightarrow>
     0 \<le> OrigIndex c \<and> OrigIndex c + int (length (DelLines c)) \<le> int (length ls)
     \<and> take (length (DelLines c)) (drop (nat (OrigIndex c)) ls) = DelLines c"

definition in_bounds :: "nat \<Rightarrow> chunk \<Rightarrow> bool" where
  "in_bounds n c \<longleftrightarrow> 0 \<le> OrigIndex c \<and> OrigIndex c + int (length (DelLines c)) \<le> int n"

lemma ordered_from_le: "ordered_from lo cs hi \<Longrightarrow> lo \<le> hi"
  by (induction cs arbitrary: lo) force+

lemma ordered_from_mono:
  "ordered_from lo cs hi \<Longrightarrow> lo' \<le> lo \<Longrightarrow> hi \<le> hi' \<Longrightarrow> ordered_from lo' cs hi'"
  by (induction cs arbitrary: lo lo') auto

lemma ordered_from_append:
  "ordered_from lo (cs @ ds) hi \<longleftrightarrow> (\<exists>mid. ordered_from lo cs mid \<and> ordered_from mid ds hi)"
  by (induction cs arbitrary: lo) (auto intro: ordered_from_mono)

lemma ordered_from_shift:
  "ordered_from lo cs hi \<Longrightarrow> ordered_from (lo + d) (map (shift_chunk d) cs) (hi + d)"
proof (induction cs arbitrary: lo)
  case Nil
  then show ?case by simp
next
  case (Cons c cs)
  then have "ordered_from (OrigIndex c + int (length (DelLines c)) + d)
      (map (shift_chunk d) cs) (hi + d)"
    by simp
  moreover have "OrigIndex c + int (length (DelLines c)) + d
      = OrigIndex (shift_chunk d c) + int (length (DelLines (shift_chunk d c)))"
    by (simp add: shift_chunk_def)
  ultimately show ?case
    using Cons.prems by (simp only: list.map ordered_from.simps) (simp add: shift_chunk_def)
qed

lemma ordered_from_in_bounds:
  "ordered_from lo cs hi \<Longrightarrow> 0 \<le> lo \<Longrightarrow> hi \<le> int n \<Longrightarrow> c \<in> set cs \<Longrightarrow> in_bounds n c"
proof (induction cs arbitrary: lo)
  case Nil
  then show ?case by simp
next
  case (Cons d cs)
  have "OrigIndex d + int (length (DelLines d)) \<le> hi"
    using Cons.prems by (auto dest: ordered_from_le)
  with Cons show ?case by (auto simp: in_bounds_def)
qed

lemma deletes_at_append: "deletes_at ls c \<Longrightarrow> deletes_at (ls @ ms) c"
  by (auto simp: deletes_at_def)

lemma deletes_at_in_bounds: "deletes_at ls c \<Longrightarrow> in_bounds (length ls) c"
  by (simp add: deletes_at_def in_bounds_def)

text \<open>A chunk of the context is a chunk of the file at the place where the context is.\<close>

lemma deletes_at_shift:
  assumes c: "deletes_at ctx c" and i: "0 \<le> i" "i + int (length ctx) \<le> int (length ls)"
    and eq: "take (length ctx) (drop (nat i) ls) = ctx"
  shows "deletes_at ls (shift_chunk i c)"
proof -
  let ?n = "length (DelLines c)" and ?k = "nat (OrigIndex c)"
  from c have k: "0 \<le> OrigIndex c" and kn: "?k + ?n \<le> length ctx"
    and del: "take ?n (drop ?k ctx) = DelLines c"
    by (auto simp: deletes_at_def)
  have idx: "nat (OrigIndex c + i) = ?k + nat i"
    using k i by simp
  have "take ?n (drop ?k ctx) = take ?n (drop ?k (take (length ctx) (drop (nat i) ls)))"
    by (simp only: eq)
  also have "\<dots> = take ?n (drop (?k + nat i) ls)"
    using kn by (simp add: drop_take min_def)
  finally have "take ?n (drop (?k + nat i) ls) = DelLines c"
    using del by simp
  moreover have "OrigIndex c + i + int ?n \<le> int (length ls)"
    using k kn i by linarith
  ultimately show ?thesis
    using k i by (simp add: deletes_at_def shift_chunk_def idx)
qed

section \<open>The section reader\<close>

text \<open>The state of \<^const>\<open>peek_loop\<close>: the pending deletions are the end of the old lines.\<close>

definition peek_inv ::
  "string list \<Rightarrow> string list \<Rightarrow> string list \<Rightarrow> chunk list \<Rightarrow> section_mode \<Rightarrow> bool"
where
  "peek_inv old del ins chunks mode \<longleftrightarrow>
     (\<exists>pre. old = pre @ del \<and> ordered_from 0 chunks (int (length pre)))
     \<and> (\<forall>c\<in>set chunks. deletes_at old c)
     \<and> (mode = Keep \<longrightarrow> del = [] \<and> ins = [])"

lemma mk_chunk_deletes: "old = pre @ del \<Longrightarrow> deletes_at old (mk_chunk old del ins)"
  by (simp add: deletes_at_def mk_chunk_def)

lemma flush_chunk_inv:
  assumes "old = pre @ del" "ordered_from 0 chunks (int (length pre))"
    "\<forall>c\<in>set chunks. deletes_at old c"
  shows "ordered_from 0 (flush_chunk old del ins chunks) (int (length old))
    \<and> (\<forall>c\<in>set (flush_chunk old del ins chunks). deletes_at old c)"
proof -
  have "ordered_from (int (length pre)) [mk_chunk old del ins] (int (length old))"
    using assms(1) by (simp add: mk_chunk_def)
  then have "ordered_from 0 (chunks @ [mk_chunk old del ins]) (int (length old))"
    unfolding ordered_from_append using assms(2) by blast
  moreover have "ordered_from 0 chunks (int (length old))"
    using assms by (auto intro: ordered_from_mono)
  ultimately show ?thesis
    using assms(3) mk_chunk_deletes [OF assms(1)] by (auto simp: flush_chunk_def)
qed

lemma peek_inv_keep:
  assumes "peek_inv old del ins chunks mode"
  shows "peek_inv (old @ [line]) [] [] (flush_chunk old del ins chunks) Keep"
    and "mode = Keep \<Longrightarrow> peek_inv (old @ [line]) del ins chunks Keep"
proof -
  obtain pre where pre: "old = pre @ del" "ordered_from 0 chunks (int (length pre))"
    and dels: "\<forall>c\<in>set chunks. deletes_at old c"
    using assms by (auto simp: peek_inv_def)
  show "peek_inv (old @ [line]) [] [] (flush_chunk old del ins chunks) Keep"
    using flush_chunk_inv [OF pre dels, of ins]
    by (auto simp: peek_inv_def intro: deletes_at_append ordered_from_mono)
  assume "mode = Keep"
  then have "del = []" "ins = []" using assms by (auto simp: peek_inv_def)
  then show "peek_inv (old @ [line]) del ins chunks Keep"
    using pre dels by (auto simp: peek_inv_def intro: deletes_at_append ordered_from_mono)
qed

lemma peek_inv_delete:
  "peek_inv old del ins chunks mode \<Longrightarrow>
   peek_inv (old @ [line]) (del @ [line]) ins chunks Delete"
  by (auto simp: peek_inv_def intro: deletes_at_append)

lemma peek_inv_add:
  "peek_inv old del ins chunks mode \<Longrightarrow> peek_inv old del (ins @ [line]) chunks Add"
  by (auto simp: peek_inv_def)

lemma peek_loop_inv:
  assumes "peek_loop rest i old del ins chunks mode = (old', del', ins', chunks', j)"
    and "peek_inv old del ins chunks mode"
  shows "\<exists>mode'. peek_inv old' del' ins' chunks' mode'"
  using assms
proof (induction rest i old del ins chunks mode rule: peek_loop.induct)
  case 1
  then show ?case by auto
next
  case (2 s rest i old del ins chunks mode)
  obtain m line where m: "line_mode s = (m, line)" by (cases "line_mode s")
  show ?case
  proof (cases "endSection s")
    case True
    with 2 show ?thesis by auto
  next
    case False
    show ?thesis
      using "2.prems" False m "2.IH" [OF False m [symmetric]]
        peek_inv_keep [OF "2.prems"(2)] peek_inv_delete [OF "2.prems"(2)]
        peek_inv_add [OF "2.prems"(2)]
      by (cases m) (auto split: if_splits)
  qed
qed

lemma peek_loop_index:
  assumes "peek_loop rest i old del ins chunks mode = (old', del', ins', chunks', j)"
  shows "i \<le> j \<and> j \<le> i + length rest
    \<and> (\<forall>k<j - i. \<not> endSection (rest ! k))
    \<and> (rest \<noteq> [] \<and> \<not> endSection (hd rest) \<longrightarrow> i < j)"
  using assms
proof (induction rest i old del ins chunks mode rule: peek_loop.induct)
  case 1
  then show ?case by auto
next
  case (2 s rest i old del ins chunks mode)
  obtain m line where m: "line_mode s = (m, line)" by (cases "line_mode s")
  show ?case
  proof (cases "endSection s")
    case True
    with 2 show ?thesis by auto
  next
    case False
    have "Suc i \<le> j \<and> j \<le> Suc i + length rest \<and> (\<forall>k<j - Suc i. \<not> endSection (rest ! k))"
      using "2.prems" False m "2.IH" [OF False m [symmetric]]
      by (cases m) (auto split: if_splits)
    with False show ?thesis by (auto simp: nth_Cons split: nat.split)
  qed
qed

lemma peekNextSection_chunks:
  assumes "peekNextSection ls i = (ctx, chs, j, eof)"
  shows "ordered_from 0 chs (int (length ctx))" "\<forall>c\<in>set chs. deletes_at ctx c"
proof -
  obtain old del ins chunks k
    where pl: "peek_loop (drop i ls) i [] [] [] [] Keep = (old, del, ins, chunks, k)"
    by (cases "peek_loop (drop i ls) i [] [] [] [] Keep") auto
  then have "ctx = old" "chs = flush_chunk old del ins chunks"
    using assms by (auto simp: peekNextSection_def Let_def split: if_splits)
  moreover obtain pre where "old = pre @ del" "ordered_from 0 chunks (int (length pre))"
      "\<forall>c\<in>set chunks. deletes_at old c"
    using peek_loop_inv [OF pl] by (auto simp: peek_inv_def)
  ultimately show "ordered_from 0 chs (int (length ctx))" "\<forall>c\<in>set chs. deletes_at ctx c"
    using flush_chunk_inv [of old pre del chunks ins] by auto
qed

text \<open>Where the section reader stops, what it passed, and when it reports the end of file.\<close>

lemma peekNextSection_index:
  assumes "peekNextSection ls i = (ctx, chs, j, eof)" and "i \<le> length ls"
  shows "i \<le> j" "j \<le> length ls"
    "\<forall>k. i \<le> k \<and> k < j \<longrightarrow> \<not> endSection (ls ! k) \<or> ls ! k = ''*** End of File''"
    "i < length ls \<Longrightarrow> \<not> endSection (ls ! i) \<Longrightarrow> i < j"
    "eof \<Longrightarrow> ''*** End of File'' \<in> set ls"
proof -
  obtain old del ins chunks k
    where pl: "peek_loop (drop i ls) i [] [] [] [] Keep = (old, del, ins, chunks, k)"
    by (cases "peek_loop (drop i ls) i [] [] [] [] Keep") auto
  note idx = peek_loop_index [OF pl]
  have j: "if k < length ls \<and> ls ! k = ''*** End of File'' then j = Suc k \<and> eof
           else j = k \<and> \<not> eof"
    using assms(1) pl by (auto simp: peekNextSection_def Let_def)
  show "i \<le> j" "j \<le> length ls"
    using idx j assms(2) by (auto split: if_splits)
  have nend: "\<not> endSection (ls ! m)" if "i \<le> m" "m < k" for m
  proof -
    have "\<not> endSection (drop i ls ! (m - i))" using idx that by auto
    then show ?thesis using that assms(2) by simp
  qed
  show "\<forall>m. i \<le> m \<and> m < j \<longrightarrow> \<not> endSection (ls ! m) \<or> ls ! m = ''*** End of File''"
  proof (intro allI impI)
    fix m
    assume m: "i \<le> m \<and> m < j"
    then have "m < k \<or> (m = k \<and> ls ! m = ''*** End of File'')"
      using j by (auto split: if_splits elim: less_SucE)
    then show "\<not> endSection (ls ! m) \<or> ls ! m = ''*** End of File''"
      using nend m by blast
  qed
  show "i < j" if "i < length ls" "\<not> endSection (ls ! i)"
    using idx j that by (auto simp: hd_drop_conv_nth split: if_splits)
  show "''*** End of File'' \<in> set ls" if eof
    using j that by (auto split: if_splits simp: in_set_conv_nth)
qed

section \<open>The context search\<close>

lemma match_at_True:
  "match_at cmp ls i ctx = Ok True \<longleftrightarrow>
   (\<forall>k<length ctx. 0 \<le> i + int k \<and> i + int k < int (length ls)
      \<and> cmp (ls ! nat (i + int k)) (ctx ! k))"
proof (induction ctx arbitrary: i)
  case Nil
  then show ?case by simp
next
  case (Cons c cs)
  let ?Q = "\<lambda>i ctx k. 0 \<le> i + int k \<and> i + int k < int (length ls)
      \<and> cmp (ls ! nat (i + int k)) (ctx ! k)"
  have "match_at cmp ls i (c # cs) = Ok True \<longleftrightarrow>
      0 \<le> i \<and> i < int (length ls) \<and> cmp (ls ! nat i) c
      \<and> match_at cmp ls (i + 1) cs = Ok True"
    by (auto simp: slice_at_def)
  also have "\<dots> \<longleftrightarrow> ?Q i (c # cs) 0 \<and> (\<forall>k<length cs. ?Q (i + 1) cs k)"
    by (simp add: Cons.IH)
  also have "\<dots> \<longleftrightarrow> (\<forall>k<length (c # cs). ?Q i (c # cs) k)"
    by (auto simp: less_Suc_eq_0_disj add.assoc)
  finally show ?case .
qed

lemma match_at_total:
  "0 \<le> i \<Longrightarrow> i + int (length ctx) \<le> int (length ls) \<Longrightarrow> \<exists>b. match_at cmp ls i ctx = Ok b"
  by (induction ctx arbitrary: i) auto

lemma match_at_exact:
  assumes "match_at cmp_exact ls i ctx = Ok True" "ctx \<noteq> []"
  shows "take (length ctx) (drop (nat i) ls) = ctx"
proof (rule nth_equalityI)
  have bounds: "\<And>k. k < length ctx \<Longrightarrow> i + int k < int (length ls)" and i: "0 \<le> i"
    and eq: "\<And>k. k < length ctx \<Longrightarrow> ls ! nat (i + int k) = ctx ! k"
    using assms by (force simp: match_at_True cmp_exact_def)+
  have "length ctx - 1 < length ctx" using assms(2) by (cases ctx) auto
  from bounds [OF this] have "nat i + length ctx \<le> length ls" using i by linarith
  then show len: "length (take (length ctx) (drop (nat i) ls)) = length ctx" by simp
  fix k
  assume "k < length (take (length ctx) (drop (nat i) ls))"
  then have k: "k < length ctx" by simp
  then show "take (length ctx) (drop (nat i) ls) ! k = ctx ! k"
    using eq [OF k] i len by (simp add: nat_add_distrib add.commute)
qed

lemma tryFindMatch_result:
  "tryFindMatch ls ctx i cmp = Ok (j, f) \<Longrightarrow> ctx \<noteq> [] \<Longrightarrow>
   (j = -1 \<and> f = 0) \<or>
   (0 \<le> j \<and> i \<le> j \<and> j + int (length ctx) \<le> int (length ls)
    \<and> match_at cmp ls j ctx = Ok True \<and> f = probe_fuzz cmp)"
proof (induction ls ctx i cmp rule: tryFindMatch.induct)
  case (1 ls ctx i cmp)
  show ?case
  proof (cases "i < int (length ls)")
    case False
    with "1.prems" show ?thesis by (simp add: tryFindMatch.simps [of ls ctx i cmp])
  next
    case lt: True
    show ?thesis
    proof (cases "i + int (length ctx) \<le> int (length ls)")
      case False
      then have "tryFindMatch ls ctx (i + 1) cmp = Ok (j, f)"
        using "1.prems"(1) lt by (simp add: tryFindMatch.simps [of ls ctx i cmp])
      with "1.IH"(2) [OF lt False] "1.prems" show ?thesis by auto
    next
      case fits: True
      then obtain m where m: "match_at cmp ls i ctx = Ok m"
        and rest: "(if m then Ok (i, probe_fuzz cmp) else tryFindMatch ls ctx (i + 1) cmp) = Ok (j, f)"
        using "1.prems"(1) lt by (auto simp: tryFindMatch.simps [of ls ctx i cmp])
      show ?thesis
      proof (cases m)
        case True
        have "0 \<le> i" using m True "1.prems"(2) by (auto simp: match_at_True)
        with True rest m fits show ?thesis by auto
      next
        case False
        with rest have "tryFindMatch ls ctx (i + 1) cmp = Ok (j, f)" by simp
        with "1.IH"(1) [OF lt fits, of m] m False "1.prems" show ?thesis by auto
      qed
    qed
  qed
qed

lemma probe_fuzz_exact: "probe_fuzz cmp_exact = 0"
  by (simp add: probe_fuzz_def cmp_exact_def)

lemma probe_fuzz_trim_right: "probe_fuzz cmp_trim_right = 1"
  by code_simp

lemma probe_fuzz_trim_space: "probe_fuzz cmp_trim_space = 1"
  by code_simp

end
