(* ===== verification/Patch_Correct.thy ===== *)
theory Patch_Correct
  imports Patch_Sections
begin

text \<open>
  The properties of the patch parser and of the application of a patch: what the parsing
  loops keep, that they return on patches without a stuck line and never return on one,
  and that applying a parsed patch replaces exactly the lines it names.
\<close>

section \<open>Results of the context search\<close>

lemma findContextCore_result:
  assumes "findContextCore ls ctx start = Ok (j, f)"
  shows "(ctx = [] \<and> j = start \<and> f = 0) \<or> (ctx \<noteq> [] \<and> j = -1 \<and> f = 0) \<or>
    (ctx \<noteq> [] \<and> 0 \<le> j \<and> start \<le> j \<and> j + int (length ctx) \<le> int (length ls) \<and> 0 \<le> f \<and> f \<le> 1
     \<and> (f = 0 \<longrightarrow> take (length ctx) (drop (nat j) ls) = ctx))"
proof (cases "ctx = []")
  case True
  with assms show ?thesis by (auto simp: findContextCore_def)
next
  case False
  note res = tryFindMatch_result [OF _ False]
  have pick: "j = j' \<and> f = f'"
    if "tryFindMatch ls ctx start cmp_exact = Ok (j', f')" "0 \<le> j'" for j' f'
    using that assms False by (simp add: findContextCore_def)
  show ?thesis
  proof (cases "\<exists>j' f'. tryFindMatch ls ctx start cmp_exact = Ok (j', f') \<and> 0 \<le> j'")
    case True
    then obtain j' f' where t: "tryFindMatch ls ctx start cmp_exact = Ok (j', f')" "0 \<le> j'"
      by blast
    with pick have "tryFindMatch ls ctx start cmp_exact = Ok (j, f)" "0 \<le> j" by auto
    with res [OF this(1)] False show ?thesis
      by (auto simp: probe_fuzz_exact dest: match_at_exact)
  next
    case none: False
    then have "(j = -1 \<and> f = 0) \<or> (0 \<le> j \<and>
        (tryFindMatch ls ctx start cmp_trim_right = Ok (j, f)
         \<or> tryFindMatch ls ctx start cmp_trim_space = Ok (j, f)))"
      using assms False by (fastforce simp: findContextCore_def split: if_splits)
    with res [of ls start cmp_trim_right j f] res [of ls start cmp_trim_space j f] False
    show ?thesis by (auto simp: probe_fuzz_trim_right probe_fuzz_trim_space)
  qed
qed

lemma findContext_result:
  assumes "findContext ls ctx start eof = Ok (j, f)" "j \<noteq> -1"
    and start: "0 \<le> start" "start \<le> int (length ls)"
  shows "0 \<le> j" "j + int (length ctx) \<le> int (length ls)" "0 \<le> f"
    "f = 0 \<Longrightarrow> take (length ctx) (drop (nat j) ls) = ctx"
    "\<not> eof \<Longrightarrow> start \<le> j"
proof -
  consider (core) "findContextCore ls ctx start = Ok (j, f)"
    | (ateof) "eof" "findContextCore ls ctx (int (length ls) - int (length ctx)) = Ok (j, f)"
    | (retry) f' where "eof" "findContextCore ls ctx start = Ok (j, f')" "f = f' + 10000"
    using assms(1) by (auto simp: findContext_def split: if_splits)
  then have "0 \<le> j \<and> j + int (length ctx) \<le> int (length ls) \<and> 0 \<le> f
      \<and> (f = 0 \<longrightarrow> take (length ctx) (drop (nat j) ls) = ctx) \<and> (\<not> eof \<longrightarrow> start \<le> j)"
  proof cases
    case core
    from findContextCore_result [OF core] assms(2) start show ?thesis by auto
  next
    case ateof
    from findContextCore_result [OF ateof(2)] assms(2) ateof(1) show ?thesis by auto
  next
    case retry
    from findContextCore_result [OF retry(2)] assms(2) start retry show ?thesis by auto
  qed
  then show "0 \<le> j" "j + int (length ctx) \<le> int (length ls)" "0 \<le> f"
    "f = 0 \<Longrightarrow> take (length ctx) (drop (nat j) ls) = ctx" "\<not> eof \<Longrightarrow> start \<le> j"
    by auto
qed

text \<open>
  What the search finds, against the places where a context occurs: a place where every line of the
  file agrees with its line of the context.
\<close>

definition occurs :: "(string \<Rightarrow> string \<Rightarrow> bool) \<Rightarrow> string list \<Rightarrow> string list \<Rightarrow> nat \<Rightarrow> bool" where
  "occurs cmp ls ctx k \<longleftrightarrow>
     k + length ctx \<le> length ls \<and> list_all2 cmp (take (length ctx) (drop k ls)) ctx"

lemma occurs_exact:
  "occurs cmp_exact ls ctx k \<longleftrightarrow> k + length ctx \<le> length ls \<and> take (length ctx) (drop k ls) = ctx"
proof -
  have "cmp_exact = (=)" by (simp add: cmp_exact_def fun_eq_iff)
  then show ?thesis by (simp add: occurs_def list.rel_eq)
qed

lemma match_at_occurs:
  "k + length ctx \<le> length ls \<Longrightarrow> match_at cmp ls (int k) ctx = Ok (occurs cmp ls ctx k)"
proof (induction ctx arbitrary: k)
  case (Cons c cs)
  have "match_at cmp ls (int (Suc k)) cs = Ok (occurs cmp ls cs (Suc k))"
    using Cons.prems by (intro Cons.IH) simp
  then have "match_at cmp ls (int k + 1) cs = Ok (occurs cmp ls cs (Suc k))"
    by (simp add: add.commute)
  then show ?case
    using Cons.prems Cons_nth_drop_Suc [of k ls, symmetric] by (simp add: occurs_def slice_at_def)
qed (simp add: occurs_def)

lemma tryFindMatch_first:
  assumes "ctx \<noteq> []"
  shows "tryFindMatch ls ctx (int k) cmp =
    Ok (case find (occurs cmp ls ctx) [k..<length ls] of None \<Rightarrow> (-1, 0) | Some j \<Rightarrow> (int j, probe_fuzz cmp))"
proof (induction "length ls - k" arbitrary: k)
  case 0
  then show ?case by (simp add: tryFindMatch.simps [of ls ctx "int k"])
next
  case (Suc n)
  have "tryFindMatch ls ctx (int (Suc k)) cmp = Ok (case find (occurs cmp ls ctx) [Suc k..<length ls] of
      None \<Rightarrow> (-1, 0) | Some j \<Rightarrow> (int j, probe_fuzz cmp))"
    using Suc.hyps(2) by (intro Suc.hyps(1)) simp
  then have IH: "tryFindMatch ls ctx (int k + 1) cmp = Ok (case find (occurs cmp ls ctx) [Suc k..<length ls] of
      None \<Rightarrow> (-1, 0) | Some j \<Rightarrow> (int j, probe_fuzz cmp))"
    by (simp add: add.commute)
  have lt: "int k < int (length ls)" and up: "[k..<length ls] = k # [Suc k..<length ls]"
    using Suc.hyps(2) by (simp_all add: upt_conv_Cons)
  show ?case
  proof (cases "k + length ctx \<le> length ls")
    case True
    then show ?thesis using lt match_at_occurs [OF True, of cmp]
      by (subst tryFindMatch.simps) (simp add: IH up)
  next
    case False
    then have "\<not> occurs cmp ls ctx k" by (simp add: occurs_def)
    then show ?thesis using lt False by (subst tryFindMatch.simps) (simp add: IH up)
  qed
qed

text \<open>
  The answer of a search from \<open>start\<close>: nothing, when the context does not even occur up to white
  space; an exact place when there is one, the first; otherwise a place where the lines agree up to
  white space at their ends, with fuzz 1.
\<close>

definition occurs_trimmed :: "string list \<Rightarrow> string list \<Rightarrow> nat \<Rightarrow> bool" where
  "occurs_trimmed ls ctx k \<longleftrightarrow> occurs cmp_trim_right ls ctx k \<or> occurs cmp_trim_space ls ctx k"

definition best_match :: "string list \<Rightarrow> string list \<Rightarrow> nat \<Rightarrow> int \<Rightarrow> int \<Rightarrow> bool" where
  "best_match ls ctx start j f \<longleftrightarrow>
     (j = -1 \<and> f = 0 \<and> (\<forall>i\<ge>start. \<not> occurs cmp_exact ls ctx i \<and> \<not> occurs_trimmed ls ctx i)) \<or>
     (\<exists>i\<ge>start. j = int i \<and> f = 0 \<and> occurs cmp_exact ls ctx i \<and>
        (\<forall>i'\<ge>start. occurs cmp_exact ls ctx i' \<longrightarrow> i \<le> i')) \<or>
     (\<exists>i\<ge>start. j = int i \<and> f = 1 \<and> occurs_trimmed ls ctx i \<and> (\<forall>i'\<ge>start. \<not> occurs cmp_exact ls ctx i'))"

lemma first_occurrence:
  assumes "ctx \<noteq> []"
  shows "find (occurs cmp ls ctx) [k..<length ls] = None \<Longrightarrow> i \<ge> k \<Longrightarrow> \<not> occurs cmp ls ctx i"
    and "find (occurs cmp ls ctx) [k..<length ls] = Some i \<Longrightarrow>
      k \<le> i \<and> occurs cmp ls ctx i \<and> (\<forall>i'\<ge>k. occurs cmp ls ctx i' \<longrightarrow> i \<le> i')"
proof -
  have inside: "occurs cmp ls ctx i \<Longrightarrow> i < length ls" for i
    using assms by (cases ctx) (auto simp: occurs_def)
  show "find (occurs cmp ls ctx) [k..<length ls] = None \<Longrightarrow> i \<ge> k \<Longrightarrow> \<not> occurs cmp ls ctx i"
    using inside by (auto simp: find_None_iff)
  assume "find (occurs cmp ls ctx) [k..<length ls] = Some i"
  then obtain n where n: "n < length ls - k" "occurs cmp ls ctx (k + n)" "i = k + n"
      "\<forall>m<n. \<not> occurs cmp ls ctx (k + m)"
    by (auto simp: find_Some_iff)
  have "i \<le> i'" if "k \<le> i'" "occurs cmp ls ctx i'" for i'
    using n(3,4) that by (metis le_add_diff_inverse nat_add_left_cancel_le not_less)
  with n show "k \<le> i \<and> occurs cmp ls ctx i \<and> (\<forall>i'\<ge>k. occurs cmp ls ctx i' \<longrightarrow> i \<le> i')" by simp
qed

lemma findContextCore_best:
  assumes "ctx \<noteq> []"
  obtains j f where "findContextCore ls ctx (int k) = Ok (j, f)" "best_match ls ctx k j f"
proof (cases "find (occurs cmp_exact ls ctx) [k..<length ls]")
  case (Some i)
  with that [of "int i" 0] first_occurrence(2) [OF assms Some] assms show thesis
    by (auto simp: findContextCore_def tryFindMatch_first best_match_def probe_fuzz_exact)
next
  case exact: None
  note none = first_occurrence(1) [OF assms exact]
  show thesis
  proof (cases "find (occurs cmp_trim_right ls ctx) [k..<length ls]")
    case (Some i)
    with that [of "int i" 1] first_occurrence(2) [OF assms Some] none exact assms show thesis
      by (auto simp: findContextCore_def tryFindMatch_first best_match_def probe_fuzz_trim_right occurs_trimmed_def)
  next
    case right: None
    note none = none first_occurrence(1) [OF assms right]
    show thesis
    proof (cases "find (occurs cmp_trim_space ls ctx) [k..<length ls]")
      case (Some i)
      with that [of "int i" 1] first_occurrence(2) [OF assms Some] none exact right assms show thesis
        by (auto simp: findContextCore_def tryFindMatch_first best_match_def probe_fuzz_trim_space occurs_trimmed_def)
    next
      case None
      with that [of "-1" 0] first_occurrence(1) [OF assms None] none exact right assms show thesis
        by (auto simp: findContextCore_def tryFindMatch_first best_match_def occurs_trimmed_def)
    qed
  qed
qed

lemma first_from_Some:
  "first_from P xs i = Some j \<Longrightarrow> i \<le> j \<and> j < i + int (length xs)"
  by (induction xs arbitrary: i) (force split: if_splits)+

lemma locate_def_result:
  assumes "locate_def ls defStr index = Ok (j, f)" "0 \<le> index" "index \<le> int (length ls)"
  shows "index \<le> j" "j \<le> int (length ls)" "0 \<le> f"
proof -
  have "index \<le> j \<and> j \<le> int (length ls) \<and> 0 \<le> f"
    using assms
    by (auto simp: locate_def_def slice_range_def Let_def
             split: if_splits option.splits dest!: first_from_Some)
  then show "index \<le> j" "j \<le> int (length ls)" "0 \<le> f" by auto
qed

lemma locate_def_total:
  "0 \<le> index \<Longrightarrow> index \<le> int (length ls) \<Longrightarrow> \<exists>j f. locate_def ls defStr index = Ok (j, f)"
  by (auto simp: locate_def_def slice_range_def Let_def split: option.splits)

section \<open>Reading lines\<close>

lemma readStr_frame:
  assumes "readStr p pfx r = (s, p')"
  shows "p_lines p' = p_lines p" "currentFiles p' = currentFiles p" "p_patch p' = p_patch p"
    "p_fuzz p' = p_fuzz p" "p_index p \<le> p_index p'"
    "p_index p \<le> length (p_lines p) \<Longrightarrow> p_index p' \<le> length (p_lines p)"
    "p' = p\<lparr>p_index := p_index p'\<rparr>"
  using assms by (auto simp: readStr_def Let_def split: if_splits)

lemma readStr_cases:
  assumes "readStr p pfx r = (s, p')"
  obtains (skip) "p' = p" "s = []"
      "length (p_lines p) \<le> p_index p \<or> \<not> has_prefix (p_lines p ! p_index p) pfx"
  | (read) "p_index p < length (p_lines p)" "has_prefix (p_lines p ! p_index p) pfx"
      "p_index p' = Suc (p_index p)"
  using assms by (auto simp: readStr_def Let_def split: if_splits)

section \<open>One pass of the update loop\<close>

lemma update_step_Ok:
  assumes step: "update_step p ls index chunks = Ok (p', index', chunks')"
    and index: "0 \<le> index" "index \<le> int (length ls)"
    and pi: "p_index p \<le> length (p_lines p)"
  obtains new eof where
    "chunks' = chunks @ new"
    "p_lines p' = p_lines p" "currentFiles p' = currentFiles p" "p_patch p' = p_patch p"
    "p_fuzz p \<le> p_fuzz p'" "p_index p \<le> p_index p'" "p_index p' \<le> length (p_lines p)"
    "0 \<le> index'" "index' \<le> int (length ls)"
    "\<forall>c\<in>set new. in_bounds (length ls) c"
    "p_fuzz p' = p_fuzz p \<Longrightarrow> \<forall>c\<in>set new. deletes_at ls c"
    "eof \<or> ordered_from index new index'"
    "eof \<Longrightarrow> ''*** End of File'' \<in> set (p_lines p)"
proof -
  obtain defStr p1 where r1: "readStr p ''@@ '' False = (defStr, p1)"
    by (cases "readStr p ''@@ '' False")
  define bare where "bare = (defStr = [] \<and> p_index p1 < length (p_lines p1)
      \<and> p_lines p1 ! p_index p1 = ''@@'')"
  define p2 where "p2 = (if bare then p1\<lparr>p_index := Suc (p_index p1)\<rparr> else p1)"
  obtain ctx chs e eof where pk: "peekNextSection (p_lines p2) (p_index p2) = (ctx, chs, e, eof)"
    by (cases "peekNextSection (p_lines p2) (p_index p2)") auto
  have body: "obind (if trim_space defStr \<noteq> [] then locate_def ls defStr index else Ok (index, 0))
      (\<lambda>(index1, f1). obind (findContext ls ctx index1 eof) (\<lambda>(newIndex, f2).
        if newIndex = -1 then Err (contextError index1 (join nl ctx) eof)
        else Ok (p2\<lparr>p_fuzz := p_fuzz p2 + f1 + f2, p_index := e\<rparr>,
                 newIndex + int (length ctx), chunks @ map (shift_chunk newIndex) chs)))
      = Ok (p', index', chunks')"
    using step
    unfolding update_step_def r1 Let_def prod.case bare_def [symmetric] p2_def [symmetric] pk
    by (auto split: if_splits)
  obtain index1 f1 newIndex f2 where
    loc: "(if trim_space defStr \<noteq> [] then locate_def ls defStr index else Ok (index, 0))
          = (Ok (index1, f1) :: (string, int \<times> int) outcome)"
    and fc: "findContext ls ctx index1 eof = Ok (newIndex, f2)" "newIndex \<noteq> -1"
    and p': "p' = p2\<lparr>p_fuzz := p_fuzz p2 + f1 + f2, p_index := e\<rparr>"
    and index': "index' = newIndex + int (length ctx)"
    and chunks': "chunks' = chunks @ map (shift_chunk newIndex) chs"
    using body unfolding obind_eq_Ok by (auto split: if_split_asm)
  note fr1 = readStr_frame [OF r1]
  have fr2: "p_lines p2 = p_lines p" "currentFiles p2 = currentFiles p" "p_patch p2 = p_patch p"
    "p_fuzz p2 = p_fuzz p" "p_index p \<le> p_index p2" "p_index p2 \<le> length (p_lines p)"
    using fr1 pi by (auto simp: p2_def bare_def)
  have loc1: "index \<le> index1" "index1 \<le> int (length ls)" "0 \<le> f1"
    using loc index by (auto split: if_splits dest: locate_def_result)
  note fcr = findContext_result [OF fc] 
  have i1: "0 \<le> index1" using loc1 index by linarith
  note f = fcr [OF i1 loc1(2)]
  note pc = peekNextSection_chunks [OF pk]
  have e: "p_index p2 \<le> e" "e \<le> length (p_lines p)" "eof \<Longrightarrow> ''*** End of File'' \<in> set (p_lines p)"
    using peekNextSection_index [OF pk] fr2 by auto
  have ord: "ordered_from newIndex (map (shift_chunk newIndex) chs) index'"
    using ordered_from_shift [OF pc(1), of newIndex] by (simp add: index' add.commute)
  show ?thesis
  proof (rule that [of "map (shift_chunk newIndex) chs" eof])
    show "\<forall>c\<in>set (map (shift_chunk newIndex) chs). in_bounds (length ls) c"
      using ordered_from_in_bounds [OF ord f(1)] f(2) by (auto simp: index')
    show "\<forall>c\<in>set (map (shift_chunk newIndex) chs). deletes_at ls c" if "p_fuzz p' = p_fuzz p"
    proof -
      have "f2 = 0" using that f(3) loc1(3) fr2(4) by (simp add: p')
      then show ?thesis
        using deletes_at_shift [OF _ f(1,2) f(4)] pc(2) by auto
    qed
    show "eof \<or> ordered_from index (map (shift_chunk newIndex) chs) index'"
      using f(5) loc1(1) ord by (auto intro: ordered_from_mono)
    show "0 \<le> index'" "index' \<le> int (length ls)"
      using f(1,2) by (auto simp: index')
  qed (use chunks' p' fr2 e f(3) loc1(3) in auto)
qed

section \<open>The whole update section\<close>

text \<open>What the loop guarantees of the chunks it collected, for a file with lines \<open>ls\<close>.\<close>

definition chunks_sound :: "string list \<Rightarrow> string list \<Rightarrow> bool \<Rightarrow> chunk list \<Rightarrow> bool" where
  "chunks_sound pls ls exact chunks \<longleftrightarrow>
     (\<forall>c\<in>set chunks. in_bounds (length ls) c)
     \<and> (exact \<longrightarrow> (\<forall>c\<in>set chunks. deletes_at ls c))
     \<and> (''*** End of File'' \<notin> set pls \<longrightarrow> ordered_from 0 chunks (int (length ls)))"

lemma update_loop_sound:
  assumes "update_loop n p ls index chunks = Some (Ok (p', chunks'))"
    and "0 \<le> index" "index \<le> int (length ls)" "p_index p \<le> length (p_lines p)"
    and "\<forall>c\<in>set chunks. in_bounds (length ls) c"
    and "''*** End of File'' \<notin> set (p_lines p) \<longrightarrow> ordered_from 0 chunks index"
  shows "p_lines p' = p_lines p \<and> currentFiles p' = currentFiles p \<and> p_patch p' = p_patch p
    \<and> p_fuzz p \<le> p_fuzz p' \<and> p_index p \<le> p_index p' \<and> p_index p' \<le> length (p_lines p)
    \<and> (\<exists>new. chunks' = chunks @ new
         \<and> (p_fuzz p' = p_fuzz p \<longrightarrow> (\<forall>c\<in>set new. deletes_at ls c)))
    \<and> chunks_sound (p_lines p) ls False chunks'"
  using assms
proof (induction n p ls index chunks rule: update_loop.induct)
  case (1 p ls index chunks)
  then show ?case by simp
next
  case (2 n p ls index chunks)
  show ?case
  proof (cases "isDone p update_end_prefixes")
    case True
    then have eq: "p' = p" "chunks' = chunks" using "2.prems"(1) by auto
    have "''*** End of File'' \<notin> set (p_lines p) \<longrightarrow> ordered_from 0 chunks (int (length ls))"
      using "2.prems" by (auto intro: ordered_from_mono)
    then have "chunks_sound (p_lines p) ls False chunks"
      using "2.prems"(5) by (simp add: chunks_sound_def)
    with "2.prems" show ?thesis by (simp add: eq)
  next
    case False
    then obtain p1 i1 c1 where st: "update_step p ls index chunks = Ok (p1, i1, c1)"
      and rest: "update_loop n p1 ls i1 c1 = Some (Ok (p', chunks'))"
      using "2.prems"(1) by (auto split: outcome.splits)
    obtain new eof where new:
      "c1 = chunks @ new"
      "p_lines p1 = p_lines p" "currentFiles p1 = currentFiles p" "p_patch p1 = p_patch p"
      "p_fuzz p \<le> p_fuzz p1" "p_index p \<le> p_index p1" "p_index p1 \<le> length (p_lines p)"
      "0 \<le> i1" "i1 \<le> int (length ls)" "\<forall>c\<in>set new. in_bounds (length ls) c"
      "p_fuzz p1 = p_fuzz p \<Longrightarrow> \<forall>c\<in>set new. deletes_at ls c"
      "eof \<or> ordered_from index new i1" "eof \<Longrightarrow> ''*** End of File'' \<in> set (p_lines p)"
      using update_step_Ok [OF st "2.prems"(2-4)] by metis
    have ord: "''*** End of File'' \<notin> set (p_lines p1) \<longrightarrow> ordered_from 0 c1 i1"
      using new "2.prems"(6) by (auto simp: ordered_from_append)
    have ib: "\<forall>c\<in>set c1. in_bounds (length ls) c" using new "2.prems"(5) by auto
    have pi: "p_index p1 \<le> length (p_lines p1)" using new by simp
    note IH = "2.IH" [OF False st refl refl, OF rest new(8,9) pi ib ord]
    obtain new2 where new2: "chunks' = c1 @ new2"
      "p_fuzz p' = p_fuzz p1 \<longrightarrow> (\<forall>c\<in>set new2. deletes_at ls c)"
      using IH by blast
    have "chunks' = chunks @ (new @ new2)" using new2 new(1) by simp
    moreover have "\<forall>c\<in>set (new @ new2). deletes_at ls c" if eq: "p_fuzz p' = p_fuzz p"
    proof -
      have "p_fuzz p1 \<le> p_fuzz p'" using IH by simp
      with eq new(5) have "p_fuzz p1 = p_fuzz p" "p_fuzz p' = p_fuzz p1" by auto
      with new(11) new2(2) show ?thesis by auto
    qed
    ultimately show ?thesis using IH new by auto
  qed
qed

section \<open>The whole patch\<close>

text \<open>What a parsed action says about the file it names.\<close>

definition action_sound ::
  "string list \<Rightarrow> (string, string) gomap \<Rightarrow> bool \<Rightarrow> string \<Rightarrow> patch_action \<Rightarrow> bool"
where
  "action_sound pls files exact path a =
     (case pa_Type a of
        ActionUpdate \<Rightarrow>
          (\<exists>text. map_of files path = Some text
             \<and> chunks_sound pls (split_on (CHR 0x0A) text) exact (pa_Chunks a))
      | ActionDelete \<Rightarrow> map_of files path \<noteq> None \<and> pa_Chunks a = []
      | ActionAdd \<Rightarrow> map_of files path = None \<and> pa_NewFile a \<noteq> None)"

lemma add_loop_frame:
  "add_loop p ls = Ok (p', ls') \<Longrightarrow> p_index p \<le> length (p_lines p) \<Longrightarrow>
   p_lines p' = p_lines p \<and> currentFiles p' = currentFiles p \<and> p_patch p' = p_patch p
   \<and> p_fuzz p' = p_fuzz p \<and> p_index p \<le> p_index p' \<and> p_index p' \<le> length (p_lines p)"
proof (induction p ls rule: add_loop.induct)
  case (1 p ls)
  obtain s p1 where r: "readStr p [] True = (s, p1)" by (cases "readStr p [] True")
  note fr = readStr_frame [OF r]
  show ?case
  proof (cases "isDone p add_end_prefixes")
    case True
    with "1.prems" show ?thesis by (auto simp: add_loop.simps [of p ls])
  next
    case False
    then have s: "has_prefix s ''+''" and rest: "add_loop p1 (ls @ [drop 1 s]) = Ok (p', ls')"
      using "1.prems"(1) r by (auto simp: add_loop.simps [of p ls] split: if_splits)
    from "1.IH" [OF False r [symmetric]] s rest fr "1.prems"(2) show ?thesis by simp
  qed
qed

text \<open>
  A pass of \<^const>\<open>parse_step\<close> that succeeds moves forward, adds one sound action under a new
  path, and never lowers the fuzz.
\<close>

definition step_result :: "parser \<Rightarrow> parser \<Rightarrow> bool" where
  "step_result p p' \<longleftrightarrow>
     p_lines p' = p_lines p \<and> currentFiles p' = currentFiles p
     \<and> p_fuzz p \<le> p_fuzz p' \<and> p_index p < p_index p' \<and> p_index p' \<le> length (p_lines p)
     \<and> (\<exists>path a. p_patch p' = p_patch p @ [(path, a)] \<and> map_of (p_patch p) path = None
          \<and> action_sound (p_lines p) (currentFiles p) (p_fuzz p' = p_fuzz p) path a)"

lemma put_action_new:
  "map_of (p_patch p) path = None \<Longrightarrow>
   put_action path a p = p\<lparr>p_patch := p_patch p @ [(path, a)]\<rparr>"
  by (simp add: put_action_def map_put_new map_of_eq_None_iff)

lemma parseUpdateFile_sound:
  assumes "parseUpdateFile fuel p text = Some (Ok (p', a))" "p_index p \<le> length (p_lines p)"
  shows "p_lines p' = p_lines p \<and> currentFiles p' = currentFiles p \<and> p_patch p' = p_patch p
    \<and> p_fuzz p \<le> p_fuzz p' \<and> p_index p \<le> p_index p' \<and> p_index p' \<le> length (p_lines p)"
    "pa_Type a = ActionUpdate"
    "chunks_sound (p_lines p) (split_on (CHR 0x0A) text) (p_fuzz p' = p_fuzz p) (pa_Chunks a)"
proof -
  obtain chunks where u: "update_loop fuel p (split_on (CHR 0x0A) text) 0 []
      = Some (Ok (p', chunks))"
    and a: "a = \<lparr>pa_Type = ActionUpdate, pa_NewFile = None, pa_Chunks = chunks,
                 pa_MovePath = None\<rparr>"
    using assms(1) by (auto simp: parseUpdateFile_def)
  note snd = update_loop_sound [OF u _ _ assms(2)]
  show "p_lines p' = p_lines p \<and> currentFiles p' = currentFiles p \<and> p_patch p' = p_patch p
    \<and> p_fuzz p \<le> p_fuzz p' \<and> p_index p \<le> p_index p' \<and> p_index p' \<le> length (p_lines p)"
    using snd by simp
  show "pa_Type a = ActionUpdate" by (simp add: a)
  show "chunks_sound (p_lines p) (split_on (CHR 0x0A) text) (p_fuzz p' = p_fuzz p) (pa_Chunks a)"
    using snd by (simp add: a chunks_sound_def)
qed

lemma parse_update_sound:
  assumes "parse_update fuel path p1 = Some (Ok p')" "p_index p1 \<le> length (p_lines p1)"
    and p1: "p1 = p\<lparr>p_index := k\<rparr>" "p_index p < k"
  shows "step_result p p'"
proof -
  obtain moveTo p2 where r: "readStr p1 ''*** Move to: '' False = (moveTo, p2)"
    by (cases "readStr p1 ''*** Move to: '' False")
  note fr = readStr_frame [OF r]
  obtain src p3 action where t: "map_of (currentFiles p2) path = Some src"
    and u: "parseUpdateFile fuel p2 src = Some (Ok (p3, action))"
    and new: "map_of (p_patch p1) path = None"
    and p': "p' = put_action path
       (if moveTo \<noteq> [] then action\<lparr>pa_MovePath := Some moveTo\<rparr> else action) p3"
    using assms(1) by (auto simp: parse_update_def r split: if_splits option.splits)
  note snd = parseUpdateFile_sound [OF u]
  have pi: "p_index p2 \<le> length (p_lines p2)" using fr assms(2) by simp
  let ?a = "if moveTo \<noteq> [] then action\<lparr>pa_MovePath := Some moveTo\<rparr> else action"
  have p'': "p' = p3\<lparr>p_patch := p_patch p3 @ [(path, ?a)]\<rparr>"
    unfolding p' by (rule put_action_new) (use snd(1) [OF pi] fr new in simp)
  have "action_sound (p_lines p) (currentFiles p) (p_fuzz p' = p_fuzz p) path ?a"
    using snd(2,3) [OF pi] t fr by (auto simp: action_sound_def p'' p1)
  moreover have "p_index p < p_index p'"
    using snd(1) [OF pi] fr(5) p1 by (simp add: p'')
  ultimately show ?thesis
    using snd(1) [OF pi] fr assms(2) new by (auto simp: step_result_def p'' p1)
qed

lemma parse_delete_sound:
  assumes "parse_delete path p1 = Ok p'" "p_index p1 \<le> length (p_lines p1)"
    and p1: "p1 = p\<lparr>p_index := k\<rparr>" "p_index p < k"
  shows "step_result p p'"
  using assms
  by (auto simp: parse_delete_def step_result_def put_action_new action_sound_def
           split: if_splits)

lemma parse_add_sound:
  assumes "parse_add path p1 = Ok p'" "p_index p1 \<le> length (p_lines p1)"
    and p1: "p1 = p\<lparr>p_index := k\<rparr>" "p_index p < k"
  shows "step_result p p'"
proof -
  obtain p2 ls where l: "add_loop p1 [] = Ok (p2, ls)"
    and new: "map_of (p_patch p1) path = None" "map_of (currentFiles p1) path = None"
    and p': "p' = put_action path \<lparr>pa_Type = ActionAdd, pa_NewFile = Some (join nl ls),
               pa_Chunks = [], pa_MovePath = None\<rparr> p2"
    using assms(1) by (auto simp: parse_add_def parseAddFile_def split: if_splits)
  note fr = add_loop_frame [OF l assms(2)]
  have "p' = p2\<lparr>p_patch := p_patch p2 @ [(path, \<lparr>pa_Type = ActionAdd,
      pa_NewFile = Some (join nl ls), pa_Chunks = [], pa_MovePath = None\<rparr>)]\<rparr>"
    unfolding p' by (rule put_action_new) (use fr new in simp)
  with fr new p1 assms(2) show ?thesis
    by (auto simp: step_result_def action_sound_def)
qed

lemma readStr_read:
  assumes "readStr p pfx r = (s, p')" "s \<noteq> []"
  shows "p' = p\<lparr>p_index := Suc (p_index p)\<rparr>" "p_index p < length (p_lines p)"
  using assms by (auto simp: readStr_def Let_def split: if_splits)

lemma parse_step_sound:
  assumes "parse_step fuel p = Some (Ok p')" "p_index p \<le> length (p_lines p)"
  shows "step_result p p'"
proof -
  obtain s1 q1 where r1: "readStr p ''*** Update File: '' False = (s1, q1)" by force
  obtain s2 q2 where r2: "readStr q1 ''*** Delete File: '' False = (s2, q2)" by force
  obtain s3 q3 where r3: "readStr q2 ''*** Add File: '' False = (s3, q3)" by force
  note fr1 = readStr_frame [OF r1] and fr2 = readStr_frame [OF r2] and fr3 = readStr_frame [OF r3]
  have q: "q1 = p\<lparr>p_index := p_index q1\<rparr>" "q2 = p\<lparr>p_index := p_index q2\<rparr>"
    "q3 = p\<lparr>p_index := p_index q3\<rparr>"
    using fr1(7) fr2(7) fr3(7) by (metis parser.surjective parser.update_convs(3))+
  have le: "p_index q1 \<le> length (p_lines q1)" "p_index q2 \<le> length (p_lines q2)"
    "p_index q3 \<le> length (p_lines q3)"
    using fr1 fr2 fr3 assms(2) by simp_all
  show ?thesis
  proof (cases "s1 = []")
    case False
    then have "parse_update fuel s1 q1 = Some (Ok p')"
      using assms(1) by (simp add: parse_step_def r1)
    moreover have "p_index p < p_index q1" using readStr_read [OF r1 False] by simp
    ultimately show ?thesis using parse_update_sound [OF _ le(1) q(1)] by blast
  next
    case s1: True
    show ?thesis
    proof (cases "s2 = []")
      case False
      then have "parse_delete s2 q2 = Ok p'"
        using assms(1) s1 by (simp add: parse_step_def r1 r2)
      moreover have "p_index p < p_index q2" using readStr_read [OF r2 False] fr1(5) by simp
      ultimately show ?thesis using parse_delete_sound [OF _ le(2) q(2)] by blast
    next
      case s2: True
      then have "s3 \<noteq> []" "parse_add s3 q3 = Ok p'"
        using assms(1) s1 by (auto simp: parse_step_def r1 r2 r3 split: if_splits)
      moreover have "p_index p < p_index q3"
        using readStr_read [OF r3 \<open>s3 \<noteq> []\<close>] fr1(5) fr2(5) by simp
      ultimately show ?thesis using parse_add_sound [OF _ le(3) q(3)] by blast
    qed
  qed
qed

lemma chunks_sound_weaken: "chunks_sound pls ls b cs \<Longrightarrow> (b' \<Longrightarrow> b) \<Longrightarrow> chunks_sound pls ls b' cs"
  by (auto simp: chunks_sound_def)

lemma action_sound_weaken:
  "action_sound pls fs b path a \<Longrightarrow> (b' \<Longrightarrow> b) \<Longrightarrow> action_sound pls fs b' path a"
  by (auto simp: action_sound_def split: patch_kind.splits intro: chunks_sound_weaken)

lemma parse_loop_sound:
  assumes "parse_loop fuel n p = Some (Ok p')" "p_index p \<le> length (p_lines p)"
    "wf_map (p_patch p)"
  shows "p_fuzz p \<le> p_fuzz p' \<and> wf_map (p_patch p')
    \<and> (\<forall>(path, a) \<in> set (p_patch p'). (path, a) \<in> set (p_patch p)
         \<or> action_sound (p_lines p) (currentFiles p) (p_fuzz p' = p_fuzz p) path a)"
  using assms
proof (induction n arbitrary: p)
  case 0
  then show ?case by simp
next
  case (Suc n)
  show ?case
  proof (cases "isDone p [''*** End Patch'']")
    case True
    then have "p' = p\<lparr>p_index := Suc (p_index p)\<rparr>"
      using Suc.prems(1) by (auto split: if_splits)
    with Suc.prems show ?thesis by auto
  next
    case False
    then obtain p1 where st: "parse_step fuel p = Some (Ok p1)"
      and rest: "parse_loop fuel n p1 = Some (Ok p')"
      using Suc.prems(1) by (auto split: option.splits outcome.splits)
    obtain path a where r: "p_lines p1 = p_lines p" "currentFiles p1 = currentFiles p"
      "p_fuzz p \<le> p_fuzz p1" "p_index p1 \<le> length (p_lines p)"
      "p_patch p1 = p_patch p @ [(path, a)]" "map_of (p_patch p) path = None"
      "action_sound (p_lines p) (currentFiles p) (p_fuzz p1 = p_fuzz p) path a"
      using parse_step_sound [OF st Suc.prems(2)] by (auto simp: step_result_def)
    have wf: "wf_map (p_patch p1)"
      using Suc.prems(3) r(5,6) by (auto simp: wf_map_def map_of_eq_None_iff)
    have IH: "p_fuzz p1 \<le> p_fuzz p'" "wf_map (p_patch p')"
      "\<And>path a. (path, a) \<in> set (p_patch p') \<Longrightarrow> (path, a) \<in> set (p_patch p1)
         \<or> action_sound (p_lines p) (currentFiles p) (p_fuzz p' = p_fuzz p1) path a"
      using Suc.IH [OF rest] r wf by auto
    have eqs: "p_fuzz p1 = p_fuzz p" "p_fuzz p' = p_fuzz p1" if "p_fuzz p' = p_fuzz p"
      using that r(3) IH(1) by auto
    have "(q, b) \<in> set (p_patch p)
        \<or> action_sound (p_lines p) (currentFiles p) (p_fuzz p' = p_fuzz p) q b"
      if mem: "(q, b) \<in> set (p_patch p')" for q b
    proof -
      have new: "action_sound (p_lines p) (currentFiles p) (p_fuzz p' = p_fuzz p) path a"
        using eqs(1) by (rule action_sound_weaken [OF r(7)])
      have later: "action_sound (p_lines p) (currentFiles p) (p_fuzz p' = p_fuzz p) q b"
        if "action_sound (p_lines p) (currentFiles p) (p_fuzz p' = p_fuzz p1) q b"
        using eqs(2) by (rule action_sound_weaken [OF that])
      show ?thesis
        using IH(3) [OF mem]
      proof
        assume "(q, b) \<in> set (p_patch p1)"
        then have "(q, b) \<in> set (p_patch p) \<or> (q = path \<and> b = a)" using r(5) by auto
        with new show ?thesis by blast
      qed (use later in blast)
    qed
    with IH r(3) show ?thesis by auto
  qed
qed

lemma TextToPatch_sound:
  assumes "TextToPatch fuel text orig = Some (Ok (patch, fuzz))"
  shows "0 \<le> fuzz" "wf_map patch"
    "(path, a) \<in> set patch \<Longrightarrow> action_sound (patch_lines text) orig (fuzz = 0) path a"
proof -
  let ?p = "(NewParser orig (patch_lines text))\<lparr>p_index := 1\<rparr>"
  obtain p' where pl: "parse_loop fuel fuel ?p = Some (Ok p')"
    and eq: "patch = p_patch p'" "fuzz = p_fuzz p'"
    and len: "1 \<le> length (patch_lines text)"
    using assms by (auto simp: TextToPatch_def Let_def split: if_splits)
  have "p_index ?p \<le> length (p_lines ?p)" "wf_map (p_patch ?p)"
    using len by (simp_all add: NewParser_def wf_map_def)
  note r = parse_loop_sound [OF pl this]
  show "0 \<le> fuzz" "wf_map patch" using r by (simp_all add: NewParser_def eq)
  show "action_sound (patch_lines text) orig (fuzz = 0) path a" if "(path, a) \<in> set patch"
    using r that by (auto simp: NewParser_def eq)
qed

section \<open>Applying chunks\<close>

lemma slice_range_Ok:
  "0 \<le> lo \<Longrightarrow> lo \<le> hi \<Longrightarrow> hi \<le> int (length xs) \<Longrightarrow>
   slice_range xs lo hi = Ok (take (nat hi - nat lo) (drop (nat lo) xs))"
  by (simp add: slice_range_def)

text \<open>Chunks inside the file never make \<^const>\<open>apply_chunks\<close> panic.\<close>

lemma apply_chunks_no_panic:
  assumes "\<forall>c\<in>set chs. in_bounds (length ls) c" "0 \<le> k" "k \<le> int (length ls)"
  shows "\<not> is_panic (apply_chunks path ls chs k dest)
    \<and> (\<forall>j d. apply_chunks path ls chs k dest = Ok (j, d) \<longrightarrow> 0 \<le> j \<and> j \<le> int (length ls))"
  using assms
proof (induction chs arbitrary: k dest)
  case Nil
  then show ?case by auto
next
  case (Cons c chs)
  let ?k = "OrigIndex c + int (length (DelLines c))"
  let ?d = "dest @ take (nat (OrigIndex c) - nat k) (drop (nat k) ls) @ InsLines c"
  have c: "0 \<le> OrigIndex c" "?k \<le> int (length ls)"
    using Cons.prems(1) by (auto simp: in_bounds_def)
  show ?case
  proof (cases "k \<le> OrigIndex c")
    case True
    then have eq: "apply_chunks path ls (c # chs) k dest = apply_chunks path ls chs ?k ?d"
      using c Cons.prems(2) by (simp add: slice_range_Ok)
    show ?thesis
      unfolding eq by (rule Cons.IH) (use c Cons.prems(1) in auto)
  next
    case False
    then show ?thesis by simp
  qed
qed

lemma getUpdatedFile_no_panic:
  assumes "chunks_sound pls (split_on (CHR 0x0A) text) e (pa_Chunks a)"
  shows "\<not> is_panic (getUpdatedFile text a path)"
proof -
  have "\<forall>c\<in>set (pa_Chunks a). in_bounds (length (split_on (CHR 0x0A) text)) c"
    using assms by (simp add: chunks_sound_def)
  from apply_chunks_no_panic [OF this, of 0 path "[]"]
  show ?thesis
    by (auto simp: getUpdatedFile_def Let_def is_panic_iff slice_range_Ok)
qed

text \<open>Chunks in order inside the file are applied without an error.\<close>

lemma apply_chunks_Ok:
  assumes "ordered_from k chs (int (length ls))" "0 \<le> k"
  shows "\<exists>j d. apply_chunks path ls chs k dest = Ok (j, d) \<and> 0 \<le> j \<and> j \<le> int (length ls)"
  using assms
proof (induction chs arbitrary: k dest)
  case Nil
  then show ?case by auto
next
  case (Cons c chs)
  let ?k = "OrigIndex c + int (length (DelLines c))"
  have o: "k \<le> OrigIndex c" and rest: "ordered_from ?k chs (int (length ls))"
    using Cons.prems by auto
  have le: "?k \<le> int (length ls)" using ordered_from_le [OF rest] .
  have "0 \<le> ?k" using o Cons.prems(2) by linarith
  note IH = Cons.IH [OF rest this]
  have "apply_chunks path ls (c # chs) k dest =
      apply_chunks path ls chs ?k
        (dest @ take (nat (OrigIndex c) - nat k) (drop (nat k) ls) @ InsLines c)"
    using o le Cons.prems(2) by (simp add: slice_range_Ok)
  with IH show ?case by metis
qed

lemma getUpdatedFile_Ok:
  assumes "pa_Type a = ActionUpdate"
    "ordered_from 0 (pa_Chunks a) (int (length (split_on (CHR 0x0A) text)))"
  shows "\<exists>new. getUpdatedFile text a path = Ok new"
  using assms(1) apply_chunks_Ok [OF assms(2), of path "[]"]
  by (auto simp: getUpdatedFile_def Let_def slice_range_Ok)

text \<open>
  The reference: a file cut into kept and deleted pieces, and the same file with every
  deleted piece replaced by the inserted one.
\<close>

type_synonym segment = "string list \<times> string list \<times> string list"

definition seg_old :: "segment list \<Rightarrow> string list" where
  "seg_old segs = concat (map (\<lambda>(keep, del, ins). keep @ del) segs)"

definition seg_new :: "segment list \<Rightarrow> string list" where
  "seg_new segs = concat (map (\<lambda>(keep, del, ins). keep @ ins) segs)"

lemma seg_simps [simp]:
  "seg_old [] = []" "seg_old ((k, d, i) # segs) = k @ d @ seg_old segs"
  "seg_new [] = []" "seg_new ((k, d, i) # segs) = k @ i @ seg_new segs"
  by (simp_all add: seg_old_def seg_new_def)

lemma apply_chunks_segments:
  assumes "apply_chunks path ls chs k dest = Ok (j, d)" "\<forall>c\<in>set chs. deletes_at ls c" "0 \<le> k"
    "k \<le> int (length ls)"
  shows "\<exists>segs. map snd segs = map (\<lambda>c. (DelLines c, InsLines c)) chs
    \<and> drop (nat k) ls = seg_old segs @ drop (nat j) ls
    \<and> d = dest @ seg_new segs \<and> 0 \<le> j \<and> j \<le> int (length ls)"
  using assms
proof (induction chs arbitrary: k dest)
  case Nil
  then show ?case by simp
next
  case (Cons c chs)
  let ?o = "OrigIndex c" and ?n = "length (DelLines c)"
  let ?keep = "take (nat ?o - nat k) (drop (nat k) ls)"
  have del: "take ?n (drop (nat ?o) ls) = DelLines c" "?o + int ?n \<le> int (length ls)"
    using Cons.prems(2) by (auto simp: deletes_at_def)
  have o: "k \<le> ?o" "?o \<le> int (length ls)"
    and rest: "apply_chunks path ls chs (?o + int ?n) (dest @ ?keep @ InsLines c) = Ok (j, d)"
    using Cons.prems(1,3) by (auto simp: slice_range_Ok split: if_splits)
  obtain segs where segs: "map snd segs = map (\<lambda>c. (DelLines c, InsLines c)) chs"
      "drop (nat (?o + int ?n)) ls = seg_old segs @ drop (nat j) ls"
      "d = (dest @ ?keep @ InsLines c) @ seg_new segs" "0 \<le> j" "j \<le> int (length ls)"
    using Cons.IH [OF rest] Cons.prems(2,3) o del(2) by auto
  have idx: "nat (?o + int ?n) = nat ?o + ?n"
    using o Cons.prems(3) by (simp add: nat_add_distrib)
  have "drop (nat ?o) ls = DelLines c @ drop (nat ?o + ?n) ls"
    using append_take_drop_id [of ?n "drop (nat ?o) ls"] del(1) by (simp add: add.commute)
  moreover have "drop (nat k) ls = ?keep @ drop (nat ?o) ls"
  proof -
    have "drop (nat ?o - nat k) (drop (nat k) ls) = drop (nat ?o) ls"
      using o Cons.prems(3) by simp
    then show ?thesis by (metis append_take_drop_id)
  qed
  ultimately have "drop (nat k) ls = seg_old ((?keep, DelLines c, InsLines c) # segs) @ drop (nat j) ls"
    using segs(2) by (simp add: idx)
  moreover have "d = dest @ seg_new ((?keep, DelLines c, InsLines c) # segs)"
    using segs(3) by simp
  ultimately show ?case
    using segs(1,4,5)
    by (intro exI [of _ "(?keep, DelLines c, InsLines c) # segs"]) simp
qed

lemma getUpdatedFile_segments:
  assumes "getUpdatedFile text a path = Ok new"
    and "\<forall>c\<in>set (pa_Chunks a). deletes_at (split_on (CHR 0x0A) text) c"
  shows "\<exists>segs tail. map snd segs = map (\<lambda>c. (DelLines c, InsLines c)) (pa_Chunks a)
    \<and> split_on (CHR 0x0A) text = seg_old segs @ tail
    \<and> new = join nl (seg_new segs @ tail)"
proof -
  let ?ls = "split_on (CHR 0x0A) text"
  obtain j d s where ac: "apply_chunks path ?ls (pa_Chunks a) 0 [] = Ok (j, d)"
    and s: "slice_range ?ls j (int (length ?ls)) = (Ok s :: (string, string list) outcome)"
    and new: "new = join nl (d @ s)"
    using assms(1) by (auto simp: getUpdatedFile_def Let_def split: if_splits)
  obtain segs where segs: "map snd segs = map (\<lambda>c. (DelLines c, InsLines c)) (pa_Chunks a)"
    "?ls = seg_old segs @ drop (nat j) ?ls" "d = seg_new segs" "0 \<le> j" "j \<le> int (length ?ls)"
    using apply_chunks_segments [OF ac assms(2)] by auto
  have "s = drop (nat j) ?ls"
    using s segs(4,5) by (simp add: slice_range_Ok)
  with segs new show ?thesis by blast
qed

section \<open>Turning a patch into a commit\<close>

lemma commit_loop_no_panic:
  "\<forall>(path, a) \<in> set acts. \<exists>b. action_sound pls orig b path a \<Longrightarrow>
   \<not> is_panic (commit_loop acts orig c)"
proof (induction acts arbitrary: c)
  case Nil
  then show ?case by simp
next
  case (Cons pa acts)
  obtain path a where pa: "pa = (path, a)" by (cases pa)
  obtain b where b: "action_sound pls orig b path a" using Cons.prems pa by auto
  have "\<not> is_panic (action_change orig path a)"
  proof (cases "pa_Type a")
    case ActionUpdate
    then obtain src where "map_of orig path = Some src"
      "chunks_sound pls (split_on (CHR 0x0A) src) b (pa_Chunks a)"
      using b by (auto simp: action_sound_def)
    with ActionUpdate getUpdatedFile_no_panic [of pls src b a path] show ?thesis
      by (auto simp: action_change_def map_get_str_def is_panic_iff)
  qed (simp_all add: action_change_def)
  with Cons show ?case by (auto simp: pa is_panic_iff)
qed

lemma commit_loop_Ok:
  "\<forall>(path, a) \<in> set acts. \<exists>b. action_sound pls orig b path a \<Longrightarrow>
   ''*** End of File'' \<notin> set pls \<Longrightarrow> \<exists>c'. commit_loop acts orig c = Ok c'"
proof (induction acts arbitrary: c)
  case Nil
  then show ?case by simp
next
  case (Cons pa acts)
  obtain path a where pa: "pa = (path, a)" by (cases pa)
  obtain b where b: "action_sound pls orig b path a" using Cons.prems pa by auto
  have "\<exists>fc. action_change orig path a = Ok fc"
  proof (cases "pa_Type a")
    case ActionUpdate
    then obtain src where "map_of orig path = Some src"
      "chunks_sound pls (split_on (CHR 0x0A) src) b (pa_Chunks a)"
      using b by (auto simp: action_sound_def)
    with ActionUpdate Cons.prems(2) getUpdatedFile_Ok [of a src path] show ?thesis
      by (auto simp: action_change_def map_get_str_def chunks_sound_def)
  qed (simp_all add: action_change_def)
  with Cons show ?case by (auto simp: pa)
qed

end
