(* ===== verification/Patch_Termination.thy ===== *)
theory Patch_Termination
  imports Patch_Correct
begin

text \<open>
  When the parsing loops return. A line that starts a section marker (\<open>@@\<close> or \<open>***\<close>) and is
  none of the markers the update loop knows is stuck: the section reader stops in front of
  it and nothing consumes it. Without a stuck line one pass of fuel per line is enough;
  with one at the start of an update section no fuel is.
\<close>

section \<open>Fuel\<close>

lemma update_loop_more_fuel:
  "update_loop n p ls index chunks = Some r \<Longrightarrow> n \<le> m \<Longrightarrow> update_loop m p ls index chunks = Some r"
proof (induction n p ls index chunks arbitrary: m rule: update_loop.induct)
  case 1
  then show ?case by simp
next
  case (2 n p ls index chunks)
  obtain m' where m: "m = Suc m'" "n \<le> m'"
    using "2.prems"(2) by (cases m) auto
  show ?case
    using 2 m by (auto split: outcome.splits)
qed

lemma parse_step_more_fuel:
  assumes "parse_step f p = Some r" "f \<le> g"
  shows "parse_step g p = Some r"
proof -
  have "parse_update g path q = Some r'" if "parse_update f path q = Some r'" for path q r'
    using that assms(2)
    by (auto simp: parse_update_def parseUpdateFile_def dest: update_loop_more_fuel
             split: if_splits option.splits prod.splits)
  then show ?thesis
    using assms(1) by (auto simp: parse_step_def split: if_splits prod.splits)
qed

lemma parse_loop_more_fuel:
  "parse_loop f n p = Some r \<Longrightarrow> f \<le> g \<Longrightarrow> n \<le> m \<Longrightarrow> parse_loop g m p = Some r"
proof (induction n arbitrary: p m)
  case 0
  then show ?case by simp
next
  case (Suc n)
  obtain m' where m: "m = Suc m'" "n \<le> m'"
    using Suc.prems(3) by (cases m) auto
  show ?case
  proof (cases "isDone p [''*** End Patch'']")
    case True
    with Suc.prems m show ?thesis by simp
  next
    case False
    then obtain r1 where r1: "parse_step f p = Some r1"
      using Suc.prems(1) by (cases "parse_step f p") auto
    note parse_step_more_fuel [OF r1 Suc.prems(2)]
    with r1 False Suc.prems Suc.IH m show ?thesis
      by (auto split: outcome.splits)
  qed
qed

lemma TextToPatch_more_fuel:
  "TextToPatch f text orig = Some r \<Longrightarrow> f \<le> g \<Longrightarrow> TextToPatch g text orig = Some r"
  by (auto simp: TextToPatch_def Let_def split: if_splits dest: parse_loop_more_fuel)

section \<open>Stuck lines\<close>

definition stuck_line :: "string \<Rightarrow> bool" where
  "stuck_line s \<longleftrightarrow>
     (has_prefix s ''@@'' \<and> \<not> has_prefix s ''@@ '' \<and> s \<noteq> ''@@'')
     \<or> (has_prefix s ''***'' \<and> \<not> list_ex (has_prefix s) update_end_prefixes)"

abbreviation update_header :: "string \<Rightarrow> bool" where
  "update_header s \<equiv> has_prefix s ''*** Update File:''"

abbreviation move_header :: "string \<Rightarrow> bool" where
  "move_header s \<equiv> has_prefix s ''*** Move to: ''"

text \<open>From \<open>i\<close> on, a new update header comes before every stuck line.\<close>

definition guarded_from :: "string list \<Rightarrow> nat \<Rightarrow> bool" where
  "guarded_from pls i \<longleftrightarrow>
     (\<forall>k. i \<le> k \<and> k < length pls \<and> stuck_line (pls ! k)
        \<longrightarrow> (\<exists>j. i \<le> j \<and> j < k \<and> update_header (pls ! j)))"

lemma endSection_iff: "endSection s \<longleftrightarrow> has_prefix s ''@@'' \<or> has_prefix s ''***''"
proof -
  have "has_prefix s ''*** End Patch'' \<Longrightarrow> has_prefix s ''***''"
    "has_prefix s ''*** Update File:'' \<Longrightarrow> has_prefix s ''***''"
    "has_prefix s ''*** Delete File:'' \<Longrightarrow> has_prefix s ''***''"
    "has_prefix s ''*** Add File:'' \<Longrightarrow> has_prefix s ''***''"
    "has_prefix s ''*** End of File'' \<Longrightarrow> has_prefix s ''***''"
    by (erule has_prefix_trans, simp)+
  then show ?thesis by (auto simp: endSection_def)
qed

lemma update_header_end: "update_header s \<Longrightarrow> endSection s \<and> s \<noteq> ''*** End of File''"
  by (auto simp: endSection_def)

text \<open>A pass of the update loop that is not at a stuck line moves forward, past no header.\<close>

lemma update_step_progress:
  assumes step: "update_step p ls index chunks = Ok (p', index', chunks')"
    and lt: "p_index p < length (p_lines p)"
    and nd: "\<not> isDone p update_end_prefixes"
    and ns: "\<not> stuck_line (p_lines p ! p_index p)"
  shows "p_index p < p_index p'"
    "\<forall>k. p_index p \<le> k \<and> k < p_index p' \<longrightarrow> \<not> update_header (p_lines p ! k)"
proof -
  let ?l = "p_lines p ! p_index p"
  obtain defStr p1 where r1: "readStr p ''@@ '' False = (defStr, p1)"
    by (cases "readStr p ''@@ '' False")
  define bare where "bare = (defStr = [] \<and> p_index p1 < length (p_lines p1)
      \<and> p_lines p1 ! p_index p1 = ''@@'')"
  define p2 where "p2 = (if bare then p1\<lparr>p_index := Suc (p_index p1)\<rparr> else p1)"
  obtain ctx chs e eof where pk: "peekNextSection (p_lines p2) (p_index p2) = (ctx, chs, e, eof)"
    by (cases "peekNextSection (p_lines p2) (p_index p2)") auto
  have e: "p_index p' = e"
    using step
    unfolding update_step_def r1 Let_def prod.case bare_def [symmetric] p2_def [symmetric] pk
    by (auto split: if_split_asm)
  note fr = readStr_frame [OF r1]
  have p2: "p_lines p2 = p_lines p" "p_index p2 \<le> length (p_lines p)"
    using fr lt by (auto simp: p2_def bare_def)
  note idx = peekNextSection_index [OF pk]
  have noend: "list_all (\<lambda>pfx. \<not> has_prefix ?l pfx) update_end_prefixes"
    using nd lt by (simp add: isDone_def list_all_iff list_ex_iff)
  have nohead: "\<not> update_header ?l"
    using noend by (simp add: update_end_prefixes_def)
  have "p_index p < p_index p2 \<or> (p2 = p \<and> \<not> endSection ?l)"
  proof (cases "has_prefix ?l ''@@ ''")
    case True
    then have "p_index p1 = Suc (p_index p)" using r1 lt by (auto simp: readStr_def Let_def)
    then show ?thesis by (auto simp: p2_def)
  next
    case False
    then have p1: "p1 = p" "defStr = []" using r1 by (auto simp: readStr_def Let_def split: if_splits)
    show ?thesis
    proof (cases "?l = ''@@''")
      case True
      then show ?thesis using p1 lt by (simp add: p2_def bare_def)
    next
      case nb: False
      then have "p2 = p" using p1 by (simp add: p2_def bare_def)
      moreover have "\<not> has_prefix ?l ''@@''" using ns nb False by (auto simp: stuck_line_def)
      moreover have "\<not> has_prefix ?l ''***''"
        using ns noend by (auto simp: stuck_line_def list_all_iff list_ex_iff)
      ultimately show ?thesis by (simp add: endSection_iff)
    qed
  qed
  then show "p_index p < p_index p'"
    using idx(1,4) p2 lt e by auto
  have p2le: "p_index p2 \<le> Suc (p_index p) \<or> (\<exists>k. p_index p2 = Suc (Suc (p_index p))
      \<and> k = Suc (p_index p) \<and> p_lines p ! k = ''@@'')"
    using r1 by (auto simp: p2_def bare_def readStr_def Let_def split: if_splits)
  show "\<forall>k. p_index p \<le> k \<and> k < p_index p' \<longrightarrow> \<not> update_header (p_lines p ! k)"
  proof (intro allI impI)
    fix k
    assume k: "p_index p \<le> k \<and> k < p_index p'"
    show "\<not> update_header (p_lines p ! k)"
    proof (cases "p_index p2 \<le> k")
      case True
      then have "\<not> endSection (p_lines p ! k) \<or> p_lines p ! k = ''*** End of File''"
        using idx(3) p2 k e by simp
      then show ?thesis using update_header_end by blast
    next
      case False
      then have "k = p_index p \<or> p_lines p ! k = ''@@''"
        using k p2le by (cases "k = Suc (p_index p)") auto
      with nohead show ?thesis by auto
    qed
  qed
qed

lemma guarded_from_not_stuck:
  "guarded_from pls i \<Longrightarrow> i < length pls \<Longrightarrow> \<not> stuck_line (pls ! i)"
  by (auto simp: guarded_from_def)

lemma guarded_from_step:
  assumes "guarded_from pls i" "i \<le> i'" "\<forall>k. i \<le> k \<and> k < i' \<longrightarrow> \<not> update_header (pls ! k)"
  shows "guarded_from pls i'"
  unfolding guarded_from_def
proof (intro allI impI)
  fix k
  assume k: "i' \<le> k \<and> k < length pls \<and> stuck_line (pls ! k)"
  then have "i \<le> k" using assms(2) by linarith
  with k obtain j where "i \<le> j" "j < k" "update_header (pls ! j)"
    using assms(1) by (auto simp: guarded_from_def)
  with assms(3) show "\<exists>j. i' \<le> j \<and> j < k \<and> update_header (pls ! j)"
    by (metis not_le)
qed

lemma update_loop_returns:
  assumes "guarded_from (p_lines p) (p_index p)" "length (p_lines p) - p_index p < n"
    "0 \<le> index" "index \<le> int (length ls)" "p_index p \<le> length (p_lines p)"
  shows "\<exists>r. update_loop n p ls index chunks = Some r"
  using assms
proof (induction n arbitrary: p index chunks)
  case 0
  then show ?case by simp
next
  case (Suc n)
  show ?case
  proof (cases "isDone p update_end_prefixes")
    case True
    then show ?thesis by simp
  next
    case False
    then have lt: "p_index p < length (p_lines p)" by (simp add: isDone_def)
    show ?thesis
    proof (cases "update_step p ls index chunks")
      case (Ok t)
      obtain p1 i1 c1 where t: "t = (p1, i1, c1)" by (cases t)
      note st = Ok [unfolded t]
      obtain new eof where fr: "p_lines p1 = p_lines p" "p_index p1 \<le> length (p_lines p)"
        "0 \<le> i1" "i1 \<le> int (length ls)"
        using update_step_Ok [OF st Suc.prems(3-5)] by metis
      note pr = update_step_progress [OF st lt False guarded_from_not_stuck [OF Suc.prems(1) lt]]
      have "guarded_from (p_lines p1) (p_index p1)"
        using guarded_from_step [OF Suc.prems(1) _ pr(2)] pr(1) fr(1) by simp
      moreover have "length (p_lines p1) - p_index p1 < n"
        unfolding fr(1) using pr(1) fr(2) Suc.prems(2) by linarith
      ultimately have "\<exists>r. update_loop n p1 ls i1 c1 = Some r"
        using fr by (intro Suc.IH) auto
      then show ?thesis using False by (simp add: st)
    qed (use False in simp_all)
  qed
qed

section \<open>The whole patch\<close>

text \<open>
  The patches on which the parser is known to return: after the first line, every stuck
  line is a move header directly after an update header, which is where the parser reads it.
\<close>

definition no_stuck :: "string list \<Rightarrow> bool" where
  "no_stuck pls \<longleftrightarrow>
     (\<forall>k<length pls. 0 < k \<longrightarrow> stuck_line (pls ! k) \<longrightarrow>
        update_header (pls ! (k - 1)) \<and> move_header (pls ! k))"

lemma move_not_update: "move_header s \<Longrightarrow> \<not> update_header s"
  by (auto simp: has_prefix_iff)

lemma guarded_after_headers:
  assumes ns: "no_stuck (p_lines p1)"
    and r: "readStr p1 ''*** Move to: '' False = (moveTo, p2)"
    and lt: "p_index p1 \<le> length (p_lines p1)" "0 < p_index p1"
  shows "guarded_from (p_lines p2) (p_index p2)"
  unfolding guarded_from_def
proof (intro allI impI)
  fix k
  note fr = readStr_frame [OF r]
  assume k: "p_index p2 \<le> k \<and> k < length (p_lines p2) \<and> stuck_line (p_lines p2 ! k)"
  then have st: "0 < k" "update_header (p_lines p1 ! (k - 1))" "move_header (p_lines p1 ! k)"
    using ns fr(1,5) lt(2) by (auto simp: no_stuck_def)
  have "p_index p2 \<le> k - 1"
  proof (rule ccontr)
    assume "\<not> p_index p2 \<le> k - 1"
    then have kk: "k = p_index p2" using k st(1) by linarith
    from r show False
    proof (cases rule: readStr_cases)
      case skip
      then show False using st(3) kk k by (auto simp: fr(1))
    next
      case read
      then show False using st(2) kk move_not_update by auto
    qed
  qed
  then show "\<exists>j. p_index p2 \<le> j \<and> j < k \<and> update_header (p_lines p2 ! j)"
    using st(1,2) fr(1) by (intro exI [of _ "k - 1"]) auto
qed

lemma parse_update_returns:
  assumes "no_stuck (p_lines p1)" "p_index p1 \<le> length (p_lines p1)" "length (p_lines p1) < fuel"
    "0 < p_index p1"
  shows "\<exists>r. parse_update fuel path p1 = Some r"
proof -
  obtain moveTo p2 where r: "readStr p1 ''*** Move to: '' False = (moveTo, p2)"
    by (cases "readStr p1 ''*** Move to: '' False")
  note fr = readStr_frame [OF r]
  have "\<exists>r. update_loop fuel p2 ls 0 [] = Some r" for ls
    using update_loop_returns [OF guarded_after_headers [OF assms(1) r assms(2,4)], of fuel 0 ls "[]"]
      fr assms by simp
  then have "\<exists>r. parseUpdateFile fuel p2 src = Some r" for src
    by (auto simp: parseUpdateFile_def)
  then show ?thesis
    by (auto simp: parse_update_def r split: option.splits)
qed

lemma parse_step_returns:
  assumes "no_stuck (p_lines p)" "p_index p \<le> length (p_lines p)" "length (p_lines p) < fuel"
    "0 < p_index p"
  shows "\<exists>r. parse_step fuel p = Some r"
proof -
  obtain path p1 where r: "readStr p ''*** Update File: '' False = (path, p1)"
    by (cases "readStr p ''*** Update File: '' False")
  note fr = readStr_frame [OF r]
  have "\<exists>r. parse_update fuel path p1 = Some r"
    using parse_update_returns [of p1 fuel path] fr assms by simp
  then show ?thesis
    by (auto simp: parse_step_def r split: prod.splits)
qed

lemma parse_loop_returns:
  assumes "no_stuck (p_lines p)" "p_index p \<le> length (p_lines p)" "length (p_lines p) < fuel"
    "0 < p_index p" "length (p_lines p) - p_index p < n"
  shows "\<exists>r. parse_loop fuel n p = Some r"
  using assms
proof (induction n arbitrary: p)
  case 0
  then show ?case by simp
next
  case (Suc n)
  show ?case
  proof (cases "isDone p [''*** End Patch'']")
    case True
    then show ?thesis by simp
  next
    case False
    obtain r where r: "parse_step fuel p = Some r"
      using parse_step_returns [OF Suc.prems(1-4)] by blast
    show ?thesis
    proof (cases r)
      case (Ok p1)
      then have "step_result p p1" using parse_step_sound r Suc.prems(2) by blast
      then have fr: "p_lines p1 = p_lines p" "p_index p < p_index p1"
        "p_index p1 \<le> length (p_lines p)"
        by (auto simp: step_result_def)
      have "length (p_lines p1) - p_index p1 < n"
        unfolding fr(1) using fr(2,3) Suc.prems(5) by linarith
      then have "\<exists>r. parse_loop fuel n p1 = Some r"
        using fr Suc.prems by (intro Suc.IH) auto
      then show ?thesis using False r Ok by simp
    qed (use False r in simp_all)
  qed
qed

section \<open>A stuck line at the start of an update\<close>

lemma update_step_stuck:
  assumes lt: "p_index p < length (p_lines p)" and st: "stuck_line (p_lines p ! p_index p)"
  shows "update_step p ls 0 chunks = Ok (p, 0, chunks)"
proof -
  let ?l = "p_lines p ! p_index p"
  have star: "\<not> (has_prefix ?l ''***'' \<and> has_prefix ?l ''@@'')"
    by (cases ?l) auto
  have "has_prefix ?l ''@@ '' \<Longrightarrow> has_prefix ?l ''@@''"
    by (erule has_prefix_trans) simp
  then have l: "\<not> has_prefix ?l ''@@ ''" "?l \<noteq> ''@@''" "endSection ?l"
    using st star by (auto simp: stuck_line_def endSection_iff)
  have neof: "?l \<noteq> ''*** End of File''"
    using st by (auto simp: stuck_line_def update_end_prefixes_def)
  have r: "readStr p ''@@ '' False = ([], p)"
    using l(1) by (simp add: readStr_def)
  have "drop (p_index p) (p_lines p) = ?l # drop (Suc (p_index p)) (p_lines p)"
    using lt by (simp add: Cons_nth_drop_Suc)
  then have pk: "peekNextSection (p_lines p) (p_index p) = ([], [], p_index p, False)"
    using l(3) neof lt by (simp add: peekNextSection_def flush_chunk_def)
  have ts: "trim_space [] = []" by code_simp
  show ?thesis
    using l(2) pk
    by (simp add: update_step_def r ts findContext_def findContextCore_def)
qed

lemma update_loop_stuck:
  assumes "p_index p < length (p_lines p)" "stuck_line (p_lines p ! p_index p)"
  shows "update_loop n p ls 0 chunks = None"
proof (induction n)
  case 0
  then show ?case by simp
next
  case (Suc n)
  have "\<not> list_ex (has_prefix (p_lines p ! p_index p)) update_end_prefixes"
  proof -
    have "\<not> (has_prefix s ''@@'' \<and> list_ex (has_prefix s) update_end_prefixes)" for s
      by (cases s) (auto simp: update_end_prefixes_def)
    then show ?thesis using assms(2) by (auto simp: stuck_line_def)
  qed
  then have "\<not> isDone p update_end_prefixes"
    using assms(1) by (simp add: isDone_def)
  then show ?case using Suc by (simp add: update_step_stuck [OF assms])
qed

end
