(* ===== verification/Patch_Properties.thy ===== *)
theory Patch_Properties
  imports Patch_Termination
begin

text \<open>
  The properties of \<open>internal/diff/patch.go\<close>, each with an instance on a concrete patch.
\<close>

section \<open>Concrete patches\<close>

definition demo_file :: string where
  "demo_file = join nl [''x'', ''a'', ''b'', ''c'']"

definition demo_patch :: string where
  "demo_patch = join nl
     [''*** Begin Patch'', ''*** Update File: f'', '' a'', ''-b'', ''+B'', '' c'',
      ''*** End Patch'']"

definition demo_result :: "(string, patch \<times> int) outcome" where
  "demo_result =
     Ok ([(''f'', \<lparr>pa_Type = ActionUpdate, pa_NewFile = None,
                  pa_Chunks = [\<lparr>OrigIndex = 2, DelLines = [''b''], InsLines = [''B'']\<rparr>],
                  pa_MovePath = None\<rparr>)], 0)"

lemma demo_parses: "TextToPatch 10 demo_patch [(''f'', demo_file)] = Some demo_result"
  by code_simp

section \<open>Properties\<close>

text \<open>
  Property C1: an update parsed without fuzz and applied by \<open>getUpdatedFile\<close> cuts the file
  into kept and deleted pieces, where the deleted pieces are the deletions of the chunks in
  order, and the new file is the same with each deletion replaced by the chunk's insertion.
\<close>

theorem parsed_update_is_exact:
  assumes "TextToPatch fuel text orig = Some (Ok (patch, 0))"
    and "(path, a) \<in> set patch" "pa_Type a = ActionUpdate"
    and "getUpdatedFile (map_get_str orig path) a path = Ok new"
  shows "\<exists>segs tail. map snd segs = map (\<lambda>c. (DelLines c, InsLines c)) (pa_Chunks a)
    \<and> split_on (CHR 0x0A) (map_get_str orig path) = seg_old segs @ tail
    \<and> new = join nl (seg_new segs @ tail)"
proof -
  have "action_sound (patch_lines text) orig (0 = (0::int)) path a"
    using TextToPatch_sound(3) [OF assms(1,2)] .
  then obtain src where "map_of orig path = Some src"
    "\<forall>c\<in>set (pa_Chunks a). deletes_at (split_on (CHR 0x0A) src) c"
    using assms(3) by (auto simp: action_sound_def chunks_sound_def)
  with getUpdatedFile_segments [OF assms(4)] show ?thesis
    by (simp add: map_get_str_def)
qed

theorem parsed_update_is_exact_witness:
  "\<exists>segs tail. map snd segs = [([''b''], [''B''])]
    \<and> [''x'', ''a'', ''b'', ''c''] = seg_old segs @ tail
    \<and> join nl [''x'', ''a'', ''B'', ''c''] = join nl (seg_new segs @ tail)"
proof -
  let ?a = "\<lparr>pa_Type = ActionUpdate, pa_NewFile = None,
             pa_Chunks = [\<lparr>OrigIndex = 2, DelLines = [''b''], InsLines = [''B'']\<rparr>],
             pa_MovePath = None\<rparr>"
  have 1: "TextToPatch 10 demo_patch [(''f'', demo_file)] = Some (Ok ([(''f'', ?a)], 0))"
    using demo_parses by (simp add: demo_result_def)
  have 2: "getUpdatedFile (map_get_str [(''f'', demo_file)] ''f'') ?a ''f''
      = Ok (join nl [''x'', ''a'', ''B'', ''c''])"
    by code_simp
  have 3: "split_on (CHR 0x0A) (map_get_str [(''f'', demo_file)] ''f'') = [''x'', ''a'', ''b'', ''c'']"
    by code_simp
  show ?thesis
    using parsed_update_is_exact [OF 1 _ _ 2] by (simp add: 3)
qed

text \<open>
  A patch that parses against the files turns into a commit without a panic,
  and without an error unless it uses an end-of-file marker.
\<close>

theorem parsed_patch_commits:
  assumes "TextToPatch fuel text orig = Some (Ok (patch, fuzz))"
  shows "\<not> is_panic (PatchToCommit patch orig)
    \<and> (''*** End of File'' \<in> set (patch_lines text) \<or> (\<exists>c. PatchToCommit patch orig = Ok c))"
proof -
  have *: "\<forall>(path, a) \<in> set patch. \<exists>b. action_sound (patch_lines text) orig b path a"
    using TextToPatch_sound(3) [OF assms] by blast
  from commit_loop_no_panic [OF *] commit_loop_Ok [OF *] show ?thesis
    by (auto simp: PatchToCommit_def)
qed

theorem parsed_patch_commits_witness:
  "\<exists>c. PatchToCommit [(''f'', \<lparr>pa_Type = ActionUpdate, pa_NewFile = None,
        pa_Chunks = [\<lparr>OrigIndex = 2, DelLines = [''b''], InsLines = [''B'']\<rparr>],
        pa_MovePath = None\<rparr>)] [(''f'', demo_file)] = Ok c"
proof -
  have no: "''*** End of File'' \<notin> set (patch_lines demo_patch)"
    by code_simp
  show ?thesis
    using parsed_patch_commits [OF demo_parses [unfolded demo_result_def]] no by simp
qed

text \<open>
  Property C29: the parser returns. If every line that starts with a section marker is a
  marker the parser knows, or a move header right after an update header, one unit of fuel
  per line and one more gives a result, whatever the files.
\<close>

theorem parser_returns:
  assumes "no_stuck (patch_lines text)" "length (patch_lines text) < fuel"
  shows "\<exists>r. TextToPatch fuel text orig = Some r"
proof -
  have "\<exists>r. parse_loop fuel fuel ((NewParser orig (patch_lines text))\<lparr>p_index := 1\<rparr>) = Some r"
    if "2 \<le> length (patch_lines text)"
    by (rule parse_loop_returns) (use assms that in \<open>auto simp: NewParser_def\<close>)
  then show ?thesis
    by (auto simp: TextToPatch_def Let_def)
qed

theorem parser_returns_witness: "\<exists>r. TextToPatch 8 demo_patch [(''f'', demo_file)] = Some r"
proof -
  have "no_stuck (patch_lines demo_patch)"
    unfolding no_stuck_def by code_simp
  moreover have "length (patch_lines demo_patch) < 8"
    by code_simp
  ultimately show ?thesis by (rule parser_returns)
qed

text \<open>
  The parser hangs. If the first line of an update section starts like a
  section marker and is none (and is no move header), no amount of fuel gives a result: the
  loop of \<open>parseUpdateFile\<close> runs forever.
\<close>

theorem parser_hangs:
  assumes "patch_lines text = b # (''*** Update File: '' @ path) # l # rest"
    and "has_prefix b ''*** Begin Patch''" "last (l # rest) = ''*** End Patch''"
    and "path \<noteq> []" "map_of orig path = Some src"
    and "stuck_line l" "\<not> move_header l"
  shows "TextToPatch fuel text orig = None"
proof -
  let ?ls = "patch_lines text"
  let ?p = "(NewParser orig ?ls)\<lparr>p_index := 1\<rparr>"
  let ?p1 = "?p\<lparr>p_index := 2\<rparr>"
  have r1: "readStr ?p ''*** Update File: '' False = (path, ?p1)"
    using assms(1) by (simp add: readStr_def NewParser_def)
  have r2: "readStr ?p1 ''*** Move to: '' False = ([], ?p1)"
    using assms(1,7) by (simp add: readStr_def NewParser_def)
  have "update_loop fuel ?p1 (split_on (CHR 0x0A) src) 0 [] = None"
    by (rule update_loop_stuck) (use assms(1,6) in \<open>simp_all add: NewParser_def\<close>)
  then have "parse_update fuel path ?p1 = None"
    unfolding parse_update_def r2 prod.case
    using assms(5) by (simp add: parseUpdateFile_def NewParser_def)
  then have "parse_step fuel ?p = None"
    using assms(4) unfolding parse_step_def r1 Let_def prod.case by simp
  moreover have "\<not> isDone ?p [''*** End Patch'']"
    using assms(1) by (simp add: isDone_def NewParser_def)
  ultimately have "parse_loop fuel fuel ?p = None"
    by (cases fuel) simp_all
  then show ?thesis
    using assms(1,2,3) by (auto simp: TextToPatch_def Let_def)
qed

theorem parser_hangs_witness:
  "\<forall>fuel. TextToPatch fuel (join nl [''*** Begin Patch'', ''*** Update File: f'', ''@@foo'',
     ''*** End Patch'']) [(''f'', demo_file)] = None"
  by (rule allI, rule parser_hangs [where b = "''*** Begin Patch''" and path = "''f''" and l = "''@@foo''"
        and rest = "[''*** End Patch'']"]) code_simp+

text \<open>
  An end-of-file section that expects more lines than the file has makes the
  context search read before the start of the file, which panics.
\<close>

theorem eof_context_panics:
  assumes "length ls < length ctx"
  shows "findContext ls ctx start True = Panic ''index out of range''"
proof -
  let ?i = "int (length ls) - int (length ctx)"
  have ctx: "ctx \<noteq> []" using assms by auto
  have "match_at cmp_exact ls ?i ctx = Panic ''index out of range''"
    using assms by (cases ctx) auto
  then have "tryFindMatch ls ctx ?i cmp_exact = Panic ''index out of range''"
    using assms ctx by (simp add: tryFindMatch.simps [of ls ctx ?i])
  then show ?thesis
    using ctx unfolding findContext_def findContextCore_def by simp
qed

theorem eof_context_panics_witness:
  "findContext [''z''] [''a'', ''b''] 0 True = Panic ''index out of range''"
  using eof_context_panics [of "[''z'']" "[''a'', ''b'']" 0] by simp

text \<open>
  Property C26: the search for a context of at least one line. Without the end-of-file mark it
  answers \<open>best_match\<close> from its start: nothing where the context does not even occur up to white
  space, the first exact place with fuzz 0 where there is one, and otherwise a place up to white
  space with fuzz 1, although the code announces 100 for a match up to white space. With the mark,
  and a context no longer than the file, the answer for the last lines of the file is taken when
  it finds them; otherwise it is the answer from the start, with 10000 added to the fuzz - also
  when nothing was found.
\<close>

theorem context_search_sound:
  assumes "ctx \<noteq> []" and "eof \<Longrightarrow> length ctx \<le> length ls"
  shows "\<exists>j f. findContext ls ctx (int start) eof = Ok (j, f) \<and>
    (if \<not> eof then best_match ls ctx start j f
     else best_match ls ctx (length ls - length ctx) j f \<and> j \<noteq> -1 \<or>
       best_match ls ctx (length ls - length ctx) (-1) 0 \<and> best_match ls ctx start j (f - 10000))"
proof -
  obtain j f where start: "findContextCore ls ctx (int start) = Ok (j, f)" "best_match ls ctx start j f"
    using findContextCore_best [OF assms(1)] by blast
  show ?thesis
  proof (cases eof)
    case True
    obtain j' f' where core: "findContextCore ls ctx (int (length ls - length ctx)) = Ok (j', f')"
        "best_match ls ctx (length ls - length ctx) j' f'"
      using findContextCore_best [OF assms(1)] by blast
    have len: "int (length ls) - int (length ctx) = int (length ls - length ctx)"
      using assms(2) True by simp
    show ?thesis
    proof (cases "j' = -1")
      case none: True
      then have "f' = 0" using core(2) by (auto simp: best_match_def)
      then have "findContext ls ctx (int start) eof = Ok (j, f + 10000)"
        "best_match ls ctx (length ls - length ctx) (-1) 0"
        using True none core start(1) by (simp_all add: findContext_def len)
      with True start(2) show ?thesis by simp
    next
      case False
      then have "findContext ls ctx (int start) eof = Ok (j', f')"
        using True core(1) by (simp add: findContext_def len)
      with True False core(2) show ?thesis by simp
    qed
  qed (use start in \<open>simp add: findContext_def\<close>)
qed

theorem context_search_sound_witness:
  "findContext [''a'', ''b '', ''c''] [''b''] 0 True = Ok (1, 10001) \<and>
   best_match [''a'', ''b '', ''c''] [''b''] 0 1 1"
proof -
  have "findContext [''a'', ''b '', ''c''] [''b''] 0 True = Ok (1, 10001)" by code_simp
  moreover have "\<not> best_match [''a'', ''b '', ''c''] [''b''] 2 1 10001" by (simp add: best_match_def)
  ultimately show ?thesis
    using context_search_sound [of "[''b'']" True "[''a'', ''b '', ''c'']" 0]
    by (simp add: numeral_2_eq_2)
qed

text \<open>
  Writing a commit with the package's file functions. If no function reports
  an error, the files afterwards are the files before with the effect of every change.
\<close>

theorem commit_writes_effect:
  assumes "ApplyCommit c WriteFile RemoveFile w = (w', None)"
  shows "map_of (fs_files w') = commit_effect c (map_of (fs_files w))"
  using assms by (rule package_files.apply_commit_effect)

theorem commit_writes_effect_witness:
  "map_of [(''g'', ''new'')] = commit_effect
     [(''f'', \<lparr>fc_Type = ActionUpdate, fc_OldContent = Some ''old'', fc_NewContent = Some ''new'',
              fc_MovePath = Some ''g''\<rparr>)] (map_of [(''f'', ''old'')])"
proof -
  let ?c = "[(''f'', \<lparr>fc_Type = ActionUpdate, fc_OldContent = Some ''old'',
              fc_NewContent = Some ''new'', fc_MovePath = Some ''g''\<rparr>)]"
  have "ApplyCommit ?c WriteFile RemoveFile
      \<lparr>fs_files = [(''f'', ''old'')], fs_no_write = [], fs_no_remove = []\<rparr>
      = (\<lparr>fs_files = [(''g'', ''new'')], fs_no_write = [], fs_no_remove = []\<rparr>, None)"
    by code_simp
  from commit_writes_effect [OF this] show ?thesis by simp
qed

text \<open>
  A commit is not atomic. With two changes of which the second fails, the
  first stays written, although the patch tool announces one atomic operation.
\<close>

lemma commit_not_atomic:
  "ApplyCommit
     [(''a'', \<lparr>fc_Type = ActionAdd, fc_OldContent = None, fc_NewContent = Some ''1'',
              fc_MovePath = None\<rparr>),
      (''/b'', \<lparr>fc_Type = ActionAdd, fc_OldContent = None, fc_NewContent = Some ''2'',
               fc_MovePath = None\<rparr>)]
     WriteFile RemoveFile \<lparr>fs_files = [], fs_no_write = [], fs_no_remove = []\<rparr>
   = (\<lparr>fs_files = [(''a'', ''1'')], fs_no_write = [], fs_no_remove = []\<rparr>,
      Some ''We do not support absolute paths.'')"
  by code_simp

text \<open>
  What \<open>AssembleChanges\<close> returns depends on the order in which Go ranges over
  the updated files: an empty file that did not exist ends the loop early.
\<close>

lemma assemble_order_dependent:
  "AssembleChanges [] [(''a'', ''1''), (''b'', [])] \<noteq> []
   \<and> AssembleChanges [] [(''b'', []), (''a'', ''1'')] = []"
  by code_simp

end
