(* ===== verification/Agency_Types.thy ===== *)
theory Agency_Types
  imports Go_Strings
begin

text \<open>
  The data model of \<open>internal/agency/types.go\<close>, as far as the kernel, the ledger, the
  buses and the schedulers use it. A Go struct is a record whose fields carry the struct's
  initials, a pointer is an option, a slice a list (nil and empty are the same list, which
  is also what the JSON encoding with \<open>omitempty\<close> makes of them). A Go string type with
  named constants is \<open>string\<close>: the code compares such values with the empty string and lets
  unknown values through. Times are Unix milliseconds; they and the counters are \<open>int\<close>, far
  below the 64-bit range in which Go computes them. Every record has its zero value.
\<close>

type_synonym str_map = "(string, string) gomap"

text \<open>A value of type \<open>any\<close> in a payload, which no modelled code looks into: its JSON text.\<close>

type_synonym json_text = string

section \<open>ActionType\<close>

definition ActionWriteCode :: string where [simp]: "ActionWriteCode = ''write_code''"
definition ActionRunTest :: string where [simp]: "ActionRunTest = ''run_test''"
definition ActionPingPeer :: string where [simp]: "ActionPingPeer = ''ping_peer''"
definition ActionUpdateTask :: string where [simp]: "ActionUpdateTask = ''update_task''"
definition ActionRequestReview :: string where [simp]: "ActionRequestReview = ''request_review''"
definition ActionBroadcast :: string where [simp]: "ActionBroadcast = ''broadcast''"
definition ActionSpawnAgent :: string where [simp]: "ActionSpawnAgent = ''spawn_agent''"
definition ActionPublishArtifact :: string where [simp]: "ActionPublishArtifact = ''publish_artifact''"
definition ActionHandoffShift :: string where [simp]: "ActionHandoffShift = ''handoff_shift''"

section \<open>LedgerEntryKind\<close>

definition LedgerEntryAction :: string where [simp]: "LedgerEntryAction = ''action''"
definition LedgerEntrySignal :: string where [simp]: "LedgerEntrySignal = ''signal''"
definition LedgerEntrySnapshot :: string where [simp]: "LedgerEntrySnapshot = ''snapshot''"
definition LedgerEntrySchedule :: string where [simp]: "LedgerEntrySchedule = ''schedule''"
definition LedgerEntryPublication :: string where [simp]: "LedgerEntryPublication = ''publication''"
definition LedgerEntryVoice :: string where [simp]: "LedgerEntryVoice = ''voice''"

section \<open>LedgerEntryStatus\<close>

definition LedgerEntryStatusProposed :: string where [simp]: "LedgerEntryStatusProposed = ''proposed''"
definition LedgerEntryStatusPending :: string where [simp]: "LedgerEntryStatusPending = ''pending''"
definition LedgerEntryStatusFinalized :: string where [simp]: "LedgerEntryStatusFinalized = ''finalized''"
definition LedgerEntryStatusRejected :: string where [simp]: "LedgerEntryStatusRejected = ''rejected''"

section \<open>ConsensusStrategy\<close>

definition ConsensusStrategyDirect :: string where [simp]: "ConsensusStrategyDirect = ''direct''"
definition ConsensusStrategyQuorum :: string where [simp]: "ConsensusStrategyQuorum = ''quorum''"

section \<open>SignalKind\<close>

definition SignalTick :: string where [simp]: "SignalTick = ''tick''"
definition SignalSchedule :: string where [simp]: "SignalSchedule = ''schedule''"
definition SignalPeerMessage :: string where [simp]: "SignalPeerMessage = ''peer_message''"
definition SignalTaskChange :: string where [simp]: "SignalTaskChange = ''task_change''"
definition SignalReview :: string where [simp]: "SignalReview = ''review''"
definition SignalCorrection :: string where [simp]: "SignalCorrection = ''correction''"
definition SignalBroadcast :: string where [simp]: "SignalBroadcast = ''broadcast''"
definition SignalVoice :: string where [simp]: "SignalVoice = ''voice''"
definition SignalProjection :: string where [simp]: "SignalProjection = ''projection''"
definition SignalDirector :: string where [simp]: "SignalDirector = ''director''"

section \<open>VoiceEventKind\<close>

definition VoiceEventTranscript :: string where [simp]: "VoiceEventTranscript = ''transcript''"
definition VoiceEventSynthesis :: string where [simp]: "VoiceEventSynthesis = ''synthesis''"
definition VoiceEventProjection :: string where [simp]: "VoiceEventProjection = ''projection''"

section \<open>Structs\<close>

record role_spec =
  rs_Name :: string
  rs_Mission :: string
  rs_Personality :: string
  rs_WorkingPosture :: string
  rs_SystemPrompt :: string
  rs_AllowedActions :: "string list"
  rs_ObservationScopes :: "string list"
  rs_ToolBindings :: "string list"
  rs_PeerRouting :: str_map
  rs_CanSpawnAgents :: bool

definition zero_role_spec :: role_spec where
  "zero_role_spec =
     \<lparr>rs_Name = [], rs_Mission = [], rs_Personality = [], rs_WorkingPosture = [],
      rs_SystemPrompt = [], rs_AllowedActions = [], rs_ObservationScopes = [],
      rs_ToolBindings = [], rs_PeerRouting = [], rs_CanSpawnAgents = False\<rparr>"

record agency_constitution =
  ac_ID :: string
  ac_Name :: string
  ac_Description :: string
  ac_OrganizationID :: string
  ac_GovernanceMode :: string
  ac_Roles :: "(string, role_spec) gomap"
  ac_Metadata :: str_map

definition zero_agency_constitution :: agency_constitution where
  "zero_agency_constitution =
     \<lparr>ac_ID = [], ac_Name = [], ac_Description = [], ac_OrganizationID = [],
      ac_GovernanceMode = [], ac_Roles = [], ac_Metadata = []\<rparr>"

record agent_identity =
  ai_ID :: string
  ai_Name :: string
  ai_Role :: string
  ai_OrganizationID :: string
  ai_ParentID :: string
  ai_AvatarPrompt :: string
  ai_Metadata :: str_map

definition zero_agent_identity :: agent_identity where
  "zero_agent_identity =
     \<lparr>ai_ID = [], ai_Name = [], ai_Role = [], ai_OrganizationID = [],
      ai_ParentID = [], ai_AvatarPrompt = [], ai_Metadata = []\<rparr>"

record agent_schedule =
  as_ID :: string
  as_ActorID :: string
  as_Expression :: string
  as_Timezone :: string
  as_Enabled :: bool
  as_DefaultSignalKind :: string
  as_Metadata :: str_map

definition zero_agent_schedule :: agent_schedule where
  "zero_agent_schedule =
     \<lparr>as_ID = [], as_ActorID = [], as_Expression = [], as_Timezone = [],
      as_Enabled = False, as_DefaultSignalKind = [], as_Metadata = []\<rparr>"

record voice_room_state =
  vr_RoomID :: string
  vr_ProjectionEnabled :: bool
  vr_TranscriptProjection :: bool
  vr_AudioProjection :: bool
  vr_LastTranscriptID :: string
  vr_LastSynthesisID :: string
  vr_Metadata :: str_map
  vr_UpdatedAt :: int

definition zero_voice_room_state :: voice_room_state where
  "zero_voice_room_state =
     \<lparr>vr_RoomID = [], vr_ProjectionEnabled = False, vr_TranscriptProjection = False,
      vr_AudioProjection = False, vr_LastTranscriptID = [], vr_LastSynthesisID = [],
      vr_Metadata = [], vr_UpdatedAt = 0\<rparr>"

record voice_event =
  ve_ID :: string
  ve_OrganizationID :: string
  ve_ActorID :: string
  ve_RoomID :: string
  ve_Kind :: string
  ve_CanonicalText :: string
  ve_AudioInputRef :: string
  ve_AudioOutputRef :: string
  ve_Engine :: string
  ve_Projection :: "voice_room_state option"
  ve_Metadata :: str_map
  ve_CreatedAt :: int

definition zero_voice_event :: voice_event where
  "zero_voice_event =
     \<lparr>ve_ID = [], ve_OrganizationID = [], ve_ActorID = [], ve_RoomID = [],
      ve_Kind = [], ve_CanonicalText = [], ve_AudioInputRef = [],
      ve_AudioOutputRef = [], ve_Engine = [], ve_Projection = None, ve_Metadata = [],
      ve_CreatedAt = 0\<rparr>"

record task_summary =
  ts_ID :: string
  ts_Title :: string
  ts_Status :: string
  ts_Assigned :: string

definition zero_task_summary :: task_summary where
  "zero_task_summary =
     \<lparr>ts_ID = [], ts_Title = [], ts_Status = [], ts_Assigned = []\<rparr>"

record resource_state =
  rst_SharedWorkplace :: string
  rst_AvailableTools :: "string list"
  rst_Metadata :: str_map

definition zero_resource_state :: resource_state where
  "zero_resource_state =
     \<lparr>rst_SharedWorkplace = [], rst_AvailableTools = [], rst_Metadata = []\<rparr>"

record wake_signal =
  ws_ID :: string
  ws_OrganizationID :: string
  ws_ActorID :: string
  ws_Channel :: string
  ws_Kind :: string
  ws_Payload :: str_map
  ws_CreatedAt :: int

definition zero_wake_signal :: wake_signal where
  "zero_wake_signal =
     \<lparr>ws_ID = [], ws_OrganizationID = [], ws_ActorID = [], ws_Channel = [],
      ws_Kind = [], ws_Payload = [], ws_CreatedAt = 0\<rparr>"

record observation_snapshot =
  os_OrganizationID :: string
  os_Actor :: agent_identity
  os_LedgerSequence :: int
  os_PendingTasks :: "task_summary list"
  os_RecentSignals :: "wake_signal list"
  os_Resources :: resource_state
  os_CurrentTime :: "int option"
  os_Metadata :: str_map

definition zero_observation_snapshot :: observation_snapshot where
  "zero_observation_snapshot =
     \<lparr>os_OrganizationID = [], os_Actor = zero_agent_identity, os_LedgerSequence = 0,
      os_PendingTasks = [], os_RecentSignals = [],
      os_Resources = zero_resource_state, os_CurrentTime = None,
      os_Metadata = []\<rparr>"

record action_proposal =
  ap_ID :: string
  ap_ActorID :: string
  ap_OrganizationID :: string
  ap_Type :: string
  ap_Target :: string
  ap_Payload :: "(string, json_text) gomap"
  ap_ObservedAt :: int
  ap_ProposedAt :: int

definition zero_action_proposal :: action_proposal where
  "zero_action_proposal =
     \<lparr>ap_ID = [], ap_ActorID = [], ap_OrganizationID = [], ap_Type = [],
      ap_Target = [], ap_Payload = [], ap_ObservedAt = 0, ap_ProposedAt = 0\<rparr>"

record correction_signal =
  cs_Code :: string
  cs_Message :: string
  cs_TargetActorID :: string
  cs_CreatedAt :: int

definition zero_correction_signal :: correction_signal where
  "zero_correction_signal =
     \<lparr>cs_Code = [], cs_Message = [], cs_TargetActorID = [], cs_CreatedAt = 0\<rparr>"

record kernel_decision =
  kd_Accepted :: bool
  kd_Reason :: string
  kd_Corrections :: "correction_signal list"
  kd_ValidatedAt :: int
  kd_CommitAllowed :: bool

definition zero_kernel_decision :: kernel_decision where
  "zero_kernel_decision =
     \<lparr>kd_Accepted = False, kd_Reason = [], kd_Corrections = [], kd_ValidatedAt = 0,
      kd_CommitAllowed = False\<rparr>"

record consensus_requirement =
  cr_Strategy :: string
  cr_QuorumKey :: string
  cr_RequiredApprovals :: int
  cr_EligibleVoters :: "string list"
  cr_AutoFinalize :: bool

definition zero_consensus_requirement :: consensus_requirement where
  "zero_consensus_requirement =
     \<lparr>cr_Strategy = [], cr_QuorumKey = [], cr_RequiredApprovals = 0,
      cr_EligibleVoters = [], cr_AutoFinalize = False\<rparr>"

record quorum_state =
  qs_QuorumKey :: string
  qs_RequiredApprovals :: int
  qs_EligibleVoters :: "string list"
  qs_Approvals :: int
  qs_Rejections :: int
  qs_MissingApprovals :: int
  qs_LastVoteAt :: int
  qs_Finalizable :: bool
  qs_Finalized :: bool
  qs_Rejected :: bool

definition zero_quorum_state :: quorum_state where
  "zero_quorum_state =
     \<lparr>qs_QuorumKey = [], qs_RequiredApprovals = 0, qs_EligibleVoters = [],
      qs_Approvals = 0, qs_Rejections = 0, qs_MissingApprovals = 0,
      qs_LastVoteAt = 0, qs_Finalizable = False, qs_Finalized = False,
      qs_Rejected = False\<rparr>"

record publication_record =
  pr_ID :: string
  pr_ActorID :: string
  pr_Target :: string
  pr_Status :: string
  pr_Summary :: string
  pr_ArtifactRefs :: "string list"
  pr_CreatedAt :: int

definition zero_publication_record :: publication_record where
  "zero_publication_record =
     \<lparr>pr_ID = [], pr_ActorID = [], pr_Target = [], pr_Status = [], pr_Summary = [],
      pr_ArtifactRefs = [], pr_CreatedAt = 0\<rparr>"

record context_snapshot =
  sn_OrganizationID :: string
  sn_LedgerSequence :: int
  sn_Actors :: "agent_identity list"
  sn_Publications :: "publication_record list"
  sn_LastSignal :: "wake_signal option"
  sn_VoiceRooms :: "voice_room_state list"
  sn_LastVoiceEvent :: "voice_event option"
  sn_OpenSchedules :: "agent_schedule list"
  sn_UpdatedAt :: int
  sn_Metadata :: str_map

definition zero_context_snapshot :: context_snapshot where
  "zero_context_snapshot =
     \<lparr>sn_OrganizationID = [], sn_LedgerSequence = 0, sn_Actors = [],
      sn_Publications = [], sn_LastSignal = None, sn_VoiceRooms = [],
      sn_LastVoiceEvent = None, sn_OpenSchedules = [], sn_UpdatedAt = 0,
      sn_Metadata = []\<rparr>"

record commit_certificate =
  cc_EntryID :: string
  cc_Sequence :: int
  cc_Hash :: string
  cc_CommittedAt :: int
  cc_QuorumSize :: int
  cc_Status :: string
  cc_Approvals :: int
  cc_Rejections :: int

definition zero_commit_certificate :: commit_certificate where
  "zero_commit_certificate =
     \<lparr>cc_EntryID = [], cc_Sequence = 0, cc_Hash = [], cc_CommittedAt = 0,
      cc_QuorumSize = 0, cc_Status = [], cc_Approvals = 0, cc_Rejections = 0\<rparr>"

record consensus_vote =
  cv_VoterID :: string
  cv_EntryID :: string
  cv_Approved :: bool
  cv_Reason :: string
  cv_VotedAt :: int

definition zero_consensus_vote :: consensus_vote where
  "zero_consensus_vote =
     \<lparr>cv_VoterID = [], cv_EntryID = [], cv_Approved = False, cv_Reason = [],
      cv_VotedAt = 0\<rparr>"

record ledger_entry =
  le_Sequence :: int
  le_ID :: string
  le_OrganizationID :: string
  le_Kind :: string
  le_Status :: string
  le_ActorID :: string
  le_Action :: "action_proposal option"
  le_Decision :: "kernel_decision option"
  le_Snapshot :: "context_snapshot option"
  le_Signal :: "wake_signal option"
  le_Publication :: "publication_record option"
  le_Voice :: "voice_event option"
  le_Consensus :: "consensus_requirement option"
  le_Quorum :: "quorum_state option"
  le_Certificate :: "commit_certificate option"
  le_Votes :: "consensus_vote list"
  le_ProposedAt :: int
  le_CommittedAt :: int
  le_FinalizedAt :: int
  le_RejectedAt :: int

definition zero_ledger_entry :: ledger_entry where
  "zero_ledger_entry =
     \<lparr>le_Sequence = 0, le_ID = [], le_OrganizationID = [], le_Kind = [],
      le_Status = [], le_ActorID = [], le_Action = None, le_Decision = None,
      le_Snapshot = None, le_Signal = None, le_Publication = None, le_Voice = None,
      le_Consensus = None, le_Quorum = None, le_Certificate = None, le_Votes = [],
      le_ProposedAt = 0, le_CommittedAt = 0, le_FinalizedAt = 0,
      le_RejectedAt = 0\<rparr>"

record schedule_node =
  nd_ID :: string
  nd_OrganizationID :: string
  nd_ActorID :: string
  nd_ParentID :: string
  nd_Expression :: string
  nd_PromptInjection :: string
  nd_Layer :: int
  nd_Enabled :: bool
  nd_Metadata :: str_map
  nd_CreatedAt :: int
  nd_UpdatedAt :: int

definition zero_schedule_node :: schedule_node where
  "zero_schedule_node =
     \<lparr>nd_ID = [], nd_OrganizationID = [], nd_ActorID = [], nd_ParentID = [],
      nd_Expression = [], nd_PromptInjection = [], nd_Layer = 0, nd_Enabled = False,
      nd_Metadata = [], nd_CreatedAt = 0, nd_UpdatedAt = 0\<rparr>"

end
