(* ===== verification/Consensus.thy ===== *)
theory Consensus
  imports Agency_Types "HOL-Library.Multiset"
begin

text \<open>
  The consensus rules of \<open>internal/agency/consensus.go\<close>: the requirement of an entry, the
  tally of its votes, who may vote. Nothing in the program calls them: the ledger has its
  own tally (\<open>buildQuorumState\<close>, theory Ledger), and the properties of the two are compared
  in theory \<open>Ledger_Properties\<close>.
\<close>

fun maxInt_loop :: "int \<Rightarrow> int list \<Rightarrow> int" where
  "maxInt_loop maxValue [] = maxValue"
| "maxInt_loop maxValue (value # values) =
     maxInt_loop (if value > maxValue then value else maxValue) values"

definition maxInt :: "int list \<Rightarrow> int" where
  "maxInt values = maxInt_loop 0 values"

definition normalizeConsensusRequirement :: "ledger_entry \<Rightarrow> consensus_requirement" where
  "normalizeConsensusRequirement entry = (case le_Consensus entry of
     Some req0 \<Rightarrow>
       let req1 = (if cr_RequiredApprovals req0 \<le> 0
                   then req0\<lparr>cr_RequiredApprovals := 1\<rparr> else req0);
           req2 = (if cr_Strategy req1 = []
                   then req1\<lparr>cr_Strategy :=
                          (if cr_RequiredApprovals req1 > 1 \<or> length (cr_EligibleVoters req1) > 1
                           then ConsensusStrategyQuorum else ConsensusStrategyDirect)\<rparr>
                   else req1);
           req3 = (if cr_QuorumKey req2 = [] then req2\<lparr>cr_QuorumKey := le_ID entry\<rparr> else req2)
       in req3
   | None \<Rightarrow>
       let quorumKey = (if le_ID entry = [] then le_OrganizationID entry @ '':'' @ le_Kind entry
                        else le_ID entry)
       in \<lparr>cr_Strategy = ConsensusStrategyDirect, cr_QuorumKey = quorumKey,
           cr_RequiredApprovals = 1, cr_EligibleVoters = [], cr_AutoFinalize = True\<rparr>)"

text \<open>The loop over the votes: the first vote of each named voter counts.\<close>

fun tally_votes :: "string list \<Rightarrow> quorum_state \<Rightarrow> consensus_vote list \<Rightarrow> quorum_state" where
  "tally_votes seen state [] = state"
| "tally_votes seen state (vote # votes) =
     (if cv_VoterID vote = [] then tally_votes seen state votes
      else if cv_VoterID vote \<in> set seen then tally_votes seen state votes
      else
        let counted = (if cv_Approved vote
                       then state\<lparr>qs_Approvals := qs_Approvals state + 1\<rparr>
                       else state\<lparr>qs_Rejections := qs_Rejections state + 1\<rparr>);
            dated = (if cv_VotedAt vote > qs_LastVoteAt counted
                     then counted\<lparr>qs_LastVoteAt := cv_VotedAt vote\<rparr> else counted)
        in tally_votes (cv_VoterID vote # seen) dated votes)"

definition computeQuorumState ::
  "consensus_requirement \<Rightarrow> consensus_vote list \<Rightarrow> quorum_state" where
  "computeQuorumState req votes =
     (let state = tally_votes []
            (zero_quorum_state\<lparr>qs_QuorumKey := cr_QuorumKey req,
               qs_RequiredApprovals := cr_RequiredApprovals req,
               qs_EligibleVoters := cr_EligibleVoters req\<rparr>) votes;
          state = state\<lparr>qs_MissingApprovals :=
                          maxInt [cr_RequiredApprovals req - qs_Approvals state, 0]\<rparr>
      in if qs_Approvals state \<ge> cr_RequiredApprovals req
         then state\<lparr>qs_Finalizable := True\<rparr>
         else if length (cr_EligibleVoters req) > 0 \<and>
                 int (length (cr_EligibleVoters req)) - qs_Rejections state
                   < cr_RequiredApprovals req
         then state\<lparr>qs_Rejected := True, qs_Finalizable := True\<rparr>
         else state)"

text \<open>
  \<open>sort.Slice\<close> is not stable: any permutation that is in order may come out, so the sort is
  a relation between its input and its output.
\<close>

definition vote_less :: "consensus_vote \<Rightarrow> consensus_vote \<Rightarrow> bool" where
  "vote_less a b =
     (if cv_VotedAt a \<noteq> cv_VotedAt b then cv_VotedAt a < cv_VotedAt b
      else str_less (cv_VoterID a) (cv_VoterID b))"

definition sortConsensusVotes :: "consensus_vote list \<Rightarrow> consensus_vote list \<Rightarrow> bool" where
  "sortConsensusVotes votes out \<longleftrightarrow>
     mset out = mset votes \<and> sorted_wrt (\<lambda>a b. \<not> vote_less b a) out"

definition allowsVoter :: "consensus_requirement \<Rightarrow> string \<Rightarrow> bool" where
  "allowsVoter req voterID =
     (if voterID = [] then False
      else if cr_EligibleVoters req = [] then True
      else voterID \<in> set (cr_EligibleVoters req))"

text \<open>The vote a committed entry carries for its actor; \<open>now\<close> is the clock.\<close>

definition implicitConsensusVote :: "int \<Rightarrow> ledger_entry \<Rightarrow> consensus_vote \<times> bool" where
  "implicitConsensusVote now entry =
     (let voterID = (if le_ActorID entry = [] then ''system'' else le_ActorID entry)
      in if voterID = [] then (zero_consensus_vote, False)
         else (\<lparr>cv_VoterID = voterID, cv_EntryID = le_ID entry, cv_Approved = True,
                cv_Reason = ''compatibility append'', cv_VotedAt = now\<rparr>, True))"

section \<open>What the tally computes\<close>

lemma maxInt_pair: "maxInt [x, y] = max 0 (max x y)"
  by (simp add: maxInt_def)

text \<open>The requirement an entry is held to is always usable.\<close>

lemma normalized_requirement:
  "cr_RequiredApprovals (normalizeConsensusRequirement entry) \<ge> 1"
  "cr_Strategy (normalizeConsensusRequirement entry) \<noteq> []"
  by (auto simp: normalizeConsensusRequirement_def Let_def split: option.split)

lemma normalize_idempotent:
  "normalizeConsensusRequirement
     (entry\<lparr>le_Consensus := Some (normalizeConsensusRequirement entry)\<rparr>)
   = normalizeConsensusRequirement entry"
  by (auto simp: normalizeConsensusRequirement_def Let_def split: option.split)

fun counted_votes :: "string list \<Rightarrow> consensus_vote list \<Rightarrow> consensus_vote list" where
  "counted_votes seen [] = []"
| "counted_votes seen (vote # votes) =
     (if cv_VoterID vote = [] \<or> cv_VoterID vote \<in> set seen then counted_votes seen votes
      else vote # counted_votes (cv_VoterID vote # seen) votes)"

lemma counted_votes_distinct:
  "distinct (map cv_VoterID (counted_votes seen votes)) \<and>
   cv_VoterID ` set (counted_votes seen votes) \<inter> set seen = {}"
  by (induction seen votes rule: counted_votes.induct) auto

lemma tally_votes_counts:
  "qs_Approvals (tally_votes seen state votes) =
     qs_Approvals state + int (length (filter cv_Approved (counted_votes seen votes)))"
  "qs_Rejections (tally_votes seen state votes) =
     qs_Rejections state + int (length (filter (\<lambda>v. \<not> cv_Approved v) (counted_votes seen votes)))"
  by (induction seen state votes rule: tally_votes.induct) (auto simp: Let_def)

lemma tally_votes_keeps [simp]:
  "qs_QuorumKey (tally_votes seen state votes) = qs_QuorumKey state"
  "qs_RequiredApprovals (tally_votes seen state votes) = qs_RequiredApprovals state"
  "qs_EligibleVoters (tally_votes seen state votes) = qs_EligibleVoters state"
  "qs_Rejected (tally_votes seen state votes) = qs_Rejected state"
  "qs_Finalizable (tally_votes seen state votes) = qs_Finalizable state"
  "qs_Finalized (tally_votes seen state votes) = qs_Finalized state"
  by (induction seen state votes rule: tally_votes.induct) (auto simp: Let_def)

lemma counted_votes_all:
  "distinct (map cv_VoterID votes) \<Longrightarrow> [] \<notin> cv_VoterID ` set votes \<Longrightarrow>
   cv_VoterID ` set votes \<inter> set seen = {} \<Longrightarrow> counted_votes seen votes = votes"
  by (induction seen votes rule: counted_votes.induct) auto

lemma computeQuorumState_counts:
  "qs_Approvals (computeQuorumState req votes) =
     int (length (filter cv_Approved (counted_votes [] votes)))"
  "qs_Rejections (computeQuorumState req votes) =
     int (length (filter (\<lambda>v. \<not> cv_Approved v) (counted_votes [] votes)))"
  by (simp_all add: computeQuorumState_def tally_votes_counts zero_quorum_state_def Let_def)

lemma computeQuorumState_flags:
  "qs_Rejected (computeQuorumState req votes) \<longleftrightarrow>
     qs_Approvals (computeQuorumState req votes) < cr_RequiredApprovals req \<and>
     cr_EligibleVoters req \<noteq> [] \<and>
     int (length (cr_EligibleVoters req)) - qs_Rejections (computeQuorumState req votes)
       < cr_RequiredApprovals req"
  "qs_Finalizable (computeQuorumState req votes) \<longleftrightarrow>
     cr_RequiredApprovals req \<le> qs_Approvals (computeQuorumState req votes) \<or>
     qs_Rejected (computeQuorumState req votes)"
  "qs_MissingApprovals (computeQuorumState req votes) =
     max 0 (cr_RequiredApprovals req - qs_Approvals (computeQuorumState req votes))"
  unfolding computeQuorumState_counts
  by (simp_all add: computeQuorumState_def tally_votes_counts zero_quorum_state_def maxInt_pair Let_def)

end
