(* ===== verification/Ledger.thy ===== *)
theory Ledger
  imports Consensus
begin

text \<open>
  The ledger of \<open>internal/agency/ledger.go\<close>. Its state is two files: \<open>entries.jsonl\<close>, one
  JSON document per line, appended to and replayed from the start, and \<open>pending.json\<close>, the
  proposals that still gather votes, read and rewritten as a whole. Every operation holds
  the mutex, so it is one step; \<open>AppendSchedule\<close> and \<open>AppendVoiceEvent\<close> hold it twice, with a
  gap between, and are two steps each.

  A line of the file is the entry it encodes, or text that is no entry; what a failed write
  left after the last newline is the tail. The length of an entry's JSON text and its hash
  are the parameters \<open>codec\<close>; the clock, the fresh identifiers and the failures of the
  file system are the parameters \<open>env\<close> of a call (\<open>ev_now_append\<close> is the clock when
  \<open>appendLocked\<close> reads it, \<open>ev_now_snapshot\<close> when \<open>LatestSnapshot\<close> or \<open>Vote\<close> does, \<open>ev_now\<close> elsewhere).
\<close>

section \<open>The two files\<close>

datatype file_line = EntryLine ledger_entry | BlankLine | GarbageLine nat

datatype file_tail = NoTail | EntryTail ledger_entry | GarbageTail nat

record entries_file =
  ef_lines :: "file_line list"
  ef_tail :: file_tail

datatype pending_file = PendingEntries "ledger_entry list" | PendingEmpty | PendingGarbage

record ledger_disk =
  ld_entries :: "entries_file option"
  ld_pending :: "pending_file option"

record codec =
  json_len :: "ledger_entry \<Rightarrow> nat"
  entry_hash :: "ledger_entry \<Rightarrow> string"

text \<open>How a write to the entries file ends: all of it, nothing, all but the newline, or the
  first \<open>n\<close> bytes of it.\<close>

datatype write_result = WriteAll | WriteNothing | WriteNoNewline | WriteTorn nat

text \<open>How rewriting the pending file ends: \<open>os.WriteFile\<close> truncates before it writes.\<close>

datatype rewrite_result = RewriteAll | RewriteNotOpened | RewriteTruncated | RewriteTorn

record env =
  ev_now :: int
  ev_now_snapshot :: int
  ev_now_append :: int
  ev_uuid :: string
  ev_uuid_append :: string
  ev_read_entries :: bool
  ev_open_append :: bool
  ev_marshal :: bool
  ev_write :: write_result
  ev_read_pending :: bool
  ev_marshal_pending :: bool
  ev_rewrite :: rewrite_result

definition max_token :: nat where "max_token = 65536"

definition new_ledger_disk :: ledger_disk where
  "new_ledger_disk =
     \<lparr>ld_entries = Some \<lparr>ef_lines = [], ef_tail = NoTail\<rparr>, ld_pending = Some (PendingEntries [])\<rparr>"

text \<open>\<open>NewLedgerService\<close>: creates what is missing. The three flags are the directory and the
  two files being creatable.\<close>

definition NewLedgerService ::
  "string \<Rightarrow> bool \<Rightarrow> bool \<Rightarrow> bool \<Rightarrow> ledger_disk \<Rightarrow> (string, unit) outcome \<times> ledger_disk" where
  "NewLedgerService baseDir mkdir_ok entries_ok pending_ok d =
     (if baseDir = [] then (Err ''ledger base directory is required'', d)
      else if \<not> mkdir_ok then (Err ''mkdir'', d)
      else if ld_entries d = None \<and> \<not> entries_ok then (Err ''create entries'', d)
      else
        let d = (if ld_entries d = None then d\<lparr>ld_entries := ld_entries new_ledger_disk\<rparr> else d)
        in if ld_pending d = None \<and> \<not> pending_ok then (Err ''create pending'', d)
           else (Ok (),
                 if ld_pending d = None then d\<lparr>ld_pending := ld_pending new_ledger_disk\<rparr> else d))"

section \<open>Votes and quorum\<close>

fun count_votes :: "bool \<Rightarrow> int \<Rightarrow> consensus_vote list \<Rightarrow> int" where
  "count_votes side n [] = n"
| "count_votes side n (vote # votes) =
     count_votes side (if cv_Approved vote = side then n + 1 else n) votes"

definition approvalCount :: "consensus_vote list \<Rightarrow> int" where
  "approvalCount votes = count_votes True 0 votes"

definition rejectionCount :: "consensus_vote list \<Rightarrow> int" where
  "rejectionCount votes = count_votes False 0 votes"

fun maxInt64_loop :: "int \<Rightarrow> int list \<Rightarrow> int" where
  "maxInt64_loop m [] = m"
| "maxInt64_loop m (value # values) = maxInt64_loop (if value > m then value else m) values"

definition maxInt64 :: "int list \<Rightarrow> int" where
  "maxInt64 values = (case values of [] \<Rightarrow> 0 | v # vs \<Rightarrow> maxInt64_loop v vs)"

definition deriveEntryStatus :: "ledger_entry \<Rightarrow> string" where
  "deriveEntryStatus entry =
     (if (case le_Decision entry of Some d \<Rightarrow> \<not> kd_Accepted d | None \<Rightarrow> False)
      then LedgerEntryStatusRejected
      else if (case le_Consensus entry of
                 Some c \<Rightarrow> cr_Strategy c = ConsensusStrategyQuorum | None \<Rightarrow> False)
      then LedgerEntryStatusPending
      else LedgerEntryStatusFinalized)"

definition buildQuorumState :: "ledger_entry \<Rightarrow> quorum_state" where
  "buildQuorumState entry =
     (let q = (case le_Quorum entry of Some q \<Rightarrow> q | None \<Rightarrow> zero_quorum_state);
          q = (case le_Consensus entry of
                 Some c \<Rightarrow> q\<lparr>qs_QuorumKey := cr_QuorumKey c,
                              qs_RequiredApprovals := cr_RequiredApprovals c,
                              qs_EligibleVoters := cr_EligibleVoters c\<rparr>
               | None \<Rightarrow> q);
          q = q\<lparr>qs_Approvals := approvalCount (le_Votes entry)\<rparr>;
          q = q\<lparr>qs_Rejections := rejectionCount (le_Votes entry)\<rparr>;
          q = q\<lparr>qs_MissingApprovals := qs_RequiredApprovals q - qs_Approvals q\<rparr>;
          q = (if qs_MissingApprovals q < 0 then q\<lparr>qs_MissingApprovals := 0\<rparr> else q);
          q = (if le_Votes entry \<noteq> []
               then q\<lparr>qs_LastVoteAt := cv_VotedAt (last (le_Votes entry))\<rparr> else q);
          remaining = int (length (qs_EligibleVoters q)) - int (length (le_Votes entry));
          remaining = (if remaining < 0 then 0 else remaining);
          q = q\<lparr>qs_Rejected := qs_Rejections q > 0 \<and>
                                qs_Approvals q + remaining < qs_RequiredApprovals q\<rparr>;
          q = q\<lparr>qs_Finalizable := qs_Approvals q \<ge> qs_RequiredApprovals q \<or> qs_Rejected q\<rparr>
      in q\<lparr>qs_Finalized := le_Status entry = LedgerEntryStatusFinalized \<or>
                            le_Status entry = LedgerEntryStatusRejected\<rparr>)"

section \<open>Snapshots\<close>

fun upsertPublication ::
  "publication_record list \<Rightarrow> publication_record \<Rightarrow> publication_record list" where
  "upsertPublication [] p = [p]"
| "upsertPublication (x # xs) p =
     (if pr_ID x = pr_ID p then p # xs else x # upsertPublication xs p)"

fun upsertVoiceRoom :: "voice_room_state list \<Rightarrow> voice_room_state \<Rightarrow> voice_room_state list" where
  "upsertVoiceRoom [] r = [r]"
| "upsertVoiceRoom (x # xs) r =
     (if vr_RoomID x = vr_RoomID r then r # xs else x # upsertVoiceRoom xs r)"

fun upsertSchedule :: "agent_schedule list \<Rightarrow> agent_schedule \<Rightarrow> agent_schedule list" where
  "upsertSchedule [] s = [s]"
| "upsertSchedule (x # xs) s =
     (if as_ID x = as_ID s then s # xs else x # upsertSchedule xs s)"

definition mergeSnapshot :: "context_snapshot \<Rightarrow> context_snapshot \<Rightarrow> context_snapshot" where
  "mergeSnapshot dst src =
     \<lparr>sn_OrganizationID = (if sn_OrganizationID src \<noteq> [] then sn_OrganizationID src
                           else sn_OrganizationID dst),
      sn_LedgerSequence = sn_LedgerSequence dst,
      sn_Actors = (if sn_Actors src \<noteq> [] then sn_Actors src else sn_Actors dst),
      sn_Publications = (if sn_Publications src \<noteq> [] then sn_Publications src
                         else sn_Publications dst),
      sn_LastSignal = (if sn_LastSignal src \<noteq> None then sn_LastSignal src else sn_LastSignal dst),
      sn_VoiceRooms = (if sn_VoiceRooms src \<noteq> [] then sn_VoiceRooms src else sn_VoiceRooms dst),
      sn_LastVoiceEvent = (if sn_LastVoiceEvent src \<noteq> None then sn_LastVoiceEvent src
                           else sn_LastVoiceEvent dst),
      sn_OpenSchedules = (if sn_OpenSchedules src \<noteq> [] then sn_OpenSchedules src
                          else sn_OpenSchedules dst),
      sn_UpdatedAt = (if sn_UpdatedAt src > 0 then sn_UpdatedAt src else sn_UpdatedAt dst),
      sn_Metadata = map_put_all (sn_Metadata src) (sn_Metadata dst)\<rparr>"

text \<open>The room a voice event talks about, and what the event does to it.\<close>

definition voice_event_room :: "context_snapshot \<Rightarrow> voice_event \<Rightarrow> voice_room_state" where
  "voice_event_room snapshot event =
     (let roomID = (if ve_RoomID event = []
                    then (case ve_Projection event of Some p \<Rightarrow> vr_RoomID p | None \<Rightarrow> [])
                    else ve_RoomID event);
          fresh = zero_voice_room_state\<lparr>vr_RoomID := roomID, vr_UpdatedAt := ve_CreatedAt event\<rparr>;
          room = (if roomID \<noteq> []
                  then (case find (\<lambda>r. vr_RoomID r = roomID) (sn_VoiceRooms snapshot) of
                          Some r \<Rightarrow> r | None \<Rightarrow> fresh)
                  else fresh);
          room = (case ve_Projection event of Some p \<Rightarrow> p | None \<Rightarrow> room)
      in if ve_Kind event = VoiceEventTranscript
         then room\<lparr>vr_LastTranscriptID := ve_ID event, vr_UpdatedAt := ve_CreatedAt event\<rparr>
         else if ve_Kind event = VoiceEventSynthesis
         then room\<lparr>vr_LastSynthesisID := ve_ID event, vr_UpdatedAt := ve_CreatedAt event\<rparr>
         else if ve_Kind event = VoiceEventProjection \<and> vr_UpdatedAt room = 0
         then room\<lparr>vr_UpdatedAt := ve_CreatedAt event\<rparr>
         else room)"

definition applyVoiceEvent :: "context_snapshot \<Rightarrow> voice_event \<Rightarrow> context_snapshot" where
  "applyVoiceEvent snapshot event =
     (let room = voice_event_room snapshot event;
          snapshot = (if vr_RoomID room \<noteq> []
                      then snapshot\<lparr>sn_VoiceRooms := upsertVoiceRoom (sn_VoiceRooms snapshot) room\<rparr>
                      else snapshot)
      in snapshot\<lparr>sn_LastVoiceEvent := Some event\<rparr>)"

definition applyLedgerEntry :: "context_snapshot \<Rightarrow> ledger_entry \<Rightarrow> context_snapshot" where
  "applyLedgerEntry s entry =
     (let s = (case le_Snapshot entry of Some src \<Rightarrow> mergeSnapshot s src | None \<Rightarrow> s);
          s = (case le_Signal entry of Some sig \<Rightarrow> s\<lparr>sn_LastSignal := Some sig\<rparr> | None \<Rightarrow> s);
          s = (case le_Publication entry of
                 Some p \<Rightarrow> s\<lparr>sn_Publications := upsertPublication (sn_Publications s) p\<rparr>
               | None \<Rightarrow> s);
          s = (case le_Voice entry of
                 Some v \<Rightarrow> applyVoiceEvent (s\<lparr>sn_LastVoiceEvent := Some v\<rparr>) v | None \<Rightarrow> s)
      in if sn_UpdatedAt s < le_CommittedAt entry
         then s\<lparr>sn_UpdatedAt := le_CommittedAt entry\<rparr> else s)"

fun snapshot_loop :: "string \<Rightarrow> context_snapshot \<Rightarrow> ledger_entry list \<Rightarrow> context_snapshot" where
  "snapshot_loop org s [] = s"
| "snapshot_loop org s (entry # entries) =
     (if le_OrganizationID entry \<noteq> org then snapshot_loop org s entries
      else snapshot_loop org
             ((applyLedgerEntry s entry)\<lparr>sn_LedgerSequence := le_Sequence entry\<rparr>) entries)"

section \<open>Reading and writing the files\<close>

text \<open>
  \<open>bufio.Scanner\<close> gives up on a line that does not fit its buffer of \<open>max_token\<close> bytes with
  the newline. The last line needs no newline.
\<close>

fun scan_lines ::
  "codec \<Rightarrow> file_line list \<Rightarrow> file_tail \<Rightarrow> (string, ledger_entry list) outcome" where
  "scan_lines cx [] NoTail = Ok []"
| "scan_lines cx [] (EntryTail e) =
     (if json_len cx e < max_token then Ok [e] else Err ''token too long'')"
| "scan_lines cx [] (GarbageTail n) =
     Err (if n < max_token then ''unmarshal'' else ''token too long'')"
| "scan_lines cx (BlankLine # ls) t = scan_lines cx ls t"
| "scan_lines cx (GarbageLine n # ls) t =
     Err (if n < max_token then ''unmarshal'' else ''token too long'')"
| "scan_lines cx (EntryLine e # ls) t =
     (if json_len cx e < max_token
      then obind (scan_lines cx ls t) (\<lambda>es. Ok (e # es))
      else Err ''token too long'')"

definition replayLocked ::
  "codec \<Rightarrow> env \<Rightarrow> ledger_disk \<Rightarrow> (string, ledger_entry list) outcome" where
  "replayLocked cx ev d = (case ld_entries d of
     None \<Rightarrow> Err ''open entries''
   | Some f \<Rightarrow> if ev_read_entries ev then scan_lines cx (ef_lines f) (ef_tail f)
               else Err ''open entries'')"

definition readPendingLocked ::
  "env \<Rightarrow> ledger_disk \<Rightarrow> (string, ledger_entry list) outcome" where
  "readPendingLocked ev d = (case ld_pending d of
     None \<Rightarrow> Err ''read pending''
   | Some p \<Rightarrow> if \<not> ev_read_pending ev then Err ''read pending''
               else case p of PendingEmpty \<Rightarrow> Ok []
                    | PendingGarbage \<Rightarrow> Err ''unmarshal pending''
                    | PendingEntries es \<Rightarrow> Ok es)"

definition writePendingLocked ::
  "env \<Rightarrow> ledger_entry list \<Rightarrow> ledger_disk \<Rightarrow> (string, unit) outcome \<times> ledger_disk" where
  "writePendingLocked ev es d =
     (if \<not> ev_marshal_pending ev then (Err ''marshal pending'', d)
      else case ev_rewrite ev of
        RewriteAll \<Rightarrow> (Ok (), d\<lparr>ld_pending := Some (PendingEntries es)\<rparr>)
      | RewriteNotOpened \<Rightarrow> (Err ''write pending'', d)
      | RewriteTruncated \<Rightarrow> (Err ''write pending'', d\<lparr>ld_pending := Some PendingEmpty\<rparr>)
      | RewriteTorn \<Rightarrow> (Err ''write pending'', d\<lparr>ld_pending := Some PendingGarbage\<rparr>))"

text \<open>
  A write lands behind the tail. A piece of one JSON object followed by (a piece of) another
  is not a JSON object, so text written behind a tail becomes garbage.
\<close>

definition tail_len :: "codec \<Rightarrow> file_tail \<Rightarrow> nat" where
  "tail_len cx t = (case t of NoTail \<Rightarrow> 0 | EntryTail e \<Rightarrow> json_len cx e | GarbageTail n \<Rightarrow> n)"

definition write_entry ::
  "codec \<Rightarrow> write_result \<Rightarrow> ledger_entry \<Rightarrow> entries_file \<Rightarrow> (string, unit) outcome \<times> entries_file"
where
  "write_entry cx w e f =
     (let t = ef_tail f; n = tail_len cx t in
      case w of
        WriteAll \<Rightarrow>
          (Ok (), \<lparr>ef_lines = ef_lines f @
                     [if t = NoTail then EntryLine e else GarbageLine (n + json_len cx e)],
                   ef_tail = NoTail\<rparr>)
      | WriteNothing \<Rightarrow> (Err ''write'', f)
      | WriteNoNewline \<Rightarrow>
          (Err ''write'',
           f\<lparr>ef_tail := (if t = NoTail then EntryTail e else GarbageTail (n + json_len cx e))\<rparr>)
      | WriteTorn k \<Rightarrow>
          (Err ''write'',
           f\<lparr>ef_tail := (if k = 0 then t else GarbageTail (n + min k (json_len cx e - 1)))\<rparr>))"

text \<open>The entry as it is written: every missing field filled, the certificate attached.\<close>

definition commit_cert :: "codec \<Rightarrow> ledger_entry \<Rightarrow> commit_certificate" where
  "commit_cert cx e =
     \<lparr>cc_EntryID = le_ID e, cc_Sequence = le_Sequence e, cc_Hash = entry_hash cx e,
      cc_CommittedAt = le_CommittedAt e, cc_QuorumSize = int (length (le_Votes e)),
      cc_Status = le_Status e, cc_Approvals = approvalCount (le_Votes e),
      cc_Rejections = rejectionCount (le_Votes e)\<rparr>"

definition fill_entry :: "env \<Rightarrow> int \<Rightarrow> ledger_entry \<Rightarrow> ledger_entry" where
  "fill_entry ev sequence e =
     (let now = ev_now_append ev;
          e = e\<lparr>le_Sequence := sequence\<rparr>;
          e = (if le_ID e = [] then e\<lparr>le_ID := ev_uuid_append ev\<rparr> else e);
          e = (if le_ProposedAt e = 0 then e\<lparr>le_ProposedAt := now\<rparr> else e);
          e = (if le_CommittedAt e = 0 then e\<lparr>le_CommittedAt := now\<rparr> else e)
      in if le_Status e = [] then e\<lparr>le_Status := deriveEntryStatus e\<rparr> else e)"

definition sealed_entry :: "codec \<Rightarrow> env \<Rightarrow> int \<Rightarrow> ledger_entry \<Rightarrow> ledger_entry" where
  "sealed_entry cx ev sequence e =
     (let e = fill_entry ev sequence e in e\<lparr>le_Certificate := Some (commit_cert cx e)\<rparr>)"

definition appendLocked ::
  "codec \<Rightarrow> env \<Rightarrow> int \<Rightarrow> ledger_entry \<Rightarrow> ledger_disk \<Rightarrow>
   (string, commit_certificate) outcome \<times> ledger_disk" where
  "appendLocked cx ev sequence entry d =
     (let cert = commit_cert cx (fill_entry ev sequence entry)
      in case ld_entries d of
        None \<Rightarrow> (Err ''open entries'', d)
      | Some f \<Rightarrow>
          if \<not> ev_open_append ev then (Err ''open entries'', d)
          else if \<not> ev_marshal ev then (Err ''marshal'', d)
          else case write_entry cx (ev_write ev) (sealed_entry cx ev sequence entry) f of
            (Ok _, f') \<Rightarrow> (Ok cert, d\<lparr>ld_entries := Some f'\<rparr>)
          | (Err m, f') \<Rightarrow> (Err m, d\<lparr>ld_entries := Some f'\<rparr>)
          | (Panic m, f') \<Rightarrow> (Panic m, d))"

section \<open>Operations\<close>

definition Append ::
  "codec \<Rightarrow> env \<Rightarrow> ledger_entry \<Rightarrow> ledger_disk \<Rightarrow>
   (string, commit_certificate) outcome \<times> ledger_disk" where
  "Append cx ev entry d = (case replayLocked cx ev d of
     Err m \<Rightarrow> (Err m, d)
   | Panic m \<Rightarrow> (Panic m, d)
   | Ok entries \<Rightarrow> appendLocked cx ev (int (length entries) + 1) entry d)"

definition Replay :: "codec \<Rightarrow> env \<Rightarrow> ledger_disk \<Rightarrow> (string, ledger_entry list) outcome" where
  "Replay cx ev d = replayLocked cx ev d"

definition LatestSnapshot ::
  "codec \<Rightarrow> env \<Rightarrow> string \<Rightarrow> ledger_disk \<Rightarrow> (string, context_snapshot) outcome" where
  "LatestSnapshot cx ev org d = obind (replayLocked cx ev d) (\<lambda>entries.
     let s = snapshot_loop org (zero_context_snapshot\<lparr>sn_OrganizationID := org\<rparr>) entries
     in Ok (if sn_UpdatedAt s = 0 then s\<lparr>sn_UpdatedAt := ev_now_snapshot ev\<rparr> else s))"

definition signal_entry :: "wake_signal \<Rightarrow> ledger_entry" where
  "signal_entry signal = zero_ledger_entry
     \<lparr>le_ID := ws_ID signal, le_OrganizationID := ws_OrganizationID signal,
      le_Kind := LedgerEntrySignal, le_ActorID := ws_ActorID signal,
      le_Signal := Some signal, le_CommittedAt := ws_CreatedAt signal\<rparr>"

definition AppendSignal ::
  "codec \<Rightarrow> env \<Rightarrow> wake_signal \<Rightarrow> ledger_disk \<Rightarrow>
   (string, commit_certificate) outcome \<times> ledger_disk" where
  "AppendSignal cx ev signal d = Append cx ev (signal_entry signal) d"

definition AppendSnapshot ::
  "codec \<Rightarrow> env \<Rightarrow> context_snapshot \<Rightarrow> ledger_disk \<Rightarrow>
   (string, commit_certificate) outcome \<times> ledger_disk" where
  "AppendSnapshot cx ev snapshot d = Append cx ev (zero_ledger_entry
     \<lparr>le_ID := ev_uuid ev, le_OrganizationID := sn_OrganizationID snapshot,
      le_Kind := LedgerEntrySnapshot, le_Snapshot := Some snapshot,
      le_CommittedAt := maxInt64 [sn_UpdatedAt snapshot, ev_now ev]\<rparr>) d"

text \<open>
  \<open>AppendSchedule\<close> reads the latest snapshot under the lock, releases it, edits the snapshot,
  and appends under the lock again. \<open>schedule_entry\<close> is the entry made from a snapshot read;
  the two calls have an \<open>env\<close> each.
\<close>

definition schedule_entry ::
  "env \<Rightarrow> agent_schedule \<Rightarrow> wake_signal \<Rightarrow> context_snapshot \<Rightarrow> ledger_entry" where
  "schedule_entry ev schedule signal snapshot =
     (let snapshot = snapshot
            \<lparr>sn_OpenSchedules := upsertSchedule (sn_OpenSchedules snapshot) schedule,
             sn_LastSignal := Some signal,
             sn_UpdatedAt := maxInt64 [sn_UpdatedAt snapshot, ws_CreatedAt signal]\<rparr>
      in zero_ledger_entry
        \<lparr>le_ID := ev_uuid ev, le_OrganizationID := ws_OrganizationID signal,
         le_Kind := LedgerEntrySchedule, le_ActorID := as_ActorID schedule,
         le_Signal := Some signal, le_Snapshot := Some snapshot,
         le_CommittedAt := maxInt64 [ws_CreatedAt signal, ev_now ev]\<rparr>)"

definition AppendSchedule ::
  "codec \<Rightarrow> env \<Rightarrow> env \<Rightarrow> agent_schedule \<Rightarrow> wake_signal \<Rightarrow> ledger_disk \<Rightarrow>
   (string, commit_certificate) outcome \<times> ledger_disk" where
  "AppendSchedule cx ev ev' schedule signal d =
     (case LatestSnapshot cx ev (ws_OrganizationID signal) d of
        Err m \<Rightarrow> (Err m, d)
      | Panic m \<Rightarrow> (Panic m, d)
      | Ok snapshot \<Rightarrow> Append cx ev' (schedule_entry ev' schedule signal snapshot) d)"

definition voice_entry :: "env \<Rightarrow> voice_event \<Rightarrow> context_snapshot \<Rightarrow> ledger_entry" where
  "voice_entry ev event snapshot = zero_ledger_entry
     \<lparr>le_ID := ve_ID event, le_OrganizationID := ve_OrganizationID event,
      le_Kind := LedgerEntryVoice, le_ActorID := ve_ActorID event,
      le_Voice := Some event, le_Snapshot := Some (applyVoiceEvent snapshot event),
      le_CommittedAt := maxInt64 [ve_CreatedAt event, ev_now ev]\<rparr>"

definition AppendVoiceEvent ::
  "codec \<Rightarrow> env \<Rightarrow> env \<Rightarrow> voice_event \<Rightarrow> ledger_disk \<Rightarrow>
   (string, commit_certificate) outcome \<times> ledger_disk" where
  "AppendVoiceEvent cx ev ev' event d =
     (case LatestSnapshot cx ev (ve_OrganizationID event) d of
        Err m \<Rightarrow> (Err m, d)
      | Panic m \<Rightarrow> (Panic m, d)
      | Ok snapshot \<Rightarrow> Append cx ev' (voice_entry ev' event snapshot) d)"

definition proposed_entry :: "env \<Rightarrow> ledger_entry \<Rightarrow> ledger_entry" where
  "proposed_entry ev entry =
     (let e = (if le_ID entry = [] then entry\<lparr>le_ID := ev_uuid ev\<rparr> else entry);
          e = (if le_ProposedAt e = 0 then e\<lparr>le_ProposedAt := ev_now ev\<rparr> else e);
          e = e\<lparr>le_Status := LedgerEntryStatusProposed\<rparr>
      in case le_Consensus e of
           None \<Rightarrow> e
         | Some c \<Rightarrow> e\<lparr>le_Quorum := Some (zero_quorum_state
             \<lparr>qs_QuorumKey := cr_QuorumKey c, qs_RequiredApprovals := cr_RequiredApprovals c,
              qs_EligibleVoters := cr_EligibleVoters c,
              qs_MissingApprovals := cr_RequiredApprovals c\<rparr>)\<rparr>)"

definition Propose ::
  "env \<Rightarrow> ledger_entry \<Rightarrow> ledger_disk \<Rightarrow> (string, ledger_entry) outcome \<times> ledger_disk" where
  "Propose ev entry d = (case readPendingLocked ev d of
     Err m \<Rightarrow> (Err m, d)
   | Panic m \<Rightarrow> (Panic m, d)
   | Ok pending \<Rightarrow>
       let e = proposed_entry ev entry in
       case writePendingLocked ev (pending @ [e]) d of
         (Ok _, d') \<Rightarrow> (Ok e, d')
       | (Err m, d') \<Rightarrow> (Err m, d')
       | (Panic m, d') \<Rightarrow> (Panic m, d'))"

definition Pending ::
  "env \<Rightarrow> string \<Rightarrow> ledger_disk \<Rightarrow> (string, ledger_entry list) outcome" where
  "Pending ev org d = obind (readPendingLocked ev d) (\<lambda>pending.
     if org = [] then Ok pending
     else Ok (filter (\<lambda>e. le_OrganizationID e = org) pending))"

text \<open>The first pending entry with the identifier, as the split of the list around it.\<close>

fun split_pending ::
  "string \<Rightarrow> ledger_entry list \<Rightarrow> (ledger_entry list \<times> ledger_entry \<times> ledger_entry list) option"
where
  "split_pending entryID [] = None"
| "split_pending entryID (e # es) =
     (if le_ID e \<noteq> entryID
      then (case split_pending entryID es of
              None \<Rightarrow> None | Some (xs, y, zs) \<Rightarrow> Some (e # xs, y, zs))
      else Some ([], e, es))"

text \<open>The entry as finalization writes it, before \<open>appendLocked\<close> seals it.\<close>

definition finalized_entry :: "env \<Rightarrow> ledger_entry \<Rightarrow> ledger_entry" where
  "finalized_entry ev entry = entry
     \<lparr>le_Quorum := Some (buildQuorumState entry), le_FinalizedAt := ev_now ev,
      le_Status := LedgerEntryStatusFinalized, le_CommittedAt := ev_now ev\<rparr>"

definition rejected_entry :: "env \<Rightarrow> ledger_entry \<Rightarrow> ledger_entry" where
  "rejected_entry ev entry = entry
     \<lparr>le_Quorum := Some (buildQuorumState entry), le_FinalizedAt := ev_now ev,
      le_Status := LedgerEntryStatusRejected, le_RejectedAt := ev_now ev\<rparr>"

definition finalizePendingEntryLocked ::
  "codec \<Rightarrow> env \<Rightarrow> ledger_entry \<Rightarrow> ledger_disk \<Rightarrow>
   (string, commit_certificate) outcome \<times> ledger_disk" where
  "finalizePendingEntryLocked cx ev entry d =
     (let quorum = buildQuorumState entry in
      if qs_Rejected quorum
      then (Ok (zero_commit_certificate
                  \<lparr>cc_EntryID := le_ID entry, cc_Hash := entry_hash cx (rejected_entry ev entry),
                   cc_CommittedAt := ev_now ev, cc_QuorumSize := int (length (le_Votes entry)),
                   cc_Status := LedgerEntryStatusRejected, cc_Approvals := qs_Approvals quorum,
                   cc_Rejections := qs_Rejections quorum\<rparr>), d)
      else case replayLocked cx ev d of
        Err m \<Rightarrow> (Err m, d)
      | Panic m \<Rightarrow> (Panic m, d)
      | Ok entries \<Rightarrow> appendLocked cx ev (int (length entries) + 1) (finalized_entry ev entry) d)"

text \<open>Removing the entry from the pending list, behind a finalization that succeeded.\<close>

definition drop_pending ::
  "env \<Rightarrow> ledger_entry list \<Rightarrow> 'a \<Rightarrow> ledger_disk \<Rightarrow> (string, 'a) outcome \<times> ledger_disk" where
  "drop_pending ev rest result d = (case writePendingLocked ev rest d of
     (Ok _, d') \<Rightarrow> (Ok result, d')
   | (Err m, d') \<Rightarrow> (Err m, d')
   | (Panic m, d') \<Rightarrow> (Panic m, d'))"

definition add_vote :: "env \<Rightarrow> string \<Rightarrow> consensus_vote \<Rightarrow> ledger_entry \<Rightarrow> ledger_entry" where
  "add_vote ev entryID vote entry =
     (let vote = (if cv_VotedAt vote = 0 then vote\<lparr>cv_VotedAt := ev_now_snapshot ev\<rparr> else vote);
          vote = vote\<lparr>cv_EntryID := entryID\<rparr>
      in entry\<lparr>le_Votes := le_Votes entry @ [vote]\<rparr>)"

definition Vote ::
  "codec \<Rightarrow> env \<Rightarrow> string \<Rightarrow> consensus_vote \<Rightarrow> ledger_disk \<Rightarrow>
   (string, quorum_state) outcome \<times> ledger_disk" where
  "Vote cx ev entryID vote d = (case readPendingLocked ev d of
     Err m \<Rightarrow> (Err m, d)
   | Panic m \<Rightarrow> (Panic m, d)
   | Ok pending \<Rightarrow> (case split_pending entryID pending of
       None \<Rightarrow> (Err (''pending entry '' @ quoted entryID @ '' not found''), d)
     | Some (pre, entry, post) \<Rightarrow>
         if list_ex (\<lambda>v. cv_VoterID v = cv_VoterID vote) (le_Votes entry)
         then (Err (''duplicate vote from '' @ cv_VoterID vote), d)
         else
           let entry = add_vote ev entryID vote entry;
               quorum = buildQuorumState entry;
               entry = entry\<lparr>le_Quorum := Some quorum\<rparr>
           in if (case le_Consensus entry of Some c \<Rightarrow> cr_AutoFinalize c | None \<Rightarrow> False) \<and>
                 qs_Finalizable quorum
              then (case finalizePendingEntryLocked cx ev entry d of
                      (Ok _, d') \<Rightarrow> drop_pending ev (pre @ post) quorum d'
                    | (Err m, d') \<Rightarrow> (Err m, d')
                    | (Panic m, d') \<Rightarrow> (Panic m, d'))
              else drop_pending ev (pre @ entry # post) quorum d))"

definition Finalize ::
  "codec \<Rightarrow> env \<Rightarrow> string \<Rightarrow> ledger_disk \<Rightarrow>
   (string, commit_certificate) outcome \<times> ledger_disk" where
  "Finalize cx ev entryID d = (case readPendingLocked ev d of
     Err m \<Rightarrow> (Err m, d)
   | Panic m \<Rightarrow> (Panic m, d)
   | Ok pending \<Rightarrow> (case split_pending entryID pending of
       None \<Rightarrow> (Err (''pending entry '' @ quoted entryID @ '' not found''), d)
     | Some (pre, entry, post) \<Rightarrow>
         let quorum = buildQuorumState entry;
             entry = entry\<lparr>le_Quorum := Some quorum\<rparr>
         in if \<not> qs_Finalizable quorum then (Err (''entry '' @ quoted entryID @ '' is not finalizable''), d)
            else case finalizePendingEntryLocked cx ev entry d of
                (Ok cert, d') \<Rightarrow> drop_pending ev (pre @ post) cert d'
              | (Err m, d') \<Rightarrow> (Err m, d')
              | (Panic m, d') \<Rightarrow> (Panic m, d')))"

section \<open>The ledger as a transition system\<close>

text \<open>
  One step is one call under the lock; the two halves of \<open>AppendSchedule\<close> and
  \<open>AppendVoiceEvent\<close> are a read, which changes nothing, and an \<open>Append\<close> of the entry made from
  whatever was read. Any file system failure may happen in any step.
\<close>

inductive ledger_step :: "codec \<Rightarrow> ledger_disk \<Rightarrow> ledger_disk \<Rightarrow> bool" for cx where
  step_Append: "Append cx ev entry d = (r, d') \<Longrightarrow> ledger_step cx d d'"
| step_Propose: "Propose ev entry d = (r, d') \<Longrightarrow> ledger_step cx d d'"
| step_Vote: "Vote cx ev entryID vote d = (q, d') \<Longrightarrow> ledger_step cx d d'"
| step_Finalize: "Finalize cx ev entryID d = (c, d') \<Longrightarrow> ledger_step cx d d'"
| step_restart: "NewLedgerService base m e p d = (u, d') \<Longrightarrow> ledger_step cx d d'"

inductive_cases ledger_stepE: "ledger_step cx d d'"

inductive_simps ledger_step_iff: "ledger_step cx d d'"

abbreviation ledger_reach :: "codec \<Rightarrow> ledger_disk \<Rightarrow> bool" where
  "ledger_reach cx \<equiv> reach (\<lambda>d. d = new_ledger_disk) (ledger_step cx)"

end
