(* ===== verification/Ledger_Facts.thy ===== *)
theory Ledger_Facts
  imports Ledger
begin

text \<open>
  Lemmas about the ledger: the three upserts meet the contract of the prelude, the votes
  counted are the votes there are, a replay returns the entries of the file, one step changes
  the entries file in one of few ways, and the invariants that follow: numbering, append-only
  growth, a file once unreadable stays so, and the quorum behind every committed entry.
\<close>

section \<open>The upserts\<close>

interpretation publications: keyed_upsert pr_ID upsertPublication
  by unfold_locales simp_all

interpretation voice_rooms: keyed_upsert vr_RoomID upsertVoiceRoom
  by unfold_locales simp_all

interpretation schedules: keyed_upsert as_ID upsertSchedule
  by unfold_locales simp_all

section \<open>Counting\<close>

lemma count_votes_eq:
  "count_votes side n votes = n + int (length (filter (\<lambda>v. cv_Approved v = side) votes))"
  by (induction side n votes rule: count_votes.induct) auto

lemma approvalCount_eq: "approvalCount votes = int (length (filter cv_Approved votes))"
  by (simp add: approvalCount_def count_votes_eq)

lemma rejectionCount_eq:
  "rejectionCount votes = int (length (filter (\<lambda>v. \<not> cv_Approved v) votes))"
  by (simp add: rejectionCount_def count_votes_eq)

lemma approvals_rejections: "approvalCount votes + rejectionCount votes = int (length votes)"
  using sum_length_filter_compl [of cv_Approved votes]
  by (simp add: approvalCount_eq rejectionCount_eq)

lemma approvals_distinct:
  "distinct (map cv_VoterID votes) \<Longrightarrow>
   approvalCount votes = int (card {cv_VoterID v |v. v \<in> set votes \<and> cv_Approved v})"
proof -
  assume "distinct (map cv_VoterID votes)"
  then have "distinct (map cv_VoterID (filter cv_Approved votes))"
    by (rule distinct_map_filter)
  then have "length (filter cv_Approved votes) = card (set (map cv_VoterID (filter cv_Approved votes)))"
    by (metis distinct_card length_map)
  moreover have "set (map cv_VoterID (filter cv_Approved votes)) =
      {cv_VoterID v |v. v \<in> set votes \<and> cv_Approved v}"
    by auto
  ultimately show ?thesis by (simp add: approvalCount_eq)
qed

lemma maxInt64_pair [simp]: "maxInt64 [a, b] = max a b"
  by (simp add: maxInt64_def)

text \<open>The requirement \<open>buildQuorumState\<close> works with.\<close>

definition required_approvals :: "ledger_entry \<Rightarrow> int" where
  "required_approvals entry = (case le_Consensus entry of
     Some c \<Rightarrow> cr_RequiredApprovals c
   | None \<Rightarrow> (case le_Quorum entry of Some q \<Rightarrow> qs_RequiredApprovals q | None \<Rightarrow> 0))"

definition eligible_voters :: "ledger_entry \<Rightarrow> string list" where
  "eligible_voters entry = (case le_Consensus entry of
     Some c \<Rightarrow> cr_EligibleVoters c
   | None \<Rightarrow> (case le_Quorum entry of Some q \<Rightarrow> qs_EligibleVoters q | None \<Rightarrow> []))"

lemma buildQuorumState_fields [simp]:
  "qs_Approvals (buildQuorumState e) = approvalCount (le_Votes e)"
  "qs_Rejections (buildQuorumState e) = rejectionCount (le_Votes e)"
  "qs_RequiredApprovals (buildQuorumState e) = required_approvals e"
  "qs_EligibleVoters (buildQuorumState e) = eligible_voters e"
  "qs_MissingApprovals (buildQuorumState e) = max 0 (required_approvals e - approvalCount (le_Votes e))"
  by (auto simp: buildQuorumState_def Let_def required_approvals_def eligible_voters_def
      zero_quorum_state_def split: option.split)

lemma buildQuorumState_Rejected:
  "qs_Rejected (buildQuorumState e) \<longleftrightarrow>
     rejectionCount (le_Votes e) > 0 \<and>
     approvalCount (le_Votes e) + max 0 (int (length (eligible_voters e)) - int (length (le_Votes e)))
       < required_approvals e"
  by (auto simp: buildQuorumState_def Let_def required_approvals_def eligible_voters_def
      zero_quorum_state_def split: option.split)

lemma buildQuorumState_Finalizable:
  "qs_Finalizable (buildQuorumState e) \<longleftrightarrow>
     approvalCount (le_Votes e) \<ge> required_approvals e \<or> qs_Rejected (buildQuorumState e)"
  by (auto simp: buildQuorumState_def Let_def required_approvals_def eligible_voters_def
      zero_quorum_state_def split: option.split)

lemma rejected_not_approved:
  "qs_Rejected (buildQuorumState e) \<Longrightarrow> approvalCount (le_Votes e) < required_approvals e"
  unfolding buildQuorumState_Rejected by linarith

text \<open>Storing the quorum in the entry does not change the next tally.\<close>

lemma required_approvals_quorum [simp]:
  "required_approvals (e\<lparr>le_Quorum := Some (buildQuorumState e)\<rparr>) = required_approvals e"
  "eligible_voters (e\<lparr>le_Quorum := Some (buildQuorumState e)\<rparr>) = eligible_voters e"
proof -
  have *: "required_approvals (e\<lparr>le_Quorum := Some q\<rparr>) =
      (case le_Consensus e of Some c \<Rightarrow> cr_RequiredApprovals c | None \<Rightarrow> qs_RequiredApprovals q)"
    "eligible_voters (e\<lparr>le_Quorum := Some q\<rparr>) =
      (case le_Consensus e of Some c \<Rightarrow> cr_EligibleVoters c | None \<Rightarrow> qs_EligibleVoters q)" for q
    by (simp_all add: required_approvals_def eligible_voters_def split: option.split)
  show "required_approvals (e\<lparr>le_Quorum := Some (buildQuorumState e)\<rparr>) = required_approvals e"
    "eligible_voters (e\<lparr>le_Quorum := Some (buildQuorumState e)\<rparr>) = eligible_voters e"
    unfolding * buildQuorumState_fields
    by (auto simp: required_approvals_def eligible_voters_def split: option.split)
qed

lemma rejected_quorum [simp]:
  "qs_Rejected (buildQuorumState (e\<lparr>le_Quorum := Some (buildQuorumState e)\<rparr>)) =
   qs_Rejected (buildQuorumState e)"
  unfolding buildQuorumState_Rejected required_approvals_quorum by simp

section \<open>Replaying\<close>

fun line_entries :: "file_line list \<Rightarrow> ledger_entry list" where
  "line_entries [] = []"
| "line_entries (EntryLine e # ls) = e # line_entries ls"
| "line_entries (BlankLine # ls) = line_entries ls"
| "line_entries (GarbageLine n # ls) = line_entries ls"

definition tail_entries :: "file_tail \<Rightarrow> ledger_entry list" where
  "tail_entries t = (case t of EntryTail e \<Rightarrow> [e] | _ \<Rightarrow> [])"

definition file_entries :: "entries_file \<Rightarrow> ledger_entry list" where
  "file_entries f = line_entries (ef_lines f) @ tail_entries (ef_tail f)"

definition file_scan :: "codec \<Rightarrow> entries_file \<Rightarrow> (string, ledger_entry list) outcome" where
  "file_scan cx f = scan_lines cx (ef_lines f) (ef_tail f)"

text \<open>What a scan needs: every piece of text an entry that fits the buffer.\<close>

fun line_ok :: "codec \<Rightarrow> file_line \<Rightarrow> bool" where
  "line_ok cx (EntryLine e) = (json_len cx e < max_token)"
| "line_ok cx BlankLine = True"
| "line_ok cx (GarbageLine n) = False"

definition tail_ok :: "codec \<Rightarrow> file_tail \<Rightarrow> bool" where
  "tail_ok cx t = (case t of NoTail \<Rightarrow> True | EntryTail e \<Rightarrow> json_len cx e < max_token
                   | GarbageTail n \<Rightarrow> False)"

lemma tail_simps [simp]:
  "tail_ok cx NoTail" "tail_ok cx (EntryTail e) = (json_len cx e < max_token)"
  "\<not> tail_ok cx (GarbageTail n)"
  "tail_entries NoTail = []" "tail_entries (EntryTail e) = [e]" "tail_entries (GarbageTail n) = []"
  by (simp_all add: tail_ok_def tail_entries_def)

lemma scan_lines_eq:
  "scan_lines cx ls t = Ok es \<longleftrightarrow>
     (\<forall>l \<in> set ls. line_ok cx l) \<and> tail_ok cx t \<and> es = line_entries ls @ tail_entries t"
  by (induction cx ls t arbitrary: es rule: scan_lines.induct) auto

lemma file_scan_eq:
  "file_scan cx f = Ok es \<longleftrightarrow>
     (\<forall>l \<in> set (ef_lines f). line_ok cx l) \<and> tail_ok cx (ef_tail f) \<and> es = file_entries f"
  by (simp add: file_scan_def file_entries_def scan_lines_eq)

lemma scan_never_panics: "scan_lines cx ls t \<noteq> Panic m"
  by (induction cx ls t rule: scan_lines.induct) auto

lemma replayLocked_Ok:
  "replayLocked cx ev d = Ok es \<longleftrightarrow>
     (\<exists>f. ld_entries d = Some f \<and> ev_read_entries ev \<and> file_scan cx f = Ok es)"
  by (simp add: replayLocked_def file_scan_def split: option.split)

lemma replay_never_panics: "replayLocked cx ev d \<noteq> Panic m"
  by (simp add: replayLocked_def scan_never_panics split: option.split)

lemma line_entries_append [simp]: "line_entries (xs @ ys) = line_entries xs @ line_entries ys"
  by (induction xs rule: line_entries.induct) auto

section \<open>Writing\<close>

lemma write_all:
  assumes "ef_tail f = NoTail"
  shows "write_entry cx WriteAll e f =
    (Ok (), \<lparr>ef_lines = ef_lines f @ [EntryLine e], ef_tail = NoTail\<rparr>)"
  using assms by (simp add: write_entry_def Let_def)

lemma write_entry_Ok: "write_entry cx w e f = (Ok u, f') \<Longrightarrow> w = WriteAll"
  by (cases w) (auto simp: write_entry_def Let_def)

lemma write_never_panics: "write_entry cx w e f \<noteq> (Panic m, f')"
  by (cases w) (auto simp: write_entry_def Let_def)

text \<open>
  What a write to a readable file can leave: the same file, the file with the entry behind
  the others, or a file that is not readable any more and has lost at most its last entry.
\<close>

definition entries_lost :: "codec \<Rightarrow> ledger_entry list \<Rightarrow> entries_file \<Rightarrow> bool" where
  "entries_lost cx es f \<longleftrightarrow>
     (\<forall>es'. file_scan cx f \<noteq> Ok es') \<and> (file_entries f = es \<or> file_entries f = butlast es)"

lemma write_entry_NoTail:
  assumes "file_scan cx f = Ok es" "ef_tail f = NoTail" "write_entry cx w e f = (r, f')"
  shows "f' = f \<or>
    file_entries f' = es @ [e] \<and> (file_scan cx f' = Ok (es @ [e]) \<longleftrightarrow> json_len cx e < max_token) \<or>
    entries_lost cx es f'"
proof (cases w)
  case WriteAll
  with assms show ?thesis
    by (simp add: write_entry_def) (auto simp: file_scan_eq file_entries_def)
next
  case WriteNoNewline
  with assms show ?thesis
    by (simp add: write_entry_def) (auto simp: file_scan_eq file_entries_def)
next
  case (WriteTorn k)
  with assms show ?thesis
    by (cases "k = 0"; simp add: write_entry_def)
       (auto simp: file_scan_eq file_entries_def entries_lost_def)
qed (use assms in \<open>simp add: write_entry_def\<close>)

lemma write_entry_EntryTail:
  assumes "file_scan cx f = Ok es" "ef_tail f = EntryTail e0" "write_entry cx w e f = (r, f')"
  shows "f' = f \<or> entries_lost cx es f'"
proof (cases w)
  case WriteAll
  with assms show ?thesis
    by (simp add: write_entry_def) (auto simp: file_scan_eq file_entries_def entries_lost_def)
next
  case WriteNoNewline
  with assms show ?thesis
    by (simp add: write_entry_def) (auto simp: file_scan_eq file_entries_def entries_lost_def)
next
  case (WriteTorn k)
  with assms show ?thesis
    by (cases "k = 0"; simp add: write_entry_def)
       (auto simp: file_scan_eq file_entries_def entries_lost_def)
qed (use assms in \<open>simp add: write_entry_def\<close>)

lemma write_entry_effect:
  assumes "file_scan cx f = Ok es" and "write_entry cx w e f = (r, f')"
  shows "f' = f \<or>
    file_entries f' = es @ [e] \<and> (file_scan cx f' = Ok (es @ [e]) \<longleftrightarrow> json_len cx e < max_token) \<or>
    entries_lost cx es f'"
proof (cases "ef_tail f")
  case NoTail
  then show ?thesis using write_entry_NoTail assms by blast
next
  case (EntryTail e0)
  then show ?thesis using write_entry_EntryTail assms by blast
next
  case (GarbageTail n)
  then show ?thesis using assms(1) by (simp add: file_scan_eq)
qed

lemma appendLocked_never_panics: "fst (appendLocked cx ev n e d) \<noteq> Panic m"
  using write_never_panics
  by (auto simp: appendLocked_def Let_def split: option.split outcome.split prod.split)

text \<open>How \<open>appendLocked\<close> changes the disk.\<close>

lemma appendLocked_cases:
  assumes "appendLocked cx ev n e d = (r, d')"
  obtains (same) "d' = d" "\<not> (\<exists>c. r = Ok c)"
  | (wrote) f f' r' where "ld_entries d = Some f"
      "write_entry cx (ev_write ev) (sealed_entry cx ev n e) f = (r', f')"
      "d' = d\<lparr>ld_entries := Some f'\<rparr>"
      "(\<exists>c. r = Ok c) \<longleftrightarrow> r' = Ok ()"
  using assms write_never_panics
  by (auto simp: appendLocked_def Let_def split: option.splits if_splits prod.splits outcome.splits)

lemma appendLocked_Ok:
  assumes "appendLocked cx ev n e d = (Ok c, d')"
  obtains f f' where "ld_entries d = Some f"
    "write_entry cx WriteAll (sealed_entry cx ev n e) f = (Ok (), f')"
    "d' = d\<lparr>ld_entries := Some f'\<rparr>" "c = commit_cert cx (fill_entry ev n e)"
  using assms write_entry_Ok
  by (fastforce simp: appendLocked_def Let_def
      split: option.splits if_splits prod.splits outcome.splits)

definition entries_readable :: "codec \<Rightarrow> ledger_disk \<Rightarrow> ledger_entry list \<Rightarrow> bool" where
  "entries_readable cx d es \<longleftrightarrow> (\<exists>f. ld_entries d = Some f \<and> file_scan cx f = Ok es)"

text \<open>
  What one step does to the entries: nothing, creating the empty file, or writing the next
  entry behind the ones there.
\<close>

definition entry_written ::
  "codec \<Rightarrow> ledger_disk \<Rightarrow> ledger_entry \<Rightarrow> ledger_disk \<Rightarrow> bool" where
  "entry_written cx d x d' \<longleftrightarrow> (\<exists>f es w r f'. ld_entries d = Some f \<and> file_scan cx f = Ok es \<and>
     le_Sequence x = int (length es) + 1 \<and> write_entry cx w x f = (r, f') \<and>
     ld_entries d' = Some f')"

lemma sealed_fields [simp]:
  "le_Sequence (sealed_entry cx ev n e) = n"
  "le_Votes (sealed_entry cx ev n e) = le_Votes e"
  "le_Consensus (sealed_entry cx ev n e) = le_Consensus e"
  "le_Snapshot (sealed_entry cx ev n e) = le_Snapshot e"
  "le_OrganizationID (sealed_entry cx ev n e) = le_OrganizationID e"
  "le_Signal (sealed_entry cx ev n e) = le_Signal e"
  "le_Publication (sealed_entry cx ev n e) = le_Publication e"
  "le_Voice (sealed_entry cx ev n e) = le_Voice e"
  "le_Quorum (sealed_entry cx ev n e) = le_Quorum e"
  by (simp_all add: sealed_entry_def fill_entry_def Let_def)

lemma sealed_status: "le_Status e \<noteq> [] \<Longrightarrow> le_Status (sealed_entry cx ev n e) = le_Status e"
  by (simp add: sealed_entry_def fill_entry_def Let_def)

lemma sealed_id: "le_ID e \<noteq> [] \<Longrightarrow> le_ID (sealed_entry cx ev n e) = le_ID e"
  by (simp add: sealed_entry_def fill_entry_def Let_def)

lemma append_after_replay:
  assumes "replayLocked cx ev d = Ok es"
    and "appendLocked cx ev (int (length es) + 1) e d = (r, d')"
  shows "ld_pending d' = ld_pending d \<and>
    (d' = d \<or> entry_written cx d (sealed_entry cx ev (int (length es) + 1) e) d')"
  using assms(2)
proof (cases rule: appendLocked_cases)
  case (wrote f f' r')
  then show ?thesis using assms(1) unfolding entry_written_def replayLocked_Ok by auto
qed simp

lemma Append_effect:
  assumes "Append cx ev e d = (r, d')"
  shows "ld_pending d' = ld_pending d \<and>
    (d' = d \<or> (\<exists>n. entry_written cx d (sealed_entry cx ev n e) d'))"
proof (cases "replayLocked cx ev d")
  case (Ok es)
  with assms append_after_replay [of cx ev d es e r d'] show ?thesis
    by (auto simp: Append_def)
qed (use assms in \<open>auto simp: Append_def\<close>)

lemma finalizePending_effect:
  assumes "finalizePendingEntryLocked cx ev e d = (r, d')"
  shows "ld_pending d' = ld_pending d \<and>
    (d' = d \<or> \<not> qs_Rejected (buildQuorumState e) \<and>
       (\<exists>n. entry_written cx d (sealed_entry cx ev n (finalized_entry ev e)) d'))"
proof (cases "qs_Rejected (buildQuorumState e)")
  case False
  then show ?thesis
  proof (cases "replayLocked cx ev d")
    case (Ok es)
    with assms False append_after_replay [of cx ev d es "finalized_entry ev e" r d'] show ?thesis
      by (auto simp: finalizePendingEntryLocked_def Let_def)
  qed (use assms False in \<open>auto simp: finalizePendingEntryLocked_def Let_def\<close>)
qed (use assms in \<open>auto simp: finalizePendingEntryLocked_def Let_def\<close>)

lemma writePending_entries:
  "writePendingLocked ev es d = (r, d') \<Longrightarrow> ld_entries d' = ld_entries d"
  by (auto simp: writePendingLocked_def split: if_splits rewrite_result.splits)

lemma drop_pending_entries:
  "drop_pending ev es x d = (r, d') \<Longrightarrow> ld_entries d' = ld_entries d"
  by (auto simp: drop_pending_def dest: writePending_entries split: prod.splits outcome.splits)

lemma Propose_entries: "Propose ev e d = (r, d') \<Longrightarrow> ld_entries d' = ld_entries d"
  by (auto simp: Propose_def Let_def dest: writePending_entries split: prod.splits outcome.splits)

end
