(* ===== verification/Ledger_Invariants.thy ===== *)
theory Ledger_Invariants
  imports Ledger_Facts "HOL-Library.Sublist"
begin

text \<open>
  The invariants of the ledger, each an interpretation of the locale of invariants: the
  entries are numbered from 1, a file that has become unreadable stays unreadable, and, where
  entries come only through proposals, a committed entry has its quorum. Growth of the file
  is a relation between two states, transitive, that every step keeps.
\<close>

section \<open>What one step writes\<close>

lemma drop_pending_Ok:
  "drop_pending ev es x d = (Ok y, d') \<longleftrightarrow>
     y = x \<and> writePendingLocked ev es d = (Ok (), d')"
  by (auto simp: drop_pending_def split: prod.splits outcome.splits)

lemma entry_written_cong:
  "ld_entries d1 = ld_entries d2 \<Longrightarrow> entry_written cx d x d1 = entry_written cx d x d2"
  by (simp add: entry_written_def)

lemma Finalize_effect:
  assumes "Finalize cx ev entryID d = (r, d')"
  shows "ld_entries d' = ld_entries d \<or>
    (\<exists>pending pre entry post n. readPendingLocked ev d = Ok pending \<and>
       split_pending entryID pending = Some (pre, entry, post) \<and>
       qs_Finalizable (buildQuorumState entry) \<and> \<not> qs_Rejected (buildQuorumState entry) \<and>
       entry_written cx d (sealed_entry cx ev n
         (finalized_entry ev (entry\<lparr>le_Quorum := Some (buildQuorumState entry)\<rparr>))) d')"
proof (cases "readPendingLocked ev d")
  case (Ok pending)
  show ?thesis
  proof (cases "split_pending entryID pending")
    case (Some p)
    obtain pre entry post where p: "p = (pre, entry, post)" by (cases p) auto
    let ?e = "entry\<lparr>le_Quorum := Some (buildQuorumState entry)\<rparr>"
    obtain r1 d1 where fin: "finalizePendingEntryLocked cx ev ?e d = (r1, d1)"
      by (cases "finalizePendingEntryLocked cx ev ?e d") auto
    have "ld_entries d' = ld_entries d1 \<or> ld_entries d' = ld_entries d" and
      "qs_Finalizable (buildQuorumState entry) \<or> ld_entries d' = ld_entries d"
      using assms Ok Some p fin
      by (auto simp: Finalize_def Let_def dest: drop_pending_entries
          split: if_splits outcome.splits)
    with finalizePending_effect [OF fin] Ok Some p show ?thesis
      unfolding rejected_quorum by (metis entry_written_cong)
  qed (use assms Ok in \<open>auto simp: Finalize_def\<close>)
qed (use assms in \<open>auto simp: Finalize_def\<close>)

lemma Vote_effect:
  assumes "Vote cx ev entryID vote d = (r, d')"
  shows "ld_entries d' = ld_entries d \<or>
    (\<exists>pending pre entry post n. readPendingLocked ev d = Ok pending \<and>
       split_pending entryID pending = Some (pre, entry, post) \<and>
       cv_VoterID vote \<notin> cv_VoterID ` set (le_Votes entry) \<and>
       (let e = add_vote ev entryID vote entry in
        qs_Finalizable (buildQuorumState e) \<and> \<not> qs_Rejected (buildQuorumState e) \<and>
        entry_written cx d (sealed_entry cx ev n
          (finalized_entry ev (e\<lparr>le_Quorum := Some (buildQuorumState e)\<rparr>))) d'))"
proof (cases "readPendingLocked ev d")
  case (Ok pending)
  show ?thesis
  proof (cases "split_pending entryID pending")
    case (Some p)
    obtain pre entry post where p: "p = (pre, entry, post)" by (cases p) auto
    define e where "e = add_vote ev entryID vote entry"
    let ?e = "e\<lparr>le_Quorum := Some (buildQuorumState e)\<rparr>"
    obtain r1 d1 where fin: "finalizePendingEntryLocked cx ev ?e d = (r1, d1)"
      by (cases "finalizePendingEntryLocked cx ev ?e d") auto
    have "ld_entries d' = ld_entries d1 \<or> ld_entries d' = ld_entries d" and
      "qs_Finalizable (buildQuorumState e) \<or> ld_entries d' = ld_entries d" and
      "cv_VoterID vote \<notin> cv_VoterID ` set (le_Votes entry) \<or> ld_entries d' = ld_entries d"
      using assms Ok Some p fin
      by (auto simp: Vote_def Let_def list_ex_iff e_def [symmetric] dest: drop_pending_entries
          split: if_splits outcome.splits)
    with finalizePending_effect [OF fin] Ok Some p show ?thesis
      unfolding Let_def rejected_quorum e_def by (metis entry_written_cong)
  qed (use assms Ok in \<open>auto simp: Vote_def\<close>)
qed (use assms in \<open>auto simp: Vote_def\<close>)

lemma restart_effect:
  "NewLedgerService base m e p d = (u, d') \<Longrightarrow>
   ld_entries d' = ld_entries d \<or>
   ld_entries d = None \<and> ld_entries d' = Some \<lparr>ef_lines = [], ef_tail = NoTail\<rparr>"
  by (auto simp: NewLedgerService_def new_ledger_disk_def Let_def split: if_splits)

lemma ledger_step_effect:
  assumes "ledger_step cx d d'"
  shows "ld_entries d' = ld_entries d \<or>
    ld_entries d = None \<and> ld_entries d' = Some \<lparr>ef_lines = [], ef_tail = NoTail\<rparr> \<or>
    (\<exists>x. entry_written cx d x d')"
  using assms Append_effect Propose_entries Vote_effect Finalize_effect restart_effect
  unfolding Let_def by (elim ledger_stepE) metis+

section \<open>Numbering\<close>

definition numbered :: "ledger_entry list \<Rightarrow> bool" where
  "numbered es \<longleftrightarrow> map le_Sequence es = map int [1..<Suc (length es)]"

lemma numbered_Nil [simp]: "numbered []"
  by (simp add: numbered_def)

lemma numbered_snoc [simp]:
  "numbered (es @ [e]) \<longleftrightarrow> numbered es \<and> le_Sequence e = int (length es) + 1"
  by (auto simp: numbered_def)

lemma numbered_butlast: "numbered es \<Longrightarrow> numbered (butlast es)"
  by (cases es rule: rev_cases) auto

lemma numbered_nth: "numbered es \<Longrightarrow> i < length es \<Longrightarrow> le_Sequence (es ! i) = int i + 1"
proof -
  assume "numbered es" and i: "i < length es"
  then have "map le_Sequence es ! i = map int [1..<Suc (length es)] ! i"
    by (simp add: numbered_def)
  then show ?thesis using i by (simp del: upt_Suc)
qed

definition ledger_numbered :: "ledger_disk \<Rightarrow> bool" where
  "ledger_numbered d \<longleftrightarrow> (\<forall>f. ld_entries d = Some f \<longrightarrow> numbered (file_entries f))"

lemma ledger_numbered_step:
  assumes "ledger_step cx d d'" and "ledger_numbered d"
  shows "ledger_numbered d'"
  using ledger_step_effect [OF assms(1)]
proof (elim disjE exE conjE)
  fix x assume "entry_written cx d x d'"
  then obtain f es w r f' where f: "ld_entries d = Some f" "file_scan cx f = Ok es"
    and x: "le_Sequence x = int (length es) + 1" "write_entry cx w x f = (r, f')"
    and d': "ld_entries d' = Some f'"
    unfolding entry_written_def by blast
  have "numbered es" using assms(2) f by (auto simp: ledger_numbered_def file_scan_eq)
  then have "numbered (file_entries f')"
    using write_entry_effect [OF f(2) x(2)] x(1) f(2) numbered_butlast [of es]
    unfolding entries_lost_def file_scan_eq by (metis numbered_snoc)
  then show ?thesis by (simp add: ledger_numbered_def d')
qed (use assms in \<open>auto simp: ledger_numbered_def file_entries_def\<close>)

interpretation numbering:
  invariant_system "\<lambda>d. d = new_ledger_disk" "ledger_step cx" ledger_numbered for cx
  by unfold_locales
    (simp add: ledger_numbered_def new_ledger_disk_def file_entries_def,
     rule ledger_numbered_step)

section \<open>Growth\<close>

text \<open>
  If the later state can be replayed then the earlier one could be, and its entries are a
  prefix: nothing that was readable is changed, reordered or dropped.
\<close>

definition grows_to :: "codec \<Rightarrow> ledger_disk \<Rightarrow> ledger_disk \<Rightarrow> bool" where
  "grows_to cx d d' \<longleftrightarrow> (\<forall>es'. entries_readable cx d' es' \<longrightarrow>
     ld_entries d = None \<or> (\<exists>es. entries_readable cx d es \<and> prefix es es'))"

lemma grows_to_refl: "grows_to cx d d"
  by (auto simp: grows_to_def)

lemma entries_readable_cong:
  "ld_entries d = ld_entries d' \<Longrightarrow> entries_readable cx d es = entries_readable cx d' es"
  by (simp add: entries_readable_def)

lemma entries_readable_replay:
  "entries_readable cx d es \<Longrightarrow> ev_read_entries ev \<Longrightarrow> Replay cx ev d = Ok es"
  "Replay cx ev d = Ok es \<Longrightarrow> entries_readable cx d es"
  by (auto simp: entries_readable_def Replay_def replayLocked_Ok)

lemma entry_written_grows:
  assumes "entry_written cx d x d'" and "entries_readable cx d' es'"
  shows "\<exists>es. entries_readable cx d es \<and> (es' = es \<or> es' = es @ [x])"
proof -
  obtain f es w r f' where f: "ld_entries d = Some f" "file_scan cx f = Ok es"
    and x: "write_entry cx w x f = (r, f')" and d': "ld_entries d' = Some f'"
    using assms(1) unfolding entry_written_def by blast
  have "file_scan cx f' = Ok es'" using assms(2) d' by (simp add: entries_readable_def)
  with write_entry_effect [OF f(2) x] f show ?thesis
    by (auto simp: entries_readable_def entries_lost_def file_scan_eq)
qed

lemma grows_to_step:
  assumes "ledger_step cx d d'" shows "grows_to cx d d'"
  unfolding grows_to_def
proof (intro allI impI)
  fix es' assume es': "entries_readable cx d' es'"
  from ledger_step_effect [OF assms]
  show "ld_entries d = None \<or> (\<exists>es. entries_readable cx d es \<and> prefix es es')"
  proof (elim disjE exE conjE)
    assume "ld_entries d' = ld_entries d"
    with es' show ?thesis by (auto simp: entries_readable_def)
  next
    fix x assume "entry_written cx d x d'"
    from entry_written_grows [OF this es'] show ?thesis by auto
  qed simp
qed

lemma ledger_step_keeps_file:
  "ledger_step cx d d' \<Longrightarrow> ld_entries d \<noteq> None \<Longrightarrow> ld_entries d' \<noteq> None"
  using ledger_step_effect [of cx d d'] by (auto simp: entry_written_def)

lemma grows_to_steps:
  assumes "(ledger_step cx)\<^sup>*\<^sup>* d d'" and "ld_entries d \<noteq> None"
  shows "ld_entries d' \<noteq> None \<and> grows_to cx d d'"
  using assms
proof (induction rule: rtranclp_induct)
  case base
  then show ?case by (simp add: grows_to_refl)
next
  case (step d1 d2)
  then have 1: "ld_entries d1 \<noteq> None" "grows_to cx d d1" by auto
  moreover have "grows_to cx d1 d2" using step by (blast intro: grows_to_step)
  ultimately have "grows_to cx d d2"
    unfolding grows_to_def by (meson prefix_order.trans)
  with 1 step show ?case using ledger_step_keeps_file by blast
qed

section \<open>A file that cannot be read any more\<close>

definition unreadable :: "codec \<Rightarrow> ledger_disk \<Rightarrow> bool" where
  "unreadable cx d \<longleftrightarrow>
     (\<exists>f. ld_entries d = Some f \<and> (\<forall>es. file_scan cx f \<noteq> Ok es))"

lemma unreadable_step:
  "ledger_step cx d d' \<Longrightarrow> unreadable cx d \<Longrightarrow> unreadable cx d'"
  using ledger_step_effect [of cx d d'] by (auto simp: unreadable_def entry_written_def)

interpretation unreadability:
  invariant_system "unreadable cx" "ledger_step cx" "unreadable cx" for cx
  by unfold_locales (auto intro: unreadable_step)

lemma unreadable_replay: "unreadable cx d \<Longrightarrow> replayLocked cx ev d \<noteq> Ok es"
  by (auto simp: unreadable_def replayLocked_Ok)

lemma unreadable_operations:
  assumes "unreadable cx d"
  shows "\<exists>m. Replay cx ev d = Err m" "\<exists>m. Append cx ev entry d = (Err m, d)"
    "\<exists>m. LatestSnapshot cx ev org d = Err m"
  using unreadable_replay [OF assms, of ev] replay_never_panics [of cx ev d]
  by (cases "replayLocked cx ev d"; simp add: Replay_def Append_def LatestSnapshot_def)+

section \<open>The quorum behind a committed entry\<close>

text \<open>
  The ledger when entries come only through \<open>Propose\<close>, \<open>Vote\<close>, \<open>Finalize\<close> and restarts.
  \<open>Propose\<close> keeps the votes the proposed entry already carries; the relation admits those
  proposals that carry at most one vote of each voter, as \<open>Vote\<close> itself guarantees for the
  votes it adds.
\<close>

definition one_vote_each :: "ledger_entry \<Rightarrow> bool" where
  "one_vote_each e \<longleftrightarrow> distinct (map cv_VoterID (le_Votes e))"

inductive consensus_step :: "codec \<Rightarrow> ledger_disk \<Rightarrow> ledger_disk \<Rightarrow> bool" for cx where
  cs_Propose: "Propose ev entry d = (r, d') \<Longrightarrow> one_vote_each entry \<Longrightarrow> consensus_step cx d d'"
| cs_Vote: "Vote cx ev entryID vote d = (q, d') \<Longrightarrow> consensus_step cx d d'"
| cs_Finalize: "Finalize cx ev entryID d = (c, d') \<Longrightarrow> consensus_step cx d d'"
| cs_restart: "NewLedgerService base m e p d = (u, d') \<Longrightarrow> consensus_step cx d d'"

inductive_cases consensus_stepE: "consensus_step cx d d'"

text \<open>The different voters who approved an entry.\<close>

definition approvers :: "ledger_entry \<Rightarrow> string set" where
  "approvers e = {cv_VoterID v |v. v \<in> set (le_Votes e) \<and> cv_Approved v}"

definition quorum_backed :: "ledger_entry \<Rightarrow> bool" where
  "quorum_backed e \<longleftrightarrow> one_vote_each e \<and> le_Status e = LedgerEntryStatusFinalized \<and>
     (case le_Consensus e of None \<Rightarrow> True
      | Some c \<Rightarrow> cr_RequiredApprovals c \<le> int (card (approvers e)))"

definition consensus_inv :: "ledger_disk \<Rightarrow> bool" where
  "consensus_inv d \<longleftrightarrow>
     (\<forall>es. ld_pending d = Some (PendingEntries es) \<longrightarrow> list_all one_vote_each es) \<and>
     (\<forall>f. ld_entries d = Some f \<longrightarrow> list_all quorum_backed (file_entries f))"

lemma split_pending_Some:
  "split_pending i es = Some (xs, e, ys) \<Longrightarrow> es = xs @ e # ys \<and> le_ID e = i"
  by (induction i es arbitrary: xs rule: split_pending.induct)
     (auto split: if_splits option.splits)

lemma readPending_list:
  "readPendingLocked ev d = Ok es \<Longrightarrow> es \<noteq> [] \<Longrightarrow> ld_pending d = Some (PendingEntries es)"
  by (auto simp: readPendingLocked_def split: option.splits if_splits pending_file.splits)

lemma writePending_pending:
  "writePendingLocked ev es d = (r, d') \<Longrightarrow>
   ld_pending d' \<in> {ld_pending d, Some (PendingEntries es), Some PendingEmpty, Some PendingGarbage}"
  by (auto simp: writePendingLocked_def split: if_splits rewrite_result.splits)

lemma drop_pending_write:
  "drop_pending ev es x d = (r, d') \<Longrightarrow> \<exists>r'. writePendingLocked ev es d = (r', d')"
  by (auto simp: drop_pending_def split: prod.splits outcome.splits)

lemma proposed_votes [simp]: "le_Votes (proposed_entry ev e) = le_Votes e"
  by (simp add: proposed_entry_def Let_def split: option.split)

lemma Propose_pending:
  assumes "Propose ev e d = (r, d')" and "one_vote_each e" and "consensus_inv d"
  shows "ld_pending d' = Some (PendingEntries es) \<Longrightarrow> list_all one_vote_each es"
proof (cases "readPendingLocked ev d")
  case (Ok pending)
  assume es: "ld_pending d' = Some (PendingEntries es)"
  have old: "list_all one_vote_each pending"
    using assms(3) readPending_list [OF Ok] by (cases "pending = []") (auto simp: consensus_inv_def)
  obtain r1 d1 where w: "writePendingLocked ev (pending @ [proposed_entry ev e]) d = (r1, d1)"
    by (cases "writePendingLocked ev (pending @ [proposed_entry ev e]) d") auto
  have "d' = d1" using assms(1) Ok w by (auto simp: Propose_def Let_def split: outcome.splits)
  with writePending_pending [OF w] es have
    "ld_pending d = Some (PendingEntries es) \<or> es = pending @ [proposed_entry ev e]"
    by auto
  then show ?thesis
    using old assms(2,3) by (auto simp: consensus_inv_def one_vote_each_def)
qed (use assms in \<open>auto simp: Propose_def consensus_inv_def\<close>)

lemma add_vote_one_each:
  "one_vote_each e \<Longrightarrow> cv_VoterID v \<notin> cv_VoterID ` set (le_Votes e) \<Longrightarrow>
   one_vote_each (add_vote ev i v e)"
  by (auto simp: one_vote_each_def add_vote_def Let_def)

lemma add_vote_fields [simp]: "le_Consensus (add_vote ev i v e) = le_Consensus e"
  by (simp add: add_vote_def Let_def)

lemma finalizePending_pending:
  "finalizePendingEntryLocked cx ev e d = (r, d') \<Longrightarrow> ld_pending d' = ld_pending d"
  using finalizePending_effect by blast

lemma Vote_pending:
  assumes "Vote cx ev i v d = (q, d')" and inv: "consensus_inv d"
    and es: "ld_pending d' = Some (PendingEntries es)"
  shows "list_all one_vote_each es"
proof -
  have keep: "ld_pending d' = ld_pending d \<Longrightarrow> ?thesis" using es inv by (simp add: consensus_inv_def)
  show ?thesis
  proof (cases "readPendingLocked ev d")
    case (Ok pending)
    show ?thesis
    proof (cases "split_pending i pending")
      case (Some p)
      obtain pre entry post where p: "p = (pre, entry, post)" by (cases p) auto
      have pend: "pending = pre @ entry # post" using Some p split_pending_Some by blast
      then have all: "list_all one_vote_each (pre @ entry # post)"
        using inv readPending_list [OF Ok] by (auto simp: consensus_inv_def)
      let ?a = "add_vote ev i v entry"
      let ?e = "?a\<lparr>le_Quorum := Some (buildQuorumState ?a)\<rparr>"
      show ?thesis
      proof (cases "cv_VoterID v \<in> cv_VoterID ` set (le_Votes entry)")
        case True
        then show ?thesis using assms(1) Ok Some p keep
          by (auto simp: Vote_def list_ex_iff split: if_splits)
      next
        case False
        have new: "one_vote_each ?e"
          using add_vote_one_each [OF _ False] all by (simp add: one_vote_each_def)
        obtain r1 d1 where fin: "finalizePendingEntryLocked cx ev ?e d = (r1, d1)"
          by (cases "finalizePendingEntryLocked cx ev ?e d") auto
        have nodup: "\<not> list_ex (\<lambda>w. cv_VoterID w = cv_VoterID v) (le_Votes entry)"
          using False by (auto simp: list_ex_iff image_iff)
        have "d' = d1 \<or> (\<exists>r. writePendingLocked ev (pre @ post) d1 = (r, d')) \<or>
            (\<exists>r. writePendingLocked ev (pre @ ?e # post) d = (r, d'))"
          using assms(1) Ok Some p fin nodup
          by (auto simp: Vote_def Let_def dest!: drop_pending_write split: if_splits outcome.splits)
        then have "ld_pending d' \<in> {ld_pending d, Some (PendingEntries (pre @ post)),
            Some (PendingEntries (pre @ ?e # post)), Some PendingEmpty, Some PendingGarbage}"
          using writePending_pending finalizePending_pending [OF fin] by fastforce
        with es all new keep show ?thesis by auto
      qed
    qed (use assms(1) Ok keep in \<open>auto simp: Vote_def\<close>)
  qed (use assms(1) keep in \<open>auto simp: Vote_def\<close>)
qed

lemma Finalize_pending:
  assumes "Finalize cx ev i d = (q, d')" and inv: "consensus_inv d"
    and es: "ld_pending d' = Some (PendingEntries es)"
  shows "list_all one_vote_each es"
proof -
  have keep: "ld_pending d' = ld_pending d \<Longrightarrow> ?thesis" using es inv by (simp add: consensus_inv_def)
  show ?thesis
  proof (cases "readPendingLocked ev d")
    case (Ok pending)
    show ?thesis
    proof (cases "split_pending i pending")
      case (Some p)
      obtain pre entry post where p: "p = (pre, entry, post)" by (cases p) auto
      have pend: "pending = pre @ entry # post" using Some p split_pending_Some by blast
      then have all: "list_all one_vote_each (pre @ entry # post)"
        using inv readPending_list [OF Ok] by (auto simp: consensus_inv_def)
      let ?e = "entry\<lparr>le_Quorum := Some (buildQuorumState entry)\<rparr>"
      obtain r1 d1 where fin: "finalizePendingEntryLocked cx ev ?e d = (r1, d1)"
        by (cases "finalizePendingEntryLocked cx ev ?e d") auto
      have "d' = d \<or> d' = d1 \<or> (\<exists>r. writePendingLocked ev (pre @ post) d1 = (r, d'))"
        using assms(1) Ok Some p fin
        by (auto simp: Finalize_def Let_def dest!: drop_pending_write split: if_splits outcome.splits)
      then have "ld_pending d' \<in> {ld_pending d, Some (PendingEntries (pre @ post)),
          Some PendingEmpty, Some PendingGarbage}"
        using writePending_pending finalizePending_pending [OF fin] by fastforce
      with es all keep show ?thesis by auto
    qed (use assms(1) Ok keep in \<open>auto simp: Finalize_def\<close>)
  qed (use assms(1) keep in \<open>auto simp: Finalize_def\<close>)
qed

lemma finalized_backed:
  assumes "one_vote_each e" and "qs_Finalizable (buildQuorumState e)"
    and "\<not> qs_Rejected (buildQuorumState e)"
  shows "quorum_backed (sealed_entry cx ev n (finalized_entry ev' (e\<lparr>le_Quorum := q\<rparr>)))"
proof -
  let ?s = "sealed_entry cx ev n (finalized_entry ev' (e\<lparr>le_Quorum := q\<rparr>))"
  have votes: "le_Votes ?s = le_Votes e" "le_Consensus ?s = le_Consensus e"
    by (simp_all add: finalized_entry_def)
  have status: "le_Status ?s = LedgerEntryStatusFinalized"
    by (subst sealed_status) (simp_all add: finalized_entry_def)
  have "required_approvals e \<le> int (card (approvers e))"
    using assms approvals_distinct [of "le_Votes e"]
    by (simp add: buildQuorumState_Finalizable one_vote_each_def approvers_def)
  then show ?thesis
    using assms(1) votes status
    by (auto simp: quorum_backed_def one_vote_each_def approvers_def required_approvals_def
        split: option.split)
qed

lemma written_committed:
  assumes "entry_written cx d x d'" and "quorum_backed x" and "consensus_inv d"
    and "ld_entries d' = Some f'"
  shows "list_all quorum_backed (file_entries f')"
proof -
  obtain f es w r where f: "ld_entries d = Some f" "file_scan cx f = Ok es"
    and x: "write_entry cx w x f = (r, f')"
    using assms(1,4) unfolding entry_written_def by auto
  have old: "list_all quorum_backed es"
    using assms(3) f by (auto simp: consensus_inv_def file_scan_eq)
  then have "list_all quorum_backed (butlast es)"
    by (auto simp: list_all_iff dest: in_set_butlastD)
  with write_entry_effect [OF f(2) x] old assms(2) f show ?thesis
    unfolding entries_lost_def file_scan_eq by (metis list_all_append list.pred_inject)
qed

lemma pending_entry_one_each:
  assumes "consensus_inv d" and "readPendingLocked ev d = Ok pending"
    and "split_pending i pending = Some (pre, entry, post)"
  shows "one_vote_each entry"
  using assms(1) readPending_list [OF assms(2)] split_pending_Some [OF assms(3)]
  by (auto simp: consensus_inv_def)

lemma consensus_step_inv:
  assumes "consensus_step cx d d'" and inv: "consensus_inv d"
  shows "consensus_inv d'"
  using assms(1)
proof (cases rule: consensus_step.cases)
  case (cs_Propose ev entry r)
  then show ?thesis
    using inv Propose_pending [OF cs_Propose inv] Propose_entries [OF cs_Propose(1)]
    by (simp add: consensus_inv_def)
next
  case (cs_Vote ev i v q)
  have "list_all quorum_backed (file_entries f')" if f': "ld_entries d' = Some f'" for f'
    using Vote_effect [OF cs_Vote]
  proof (elim disjE exE conjE)
    assume "ld_entries d' = ld_entries d"
    then show ?thesis using inv f' by (simp add: consensus_inv_def)
  next
    fix pending pre entry post n
    assume *: "readPendingLocked ev d = Ok pending" "split_pending i pending = Some (pre, entry, post)"
      "cv_VoterID v \<notin> cv_VoterID ` set (le_Votes entry)"
      "let e = add_vote ev i v entry in
        qs_Finalizable (buildQuorumState e) \<and> \<not> qs_Rejected (buildQuorumState e) \<and>
        entry_written cx d (sealed_entry cx ev n
          (finalized_entry ev (e\<lparr>le_Quorum := Some (buildQuorumState e)\<rparr>))) d'"
    have "one_vote_each (add_vote ev i v entry)"
      using add_vote_one_each pending_entry_one_each inv * by blast
    with * show ?thesis
      unfolding Let_def using written_committed finalized_backed inv f' by blast
  qed
  then show ?thesis using Vote_pending [OF cs_Vote inv] by (simp add: consensus_inv_def)
next
  case (cs_Finalize ev i q)
  have "list_all quorum_backed (file_entries f')" if f': "ld_entries d' = Some f'" for f'
    using Finalize_effect [OF cs_Finalize]
  proof (elim disjE exE conjE)
    assume "ld_entries d' = ld_entries d"
    then show ?thesis using inv f' by (simp add: consensus_inv_def)
  next
    fix pending pre entry post n
    assume *: "readPendingLocked ev d = Ok pending" "split_pending i pending = Some (pre, entry, post)"
      "qs_Finalizable (buildQuorumState entry)" "\<not> qs_Rejected (buildQuorumState entry)"
      "entry_written cx d (sealed_entry cx ev n
         (finalized_entry ev (entry\<lparr>le_Quorum := Some (buildQuorumState entry)\<rparr>))) d'"
    then show ?thesis
      using written_committed finalized_backed pending_entry_one_each inv f' by blast
  qed
  then show ?thesis using Finalize_pending [OF cs_Finalize inv] by (simp add: consensus_inv_def)
next
  case (cs_restart base m e p u)
  then show ?thesis
    using inv by (auto simp: NewLedgerService_def new_ledger_disk_def consensus_inv_def
        file_entries_def Let_def split: if_splits)
qed

interpretation committed_quorum:
  invariant_system "\<lambda>d. d = new_ledger_disk" "consensus_step cx" consensus_inv for cx
  by unfold_locales
    (simp add: consensus_inv_def new_ledger_disk_def file_entries_def, rule consensus_step_inv)

abbreviation consensus_reach :: "codec \<Rightarrow> ledger_disk \<Rightarrow> bool" where
  "consensus_reach cx \<equiv> reach (\<lambda>d. d = new_ledger_disk) (consensus_step cx)"

section \<open>Snapshots\<close>

lemma snapshot_loop_append:
  "snapshot_loop org s (xs @ ys) = snapshot_loop org (snapshot_loop org s xs) ys"
  by (induction org s xs rule: snapshot_loop.induct) auto

lemma applyVoiceEvent_schedules [simp]:
  "sn_OpenSchedules (applyVoiceEvent s v) = sn_OpenSchedules s"
  by (simp add: applyVoiceEvent_def Let_def)

lemma applyLedgerEntry_schedules:
  "sn_OpenSchedules (applyLedgerEntry s e) = (case le_Snapshot e of
     None \<Rightarrow> sn_OpenSchedules s
   | Some src \<Rightarrow> if sn_OpenSchedules src \<noteq> [] then sn_OpenSchedules src else sn_OpenSchedules s)"
  by (auto simp: applyLedgerEntry_def mergeSnapshot_def Let_def split: option.split)

lemma LatestSnapshot_Ok:
  assumes "LatestSnapshot cx ev org d = Ok s"
  obtains es where "entries_readable cx d es"
    "sn_OpenSchedules s = sn_OpenSchedules
       (snapshot_loop org (zero_context_snapshot\<lparr>sn_OrganizationID := org\<rparr>) es)"
  using assms
  by (auto simp: LatestSnapshot_def Let_def replayLocked_Ok entries_readable_def split: if_splits)

lemma Append_Ok:
  assumes "Append cx ev e d = (Ok c, d')"
  obtains es where "entries_readable cx d es"
    "entry_written cx d (sealed_entry cx ev (int (length es) + 1) e) d'"
    "\<And>es'. entries_readable cx d' es' \<Longrightarrow>
       es' = es @ [sealed_entry cx ev (int (length es) + 1) e]"
proof (cases "replayLocked cx ev d")
  case (Ok es)
  let ?x = "sealed_entry cx ev (int (length es) + 1) e"
  have app: "appendLocked cx ev (int (length es) + 1) e d = (Ok c, d')"
    using assms Ok by (simp add: Append_def)
  from appendLocked_Ok [OF app] obtain f f' where f: "ld_entries d = Some f"
    and w: "write_entry cx WriteAll ?x f = (Ok (), f')" and d': "d' = d\<lparr>ld_entries := Some f'\<rparr>"
    by blast
  have scan: "file_scan cx f = Ok es" using Ok f by (simp add: replayLocked_Ok)
  have read: "entries_readable cx d es" using scan f by (simp add: entries_readable_def)
  have "es' = es @ [?x]" if "entries_readable cx d' es'" for es'
    using that w scan
    by (auto simp: entries_readable_def d' write_entry_def Let_def file_scan_eq file_entries_def
        split: if_splits)
  moreover have "entry_written cx d ?x d'"
    unfolding entry_written_def using f scan w d' by force
  ultimately show ?thesis using that read by blast
qed (use assms in \<open>auto simp: Append_def\<close>)

lemma entries_readable_unique:
  "entries_readable cx d es \<Longrightarrow> entries_readable cx d es' \<Longrightarrow> es = es'"
  by (auto simp: entries_readable_def)

text \<open>What the latest snapshot shows once an entry with open schedules is the last one.\<close>

lemma schedules_after_append:
  assumes app: "Append cx ev e d = (Ok c, d')" and org: "le_OrganizationID e = org"
    and snap: "le_Snapshot e = Some src" "sn_OpenSchedules src \<noteq> []"
    and late: "LatestSnapshot cx ev' org d' = Ok s"
  shows "sn_OpenSchedules s = sn_OpenSchedules src"
proof -
  obtain es where es: "\<And>es'. entries_readable cx d' es' \<Longrightarrow>
      es' = es @ [sealed_entry cx ev (int (length es) + 1) e]"
    using Append_Ok [OF app] by blast
  obtain es' where es': "entries_readable cx d' es'" and s: "sn_OpenSchedules s =
      sn_OpenSchedules (snapshot_loop org (zero_context_snapshot\<lparr>sn_OrganizationID := org\<rparr>) es')"
    using LatestSnapshot_Ok [OF late] by blast
  show ?thesis
    unfolding s es [OF es'] using org snap
    by (simp add: snapshot_loop_append applyLedgerEntry_schedules)
qed

lemma schedules_after_schedule_entry:
  assumes "Append cx ev (schedule_entry ev1 schedule signal s) d = (Ok c, d')"
    and "LatestSnapshot cx ev' (ws_OrganizationID signal) d' = Ok s'"
  shows "sn_OpenSchedules s' = upsertSchedule (sn_OpenSchedules s) schedule"
proof -
  have "upsertSchedule (sn_OpenSchedules s) schedule \<noteq> []"
    using schedules.upsert_mem [of schedule "sn_OpenSchedules s"] by auto
  then show ?thesis
    using schedules_after_append [OF assms(1) _ _ _ assms(2)]
    by (simp add: schedule_entry_def Let_def)
qed

end
