(* ===== verification/Kernel.thy ===== *)
theory Kernel
  imports Agency_Types
begin

text \<open>
  The kernel of \<open>internal/agency/kernel.go\<close>: every observation and every action of an actor
  passes one of its two checks. The clock reading is the parameter \<open>now\<close>. The lemmas
  characterise acceptance and show that a decision is always one of two shapes.
\<close>

definition rejectedDecision :: "string \<Rightarrow> string \<Rightarrow> int \<Rightarrow> kernel_decision" where
  "rejectedDecision reason actorID validatedAt =
     \<lparr>kd_Accepted = False, kd_Reason = reason,
      kd_Corrections = [\<lparr>cs_Code = ''kernel_reject'', cs_Message = reason,
                         cs_TargetActorID = actorID, cs_CreatedAt = validatedAt\<rparr>],
      kd_ValidatedAt = validatedAt, kd_CommitAllowed = False\<rparr>"

definition acceptedDecision :: "int \<Rightarrow> kernel_decision" where
  "acceptedDecision now =
     \<lparr>kd_Accepted = True, kd_Reason = ''validated'', kd_Corrections = [],
      kd_ValidatedAt = now, kd_CommitAllowed = True\<rparr>"

definition requiresTarget :: "string \<Rightarrow> bool" where
  "requiresTarget action \<longleftrightarrow>
     action \<in> {ActionWriteCode, ActionRunTest, ActionPingPeer, ActionUpdateTask,
               ActionRequestReview, ActionPublishArtifact, ActionHandoffShift}"

definition ValidateObservation ::
  "int \<Rightarrow> agency_constitution \<Rightarrow> observation_snapshot \<Rightarrow> kernel_decision" where
  "ValidateObservation now constitution observation =
     (let actor = os_Actor observation;
          reject = (\<lambda>reason. rejectedDecision reason (ai_ID actor) now)
      in if os_OrganizationID observation = [] then reject ''observation organization is required''
         else if ai_ID actor = [] then reject ''observation actor is required''
         else if ai_OrganizationID actor = [] \<or>
                 ai_OrganizationID actor \<noteq> os_OrganizationID observation
         then reject ''observation organization mismatch''
         else if os_CurrentTime observation = None
         then reject ''observation current time is required''
         else case map_of (ac_Roles constitution) (ai_Role actor) of
           None \<Rightarrow> reject ''unknown role''
         | Some role \<Rightarrow>
             let scope = map_get_or [] (os_Metadata observation) ''scope''
             in if rs_ObservationScopes role \<noteq> [] \<and> os_Metadata observation \<noteq> [] \<and>
                   scope \<noteq> [] \<and> scope \<notin> set (rs_ObservationScopes role)
                then reject ''observation scope not allowed for role''
                else if list_ex (\<lambda>signal. ws_OrganizationID signal \<noteq> [] \<and>
                          ws_OrganizationID signal \<noteq> os_OrganizationID observation)
                          (os_RecentSignals observation)
                then reject ''observation signal organization mismatch''
                else acceptedDecision now)"

definition ValidateAction ::
  "int \<Rightarrow> agency_constitution \<Rightarrow> agent_identity \<Rightarrow> action_proposal \<Rightarrow> kernel_decision" where
  "ValidateAction now constitution actor proposal =
     (let reject = (\<lambda>reason. rejectedDecision reason (ai_ID actor) now)
      in if ap_ActorID proposal = [] \<or> ai_ID actor = [] \<or> ap_ActorID proposal \<noteq> ai_ID actor
         then reject ''actor identity mismatch''
         else if ap_OrganizationID proposal = [] \<or> ai_OrganizationID actor = [] \<or>
                 ap_OrganizationID proposal \<noteq> ai_OrganizationID actor
         then reject ''organization mismatch''
         else if ap_Type proposal = [] then reject ''action type is required''
         else case map_of (ac_Roles constitution) (ai_Role actor) of
           None \<Rightarrow> reject ''unknown role''
         | Some role \<Rightarrow>
             if rs_AllowedActions role \<noteq> [] \<and> ap_Type proposal \<notin> set (rs_AllowedActions role)
             then reject ''action not allowed for role''
             else if ap_Type proposal = ActionSpawnAgent \<and> \<not> rs_CanSpawnAgents role
             then reject ''role cannot spawn agents''
             else if requiresTarget (ap_Type proposal) \<and> ap_Target proposal = []
             then reject ''target is required''
             else acceptedDecision now)"

section \<open>The policy the kernel enforces\<close>

text \<open>
  The constitution read as a policy: what a role may do, said without the order of the
  checks and without their messages.
\<close>

definition role_permits :: "role_spec \<Rightarrow> action_proposal \<Rightarrow> bool" where
  "role_permits role proposal \<longleftrightarrow>
     (rs_AllowedActions role = [] \<or> ap_Type proposal \<in> set (rs_AllowedActions role)) \<and>
     (ap_Type proposal = ActionSpawnAgent \<longrightarrow> rs_CanSpawnAgents role) \<and>
     (requiresTarget (ap_Type proposal) \<longrightarrow> ap_Target proposal \<noteq> [])"

definition action_policy ::
  "agency_constitution \<Rightarrow> agent_identity \<Rightarrow> action_proposal \<Rightarrow> bool" where
  "action_policy constitution actor proposal \<longleftrightarrow>
     ai_ID actor \<noteq> [] \<and> ap_ActorID proposal = ai_ID actor \<and>
     ai_OrganizationID actor \<noteq> [] \<and> ap_OrganizationID proposal = ai_OrganizationID actor \<and>
     ap_Type proposal \<noteq> [] \<and>
     (\<exists>role. map_of (ac_Roles constitution) (ai_Role actor) = Some role \<and>
             role_permits role proposal)"

definition observation_policy :: "agency_constitution \<Rightarrow> observation_snapshot \<Rightarrow> bool" where
  "observation_policy constitution observation \<longleftrightarrow>
     os_OrganizationID observation \<noteq> [] \<and> ai_ID (os_Actor observation) \<noteq> [] \<and>
     ai_OrganizationID (os_Actor observation) = os_OrganizationID observation \<and>
     os_CurrentTime observation \<noteq> None \<and>
     set (map ws_OrganizationID (os_RecentSignals observation))
       \<subseteq> {[], os_OrganizationID observation} \<and>
     (\<exists>role. map_of (ac_Roles constitution) (ai_Role (os_Actor observation)) = Some role \<and>
        (rs_ObservationScopes role = [] \<or>
         map_get_or [] (os_Metadata observation) ''scope'' \<in> insert [] (set (rs_ObservationScopes role))))"

lemma decision_simps [simp]:
  "kd_Accepted (rejectedDecision r a t) = False"
  "kd_CommitAllowed (rejectedDecision r a t) = False"
  "kd_Accepted (acceptedDecision t) = True"
  "kd_CommitAllowed (acceptedDecision t) = True"
  "rejectedDecision r a t \<noteq> acceptedDecision t'"
  "acceptedDecision t' \<noteq> rejectedDecision r a t"
  by (simp_all add: rejectedDecision_def acceptedDecision_def)

lemma ValidateAction_accepts:
  "ValidateAction now constitution actor proposal = acceptedDecision now \<longleftrightarrow>
   action_policy constitution actor proposal"
  by (auto simp: ValidateAction_def action_policy_def role_permits_def Let_def
      split: option.split if_split simp del: ActionSpawnAgent_def)

text \<open>A decision is an acceptance, or a rejection that names its reason.\<close>

definition decided :: "int \<Rightarrow> string \<Rightarrow> kernel_decision \<Rightarrow> bool" where
  "decided now actorID d \<longleftrightarrow> d = acceptedDecision now \<or>
     (\<exists>reason. reason \<noteq> [] \<and> d = rejectedDecision reason actorID now)"

lemma decided_intros:
  "decided now a (acceptedDecision now)"
  "decided now a (rejectedDecision (c # cs) a now)"
  "decided now a d \<Longrightarrow> decided now a d' \<Longrightarrow> decided now a (if b then d else d')"
  "decided now a d \<Longrightarrow> (\<And>r. decided now a (f r)) \<Longrightarrow>
     decided now a (case x of None \<Rightarrow> d | Some r \<Rightarrow> f r)"
  by (auto simp: decided_def split: option.split)

lemma ValidateAction_shape: "decided now (ai_ID actor) (ValidateAction now constitution actor proposal)"
  unfolding ValidateAction_def Let_def by (intro decided_intros)

lemma ValidateObservation_accepts:
  "ValidateObservation now constitution observation = acceptedDecision now \<longleftrightarrow>
   observation_policy constitution observation"
  by (auto simp: ValidateObservation_def observation_policy_def Let_def list_ex_iff
      split: option.split if_split)

lemma ValidateObservation_shape:
  "decided now (ai_ID (os_Actor observation)) (ValidateObservation now constitution observation)"
  unfolding ValidateObservation_def Let_def by (intro decided_intros)

end
