(* ===== verification/Ledger_Properties.thy ===== *)
theory Ledger_Properties
  imports Ledger_Invariants Kernel
begin

text \<open>
  The properties of the kernel and the ledger, and the concrete runs that show that their
  hypotheses can hold. \<open>quiet\<close> is the environment of a call in which nothing fails.
\<close>

definition quiet :: env where
  "quiet = \<lparr>ev_now = 1000, ev_now_snapshot = 1000, ev_now_append = 1000, ev_uuid = ''u1'',
     ev_uuid_append = ''u2'', ev_read_entries = True, ev_open_append = True, ev_marshal = True,
     ev_write = WriteAll, ev_read_pending = True, ev_marshal_pending = True,
     ev_rewrite = RewriteAll\<rparr>"

definition fixed_codec :: "nat \<Rightarrow> codec" where
  "fixed_codec n = \<lparr>json_len = (\<lambda>e. n), entry_hash = (\<lambda>e. ''hash'')\<rparr>"

lemma fixed_codec_simps [simp]:
  "json_len (fixed_codec n) e = n" "entry_hash (fixed_codec n) e = ''hash''"
  by (simp_all add: fixed_codec_def)

lemma quiet_simps [simp]:
  "ev_now quiet = 1000" "ev_now_snapshot quiet = 1000" "ev_now_append quiet = 1000"
  "ev_uuid quiet = ''u1''" "ev_uuid_append quiet = ''u2''" "ev_read_entries quiet"
  "ev_open_append quiet" "ev_marshal quiet" "ev_write quiet = WriteAll" "ev_read_pending quiet"
  "ev_marshal_pending quiet" "ev_rewrite quiet = RewriteAll"
  by (simp_all add: quiet_def)

lemma short_entries: "json_len (fixed_codec 100) x < max_token"
  by (simp add: max_token_def)

text \<open>A call that appends to a file without a tail, in full.\<close>

lemma append_fault_free:
  assumes "ld_entries d = Some f" "ef_tail f = NoTail" "file_scan cx f = Ok es"
    and "ev_read_entries ev" "ev_open_append ev" "ev_marshal ev" "ev_write ev = WriteAll"
  shows "appendLocked cx ev n e d =
      (Ok (commit_cert cx (fill_entry ev n e)),
       d\<lparr>ld_entries := Some \<lparr>ef_lines = ef_lines f @ [EntryLine (sealed_entry cx ev n e)],
                              ef_tail = NoTail\<rparr>\<rparr>)"
    and "Append cx ev e d = appendLocked cx ev (int (length es) + 1) e d"
  using assms
  by (simp_all add: appendLocked_def Append_def replayLocked_def file_scan_def write_all Let_def)

text \<open>
  Runs without failures on entries that fit a line: the file stays without a tail, and every
  call succeeds.
\<close>

definition clean :: "codec \<Rightarrow> ledger_disk \<Rightarrow> ledger_entry list \<Rightarrow> bool" where
  "clean cx d es \<longleftrightarrow> (\<exists>f. ld_entries d = Some f \<and> ef_tail f = NoTail \<and> file_scan cx f = Ok es)"

lemma clean_new: "clean cx new_ledger_disk []"
  by (simp add: clean_def new_ledger_disk_def file_scan_def)

text \<open>No file operation of the call fails; clock and identifiers are whatever they are.\<close>

definition fault_free :: "env \<Rightarrow> bool" where
  "fault_free ev \<longleftrightarrow> ev_read_entries ev \<and> ev_open_append ev \<and> ev_marshal ev \<and>
     ev_write ev = WriteAll \<and> ev_read_pending ev \<and> ev_marshal_pending ev \<and> ev_rewrite ev = RewriteAll"

lemma quiet_fault_free [simp]: "fault_free quiet"
  by (simp add: fault_free_def)

lemma clean_replayLocked: "clean cx d es \<Longrightarrow> fault_free ev \<Longrightarrow> replayLocked cx ev d = Ok es"
  by (auto simp: clean_def fault_free_def replayLocked_Ok)

lemma clean_replay: "clean cx d es \<Longrightarrow> fault_free ev \<Longrightarrow> Replay cx ev d = Ok es"
  by (simp add: Replay_def clean_replayLocked)

text \<open>The append itself always succeeds; only a short entry leaves the file readable.\<close>

lemma clean_append:
  assumes "clean cx d es" and "fault_free ev"
  shows "Append cx ev e d = (Ok (commit_cert cx (fill_entry ev (int (length es) + 1) e)),
      snd (Append cx ev e d))"
    and "json_len cx (sealed_entry cx ev (int (length es) + 1) e) < max_token \<Longrightarrow>
      clean cx (snd (Append cx ev e d)) (es @ [sealed_entry cx ev (int (length es) + 1) e])"
    and "ld_pending (snd (Append cx ev e d)) = ld_pending d"
proof -
  obtain f where f: "ld_entries d = Some f" "ef_tail f = NoTail" "file_scan cx f = Ok es"
    using assms(1) by (auto simp: clean_def)
  have ev: "ev_read_entries ev" "ev_open_append ev" "ev_marshal ev" "ev_write ev = WriteAll"
    using assms(2) by (simp_all add: fault_free_def)
  note run = append_fault_free [OF f ev]
  show "Append cx ev e d = (Ok (commit_cert cx (fill_entry ev (int (length es) + 1) e)),
      snd (Append cx ev e d))"
    "ld_pending (snd (Append cx ev e d)) = ld_pending d"
    unfolding run by simp_all
  show "clean cx (snd (Append cx ev e d)) (es @ [sealed_entry cx ev (int (length es) + 1) e])"
    if "json_len cx (sealed_entry cx ev (int (length es) + 1) e) < max_token"
    unfolding run using f that by (auto simp: clean_def file_scan_eq file_entries_def)
qed

lemma clean_snapshot:
  "clean cx d es \<Longrightarrow> fault_free ev \<Longrightarrow> \<exists>s. LatestSnapshot cx ev org d = Ok s"
  by (simp add: clean_replayLocked LatestSnapshot_def Let_def)

lemma clean_finalize:
  assumes "clean cx d es" and "fault_free ev"
    and "readPendingLocked ev d = Ok pending"
    and "split_pending i pending = Some (pre, entry, post)"
    and "qs_Finalizable (buildQuorumState entry)" and "\<not> qs_Rejected (buildQuorumState entry)"
  shows "\<exists>c. Finalize cx ev i d = (Ok c, snd (Finalize cx ev i d))"
    and "let x = sealed_entry cx ev (int (length es) + 1)
         (finalized_entry ev (entry\<lparr>le_Quorum := Some (buildQuorumState entry)\<rparr>)) in
       json_len cx x < max_token \<longrightarrow> clean cx (snd (Finalize cx ev i d)) (es @ [x])"
    and "\<exists>f. ld_entries (snd (Finalize cx ev i d)) = Some f \<and>
       EntryLine (sealed_entry cx ev (int (length es) + 1)
         (finalized_entry ev (entry\<lparr>le_Quorum := Some (buildQuorumState entry)\<rparr>))) \<in> set (ef_lines f)"
proof -
  let ?x = "finalized_entry ev (entry\<lparr>le_Quorum := Some (buildQuorumState entry)\<rparr>)"
  obtain f where f: "ld_entries d = Some f" "ef_tail f = NoTail" "file_scan cx f = Ok es"
    using assms(1) by (auto simp: clean_def)
  have ev: "ev_read_entries ev" "ev_open_append ev" "ev_marshal ev" "ev_write ev = WriteAll"
      "ev_marshal_pending ev" "ev_rewrite ev = RewriteAll"
    using assms(2) by (simp_all add: fault_free_def)
  have run: "Finalize cx ev i d =
      (Ok (commit_cert cx (fill_entry ev (int (length es) + 1) ?x)),
       d\<lparr>ld_entries := Some \<lparr>ef_lines = ef_lines f @
            [EntryLine (sealed_entry cx ev (int (length es) + 1) ?x)], ef_tail = NoTail\<rparr>,
         ld_pending := Some (PendingEntries (pre @ post))\<rparr>)"
    using append_fault_free(1) [OF f ev(1-4), of "int (length es) + 1" ?x] f assms(3-6) ev
    by (simp add: Finalize_def Let_def finalizePendingEntryLocked_def replayLocked_def file_scan_def
        drop_pending_def writePendingLocked_def)
  show "\<exists>c. Finalize cx ev i d = (Ok c, snd (Finalize cx ev i d))"
    unfolding run by simp
  show "\<exists>f. ld_entries (snd (Finalize cx ev i d)) = Some f \<and>
      EntryLine (sealed_entry cx ev (int (length es) + 1) ?x) \<in> set (ef_lines f)"
    unfolding run by simp
  show "let x = sealed_entry cx ev (int (length es) + 1) ?x in
      json_len cx x < max_token \<longrightarrow> clean cx (snd (Finalize cx ev i d)) (es @ [x])"
    unfolding run using f by (auto simp: clean_def file_scan_eq file_entries_def Let_def)
qed

section \<open>The kernel\<close>

text \<open>
  Property C21. The kernel accepts an action exactly when the constitution's policy allows
  it: the actor proposes in its own name and organization, its role exists and permits the
  action type, spawning needs the spawning right, and an action that needs a target has one.
  Otherwise the decision forbids the commit, names a reason, and carries one correction
  addressed to the actor.
\<close>

theorem kernel_enforces_policy:
  "(if action_policy constitution actor proposal
    then ValidateAction now constitution actor proposal = acceptedDecision now
    else \<exists>reason. reason \<noteq> [] \<and>
      ValidateAction now constitution actor proposal = rejectedDecision reason (ai_ID actor) now) \<and>
   (if observation_policy constitution observation
    then ValidateObservation now constitution observation = acceptedDecision now
    else \<exists>reason. reason \<noteq> [] \<and> ValidateObservation now constitution observation =
      rejectedDecision reason (ai_ID (os_Actor observation)) now)"
  using ValidateAction_accepts [of now constitution actor proposal]
    ValidateAction_shape [of now actor constitution proposal]
    ValidateObservation_accepts [of now constitution observation]
    ValidateObservation_shape [of now observation constitution]
  unfolding decided_def by (simp split: if_split) blast

section \<open>History\<close>

text \<open>
  Property C3. Whatever operations run, in whatever order and with whatever file system
  failures, the ledger only grows: if the entries can be replayed later, they could be
  replayed earlier, the earlier entries are a prefix of the later ones, and the entries are
  numbered 1, 2, 3 and so on.
\<close>

theorem ledger_only_grows:
  assumes "ledger_reach cx d" and "(ledger_step cx)\<^sup>*\<^sup>* d d'" and "Replay cx ev d' = Ok es'"
  shows "\<exists>es. Replay cx ev d = Ok es \<and> prefix es es' \<and>
    map le_Sequence es' = map int [1..<Suc (length es')]"
proof -
  have start: "grows_to cx new_ledger_disk d \<and> ld_entries d \<noteq> None"
    using assms(1)
  proof (induction rule: reach.induct)
    case (reach_init s)
    then show ?case by (simp add: grows_to_refl new_ledger_disk_def)
  next
    case (reach_step s t)
    then show ?case
      using ledger_step_keeps_file grows_to_step unfolding grows_to_def
      by (meson prefix_order.trans)
  qed
  have "ledger_numbered d'"
    using assms(1,2) numbering.reachable_inv numbering.steps_inv by blast
  moreover have later: "entries_readable cx d' es'" and ok: "ev_read_entries ev"
    using assms(3) by (auto simp: entries_readable_replay Replay_def replayLocked_Ok)
  ultimately have "numbered es'"
    by (auto simp: ledger_numbered_def entries_readable_def file_scan_eq)
  moreover from later start grows_to_steps [OF assms(2)]
  obtain es where "entries_readable cx d es" "prefix es es'"
    unfolding grows_to_def by auto
  ultimately show ?thesis using ok entries_readable_replay(1) unfolding numbered_def by blast
qed

text \<open>The run of the witness: one appended entry.\<close>

definition one_entry_disk :: ledger_disk where
  "one_entry_disk = snd (Append (fixed_codec 100) quiet
     (zero_ledger_entry\<lparr>le_ID := ''e1'', le_OrganizationID := ''org''\<rparr>) new_ledger_disk)"

lemma one_entry_step: "ledger_step (fixed_codec 100) new_ledger_disk one_entry_disk"
  unfolding one_entry_disk_def by (rule step_Append) (rule prod.collapse [symmetric])

lemma one_entry_replay:
  "Replay (fixed_codec 100) quiet one_entry_disk =
     Ok [sealed_entry (fixed_codec 100) quiet 1
           (zero_ledger_entry\<lparr>le_ID := ''e1'', le_OrganizationID := ''org''\<rparr>)]"
  using clean_replay [OF clean_append(2) [OF clean_new quiet_fault_free short_entries] quiet_fault_free]
  by (simp add: one_entry_disk_def)

theorem ledger_only_grows_witness:
  "\<exists>es. Replay (fixed_codec 100) quiet new_ledger_disk = Ok es \<and>
     prefix es [sealed_entry (fixed_codec 100) quiet 1
       (zero_ledger_entry\<lparr>le_ID := ''e1'', le_OrganizationID := ''org''\<rparr>)]"
  using ledger_only_grows [OF _ _ one_entry_replay, where d = new_ledger_disk]
    one_entry_step r_into_rtranclp [of "ledger_step (fixed_codec 100)"]
  by (blast intro: reach_init)

section \<open>An entry that no replay gets past\<close>

text \<open>
  \<open>Append\<close> accepts an entry of any length, but \<open>bufio.Scanner\<close> does not read a
  line of 65536 bytes or more. Once \<open>Append\<close> has committed an entry whose JSON text is that
  long, every later replay, append and snapshot fails, whatever is done to the ledger.
\<close>

theorem long_entry_stops_the_ledger:
  assumes "Replay cx ev d = Ok es" and "Append cx ev e d = (Ok c, d1)"
    and "max_token \<le> json_len cx (sealed_entry cx ev (int (length es) + 1) e)"
    and "(ledger_step cx)\<^sup>*\<^sup>* d1 d2"
  shows "(\<exists>m. Replay cx ev' d2 = Err m) \<and> (\<exists>m. Append cx ev' e' d2 = (Err m, d2)) \<and>
    (\<exists>m. LatestSnapshot cx ev' org d2 = Err m)"
proof -
  let ?x = "sealed_entry cx ev (int (length es) + 1) e"
  have "replayLocked cx ev d = Ok es" using assms(1) by (simp add: Replay_def)
  then have app: "appendLocked cx ev (int (length es) + 1) e d = (Ok c, d1)"
    using assms(2) by (simp add: Append_def)
  from appendLocked_Ok [OF app] obtain f f' where "ld_entries d = Some f"
    "write_entry cx WriteAll ?x f = (Ok (), f')" "d1 = d\<lparr>ld_entries := Some f'\<rparr>"
    by blast
  then have "unreadable cx d1"
    using assms(3) by (auto simp: unreadable_def write_entry_def file_scan_eq Let_def)
  then have "unreadable cx d2" using unreadability.steps_inv assms(4) by blast
  then show ?thesis using unreadable_operations by blast
qed

theorem long_entry_stops_the_ledger_witness:
  "\<exists>d1. fst (Append (fixed_codec 70000) quiet zero_ledger_entry new_ledger_disk) =
       Ok (commit_cert (fixed_codec 70000) (fill_entry quiet 1 zero_ledger_entry)) \<and>
     (\<exists>m. Replay (fixed_codec 70000) quiet d1 = Err m) \<and>
     (\<exists>m. Append (fixed_codec 70000) quiet zero_ledger_entry d1 = (Err m, d1))"
proof -
  let ?cx = "fixed_codec 70000" and ?f = "\<lparr>ef_lines = [], ef_tail = NoTail\<rparr>"
  have f: "ld_entries new_ledger_disk = Some ?f" "file_scan ?cx ?f = Ok []"
    by (simp_all add: new_ledger_disk_def file_scan_def)
  have r: "Replay ?cx quiet new_ledger_disk = Ok []"
    using f by (simp add: Replay_def replayLocked_def file_scan_def)
  obtain d1 where a: "Append ?cx quiet zero_ledger_entry new_ledger_disk =
      (Ok (commit_cert ?cx (fill_entry quiet 1 zero_ledger_entry)), d1)"
    using append_fault_free [OF f(1) _ f(2), of quiet] by simp
  show ?thesis
    using long_entry_stops_the_ledger [OF r a _ rtranclp.rtrancl_refl, of quiet zero_ledger_entry] a
    unfolding max_token_def by (intro exI [of _ d1]) simp
qed

section \<open>The quorum\<close>

text \<open>
  Property C2. Where entries come only through proposals, and no proposal already carries
  two votes of one voter, every entry that any run commits is finalized, no voter was
  counted twice for it, and as many different voters approved it as its consensus requires.
  The condition on the votes a proposal carries is needed, since \<open>Propose\<close> keeps them
  unchecked: \<open>prefilled_votes_commit\<close>.
\<close>

theorem committed_entries_have_quorum:
  assumes "consensus_reach cx d" and "Replay cx ev d = Ok es" and "e \<in> set es"
  shows "le_Status e = LedgerEntryStatusFinalized \<and> distinct (map cv_VoterID (le_Votes e)) \<and>
    (case le_Consensus e of None \<Rightarrow> True
     | Some c \<Rightarrow> cr_RequiredApprovals c \<le>
         int (card {cv_VoterID v |v. v \<in> set (le_Votes e) \<and> cv_Approved v}))"
proof -
  have "consensus_inv d" using committed_quorum.reachable_inv assms(1) by blast
  moreover obtain f where "ld_entries d = Some f" "file_scan cx f = Ok es"
    using assms(2) by (auto simp: Replay_def replayLocked_Ok)
  ultimately have "list_all quorum_backed es" by (auto simp: consensus_inv_def file_scan_eq)
  with assms(3) show ?thesis
    unfolding list_all_iff quorum_backed_def one_vote_each_def approvers_def by blast
qed

text \<open>The run of the witness: a proposal that two voters must approve, and their votes.\<close>

definition two_of_two_req :: consensus_requirement where
  "two_of_two_req =
     \<lparr>cr_Strategy = ConsensusStrategyQuorum, cr_QuorumKey = ''k'', cr_RequiredApprovals = 2,
      cr_EligibleVoters = [''lead'', ''reviewer''], cr_AutoFinalize = False\<rparr>"

definition two_of_two :: ledger_entry where
  "two_of_two = zero_ledger_entry\<lparr>le_ID := ''p1'', le_Consensus := Some two_of_two_req\<rparr>"

definition vote_by :: "string \<Rightarrow> bool \<Rightarrow> consensus_vote" where
  "vote_by voter yes = zero_consensus_vote\<lparr>cv_VoterID := voter, cv_Approved := yes\<rparr>"

definition proposed_disk :: ledger_disk where
  "proposed_disk = snd (Propose quiet two_of_two new_ledger_disk)"

definition voted_disk :: ledger_disk where
  "voted_disk = snd (Vote (fixed_codec 100) quiet ''p1'' (vote_by ''reviewer'' True)
     (snd (Vote (fixed_codec 100) quiet ''p1'' (vote_by ''lead'' True) proposed_disk)))"

definition finalized_disk :: ledger_disk where
  "finalized_disk = snd (Finalize (fixed_codec 100) quiet ''p1'' voted_disk)"

lemma snd_step:
  "consensus_reach cx d \<Longrightarrow> consensus_reach cx (snd (Vote cx ev i v d))"
  "consensus_reach cx d \<Longrightarrow> consensus_reach cx (snd (Finalize cx ev i d))"
  "consensus_reach cx d \<Longrightarrow> one_vote_each e \<Longrightarrow> consensus_reach cx (snd (Propose ev e d))"
  by (metis reach_step cs_Vote prod.collapse, metis reach_step cs_Finalize prod.collapse,
      metis reach_step cs_Propose prod.collapse)

lemma finalized_disk_reachable: "consensus_reach (fixed_codec 100) finalized_disk"
  unfolding finalized_disk_def voted_disk_def proposed_disk_def
  by (intro snd_step reach_init refl) (simp add: one_vote_each_def two_of_two_def zero_ledger_entry_def)

text \<open>The entry that the run commits.\<close>

definition voted_entry :: ledger_entry where
  "voted_entry = (case ld_pending voted_disk of
     Some (PendingEntries [e]) \<Rightarrow> e | _ \<Rightarrow> zero_ledger_entry)"

lemma voted_entry_facts:
  "qs_Finalizable (buildQuorumState voted_entry)" "\<not> qs_Rejected (buildQuorumState voted_entry)"
  "le_Consensus voted_entry = Some two_of_two_req" "le_ID voted_entry = ''p1''"
  "ld_pending voted_disk = Some (PendingEntries [voted_entry])"
  "ld_entries voted_disk = ld_entries new_ledger_disk"
  by code_simp+

lemma voted_disk_facts:
  "readPendingLocked quiet voted_disk = Ok [voted_entry]"
  "split_pending ''p1'' [voted_entry] = Some ([], voted_entry, [])"
  "clean (fixed_codec 100) voted_disk []"
  using voted_entry_facts clean_new [of "fixed_codec 100"]
  by (simp_all add: readPendingLocked_def clean_def)

definition finalized_two_of_two :: ledger_entry where
  "finalized_two_of_two = sealed_entry (fixed_codec 100) quiet 1
     (finalized_entry quiet (voted_entry\<lparr>le_Quorum := Some (buildQuorumState voted_entry)\<rparr>))"

lemma finalized_disk_replay:
  "Replay (fixed_codec 100) quiet finalized_disk = Ok [finalized_two_of_two]"
  using clean_replay [OF clean_finalize(2) [OF voted_disk_facts(3) quiet_fault_free
        voted_disk_facts(1,2) voted_entry_facts(1,2), unfolded Let_def, rule_format, OF short_entries]
        quiet_fault_free]
  by (simp add: finalized_disk_def finalized_two_of_two_def)

lemma finalized_two_of_two_consensus: "le_Consensus finalized_two_of_two = Some two_of_two_req"
  by (simp add: finalized_two_of_two_def finalized_entry_def voted_entry_facts)

theorem committed_entries_have_quorum_witness:
  "Replay (fixed_codec 100) quiet finalized_disk = Ok [finalized_two_of_two] \<and>
   2 \<le> int (card {cv_VoterID v |v. v \<in> set (le_Votes finalized_two_of_two) \<and> cv_Approved v})"
  using committed_entries_have_quorum [OF finalized_disk_reachable finalized_disk_replay,
      of finalized_two_of_two] finalized_disk_replay
  unfolding finalized_two_of_two_consensus by (simp add: two_of_two_req_def)

text \<open>
  A vote counts whether or not its voter is eligible: on an entry that is not
  finalized automatically, a first vote of a voter whom the consensus does not allow is
  stored and counted like any other.
\<close>

theorem ineligible_votes_count:
  assumes "readPendingLocked ev d = Ok pending"
    and "split_pending i pending = Some (pre, entry, post)"
    and "le_Consensus entry = Some c" and "\<not> allowsVoter c (cv_VoterID v)"
    and "cv_VoterID v \<notin> cv_VoterID ` set (le_Votes entry)"
    and "\<not> cr_AutoFinalize c" and "ev_marshal_pending ev" and "ev_rewrite ev = RewriteAll"
  shows "\<exists>q d' entry'. Vote cx ev i v d = (Ok q, d') \<and>
    qs_Approvals q = approvalCount (le_Votes entry) + (if cv_Approved v then 1 else 0) \<and>
    qs_Rejections q = rejectionCount (le_Votes entry) + (if cv_Approved v then 0 else 1) \<and>
    ld_pending d' = Some (PendingEntries (pre @ entry' # post)) \<and>
    map cv_VoterID (le_Votes entry') = map cv_VoterID (le_Votes entry) @ [cv_VoterID v]"
proof -
  let ?a = "add_vote ev i v entry"
  have nodup: "\<not> list_ex (\<lambda>w. cv_VoterID w = cv_VoterID v) (le_Votes entry)"
    using assms(5) by (auto simp: list_ex_iff image_iff)
  have counts: "approvalCount (le_Votes ?a) = approvalCount (le_Votes entry) + (if cv_Approved v then 1 else 0)"
    "rejectionCount (le_Votes ?a) = rejectionCount (le_Votes entry) + (if cv_Approved v then 0 else 1)"
    "map cv_VoterID (le_Votes ?a) = map cv_VoterID (le_Votes entry) @ [cv_VoterID v]"
    by (simp_all add: add_vote_def approvalCount_eq rejectionCount_eq Let_def)
  have "Vote cx ev i v d = (Ok (buildQuorumState ?a), d\<lparr>ld_pending :=
      Some (PendingEntries (pre @ ?a\<lparr>le_Quorum := Some (buildQuorumState ?a)\<rparr> # post))\<rparr>)"
    using assms nodup by (simp add: Vote_def Let_def drop_pending_def writePendingLocked_def)
  with counts show ?thesis by simp
qed

text \<open>Two outsiders reach the quorum of \<open>two_of_two\<close>.\<close>

theorem ineligible_votes_count_witness:
  "\<exists>q d' entry'. Vote (fixed_codec 100) quiet ''p1'' (vote_by ''mallory'' True) proposed_disk = (Ok q, d') \<and>
    qs_Approvals q = 1 \<and> qs_Rejections q = 0 \<and>
    ld_pending d' = Some (PendingEntries [entry']) \<and>
    map cv_VoterID (le_Votes entry') = [''mallory'']"
proof -
  have 1: "readPendingLocked quiet proposed_disk = Ok [proposed_entry quiet two_of_two]"
    "split_pending ''p1'' [proposed_entry quiet two_of_two] =
       Some ([], proposed_entry quiet two_of_two, [])"
    by code_simp+
  have 2: "le_Consensus (proposed_entry quiet two_of_two) = Some two_of_two_req"
    "le_Votes (proposed_entry quiet two_of_two) = []"
    by code_simp+
  show ?thesis
    using ineligible_votes_count [OF 1 2(1), of "vote_by ''mallory'' True"] 2
    by (simp add: allowsVoter_def two_of_two_req_def vote_by_def zero_consensus_vote_def approvalCount_def
        rejectionCount_def)
qed

definition outsider_entry :: ledger_entry where
  "outsider_entry = two_of_two\<lparr>le_Votes := [vote_by ''mallory'' True, vote_by ''trudy'' True]\<rparr>"

lemma outsiders_reach_quorum:
  "qs_Finalizable (buildQuorumState outsider_entry)" "\<not> qs_Rejected (buildQuorumState outsider_entry)"
  "\<not> allowsVoter two_of_two_req ''mallory''" "\<not> allowsVoter two_of_two_req ''trudy''"
  by code_simp+

lemma split_pending_last:
  "i \<notin> le_ID ` set xs \<Longrightarrow> le_ID e = i \<Longrightarrow> split_pending i (xs @ [e]) = Some (xs, e, [])"
  by (induction xs) auto

lemma proposed_entry_fields [simp]:
  "le_ID entry \<noteq> [] \<Longrightarrow> le_ID (proposed_entry ev entry) = le_ID entry"
  "le_Consensus (proposed_entry ev entry) = le_Consensus entry"
  by (simp_all add: proposed_entry_def Let_def split: option.split)

text \<open>
  Property C34. The votes that a proposal carries count unchecked: when its approvals, of
  whatever voters and however often each, are as many as its consensus requires, then the
  proposal followed by \<open>Finalize\<close> commits it with these votes, although \<open>Vote\<close> was never
  called. The calls are those in which no file operation fails, on a readable ledger and a
  list of pending entries without the identifier.
\<close>

theorem prefilled_votes_commit:
  assumes "clean cx d es" and "fault_free ev" and "fault_free ev'"
    and "readPendingLocked ev d = Ok pending"
    and "le_ID entry \<noteq> []" and "le_ID entry \<notin> le_ID ` set pending"
    and "le_Consensus entry = Some c" and "cr_RequiredApprovals c \<le> approvalCount (le_Votes entry)"
    and "Propose ev entry d = (r, d1)" and "Finalize cx ev' (le_ID entry) d1 = (r', d2)"
  shows "\<exists>cert x f. r' = Ok cert \<and> le_Votes x = le_Votes entry \<and> le_Status x = LedgerEntryStatusFinalized \<and>
    ld_entries d2 = Some f \<and> EntryLine x \<in> set (ef_lines f) \<and>
    (json_len cx x < max_token \<longrightarrow> Replay cx ev' d2 = Ok (es @ [x]))"
proof -
  let ?p = "proposed_entry ev entry"
  let ?x = "sealed_entry cx ev' (int (length es) + 1)
    (finalized_entry ev' (?p\<lparr>le_Quorum := Some (buildQuorumState ?p)\<rparr>))"
  have ev: "ev_marshal_pending ev" "ev_rewrite ev = RewriteAll" "ev_read_pending ev'"
    using assms(2,3) by (simp_all add: fault_free_def)
  have d1: "d1 = d\<lparr>ld_pending := Some (PendingEntries (pending @ [?p]))\<rparr>"
    using assms(4,9) ev by (simp add: Propose_def writePendingLocked_def Let_def)
  have clean: "clean cx d1 es" using assms(1) by (simp add: clean_def d1)
  have pending: "readPendingLocked ev' d1 = Ok (pending @ [?p])"
    using ev by (simp add: readPendingLocked_def d1)
  have split: "split_pending (le_ID entry) (pending @ [?p]) = Some (pending, ?p, [])"
    using assms(5,6) by (intro split_pending_last) simp_all
  have req: "required_approvals ?p \<le> approvalCount (le_Votes ?p)"
    using assms(7,8) by (simp add: required_approvals_def)
  then have tally: "qs_Finalizable (buildQuorumState ?p)" "\<not> qs_Rejected (buildQuorumState ?p)"
    by (auto simp: buildQuorumState_Finalizable dest: rejected_not_approved)
  note fin = clean_finalize [OF clean assms(3) pending split tally, unfolded assms(10) snd_conv]
  obtain cert where "r' = Ok cert" using fin(1) by auto
  moreover obtain f where "ld_entries d2 = Some f" "EntryLine ?x \<in> set (ef_lines f)"
    using fin(3) by blast
  moreover have "Replay cx ev' d2 = Ok (es @ [?x])" if "json_len cx ?x < max_token"
    using clean_replay [OF _ assms(3)] fin(2) that by (simp add: Let_def)
  moreover have "le_Votes ?x = le_Votes entry" by (simp add: finalized_entry_def)
  moreover have "le_Status ?x = LedgerEntryStatusFinalized"
    by (subst sealed_status) (simp_all add: finalized_entry_def)
  ultimately show ?thesis by blast
qed

text \<open>A proposal that carries two approvals of one voter, where two approvals are required.\<close>

definition ballot_stuffed :: ledger_entry where
  "ballot_stuffed = two_of_two\<lparr>le_Votes := [vote_by ''mallory'' True, vote_by ''mallory'' True]\<rparr>"

theorem prefilled_votes_commit_witness:
  "\<exists>cert x d2. Finalize (fixed_codec 100) quiet ''p1'' (snd (Propose quiet ballot_stuffed new_ledger_disk)) = (Ok cert, d2) \<and>
     Replay (fixed_codec 100) quiet d2 = Ok [x] \<and> map cv_VoterID (le_Votes x) = [''mallory'', ''mallory'']"
proof -
  obtain r d1 where propose: "Propose quiet ballot_stuffed new_ledger_disk = (r, d1)" by fastforce
  obtain r' d2 where finalize: "Finalize (fixed_codec 100) quiet (le_ID ballot_stuffed) d1 = (r', d2)" by fastforce
  have entry: "le_ID ballot_stuffed = ''p1''" "le_Consensus ballot_stuffed = Some two_of_two_req"
      "cr_RequiredApprovals two_of_two_req \<le> approvalCount (le_Votes ballot_stuffed)"
      "map cv_VoterID (le_Votes ballot_stuffed) = [''mallory'', ''mallory'']"
    by code_simp+
  have pending: "readPendingLocked quiet new_ledger_disk = Ok []" by code_simp
  have fresh: "le_ID ballot_stuffed \<noteq> []" "le_ID ballot_stuffed \<notin> le_ID ` set []"
    by (simp_all add: entry(1))
  from prefilled_votes_commit [OF clean_new quiet_fault_free quiet_fault_free pending fresh entry(2,3) propose finalize]
  show ?thesis using propose finalize entry by (auto simp: max_token_def)
qed

text \<open>
  Property C30. On entries with one vote per named voter, no more votes than eligible voters
  and a requirement the eligible voters can meet, the ledger's tally agrees with the
  consensus rules on approvals, rejections, missing approvals, finalizability and rejection.
\<close>

theorem ledger_tally_agrees_with_consensus:
  assumes "le_Consensus e = Some req"
    and "distinct (map cv_VoterID (le_Votes e))" and "[] \<notin> cv_VoterID ` set (le_Votes e)"
    and "length (le_Votes e) \<le> length (cr_EligibleVoters req)"
    and "cr_RequiredApprovals req \<le> int (length (cr_EligibleVoters req))"
  shows "(let p = buildQuorumState e; q = computeQuorumState req (le_Votes e) in
    qs_Approvals p = qs_Approvals q \<and> qs_Rejections p = qs_Rejections q \<and>
    qs_MissingApprovals p = qs_MissingApprovals q \<and>
    qs_Finalizable p = qs_Finalizable q \<and> qs_Rejected p = qs_Rejected q)"
proof -
  have all: "counted_votes [] (le_Votes e) = le_Votes e"
    using assms(2,3) by (intro counted_votes_all) auto
  have counts: "qs_Approvals (computeQuorumState req (le_Votes e)) = approvalCount (le_Votes e)"
    "qs_Rejections (computeQuorumState req (le_Votes e)) = rejectionCount (le_Votes e)"
    by (simp_all add: computeQuorumState_counts all approvalCount_eq rejectionCount_eq)
  have req: "required_approvals e = cr_RequiredApprovals req"
    "eligible_voters e = cr_EligibleVoters req"
    using assms(1) by (simp_all add: required_approvals_def eligible_voters_def)
  have "approvalCount (le_Votes e) + rejectionCount (le_Votes e) = int (length (le_Votes e))"
    "approvalCount (le_Votes e) \<ge> 0" "rejectionCount (le_Votes e) \<ge> 0"
    using approvals_rejections [of "le_Votes e"] by (simp_all add: approvalCount_eq rejectionCount_eq)
  then have same: "qs_Rejected (buildQuorumState e) = qs_Rejected (computeQuorumState req (le_Votes e))"
    using assms(4,5) unfolding computeQuorumState_flags buildQuorumState_Rejected req counts by (auto simp: max_def)
  show ?thesis
    using counts req same by (simp add: buildQuorumState_Finalizable computeQuorumState_flags(2,3) Let_def)
qed

theorem ledger_tally_agrees_with_consensus_witness:
  "qs_Rejected (buildQuorumState (two_of_two\<lparr>le_Votes := [vote_by ''lead'' False]\<rparr>)) =
   qs_Rejected (computeQuorumState two_of_two_req [vote_by ''lead'' False])"
  using ledger_tally_agrees_with_consensus
    [of "two_of_two\<lparr>le_Votes := [vote_by ''lead'' False]\<rparr>" two_of_two_req]
  by (simp add: two_of_two_def two_of_two_req_def vote_by_def zero_consensus_vote_def Let_def)

text \<open>
  With open voting (no eligible voters listed) the two disagree: one rejection ends the
  ledger's ballot, where the consensus rules keep it open.
\<close>

definition open_ballot :: consensus_requirement where
  "open_ballot = \<lparr>cr_Strategy = ConsensusStrategyQuorum, cr_QuorumKey = ''k'',
     cr_RequiredApprovals = 2, cr_EligibleVoters = [], cr_AutoFinalize = False\<rparr>"

lemma open_ballot_disagreement:
  "qs_Rejected (buildQuorumState (zero_ledger_entry
     \<lparr>le_Consensus := Some open_ballot, le_Votes := [vote_by ''a'' True, vote_by ''b'' False]\<rparr>))"
  "\<not> qs_Finalizable (computeQuorumState open_ballot [vote_by ''a'' True, vote_by ''b'' False])"
  by code_simp+

section \<open>Finalizing and retrying\<close>

text \<open>
  \<open>Finalize\<close> appends to one file and then rewrites another. When the second write
  fails the caller gets an error and the entry is still pending although it is committed; the
  retry, with no failure at all, commits it a second time.
\<close>

theorem finalize_retry_commits_twice:
  assumes "readPendingLocked ev d = Ok pending"
    and "split_pending i pending = Some (pre, entry, post)" and "i \<noteq> []"
    and "qs_Finalizable (buildQuorumState entry)" and "\<not> qs_Rejected (buildQuorumState entry)"
    and "ld_entries d = Some f" and "ef_tail f = NoTail" and "file_scan cx f = Ok es"
    and "\<forall>x. json_len cx x < max_token"
    and "ev_read_entries ev" and "ev_open_append ev" and "ev_marshal ev" and "ev_write ev = WriteAll"
    and "ev_marshal_pending ev" and "ev_rewrite ev = RewriteNotOpened"
  shows "\<exists>m d1 c d2 a b. Finalize cx ev i d = (Err m, d1) \<and> ld_pending d1 = ld_pending d \<and>
    Finalize cx (ev\<lparr>ev_rewrite := RewriteAll\<rparr>) i d1 = (Ok c, d2) \<and>
    entries_readable cx d2 (es @ [a, b]) \<and> le_ID a = i \<and> le_ID b = i"
proof -
  let ?q = "buildQuorumState entry"
  let ?x = "finalized_entry ev (entry\<lparr>le_Quorum := Some ?q\<rparr>)"
  let ?a = "sealed_entry cx ev (int (length es) + 1) ?x"
  let ?f1 = "\<lparr>ef_lines = ef_lines f @ [EntryLine ?a], ef_tail = NoTail\<rparr>"
  let ?d1 = "d\<lparr>ld_entries := Some ?f1\<rparr>"
  let ?ev = "ev\<lparr>ev_rewrite := RewriteAll\<rparr>"
  let ?y = "finalized_entry ?ev (entry\<lparr>le_Quorum := Some ?q\<rparr>)"
  let ?b = "sealed_entry cx ?ev (int (length (es @ [?a])) + 1) ?y"
  have id: "le_ID entry = i" using split_pending_Some assms(2) by blast
  have scan1: "file_scan cx ?f1 = Ok (es @ [?a])"
    using assms(7,8,9) by (auto simp: file_scan_eq file_entries_def)
  have fin: "\<not> qs_Rejected (buildQuorumState (entry\<lparr>le_Quorum := Some ?q\<rparr>))"
    using assms(5) by simp
  have "finalizePendingEntryLocked cx ev (entry\<lparr>le_Quorum := Some ?q\<rparr>) d =
      (Ok (commit_cert cx (fill_entry ev (int (length es) + 1) ?x)), ?d1)"
    using fin append_fault_free(1) [of d f cx es ev "int (length es) + 1" ?x] assms
    by (simp add: finalizePendingEntryLocked_def replayLocked_def file_scan_def)
  then have 1: "Finalize cx ev i d = (Err ''write pending'', ?d1)"
    using assms by (simp add: Finalize_def Let_def drop_pending_def writePendingLocked_def)
  have read1: "readPendingLocked ?ev ?d1 = Ok pending"
    using assms(1) by (auto simp: readPendingLocked_def split: option.splits)
  have "finalizePendingEntryLocked cx ?ev (entry\<lparr>le_Quorum := Some ?q\<rparr>) ?d1 =
      (Ok (commit_cert cx (fill_entry ?ev (int (length (es @ [?a])) + 1) ?y)),
       d\<lparr>ld_entries := Some \<lparr>ef_lines = ef_lines ?f1 @ [EntryLine ?b], ef_tail = NoTail\<rparr>\<rparr>)"
    using fin append_fault_free(1) [of ?d1 ?f1 cx "es @ [?a]" ?ev "int (length (es @ [?a])) + 1" ?y]
      assms scan1
    by (simp add: finalizePendingEntryLocked_def replayLocked_def file_scan_def)
  then obtain c d2 where 2: "Finalize cx ?ev i ?d1 = (Ok c, d2)"
    and d2: "ld_entries d2 = Some \<lparr>ef_lines = ef_lines ?f1 @ [EntryLine ?b], ef_tail = NoTail\<rparr>"
    using assms read1 by (simp add: Finalize_def Let_def drop_pending_def writePendingLocked_def)
  have "entries_readable cx d2 (es @ [?a, ?b])"
    using d2 scan1 assms(9) by (auto simp: entries_readable_def file_scan_eq file_entries_def)
  moreover have "le_ID ?a = i" "le_ID ?b = i"
    using id assms(3) by (simp_all add: sealed_id finalized_entry_def)
  ultimately show ?thesis using 1 2 by fastforce
qed

theorem finalize_retry_commits_twice_witness:
  "\<exists>m d1 c d2 a b.
    Finalize (fixed_codec 100) (quiet\<lparr>ev_rewrite := RewriteNotOpened\<rparr>) ''p1'' voted_disk = (Err m, d1) \<and>
    Finalize (fixed_codec 100) quiet ''p1'' d1 = (Ok c, d2) \<and>
    entries_readable (fixed_codec 100) d2 [a, b] \<and> le_ID a = ''p1'' \<and> le_ID b = ''p1''"
proof -
  let ?ev = "quiet\<lparr>ev_rewrite := RewriteNotOpened\<rparr>" and ?f = "\<lparr>ef_lines = [], ef_tail = NoTail\<rparr>"
  have "readPendingLocked ?ev voted_disk = Ok [voted_entry]"
    "ld_entries voted_disk = Some ?f" "file_scan (fixed_codec 100) ?f = Ok []"
    using voted_entry_facts(5,6)
    by (simp_all add: readPendingLocked_def new_ledger_disk_def file_scan_def)
  from finalize_retry_commits_twice [OF this(1) voted_disk_facts(2) _ voted_entry_facts(1,2)
      this(2) _ this(3)]
  have "\<exists>m d1 c d2 a b. Finalize (fixed_codec 100) ?ev ''p1'' voted_disk = (Err m, d1) \<and>
      ld_pending d1 = ld_pending voted_disk \<and>
      Finalize (fixed_codec 100) (?ev\<lparr>ev_rewrite := RewriteAll\<rparr>) ''p1'' d1 = (Ok c, d2) \<and>
      entries_readable (fixed_codec 100) d2 ([] @ [a, b]) \<and> le_ID a = ''p1'' \<and> le_ID b = ''p1''"
    by (simp add: max_token_def)
  moreover have "?ev\<lparr>ev_rewrite := RewriteAll\<rparr> = quiet" by (simp add: quiet_def)
  ultimately show ?thesis unfolding append_Nil by metis
qed

section \<open>Schedules\<close>

text \<open>
  When \<open>AppendSchedule\<close> runs by itself and succeeds, the latest snapshot of the
  organization then has the new schedule under its identifier, and every other schedule as
  it was before.
\<close>

theorem schedule_is_read_back:
  assumes "LatestSnapshot cx ev (ws_OrganizationID signal) d = Ok s"
    and "AppendSchedule cx ev ev' schedule signal d = (Ok c, d')"
    and "LatestSnapshot cx ev'' (ws_OrganizationID signal) d' = Ok s'"
  shows "find (\<lambda>x. as_ID x = as_ID schedule) (sn_OpenSchedules s') = Some schedule \<and>
    (k \<noteq> as_ID schedule \<longrightarrow>
       find (\<lambda>x. as_ID x = k) (sn_OpenSchedules s') = find (\<lambda>x. as_ID x = k) (sn_OpenSchedules s))"
proof -
  have app: "Append cx ev' (schedule_entry ev' schedule signal s) d = (Ok c, d')"
    using assms(1,2) by (simp add: AppendSchedule_def)
  have "sn_OpenSchedules s' = upsertSchedule (sn_OpenSchedules s) schedule"
    using schedules_after_schedule_entry app assms(3) by blast
  then show ?thesis
    by (simp add: schedules.find_upsert_same schedules.find_upsert_other)
qed

definition sched :: "string \<Rightarrow> agent_schedule" where
  "sched i = zero_agent_schedule\<lparr>as_ID := i, as_ActorID := ''actor''\<rparr>"

definition org_signal :: wake_signal where
  "org_signal = zero_wake_signal\<lparr>ws_ID := ''s'', ws_OrganizationID := ''org''\<rparr>"

definition snap_of :: "ledger_disk \<Rightarrow> context_snapshot" where
  "snap_of d = (case LatestSnapshot (fixed_codec 100) quiet ''org'' d of
     Ok s \<Rightarrow> s | _ \<Rightarrow> zero_context_snapshot)"

text \<open>Two callers that both read the empty ledger, then append one after the other.\<close>

definition race_first :: ledger_disk where
  "race_first = snd (Append (fixed_codec 100) quiet
     (schedule_entry quiet (sched ''a'') org_signal (snap_of new_ledger_disk)) new_ledger_disk)"

definition race_second :: ledger_disk where
  "race_second = snd (Append (fixed_codec 100) quiet
     (schedule_entry quiet (sched ''b'') org_signal (snap_of new_ledger_disk)) race_first)"

definition race_cert :: "ledger_disk \<Rightarrow> string \<Rightarrow> commit_certificate" where
  "race_cert d i = (case fst (Append (fixed_codec 100) quiet
     (schedule_entry quiet (sched i) org_signal (snap_of new_ledger_disk)) d) of
       Ok c \<Rightarrow> c | _ \<Rightarrow> zero_commit_certificate)"

lemmas race_run =
  clean_append(2) [OF clean_new quiet_fault_free short_entries]
  clean_append(2) [OF clean_append(2) [OF clean_new quiet_fault_free short_entries] quiet_fault_free short_entries]

lemma snap_of_clean:
  "clean (fixed_codec 100) d es \<Longrightarrow>
   LatestSnapshot (fixed_codec 100) quiet ''org'' d = Ok (snap_of d)"
  using clean_snapshot [of "fixed_codec 100" d es quiet "''org''"] by (auto simp: snap_of_def)

lemma race_reads:
  "LatestSnapshot (fixed_codec 100) quiet ''org'' new_ledger_disk = Ok (snap_of new_ledger_disk)"
  "LatestSnapshot (fixed_codec 100) quiet ''org'' race_first = Ok (snap_of race_first)"
  "LatestSnapshot (fixed_codec 100) quiet ''org'' race_second = Ok (snap_of race_second)"
  unfolding race_second_def race_first_def
  by (rule snap_of_clean, rule clean_new | rule snap_of_clean, rule race_run)+

lemma append_pair:
  assumes "clean (fixed_codec 100) d es"
  shows "Append (fixed_codec 100) quiet e d =
    (Ok (case fst (Append (fixed_codec 100) quiet e d) of Ok c \<Rightarrow> c | _ \<Rightarrow> zero_commit_certificate),
     snd (Append (fixed_codec 100) quiet e d))"
  using clean_append(1) [OF assms quiet_fault_free, of e]
  by (cases "Append (fixed_codec 100) quiet e d") simp

lemma race_appends:
  "Append (fixed_codec 100) quiet
     (schedule_entry quiet (sched ''a'') org_signal (snap_of new_ledger_disk)) new_ledger_disk =
   (Ok (race_cert new_ledger_disk ''a''), race_first)"
  "Append (fixed_codec 100) quiet
     (schedule_entry quiet (sched ''b'') org_signal (snap_of new_ledger_disk)) race_first =
   (Ok (race_cert race_first ''b''), race_second)"
  unfolding race_first_def race_second_def race_cert_def
  by (rule append_pair [OF clean_new], rule append_pair [OF race_run(1)])

theorem schedule_is_read_back_witness:
  "find (\<lambda>x. as_ID x = ''a'') (sn_OpenSchedules (snap_of race_first)) = Some (sched ''a'')"
proof -
  have org: "ws_OrganizationID org_signal = ''org''" "as_ID (sched ''a'') = ''a''"
    by code_simp+
  have "AppendSchedule (fixed_codec 100) quiet quiet (sched ''a'') org_signal new_ledger_disk =
      (Ok (race_cert new_ledger_disk ''a''), race_first)"
    unfolding AppendSchedule_def org race_reads outcome.case race_appends ..
  from schedule_is_read_back [OF _ this, unfolded org, OF race_reads(1,2)]
  show ?thesis by blast
qed

text \<open>
  \<open>AppendSchedule\<close> releases the lock between reading the snapshot and appending.
  When two calls for one organization both read before either appends, both report success
  and the first schedule is not in the latest snapshot.
\<close>

theorem concurrent_schedule_is_lost:
  assumes "LatestSnapshot cx ev1 org d = Ok s1" and "LatestSnapshot cx ev2 org d = Ok s2"
    and "ws_OrganizationID sig1 = org" and "ws_OrganizationID sig2 = org"
    and "as_ID first \<noteq> as_ID second" and "as_ID first \<notin> as_ID ` set (sn_OpenSchedules s2)"
    and "Append cx ev1' (schedule_entry ev1' first sig1 s1) d = (Ok c1, d1)"
    and "Append cx ev2' (schedule_entry ev2' second sig2 s2) d1 = (Ok c2, d2)"
    and "LatestSnapshot cx ev3 org d2 = Ok s3"
  shows "as_ID first \<notin> as_ID ` set (sn_OpenSchedules s3)"
proof -
  have "sn_OpenSchedules s3 = upsertSchedule (sn_OpenSchedules s2) second"
    using schedules_after_schedule_entry assms(4,8,9) by blast
  then show ?thesis using assms(5,6) by (simp add: schedules.set_upsert_key)
qed

theorem concurrent_schedule_is_lost_witness:
  "as_ID (sched ''a'') \<notin> as_ID ` set (sn_OpenSchedules (snap_of race_second))"
proof (rule concurrent_schedule_is_lost [OF race_reads(1) race_reads(1) _ _ _ _
      race_appends(1) race_appends(2) race_reads(3)])
  show "ws_OrganizationID org_signal = ''org''" "ws_OrganizationID org_signal = ''org''"
    "as_ID (sched ''a'') \<noteq> as_ID (sched ''b'')"
    "as_ID (sched ''a'') \<notin> as_ID ` set (sn_OpenSchedules (snap_of new_ledger_disk))"
    by code_simp+
qed

end
