(* ===== verification/Channels.thy ===== *)
theory Channels
  imports Prelude
begin

text \<open>
  Go channels as the buses use them: a buffered queue that is closed once, a send that gives
  up when the buffer is full (\<open>select\<close> with a \<open>default\<close>), and the panics of a send on a closed
  channel and of a second close. The channels of a component live in a list; a channel is
  its index, and making a channel appends it.
\<close>

record 'a chan =
  ch_queue :: "'a list"
  ch_cap :: nat
  ch_closed :: bool

definition make_chan :: "nat \<Rightarrow> 'a chan" where
  "make_chan n = \<lparr>ch_queue = [], ch_cap = n, ch_closed = False\<rparr>"

definition offer :: "'a \<Rightarrow> 'a chan \<Rightarrow> 'a chan" where
  "offer x c = (if length (ch_queue c) < ch_cap c then c\<lparr>ch_queue := ch_queue c @ [x]\<rparr> else c)"

definition try_send :: "'a \<Rightarrow> nat \<Rightarrow> 'a chan list \<Rightarrow> (string, 'a chan list) outcome" where
  "try_send x i cs =
     (if length cs \<le> i then Panic ''no such channel''
      else if ch_closed (cs ! i) then Panic ''send on closed channel''
      else Ok (cs[i := offer x (cs ! i)]))"

definition close_chan :: "nat \<Rightarrow> 'a chan list \<Rightarrow> (string, 'a chan list) outcome" where
  "close_chan i cs =
     (if length cs \<le> i then Panic ''no such channel''
      else if ch_closed (cs ! i) then Panic ''close of closed channel''
      else Ok (cs[i := (cs ! i)\<lparr>ch_closed := True\<rparr>]))"

text \<open>A receive that finds a value; one that finds none waits, or sees the close.\<close>

definition receive_chan :: "nat \<Rightarrow> 'a chan list \<Rightarrow> ('a \<times> 'a chan list) option" where
  "receive_chan i cs =
     (if length cs \<le> i then None
      else case ch_queue (cs ! i) of
        [] \<Rightarrow> None
      | x # xs \<Rightarrow> Some (x, cs[i := (cs ! i)\<lparr>ch_queue := xs\<rparr>]))"

fun send_all :: "'a \<Rightarrow> nat list \<Rightarrow> 'a chan list \<Rightarrow> (string, 'a chan list) outcome" where
  "send_all x [] cs = Ok cs"
| "send_all x (i # is) cs = obind (try_send x i cs) (send_all x is)"

fun close_all :: "nat list \<Rightarrow> 'a chan list \<Rightarrow> (string, 'a chan list) outcome" where
  "close_all [] cs = Ok cs"
| "close_all (i # is) cs = obind (close_chan i cs) (close_all is)"

section \<open>Registered channels\<close>

text \<open>What both buses keep of the channels registered with them: different, there, open.\<close>

definition registered :: "nat list \<Rightarrow> 'a chan list \<Rightarrow> bool" where
  "registered is cs \<longleftrightarrow>
     distinct is \<and> list_all (\<lambda>i. i < length cs \<and> \<not> ch_closed (cs ! i)) is"

text \<open>An open channel has capacity \<open>n\<close>, and no queue exceeds its capacity.\<close>

definition bounded_queues :: "nat \<Rightarrow> 'a chan list \<Rightarrow> bool" where
  "bounded_queues n cs \<longleftrightarrow>
     list_all (\<lambda>c. (ch_closed c \<or> ch_cap c = n) \<and> length (ch_queue c) \<le> ch_cap c) cs"

lemma offer_simps [simp]:
  "ch_closed (offer x c) = ch_closed c" "ch_cap (offer x c) = ch_cap c"
  by (simp_all add: offer_def)

lemma make_chan_simps [simp]:
  "ch_queue (make_chan n) = []" "ch_cap (make_chan n) = n" "\<not> ch_closed (make_chan n)"
  by (simp_all add: make_chan_def)

lemma offer_bounded:
  "length (ch_queue c) \<le> ch_cap c \<Longrightarrow> length (ch_queue (offer x c)) \<le> ch_cap c"
  by (simp add: offer_def)

lemma registered_Nil [simp]: "registered [] cs"
  by (simp add: registered_def)

lemma registered_make: "registered is cs \<Longrightarrow> registered is (cs @ [c])"
  by (auto simp: registered_def list_all_iff nth_append)

lemma registered_add:
  "registered is cs \<Longrightarrow> \<not> ch_closed c \<Longrightarrow> registered (is @ [length cs]) (cs @ [c])"
  by (auto simp: registered_def list_all_iff nth_append)

lemma registered_filter: "registered is cs \<Longrightarrow> registered (filter P is) cs"
  by (auto simp: registered_def list_all_iff)

lemma registered_mem: "registered is cs \<Longrightarrow> i \<in> set is \<Longrightarrow> i < length cs \<and> \<not> ch_closed (cs ! i)"
  by (auto simp: registered_def list_all_iff)

text \<open>The channels after sending to every index of \<open>is\<close>.\<close>

definition offered :: "'a \<Rightarrow> nat list \<Rightarrow> 'a chan list \<Rightarrow> 'a chan list" where
  "offered x is cs = map (\<lambda>i. if i \<in> set is then offer x (cs ! i) else cs ! i) [0..<length cs]"

definition shut :: "nat list \<Rightarrow> 'a chan list \<Rightarrow> 'a chan list" where
  "shut is cs =
     map (\<lambda>i. if i \<in> set is then (cs ! i)\<lparr>ch_closed := True\<rparr> else cs ! i) [0..<length cs]"

lemma offered_length [simp]: "length (offered x is cs) = length cs"
  by (simp add: offered_def)

lemma shut_length [simp]: "length (shut is cs) = length cs"
  by (simp add: shut_def)

lemma offered_nth [simp]:
  "i < length cs \<Longrightarrow> offered x is cs ! i = (if i \<in> set is then offer x (cs ! i) else cs ! i)"
  by (simp add: offered_def)

lemma shut_nth [simp]:
  "i < length cs \<Longrightarrow>
   shut is cs ! i = (if i \<in> set is then (cs ! i)\<lparr>ch_closed := True\<rparr> else cs ! i)"
  by (simp add: shut_def)

text \<open>Sending to, and closing, registered channels never panics; this is the result.\<close>

lemma send_all_registered:
  "registered is cs \<Longrightarrow> send_all x is cs = Ok (offered x is cs)"
proof (induction "is" arbitrary: cs)
  case Nil
  show ?case by (simp add: offered_def map_nth)
next
  case (Cons i js)
  let ?cs = "cs[i := offer x (cs ! i)]"
  have i: "i < length cs" "\<not> ch_closed (cs ! i)" "i \<notin> set js"
    using Cons.prems by (auto simp: registered_def)
  have "registered js ?cs"
    using Cons.prems i by (auto simp: registered_def list_all_iff nth_list_update)
  from Cons.IH [OF this] have "send_all x (i # js) cs = Ok (offered x js ?cs)"
    using i by (simp add: try_send_def)
  moreover have "offered x js ?cs = offered x (i # js) cs"
    using i by (intro nth_equalityI) (auto simp: nth_list_update)
  ultimately show ?case by simp
qed

lemma close_all_registered:
  "registered is cs \<Longrightarrow> close_all is cs = Ok (shut is cs)"
proof (induction "is" arbitrary: cs)
  case Nil
  show ?case by (simp add: shut_def map_nth)
next
  case (Cons i js)
  let ?cs = "cs[i := (cs ! i)\<lparr>ch_closed := True\<rparr>]"
  have i: "i < length cs" "\<not> ch_closed (cs ! i)" "i \<notin> set js"
    using Cons.prems by (auto simp: registered_def)
  have "registered js ?cs"
    using Cons.prems i by (auto simp: registered_def list_all_iff nth_list_update)
  from Cons.IH [OF this] have "close_all (i # js) cs = Ok (shut js ?cs)"
    using i by (simp add: close_chan_def)
  moreover have "shut js ?cs = shut (i # js) cs"
    using i by (intro nth_equalityI) (auto simp: nth_list_update)
  ultimately show ?case by simp
qed

lemma registered_offered: "registered is cs \<Longrightarrow> registered is (offered x js cs)"
  by (auto simp: registered_def list_all_iff)

lemma bounded_offered: "bounded_queues n cs \<Longrightarrow> bounded_queues n (offered x is cs)"
  by (auto simp: bounded_queues_def list_all_length offer_bounded)

lemma bounded_shut: "bounded_queues n cs \<Longrightarrow> bounded_queues n (shut is cs)"
  by (auto simp: bounded_queues_def list_all_length)

lemma bounded_make: "bounded_queues n cs \<Longrightarrow> bounded_queues n (cs @ [make_chan n])"
  "bounded_queues n cs \<Longrightarrow> bounded_queues n (cs @ [(make_chan k)\<lparr>ch_closed := True\<rparr>])"
  by (simp_all add: bounded_queues_def)

lemma registered_shut:
  "registered is cs \<Longrightarrow> set is \<inter> set js = {} \<Longrightarrow> registered is (shut js cs)"
  by (auto simp: registered_def list_all_iff)

lemma close_chan_open:
  "i < length cs \<Longrightarrow> \<not> ch_closed (cs ! i) \<Longrightarrow> close_chan i cs = Ok (shut [i] cs)"
  by (auto simp: close_chan_def intro!: nth_equalityI simp: nth_list_update)

lemma receive_keeps:
  assumes "receive_chan i cs = Some (x, cs')"
  shows "length cs' = length cs \<and> (\<forall>j < length cs. ch_closed (cs' ! j) = ch_closed (cs ! j)) \<and>
    (bounded_queues n cs \<longrightarrow> bounded_queues n cs')"
proof -
  from assms obtain xs where i: "i < length cs" "ch_queue (cs ! i) = x # xs"
    and cs': "cs' = cs[i := (cs ! i)\<lparr>ch_queue := xs\<rparr>]"
    by (auto simp: receive_chan_def split: if_splits list.splits)
  have "length xs \<le> ch_cap (cs ! i)" if "bounded_queues n cs"
    using that i by (auto simp: bounded_queues_def list_all_length dest!: spec [of _ i])
  then show ?thesis
    using i cs' by (auto simp: nth_list_update bounded_queues_def list_all_length)
qed

lemma registered_receive:
  "receive_chan i cs = Some (x, cs') \<Longrightarrow> registered is cs \<Longrightarrow> registered is cs'"
  using receive_keeps [of i cs x cs'] by (auto simp: registered_def list_all_iff)

end
