(* ===== verification/Event_Bus.thy ===== *)
theory Event_Bus
  imports Channels Agency_Types "HOL-Library.Multiset"
begin

text \<open>
  The in-memory signal bus of \<open>internal/agency/bus.go\<close>. Its state is the subscriptions per
  channel name, the Go channels made so far, the flag of \<open>Close\<close>, and the goroutines that each
  wait for the end of a subscriber's context. Every operation holds the lock, so it is one
  step; the end of a subscriber's context is the step \<open>Cancel\<close>. A step that panics ends the
  program.
\<close>

record mem_bus =
  mb_subs :: "(string, nat list) gomap"
  mb_closed :: bool
  mb_chans :: "wake_signal chan list"
  mb_watchers :: "(nat \<times> string) list"

definition NewMemoryEventBus :: mem_bus where
  "NewMemoryEventBus = \<lparr>mb_subs = [], mb_closed = False, mb_chans = [], mb_watchers = []\<rparr>"

definition mem_group :: "mem_bus \<Rightarrow> string \<Rightarrow> nat list" where
  "mem_group b channel = map_get_or [] (mb_subs b) channel"

definition mem_Publish :: "wake_signal \<Rightarrow> mem_bus \<Rightarrow> (string, mem_bus) outcome" where
  "mem_Publish signal b =
     (if mb_closed b then Ok b
      else obind (send_all signal (mem_group b (ws_Channel signal)) (mb_chans b))
             (\<lambda>cs. Ok (b\<lparr>mb_chans := cs\<rparr>)))"

definition mem_Subscribe :: "string \<Rightarrow> mem_bus \<Rightarrow> nat \<times> mem_bus" where
  "mem_Subscribe channel b =
     (let out = length (mb_chans b); c = make_chan 32 in
      if mb_closed b then (out, b\<lparr>mb_chans := mb_chans b @ [c\<lparr>ch_closed := True\<rparr>]\<rparr>)
      else (out, b\<lparr>mb_subs := map_put channel (mem_group b channel @ [out]) (mb_subs b),
                   mb_chans := mb_chans b @ [c],
                   mb_watchers := mb_watchers b @ [(out, channel)]\<rparr>))"

text \<open>The goroutine of subscription \<open>out\<close> wakes up; \<open>delete\<close> on a missing group does nothing.\<close>

definition mem_Cancel :: "nat \<Rightarrow> mem_bus \<Rightarrow> (string, mem_bus) outcome" where
  "mem_Cancel out b = (case find (\<lambda>w. fst w = out) (mb_watchers b) of
     None \<Rightarrow> Ok b
   | Some (_, channel) \<Rightarrow>
       let subs = (case map_of (mb_subs b) channel of
             None \<Rightarrow> mb_subs b
           | Some g \<Rightarrow> map_put channel (filter (\<lambda>i. i \<noteq> out) g) (mb_subs b))
       in obind (close_chan out (mb_chans b)) (\<lambda>cs.
            Ok (b\<lparr>mb_subs := subs, mb_chans := cs,
                  mb_watchers := filter (\<lambda>w. fst w \<noteq> out) (mb_watchers b)\<rparr>)))"

definition mem_Close :: "mem_bus \<Rightarrow> (string, mem_bus) outcome" where
  "mem_Close b =
     (if mb_closed b then Ok b
      else obind (close_all (concat (map snd (mb_subs b))) (mb_chans b)) (\<lambda>cs.
             Ok (b\<lparr>mb_closed := True, mb_chans := cs, mb_subs := []\<rparr>)))"

definition mem_Receive :: "nat \<Rightarrow> mem_bus \<Rightarrow> mem_bus" where
  "mem_Receive i b = (case receive_chan i (mb_chans b) of
     None \<Rightarrow> b | Some (_, cs) \<Rightarrow> b\<lparr>mb_chans := cs\<rparr>)"

datatype mem_op = Subscribe string | Publish wake_signal | CloseBus | Cancel nat | Receive nat

fun mem_apply :: "mem_op \<Rightarrow> mem_bus \<Rightarrow> (string, mem_bus) outcome" where
  "mem_apply (Subscribe channel) b = Ok (snd (mem_Subscribe channel b))"
| "mem_apply (Publish signal) b = mem_Publish signal b"
| "mem_apply CloseBus b = mem_Close b"
| "mem_apply (Cancel out) b = mem_Cancel out b"
| "mem_apply (Receive i) b = Ok (mem_Receive i b)"

inductive mem_step :: "mem_bus \<Rightarrow> mem_bus \<Rightarrow> bool" where
  mem_stepI: "mem_apply op b = Ok b' \<Longrightarrow> mem_step b b'"

inductive_simps mem_step_iff: "mem_step b b'"

abbreviation mem_reach :: "mem_bus \<Rightarrow> bool" where
  "mem_reach \<equiv> reach (\<lambda>b. b = NewMemoryEventBus) mem_step"

section \<open>The invariant\<close>

text \<open>All registered channels, over all groups.\<close>

definition mem_registered :: "mem_bus \<Rightarrow> nat list" where
  "mem_registered b = concat (map snd (mb_subs b))"

definition mem_inv :: "mem_bus \<Rightarrow> bool" where
  "mem_inv b \<longleftrightarrow>
     wf_map (mb_subs b) \<and> bounded_queues 32 (mb_chans b) \<and>
     registered (mem_registered b) (mb_chans b) \<and> distinct (map fst (mb_watchers b)) \<and>
     list_all (\<lambda>w. fst w < length (mb_chans b)) (mb_watchers b) \<and>
     (if mb_closed b
      then mb_subs b = [] \<and> list_all (\<lambda>w. ch_closed (mb_chans b ! fst w)) (mb_watchers b)
      else set (mem_registered b) = fst ` set (mb_watchers b) \<and>
           list_all (\<lambda>(i, channel). i \<in> set (mem_group b channel)) (mb_watchers b))"

lemma concat_put_add:
  "mset (concat (map snd (map_put k (map_get_or [] m k @ [n]) m))) =
   add_mset n (mset (concat (map snd m)))"
  by (induction m) (auto simp: map_get_or_def)

lemma filter_absent: "n \<notin> set xs \<Longrightarrow> filter (\<lambda>i. i \<noteq> n) xs = xs"
  by (induction xs) auto

lemma concat_put_remove:
  "distinct (concat (map snd m)) \<Longrightarrow> map_of m k = Some g \<Longrightarrow> n \<in> set g \<Longrightarrow>
   concat (map snd (map_put k (filter (\<lambda>i. i \<noteq> n) g) m)) = filter (\<lambda>i. i \<noteq> n) (concat (map snd m))"
proof (induction m)
  case (Cons p m)
  obtain k' g' where p: "p = (k', g')" by (cases p)
  show ?case
  proof (cases "k' = k")
    case True
    then have "n \<notin> set (concat (map snd m))" using Cons.prems p by auto
    then show ?thesis using True Cons.prems p by (simp add: filter_absent)
  next
    case False
    then have m: "map_of m k = Some g" using Cons.prems p by simp
    then have "n \<in> set (concat (map snd m))"
      using Cons.prems(3) by (force dest: map_of_SomeD)
    then have "n \<notin> set g'" using Cons.prems(1) p by auto
    then show ?thesis using False Cons.IH m Cons.prems p by (simp add: filter_absent)
  qed
qed simp

lemma registered_mset:
  assumes "mset js \<subseteq># mset is" and "registered is cs" shows "registered js cs"
proof -
  obtain ks where "mset is = mset (js @ ks)"
    using assms(1) by (metis ex_mset mset_append subset_mset.le_iff_add)
  then have "distinct (js @ ks)" "set (js @ ks) = set is"
    using assms(2) mset_eq_imp_distinct_iff [of "is" "js @ ks"] mset_eq_setD [of "is" "js @ ks"]
    by (simp_all only: registered_def)
  then show ?thesis using assms(2) by (auto simp: registered_def list_all_iff)
qed

lemma group_mset: "mset (map_get_or [] m k) \<subseteq># mset (concat (map snd m))"
  by (induction m) (auto simp: map_get_or_def intro: subset_mset.add_increasing)

lemma find_watcher:
  "find (\<lambda>w. fst w = i) ws = Some w \<Longrightarrow> w \<in> set ws \<and> fst w = i"
  by (induction ws) (auto split: if_splits)

lemma find_watcher_None: "find (\<lambda>w. fst w = i) ws = None \<longleftrightarrow> i \<notin> fst ` set ws"
  by (induction ws) auto

lemma mem_group_registered: "mem_inv b \<Longrightarrow> registered (mem_group b channel) (mb_chans b)"
  using registered_mset [OF group_mset]
  by (auto simp: mem_inv_def mem_group_def mem_registered_def)

text \<open>Each operation on a bus that satisfies the invariant.\<close>

lemma mem_Publish_eq:
  "mem_inv b \<Longrightarrow> \<not> mb_closed b \<Longrightarrow>
   mem_Publish signal b =
     Ok (b\<lparr>mb_chans := offered signal (mem_group b (ws_Channel signal)) (mb_chans b)\<rparr>)"
  by (simp add: mem_Publish_def send_all_registered mem_group_registered)

lemma mem_Close_eq:
  "mem_inv b \<Longrightarrow> \<not> mb_closed b \<Longrightarrow>
   mem_Close b = Ok (b\<lparr>mb_closed := True, mb_chans := shut (mem_registered b) (mb_chans b),
                        mb_subs := []\<rparr>)"
  by (simp add: mem_Close_def mem_registered_def mem_inv_def close_all_registered)

lemma mem_Cancel_closed:
  assumes "mem_inv b" "mb_closed b" "out \<in> fst ` set (mb_watchers b)"
  shows "mem_Cancel out b = Panic ''close of closed channel''"
proof -
  obtain w where w: "find (\<lambda>w. fst w = out) (mb_watchers b) = Some w"
    using assms(3) find_watcher_None [of out] by (metis not_None_eq)
  then have "ch_closed (mb_chans b ! out)" "out < length (mb_chans b)"
    using assms(1,2) find_watcher [OF w] by (auto simp: mem_inv_def list_all_iff)
  then show ?thesis using w by (cases w) (simp add: mem_Cancel_def close_chan_def)
qed

lemma mem_Cancel_open:
  assumes "mem_inv b" "\<not> mb_closed b" "find (\<lambda>w. fst w = out) (mb_watchers b) = Some (i, channel)"
  shows "mem_Cancel out b = Ok (b\<lparr>
      mb_subs := (case map_of (mb_subs b) channel of None \<Rightarrow> mb_subs b
         | Some g \<Rightarrow> map_put channel (filter (\<lambda>i. i \<noteq> out) g) (mb_subs b)),
      mb_chans := shut [out] (mb_chans b),
      mb_watchers := filter (\<lambda>w. fst w \<noteq> out) (mb_watchers b)\<rparr>)"
proof -
  have "out \<in> set (mem_registered b)"
    using assms find_watcher [OF assms(3)] by (force simp: mem_inv_def)
  then have "out < length (mb_chans b)" "\<not> ch_closed (mb_chans b ! out)"
    using assms(1) registered_mem by (auto simp: mem_inv_def)
  then show ?thesis using assms(3) by (simp add: mem_Cancel_def close_chan_open)
qed

lemma mem_inv_new: "mem_inv NewMemoryEventBus"
  by (simp add: mem_inv_def NewMemoryEventBus_def mem_registered_def wf_map_def bounded_queues_def)

lemma mem_state_simps [simp]:
  "mem_registered (b\<lparr>mb_chans := cs\<rparr>) = mem_registered b"
  "mem_group (b\<lparr>mb_chans := cs\<rparr>) channel = mem_group b channel"
  "mem_group (b\<lparr>mb_subs := m, mb_chans := cs, mb_watchers := w\<rparr>) channel = map_get_or [] m channel"
  "mem_registered (b\<lparr>mb_subs := m, mb_chans := cs, mb_watchers := w\<rparr>) = concat (map snd m)"
  by (simp_all add: mem_registered_def mem_group_def)

lemma mem_inv_chans:
  assumes "mem_inv b" "length cs = length (mb_chans b)" "bounded_queues 32 cs"
    and "\<forall>i < length cs. ch_closed (cs ! i) = ch_closed (mb_chans b ! i)"
  shows "mem_inv (b\<lparr>mb_chans := cs\<rparr>)"
proof -
  have lens: "list_all (\<lambda>w. fst w < length (mb_chans b)) (mb_watchers b)"
    using assms(1) by (simp add: mem_inv_def)
  then have "list_all (\<lambda>w. ch_closed (cs ! fst w)) (mb_watchers b) =
      list_all (\<lambda>w. ch_closed (mb_chans b ! fst w)) (mb_watchers b)"
    using assms(2,4) by (intro list.pred_cong refl) (auto simp: list_all_iff)
  moreover have "registered (mem_registered b) cs"
    using assms(1,2,4) by (auto simp: mem_inv_def registered_def list_all_iff)
  ultimately show ?thesis using assms lens by (simp add: mem_inv_def)
qed

lemma mem_inv_Publish:
  assumes "mem_inv b" "mem_Publish signal b = Ok b'" shows "mem_inv b'"
proof (cases "mb_closed b")
  case False
  with assms have "b' = b\<lparr>mb_chans := offered signal (mem_group b (ws_Channel signal)) (mb_chans b)\<rparr>"
    by (simp add: mem_Publish_eq)
  moreover have "bounded_queues 32 (mb_chans b)" using assms(1) by (simp add: mem_inv_def)
  ultimately show ?thesis
    using assms(1) bounded_offered by (auto intro!: mem_inv_chans split: if_splits)
qed (use assms in \<open>simp add: mem_Publish_def\<close>)

lemma mem_inv_Receive: "mem_inv b \<Longrightarrow> mem_inv (mem_Receive i b)"
proof (cases "receive_chan i (mb_chans b)")
  case (Some p)
  assume inv: "mem_inv b"
  obtain x cs where p: "p = (x, cs)" by (cases p)
  have "bounded_queues 32 (mb_chans b)" using inv by (simp add: mem_inv_def)
  then show ?thesis
    using Some p receive_keeps [of i "mb_chans b" x cs] mem_inv_chans [OF inv]
    by (simp add: mem_Receive_def)
qed (simp add: mem_Receive_def)

lemma mem_inv_Subscribe:
  assumes inv: "mem_inv b" shows "mem_inv (snd (mem_Subscribe channel b))"
proof (cases "mb_closed b")
  case True
  with inv show ?thesis
    by (auto simp: mem_Subscribe_def Let_def mem_inv_def mem_registered_def bounded_make
        list_all_iff nth_append)
next
  case False
  let ?n = "length (mb_chans b)" and ?cs = "mb_chans b @ [make_chan 32]"
  let ?m = "map_put channel (mem_group b channel @ [?n]) (mb_subs b)"
  have m: "mset (concat (map snd ?m)) = mset (mem_registered b @ [?n])"
    unfolding mem_group_def mem_registered_def by (simp add: concat_put_add)
  have "registered (mem_registered b @ [?n]) ?cs"
    using inv registered_add [of "mem_registered b" "mb_chans b" "make_chan 32"]
    by (simp add: mem_inv_def make_chan_def)
  then have reg: "registered (concat (map snd ?m)) ?cs"
    using registered_mset m by (metis subset_mset.order_refl)
  have set: "set (concat (map snd ?m)) = insert ?n (fst ` set (mb_watchers b))"
    using mset_eq_setD [OF m] inv False by (auto simp: mem_inv_def)
  have fresh: "?n \<notin> fst ` set (mb_watchers b)"
    using inv by (auto simp: mem_inv_def list_all_iff)
  have grp: "list_all (\<lambda>(i, c). i \<in> set (map_get_or [] ?m c)) (mb_watchers b @ [(?n, channel)])"
    using inv False
    by (auto simp: mem_inv_def mem_group_def map_get_or_def map_of_put list_all_iff)
  have lens: "list_all (\<lambda>w. fst w < length ?cs) (mb_watchers b @ [(?n, channel)])"
    using inv by (auto simp: mem_inv_def list_all_iff less_Suc_eq)
  show ?thesis
    using inv False reg set fresh grp lens bounded_make(1) [of 32 "mb_chans b"]
      wf_map_put [of "mb_subs b" channel "mem_group b channel @ [?n]"]
    by (simp add: mem_Subscribe_def Let_def mem_inv_def)
qed

lemma mem_inv_Close:
  assumes "mem_inv b" "mem_Close b = Ok b'" shows "mem_inv b'"
proof (cases "mb_closed b")
  case False
  have "list_all (\<lambda>w. ch_closed (shut (mem_registered b) (mb_chans b) ! fst w)) (mb_watchers b)"
    using assms(1) False by (auto simp: mem_inv_def list_all_iff)
  with assms False show ?thesis
    by (auto simp: mem_Close_eq mem_inv_def mem_registered_def wf_map_def bounded_shut)
qed (use assms in \<open>simp add: mem_Close_def\<close>)

lemma mem_inv_Cancel:
  assumes inv: "mem_inv b" and b': "mem_Cancel out b = Ok b'" shows "mem_inv b'"
proof (cases "find (\<lambda>w. fst w = out) (mb_watchers b)")
  case None
  with assms show ?thesis by (simp add: mem_Cancel_def)
next
  case (Some w)
  obtain i channel where w: "w = (i, channel)" by (cases w)
  have mem: "(out, channel) \<in> set (mb_watchers b)" using find_watcher [OF Some] w by auto
  then have open': "\<not> mb_closed b"
    using inv b' mem_Cancel_closed [of b out] by force
  have "out \<in> set (mem_group b channel)"
    using inv open' mem by (auto simp: mem_inv_def list_all_iff)
  then obtain g where g: "map_of (mb_subs b) channel = Some g" "out \<in> set g"
    by (cases "map_of (mb_subs b) channel") (simp_all add: mem_group_def map_get_or_def)
  let ?m = "map_put channel (filter (\<lambda>i. i \<noteq> out) g) (mb_subs b)"
  let ?cs = "shut [out] (mb_chans b)" and ?ws = "filter (\<lambda>w. fst w \<noteq> out) (mb_watchers b)"
  have eq: "b' = b\<lparr>mb_subs := ?m, mb_chans := ?cs, mb_watchers := ?ws\<rparr>"
    using mem_Cancel_open [OF inv open' Some [unfolded w]] b' g by simp
  have m: "concat (map snd ?m) = filter (\<lambda>i. i \<noteq> out) (mem_registered b)"
    unfolding mem_registered_def using inv g
    by (intro concat_put_remove) (simp_all add: mem_inv_def registered_def mem_registered_def)
  have reg: "registered (concat (map snd ?m)) ?cs"
    unfolding m by (intro registered_shut registered_filter) (use inv in \<open>simp_all add: mem_inv_def\<close>)
  have set: "set (concat (map snd ?m)) = fst ` set ?ws"
    unfolding m using inv open' by (auto simp: mem_inv_def)
  have dist: "distinct (map fst ?ws)" using inv by (simp add: mem_inv_def distinct_map_filter)
  have grp: "list_all (\<lambda>(i, c). i \<in> set (map_get_or [] ?m c)) ?ws"
    using inv open' g
    by (auto simp: mem_inv_def mem_group_def map_get_or_def map_of_put list_all_iff)
  have lens: "list_all (\<lambda>w. fst w < length (mb_chans b)) ?ws"
    using inv by (auto simp: mem_inv_def list_all_iff)
  show ?thesis
    using inv open' eq reg set dist grp lens bounded_shut [of 32 "mb_chans b" "[out]"]
      wf_map_put [of "mb_subs b" channel "filter (\<lambda>i. i \<noteq> out) g"]
    by (simp add: mem_inv_def)
qed

lemma mem_inv_step: "mem_step b b' \<Longrightarrow> mem_inv b \<Longrightarrow> mem_inv b'"
  unfolding mem_step_iff
proof (elim exE)
  fix op assume "mem_inv b" "mem_apply op b = Ok b'"
  then show "mem_inv b'"
    by (cases op)
      (auto intro: mem_inv_Publish mem_inv_Subscribe mem_inv_Close mem_inv_Cancel mem_inv_Receive)
qed

interpretation memory_bus:
  invariant_system "\<lambda>b. b = NewMemoryEventBus" mem_step mem_inv
  by unfold_locales (simp add: mem_inv_new, rule mem_inv_step)

end
