(* ===== verification/Pubsub.thy ===== *)
theory Pubsub
  imports Channels
begin

text \<open>
  The broker of \<open>internal/pubsub/broker.go\<close>, which carries the events of every service to the
  terminal interface. \<open>Subscribe\<close>, the end of a subscriber's context and the body of
  \<open>Shutdown\<close> hold the lock and are one step each. \<open>Publish\<close> copies the subscribers under the
  lock and sends to them after releasing it, and \<open>Shutdown\<close> tests and closes \<open>done\<close> before it
  takes the lock: these are several steps, and other calls run in between.
\<close>

record 'a event =
  event_type :: string
  event_payload :: 'a

definition bufferSize :: nat where "bufferSize = 64"

text \<open>
  \<open>br_publishers\<close> are the calls of \<open>Publish\<close> that are sending, with the subscribers they still
  have to serve; \<open>br_closers\<close> counts the calls of \<open>Shutdown\<close> that have found \<open>done\<close> open and
  not closed it yet, \<open>br_lockers\<close> those that have closed it and wait for the lock.
\<close>

record 'a broker =
  br_subs :: "nat list"
  br_done :: bool
  br_subCount :: int
  br_maxEvents :: int
  br_chans :: "'a event chan list"
  br_watchers :: "nat list"
  br_publishers :: "('a event \<times> nat list) list"
  br_closers :: nat
  br_lockers :: nat

definition NewBrokerWithOptions :: "int \<Rightarrow> int \<Rightarrow> 'a broker" where
  "NewBrokerWithOptions channelBufferSize maxEvents =
     \<lparr>br_subs = [], br_done = False, br_subCount = 0, br_maxEvents = maxEvents, br_chans = [],
      br_watchers = [], br_publishers = [], br_closers = 0, br_lockers = 0\<rparr>"

definition NewBroker :: "'a broker" where
  "NewBroker = NewBrokerWithOptions (int bufferSize) 1000"

definition br_Subscribe :: "'a broker \<Rightarrow> nat \<times> 'a broker" where
  "br_Subscribe b =
     (let sub = length (br_chans b) in
      if br_done b
      then (sub, b\<lparr>br_chans := br_chans b @ [(make_chan 0)\<lparr>ch_closed := True\<rparr>]\<rparr>)
      else (sub, b\<lparr>br_chans := br_chans b @ [make_chan bufferSize],
                   br_subs := br_subs b @ [sub], br_subCount := br_subCount b + 1,
                   br_watchers := br_watchers b @ [sub]\<rparr>))"

definition br_Cancel :: "nat \<Rightarrow> 'a broker \<Rightarrow> (string, 'a broker) outcome" where
  "br_Cancel sub b =
     (if sub \<notin> set (br_watchers b) then Ok b
      else let b = b\<lparr>br_watchers := filter (\<lambda>i. i \<noteq> sub) (br_watchers b)\<rparr> in
        if br_done b then Ok b
        else obind (close_chan sub (br_chans b)) (\<lambda>cs.
               Ok (b\<lparr>br_subs := filter (\<lambda>i. i \<noteq> sub) (br_subs b), br_chans := cs,
                     br_subCount := br_subCount b - 1\<rparr>)))"

definition GetSubscriberCount :: "'a broker \<Rightarrow> int" where
  "GetSubscriberCount b = br_subCount b"

definition publish_begin :: "string \<Rightarrow> 'a \<Rightarrow> 'a broker \<Rightarrow> 'a broker" where
  "publish_begin t payload b =
     (if br_done b then b
      else b\<lparr>br_publishers := br_publishers b @
               [(\<lparr>event_type = t, event_payload = payload\<rparr>, br_subs b)]\<rparr>)"

definition publish_send :: "nat \<Rightarrow> 'a broker \<Rightarrow> (string, 'a broker) outcome" where
  "publish_send k b =
     (if length (br_publishers b) \<le> k then Ok b
      else case br_publishers b ! k of
        (event, []) \<Rightarrow> Ok b
      | (event, sub # rest) \<Rightarrow> obind (try_send event sub (br_chans b)) (\<lambda>cs.
          Ok (b\<lparr>br_chans := cs, br_publishers := (br_publishers b)[k := (event, rest)]\<rparr>)))"

definition shutdown_check :: "'a broker \<Rightarrow> 'a broker" where
  "shutdown_check b = (if br_done b then b else b\<lparr>br_closers := br_closers b + 1\<rparr>)"

definition shutdown_close :: "'a broker \<Rightarrow> (string, 'a broker) outcome" where
  "shutdown_close b =
     (if br_closers b = 0 then Ok b
      else if br_done b then Panic ''close of closed channel''
      else Ok (b\<lparr>br_done := True, br_closers := br_closers b - 1,
                 br_lockers := br_lockers b + 1\<rparr>))"

definition shutdown_locked :: "'a broker \<Rightarrow> (string, 'a broker) outcome" where
  "shutdown_locked b =
     (if br_lockers b = 0 then Ok b
      else obind (close_all (br_subs b) (br_chans b)) (\<lambda>cs.
             Ok (b\<lparr>br_chans := cs, br_subs := [], br_subCount := 0,
                   br_lockers := br_lockers b - 1\<rparr>)))"

definition br_Receive :: "nat \<Rightarrow> 'a broker \<Rightarrow> 'a broker" where
  "br_Receive i b = (case receive_chan i (br_chans b) of
     None \<Rightarrow> b | Some (_, cs) \<Rightarrow> b\<lparr>br_chans := cs\<rparr>)"

datatype 'a broker_op =
    BrSubscribe | BrCancel nat | PublishBegin string 'a | PublishSend nat
  | ShutdownCheck | ShutdownClose | ShutdownLocked | BrReceive nat

fun broker_apply :: "'a broker_op \<Rightarrow> 'a broker \<Rightarrow> (string, 'a broker) outcome" where
  "broker_apply BrSubscribe b = Ok (snd (br_Subscribe b))"
| "broker_apply (BrCancel sub) b = br_Cancel sub b"
| "broker_apply (PublishBegin t payload) b = Ok (publish_begin t payload b)"
| "broker_apply (PublishSend k) b = publish_send k b"
| "broker_apply ShutdownCheck b = Ok (shutdown_check b)"
| "broker_apply ShutdownClose b = shutdown_close b"
| "broker_apply ShutdownLocked b = shutdown_locked b"
| "broker_apply (BrReceive i) b = Ok (br_Receive i b)"

inductive broker_step :: "'a broker \<Rightarrow> 'a broker \<Rightarrow> bool" where
  broker_stepI: "broker_apply op b = Ok b' \<Longrightarrow> broker_step b b'"

inductive_simps broker_step_iff: "broker_step b b'"

abbreviation broker_reach :: "'a broker \<Rightarrow> bool" where
  "broker_reach \<equiv> reach (\<lambda>b. b = NewBroker) broker_step"

text \<open>A sequence of operations from a state, as long as none panics.\<close>

fun broker_run :: "'a broker_op list \<Rightarrow> 'a broker \<Rightarrow> (string, 'a broker) outcome" where
  "broker_run [] b = Ok b"
| "broker_run (op # ops) b = obind (broker_apply op b) (broker_run ops)"

lemma broker_run_reach:
  "broker_run ops b = Ok b' \<Longrightarrow> broker_reach b \<Longrightarrow> broker_reach b'"
proof (induction ops arbitrary: b)
  case (Cons op ops)
  then obtain c where "broker_apply op b = Ok c" "broker_run ops c = Ok b'" by auto
  then show ?case using Cons.IH Cons.prems(2) reach_step broker_stepI by metis
qed simp

section \<open>The invariant\<close>

definition broker_inv :: "'a broker \<Rightarrow> bool" where
  "broker_inv b \<longleftrightarrow>
     registered (br_subs b) (br_chans b) \<and> bounded_queues bufferSize (br_chans b) \<and>
     br_subCount b = int (length (br_subs b)) \<and>
     list_all (\<lambda>(event, is). list_all (\<lambda>i. i < length (br_chans b)) is) (br_publishers b) \<and>
     (if br_done b then br_lockers b > 0 \<or> br_subs b = []
      else br_lockers b = 0 \<and> br_subs b = br_watchers b)"

lemma broker_inv_new: "broker_inv NewBroker"
  by (simp add: broker_inv_def NewBroker_def NewBrokerWithOptions_def bounded_queues_def)

lemma list_all_weaken:
  "list_all (\<lambda>(e, is). list_all (\<lambda>i. i < (n::nat)) is) ps \<Longrightarrow> n \<le> m \<Longrightarrow>
   list_all (\<lambda>(e, is). list_all (\<lambda>i. i < m) is) ps"
  by (fastforce simp: list_all_iff)

lemma broker_inv_Subscribe: "broker_inv b \<Longrightarrow> broker_inv (snd (br_Subscribe b))"
  using list_all_weaken [of "length (br_chans b)" "br_publishers b" "Suc (length (br_chans b))"]
    registered_add [of "br_subs b" "br_chans b" "make_chan bufferSize"]
  by (auto simp: br_Subscribe_def Let_def broker_inv_def bounded_make registered_make)

lemma broker_Cancel_eq:
  assumes "broker_inv b" "\<not> br_done b" "sub \<in> set (br_watchers b)"
  shows "br_Cancel sub b = Ok (b
     \<lparr>br_watchers := filter (\<lambda>i. i \<noteq> sub) (br_watchers b),
      br_subs := filter (\<lambda>i. i \<noteq> sub) (br_subs b), br_chans := shut [sub] (br_chans b),
      br_subCount := br_subCount b - 1\<rparr>)"
proof -
  have "sub < length (br_chans b)" "\<not> ch_closed (br_chans b ! sub)"
    using assms registered_mem [of "br_subs b" "br_chans b" sub] by (auto simp: broker_inv_def)
  then show ?thesis using assms by (simp add: br_Cancel_def Let_def close_chan_open)
qed

lemma length_filter_neq:
  "distinct is \<Longrightarrow> i \<in> set is \<Longrightarrow> int (length (filter (\<lambda>j. j \<noteq> i) is)) = int (length is) - 1"
proof (induction "is")
  case (Cons j js)
  have "filter (\<lambda>k. k \<noteq> j) js = js" if "j \<notin> set js" for j
    using that by (induction js) auto
  then show ?case using Cons by auto
qed simp

lemma broker_inv_Cancel:
  assumes "broker_inv b" "br_Cancel sub b = Ok b'" shows "broker_inv b'"
proof (cases "sub \<in> set (br_watchers b) \<and> \<not> br_done b")
  case True
  then have b': "b' = b
     \<lparr>br_watchers := filter (\<lambda>i. i \<noteq> sub) (br_watchers b),
      br_subs := filter (\<lambda>i. i \<noteq> sub) (br_subs b), br_chans := shut [sub] (br_chans b),
      br_subCount := br_subCount b - 1\<rparr>"
    using broker_Cancel_eq assms by fastforce
  have "registered (filter (\<lambda>i. i \<noteq> sub) (br_subs b)) (shut [sub] (br_chans b))"
    by (intro registered_shut registered_filter) (use assms in \<open>simp_all add: broker_inv_def\<close>)
  moreover have "int (length (filter (\<lambda>i. i \<noteq> sub) (br_subs b))) = br_subCount b - 1"
    using assms(1) True length_filter_neq [of "br_subs b" sub]
    by (auto simp: broker_inv_def registered_def)
  ultimately show ?thesis
    using assms(1) True b' bounded_shut by (auto simp: broker_inv_def)
qed (use assms in \<open>auto simp: br_Cancel_def Let_def broker_inv_def split: if_splits\<close>)

lemma broker_inv_begin: "broker_inv b \<Longrightarrow> broker_inv (publish_begin t x b)"
  by (auto simp: publish_begin_def broker_inv_def registered_def list_all_iff)

lemma try_send_Ok:
  "try_send x i cs = Ok cs' \<Longrightarrow> i < length cs \<and> \<not> ch_closed (cs ! i) \<and> cs' = offered x [i] cs"
  by (auto simp: try_send_def nth_list_update split: if_splits intro!: nth_equalityI)

lemma broker_inv_send:
  assumes "broker_inv b" "publish_send k b = Ok b'" shows "broker_inv b'"
proof (cases "k < length (br_publishers b) \<and> snd (br_publishers b ! k) \<noteq> []")
  case True
  obtain e i rest where p: "br_publishers b ! k = (e, i # rest)"
    using True by (cases "br_publishers b ! k") (auto simp: neq_Nil_conv)
  obtain cs where cs: "try_send e i (br_chans b) = Ok cs"
    and b': "b' = b\<lparr>br_chans := cs, br_publishers := (br_publishers b)[k := (e, rest)]\<rparr>"
    using assms(2) True p by (auto simp: publish_send_def)
  have pub: "list_all (\<lambda>(e, is). list_all (\<lambda>i. i < length (br_chans b)) is) (br_publishers b)"
    using assms(1) by (simp add: broker_inv_def)
  then have "list_all (\<lambda>i. i < length (br_chans b)) rest"
    using True p nth_mem [of k "br_publishers b"] by (auto simp: list_all_iff)
  then have "list_all (\<lambda>(e, is). list_all (\<lambda>i. i < length (br_chans b)) is)
      ((br_publishers b)[k := (e, rest)])"
    using pub True by (auto simp: list_all_length nth_list_update)
  then show ?thesis
    using assms(1) b' try_send_Ok [OF cs] bounded_offered registered_offered
    by (auto simp: broker_inv_def)
qed (use assms in \<open>auto simp: publish_send_def split: if_splits prod.splits list.splits\<close>)

lemma broker_inv_locked:
  assumes "broker_inv b" "shutdown_locked b = Ok b'" shows "broker_inv b'"
  using assms bounded_shut [of bufferSize "br_chans b" "br_subs b"]
  by (auto simp: shutdown_locked_def broker_inv_def close_all_registered split: if_splits)

lemma broker_inv_Receive: "broker_inv b \<Longrightarrow> broker_inv (br_Receive i b)"
proof (cases "receive_chan i (br_chans b)")
  case (Some p)
  assume inv: "broker_inv b"
  obtain x cs where p: "p = (x, cs)" by (cases p)
  show ?thesis
    using inv Some p receive_keeps [of i "br_chans b" x cs bufferSize]
      registered_receive [of i "br_chans b" x cs "br_subs b"]
    by (simp add: br_Receive_def broker_inv_def)
qed (simp add: br_Receive_def)

lemma broker_inv_step: "broker_step b b' \<Longrightarrow> broker_inv b \<Longrightarrow> broker_inv b'"
  unfolding broker_step_iff
proof (elim exE)
  fix op assume inv: "broker_inv b" and op: "broker_apply op b = Ok b'"
  have "broker_inv (shutdown_check b)" "shutdown_close b = Ok b' \<Longrightarrow> broker_inv b'"
    using inv by (auto simp: shutdown_check_def shutdown_close_def broker_inv_def split: if_splits)
  then show "broker_inv b'"
    using inv op by (cases op)
      (auto intro: broker_inv_Subscribe broker_inv_Cancel broker_inv_begin broker_inv_send
        broker_inv_locked broker_inv_Receive)
qed

interpretation broker:
  invariant_system "\<lambda>b. b = NewBroker" broker_step broker_inv
  by unfold_locales (simp add: broker_inv_new, rule broker_inv_step)

end
