(* ===== verification/Go_Numbers.thy ===== *)
theory Go_Numbers
  imports Go_Strings
begin

text \<open>
  Numbers as text, as the standard library reads and writes them: \<open>strconv.Atoi\<close>, hexadecimal
  bytes, the fields of a line, and \<open>time.ParseDuration\<close>.
\<close>

section \<open>Decimal numbers\<close>

text \<open>\<open>strconv.Atoi\<close>: an optional sign and digits, within 64 bits.\<close>

definition atoi :: "string \<Rightarrow> int option" where
  "atoi s =
     (let (neg, ds) = (case s of
            [] \<Rightarrow> (False, [])
          | c # cs \<Rightarrow> if c = CHR ''-'' then (True, cs)
                      else if c = CHR ''+'' then (False, cs) else (False, s))
      in if ds = [] then None
         else case read_nat_acc 0 ds of
           None \<Rightarrow> None
         | Some n \<Rightarrow>
             let i = (if neg then - int n else int n)
             in if - (2 ^ 63) \<le> i \<and> i < 2 ^ 63 then Some i else None)"

lemma show_nat_digits: "c \<in> set (show_nat n) \<Longrightarrow> digit_val c \<noteq> None"
proof (induction n rule: show_nat.induct)
  case (1 n)
  then show ?case
    by (auto simp: show_nat.simps [of n] split: if_splits)
qed

lemma strip_digit:
  assumes "list_all (\<lambda>r. r \<noteq> [] \<and> digit_val (hd r) = None) rs" and "digit_val c \<noteq> None"
  shows "strip_runes rs (c # s) = c # s"
proof -
  have "hd r = c" if "r \<noteq> []" "has_prefix (c # s) r" for r
    using that by (cases r) auto
  then have "find (\<lambda>r. r \<noteq> [] \<and> has_prefix (c # s) r) rs = None"
    using assms by (force simp: find_None_iff list_all_iff)
  then show ?thesis by (simp add: strip_runes.simps [of _ "c # s"])
qed

lemma white_space_no_digit:
  "list_all (\<lambda>r. r \<noteq> [] \<and> digit_val (hd r) = None) white_space"
  "list_all (\<lambda>r. r \<noteq> [] \<and> digit_val (hd r) = None) (map rev white_space)"
  by code_simp+

lemmas strip_left_digit = strip_digit [OF white_space_no_digit(1)]
lemmas strip_right_digit = strip_digit [OF white_space_no_digit(2)]

lemma atoi_show_nat: "int n < 2 ^ 63 \<Longrightarrow> atoi (show_nat n) = Some (int n)"
proof -
  assume n: "int n < 2 ^ 63"
  obtain c s where cs: "show_nat n = c # s" using show_nat_nonempty by (cases "show_nat n") auto
  have "digit_val c \<noteq> None" using show_nat_digits [of c n] cs by simp
  then have "c \<noteq> CHR ''-''" "c \<noteq> CHR ''+''" by (auto simp: digit_val_def Let_def)
  then have "atoi (c # s) = (case read_nat_acc 0 (c # s) of None \<Rightarrow> None
      | Some m \<Rightarrow> if - (2 ^ 63) \<le> int m \<and> int m < 2 ^ 63 then Some (int m) else None)"
    by (cases "read_nat_acc 0 (c # s)") (simp_all add: atoi_def)
  also have "\<dots> = Some (int n)" using n read_show_nat [of n] by (simp add: cs)
  finally show ?thesis by (simp only: cs)
qed

section \<open>Hexadecimal text\<close>

text \<open>\<open>hex.EncodeToString\<close> and \<open>hex.DecodeString\<close>, which returns the bytes before an error.\<close>

definition hex_digit :: "nat \<Rightarrow> char" where
  "hex_digit d = (if d < 10 then char_of (48 + d) else char_of (87 + d))"

definition hex_val :: "char \<Rightarrow> nat option" where
  "hex_val c = (let n = of_char c :: nat in
     if 48 \<le> n \<and> n \<le> 57 then Some (n - 48)
     else if 97 \<le> n \<and> n \<le> 102 then Some (n - 87)
     else if 65 \<le> n \<and> n \<le> 70 then Some (n - 55)
     else None)"

fun hex_encode :: "string \<Rightarrow> string" where
  "hex_encode [] = []"
| "hex_encode (c # cs) =
     hex_digit (of_char c div 16) # hex_digit (of_char c mod 16) # hex_encode cs"

fun hex_decode :: "string \<Rightarrow> string" where
  "hex_decode (a # b # cs) = (case (hex_val a, hex_val b) of
     (Some x, Some y) \<Rightarrow> char_of (16 * x + y) # hex_decode cs | _ \<Rightarrow> [])"
| "hex_decode cs = []"

lemma hex_val_digit [simp]: "d < 16 \<Longrightarrow> hex_val (hex_digit d) = Some d"
  by (cases "d < 10") (auto simp: hex_val_def hex_digit_def Let_def)

lemma hex_decode_encode [simp]: "hex_decode (hex_encode s) = s"
proof (induction s)
  case (Cons c s)
  have "16 * (of_char c div 16) + of_char c mod 16 = (of_char c :: nat)" by simp
  moreover have "(of_char c :: nat) div 16 < 16"
    using nat_of_char_less_256 [of c] by (simp add: less_mult_imp_div_less)
  ultimately show ?case using Cons by simp
qed simp

section \<open>Fields\<close>

text \<open>\<open>strings.Fields\<close>: the pieces between runs of white space.\<close>

definition at_space :: "string \<Rightarrow> bool" where
  "at_space s \<longleftrightarrow> (\<exists>r \<in> set white_space. has_prefix s r)"

fun until_space :: "string \<Rightarrow> string \<times> string" where
  "until_space [] = ([], [])"
| "until_space (c # cs) =
     (if at_space (c # cs) then ([], c # cs)
      else let (field, rest) = until_space cs in (c # field, rest))"

lemma until_space_length: "length (snd (until_space s)) \<le> length s"
  by (induction s) (auto simp: Let_def split: prod.splits)

lemma white_space_nonempty: "r \<in> set white_space \<Longrightarrow> r \<noteq> []"
  by (auto simp: white_space_def)

lemma strip_runes_stops: "r \<in> set rs \<Longrightarrow> r \<noteq> [] \<Longrightarrow> \<not> has_prefix (strip_runes rs s) r"
proof (induction rs s rule: strip_runes.induct)
  case (1 rs s)
  show ?case
  proof (cases "find (\<lambda>r. r \<noteq> [] \<and> has_prefix s r) rs")
    case None
    then have "strip_runes rs s = s" by (simp add: strip_runes.simps [of rs s])
    moreover have "\<not> has_prefix s r" using None 1(2,3) by (auto simp: find_None_iff)
    ultimately show ?thesis by simp
  next
    case (Some q)
    then show ?thesis using 1 by (simp add: strip_runes.simps [of rs s])
  qed
qed

lemma strip_runes_length: "length (strip_runes rs s) \<le> length s"
proof (induction rs s rule: strip_runes.induct)
  case (1 rs s)
  show ?case
  proof (cases "find (\<lambda>r. r \<noteq> [] \<and> has_prefix s r) rs")
    case (Some q)
    then show ?thesis using 1 [OF Some] by (simp add: strip_runes.simps [of rs s])
  qed (simp add: strip_runes.simps [of rs s])
qed

lemma trim_left_not_at_space: "\<not> at_space (trim_left_space s)"
  unfolding at_space_def trim_left_space_def
  using strip_runes_stops white_space_nonempty by blast

function str_fields :: "string \<Rightarrow> string list" where
  "str_fields s = (case trim_left_space s of
     [] \<Rightarrow> []
   | c # cs \<Rightarrow> (let (field, rest) = until_space (c # cs) in field # str_fields rest))"
  by pat_completeness auto
termination
proof (relation "measure length")
  fix s c cs p field rest
  assume t: "trim_left_space s = c # cs" and p: "p = until_space (c # cs)" "(field, rest) = p"
  have "\<not> at_space (c # cs)" using trim_left_not_at_space [of s] by (simp add: t)
  then have "rest = snd (until_space cs)" using p by (auto simp: Let_def split: prod.splits)
  then have "length rest \<le> length cs" using until_space_length by simp
  moreover have "length (c # cs) \<le> length s"
    using strip_runes_length [of white_space s] t by (simp add: trim_left_space_def)
  ultimately show "(rest, s) \<in> measure length" by simp
qed simp

declare str_fields.simps [simp del]

section \<open>Durations\<close>

text \<open>
  \<open>time.ParseDuration\<close>, in nanoseconds. Sums are kept in 64 unsigned bits. \<open>frac f unit k\<close>
  is \<open>uint64(float64(f) * (float64(unit) / scale))\<close> for the scale that \<open>k\<close> multiplications
  by ten give, the only step in floating point.
\<close>

definition wrap64 :: "int \<Rightarrow> int" where
  "wrap64 i = (i + 2 ^ 63) mod 2 ^ 64 - 2 ^ 63"

definition time_quote :: "string \<Rightarrow> string" where
  "time_quote s = CHR 0x22 # concat (map (\<lambda>c. let n = of_char c :: nat in
     if n \<ge> 128 \<or> n < 32 then [CHR 0x5C, CHR ''x'', hex_digit (n div 16), hex_digit (n mod 16)]
     else if c = CHR 0x22 \<or> c = CHR 0x5C then [CHR 0x5C, c] else [c]) s) @ [CHR 0x22]"

fun leading_int :: "int \<Rightarrow> string \<Rightarrow> (int \<times> string) option" where
  "leading_int x [] = Some (x, [])"
| "leading_int x (c # cs) = (case digit_val c of
     None \<Rightarrow> Some (x, c # cs)
   | Some d \<Rightarrow> if x > 2 ^ 63 div 10 \<or> 10 * x + int d > 2 ^ 63 then None else leading_int (10 * x + int d) cs)"

fun leading_fraction :: "bool \<Rightarrow> int \<Rightarrow> nat \<Rightarrow> string \<Rightarrow> int \<times> nat \<times> string" where
  "leading_fraction overflow x k [] = (x, k, [])"
| "leading_fraction overflow x k (c # cs) = (case digit_val c of
     None \<Rightarrow> (x, k, c # cs)
   | Some d \<Rightarrow>
       if overflow \<or> x > (2 ^ 63 - 1) div 10 \<or> 10 * x + int d > 2 ^ 63
       then leading_fraction True x k cs
       else leading_fraction False (10 * x + int d) (Suc k) cs)"

definition duration_unit :: "string \<Rightarrow> int option" where
  "duration_unit u =
     map_of [(''ns'', 1), (''us'', 1000), ([CHR 0xC2, CHR 0xB5, CHR ''s''], 1000),
             ([CHR 0xCE, CHR 0xBC, CHR ''s''], 1000), (''ms'', 1000000), (''s'', 1000000000),
             (''m'', 60000000000), (''h'', 3600000000000)] u"

definition unit_span :: "string \<Rightarrow> string" where
  "unit_span s = takeWhile (\<lambda>c. c \<noteq> CHR ''.'' \<and> digit_val c = None) s"

text \<open>One number with its unit: the value before and after the point, and the rest.\<close>

definition duration_number :: "string \<Rightarrow> (int \<times> int \<times> nat \<times> string) option" where
  "duration_number s = (case leading_int 0 s of
     None \<Rightarrow> None
   | Some (v, s1) \<Rightarrow>
       (let pre = (length s1 \<noteq> length s) in
        case s1 of
          [] \<Rightarrow> (if pre then Some (v, 0, 0, s1) else None)
        | c # t \<Rightarrow>
            if c = CHR ''.''
            then (let (f, k, s2) = leading_fraction False 0 0 t in
                  if pre \<or> length s2 \<noteq> length t then Some (v, f, k, s2) else None)
            else if pre then Some (v, 0, 0, s1) else None))"

lemma leading_int_length: "leading_int x s = Some (v, r) \<Longrightarrow> length r \<le> length s"
  by (induction x s rule: leading_int.induct) (auto split: option.splits if_splits)

lemma leading_fraction_length: "length (snd (snd (leading_fraction ov x k s))) \<le> length s"
  by (induction ov x k s rule: leading_fraction.induct) (auto split: option.splits)

lemma duration_number_length:
  assumes "duration_number s = Some (v, f, k, r)"
  shows "length r \<le> length s"
proof -
  obtain w s1 where s1: "leading_int 0 s = Some (w, s1)" "length s1 \<le> length s"
    using assms leading_int_length by (fastforce simp: duration_number_def split: option.splits)
  have "length r \<le> length s1"
  proof (cases s1)
    case (Cons c t)
    then show ?thesis
      using assms s1 leading_fraction_length [of False 0 0 t]
      by (auto simp: duration_number_def Let_def split: if_splits prod.splits)
  qed (use assms s1 in \<open>auto simp: duration_number_def Let_def split: if_splits\<close>)
  then show ?thesis using s1(2) by simp
qed

lemma duration_rest_length:
  assumes "duration_number s = Some (v, f, k, r)" and "unit_span r \<noteq> []"
  shows "length r - length (unit_span r) < length s"
proof -
  have "length r \<le> length s" by (rule duration_number_length [OF assms(1)])
  moreover have "length (unit_span r) \<le> length r"
    unfolding unit_span_def by (rule length_takeWhile_le)
  moreover have "length (unit_span r) > 0" using assms(2) by simp
  ultimately show ?thesis by linarith
qed

function duration_loop ::
  "(int \<Rightarrow> int \<Rightarrow> nat \<Rightarrow> int) \<Rightarrow> string \<Rightarrow> int \<Rightarrow> string \<Rightarrow> (string, int) outcome" where
  "duration_loop frac orig d s =
     (let invalid = Err (''time: invalid duration '' @ time_quote orig) in
      if s = [] then Ok d
      else if \<not> (hd s = CHR ''.'' \<or> digit_val (hd s) \<noteq> None) then invalid
      else case duration_number s of
        None \<Rightarrow> invalid
      | Some (v, f, k, s2) \<Rightarrow>
          if unit_span s2 = []
          then Err (''time: missing unit in duration '' @ time_quote orig)
          else case duration_unit (unit_span s2) of
            None \<Rightarrow> Err (''time: unknown unit '' @ time_quote (unit_span s2) @
                         '' in duration '' @ time_quote orig)
          | Some unit \<Rightarrow>
              if v > 2 ^ 63 div unit then invalid
              else let v' = (if f > 0 then (v * unit + frac f unit k) mod 2 ^ 64 else v * unit);
                       d' = (d + v') mod 2 ^ 64
                   in if v' > 2 ^ 63 \<or> d' > 2 ^ 63 then invalid
                      else duration_loop frac orig d' (drop (length (unit_span s2)) s2))"
  by pat_completeness auto
termination
  by (relation "measure (\<lambda>(frac, orig, d, s). length s)") (auto intro: duration_rest_length)

declare duration_loop.simps [simp del]

definition parse_duration :: "(int \<Rightarrow> int \<Rightarrow> nat \<Rightarrow> int) \<Rightarrow> string \<Rightarrow> (string, int) outcome" where
  "parse_duration frac s =
     (let invalid = Err (''time: invalid duration '' @ time_quote s);
          (neg, rest) = (case s of
            [] \<Rightarrow> (False, [])
          | c # cs \<Rightarrow> if c = CHR ''-'' then (True, cs)
                      else if c = CHR ''+'' then (False, cs) else (False, s))
      in if rest = ''0'' then Ok 0
         else if rest = [] then invalid
         else case duration_loop frac s 0 rest of
           Ok d \<Rightarrow> if neg then Ok (- d) else if d > 2 ^ 63 - 1 then invalid else Ok d
         | Err e \<Rightarrow> Err e
         | Panic e \<Rightarrow> Panic e)"

end
