(* ===== verification/Redis_Bus.thy ===== *)
theory Redis_Bus
  imports Go_Numbers
begin

text \<open>
  The Redis side of \<open>internal/agency/bus.go\<close>: commands written in the RESP format, and the
  reader of published messages. A connection is the bytes that the \<open>bufio.Reader\<close> has buffered
  and the chunks that later reads of the connection will return, each not empty; when there
  are none left, reading fails. Errors end the read loop, so their reader state is dropped.
\<close>

section \<open>The buffered reader\<close>

record reader =
  rd_buf :: string
  rd_net :: "string list"

definition crlf :: string where
  "crlf = [CHR 0x0D, CHR 0x0A]"

fun read_byte_from :: "string \<Rightarrow> string list \<Rightarrow> (string, char \<times> reader) outcome" where
  "read_byte_from (c # cs) net = Ok (c, \<lparr>rd_buf = cs, rd_net = net\<rparr>)"
| "read_byte_from [] [] = Err ''EOF''"
| "read_byte_from [] (chunk # net) = read_byte_from chunk net"

definition ReadByte :: "reader \<Rightarrow> (string, char \<times> reader) outcome" where
  "ReadByte r = read_byte_from (rd_buf r) (rd_net r)"

text \<open>\<open>ReadString('\n')\<close>, with the text read so far in front.\<close>

fun read_line_from :: "string \<Rightarrow> string \<Rightarrow> string list \<Rightarrow> (string, string \<times> reader) outcome" where
  "read_line_from acc (c # cs) net =
     (if c = CHR 0x0A then Ok (acc @ [c], \<lparr>rd_buf = cs, rd_net = net\<rparr>)
      else read_line_from (acc @ [c]) cs net)"
| "read_line_from acc [] [] = Err ''EOF''"
| "read_line_from acc [] (chunk # net) = read_line_from acc chunk net"

definition ReadLine :: "reader \<Rightarrow> (string, string \<times> reader) outcome" where
  "ReadLine r = read_line_from [] (rd_buf r) (rd_net r)"

text \<open>
  \<open>Read\<close> into a slice of \<open>n\<close> bytes, made of zeros: one call copies what is buffered, or, when
  nothing is, what one read of the connection returns, and no more; the rest stays zero.
\<close>

definition Read :: "nat \<Rightarrow> reader \<Rightarrow> (string, string \<times> reader) outcome" where
  "Read n r =
     (let fill = (\<lambda>buf net. Ok (take n buf @ replicate (n - length buf) (CHR 0x00),
                               \<lparr>rd_buf = drop n buf, rd_net = net\<rparr>))
      in if rd_buf r \<noteq> [] then fill (rd_buf r) (rd_net r)
         else case rd_net r of
           [] \<Rightarrow> Err ''EOF''
         | chunk # net \<Rightarrow> fill chunk net)"

section \<open>Commands and messages\<close>

fun resp_args :: "string list \<Rightarrow> string" where
  "resp_args [] = []"
| "resp_args (arg # args) =
     ''$'' @ show_nat (length arg) @ crlf @ arg @ crlf @ resp_args args"

text \<open>The bytes that \<open>writeRedisCommand\<close> sends.\<close>

definition writeRedisCommand :: "string list \<Rightarrow> string" where
  "writeRedisCommand args = ''*'' @ show_nat (length args) @ crlf @ resp_args args"

text \<open>One element of the reply: a bulk string, or an integer or simple string.\<close>

definition read_part :: "reader \<Rightarrow> (string, string \<times> reader) outcome" where
  "read_part r = obind (ReadByte r) (\<lambda>(kind, r).
     if kind = CHR ''$'' then
       obind (ReadLine r) (\<lambda>(lenLine, r).
         case atoi (trim_space lenLine) of
           None \<Rightarrow> Err ''strconv.Atoi''
         | Some sz \<Rightarrow>
             if sz + 2 < 0 then Panic ''makeslice: len out of range''
             else obind (Read (nat (sz + 2)) r) (\<lambda>(buf, r).
               if sz < 0 then Panic ''slice bounds out of range''
               else Ok (take (nat sz) buf, r)))
     else if kind = CHR '':'' \<or> kind = CHR ''+'' then
       obind (ReadLine r) (\<lambda>(line, r). Ok (trim_space line, r))
     else Err ''unexpected RESP kind'')"

fun read_parts :: "nat \<Rightarrow> string list \<Rightarrow> reader \<Rightarrow> (string, string list \<times> reader) outcome" where
  "read_parts 0 parts r = Ok (parts, r)"
| "read_parts (Suc n) parts r = obind (read_part r) (\<lambda>(part, r). read_parts n (parts @ [part]) r)"

definition readRedisPubSubMessage :: "reader \<Rightarrow> (string, string \<times> reader) outcome" where
  "readRedisPubSubMessage r = obind (ReadByte r) (\<lambda>(prefix, r).
     if prefix \<noteq> CHR ''*'' then Err ''unexpected RESP prefix''
     else obind (ReadLine r) (\<lambda>(countLine, r).
       case atoi (trim_space countLine) of
         None \<Rightarrow> Err ''strconv.Atoi''
       | Some n \<Rightarrow>
           if n < 0 then Panic ''makeslice: cap out of range''
           else obind (read_parts (nat n) [] r) (\<lambda>(parts, r).
             case parts of
               p # ps \<Rightarrow>
                 if p = ''subscribe'' \<or> p = ''psubscribe'' \<or> p = ''pong'' then Ok ([], r)
                 else if length parts < 3 \<or> p \<noteq> ''message'' then Err ''unexpected pubsub payload''
                 else Ok (parts ! 2, r)
             | [] \<Rightarrow> Err ''unexpected pubsub payload'')))"

definition readRedisSimpleResponse :: "reader \<Rightarrow> (string, reader) outcome" where
  "readRedisSimpleResponse r = obind (ReadByte r) (\<lambda>(prefix, r).
     obind (ReadLine r) (\<lambda>(line, r).
       if prefix = CHR ''+'' then Ok r
       else if prefix = CHR ''-'' then Err (''redis error: '' @ trim_space line)
       else Err ''unexpected redis response''))"

section \<open>Reading back what was written\<close>

lemma read_line_from_line:
  "CHR 0x0A \<notin> set line \<Longrightarrow>
   read_line_from acc (line @ CHR 0x0A # rest) net =
     Ok (acc @ line @ [CHR 0x0A], \<lparr>rd_buf = rest, rd_net = net\<rparr>)"
  by (induction line arbitrary: acc) auto

lemma strip_right_crlf:
  "strip_runes (map rev white_space) (CHR 0x0A # CHR 0x0D # s) =
   strip_runes (map rev white_space) s"
  by (simp add: strip_runes.simps [of _ "CHR 0x0A # CHR 0x0D # s"]
      strip_runes.simps [of _ "CHR 0x0D # s"] white_space_def)

lemma trim_show_nat: "trim_space (show_nat n @ crlf) = show_nat n"
proof -
  obtain c s where cs: "show_nat n = c # s" using show_nat_nonempty by (cases "show_nat n") auto
  obtain c' s' where cs': "rev (show_nat n) = c' # s'"
    using show_nat_nonempty [of n] by (cases "rev (show_nat n)") auto
  have "c' \<in> set (rev (show_nat n))" unfolding cs' by simp
  then have "c \<in> set (show_nat n)" "c' \<in> set (show_nat n)" using cs by simp_all
  then have d: "digit_val c \<noteq> None" "digit_val c' \<noteq> None" using show_nat_digits by blast+
  have "trim_left_space (show_nat n @ crlf) = show_nat n @ crlf"
    using strip_left_digit [OF d(1)] by (simp add: trim_left_space_def cs)
  moreover have "strip_runes (map rev white_space) (rev (show_nat n @ crlf)) = rev (show_nat n)"
    using strip_right_digit [OF d(2)] by (simp add: crlf_def strip_right_crlf cs')
  ultimately show ?thesis
    by (simp add: trim_space_def trim_right_space_def)
qed

lemma ReadLine_nat:
  "ReadLine \<lparr>rd_buf = show_nat n @ crlf @ rest, rd_net = net\<rparr> =
     Ok (show_nat n @ crlf, \<lparr>rd_buf = rest, rd_net = net\<rparr>)"
proof -
  have "CHR 0x0A \<notin> set (show_nat n @ [CHR 0x0D])"
    using show_nat_digits [of "CHR 0x0A" n] by (auto simp: digit_val_def)
  from read_line_from_line [OF this, of "[]" rest net] show ?thesis
    by (simp add: ReadLine_def crlf_def)
qed

text \<open>A bulk string whose header is buffered, with \<open>body\<close> buffered behind it.\<close>

lemma read_part_header:
  assumes "int (length arg) < 2 ^ 63" and "body \<noteq> []"
  shows "read_part \<lparr>rd_buf = ''$'' @ show_nat (length arg) @ crlf @ body, rd_net = net\<rparr> =
    Ok (take (length arg) (body @ replicate (length arg + 2 - length body) (CHR 0x00)),
        \<lparr>rd_buf = drop (length arg + 2) body, rd_net = net\<rparr>)"
  using assms
  by (simp add: read_part_def ReadByte_def ReadLine_nat trim_show_nat atoi_show_nat Read_def
      nat_add_distrib take_append min_def)

lemma read_part_bulk:
  assumes "int (length arg) < 2 ^ 63"
  shows "read_part \<lparr>rd_buf = ''$'' @ show_nat (length arg) @ crlf @ arg @ crlf @ rest, rd_net = net\<rparr> =
    Ok (arg, \<lparr>rd_buf = rest, rd_net = net\<rparr>)"
  using read_part_header [OF assms, of "arg @ crlf @ rest" net] by (simp add: crlf_def)

lemma read_parts_args:
  "list_all (\<lambda>a. int (length a) < 2 ^ 63) args \<Longrightarrow>
   read_parts (length args) parts \<lparr>rd_buf = resp_args args @ rest, rd_net = net\<rparr> =
     Ok (parts @ args, \<lparr>rd_buf = rest, rd_net = net\<rparr>)"
proof (induction args arbitrary: parts)
  case (Cons a args)
  then show ?case
    using read_part_bulk [of a "resp_args args @ rest" net] by simp
qed simp

lemma read_header:
  assumes "int n < 2 ^ 63"
  shows "readRedisPubSubMessage \<lparr>rd_buf = ''*'' @ show_nat n @ crlf @ rest, rd_net = net\<rparr> =
    obind (read_parts n [] \<lparr>rd_buf = rest, rd_net = net\<rparr>) (\<lambda>(parts, r).
      case parts of
        p # ps \<Rightarrow>
          if p = ''subscribe'' \<or> p = ''psubscribe'' \<or> p = ''pong'' then Ok ([], r)
          else if length parts < 3 \<or> p \<noteq> ''message'' then Err ''unexpected pubsub payload''
          else Ok (parts ! 2, r)
      | [] \<Rightarrow> Err ''unexpected pubsub payload'')"
  using assms by (simp add: readRedisPubSubMessage_def ReadByte_def ReadLine_nat trim_show_nat
      atoi_show_nat)

end
