(* ===== verification/Bus_Properties.thy ===== *)
theory Bus_Properties
  imports Event_Bus Pubsub Redis_Bus
begin

text \<open>
  The properties of the buses: which step of which state panics, what a publication delivers,
  and when the Redis reader returns what was published.
\<close>

section \<open>The memory bus\<close>

text \<open>
  Property C27. In every reachable state of the memory bus exactly one kind of step panics:
  the end of the context of a subscriber that subscribed before \<open>Close\<close>, when it comes after
  \<open>Close\<close>, which has closed its channel already. Nothing else panics, \<open>Publish\<close> included.
\<close>

theorem memory_bus_panics_iff:
  assumes "mem_reach b"
  shows "is_panic (mem_apply op b) \<longleftrightarrow>
    mb_closed b \<and> (\<exists>i channel. op = Cancel i \<and> (i, channel) \<in> set (mb_watchers b))"
proof -
  have inv: "mem_inv b" using memory_bus.reachable_inv assms by blast
  have cancel: "is_panic (mem_Cancel i b) \<longleftrightarrow> mb_closed b \<and> i \<in> fst ` set (mb_watchers b)" for i
  proof (cases "find (\<lambda>w. fst w = i) (mb_watchers b)")
    case None
    then have "i \<notin> fst ` set (mb_watchers b)" using find_watcher_None [of i "mb_watchers b"] by simp
    then show ?thesis unfolding mem_Cancel_def None by simp
  next
    case (Some w)
    then have mem: "i \<in> fst ` set (mb_watchers b)" using find_watcher [OF Some] by (metis imageI)
    obtain j channel where w: "w = (j, channel)" by (cases w)
    show ?thesis
    proof (cases "mb_closed b")
      case True
      then show ?thesis using mem_Cancel_closed [OF inv True mem] mem by simp
    next
      case False
      then show ?thesis using mem_Cancel_open [OF inv False Some [unfolded w]] by simp
    qed
  qed
  have "\<not> is_panic (mem_Publish s b) \<and> \<not> is_panic (mem_Close b)" for s
  proof (cases "mb_closed b")
    case True
    then show ?thesis by (simp add: mem_Publish_def mem_Close_def)
  next
    case False
    then show ?thesis by (simp add: mem_Publish_eq [OF inv] mem_Close_eq [OF inv])
  qed
  moreover have "i \<in> fst ` set (mb_watchers b) \<longleftrightarrow> (\<exists>channel. (i, channel) \<in> set (mb_watchers b))" for i
    by force
  ultimately show ?thesis using cancel by (cases op) simp_all
qed

definition subscribed_closed_bus :: mem_bus where
  "subscribed_closed_bus = (case mem_Close (snd (mem_Subscribe ''c'' NewMemoryEventBus)) of
     Ok b \<Rightarrow> b | _ \<Rightarrow> NewMemoryEventBus)"

lemma subscribed_closed_reach: "mem_reach subscribed_closed_bus"
proof -
  have close: "mem_apply CloseBus (snd (mem_Subscribe ''c'' NewMemoryEventBus)) = Ok subscribed_closed_bus"
    by code_simp
  have "mem_reach NewMemoryEventBus" by (rule reach_init) simp
  then have "mem_reach (snd (mem_Subscribe ''c'' NewMemoryEventBus))"
    by (rule reach_step) (rule mem_stepI [of "Subscribe ''c''"], simp)
  then show ?thesis by (rule reach_step) (rule mem_stepI [OF close])
qed

theorem memory_bus_panics_iff_witness:
  "is_panic (mem_apply (Cancel 0) subscribed_closed_bus)"
proof -
  have "mb_closed subscribed_closed_bus" "(0, ''c'') \<in> set (mb_watchers subscribed_closed_bus)"
    by code_simp+
  then show ?thesis using memory_bus_panics_iff [OF subscribed_closed_reach] by blast
qed

text \<open>
  \<open>Publish\<close> on an open bus puts the signal at the end of the queue of every
  subscriber of its channel that has fewer than 32 signals waiting, drops it for the others,
  and touches no other queue.
\<close>

theorem memory_bus_delivers:
  assumes "mem_reach b" and "\<not> mb_closed b" and "mem_Publish signal b = Ok b'"
    and "i < length (mb_chans b)"
  shows "ch_queue (mb_chans b' ! i) =
    ch_queue (mb_chans b ! i) @
      (if i \<in> set (mem_group b (ws_Channel signal)) \<and> length (ch_queue (mb_chans b ! i)) < 32
       then [signal] else [])"
proof -
  have inv: "mem_inv b" using memory_bus.reachable_inv assms(1) by blast
  let ?g = "mem_group b (ws_Channel signal)"
  have "ch_cap (mb_chans b ! i) = 32" if "i \<in> set ?g"
    using that mem_group_registered [OF inv, of "ws_Channel signal"] registered_mem [of ?g _ i] inv
    by (auto simp: mem_inv_def bounded_queues_def list_all_length)
  then show ?thesis
    using assms mem_Publish_eq [OF inv, of signal] by (auto simp: offer_def)
qed

definition subscribed_bus :: mem_bus where
  "subscribed_bus = snd (mem_Subscribe ''c'' NewMemoryEventBus)"

theorem memory_bus_delivers_witness:
  "\<exists>b'. mem_Publish (zero_wake_signal\<lparr>ws_Channel := ''c''\<rparr>) subscribed_bus = Ok b' \<and>
     ch_queue (mb_chans b' ! 0) = [zero_wake_signal\<lparr>ws_Channel := ''c''\<rparr>]"
proof -
  let ?s = "zero_wake_signal\<lparr>ws_Channel := ''c''\<rparr>"
  have reach: "mem_reach subscribed_bus"
    unfolding subscribed_bus_def
    by (rule reach_step [OF reach_init [of _ NewMemoryEventBus]])
       (simp, rule mem_stepI [of "Subscribe ''c''"], simp)
  have facts: "\<not> mb_closed subscribed_bus" "0 < length (mb_chans subscribed_bus)"
    "0 \<in> set (mem_group subscribed_bus ''c'')" "ch_queue (mb_chans subscribed_bus ! 0) = []"
    by code_simp+
  obtain b' where b': "mem_Publish ?s subscribed_bus = Ok b'"
    using mem_Publish_eq facts(1) memory_bus.reachable_inv [OF reach] by blast
  show ?thesis
    using memory_bus_delivers [OF reach facts(1) b' facts(2)] facts b' by simp
qed

section \<open>The broker\<close>

text \<open>
  A step of a reachable broker panics exactly when a publisher's next subscriber
  has been closed since the publisher copied the list, or when a \<open>Shutdown\<close> that found \<open>done\<close>
  open comes to close it after another one did.
\<close>

theorem broker_panics_iff:
  assumes "broker_reach b"
  shows "is_panic (broker_apply op b) \<longleftrightarrow>
    (\<exists>k event sub rest. op = PublishSend k \<and> k < length (br_publishers b) \<and>
       br_publishers b ! k = (event, sub # rest) \<and> ch_closed (br_chans b ! sub)) \<or>
    (op = ShutdownClose \<and> 0 < br_closers b \<and> br_done b)"
proof -
  have inv: "broker_inv b" using broker.reachable_inv assms by blast
  have send: "is_panic (publish_send k b) \<longleftrightarrow>
      (\<exists>event sub rest. k < length (br_publishers b) \<and>
         br_publishers b ! k = (event, sub # rest) \<and> ch_closed (br_chans b ! sub))" for k
  proof (cases "k < length (br_publishers b)")
    case True
    obtain e subs where p: "br_publishers b ! k = (e, subs)" by (cases "br_publishers b ! k")
    show ?thesis
    proof (cases subs)
      case (Cons sub rest)
      have "(e, sub # rest) \<in> set (br_publishers b)" using True p Cons nth_mem by metis
      then have "sub < length (br_chans b)"
        using inv by (auto simp: broker_inv_def list_all_iff)
      then show ?thesis using True p Cons by (simp add: publish_send_def try_send_def)
    qed (use True p in \<open>simp add: publish_send_def\<close>)
  qed (simp add: publish_send_def)
  have "\<not> is_panic (br_Cancel sub b)" for sub
    using broker_Cancel_eq [OF inv, of sub] by (auto simp: br_Cancel_def Let_def)
  moreover have "\<not> is_panic (shutdown_locked b)"
    using inv by (simp add: shutdown_locked_def close_all_registered broker_inv_def)
  moreover have "is_panic (shutdown_close b) \<longleftrightarrow> 0 < br_closers b \<and> br_done b"
    by (simp add: shutdown_close_def)
  ultimately show ?thesis using send by (cases op) simp_all
qed

text \<open>Two runs that reach such a state.\<close>

definition race_broker :: "nat broker_op list \<Rightarrow> nat broker" where
  "race_broker ops = (case broker_run ops NewBroker of Ok b \<Rightarrow> b | _ \<Rightarrow> NewBroker)"

lemma race_broker_reach: "broker_reach (race_broker ops)"
proof (cases "broker_run ops (NewBroker :: nat broker)")
  case (Ok b)
  then show ?thesis
    using broker_run_reach [of ops NewBroker b] by (simp add: race_broker_def reach_init)
qed (simp_all add: race_broker_def reach_init)

theorem broker_panics_iff_witness:
  "is_panic (broker_apply (PublishSend 0)
     (race_broker [BrSubscribe, PublishBegin ''created'' 7, BrCancel 0])) \<and>
   is_panic (broker_apply ShutdownClose
     (race_broker [ShutdownCheck, ShutdownCheck, ShutdownClose]))"
proof -
  let ?b = "race_broker [BrSubscribe, PublishBegin ''created'' 7, BrCancel 0]"
  let ?c = "race_broker [ShutdownCheck, ShutdownCheck, ShutdownClose]"
  have "0 < length (br_publishers ?b)" "br_publishers ?b ! 0 = (\<lparr>event_type = ''created'', event_payload = 7\<rparr>, [0])"
    "ch_closed (br_chans ?b ! 0)" "0 < br_closers ?c" "br_done ?c"
    by code_simp+
  then show ?thesis
    using broker_panics_iff [OF race_broker_reach] by blast
qed

section \<open>Redis\<close>

text \<open>
  When the whole of a published message is in the reader's buffer, as one
  command of \<open>writeRedisCommand\<close>, the reader returns its payload and leaves what follows.
\<close>

theorem redis_message_round_trip:
  assumes "int (length channel) < 2 ^ 63" and "int (length payload) < 2 ^ 63"
  shows "readRedisPubSubMessage
      \<lparr>rd_buf = writeRedisCommand [''message'', channel, payload] @ rest, rd_net = net\<rparr> =
    Ok (payload, \<lparr>rd_buf = rest, rd_net = net\<rparr>)"
proof -
  let ?args = "[''message'', channel, payload]"
  have "writeRedisCommand ?args @ rest = ''*'' @ show_nat 3 @ crlf @ resp_args ?args @ rest"
    by (simp add: writeRedisCommand_def numeral_3_eq_3)
  moreover have "read_parts 3 [] \<lparr>rd_buf = resp_args ?args @ rest, rd_net = net\<rparr> =
      Ok (?args, \<lparr>rd_buf = rest, rd_net = net\<rparr>)"
    using read_parts_args [of ?args "[]" rest net] assms
    by (simp add: numeral_3_eq_3 del: read_parts.simps resp_args.simps)
  ultimately show ?thesis
    using read_header [of 3 "resp_args ?args @ rest" net]
    by (simp del: resp_args.simps)
qed

theorem redis_message_round_trip_witness:
  "readRedisPubSubMessage
      \<lparr>rd_buf = writeRedisCommand [''message'', ''agency'', ''{}''] @ ''*'', rd_net = []\<rparr> =
    Ok (''{}'', \<lparr>rd_buf = ''*'', rd_net = []\<rparr>)"
  using redis_message_round_trip [of "''agency''" "''{}''" "''*''" "[]"] by simp

text \<open>
  When the message arrives in two pieces, split inside the payload, the reader
  does not wait for the second: it returns the first \<open>k\<close> bytes of the payload followed by
  zero bytes, without an error, and the next call takes the rest of the payload for the
  start of a message and fails, unless it happens to start with a star.
\<close>

theorem redis_split_message_is_corrupted:
  assumes "int (length channel) < 2 ^ 63" and "int (length payload) < 2 ^ 63"
    and "0 < k" and "k < length payload" and "payload ! k \<noteq> CHR ''*''"
  shows "\<exists>r. readRedisPubSubMessage
      \<lparr>rd_buf = ''*'' @ show_nat 3 @ crlf @ resp_args [''message'', channel] @
               ''$'' @ show_nat (length payload) @ crlf @ take k payload,
       rd_net = (drop k payload @ crlf) # net\<rparr> =
    Ok (take k payload @ replicate (length payload - k) (CHR 0x00), r) \<and>
    readRedisPubSubMessage r = Err ''unexpected RESP prefix''"
proof -
  let ?tail = "''$'' @ show_nat (length payload) @ crlf @ take k payload"
  let ?net = "(drop k payload @ crlf) # net" and ?r = "\<lparr>rd_buf = [], rd_net = (drop k payload @ crlf) # net\<rparr>"
  have len: "length (take k payload) = k" using assms(4) by simp
  have ne: "payload \<noteq> []" using assms(4) by auto
  have part: "read_part \<lparr>rd_buf = ?tail, rd_net = ?net\<rparr> =
      Ok (take k payload @ replicate (length payload - k) (CHR 0x00), ?r)"
    using read_part_header [OF assms(2), of "take k payload" ?net] ne assms(3,4) len by simp
  have first: "read_parts (Suc (Suc (Suc 0))) []
      \<lparr>rd_buf = resp_args [''message'', channel] @ ?tail, rd_net = ?net\<rparr> =
      Ok ([''message'', channel, take k payload @ replicate (length payload - k) (CHR 0x00)], ?r)"
    using read_part_bulk [of "''message''" "resp_args [channel] @ ?tail" ?net]
      read_part_bulk [of channel ?tail ?net] assms(1) part by simp
  then have first3: "read_parts 3 [] \<lparr>rd_buf = resp_args [''message'', channel] @ ?tail, rd_net = ?net\<rparr> =
      Ok ([''message'', channel, take k payload @ replicate (length payload - k) (CHR 0x00)], ?r)"
    by (simp only: numeral_3_eq_3)
  have "readRedisPubSubMessage \<lparr>rd_buf = ''*'' @ show_nat 3 @ crlf @
        resp_args [''message'', channel] @ ?tail, rd_net = ?net\<rparr> =
      Ok (take k payload @ replicate (length payload - k) (CHR 0x00), ?r)"
    using read_header [of 3 "resp_args [''message'', channel] @ ?tail" ?net] first3
    by (simp del: resp_args.simps)
  moreover have "readRedisPubSubMessage ?r = Err ''unexpected RESP prefix''"
    using assms(4,5) by (simp add: readRedisPubSubMessage_def ReadByte_def Cons_nth_drop_Suc [symmetric])
  ultimately show ?thesis by blast
qed

theorem redis_split_message_is_corrupted_witness:
  "\<exists>r. readRedisPubSubMessage
      \<lparr>rd_buf = ''*'' @ show_nat 3 @ crlf @ resp_args [''message'', ''agency''] @
               ''$'' @ show_nat 4 @ crlf @ ''{a'', rd_net = [''b}'' @ crlf]\<rparr> =
    Ok (''{a'' @ [CHR 0x00, CHR 0x00], r) \<and>
    readRedisPubSubMessage r = Err ''unexpected RESP prefix''"
proof -
  have parts: "length ''{ab}'' = 4" "take 2 ''{ab}'' = ''{a''" "drop 2 ''{ab}'' = ''b}''"
    "replicate (4 - 2) (CHR 0x00) = [CHR 0x00, CHR 0x00]" "''{ab}'' ! 2 \<noteq> CHR ''*''"
    by (simp_all add: numeral_2_eq_2)
  show ?thesis
    using redis_split_message_is_corrupted [of "''agency''" "''{ab}''" 2 "[]"] parts(5)
    unfolding parts(1-4) by simp
qed

end
