(* ===== verification/Workers.thy ===== *)
theory Workers
  imports Go_Strings
begin

text \<open>
  The worker manager of \<open>internal/orchestration/manager.go\<close>: a map of workers, each with a
  goroutine that runs it once. The agent that does the work is the runner, which is not part
  of the file: it may refuse, end without a result, or deliver a result or an error, and each
  of these is an operation that carries what the runner did. \<open>rp\<close> is the place in
  \<open>runWorker\<close> where the goroutine of a worker stands. \<open>Spawn\<close> reads the lineage of the parent
  and inserts the worker under two lockings; as a lineage never changes once inserted and
  no worker is removed, it is one step here. Operations carry the clock as \<open>now\<close>.
\<close>

definition WorkerKindSubagent :: string where [simp]: "WorkerKindSubagent = ''subagent''"
definition WorkerKindTeammate :: string where [simp]: "WorkerKindTeammate = ''teammate''"
definition WorkerStatusQueued :: string where [simp]: "WorkerStatusQueued = ''queued''"
definition WorkerStatusRunning :: string where [simp]: "WorkerStatusRunning = ''running''"
definition WorkerStatusCompleted :: string where [simp]: "WorkerStatusCompleted = ''completed''"
definition WorkerStatusFailed :: string where [simp]: "WorkerStatusFailed = ''failed''"
definition WorkerStatusCanceled :: string where [simp]: "WorkerStatusCanceled = ''canceled''"
definition WorkerStateScopeLocal :: string where [simp]: "WorkerStateScopeLocal = ''local''"
definition WorkerCommitmentStateLocal :: string where
  [simp]: "WorkerCommitmentStateLocal = ''local''"
definition WorkerWakeStateWaiting :: string where [simp]: "WorkerWakeStateWaiting = ''waiting''"
definition WorkerWakeStateActive :: string where [simp]: "WorkerWakeStateActive = ''active''"
definition WorkerWakeStateQuiescent :: string where
  [simp]: "WorkerWakeStateQuiescent = ''quiescent''"

record worker =
  wk_ID :: string
  wk_SessionID :: string
  wk_ParentSessionID :: string
  wk_ParentWorkerID :: string
  wk_RootWorkerID :: string
  wk_Lineage :: "string list"
  wk_LineageDepth :: int
  wk_Name :: string
  wk_TeamName :: string
  wk_RoleName :: string
  wk_Kind :: string
  wk_Profile :: string
  wk_Status :: string
  wk_StateScope :: string
  wk_CommitmentState :: string
  wk_WorkspaceMode :: string
  wk_WakeState :: string
  wk_Prompt :: string
  wk_Result :: string
  wk_Error :: string
  wk_StartedAt :: int
  wk_LastSignalAt :: int
  wk_LastHeartbeatAt :: int
  wk_CreatedAt :: int
  wk_UpdatedAt :: int
  wk_CompletedAt :: int

record spawn_params =
  sp_ParentSessionID :: string
  sp_ParentWorkerID :: string
  sp_Name :: string
  sp_TeamName :: string
  sp_RoleName :: string
  sp_Kind :: string
  sp_Profile :: string
  sp_Prompt :: string
  sp_Title :: string
  sp_WorkspaceMode :: string
  sp_StateScope :: string
  sp_CommitmentState :: string

datatype run_place = AtStart | AtRunner | AtResult | AtClose | AtEnd

record worker_state =
  st_worker :: worker
  st_done :: bool
  st_cancelled :: bool
  st_place :: run_place

record manager =
  mg_runner :: bool
  mg_workers :: "(string, worker_state) gomap"

definition NewManager :: manager where
  "NewManager = \<lparr>mg_runner = False, mg_workers = []\<rparr>"

definition SetRunner :: "bool \<Rightarrow> manager \<Rightarrow> manager" where
  "SetRunner present m = m\<lparr>mg_runner := present\<rparr>"

section \<open>Spawning\<close>

definition default_to :: "string \<Rightarrow> string \<Rightarrow> string" where
  "default_to d s = (if s = [] then d else s)"

definition spawn_defaults :: "spawn_params \<Rightarrow> spawn_params" where
  "spawn_defaults p = p
     \<lparr>sp_Kind := default_to WorkerKindSubagent (sp_Kind p),
      sp_Profile := default_to ''coder'' (sp_Profile p),
      sp_WorkspaceMode := default_to ''shared'' (sp_WorkspaceMode p),
      sp_StateScope := default_to WorkerStateScopeLocal (sp_StateScope p),
      sp_CommitmentState := default_to WorkerCommitmentStateLocal (sp_CommitmentState p)\<rparr>"

definition spawn_title :: "spawn_params \<Rightarrow> string" where
  "spawn_title p =
     (if sp_Title p \<noteq> [] then sp_Title p
      else if sp_Kind p = WorkerKindTeammate then ''Teammate: '' @ sp_Name p
      else if sp_Name p = [] then ''Subagent Session''
      else ''Subagent: '' @ sp_Name p)"

definition lineageForSpawn :: "manager \<Rightarrow> string \<Rightarrow> string \<Rightarrow> string \<times> string list" where
  "lineageForSpawn m parentWorkerID workerID =
     (if parentWorkerID = [] then (workerID, [workerID])
      else case map_of (mg_workers m) parentWorkerID of
        None \<Rightarrow> (workerID, [workerID])
      | Some st \<Rightarrow>
          let w = st_worker st;
              root = (if wk_RootWorkerID w = [] then wk_ID w else wk_RootWorkerID w);
              lineage = (if wk_Lineage w = [] then [wk_ID w] else wk_Lineage w)
          in (root, lineage @ [workerID]))"

definition new_worker ::
  "manager \<Rightarrow> spawn_params \<Rightarrow> string \<Rightarrow> string \<Rightarrow> int \<Rightarrow> worker" where
  "new_worker m p workerID sessionID now =
     (let (root, lineage) = lineageForSpawn m (sp_ParentWorkerID p) workerID in
      \<lparr>wk_ID = workerID, wk_SessionID = sessionID, wk_ParentSessionID = sp_ParentSessionID p,
       wk_ParentWorkerID = sp_ParentWorkerID p, wk_RootWorkerID = root, wk_Lineage = lineage,
       wk_LineageDepth = int (length lineage) - 1, wk_Name = sp_Name p,
       wk_TeamName = sp_TeamName p, wk_RoleName = sp_RoleName p, wk_Kind = sp_Kind p,
       wk_Profile = sp_Profile p, wk_Status = WorkerStatusQueued,
       wk_StateScope = sp_StateScope p, wk_CommitmentState = sp_CommitmentState p,
       wk_WorkspaceMode = sp_WorkspaceMode p, wk_WakeState = WorkerWakeStateWaiting,
       wk_Prompt = sp_Prompt p, wk_Result = [], wk_Error = [], wk_StartedAt = 0,
       wk_LastSignalAt = now, wk_LastHeartbeatAt = 0, wk_CreatedAt = now, wk_UpdatedAt = now,
       wk_CompletedAt = 0\<rparr>)"

text \<open>
  \<open>create\<close> stands for \<open>CreateTaskSession\<close> of the session service: it gets the worker's
  identifier, the parent session and the title, and returns the session's identifier.
\<close>

definition Spawn ::
  "(string \<Rightarrow> string \<Rightarrow> string \<Rightarrow> (string, string) outcome) \<Rightarrow> string \<Rightarrow> int \<Rightarrow> spawn_params \<Rightarrow>
   manager \<Rightarrow> (string, worker) outcome \<times> manager" where
  "Spawn create uuid now params m =
     (if \<not> mg_runner m then (Err ''worker runner is not configured'', m)
      else if sp_ParentSessionID params = [] then (Err ''parent session id is required'', m)
      else if sp_Prompt params = [] then (Err ''prompt is required'', m)
      else
        let p = spawn_defaults params in
        case create uuid (sp_ParentSessionID p) (spawn_title p) of
          Err e \<Rightarrow> (Err e, m)
        | Panic e \<Rightarrow> (Panic e, m)
        | Ok sess \<Rightarrow>
            let w = new_worker m p uuid sess now;
                st = \<lparr>st_worker = w, st_done = False, st_cancelled = False, st_place = AtStart\<rparr>
            in (Ok w, m\<lparr>mg_workers := map_put uuid st (mg_workers m)\<rparr>))"

section \<open>Running\<close>

text \<open>\<open>update\<close> and the changes made through it.\<close>

definition update_state ::
  "string \<Rightarrow> (worker_state \<Rightarrow> worker_state) \<Rightarrow> manager \<Rightarrow> manager" where
  "update_state workerID f m = (case map_of (mg_workers m) workerID of
     None \<Rightarrow> m
   | Some st \<Rightarrow> m\<lparr>mg_workers := map_put workerID (f st) (mg_workers m)\<rparr>)"

definition update_worker :: "string \<Rightarrow> (worker \<Rightarrow> worker) \<Rightarrow> manager \<Rightarrow> manager" where
  "update_worker workerID f m =
     update_state workerID (\<lambda>st. st\<lparr>st_worker := f (st_worker st)\<rparr>) m"

definition started :: "int \<Rightarrow> worker \<Rightarrow> worker" where
  "started now w = w\<lparr>wk_Status := WorkerStatusRunning, wk_WakeState := WorkerWakeStateActive,
     wk_StartedAt := now, wk_LastSignalAt := now, wk_LastHeartbeatAt := now,
     wk_UpdatedAt := now\<rparr>"

definition finished :: "int \<Rightarrow> string \<Rightarrow> string \<Rightarrow> string option \<Rightarrow> worker \<Rightarrow> worker" where
  "finished now status content err w = w\<lparr>wk_Status := status, wk_Result := content,
     wk_Error := (case err of Some e \<Rightarrow> e | None \<Rightarrow> []),
     wk_WakeState := WorkerWakeStateQuiescent, wk_LastHeartbeatAt := now,
     wk_CompletedAt := now, wk_UpdatedAt := now\<rparr>"

text \<open>What the runner does: it refuses, or returns a channel that is closed or yields a
  result, which is an error or not.\<close>

datatype runner_event = RunnerRefuses string | ChannelClosed | ResultIs string "string option"

text \<open>The arguments of the call of \<open>finish\<close> that answers it.\<close>

definition run_verdict :: "bool \<Rightarrow> runner_event \<Rightarrow> string \<times> string \<times> string option" where
  "run_verdict cancelled ev = (case ev of
     RunnerRefuses e \<Rightarrow> (WorkerStatusFailed, [], Some e)
   | ChannelClosed \<Rightarrow> (WorkerStatusFailed, [], Some ''worker did not return a result'')
   | ResultIs content (Some e) \<Rightarrow>
       (if cancelled then WorkerStatusCanceled else WorkerStatusFailed, content, Some e)
   | ResultIs content None \<Rightarrow> (WorkerStatusCompleted, content, None))"

text \<open>The steps of \<open>runWorker\<close>: the first update, the call of the runner, the wait for the
  result, the update in \<open>finish\<close>, and the close of \<open>done\<close>.\<close>

definition run_start :: "int \<Rightarrow> worker_state \<Rightarrow> worker_state" where
  "run_start now st = (if st_place st = AtStart
     then st\<lparr>st_worker := started now (st_worker st), st_place := AtRunner\<rparr> else st)"

definition run_call :: "worker_state \<Rightarrow> worker_state" where
  "run_call st = (if st_place st = AtRunner then st\<lparr>st_place := AtResult\<rparr> else st)"

definition run_finish :: "int \<Rightarrow> runner_event \<Rightarrow> worker_state \<Rightarrow> worker_state" where
  "run_finish now ev st =
     (if st_place st = (case ev of RunnerRefuses e \<Rightarrow> AtRunner | _ \<Rightarrow> AtResult)
      then case run_verdict (st_cancelled st) ev of (status, content, err) \<Rightarrow>
        st\<lparr>st_worker := finished now status content err (st_worker st), st_place := AtClose\<rparr>
      else st)"

definition run_close :: "worker_state \<Rightarrow> (string, worker_state) outcome" where
  "run_close st =
     (if st_place st = AtClose
      then if st_done st then Panic ''close of closed channel''
           else Ok (st\<lparr>st_done := True, st_place := AtEnd\<rparr>)
      else Ok st)"

section \<open>The other operations\<close>

definition Get :: "string \<Rightarrow> manager \<Rightarrow> worker option" where
  "Get workerID m = map_option st_worker (map_of (mg_workers m) workerID)"

text \<open>
  \<open>Wait\<close>, or nothing where it blocks. With \<open>ctxErr\<close> the context has ended and \<open>select\<close> has
  taken that branch; when \<open>done\<close> is closed as well Go may take either.
\<close>

definition Wait :: "string option \<Rightarrow> string \<Rightarrow> manager \<Rightarrow> (string, worker) outcome option" where
  "Wait ctxErr workerID m = (case map_of (mg_workers m) workerID of
     None \<Rightarrow> Some (Err (''worker not found: '' @ workerID))
   | Some st \<Rightarrow>
       (case ctxErr of
          Some e \<Rightarrow> Some (Err e)
        | None \<Rightarrow> if st_done st then Some (Ok (st_worker st)) else None))"

definition MarkHeartbeat :: "int \<Rightarrow> string \<Rightarrow> manager \<Rightarrow> manager" where
  "MarkHeartbeat now workerID m =
     update_worker workerID (\<lambda>w. w\<lparr>wk_LastHeartbeatAt := now, wk_UpdatedAt := now\<rparr>) m"

definition RecordSignal :: "int \<Rightarrow> string \<Rightarrow> string \<Rightarrow> manager \<Rightarrow> manager" where
  "RecordSignal now workerID wakeState m =
     update_worker workerID
       (\<lambda>w. w\<lparr>wk_WakeState := wakeState, wk_LastSignalAt := now, wk_UpdatedAt := now\<rparr>) m"

definition SetCommitment :: "int \<Rightarrow> string \<Rightarrow> string \<Rightarrow> string \<Rightarrow> manager \<Rightarrow> manager" where
  "SetCommitment now workerID scope commitment m =
     update_worker workerID
       (\<lambda>w. w\<lparr>wk_StateScope := (if scope \<noteq> [] then scope else wk_StateScope w),
             wk_CommitmentState := (if commitment \<noteq> [] then commitment else wk_CommitmentState w),
             wk_UpdatedAt := now\<rparr>) m"

definition CancelWorker :: "string \<Rightarrow> manager \<Rightarrow> (string, unit) outcome \<times> manager" where
  "CancelWorker workerID m =
     (if map_of (mg_workers m) workerID = None then (Err (''worker not found: '' @ workerID), m)
      else (Ok (), update_state workerID (\<lambda>st. st\<lparr>st_cancelled := True\<rparr>) m))"

definition list_workers :: "(worker \<Rightarrow> bool) \<Rightarrow> manager \<Rightarrow> worker list" where
  "list_workers P m = filter P (map (st_worker \<circ> snd) (mg_workers m))"

definition List_all_workers :: "manager \<Rightarrow> worker list" where
  "List_all_workers m = list_workers (\<lambda>w. True) m"

definition ListByParent :: "string \<Rightarrow> manager \<Rightarrow> worker list" where
  "ListByParent parentSessionID m =
     list_workers (\<lambda>w. wk_ParentSessionID w = parentSessionID) m"

definition ListByTeam :: "string \<Rightarrow> manager \<Rightarrow> worker list" where
  "ListByTeam teamName m = list_workers (\<lambda>w. wk_TeamName w = teamName) m"

definition ListByRoot :: "string \<Rightarrow> manager \<Rightarrow> worker list" where
  "ListByRoot rootWorkerID m =
     list_workers (\<lambda>w. (if wk_RootWorkerID w = [] then wk_ID w else wk_RootWorkerID w)
                       = rootWorkerID) m"

section \<open>The manager as a transition system\<close>

text \<open>A spawned worker gets a fresh identifier, which is what \<open>uuid.NewString\<close> promises.\<close>

inductive manager_step :: "manager \<Rightarrow> manager \<Rightarrow> bool" where
  step_SetRunner: "manager_step m (SetRunner present m)"
| step_Spawn: "uuid \<noteq> [] \<Longrightarrow> uuid \<notin> fst ` set (mg_workers m) \<Longrightarrow>
    Spawn create uuid now params m = (r, m') \<Longrightarrow> manager_step m m'"
| step_start: "manager_step m (update_state i (run_start now) m)"
| step_call: "manager_step m (update_state i run_call m)"
| step_finish: "manager_step m (update_state i (run_finish now ev) m)"
| step_close: "map_of (mg_workers m) i = Some st \<Longrightarrow> run_close st = Ok st' \<Longrightarrow>
    manager_step m (update_state i (\<lambda>st. st') m)"
| step_heartbeat: "manager_step m (MarkHeartbeat now i m)"
| step_signal: "manager_step m (RecordSignal now i wake m)"
| step_commitment: "manager_step m (SetCommitment now i scope commitment m)"
| step_cancel: "CancelWorker i m = (r, m') \<Longrightarrow> manager_step m m'"

abbreviation manager_reach :: "manager \<Rightarrow> bool" where
  "manager_reach \<equiv> reach (\<lambda>m. m = NewManager) manager_step"

end
