(* ===== verification/Workers_Properties.thy ===== *)
theory Workers_Properties
  imports Workers
begin

text \<open>
  The invariant of the worker manager, and its properties: lineages form a tree, and what a
  worker ended with never changes once its \<open>done\<close> channel is closed.
\<close>

section \<open>Look-up after an update\<close>

abbreviation lookup :: "manager \<Rightarrow> string \<Rightarrow> worker_state option" where
  "lookup m \<equiv> map_of (mg_workers m)"

lemma lookup_update_state [map_simps]:
  "lookup (update_state i f m) j = (if j = i then map_option f (lookup m i) else lookup m j)"
  by (simp add: update_state_def map_of_put split: option.split)

lemma wf_update_state [inv_intros]:
  "wf_map (mg_workers m) \<Longrightarrow> wf_map (mg_workers (update_state i f m))"
  by (simp add: update_state_def wf_map_put split: option.split)

section \<open>The invariant\<close>

text \<open>A lineage starts at the root and ends at the worker, and each of its prefixes is the
  lineage of a worker.\<close>

definition lineage_ok :: "manager \<Rightarrow> string \<Rightarrow> worker \<Rightarrow> bool" where
  "lineage_ok m i w \<longleftrightarrow>
     i \<noteq> [] \<and> wk_ID w = i \<and> wk_Lineage w \<noteq> [] \<and> last (wk_Lineage w) = i \<and>
     hd (wk_Lineage w) = wk_RootWorkerID w \<and> distinct (wk_Lineage w) \<and>
     wk_LineageDepth w = int (length (wk_Lineage w)) - 1 \<and>
     (\<forall>n < length (wk_Lineage w). \<exists>st. lookup m (wk_Lineage w ! n) = Some st \<and>
        wk_Lineage (st_worker st) = take (Suc n) (wk_Lineage w))"

definition terminal :: "string \<Rightarrow> bool" where
  "terminal status \<longleftrightarrow>
     status \<in> {WorkerStatusCompleted, WorkerStatusFailed, WorkerStatusCanceled}"

definition place_ok :: "worker_state \<Rightarrow> bool" where
  "place_ok st \<longleftrightarrow> (st_done st \<longleftrightarrow> st_place st = AtEnd) \<and>
     (case st_place st of
        AtStart \<Rightarrow> wk_Status (st_worker st) = WorkerStatusQueued
      | AtRunner \<Rightarrow> wk_Status (st_worker st) = WorkerStatusRunning
      | AtResult \<Rightarrow> wk_Status (st_worker st) = WorkerStatusRunning
      | AtClose \<Rightarrow> terminal (wk_Status (st_worker st))
      | AtEnd \<Rightarrow> terminal (wk_Status (st_worker st)))"

definition manager_inv :: "manager \<Rightarrow> bool" where
  "manager_inv m \<longleftrightarrow> wf_map (mg_workers m) \<and>
     (\<forall>i st. lookup m i = Some st \<longrightarrow> lineage_ok m i (st_worker st) \<and> place_ok st)"

definition same_line :: "worker \<Rightarrow> worker \<Rightarrow> bool" where
  "same_line w w' \<longleftrightarrow> wk_ID w' = wk_ID w \<and> wk_RootWorkerID w' = wk_RootWorkerID w \<and>
     wk_Lineage w' = wk_Lineage w \<and> wk_LineageDepth w' = wk_LineageDepth w"

lemma lineage_ok_update:
  assumes "lineage_ok m j w" and "same_line w w'"
    and "\<And>st. lookup m i = Some st \<Longrightarrow> same_line (st_worker st) (st_worker (f st))"
  shows "lineage_ok (update_state i f m) j w'"
  using assms unfolding lineage_ok_def same_line_def
  by (auto simp: lookup_update_state split: if_splits)

lemma lineage_ok_mono:
  assumes "lineage_ok m j w" and "\<And>k st. lookup m k = Some st \<Longrightarrow> lookup m' k = Some st"
  shows "lineage_ok m' j w"
proof -
  have "\<exists>st. lookup m' (wk_Lineage w ! n) = Some st \<and>
      wk_Lineage (st_worker st) = take (Suc n) (wk_Lineage w)" if "n < length (wk_Lineage w)" for n
    using assms(1) that assms(2) unfolding lineage_ok_def by blast
  then show ?thesis using assms(1) by (simp add: lineage_ok_def)
qed

lemma manager_inv_update:
  assumes "manager_inv m"
    and "\<And>st. lookup m i = Some st \<Longrightarrow> place_ok st \<Longrightarrow>
      same_line (st_worker st) (st_worker (f st)) \<and> place_ok (f st)"
  shows "manager_inv (update_state i f m)"
proof -
  have line: "same_line (st_worker st) (st_worker (f st))" "place_ok (f st)"
    if "lookup m i = Some st" for st
    using assms that by (auto simp: manager_inv_def)
  have "lineage_ok (update_state i f m) j (st_worker st') \<and> place_ok st'"
    if st': "lookup (update_state i f m) j = Some st'" for j st'
  proof (cases "j = i")
    case True
    with st' obtain st where st: "lookup m i = Some st" "st' = f st"
      by (auto simp: lookup_update_state)
    then have "lineage_ok m i (st_worker st)" using assms(1) by (simp add: manager_inv_def)
    then show ?thesis using st line True lineage_ok_update by blast
  next
    case False
    with st' have st: "lookup m j = Some st'" by (simp add: lookup_update_state)
    then have "lineage_ok m j (st_worker st')" "place_ok st'"
      using assms(1) by (simp_all add: manager_inv_def)
    moreover have "same_line (st_worker st') (st_worker st')" by (simp add: same_line_def)
    ultimately show ?thesis using line(1) lineage_ok_update by blast
  qed
  moreover have "wf_map (mg_workers (update_state i f m))"
    using assms(1) wf_update_state by (simp add: manager_inv_def)
  ultimately show ?thesis by (simp add: manager_inv_def)
qed

lemma lineageForSpawn_fresh:
  assumes "manager_inv m" and "i \<noteq> []" and "lookup m i = None"
    and "lineageForSpawn m parent i = (root, lineage)"
  shows "lineage \<noteq> [] \<and> last lineage = i \<and> hd lineage = root \<and> distinct lineage \<and>
    (\<forall>n < length lineage - 1. \<exists>st. lookup m (lineage ! n) = Some st \<and>
       wk_Lineage (st_worker st) = take (Suc n) lineage)"
proof (cases "parent = [] \<or> lookup m parent = None")
  case True
  then have "root = i" "lineage = [i]"
    using assms(4) by (auto simp: lineageForSpawn_def split: if_splits)
  then show ?thesis by simp
next
  case False
  then obtain st where st: "lookup m parent = Some st" by auto
  let ?w = "st_worker st"
  have ok: "lineage_ok m parent ?w" using assms(1) st by (simp add: manager_inv_def)
  then have root: "wk_RootWorkerID ?w \<noteq> []"
    using assms(1) unfolding lineage_ok_def manager_inv_def
    by (metis hd_conv_nth length_greater_0_conv)
  then have l: "lineage = wk_Lineage ?w @ [i]" "root = wk_RootWorkerID ?w"
    using assms(4) False st ok by (auto simp: lineageForSpawn_def Let_def lineage_ok_def)
  have "i \<notin> set (wk_Lineage ?w)"
    using ok assms(3) unfolding lineage_ok_def by (metis in_set_conv_nth option.distinct(1))
  moreover have "\<exists>st'. lookup m (lineage ! n) = Some st' \<and>
      wk_Lineage (st_worker st') = take (Suc n) lineage" if "n < length lineage - 1" for n
    using ok that l by (auto simp: lineage_ok_def nth_append)
  ultimately show ?thesis using ok l by (simp add: lineage_ok_def hd_append)
qed

lemma manager_inv_Spawn:
  assumes "manager_inv m" and "uuid \<noteq> []" and "uuid \<notin> fst ` set (mg_workers m)"
    and "Spawn create uuid now params m = (r, m')"
  shows "manager_inv m'"
proof (cases "m' = m")
  case False
  let ?p = "spawn_defaults params"
  obtain sess where m': "m' = m\<lparr>mg_workers := map_put uuid
      \<lparr>st_worker = new_worker m ?p uuid sess now, st_done = False, st_cancelled = False,
       st_place = AtStart\<rparr> (mg_workers m)\<rparr>"
    using assms(4) False by (auto simp: Spawn_def Let_def split: if_splits outcome.splits)
  let ?w = "new_worker m ?p uuid sess now"
  have none: "lookup m uuid = None" using assms(3) by (simp add: map_of_eq_None_iff)
  obtain root lineage where line: "lineageForSpawn m (sp_ParentWorkerID ?p) uuid = (root, lineage)"
    by (cases "lineageForSpawn m (sp_ParentWorkerID ?p) uuid")
  note fresh = lineageForSpawn_fresh [OF assms(1,2) none line]
  have w: "wk_Lineage ?w = lineage" "wk_RootWorkerID ?w = root" "wk_ID ?w = uuid"
    "wk_LineageDepth ?w = int (length lineage) - 1" "wk_Status ?w = WorkerStatusQueued"
    by (simp_all add: new_worker_def line)
  have look: "lookup m' j = (if j = uuid then Some \<lparr>st_worker = ?w, st_done = False,
      st_cancelled = False, st_place = AtStart\<rparr> else lookup m j)" for j
    by (simp add: m' map_of_put)
  have keep: "lookup m' k = Some st" if "lookup m k = Some st" for k st
    using that none by (auto simp: look)
  have old: "lineage_ok m' j (st_worker st)" if "lookup m j = Some st" for j st
  proof -
    have "lineage_ok m j (st_worker st)" using that assms(1) by (simp add: manager_inv_def)
    then show ?thesis by (rule lineage_ok_mono) (rule keep)
  qed
  have "lineage_ok m' uuid ?w"
    unfolding lineage_ok_def w
  proof (intro conjI allI impI)
    fix n assume n: "n < length lineage"
    show "\<exists>st. lookup m' (lineage ! n) = Some st \<and> wk_Lineage (st_worker st) = take (Suc n) lineage"
    proof (cases "n = length lineage - 1")
      case True
      then have "lineage ! n = uuid" "take (Suc n) lineage = lineage"
        using fresh by (auto simp: last_conv_nth)
      then show ?thesis by (simp add: look w)
    next
      case False
      then have "n < length lineage - 1" using n by simp
      then show ?thesis using fresh keep by blast
    qed
  qed (use fresh assms(2) in auto)
  then show ?thesis
    using assms(1) old w(5) unfolding manager_inv_def look
    by (auto simp: m' wf_map_put place_ok_def)
qed (use assms in simp)

lemma finished_status [simp]: "wk_Status (finished now s c e w) = s"
  by (simp add: finished_def)

lemma same_line_simps [simp]:
  "same_line w w" "same_line w (started now w)" "same_line w (finished now s c e w)"
  by (simp_all add: same_line_def started_def finished_def)

lemma run_verdict_terminal: "run_verdict c ev = (s, content, err) \<Longrightarrow> terminal s"
  by (auto simp: run_verdict_def terminal_def split: runner_event.splits option.splits if_splits)

lemma manager_inv_step:
  assumes "manager_step m m'" and "manager_inv m" shows "manager_inv m'"
  using assms
proof (induction rule: manager_step.induct)
  case (step_SetRunner m present)
  then show ?case by (simp add: SetRunner_def manager_inv_def lineage_ok_def)
next
  case step_Spawn
  then show ?case using manager_inv_Spawn by blast
next
  case (step_start m i now)
  then show ?case
    by (rule manager_inv_update) (auto simp: run_start_def place_ok_def started_def same_line_def)
next
  case (step_call m i)
  then show ?case by (rule manager_inv_update) (auto simp: run_call_def place_ok_def)
next
  case (step_finish m i now ev)
  show ?case
  proof (rule manager_inv_update [OF step_finish])
    fix st assume "place_ok st"
    then show "same_line (st_worker st) (st_worker (run_finish now ev st)) \<and>
        place_ok (run_finish now ev st)"
      using run_verdict_terminal
      by (cases "run_verdict (st_cancelled st) ev")
        (auto simp: run_finish_def place_ok_def split: runner_event.splits)
  qed
next
  case (step_close m i st st')
  show ?case
    by (rule manager_inv_update [OF step_close(3)])
      (use step_close(1,2) in \<open>auto simp: run_close_def place_ok_def split: if_splits\<close>)
next
  case (step_heartbeat m now i)
  then show ?case
    unfolding MarkHeartbeat_def update_worker_def
    by (rule manager_inv_update) (auto simp: place_ok_def same_line_def split: run_place.splits)
next
  case (step_signal m now i wake)
  then show ?case
    unfolding RecordSignal_def update_worker_def
    by (rule manager_inv_update) (auto simp: place_ok_def same_line_def split: run_place.splits)
next
  case (step_commitment m now i scope commitment)
  then show ?case
    unfolding SetCommitment_def update_worker_def
    by (rule manager_inv_update) (auto simp: place_ok_def same_line_def split: run_place.splits)
next
  case (step_cancel i m r m')
  have "manager_inv (update_state i (\<lambda>st. st\<lparr>st_cancelled := True\<rparr>) m)"
    by (rule manager_inv_update [OF step_cancel(2)]) (auto simp: place_ok_def split: run_place.splits)
  then show ?case using step_cancel by (auto simp: CancelWorker_def split: if_splits)
qed

interpretation workers:
  invariant_system "\<lambda>m. m = NewManager" manager_step manager_inv
  by unfold_locales (simp add: manager_inv_def NewManager_def wf_map_def, rule manager_inv_step)

section \<open>What has ended stays as it ended\<close>

definition same_outcome :: "worker \<Rightarrow> worker \<Rightarrow> bool" where
  "same_outcome w w' \<longleftrightarrow> wk_Status w' = wk_Status w \<and> wk_Result w' = wk_Result w \<and>
     wk_Error w' = wk_Error w \<and> wk_CompletedAt w' = wk_CompletedAt w"

definition keeps_ended :: "manager \<Rightarrow> manager \<Rightarrow> bool" where
  "keeps_ended m m' \<longleftrightarrow> (\<forall>i st. lookup m i = Some st \<longrightarrow> st_place st = AtEnd \<longrightarrow>
     (\<exists>st'. lookup m' i = Some st' \<and> st_place st' = AtEnd \<and>
            same_outcome (st_worker st) (st_worker st')))"

lemma keeps_ended_refl: "keeps_ended m m"
  by (simp add: keeps_ended_def same_outcome_def)

lemma same_outcome_trans: "same_outcome u v \<Longrightarrow> same_outcome v w \<Longrightarrow> same_outcome u w"
  by (simp add: same_outcome_def)

lemma keeps_ended_trans:
  assumes "keeps_ended m m'" "keeps_ended m' m''" shows "keeps_ended m m''"
  unfolding keeps_ended_def
proof (intro allI impI)
  fix i st assume "lookup m i = Some st" "st_place st = AtEnd"
  then obtain st1 where 1: "lookup m' i = Some st1" "st_place st1 = AtEnd"
    "same_outcome (st_worker st) (st_worker st1)"
    using assms(1) unfolding keeps_ended_def by blast
  then obtain st2 where "lookup m'' i = Some st2" "st_place st2 = AtEnd"
    "same_outcome (st_worker st1) (st_worker st2)"
    using assms(2) unfolding keeps_ended_def by blast
  then show "\<exists>st'. lookup m'' i = Some st' \<and> st_place st' = AtEnd \<and>
      same_outcome (st_worker st) (st_worker st')"
    using 1(3) same_outcome_trans by blast
qed

lemma keeps_ended_update:
  assumes "\<And>st. lookup m i = Some st \<Longrightarrow> st_place st = AtEnd \<Longrightarrow>
      st_place (f st) = AtEnd \<and> same_outcome (st_worker st) (st_worker (f st))"
  shows "keeps_ended m (update_state i f m)"
  using assms by (auto simp: keeps_ended_def lookup_update_state same_outcome_def)

lemma keeps_ended_step: "manager_step m m' \<Longrightarrow> keeps_ended m m'"
proof (induction rule: manager_step.induct)
  case (step_SetRunner m present)
  then show ?case by (simp add: SetRunner_def keeps_ended_def same_outcome_def)
next
  case (step_Spawn uuid m create now params r m')
  have "lookup m uuid = None" using step_Spawn(2) by (simp add: map_of_eq_None_iff)
  moreover have "m' = m \<or> (\<exists>st. m' = m\<lparr>mg_workers := map_put uuid st (mg_workers m)\<rparr>)"
    using step_Spawn(3) by (auto simp: Spawn_def Let_def split: if_splits outcome.splits)
  ultimately show ?case
    by (auto simp: keeps_ended_def map_of_put same_outcome_def)
next
  case (step_finish m i now ev)
  have "run_finish now ev st = st" if "st_place st = AtEnd" for st
    using that by (simp add: run_finish_def split: runner_event.split)
  then show ?case by (intro keeps_ended_update) (simp add: same_outcome_def)
next
  case (step_close m i st st')
  then show ?case by (intro keeps_ended_update)
    (auto simp: run_close_def same_outcome_def split: if_splits)
next
  case (step_cancel i m r m')
  have "keeps_ended m (update_state i (\<lambda>st. st\<lparr>st_cancelled := True\<rparr>) m)"
    by (rule keeps_ended_update) (simp add: same_outcome_def)
  then show ?case using step_cancel by (auto simp: CancelWorker_def keeps_ended_refl split: if_splits)
next
  case (step_start m i now)
  show ?case by (rule keeps_ended_update) (simp add: run_start_def same_outcome_def)
next
  case (step_call m i)
  show ?case by (rule keeps_ended_update) (simp add: run_call_def same_outcome_def)
next
  case (step_heartbeat m now i)
  show ?case unfolding MarkHeartbeat_def update_worker_def
    by (rule keeps_ended_update) (simp add: same_outcome_def)
next
  case (step_signal m now i wake)
  show ?case unfolding RecordSignal_def update_worker_def
    by (rule keeps_ended_update) (simp add: same_outcome_def)
next
  case (step_commitment m now i scope commitment)
  show ?case unfolding SetCommitment_def update_worker_def
    by (rule keeps_ended_update) (simp add: same_outcome_def)
qed

lemma keeps_ended_steps: "manager_step\<^sup>*\<^sup>* m m' \<Longrightarrow> keeps_ended m m'"
  by (induction rule: rtranclp_induct) (auto intro: keeps_ended_refl keeps_ended_trans keeps_ended_step)

section \<open>Properties\<close>

text \<open>The run of the witnesses: a worker, and a child of it that has ended.\<close>

definition accept_session :: "string \<Rightarrow> string \<Rightarrow> string \<Rightarrow> (string, string) outcome" where
  "accept_session i parent title = Ok i"

definition ask :: "string \<Rightarrow> spawn_params" where
  "ask parent = \<lparr>sp_ParentSessionID = ''s'', sp_ParentWorkerID = parent, sp_Name = [],
     sp_TeamName = [], sp_RoleName = [], sp_Kind = [], sp_Profile = [], sp_Prompt = ''do it'',
     sp_Title = [], sp_WorkspaceMode = [], sp_StateScope = [], sp_CommitmentState = []\<rparr>"

definition spawned :: "string \<Rightarrow> string \<Rightarrow> manager \<Rightarrow> manager" where
  "spawned parent uuid m = snd (Spawn accept_session uuid 5 (ask parent) m)"

definition two_workers :: manager where
  "two_workers = spawned ''a'' ''b'' (spawned [] ''a'' (SetRunner True NewManager))"

definition ended_workers :: manager where
  "ended_workers =
     update_state ''b'' (\<lambda>st. case run_close st of Ok st' \<Rightarrow> st' | _ \<Rightarrow> st)
      (update_state ''b'' (run_finish 9 (ResultIs ''done'' None))
        (update_state ''b'' run_call (update_state ''b'' (run_start 6) two_workers)))"

lemma manager_reach_new: "manager_reach NewManager"
  by (rule reach_init) simp

lemma manager_reach_step: "manager_reach m \<Longrightarrow> manager_step m m' \<Longrightarrow> manager_reach m'"
  by (rule reach_step)

lemma two_workers_reach: "manager_reach two_workers"
proof -
  have fresh: "''a'' \<notin> fst ` set (mg_workers (SetRunner True NewManager))"
    "''b'' \<notin> fst ` set (mg_workers (spawned [] ''a'' (SetRunner True NewManager)))"
    by code_simp+
  have "manager_step m (spawned p u m)" if "u \<noteq> []" "u \<notin> fst ` set (mg_workers m)" for u p m
    unfolding spawned_def by (rule step_Spawn [OF that]) (rule prod.collapse [symmetric])
  then have "manager_step (SetRunner True NewManager) (spawned [] ''a'' (SetRunner True NewManager))"
    "manager_step (spawned [] ''a'' (SetRunner True NewManager)) two_workers"
    unfolding two_workers_def using fresh by blast+
  then show ?thesis
    using manager_reach_new step_SetRunner manager_reach_step by metis
qed

lemma ended_workers_reach: "manager_reach ended_workers"
proof -
  let ?m = "update_state ''b'' (run_finish 9 (ResultIs ''done'' None))
        (update_state ''b'' run_call (update_state ''b'' (run_start 6) two_workers))"
  have m: "manager_reach ?m"
    by (rule manager_reach_step, rule manager_reach_step, rule manager_reach_step,
        rule two_workers_reach, rule step_start, rule step_call, rule step_finish)
  define st where "st = (case lookup ?m ''b'' of Some st \<Rightarrow> st | None \<Rightarrow> undefined)"
  define st' where "st' = (case run_close st of Ok st' \<Rightarrow> st' | _ \<Rightarrow> st)"
  have place: "(case lookup ?m ''b'' of Some st \<Rightarrow> st_place st = AtClose \<and> \<not> st_done st | None \<Rightarrow> False)"
    by code_simp
  then have st: "lookup ?m ''b'' = Some st" "st_place st = AtClose" "\<not> st_done st"
    unfolding st_def by (auto split: option.splits)
  have "run_close st = Ok st'" using st by (simp add: st'_def run_close_def)
  then have "manager_step ?m (update_state ''b'' (\<lambda>st. st') ?m)" using st(1) step_close by blast
  moreover have "ended_workers = update_state ''b'' (\<lambda>st. st') ?m"
    using st(1) by (simp add: ended_workers_def update_state_def st'_def)
  ultimately show ?thesis using m reach_step by metis
qed

text \<open>
  Property C15. In every reachable manager the lineages form a forest: a worker's lineage
  starts at its root, ends at itself, names no worker twice, its depth is one less than its
  length, and every prefix of it is the lineage of the worker the prefix ends in.
\<close>

theorem worker_lineages_form_a_forest:
  assumes "manager_reach m" and "Get i m = Some w" and "n < length (wk_Lineage w)"
  shows "wk_ID w = i \<and> hd (wk_Lineage w) = wk_RootWorkerID w \<and> last (wk_Lineage w) = i \<and>
    distinct (wk_Lineage w) \<and> wk_LineageDepth w = int (length (wk_Lineage w)) - 1 \<and>
    (\<exists>a. Get (wk_Lineage w ! n) m = Some a \<and> wk_Lineage a = take (Suc n) (wk_Lineage w))"
proof -
  obtain st where st: "lookup m i = Some st" "w = st_worker st"
    using assms(2) by (auto simp: Get_def)
  then have "lineage_ok m i w"
    using workers.reachable_inv [OF assms(1)] by (simp add: manager_inv_def)
  then show ?thesis using assms(3) by (force simp: lineage_ok_def Get_def)
qed

theorem worker_lineages_form_a_forest_witness:
  "\<exists>w a. Get ''b'' two_workers = Some w \<and> wk_Lineage w = [''a'', ''b''] \<and>
     wk_RootWorkerID w = ''a'' \<and> Get ''a'' two_workers = Some a \<and> wk_Lineage a = [''a'']"
proof -
  have "(case Get ''b'' two_workers of Some w \<Rightarrow> wk_Lineage w = [''a'', ''b''] | None \<Rightarrow> False)"
    by code_simp
  then obtain w where w: "Get ''b'' two_workers = Some w" "wk_Lineage w = [''a'', ''b'']"
    by (auto split: option.splits)
  show ?thesis
    using worker_lineages_form_a_forest [OF two_workers_reach w(1), of 0] w by auto
qed

text \<open>
  Property C31. \<open>Wait\<close> returns a worker only when it has completed, failed or been canceled,
  and from then on, whatever else is called, it returns the same status, result, error and
  time of completion.
\<close>

theorem worker_outcome_is_final:
  assumes "manager_reach m" and "Wait None i m = Some (Ok w)" and "manager_step\<^sup>*\<^sup>* m m'"
  shows "terminal (wk_Status w) \<and> (\<exists>w'. Wait None i m' = Some (Ok w') \<and> same_outcome w w')"
proof -
  have inv: "manager_inv m" "manager_inv m'"
    using workers.reachable_inv workers.steps_inv assms(1,3) by blast+
  obtain st where st: "lookup m i = Some st" "w = st_worker st" "st_done st"
    using assms(2) by (auto simp: Wait_def split: option.splits if_splits)
  then have "place_ok st" using inv(1) by (simp add: manager_inv_def)
  then have ended: "st_place st = AtEnd" "terminal (wk_Status w)"
    using st by (auto simp: place_ok_def)
  then obtain st' where st': "lookup m' i = Some st'" "st_place st' = AtEnd"
    "same_outcome w (st_worker st')"
    using keeps_ended_steps [OF assms(3)] st by (auto simp: keeps_ended_def)
  then have "st_done st'" using inv(2) by (auto simp: manager_inv_def place_ok_def)
  then show ?thesis using ended st' by (simp add: Wait_def)
qed

theorem worker_outcome_is_final_witness:
  "\<exists>w w'. Wait None ''b'' ended_workers = Some (Ok w) \<and> wk_Result w = ''done'' \<and>
     Wait None ''b'' (RecordSignal 12 ''b'' WorkerWakeStateActive ended_workers) = Some (Ok w') \<and>
     wk_Result w' = ''done''"
proof -
  have "(case Wait None ''b'' ended_workers of Some (Ok w) \<Rightarrow> wk_Result w = ''done'' | _ \<Rightarrow> False)"
    by code_simp
  then obtain w where w: "Wait None ''b'' ended_workers = Some (Ok w)" "wk_Result w = ''done''"
    by (auto split: option.splits outcome.splits)
  show ?thesis
    using worker_outcome_is_final [OF ended_workers_reach w(1) r_into_rtranclp [of manager_step],
        OF step_signal] w
    by (force simp: same_outcome_def)
qed

end
