(* ===== verification/Team_Types.thy ===== *)
theory Team_Types
  imports Go_Strings
begin

text \<open>
  The documents of \<open>internal/team\<close>: one record per Go struct, fields in the order of the
  struct, prefixed with its initials. A map that the code only writes after a nil check, or
  never writes, is a plain association list; the maps of a task board may be nil (stored as
  \<open>null\<close> or left out of the file) and are options, because writing to a nil map panics.
\<close>

datatype json_value = JString string | JInt int | JBool bool | JNull

record task_board =
  tb_TeamName :: string
  tb_Columns :: "(string, string list) gomap option"
  tb_Assignments :: "(string, string) gomap option"
  tb_Constraints :: "(string, json_value) gomap option"

record handoff =
  ho_ID :: string
  ho_TaskID :: string
  ho_FromAgent :: string
  ho_ToAgent :: string
  ho_Status :: string
  ho_WorkSummary :: string
  ho_Artifacts :: "string list"
  ho_AcceptanceCriteria :: "string list"
  ho_CreatedAt :: int
  ho_AcceptedAt :: "int option"
  ho_AcceptedBy :: string
  ho_RejectionReason :: string

record inbox_message =
  im_From :: string
  im_Text :: string
  im_Timestamp :: string
  im_Read :: bool
  im_Summary :: string
  im_Color :: string
  im_Broadcast :: bool

record member =
  mb_AgentName :: string
  mb_RoleName :: string
  mb_SessionID :: string
  mb_WorkerID :: string
  mb_Kind :: string
  mb_Profile :: string
  mb_Status :: string
  mb_LastResult :: string
  mb_ReportsTo :: string
  mb_ParentWorkerID :: string
  mb_RootWorkerID :: string
  mb_Lineage :: "string list"
  mb_LineageDepth :: int
  mb_StateScope :: string
  mb_CommitmentState :: string
  mb_WorkspaceMode :: string
  mb_WakeState :: string
  mb_LastSignalAt :: int
  mb_LastHeartbeatAt :: int
  mb_Leader :: bool
  mb_CanSpawnSubagents :: bool
  mb_UpdatedAt :: int
  mb_CreatedAt :: int

record goal =
  gl_ID :: string
  gl_Description :: string
  gl_Status :: string
  gl_CreatedAt :: int

record role =
  rl_Name :: string
  rl_Responsible :: string
  rl_CurrentFocus :: string
  rl_Agent :: string
  rl_Profile :: string
  rl_Prompt :: string
  rl_ReportsTo :: string
  rl_CanSpawnSubagents :: bool

record working_agreement =
  wa_CommitMessageFormat :: string
  wa_MaxWIP :: int
  wa_HandoffRequires :: "string list"
  wa_ReviewRequired :: bool
  wa_AllowsSubagents :: bool
  wa_LeadershipMode :: string
  wa_DelegationMode :: string
  wa_LocalChatDefault :: string
  wa_ReviewRouting :: string
  wa_SynthesisRouting :: string
  wa_AllowsPeerMessaging :: bool
  wa_AllowsBroadcasts :: bool
  wa_ApprovalRequiredFor :: "string list"
  wa_WorkspaceMode :: string
  wa_PublicationMode :: string
  wa_ConsensusMode :: string
  wa_WakePolicy :: string

record team_context =
  tc_TeamName :: string
  tc_Leader :: string
  tc_Template :: string
  tc_Constitution :: string
  tc_RuntimeMode :: string
  tc_SharedTruth :: string
  tc_Charter :: string
  tc_Goals :: "goal list"
  tc_Roles :: "(string, role) gomap"
  tc_WorkingAgreement :: working_agreement
  tc_CreatedAt :: int
  tc_UpdatedAt :: int

record runtime_record =
  rr_RecordID :: string
  rr_TeamName :: string
  rr_AgentName :: string
  rr_RoleName :: string
  rr_SessionID :: string
  rr_WorkerID :: string
  rr_ParentWorkerID :: string
  rr_RootWorkerID :: string
  rr_ParentAgentName :: string
  rr_Lineage :: "string list"
  rr_LineageDepth :: int
  rr_Kind :: string
  rr_Profile :: string
  rr_Status :: string
  rr_WakeState :: string
  rr_StateScope :: string
  rr_CommitmentState :: string
  rr_WorkspaceMode :: string
  rr_Result :: string
  rr_Error :: string
  rr_Source :: string
  rr_LastSignalAt :: int
  rr_LastHeartbeatAt :: int
  rr_StartedAt :: int
  rr_CompletedAt :: int
  rr_UpdatedAt :: int
  rr_CreatedAt :: int

record runtime_summary =
  rs_Total :: int
  rs_Active :: int
  rs_Local :: int
  rs_Committed :: int
  rs_Pending :: int
  rs_MaxLineageDepth :: int
  rs_ByStatus :: "(string, int) gomap"
  rs_ByWakeState :: "(string, int) gomap"
  rs_ByCommitmentState :: "(string, int) gomap"
  rs_ByWorkspaceMode :: "(string, int) gomap"

record office_roster_row =
  row_AgentName :: string
  row_RoleName :: string
  row_Responsible :: string
  row_SessionID :: string
  row_WorkerID :: string
  row_ReportsTo :: string
  row_Leader :: bool
  row_Kind :: string
  row_Profile :: string
  row_Status :: string
  row_WakeState :: string
  row_StateScope :: string
  row_CommitmentState :: string
  row_WorkspaceMode :: string
  row_Present :: bool
  row_LastActiveAt :: int
  row_LastHeartbeatAt :: int
  row_LineageDepth :: int
  row_CanSpawnChildren :: bool

record office_state =
  of_TeamName :: string
  of_Leader :: string
  of_Constitution :: string
  of_RuntimeMode :: string
  of_SharedTruth :: string
  of_WorkspaceMode :: string
  of_PublicationMode :: string
  of_ConsensusMode :: string
  of_WakePolicy :: string
  of_MaterializedAt :: int
  of_LastActiveAt :: int
  of_LastWakeAt :: int
  of_Roster :: "office_roster_row list"
  of_RuntimeSummary :: runtime_summary
  of_ContinuityStatus :: string

text \<open>What a file of the store may hold, by the Go value that was marshalled into it.\<close>

datatype document =
    BoardDoc task_board
  | HandoffsDoc "handoff list"
  | MembersDoc "member list"
  | ContextDoc team_context
  | RuntimeDoc "runtime_record list"
  | OfficeDoc office_state
  | InboxDoc "inbox_message list"

end
