(* ===== verification/Team_Store.thy ===== *)
theory Team_Store
  imports Team_Types
begin

text \<open>
  The file store of \<open>internal/team/store.go\<close>. A path is the list of its segments below the
  base directory. A file is empty, holds text that \<open>encoding/json\<close> cannot read, or holds a
  marshalled document; unmarshalling a marshalled document gives it back (nil and empty
  slices are one value here), and unmarshalling it into another type fails. The record holds
  what the operating system answers: the error of reading, of creating a directory and of
  writing each path, and what a failed write leaves of the file, which \<open>os.WriteFile\<close>
  truncates first.

  Each read and each write takes the lock of the store for itself: they are the atomic
  steps, and an operation that reads, changes and writes is a sequence of them.
\<close>

section \<open>Names of directories and files\<close>

definition valid_name_char :: "char \<Rightarrow> bool" where
  "valid_name_char c \<longleftrightarrow>
     (let n = of_char c :: nat in
      97 \<le> n \<and> n \<le> 122 \<or> 65 \<le> n \<and> n \<le> 90 \<or> 48 \<le> n \<and> n \<le> 57 \<or> c \<in> set ''._-'')"

text \<open>
  \<open>ReplaceAllString\<close> with \<open>[^a-zA-Z0-9._-]+\<close> and \<open>"-"\<close>: every longest run of other bytes
  becomes one hyphen; \<open>inRun\<close> says that the hyphen of the current run is out already.
\<close>

fun replace_runs :: "bool \<Rightarrow> string \<Rightarrow> string" where
  "replace_runs inRun [] = []"
| "replace_runs inRun (c # cs) =
     (if valid_name_char c then c # replace_runs False cs
      else if inRun then replace_runs True cs
      else CHR ''-'' # replace_runs True cs)"

definition normalizeName :: "string \<Rightarrow> string" where
  "normalizeName name =
     (let name1 = trim_space name;
          name2 = replace_runs False name1;
          name3 = trim_set ''-'' name2
      in if name3 = [] then ''default'' else to_lower_ascii name3)"

definition teamDir :: "string \<Rightarrow> string list" where
  "teamDir teamName =
     (let n = normalizeName teamName in if n = ''.'' then [] else [n])"

definition inboxDir :: "string \<Rightarrow> string list" where
  "inboxDir teamName = teamDir teamName @ [''inboxes'']"

definition json_path :: "string \<Rightarrow> string \<Rightarrow> string list" where
  "json_path teamName filename = teamDir teamName @ [filename]"

definition inbox_path :: "string \<Rightarrow> string \<Rightarrow> string list" where
  "inbox_path teamName agentName = inboxDir teamName @ [normalizeName agentName @ ''.json'']"

section \<open>The file system below the base directory\<close>

datatype stored_file = EmptyFile | BadJSON string | Doc document

record team_store =
  ts_files :: "string list \<Rightarrow> stored_file option"
  ts_dirs :: "string list list"
  ts_readErr :: "string list \<Rightarrow> string option"
  ts_mkdirErr :: "string list \<Rightarrow> string option"
  ts_writeErr :: "string list \<Rightarrow> (string \<times> stored_file) option"
  ts_listErr :: "string option"

definition read_path ::
  "(document \<Rightarrow> 'a option) \<Rightarrow> 'a \<Rightarrow> string list \<Rightarrow> team_store \<Rightarrow> (string, 'a) outcome" where
  "read_path sel zero p st =
     (case ts_readErr st p of
        Some e \<Rightarrow> Err e
      | None \<Rightarrow> (case ts_files st p of
          None \<Rightarrow> Ok zero
        | Some EmptyFile \<Rightarrow> Ok zero
        | Some (BadJSON e) \<Rightarrow> Err e
        | Some (Doc d) \<Rightarrow>
            (case sel d of None \<Rightarrow> Err ''json: cannot unmarshal'' | Some v \<Rightarrow> Ok v)))"

definition make_dir :: "string list \<Rightarrow> team_store \<Rightarrow> (string, unit) outcome \<times> team_store" where
  "make_dir p st =
     (case ts_mkdirErr st p of
        Some e \<Rightarrow> (Err e, st)
      | None \<Rightarrow> (Ok (), if p = [] then st else st\<lparr>ts_dirs := List.insert p (ts_dirs st)\<rparr>))"

definition write_path ::
  "string list \<Rightarrow> document \<Rightarrow> team_store \<Rightarrow> (string, unit) outcome \<times> team_store" where
  "write_path p d st =
     (case ts_writeErr st p of
        Some (e, left_over) \<Rightarrow> (Err e, st\<lparr>ts_files := (ts_files st)(p \<mapsto> left_over)\<rparr>)
      | None \<Rightarrow> (Ok (), st\<lparr>ts_files := (ts_files st)(p \<mapsto> Doc d)\<rparr>))"

section \<open>Operations on the store\<close>

text \<open>An operation returns its outcome and the store it leaves.\<close>

type_synonym 'a store_op = "team_store \<Rightarrow> (string, 'a) outcome \<times> team_store"

definition sret :: "'a \<Rightarrow> 'a store_op" where
  "sret a st = (Ok a, st)"

definition spanic :: "string \<Rightarrow> 'a store_op" where
  "spanic m st = (Panic m, st)"

definition sbind :: "'a store_op \<Rightarrow> ('a \<Rightarrow> 'b store_op) \<Rightarrow> 'b store_op" where
  "sbind m f st =
     (case m st of
        (Ok a, st') \<Rightarrow> f a st'
      | (Err e, st') \<Rightarrow> (Err e, st')
      | (Panic e, st') \<Rightarrow> (Panic e, st'))"

definition readJSON ::
  "(document \<Rightarrow> 'a option) \<Rightarrow> 'a \<Rightarrow> string \<Rightarrow> string \<Rightarrow> 'a store_op" where
  "readJSON sel zero teamName filename st =
     (read_path sel zero (json_path teamName filename) st, st)"

definition ensureTeamDir :: "string \<Rightarrow> unit store_op" where
  "ensureTeamDir teamName = make_dir (teamDir teamName)"

definition writeJSON :: "string \<Rightarrow> string \<Rightarrow> document \<Rightarrow> unit store_op" where
  "writeJSON teamName filename d =
     sbind (ensureTeamDir teamName) (\<lambda>_. write_path (json_path teamName filename) d)"

fun inbox_of :: "document \<Rightarrow> inbox_message list option" where
  "inbox_of (InboxDoc ms) = Some ms"
| "inbox_of d = None"

definition readInbox :: "string \<Rightarrow> string \<Rightarrow> inbox_message list store_op" where
  "readInbox teamName agentName st =
     (read_path inbox_of [] (inbox_path teamName agentName) st, st)"

definition writeInbox :: "string \<Rightarrow> string \<Rightarrow> inbox_message list \<Rightarrow> unit store_op" where
  "writeInbox teamName agentName messages =
     sbind (ensureTeamDir teamName) (\<lambda>_.
     sbind (make_dir (inboxDir teamName)) (\<lambda>_.
     write_path (inbox_path teamName agentName) (InboxDoc messages)))"

definition listTeamNames :: "string list store_op" where
  "listTeamNames st =
     (case ts_listErr st of
        Some e \<Rightarrow> (Err e, st)
      | None \<Rightarrow> (Ok (sort_strings
          (map hd (filter (\<lambda>d. length d = 1 \<and> d \<noteq> [''..'']) (ts_dirs st)))), st))"

end
