(* ===== verification/Team_Store_Facts.thy ===== *)
theory Team_Store_Facts
  imports Team_Store
begin

text \<open>
  Facts about the file store: normal names, the rules of the store operations, and the
  contract \<open>doc_store\<close> between the store and the services above it, stated once for a keyed
  document and interpreted for every file the services keep.
\<close>

section \<open>Normal names\<close>

definition normal_char :: "char \<Rightarrow> bool" where
  "normal_char c \<longleftrightarrow> valid_name_char c \<and> ascii_lower c = c"

definition normal_name :: "string \<Rightarrow> bool" where
  "normal_name n \<longleftrightarrow> n \<noteq> [] \<and> list_all normal_char n \<and> hd n \<noteq> CHR ''-'' \<and> last n \<noteq> CHR ''-''"

lemma valid_hyphen [simp]: "valid_name_char CHR ''-''"
  by (simp add: valid_name_char_def)

lemma replace_runs_valid: "list_all valid_name_char (replace_runs b s)"
  by (induction b s rule: replace_runs.induct) simp_all

lemma replace_runs_id: "list_all valid_name_char s \<Longrightarrow> replace_runs b s = s"
  by (induction b s rule: replace_runs.induct) simp_all

lemma set_trim_set: "set (trim_set cs s) \<subseteq> set s"
  unfolding trim_set_def trim_right_set_def by (auto dest!: set_dropWhileD)

lemma trim_right_set_decomp: "\<exists>t. s = trim_right_set cs s @ t \<and> set t \<subseteq> set cs"
proof -
  have "rev s = takeWhile (\<lambda>c. c \<in> set cs) (rev s) @ dropWhile (\<lambda>c. c \<in> set cs) (rev s)"
    by simp
  then have "s = trim_right_set cs s @ rev (takeWhile (\<lambda>c. c \<in> set cs) (rev s))"
    unfolding trim_right_set_def by (metis rev_append rev_rev_ident)
  then show ?thesis
    using set_takeWhileD [of _ "\<lambda>c. c \<in> set cs" "rev s"] by (metis set_rev subsetI)
qed

lemma last_trim_right_set: "trim_right_set cs s \<noteq> [] \<Longrightarrow> last (trim_right_set cs s) \<notin> set cs"
  unfolding trim_right_set_def
  using hd_dropWhile [of "\<lambda>c. c \<in> set cs" "rev s"] by (simp add: last_rev)

lemma trim_set_ends:
  assumes "trim_set cs s \<noteq> []"
  shows "hd (trim_set cs s) \<notin> set cs" and "last (trim_set cs s) \<notin> set cs"
proof -
  let ?d = "dropWhile (\<lambda>c. c \<in> set cs) s"
  obtain t where t: "?d = trim_set cs s @ t"
    using trim_right_set_decomp [of ?d cs] unfolding trim_set_def by blast
  then have "?d \<noteq> []" and "hd ?d = hd (trim_set cs s)"
    using assms by auto
  then show "hd (trim_set cs s) \<notin> set cs"
    using hd_dropWhile [of "\<lambda>c. c \<in> set cs" s] by simp
  show "last (trim_set cs s) \<notin> set cs"
    using assms last_trim_right_set unfolding trim_set_def by blast
qed

lemma trim_set_id: "s \<noteq> [] \<Longrightarrow> hd s \<notin> set cs \<Longrightarrow> last s \<notin> set cs \<Longrightarrow> trim_set cs s = s"
  unfolding trim_set_def trim_right_set_def
  using dropWhile_eq_self_iff [of "\<lambda>c. c \<in> set cs" s]
    dropWhile_eq_self_iff [of "\<lambda>c. c \<in> set cs" "rev s"]
  by (simp add: hd_rev)

lemma ascii_lower_twice [simp]: "ascii_lower (ascii_lower c) = ascii_lower c"
  by (cases c) (auto simp: ascii_lower_def Let_def)

lemma ascii_lower_upper:
  assumes "65 \<le> (of_char c :: nat)" and "(of_char c :: nat) \<le> 90"
  shows "of_char (ascii_lower c) = (of_char c + 32 :: nat)"
  using assms by (simp add: ascii_lower_def Let_def)

lemma ascii_lower_other:
  "\<not> (65 \<le> (of_char c :: nat) \<and> (of_char c :: nat) \<le> 90) \<Longrightarrow> ascii_lower c = c"
  by (auto simp: ascii_lower_def Let_def)

lemma valid_ascii_lower: "valid_name_char c \<Longrightarrow> valid_name_char (ascii_lower c)"
proof (cases "65 \<le> (of_char c :: nat) \<and> (of_char c :: nat) \<le> 90")
  case True
  then show ?thesis using ascii_lower_upper [of c] by (simp add: valid_name_char_def Let_def)
next
  case False
  then show "valid_name_char c \<Longrightarrow> ?thesis" by (simp add: ascii_lower_other)
qed

lemma ascii_lower_hyphen: "ascii_lower c = CHR ''-'' \<longleftrightarrow> c = CHR ''-''"
proof (cases "65 \<le> (of_char c :: nat) \<and> (of_char c :: nat) \<le> 90")
  case True
  then have "of_char (ascii_lower c) \<noteq> (of_char CHR ''-'' :: nat)" and "c \<noteq> CHR ''-''"
    using ascii_lower_upper [of c] by auto
  then show ?thesis by auto
next
  case False
  then show ?thesis by (simp add: ascii_lower_other)
qed

lemma normal_default: "normal_name ''default''"
  by code_simp

lemma normal_normalizeName: "normal_name (normalizeName name)"
proof -
  define s where "s = trim_set ''-'' (replace_runs False (trim_space name))"
  have valid: "list_all valid_name_char s"
    using replace_runs_valid [of False "trim_space name"] set_trim_set
    unfolding s_def list_all_iff by blast
  show ?thesis
  proof (cases "s = []")
    case True
    then show ?thesis
      using normal_default by (simp add: normalizeName_def Let_def flip: s_def)
  next
    case False
    have "hd s \<noteq> CHR ''-''" and "last s \<noteq> CHR ''-''"
      using trim_set_ends [of "''-''" "replace_runs False (trim_space name)"] False
      unfolding s_def by auto
    moreover have "list_all normal_char (to_lower_ascii s)"
      using valid valid_ascii_lower
      by (auto simp: normal_char_def list_all_iff to_lower_ascii_def)
    ultimately have "normal_name (to_lower_ascii s)"
      using False
      by (simp add: normal_name_def to_lower_ascii_def hd_map last_map ascii_lower_hyphen)
    then show ?thesis
      using False by (simp add: normalizeName_def Let_def flip: s_def)
  qed
qed

lemma white_space_first: "r \<in> set white_space \<Longrightarrow> r \<noteq> [] \<and> \<not> valid_name_char (hd r)"
  unfolding white_space_def by (auto simp: valid_name_char_def)

lemma white_space_last: "r \<in> set white_space \<Longrightarrow> \<not> valid_name_char (last r)"
  unfolding white_space_def by (auto simp: valid_name_char_def)

lemma strip_runes_id:
  assumes "s \<noteq> []" and "\<And>r. r \<in> set rs \<Longrightarrow> r \<noteq> [] \<Longrightarrow> hd r \<noteq> hd s"
  shows "strip_runes rs s = s"
proof -
  have "\<not> (r \<noteq> [] \<and> has_prefix s r)" if "r \<in> set rs" for r
    using assms(2) [OF that] by (auto simp: has_prefix_iff)
  then have "find (\<lambda>r. r \<noteq> [] \<and> has_prefix s r) rs = None"
    by (simp add: find_None_iff)
  then show ?thesis by (subst strip_runes.simps) simp
qed

lemma trim_space_valid:
  assumes "s \<noteq> []" and "list_all valid_name_char s"
  shows "trim_space s = s"
proof -
  have h: "valid_name_char (hd s)" and l: "valid_name_char (last s)"
    using assms by (simp_all add: list_all_iff)
  have "trim_left_space s = s"
    unfolding trim_left_space_def
    using strip_runes_id [OF assms(1)] white_space_first h by metis
  moreover have "strip_runes (map rev white_space) (rev s) = rev s"
  proof (rule strip_runes_id)
    show "rev s \<noteq> []" using assms(1) by simp
    show "hd r \<noteq> hd (rev s)" if "r \<in> set (map rev white_space)" for r
      using that white_space_last l assms(1) by (metis hd_rev image_iff rev_rev_ident set_map)
  qed
  ultimately show ?thesis
    unfolding trim_space_def trim_right_space_def by simp
qed

lemma normalizeName_normal:
  assumes "normal_name n"
  shows "normalizeName n = n"
proof -
  have n: "n \<noteq> []" "list_all valid_name_char n" "to_lower_ascii n = n"
    using assms
    by (auto simp: normal_name_def normal_char_def list_all_iff to_lower_ascii_def intro: map_idI)
  have "trim_set ''-'' n = n"
    by (rule trim_set_id) (use assms in \<open>auto simp: normal_name_def\<close>)
  with n show ?thesis
    by (simp add: normalizeName_def Let_def trim_space_valid replace_runs_id)
qed

lemma teamDir_eq_iff: "teamDir a = teamDir b \<longleftrightarrow> normalizeName a = normalizeName b"
  by (auto simp: teamDir_def Let_def)

lemma json_path_eq_iff [simp]:
  "json_path a f = json_path b g \<longleftrightarrow> normalizeName a = normalizeName b \<and> f = g"
  by (auto simp: json_path_def teamDir_eq_iff)

lemma inbox_path_eq_iff [simp]:
  "inbox_path a x = inbox_path b y \<longleftrightarrow>
     normalizeName a = normalizeName b \<and> normalizeName x = normalizeName y"
  by (auto simp: inbox_path_def inboxDir_def teamDir_eq_iff)

section \<open>Rules of the store operations\<close>

text \<open>The operating system reports no fault.\<close>

definition faultless :: "team_store \<Rightarrow> bool" where
  "faultless st \<longleftrightarrow>
     (\<forall>p. ts_readErr st p = None \<and> ts_mkdirErr st p = None \<and> ts_writeErr st p = None) \<and>
     ts_listErr st = None"

definition same_faults :: "team_store \<Rightarrow> team_store \<Rightarrow> bool" where
  "same_faults st st' \<longleftrightarrow>
     ts_readErr st' = ts_readErr st \<and> ts_mkdirErr st' = ts_mkdirErr st \<and>
     ts_writeErr st' = ts_writeErr st \<and> ts_listErr st' = ts_listErr st"

lemma same_faults_refl [simp]: "same_faults st st"
  by (simp add: same_faults_def)

lemma same_faults_trans: "same_faults a b \<Longrightarrow> same_faults b c \<Longrightarrow> same_faults a c"
  by (simp add: same_faults_def)

lemma faultless_same: "same_faults st st' \<Longrightarrow> faultless st' \<longleftrightarrow> faultless st"
  by (simp add: same_faults_def faultless_def)

lemma sbind_Ok:
  "sbind m f st = (Ok b, st'') \<longleftrightarrow> (\<exists>a st'. m st = (Ok a, st') \<and> f a st' = (Ok b, st''))"
  by (auto simp: sbind_def split: prod.splits outcome.splits)

lemma sbind_step: "m st = (Ok a, st') \<Longrightarrow> sbind m f st = f a st'"
  by (simp add: sbind_def)

lemma sbind_Panic:
  "sbind m f st = (Panic e, st'') \<longleftrightarrow>
     m st = (Panic e, st'') \<or> (\<exists>a st'. m st = (Ok a, st') \<and> f a st' = (Panic e, st''))"
  by (auto simp: sbind_def split: prod.splits outcome.splits)

text \<open>An operation that cannot panic, composed from such operations.\<close>

definition no_panic :: "'a store_op \<Rightarrow> bool" where
  "no_panic m \<longleftrightarrow> (\<forall>st e. fst (m st) \<noteq> Panic e)"

lemma no_panicD: "no_panic m \<Longrightarrow> fst (m st) \<noteq> Panic e"
  by (simp add: no_panic_def)

lemma no_panic_sret [intro]: "no_panic (sret a)"
  by (simp add: no_panic_def sret_def)

lemma no_panic_sbind [intro]:
  "no_panic m \<Longrightarrow> (\<And>a. no_panic (f a)) \<Longrightarrow> no_panic (sbind m f)"
  by (auto simp: no_panic_def sbind_def split: prod.splits outcome.splits) (metis fst_conv)

lemma make_dir_same:
  "make_dir p st = (r, st') \<Longrightarrow> ts_files st' = ts_files st \<and> same_faults st st'"
  by (auto simp: make_dir_def same_faults_def split: option.splits if_splits)

lemma make_dir_no_panic: "make_dir p st \<noteq> (Panic e, st')"
  by (auto simp: make_dir_def split: option.splits)

lemma write_path_same:
  "write_path p d st = (r, st') \<Longrightarrow>
     same_faults st st' \<and> ts_dirs st' = ts_dirs st \<and> (\<forall>q. q \<noteq> p \<longrightarrow> ts_files st' q = ts_files st q)"
  by (auto simp: write_path_def same_faults_def split: option.splits prod.splits)

lemma write_path_Ok: "write_path p d st = (Ok u, st') \<Longrightarrow> ts_files st' p = Some (Doc d)"
  by (auto simp: write_path_def split: option.splits prod.splits)

lemma write_path_no_panic: "write_path p d st \<noteq> (Panic e, st')"
  by (auto simp: write_path_def split: option.splits prod.splits)

lemma read_path_no_panic: "read_path sel zero p st \<noteq> Panic e"
  by (auto simp: read_path_def split: option.splits stored_file.splits)

lemma read_path_cong:
  "ts_files st' p = ts_files st p \<Longrightarrow> same_faults st st' \<Longrightarrow>
   read_path sel zero p st' = read_path sel zero p st"
  by (simp add: read_path_def same_faults_def cong: option.case_cong)

lemma read_path_Doc:
  "ts_files st p = Some (Doc d) \<Longrightarrow> sel d = Some v \<Longrightarrow> ts_readErr st p = None \<Longrightarrow>
   read_path sel zero p st = Ok v"
  by (simp add: read_path_def)

lemma read_path_Ok_readable: "read_path sel zero p st = Ok v \<Longrightarrow> ts_readErr st p = None"
  by (auto simp: read_path_def split: option.splits)

section \<open>The contract between the store and its services\<close>

text \<open>A service reads a whole document, changes it and writes it back.\<close>

definition modify ::
  "('k \<Rightarrow> 'a store_op) \<Rightarrow> ('k \<Rightarrow> 'a \<Rightarrow> unit store_op) \<Rightarrow> 'k \<Rightarrow> ('a \<Rightarrow> 'a) \<Rightarrow> unit store_op" where
  "modify rd wr k f = sbind (rd k) (\<lambda>v. wr k (f v))"

locale doc_store =
  fixes path :: "'k \<Rightarrow> string list"
    and rd :: "'k \<Rightarrow> 'a store_op"
    and wr :: "'k \<Rightarrow> 'a \<Rightarrow> unit store_op"
  assumes rd_state: "rd k st = (r, st') \<Longrightarrow> st' = st"
    and rd_cong: "ts_files st' (path k) = ts_files st (path k) \<Longrightarrow> same_faults st st' \<Longrightarrow>
      fst (rd k st') = fst (rd k st)"
    and rd_wr: "wr k v st = (Ok u, st') \<Longrightarrow> ts_readErr st (path k) = None \<Longrightarrow> fst (rd k st') = Ok v"
    and rd_readable: "fst (rd k st) = Ok v \<Longrightarrow> ts_readErr st (path k) = None"
    and wr_frame: "wr k v st = (w, st') \<Longrightarrow>
      same_faults st st' \<and> (\<forall>q. q \<noteq> path k \<longrightarrow> ts_files st' q = ts_files st q)"
    and wr_faultless: "faultless st \<Longrightarrow> fst (wr k v st) = Ok ()"
    and rd_no_panic: "fst (rd k st) \<noteq> Panic e"
    and wr_no_panic: "fst (wr k v st) \<noteq> Panic e"
begin

lemma rd_eq: "rd k st = (fst (rd k st), st)"
  using rd_state [of k st "fst (rd k st)" "snd (rd k st)"] by (simp add: prod_eq_iff)

lemma rd_np [intro]: "no_panic (rd k)"
  by (simp add: no_panic_def rd_no_panic)

lemma wr_np [intro]: "no_panic (wr k v)"
  by (simp add: no_panic_def wr_no_panic)

lemma rd_after_wr:
  "wr k v st = (Ok u, st') \<Longrightarrow> ts_readErr st (path k) = None \<Longrightarrow> rd k st' = (Ok v, st')"
  using rd_eq [of k st'] rd_wr [of k v st u st'] by simp

lemma rd_after_other:
  "wr k v st = (r, st') \<Longrightarrow> path j \<noteq> path k \<Longrightarrow> fst (rd j st') = fst (rd j st)"
  using wr_frame [of k v st r st'] rd_cong [of st' j st] by auto

lemma modify_Ok:
  assumes "modify rd wr k f st = (Ok u, st')"
  shows "\<exists>v. rd k st = (Ok v, st) \<and> rd k st' = (Ok (f v), st')"
proof -
  from assms obtain v st1 where v: "rd k st = (Ok v, st1)" and w: "wr k (f v) st1 = (Ok u, st')"
    unfolding modify_def sbind_Ok by blast
  have st1: "st1 = st" using rd_state [OF v] .
  have "ts_readErr st (path k) = None"
    by (rule rd_readable [of k st v]) (simp add: v)
  then show ?thesis
    using v w rd_after_wr unfolding st1 by blast
qed

lemma modify_faultless:
  assumes "faultless st" and "rd k st = (Ok v, st)"
  obtains st' where "modify rd wr k f st = (Ok (), st')" and "rd k st' = (Ok (f v), st')"
    and "same_faults st st'" and "\<And>q. q \<noteq> path k \<Longrightarrow> ts_files st' q = ts_files st q"
proof -
  define st' where "st' = snd (wr k (f v) st)"
  have w: "wr k (f v) st = (Ok (), st')"
    using wr_faultless [OF assms(1), of k "f v"] by (simp add: st'_def prod_eq_iff)
  have r: "rd k st' = (Ok (f v), st')"
    by (rule rd_after_wr [OF w]) (use assms(1) in \<open>simp add: faultless_def\<close>)
  have m: "modify rd wr k f st = (Ok (), st')"
    unfolding modify_def sbind_def by (simp add: assms(2) w)
  show ?thesis
    using that [OF m r] wr_frame [OF w] by blast
qed

lemma modify_no_panic: "no_panic (modify rd wr k f)"
  unfolding modify_def by blast

text \<open>
  Two callers that both read before either writes: the document of the first is lost.
\<close>

lemma lost_update:
  assumes "faultless st" and "rd k st = (Ok v, st)"
    and "wr k (f v) st = (r1, st1)" and "wr k (g v) st1 = (r2, st2)"
  shows "r1 = Ok ()" and "r2 = Ok ()" and "rd k st2 = (Ok (g v), st2)"
proof -
  have f1: "faultless st1"
    using wr_frame [OF assms(3)] assms(1) faultless_same by blast
  show "r1 = Ok ()" using wr_faultless [OF assms(1), of k "f v"] assms(3) by simp
  show r2: "r2 = Ok ()" using wr_faultless [OF f1, of k "g v"] assms(4) by simp
  show "rd k st2 = (Ok (g v), st2)"
    by (rule rd_after_wr [OF assms(4) [unfolded r2]]) (use f1 in \<open>simp add: faultless_def\<close>)
qed

end

text \<open>Every file of JSON that the services keep meets the contract, and so do the inboxes.\<close>

lemma ensureTeamDir_faultless:
  assumes "faultless st"
  obtains st1 where "ensureTeamDir t st = (Ok (), st1)" and "faultless st1" and "same_faults st st1"
    and "ts_files st1 = ts_files st"
proof -
  define st1 where "st1 = snd (ensureTeamDir t st)"
  have e: "ensureTeamDir t st = (Ok (), st1)"
    using assms by (simp add: ensureTeamDir_def make_dir_def faultless_def st1_def)
  then have "ts_files st1 = ts_files st \<and> same_faults st st1"
    unfolding ensureTeamDir_def by (rule make_dir_same)
  then show ?thesis using that e assms faultless_same by blast
qed

lemma make_dir_fst: "fst (make_dir p st) \<noteq> Panic e"
  using make_dir_no_panic by (metis prod.collapse)

lemma writeJSON_cases:
  assumes "writeJSON t f d st = (r, st')"
  obtains (no_dir) e where "r = Err e" and "ts_files st' = ts_files st" and "same_faults st st'"
  | (written) st1 where "ensureTeamDir t st = (Ok (), st1)" and "same_faults st st1"
      and "ts_files st1 = ts_files st" and "write_path (json_path t f) d st1 = (r, st')"
proof (cases "ensureTeamDir t st")
  case (Pair r1 st1)
  have same: "ts_files st1 = ts_files st \<and> same_faults st st1"
    using Pair unfolding ensureTeamDir_def by (rule make_dir_same)
  show ?thesis
  proof (cases r1)
    case (Ok u)
    then have "write_path (json_path t f) d st1 = (r, st')"
      using assms Pair by (simp add: writeJSON_def sbind_def)
    then show ?thesis using written Pair Ok same by simp
  next
    case (Err e)
    then have "r = Err e" and "st' = st1"
      using assms Pair by (simp_all add: writeJSON_def sbind_def)
    then show ?thesis using no_dir same by blast
  next
    case (Panic e)
    then show ?thesis using Pair make_dir_no_panic unfolding ensureTeamDir_def by blast
  qed
qed

lemma json_doc_store:
  assumes sel: "\<And>v. sel (con v) = Some v"
  shows "doc_store (\<lambda>t. json_path t f) (\<lambda>t. readJSON sel zero t f) (\<lambda>t v. writeJSON t f (con v))"
proof
  show "st' = st" if "readJSON sel zero k f st = (r, st')" for k st r st'
    using that by (simp add: readJSON_def)
  show "fst (readJSON sel zero k f st') = fst (readJSON sel zero k f st)"
    if "ts_files st' (json_path k f) = ts_files st (json_path k f)" "same_faults st st'" for k st st'
    using read_path_cong [OF that] by (simp add: readJSON_def)
  show "ts_readErr st (json_path k f) = None" if "fst (readJSON sel zero k f st) = Ok v" for k st v
    using that read_path_Ok_readable by (simp add: readJSON_def)
  show "fst (readJSON sel zero k f st) \<noteq> Panic e" for k st e
    by (simp add: readJSON_def read_path_no_panic)
  fix k v st
  show "fst (readJSON sel zero k f st') = Ok v"
    if w: "writeJSON k f (con v) st = (Ok u, st')" and r: "ts_readErr st (json_path k f) = None" for u st'
    using w
  proof (cases rule: writeJSON_cases)
    case (written st1)
    have "ts_readErr st' (json_path k f) = None"
      using r written(2) write_path_same [OF written(4)] by (simp add: same_faults_def)
    then show ?thesis
      using write_path_Ok [OF written(4)] sel by (simp add: readJSON_def read_path_Doc)
  qed simp
  show "same_faults st st' \<and> (\<forall>q. q \<noteq> json_path k f \<longrightarrow> ts_files st' q = ts_files st q)"
    if "writeJSON k f (con v) st = (w, st')" for w st'
    using that
  proof (cases rule: writeJSON_cases)
    case (written st1)
    then show ?thesis using write_path_same [OF written(4)] same_faults_trans by metis
  qed simp
  show "fst (writeJSON k f (con v) st) = Ok ()" if fl: "faultless st"
  proof -
    obtain st1 where "ensureTeamDir k st = (Ok (), st1)" and "faultless st1"
      using ensureTeamDir_faultless [OF fl] by blast
    then show ?thesis
      by (simp add: writeJSON_def sbind_step write_path_def faultless_def)
  qed
  show "fst (writeJSON k f (con v) st) \<noteq> Panic e" for e
  proof
    assume "fst (writeJSON k f (con v) st) = Panic e"
    then have "writeJSON k f (con v) st = (Panic e, snd (writeJSON k f (con v) st))"
      by (simp add: prod_eq_iff)
    then show False
      by (cases rule: writeJSON_cases) (use write_path_no_panic in \<open>auto\<close>)
  qed
qed

lemma writeInbox_cases:
  assumes "writeInbox t a ms st = (r, st')"
  obtains (no_dir) e where "r = Err e" and "ts_files st' = ts_files st" and "same_faults st st'"
  | (written) st2 where "same_faults st st2" and "ts_files st2 = ts_files st"
      and "write_path (inbox_path t a) (InboxDoc ms) st2 = (r, st')"
proof -
  obtain r1 st1 where 1: "make_dir (teamDir t) st = (r1, st1)" by (cases "make_dir (teamDir t) st")
  obtain r2 st2 where 2: "make_dir (inboxDir t) st1 = (r2, st2)" by (cases "make_dir (inboxDir t) st1")
  note same = make_dir_same [OF 1] make_dir_same [OF 2]
  consider e where "r1 = Err e" | u where "r1 = Ok u"
    using 1 make_dir_no_panic by (cases r1) blast+
  then show ?thesis
  proof cases
    case 1
    then have "r = Err e" and "st' = st1"
      using assms \<open>make_dir (teamDir t) st = (r1, st1)\<close>
      by (simp_all add: writeInbox_def ensureTeamDir_def sbind_def)
    then show ?thesis using no_dir same(1) by blast
  next
    case u: 2
    consider e where "r2 = Err e" | v where "r2 = Ok v"
      using 2 make_dir_no_panic by (cases r2) blast+
    then show ?thesis
    proof cases
      case 1
      then have "r = Err e" and "st' = st2"
        using assms u \<open>make_dir (teamDir t) st = (r1, st1)\<close> 2
        by (simp_all add: writeInbox_def ensureTeamDir_def sbind_def)
      then show ?thesis using no_dir same same_faults_trans by metis
    next
      case v: 2
      then have "write_path (inbox_path t a) (InboxDoc ms) st2 = (r, st')"
        using assms u \<open>make_dir (teamDir t) st = (r1, st1)\<close> 2
        by (simp add: writeInbox_def ensureTeamDir_def sbind_def)
      then show ?thesis using written same same_faults_trans by metis
    qed
  qed
qed

lemma inbox_doc_store:
  "doc_store (\<lambda>(t, a). inbox_path t a) (\<lambda>(t, a). readInbox t a) (\<lambda>(t, a) ms. writeInbox t a ms)"
proof (unfold_locales, goal_cases)
  case (1 k st r st')
  then show ?case by (simp add: readInbox_def split: prod.splits)
next
  case (2 st' k st)
  then show ?case using read_path_cong [OF 2] by (simp add: readInbox_def split: prod.splits)
next
  case (3 k v st u st')
  obtain t a where k: "k = (t, a)" by (cases k)
  have w: "writeInbox t a v st = (Ok u, st')" using 3(1) by (simp add: k)
  then show ?case
  proof (cases rule: writeInbox_cases)
    case (written st2)
    have "ts_readErr st' (inbox_path t a) = None"
      using 3(2) written(1) write_path_same [OF written(3)] by (simp add: same_faults_def k)
    then show ?thesis
      using write_path_Ok [OF written(3)] by (simp add: k readInbox_def read_path_Doc)
  qed simp
next
  case (4 k st v)
  then show ?case using read_path_Ok_readable by (simp add: readInbox_def split: prod.splits)
next
  case (5 k v st w st')
  obtain t a where k: "k = (t, a)" by (cases k)
  have w: "writeInbox t a v st = (w, st')" using 5 by (simp add: k)
  then show ?case
  proof (cases rule: writeInbox_cases)
    case (written st2)
    then show ?thesis using write_path_same [OF written(3)] same_faults_trans unfolding k by (metis case_prod_conv)
  qed (simp add: k)
next
  case (6 st k v)
  then show ?case
    by (simp add: writeInbox_def ensureTeamDir_def sbind_def make_dir_def write_path_def faultless_def
        split: prod.splits)
next
  case (7 k st e)
  then show ?case by (simp add: readInbox_def read_path_no_panic split: prod.splits)
next
  case (8 k v st e)
  obtain t a where k: "k = (t, a)" by (cases k)
  show ?case
  proof
    assume "fst ((case k of (t, a) \<Rightarrow> writeInbox t a) v st) = Panic e"
    then have "writeInbox t a v st = (Panic e, snd (writeInbox t a v st))"
      by (simp add: k prod_eq_iff)
    then show False
      by (cases rule: writeInbox_cases) (use write_path_no_panic in \<open>auto\<close>)
  qed
qed

end
