(* ===== verification/Team_Board.thy ===== *)
theory Team_Board
  imports Team_Store_Facts
begin

text \<open>
  The task board of a team, \<open>internal/team/task_board.go\<close>: columns of task identifiers,
  assignments and constraints in one document, read and rewritten whole by every operation.
  \<open>now0\<close> is the clock when a missing board is made, \<open>now\<close> when an operation stamps it.
\<close>

section \<open>The operations\<close>

definition appendUnique :: "string list \<Rightarrow> string \<Rightarrow> string list" where
  "appendUnique existing taskID =
     (if taskID \<in> set existing then existing else existing @ [taskID])"

definition removeTask :: "string list \<Rightarrow> string \<Rightarrow> string list" where
  "removeTask existing taskID = filter (\<lambda>value. value \<noteq> taskID) existing"

definition default_columns :: "(string, string list) gomap" where
  "default_columns =
     [(''backlog'', []), (''ready'', []), (''in_progress'', []), (''in_review'', []),
      (''done'', []), (''blocked'', [])]"

definition defaultBoard :: "string \<Rightarrow> int \<Rightarrow> task_board" where
  "defaultBoard teamName now =
     \<lparr>tb_TeamName = teamName, tb_Columns = Some default_columns, tb_Assignments = Some [],
      tb_Constraints = Some [(''maxWip'', JInt 3), (''updatedAt'', JInt now)]\<rparr>"

definition zero_board :: task_board where
  "zero_board =
     \<lparr>tb_TeamName = [], tb_Columns = None, tb_Assignments = None, tb_Constraints = None\<rparr>"

fun board_of :: "document \<Rightarrow> task_board option" where
  "board_of (BoardDoc b) = Some b"
| "board_of d = None"

abbreviation read_board :: "string \<Rightarrow> task_board store_op" where
  "read_board t \<equiv> readJSON board_of zero_board t ''task_board.json''"

abbreviation write_board :: "string \<Rightarrow> task_board \<Rightarrow> unit store_op" where
  "write_board t b \<equiv> writeJSON t ''task_board.json'' (BoardDoc b)"

definition ReadBoard :: "string \<Rightarrow> task_board option store_op" where
  "ReadBoard teamName =
     sbind (read_board teamName) (\<lambda>board.
     sret (if tb_TeamName board = [] then None else Some board))"

definition CreateBoard :: "string \<Rightarrow> int \<Rightarrow> task_board store_op" where
  "CreateBoard teamName now0 =
     sbind (ReadBoard teamName) (\<lambda>found.
     case found of
       Some board \<Rightarrow> sret board
     | None \<Rightarrow>
         (let board = defaultBoard teamName now0 in
          sbind (write_board teamName board) (\<lambda>_. sret board)))"

text \<open>A write to a nil map panics.\<close>

definition nil_map_put ::
  "string \<Rightarrow> 'v \<Rightarrow> (string, 'v) gomap option \<Rightarrow> (string, (string, 'v) gomap option) outcome" where
  "nil_map_put k v m =
     (case m of None \<Rightarrow> Panic ''assignment to entry in nil map'' | Some m' \<Rightarrow> Ok (Some (map_put k v m')))"

definition slift :: "(string, 'a) outcome \<Rightarrow> 'a store_op" where
  "slift r st = (r, st)"

definition put_assignment :: "string \<Rightarrow> string \<Rightarrow> task_board \<Rightarrow> (string, task_board) outcome" where
  "put_assignment taskID agent board =
     obind (nil_map_put taskID agent (tb_Assignments board)) (\<lambda>m.
     Ok (board\<lparr>tb_Assignments := m\<rparr>))"

definition put_updated :: "int \<Rightarrow> task_board \<Rightarrow> (string, task_board) outcome" where
  "put_updated now board =
     obind (nil_map_put ''updatedAt'' (JInt now) (tb_Constraints board)) (\<lambda>m.
     Ok (board\<lparr>tb_Constraints := m\<rparr>))"

text \<open>The columns of a board, with the default ones in place of nil.\<close>

definition ensure_columns :: "task_board \<Rightarrow> (string, string list) gomap" where
  "ensure_columns board =
     (case tb_Columns board of None \<Rightarrow> default_columns | Some cs \<Rightarrow> cs)"

definition move_columns ::
  "string \<Rightarrow> string \<Rightarrow> string \<Rightarrow> (string, string list) gomap \<Rightarrow> (string, string list) gomap" where
  "move_columns taskID fromColumn toColumn cols =
     (let cols1 = (if fromColumn \<noteq> []
                   then map_put fromColumn (removeTask (map_get_or [] cols fromColumn) taskID) cols
                   else cols);
          cols2 = map (\<lambda>(column, tasks).
                    (column, if column \<noteq> fromColumn then removeTask tasks taskID else tasks)) cols1
      in map_put toColumn (appendUnique (map_get_or [] cols2 toColumn) taskID) cols2)"

definition MoveTask ::
  "string \<Rightarrow> string \<Rightarrow> string \<Rightarrow> string \<Rightarrow> string \<Rightarrow> int \<Rightarrow> int \<Rightarrow> task_board store_op" where
  "MoveTask teamName taskID fromColumn toColumn agent now0 now =
     sbind (CreateBoard teamName now0) (\<lambda>board.
     let board1 = board\<lparr>tb_Columns :=
           Some (move_columns taskID fromColumn toColumn (ensure_columns board))\<rparr> in
     sbind (slift (if agent \<noteq> [] then put_assignment taskID agent board1 else Ok board1)) (\<lambda>board2.
     sbind (slift (put_updated now board2)) (\<lambda>board3.
     sbind (write_board teamName board3) (\<lambda>_. sret board3))))"

definition AddTaskToColumn ::
  "string \<Rightarrow> string \<Rightarrow> string \<Rightarrow> int \<Rightarrow> int \<Rightarrow> task_board store_op" where
  "AddTaskToColumn teamName taskID column now0 now =
     sbind (CreateBoard teamName now0) (\<lambda>board.
     let cols = ensure_columns board;
         board1 = board\<lparr>tb_Columns :=
           Some (map_put column (appendUnique (map_get_or [] cols column) taskID) cols)\<rparr> in
     sbind (slift (put_updated now board1)) (\<lambda>board2.
     sbind (write_board teamName board2) (\<lambda>_. sret board2)))"

definition AssignTask ::
  "string \<Rightarrow> string \<Rightarrow> string \<Rightarrow> int \<Rightarrow> int \<Rightarrow> task_board store_op" where
  "AssignTask teamName taskID agent now0 now =
     sbind (CreateBoard teamName now0) (\<lambda>board.
     sbind (slift (put_assignment taskID agent board)) (\<lambda>board1.
     sbind (slift (put_updated now board1)) (\<lambda>board2.
     sbind (write_board teamName board2) (\<lambda>_. sret board2))))"

definition board_columns :: "task_board \<Rightarrow> (string, string list) gomap" where
  "board_columns board = (case tb_Columns board of None \<Rightarrow> [] | Some cs \<Rightarrow> cs)"

text \<open>The first column, in the order of the iteration, that holds the task.\<close>

definition GetTaskLocation :: "string \<Rightarrow> string \<Rightarrow> int \<Rightarrow> string store_op" where
  "GetTaskLocation teamName taskID now0 =
     sbind (CreateBoard teamName now0) (\<lambda>board.
     sret (case find (\<lambda>(column, tasks). taskID \<in> set tasks) (board_columns board) of
       Some (column, tasks) \<Rightarrow> column
     | None \<Rightarrow> []))"

definition summarizeBoard :: "task_board option \<Rightarrow> (string, int) gomap" where
  "summarizeBoard board =
     (case board of
        None \<Rightarrow> []
      | Some b \<Rightarrow> map (\<lambda>(column, tasks). (column, int (length tasks))) (board_columns b))"

definition GetBoardSummary :: "string \<Rightarrow> int \<Rightarrow> (string, int) gomap store_op" where
  "GetBoardSummary teamName now0 =
     sbind (CreateBoard teamName now0) (\<lambda>board.
     sret (map (\<lambda>(column, tasks). (column, int (length tasks))) (board_columns board)))"

section \<open>Facts\<close>

interpretation board_store: doc_store
  "\<lambda>t. json_path t ''task_board.json''" read_board write_board
  by (rule json_doc_store) simp

lemma removeTask_eq [simp]: "removeTask ts task = removeAll task ts"
  by (induction ts) (auto simp: removeTask_def)

lemma set_appendUnique [simp]: "set (appendUnique ts task) = insert task (set ts)"
  by (auto simp: appendUnique_def)

lemma removeAll_appendUnique [simp]: "removeAll task (appendUnique ts task) = removeAll task ts"
  by (simp add: appendUnique_def)

lemma map_get_or_put:
  "map_get_or d (map_put k v m) j = (if j = k then v else map_get_or d m j)"
  by (simp add: map_get_or_def map_simps)

lemma map_of_map_value: "map_of (map (\<lambda>(k, v). (k, f k v)) m) k = map_option (f k) (map_of m k)"
  by (induction m) auto

lemma map_get_or_map:
  "f k d = d \<Longrightarrow> map_get_or d (map (\<lambda>(k, v). (k, f k v)) m) k = f k (map_get_or d m k)"
  by (simp add: map_get_or_def map_of_map_value split: option.split)

abbreviation column_of :: "(string, string list) gomap \<Rightarrow> string \<Rightarrow> string list" where
  "column_of \<equiv> map_get_or []"

lemma column_of_default [simp]: "column_of default_columns c = []"
  by (simp add: map_get_or_def default_columns_def)

lemma column_of_ensure: "column_of (ensure_columns b) c = column_of (board_columns b) c"
  by (cases "tb_Columns b") (simp_all add: ensure_columns_def board_columns_def map_get_or_def default_columns_def)

lemma column_of_move:
  "column_of (move_columns task from to cols) c =
     (let old = column_of cols c;
          rest = (if c = [] \<and> from = [] then old else removeTask old task)
      in if c = to then appendUnique rest task else rest)"
  by (auto simp: move_columns_def Let_def map_get_or_put map_get_or_map)

lemma ReadBoard_Ok:
  "ReadBoard t st = (Ok found, st') \<longleftrightarrow>
     st' = st \<and> (\<exists>b. read_board t st = (Ok b, st) \<and> found = (if tb_TeamName b = [] then None else Some b))"
proof -
  have "st1 = st" if "read_board t st = (r, st1)" for r st1
    using board_store.rd_state that .
  then show ?thesis
    unfolding ReadBoard_def sbind_Ok by (auto simp: sret_def)
qed

lemma CreateBoard_cases:
  assumes "CreateBoard t now0 st = (Ok b, st')"
  obtains (found) "st' = st" and "read_board t st = (Ok b, st)" and "tb_TeamName b \<noteq> []"
  | (made) b0 where "read_board t st = (Ok b0, st)" and "tb_TeamName b0 = []"
      and "b = defaultBoard t now0" and "write_board t b st = (Ok (), st')"
proof -
  obtain fd st1 where r: "ReadBoard t st = (Ok fd, st1)"
    and rest: "(case fd of Some b \<Rightarrow> sret b
       | None \<Rightarrow> let b = defaultBoard t now0 in sbind (write_board t b) (\<lambda>_. sret b)) st1 = (Ok b, st')"
    using assms unfolding CreateBoard_def sbind_Ok by blast
  obtain b0 where st1: "st1 = st" and b0: "read_board t st = (Ok b0, st)"
    and f: "fd = (if tb_TeamName b0 = [] then None else Some b0)"
    using r unfolding ReadBoard_Ok by blast
  show ?thesis
  proof (cases "tb_TeamName b0 = []")
    case True
    then show ?thesis
      using made [OF b0] rest by (auto simp: f st1 Let_def sbind_Ok sret_def)
  next
    case False
    then show ?thesis using found rest b0 by (simp add: f st1 sret_def)
  qed
qed

lemma CreateBoard_readable:
  assumes "CreateBoard t now0 st = (Ok b, st')"
  shows "ts_readErr st' (json_path t ''task_board.json'') = None"
    and "tb_TeamName b = [] \<Longrightarrow> t = []"
proof -
  have free: "ts_readErr st (json_path t ''task_board.json'') = None"
    if "read_board t st = (Ok b1, st)" for b1
    using board_store.rd_readable [of t st b1] that by simp
  show "ts_readErr st' (json_path t ''task_board.json'') = None"
    using assms
  proof (cases rule: CreateBoard_cases)
    case (made b0)
    then show ?thesis using board_store.wr_frame [OF made(4)] free by (simp add: same_faults_def)
  qed (simp add: free)
  show "t = []" if "tb_TeamName b = []"
    using assms by (cases rule: CreateBoard_cases) (use that in \<open>simp_all add: defaultBoard_def\<close>)
qed

lemma write_then_ReadBoard:
  assumes "write_board t b st = (Ok u, st')" and "ts_readErr st (json_path t ''task_board.json'') = None"
    and "tb_TeamName b \<noteq> []"
  shows "ReadBoard t st' = (Ok (Some b), st')"
  unfolding ReadBoard_Ok using board_store.rd_after_wr [OF assms(1,2)] assms(3) by auto

lemma slift_Ok [simp]: "slift r st = (Ok a, st') \<longleftrightarrow> r = Ok a \<and> st' = st"
  by (auto simp: slift_def)

lemma put_assignment_Ok:
  "put_assignment task agent b = Ok b' \<Longrightarrow>
     tb_TeamName b' = tb_TeamName b \<and> tb_Columns b' = tb_Columns b \<and> tb_Constraints b' = tb_Constraints b"
  by (auto simp: put_assignment_def)

lemma put_updated_Ok:
  "put_updated now b = Ok b' \<Longrightarrow>
     tb_TeamName b' = tb_TeamName b \<and> tb_Columns b' = tb_Columns b \<and> tb_Assignments b' = tb_Assignments b"
  by (auto simp: put_updated_def)

lemma MoveTask_Ok:
  assumes "MoveTask t task from to agent now0 now st = (Ok b, st')"
  obtains b0 st0 where "CreateBoard t now0 st = (Ok b0, st0)" and "tb_TeamName b = tb_TeamName b0"
    and "tb_Columns b = Some (move_columns task from to (ensure_columns b0))"
    and "write_board t b st0 = (Ok (), st')"
proof -
  obtain b0 st0 where c: "CreateBoard t now0 st = (Ok b0, st0)"
    and rest: "(let board1 = b0\<lparr>tb_Columns := Some (move_columns task from to (ensure_columns b0))\<rparr> in
      sbind (slift (if agent \<noteq> [] then put_assignment task agent board1 else Ok board1)) (\<lambda>board2.
      sbind (slift (put_updated now board2)) (\<lambda>board3.
      sbind (write_board t board3) (\<lambda>_. sret board3)))) st0 = (Ok b, st')"
    using assms unfolding MoveTask_def sbind_Ok by blast
  from rest have "tb_TeamName b = tb_TeamName b0
      \<and> tb_Columns b = Some (move_columns task from to (ensure_columns b0))
      \<and> write_board t b st0 = (Ok (), st')"
    by (auto simp: Let_def sbind_Ok sret_def dest!: put_assignment_Ok put_updated_Ok split: if_splits)
  then show ?thesis using that c by blast
qed

lemma CreateBoard_no_panic: "no_panic (CreateBoard t now0)"
  unfolding CreateBoard_def ReadBoard_def Let_def
  by (intro no_panic_sbind board_store.rd_np no_panic_sret) (auto split: option.split)

end
