(* ===== verification/Team_Handoff.thy ===== *)
theory Team_Handoff
  imports Team_Store_Facts
begin

text \<open>
  Handoffs of work between agents, \<open>internal/team/handoff.go\<close>: an append-only list whose
  elements are decided in place. \<open>hid\<close> is the identifier \<open>uuid.NewString\<close> returns.
\<close>

fun handoffs_of :: "document \<Rightarrow> handoff list option" where
  "handoffs_of (HandoffsDoc hs) = Some hs"
| "handoffs_of d = None"

definition load_handoffs :: "string \<Rightarrow> handoff list store_op" where
  "load_handoffs teamName = readJSON handoffs_of [] teamName ''handoffs.json''"

definition save_handoffs :: "string \<Rightarrow> handoff list \<Rightarrow> unit store_op" where
  "save_handoffs teamName hs = writeJSON teamName ''handoffs.json'' (HandoffsDoc hs)"

definition CreateHandoff ::
  "string \<Rightarrow> string \<Rightarrow> string \<Rightarrow> string \<Rightarrow> string \<Rightarrow> string list \<Rightarrow> string list \<Rightarrow>
   string \<Rightarrow> int \<Rightarrow> handoff store_op" where
  "CreateHandoff teamName taskID fromAgent toAgent workSummary artifacts criteria hid now =
     sbind (load_handoffs teamName) (\<lambda>handoffs.
     let h = \<lparr>ho_ID = hid, ho_TaskID = taskID, ho_FromAgent = fromAgent, ho_ToAgent = toAgent,
              ho_Status = ''pending'', ho_WorkSummary = workSummary, ho_Artifacts = artifacts,
              ho_AcceptanceCriteria = criteria, ho_CreatedAt = now, ho_AcceptedAt = None,
              ho_AcceptedBy = [], ho_RejectionReason = []\<rparr> in
     sbind (save_handoffs teamName (handoffs @ [h])) (\<lambda>_. sret h))"

definition ReadHandoff :: "string \<Rightarrow> string \<Rightarrow> handoff option store_op" where
  "ReadHandoff teamName handoffID =
     sbind (load_handoffs teamName) (\<lambda>handoffs.
     sret (find (\<lambda>h. ho_ID h = handoffID) handoffs))"

text \<open>The loop of \<open>Accept\<close> and \<open>Reject\<close>: the first handoff with the identifier is changed.\<close>

fun decide_first ::
  "string \<Rightarrow> (handoff \<Rightarrow> handoff) \<Rightarrow> handoff list \<Rightarrow> (handoff \<times> handoff list) option" where
  "decide_first handoffID f [] = None"
| "decide_first handoffID f (h # hs) =
     (if ho_ID h = handoffID then Some (f h, f h # hs)
      else map_option (\<lambda>(h', hs'). (h', h # hs')) (decide_first handoffID f hs))"

definition decide_handoff ::
  "string \<Rightarrow> string \<Rightarrow> (handoff \<Rightarrow> handoff) \<Rightarrow> handoff option store_op" where
  "decide_handoff teamName handoffID f =
     sbind (load_handoffs teamName) (\<lambda>handoffs.
     case decide_first handoffID f handoffs of
       None \<Rightarrow> sret None
     | Some (h, handoffs') \<Rightarrow> sbind (save_handoffs teamName handoffs') (\<lambda>_. sret (Some h)))"

definition accepted :: "string \<Rightarrow> int \<Rightarrow> handoff \<Rightarrow> handoff" where
  "accepted acceptedBy now h =
     h\<lparr>ho_Status := ''accepted'', ho_AcceptedBy := acceptedBy, ho_AcceptedAt := Some now\<rparr>"

definition rejected :: "string \<Rightarrow> string \<Rightarrow> handoff \<Rightarrow> handoff" where
  "rejected rejectedBy reason h =
     h\<lparr>ho_Status := ''rejected'', ho_AcceptedBy := rejectedBy, ho_RejectionReason := reason\<rparr>"

definition AcceptHandoff :: "string \<Rightarrow> string \<Rightarrow> string \<Rightarrow> int \<Rightarrow> handoff option store_op" where
  "AcceptHandoff teamName handoffID acceptedBy now =
     decide_handoff teamName handoffID (accepted acceptedBy now)"

definition RejectHandoff :: "string \<Rightarrow> string \<Rightarrow> string \<Rightarrow> string \<Rightarrow> handoff option store_op" where
  "RejectHandoff teamName handoffID rejectedBy reason =
     decide_handoff teamName handoffID (rejected rejectedBy reason)"

definition ListHandoffs :: "string \<Rightarrow> string \<Rightarrow> string \<Rightarrow> handoff list store_op" where
  "ListHandoffs teamName status toAgent =
     sbind (load_handoffs teamName) (\<lambda>handoffs.
     sret (filter (\<lambda>h. \<not> (status \<noteq> [] \<and> ho_Status h \<noteq> status) \<and>
                       \<not> (toAgent \<noteq> [] \<and> ho_ToAgent h \<noteq> toAgent)) handoffs))"

definition GetPendingForAgent :: "string \<Rightarrow> string \<Rightarrow> handoff list store_op" where
  "GetPendingForAgent teamName agent = ListHandoffs teamName ''pending'' agent"

section \<open>Facts\<close>

interpretation handoff_store: doc_store
  "\<lambda>t. json_path t ''handoffs.json''" load_handoffs save_handoffs
  unfolding load_handoffs_def save_handoffs_def by (rule json_doc_store) simp

lemma load_Ok_same: "load_handoffs t st = (Ok hs, st') \<Longrightarrow> st' = st"
  by (rule handoff_store.rd_state)

lemma sbind_load:
  "load_handoffs t st = (Ok hs, st) \<Longrightarrow> sbind (load_handoffs t) f st = f hs st"
  by (simp add: sbind_def)

fun decide_list :: "string \<Rightarrow> (handoff \<Rightarrow> handoff) \<Rightarrow> handoff list \<Rightarrow> handoff list" where
  "decide_list hid f [] = []"
| "decide_list hid f (h # hs) = (if ho_ID h = hid then f h # hs else h # decide_list hid f hs)"

lemma decide_first_eq:
  "decide_first hid f hs =
     map_option (\<lambda>h. (f h, decide_list hid f hs)) (find (\<lambda>h. ho_ID h = hid) hs)"
  by (induction hs) (auto simp: option.map_comp o_def)

text \<open>A decision keeps the identifier.\<close>

definition keeps_id :: "(handoff \<Rightarrow> handoff) \<Rightarrow> bool" where
  "keeps_id f \<longleftrightarrow> (\<forall>h. ho_ID (f h) = ho_ID h)"

lemma keeps_idD [simp]: "keeps_id f \<Longrightarrow> ho_ID (f h) = ho_ID h"
  by (simp add: keeps_id_def)

lemma keeps_id_decisions [simp]: "keeps_id (accepted by now)" "keeps_id (rejected by reason)"
  by (simp_all add: keeps_id_def accepted_def rejected_def)

lemma find_decided:
  "keeps_id f \<Longrightarrow> find (\<lambda>h. ho_ID h = j) (decide_list hid f hs) =
     (if j = hid then map_option f (find (\<lambda>h. ho_ID h = j) hs) else find (\<lambda>h. ho_ID h = j) hs)"
  by (induction hs) auto

lemma filter_decided:
  assumes "keeps_id f" and "distinct (map ho_ID hs)" and "\<And>h. \<not> P (f h)"
  shows "filter P (decide_list hid f hs) = filter (\<lambda>x. P x \<and> ho_ID x \<noteq> hid) hs"
  using assms(2)
proof (induction hs)
  case (Cons h hs)
  have "filter P hs = filter (\<lambda>x. P x \<and> ho_ID x \<noteq> ho_ID h) hs"
    using Cons.prems by (intro filter_cong) (auto simp: image_iff)
  with Cons show ?case using assms(3) by auto
qed simp

lemma decide_handoff_found:
  assumes "faultless st" and "load_handoffs t st = (Ok hs, st)" and "find (\<lambda>h. ho_ID h = hid) hs = Some h"
  obtains st' where "decide_handoff t hid f st = (Ok (Some (f h)), st')"
    and "load_handoffs t st' = (Ok (decide_list hid f hs), st')" and "faultless st'"
proof -
  let ?hs = "decide_list hid f hs"
  define st' where "st' = snd (save_handoffs t ?hs st)"
  have w: "save_handoffs t ?hs st = (Ok (), st')"
    using handoff_store.wr_faultless [OF assms(1), of t ?hs] by (simp add: st'_def prod_eq_iff)
  have l: "load_handoffs t st' = (Ok ?hs, st')"
    by (rule handoff_store.rd_after_wr [OF w]) (use assms(1) in \<open>simp add: faultless_def\<close>)
  have fl: "faultless st'"
    using handoff_store.wr_frame [OF w] assms(1) faultless_same by blast
  have "decide_handoff t hid f st = (Ok (Some (f h)), st')"
    by (simp add: decide_handoff_def sbind_load [OF assms(2)] decide_first_eq assms(3)) (simp add: sbind_def w sret_def)
  then show ?thesis using that l fl by blast
qed

lemma ReadHandoff_load:
  "load_handoffs t st = (Ok hs, st) \<Longrightarrow>
   ReadHandoff t hid st = (Ok (find (\<lambda>h. ho_ID h = hid) hs), st)"
  by (simp add: ReadHandoff_def sbind_load sret_def)

lemma Pending_load:
  "load_handoffs t st = (Ok hs, st) \<Longrightarrow>
   GetPendingForAgent t a st =
     (Ok (filter (\<lambda>h. ho_Status h = ''pending'' \<and> (a = [] \<or> ho_ToAgent h = a)) hs), st)"
  by (simp add: GetPendingForAgent_def ListHandoffs_def sbind_load sret_def)

end
