(* ===== verification/Team_Context.thy ===== *)
theory Team_Context
  imports Team_Store_Facts
begin

text \<open>
  The context of a team, \<open>internal/team/team_context.go\<close>: its charter, goals, roles and
  working agreement, one document. \<open>c0\<close> and \<open>u0\<close> are the two clock readings of
  \<open>CreateContext\<close>, which most operations call first and which writes the document even when
  it exists; \<open>now\<close> is the reading of the operation itself.
\<close>

section \<open>The operations\<close>

definition zero_role :: role where
  "zero_role =
     \<lparr>rl_Name = [], rl_Responsible = [], rl_CurrentFocus = [], rl_Agent = [], rl_Profile = [],
      rl_Prompt = [], rl_ReportsTo = [], rl_CanSpawnSubagents = False\<rparr>"

definition zero_agreement :: working_agreement where
  "zero_agreement =
     \<lparr>wa_CommitMessageFormat = [], wa_MaxWIP = 0, wa_HandoffRequires = [],
      wa_ReviewRequired = False, wa_AllowsSubagents = False, wa_LeadershipMode = [],
      wa_DelegationMode = [], wa_LocalChatDefault = [], wa_ReviewRouting = [],
      wa_SynthesisRouting = [], wa_AllowsPeerMessaging = False, wa_AllowsBroadcasts = False,
      wa_ApprovalRequiredFor = [], wa_WorkspaceMode = [], wa_PublicationMode = [],
      wa_ConsensusMode = [], wa_WakePolicy = []\<rparr>"

definition zero_context :: team_context where
  "zero_context =
     \<lparr>tc_TeamName = [], tc_Leader = [], tc_Template = [], tc_Constitution = [],
      tc_RuntimeMode = [], tc_SharedTruth = [], tc_Charter = [], tc_Goals = [], tc_Roles = [],
      tc_WorkingAgreement = zero_agreement, tc_CreatedAt = 0, tc_UpdatedAt = 0\<rparr>"

definition default_agreement :: working_agreement where
  "default_agreement =
     \<lparr>wa_CommitMessageFormat = ''type: subject'', wa_MaxWIP = 3,
      wa_HandoffRequires = [''summary'', ''artifacts''],
      wa_ReviewRequired = True, wa_AllowsSubagents = True, wa_LeadershipMode = ''leader-led'',
      wa_DelegationMode = ''leader-controlled'', wa_LocalChatDefault = ''direct'',
      wa_ReviewRouting = ''lead'', wa_SynthesisRouting = ''lead'', wa_AllowsPeerMessaging = True,
      wa_AllowsBroadcasts = True, wa_ApprovalRequiredFor = [], wa_WorkspaceMode = ''shared'',
      wa_PublicationMode = ''direct'', wa_ConsensusMode = ''lead-approved'',
      wa_WakePolicy = ''on-demand''\<rparr>"

definition default_context :: "string \<Rightarrow> int \<Rightarrow> team_context" where
  "default_context teamName c0 =
     zero_context\<lparr>tc_TeamName := teamName, tc_Constitution := ''coding-office'',
       tc_RuntimeMode := ''collaborative'', tc_SharedTruth := ''shared-files'',
       tc_WorkingAgreement := default_agreement, tc_CreatedAt := c0\<rparr>"

fun context_of :: "document \<Rightarrow> team_context option" where
  "context_of (ContextDoc c) = Some c"
| "context_of d = None"

definition load_context :: "string \<Rightarrow> team_context store_op" where
  "load_context teamName = readJSON context_of zero_context teamName ''team_context.json''"

definition save_context :: "string \<Rightarrow> team_context \<Rightarrow> unit store_op" where
  "save_context teamName c = writeJSON teamName ''team_context.json'' (ContextDoc c)"

definition ReadContext :: "string \<Rightarrow> team_context option store_op" where
  "ReadContext teamName =
     sbind (load_context teamName) (\<lambda>tc.
     sret (if tc_TeamName tc = [] then None else Some tc))"

definition CreateContext ::
  "string \<Rightarrow> string \<Rightarrow> (string, role) gomap \<Rightarrow> int \<Rightarrow> int \<Rightarrow> team_context store_op" where
  "CreateContext teamName charter roles c0 u0 =
     sbind (ReadContext teamName) (\<lambda>found.
     let existing = (case found of Some tc \<Rightarrow> tc | None \<Rightarrow> default_context teamName c0);
         existing1 = (if charter \<noteq> [] then existing\<lparr>tc_Charter := charter\<rparr> else existing);
         existing2 = existing1\<lparr>tc_Roles := map_put_all roles (tc_Roles existing1),
                               tc_UpdatedAt := u0\<rparr> in
     sbind (save_context teamName existing2) (\<lambda>_. sret existing2))"

text \<open>\<open>updates[key].(string)\<close>: the field changes only when the value is a string.\<close>

definition update_str :: "(string, json_value) gomap \<Rightarrow> string \<Rightarrow> string \<Rightarrow> string" where
  "update_str updates key old =
     (case map_of updates key of Some (JString s) \<Rightarrow> s | _ \<Rightarrow> old)"

definition apply_updates :: "(string, json_value) gomap \<Rightarrow> team_context \<Rightarrow> team_context" where
  "apply_updates updates tc = tc
     \<lparr>tc_Charter := update_str updates ''charter'' (tc_Charter tc),
      tc_Leader := update_str updates ''leader'' (tc_Leader tc),
      tc_Template := update_str updates ''template'' (tc_Template tc),
      tc_Constitution := update_str updates ''constitution'' (tc_Constitution tc),
      tc_RuntimeMode := update_str updates ''runtimeMode'' (tc_RuntimeMode tc),
      tc_SharedTruth := update_str updates ''sharedTruth'' (tc_SharedTruth tc)\<rparr>"

definition finish_update :: "string \<Rightarrow> int \<Rightarrow> team_context \<Rightarrow> team_context store_op" where
  "finish_update teamName now tc =
     (let tc' = tc\<lparr>tc_UpdatedAt := now\<rparr> in
      sbind (save_context teamName tc') (\<lambda>_. sret tc'))"

definition UpdateContext ::
  "string \<Rightarrow> (string, json_value) gomap \<Rightarrow> int \<Rightarrow> int \<Rightarrow> int \<Rightarrow> team_context store_op" where
  "UpdateContext teamName updates c0 u0 now =
     sbind (ReadContext teamName) (\<lambda>found.
     sbind (case found of Some tc \<Rightarrow> sret tc | None \<Rightarrow> CreateContext teamName [] [] c0 u0) (\<lambda>tc.
     finish_update teamName now (apply_updates updates tc)))"

definition AddRole ::
  "string \<Rightarrow> string \<Rightarrow> role \<Rightarrow> int \<Rightarrow> int \<Rightarrow> int \<Rightarrow> team_context store_op" where
  "AddRole teamName roleName r c0 u0 now =
     sbind (CreateContext teamName [] [] c0 u0) (\<lambda>tc.
     let r' = (if rl_Name r = [] then r\<lparr>rl_Name := roleName\<rparr> else r) in
     finish_update teamName now (tc\<lparr>tc_Roles := map_put roleName r' (tc_Roles tc)\<rparr>))"

definition AssignAgentToRole ::
  "string \<Rightarrow> string \<Rightarrow> string \<Rightarrow> int \<Rightarrow> int \<Rightarrow> int \<Rightarrow> team_context store_op" where
  "AssignAgentToRole teamName roleName agentName c0 u0 now =
     sbind (CreateContext teamName [] [] c0 u0) (\<lambda>tc.
     let r = (map_get_or zero_role (tc_Roles tc) roleName)\<lparr>rl_Name := roleName, rl_Agent := agentName\<rparr> in
     finish_update teamName now (tc\<lparr>tc_Roles := map_put roleName r (tc_Roles tc)\<rparr>))"

definition AddGoal :: "string \<Rightarrow> goal \<Rightarrow> int \<Rightarrow> int \<Rightarrow> int \<Rightarrow> int \<Rightarrow> team_context store_op" where
  "AddGoal teamName g c0 u0 g0 now =
     sbind (CreateContext teamName [] [] c0 u0) (\<lambda>tc.
     let g' = (if gl_CreatedAt g = 0 then g\<lparr>gl_CreatedAt := g0\<rparr> else g) in
     finish_update teamName now (tc\<lparr>tc_Goals := tc_Goals tc @ [g']\<rparr>))"

definition override_str :: "string \<Rightarrow> string \<Rightarrow> string" where
  "override_str base over = (if over \<noteq> [] then over else base)"

definition mergeWorkingAgreement :: "working_agreement \<Rightarrow> working_agreement \<Rightarrow> working_agreement" where
  "mergeWorkingAgreement base over = base
     \<lparr>wa_CommitMessageFormat := override_str (wa_CommitMessageFormat base) (wa_CommitMessageFormat over),
      wa_MaxWIP := (if wa_MaxWIP over > 0 then wa_MaxWIP over else wa_MaxWIP base),
      wa_HandoffRequires :=
        (if wa_HandoffRequires over \<noteq> [] then wa_HandoffRequires over else wa_HandoffRequires base),
      wa_ReviewRequired := wa_ReviewRequired over,
      wa_AllowsSubagents := wa_AllowsSubagents over,
      wa_LeadershipMode := override_str (wa_LeadershipMode base) (wa_LeadershipMode over),
      wa_DelegationMode := override_str (wa_DelegationMode base) (wa_DelegationMode over),
      wa_LocalChatDefault := override_str (wa_LocalChatDefault base) (wa_LocalChatDefault over),
      wa_ReviewRouting := override_str (wa_ReviewRouting base) (wa_ReviewRouting over),
      wa_SynthesisRouting := override_str (wa_SynthesisRouting base) (wa_SynthesisRouting over),
      wa_AllowsPeerMessaging := wa_AllowsPeerMessaging over,
      wa_AllowsBroadcasts := wa_AllowsBroadcasts over,
      wa_ApprovalRequiredFor :=
        (if wa_ApprovalRequiredFor over \<noteq> [] then wa_ApprovalRequiredFor over
         else wa_ApprovalRequiredFor base),
      wa_WorkspaceMode := override_str (wa_WorkspaceMode base) (wa_WorkspaceMode over),
      wa_PublicationMode := override_str (wa_PublicationMode base) (wa_PublicationMode over),
      wa_ConsensusMode := override_str (wa_ConsensusMode base) (wa_ConsensusMode over),
      wa_WakePolicy := override_str (wa_WakePolicy base) (wa_WakePolicy over)\<rparr>"

definition UpdateWorkingAgreement ::
  "string \<Rightarrow> working_agreement \<Rightarrow> int \<Rightarrow> int \<Rightarrow> int \<Rightarrow> team_context store_op" where
  "UpdateWorkingAgreement teamName agreement c0 u0 now =
     sbind (CreateContext teamName [] [] c0 u0) (\<lambda>tc.
     finish_update teamName now
       (tc\<lparr>tc_WorkingAgreement := mergeWorkingAgreement (tc_WorkingAgreement tc) agreement\<rparr>))"

definition UpdateGoalStatus ::
  "string \<Rightarrow> string \<Rightarrow> string \<Rightarrow> int \<Rightarrow> int \<Rightarrow> int \<Rightarrow> team_context store_op" where
  "UpdateGoalStatus teamName goalID status c0 u0 now =
     sbind (CreateContext teamName [] [] c0 u0) (\<lambda>tc.
     finish_update teamName now
       (tc\<lparr>tc_Goals := map (\<lambda>g. if gl_ID g = goalID then g\<lparr>gl_Status := status\<rparr> else g) (tc_Goals tc)\<rparr>))"

text \<open>
  \<open>MostRecentTeamName\<close>: over the team names in order, the last one whose time is not below
  the best so far; a team whose context cannot be read is skipped.
\<close>

fun most_recent :: "string list \<Rightarrow> string \<Rightarrow> int \<Rightarrow> team_store \<Rightarrow> string" where
  "most_recent [] selected updated st = selected"
| "most_recent (t # ts) selected updated st =
     (case fst (ReadContext t st) of
        Ok (Some tc) \<Rightarrow>
          if tc_UpdatedAt tc \<ge> updated then most_recent ts t (tc_UpdatedAt tc) st
          else most_recent ts selected updated st
      | _ \<Rightarrow> most_recent ts selected updated st)"

definition MostRecentTeamName :: "string store_op" where
  "MostRecentTeamName =
     sbind listTeamNames (\<lambda>teamNames st. (Ok (most_recent teamNames [] 0 st), st))"

section \<open>Facts\<close>

interpretation context_store: doc_store
  "\<lambda>t. json_path t ''team_context.json''" load_context save_context
  unfolding load_context_def save_context_def by (rule json_doc_store) simp

lemma ReadContext_Ok:
  "ReadContext t st = (Ok found, st') \<longleftrightarrow>
     st' = st \<and> (\<exists>c. load_context t st = (Ok c, st) \<and> found = (if tc_TeamName c = [] then None else Some c))"
proof -
  have "st1 = st" if "load_context t st = (r, st1)" for r st1
    using context_store.rd_state that .
  then show ?thesis
    unfolding ReadContext_def sbind_Ok by (auto simp: sret_def)
qed

lemma override_str_simps [simp]: "override_str base [] = base" "override_str base base = base"
  by (simp_all add: override_str_def)

end
