(* ===== verification/Team_Members.thy ===== *)
theory Team_Members
  imports Team_Store_Facts
begin

text \<open>
  The member list of a team, \<open>internal/team/members.go\<close>: one entry per agent name, merged
  with what is known of the agent when it is upserted.
\<close>

fun members_of :: "document \<Rightarrow> member list option" where
  "members_of (MembersDoc ms) = Some ms"
| "members_of d = None"

definition ListMembers :: "string \<Rightarrow> member list store_op" where
  "ListMembers teamName = readJSON members_of [] teamName ''members.json''"

definition save_members :: "string \<Rightarrow> member list \<Rightarrow> unit store_op" where
  "save_members teamName ms = writeJSON teamName ''members.json'' (MembersDoc ms)"

text \<open>A field keeps its old value where the new one is the zero value.\<close>

definition or_str :: "string \<Rightarrow> string \<Rightarrow> string" where
  "or_str new old = (if new = [] then old else new)"

definition or_int :: "int \<Rightarrow> int \<Rightarrow> int" where
  "or_int new old = (if new = 0 then old else new)"

definition merge_member :: "member \<Rightarrow> member \<Rightarrow> member" where
  "merge_member old new = new
     \<lparr>mb_RoleName := or_str (mb_RoleName new) (mb_RoleName old),
      mb_SessionID := or_str (mb_SessionID new) (mb_SessionID old),
      mb_Kind := or_str (mb_Kind new) (mb_Kind old),
      mb_WorkerID := or_str (mb_WorkerID new) (mb_WorkerID old),
      mb_Profile := or_str (mb_Profile new) (mb_Profile old),
      mb_Status := or_str (mb_Status new) (mb_Status old),
      mb_LastResult := or_str (mb_LastResult new) (mb_LastResult old),
      mb_ReportsTo := or_str (mb_ReportsTo new) (mb_ReportsTo old),
      mb_ParentWorkerID := or_str (mb_ParentWorkerID new) (mb_ParentWorkerID old),
      mb_RootWorkerID := or_str (mb_RootWorkerID new) (mb_RootWorkerID old),
      mb_Lineage := (if mb_Lineage new = [] then mb_Lineage old else mb_Lineage new),
      mb_LineageDepth := or_int (mb_LineageDepth new) (mb_LineageDepth old),
      mb_StateScope := or_str (mb_StateScope new) (mb_StateScope old),
      mb_CommitmentState := or_str (mb_CommitmentState new) (mb_CommitmentState old),
      mb_WorkspaceMode := or_str (mb_WorkspaceMode new) (mb_WorkspaceMode old),
      mb_WakeState := or_str (mb_WakeState new) (mb_WakeState old),
      mb_LastSignalAt := or_int (mb_LastSignalAt new) (mb_LastSignalAt old),
      mb_LastHeartbeatAt := or_int (mb_LastHeartbeatAt new) (mb_LastHeartbeatAt old),
      mb_Leader := (mb_Leader new \<or> mb_Leader old),
      mb_CanSpawnSubagents := (mb_CanSpawnSubagents new \<or> mb_CanSpawnSubagents old),
      mb_CreatedAt := mb_CreatedAt old\<rparr>"

fun put_member :: "member list \<Rightarrow> member \<Rightarrow> member list" where
  "put_member [] m = [m]"
| "put_member (x # xs) m = (if mb_AgentName x = mb_AgentName m then m # xs else x # put_member xs m)"

definition stamp_member :: "int \<Rightarrow> member \<Rightarrow> member" where
  "stamp_member now m = m\<lparr>mb_UpdatedAt := now, mb_CreatedAt := or_int (mb_CreatedAt m) now\<rparr>"

definition upserted_member :: "member list \<Rightarrow> int \<Rightarrow> member \<Rightarrow> member" where
  "upserted_member members now m =
     (case find (\<lambda>x. mb_AgentName x = mb_AgentName m) members of
        Some old \<Rightarrow> merge_member old (stamp_member now m)
      | None \<Rightarrow> stamp_member now m)"

definition UpsertMember :: "string \<Rightarrow> member \<Rightarrow> int \<Rightarrow> member store_op" where
  "UpsertMember teamName m now =
     sbind (ListMembers teamName) (\<lambda>members.
     let m' = upserted_member members now m in
     sbind (save_members teamName (put_member members m')) (\<lambda>_. sret m'))"

text \<open>The first member with the session, over the teams in the order of their names.\<close>

fun find_member_in :: "string \<Rightarrow> string list \<Rightarrow> (string \<times> member) option store_op" where
  "find_member_in sessionID [] = sret None"
| "find_member_in sessionID (t # ts) =
     sbind (ListMembers t) (\<lambda>members.
     case find (\<lambda>m. mb_SessionID m = sessionID) members of
       Some m \<Rightarrow> sret (Some (t, m))
     | None \<Rightarrow> find_member_in sessionID ts)"

definition FindMemberBySessionID :: "string \<Rightarrow> (string \<times> member) option store_op" where
  "FindMemberBySessionID sessionID = sbind listTeamNames (find_member_in sessionID)"

section \<open>Facts\<close>

interpretation member_store: doc_store
  "\<lambda>t. json_path t ''members.json''" ListMembers save_members
  unfolding ListMembers_def save_members_def by (rule json_doc_store) simp

interpretation members: keyed_upsert mb_AgentName put_member
  by unfold_locales simp_all

lemma agent_upserted [simp]: "mb_AgentName (upserted_member ms now m) = mb_AgentName m"
  by (simp add: upserted_member_def merge_member_def stamp_member_def split: option.split)

lemma or_str_simps [simp]: "or_str [] old = old" "or_str s [] = s" "or_str s s = s"
  by (simp_all add: or_str_def)

lemma or_int_simps [simp]: "or_int 0 old = old" "or_int i i = i"
  by (simp_all add: or_int_def)

text \<open>Upserting what is stored already changes nothing but the stamp.\<close>

lemma merge_member_same: "merge_member m m = m"
  by (simp add: merge_member_def)

lemma merge_member_empty:
  "merge_member old (m\<lparr>mb_RoleName := [], mb_CreatedAt := c\<rparr>) =
     (merge_member old m)\<lparr>mb_RoleName := mb_RoleName old\<rparr>"
  by (simp add: merge_member_def)

lemma UpsertMember_faultless:
  assumes "faultless st" and "ListMembers t st = (Ok ms, st)"
  obtains st' where "UpsertMember t m now st = (Ok (upserted_member ms now m), st')"
    and "ListMembers t st' = (Ok (put_member ms (upserted_member ms now m)), st')" and "faultless st'"
proof -
  let ?m = "upserted_member ms now m"
  define st' where "st' = snd (save_members t (put_member ms ?m) st)"
  have w: "save_members t (put_member ms ?m) st = (Ok (), st')"
    using member_store.wr_faultless [OF assms(1), of t "put_member ms ?m"]
    by (simp add: st'_def prod_eq_iff)
  have l: "ListMembers t st' = (Ok (put_member ms ?m), st')"
    by (rule member_store.rd_after_wr [OF w]) (use assms(1) in \<open>simp add: faultless_def\<close>)
  have f: "faultless st'"
    using member_store.wr_frame [OF w] assms(1) faultless_same by blast
  have "UpsertMember t m now st = (Ok ?m, st')"
    by (simp add: UpsertMember_def sbind_def assms(2) w sret_def Let_def)
  then show ?thesis using that l f by blast
qed

end
