(* ===== verification/Team_Inbox.thy ===== *)
theory Team_Inbox
  imports Team_Context Team_Members
begin

text \<open>
  The inboxes of a team, \<open>internal/team/inbox.go\<close>: one file of messages per agent. \<open>ts\<close> is the
  formatted clock of a message; a broadcast formats the clock anew for every recipient, so
  it takes one reading for each position.
\<close>

definition ReadInbox :: "string \<Rightarrow> string \<Rightarrow> bool \<Rightarrow> inbox_message list store_op" where
  "ReadInbox teamName agentName unreadOnly =
     sbind (readInbox teamName agentName) (\<lambda>messages.
     sret (if unreadOnly then filter (\<lambda>m. \<not> im_Read m) messages else messages))"

definition new_message :: "string \<Rightarrow> string \<Rightarrow> string \<Rightarrow> bool \<Rightarrow> string \<Rightarrow> inbox_message" where
  "new_message sender content summary broadcast ts =
     \<lparr>im_From = sender, im_Text = content, im_Timestamp = ts, im_Read = False,
      im_Summary = summary, im_Color = [], im_Broadcast = broadcast\<rparr>"

definition sendMessage_to ::
  "string \<Rightarrow> string \<Rightarrow> string \<Rightarrow> string \<Rightarrow> string \<Rightarrow> bool \<Rightarrow> string \<Rightarrow> unit store_op" where
  "sendMessage_to teamName sender to content summary broadcast ts =
     sbind (readInbox teamName to) (\<lambda>messages.
     writeInbox teamName to (messages @ [new_message sender content summary broadcast ts]))"

definition SendMessage ::
  "string \<Rightarrow> string \<Rightarrow> string \<Rightarrow> string \<Rightarrow> string \<Rightarrow> string \<Rightarrow> unit store_op" where
  "SendMessage teamName sender to content summary ts =
     sendMessage_to teamName sender to content summary False ts"

text \<open>
  The two loops of \<open>recipients\<close>: an agent is added unless it has no name, is the sender, or was
  seen before.
\<close>

definition add_recipient :: "string \<Rightarrow> string \<Rightarrow> string list \<Rightarrow> string list" where
  "add_recipient sender agent seen =
     (if agent = [] \<or> agent = sender \<or> agent \<in> set seen then seen else seen @ [agent])"

definition recipients :: "string \<Rightarrow> string \<Rightarrow> string list store_op" where
  "recipients teamName sender =
     sbind (ReadContext teamName) (\<lambda>tc.
     let fromRoles = (case tc of
           None \<Rightarrow> []
         | Some c \<Rightarrow> fold (\<lambda>(name, r). add_recipient sender (rl_Agent r)) (tc_Roles c) []) in
     sbind (ListMembers teamName) (\<lambda>members.
     sret (fold (\<lambda>m. add_recipient sender (mb_AgentName m)) members fromRoles)))"

fun send_all ::
  "string \<Rightarrow> string \<Rightarrow> string \<Rightarrow> string \<Rightarrow> (nat \<Rightarrow> string) \<Rightarrow> nat \<Rightarrow> string list \<Rightarrow> unit store_op" where
  "send_all teamName sender content summary ts i [] = sret ()"
| "send_all teamName sender content summary ts i (recipient # rest) =
     sbind (sendMessage_to teamName sender recipient content summary True (ts i)) (\<lambda>_.
     send_all teamName sender content summary ts (Suc i) rest)"

definition Broadcast ::
  "string \<Rightarrow> string \<Rightarrow> string \<Rightarrow> string \<Rightarrow> (nat \<Rightarrow> string) \<Rightarrow> unit store_op" where
  "Broadcast teamName sender content summary ts =
     sbind (recipients teamName sender) (send_all teamName sender content summary ts 0)"

section \<open>Facts\<close>

interpretation inbox_store: doc_store
  "\<lambda>(t, a). inbox_path t a" "\<lambda>(t, a). readInbox t a" "\<lambda>(t, a) ms. writeInbox t a ms"
  by (rule inbox_doc_store)

lemma sendMessage_modify:
  "sendMessage_to t s a c m b ts =
     modify (\<lambda>(t, a). readInbox t a) (\<lambda>(t, a) ms. writeInbox t a ms) (t, a)
       (\<lambda>ms. ms @ [new_message s c m b ts])"
  by (simp add: sendMessage_to_def modify_def)

lemma set_add_recipient:
  "set (add_recipient s a seen) = (if a = [] \<or> a = s then set seen else insert a (set seen))"
  by (auto simp: add_recipient_def)

lemma distinct_add_recipient: "distinct seen \<Longrightarrow> distinct (add_recipient s a seen)"
  by (simp add: add_recipient_def)

lemma fold_add_recipient:
  "set (fold (\<lambda>x. add_recipient s (f x)) xs seen) = set seen \<union> (f ` set xs - {[], s})"
  by (induction xs arbitrary: seen) (auto simp: set_add_recipient)

lemma distinct_fold_add_recipient:
  "distinct seen \<Longrightarrow> distinct (fold (\<lambda>x. add_recipient s (f x)) xs seen)"
  by (induction xs arbitrary: seen) (simp_all add: distinct_add_recipient)

text \<open>What a chain of sends adds to the inbox of one agent.\<close>

fun sent_to ::
  "string \<Rightarrow> string \<Rightarrow> string \<Rightarrow> string \<Rightarrow> (nat \<Rightarrow> string) \<Rightarrow> nat \<Rightarrow> string list \<Rightarrow> inbox_message list" where
  "sent_to a s c m ts i [] = []"
| "sent_to a s c m ts i (r # rs) =
     (if normalizeName r = normalizeName a then [new_message s c m True (ts i)] else []) @
     sent_to a s c m ts (Suc i) rs"

lemma length_sent_to:
  "length (sent_to a s c m ts i rs) = length (filter (\<lambda>r. normalizeName r = normalizeName a) rs)"
  by (induction rs arbitrary: i) auto

lemma sent_to_text:
  "x \<in> set (sent_to a s c m ts i rs) \<Longrightarrow>
     im_From x = s \<and> im_Text x = c \<and> im_Summary x = m \<and> im_Broadcast x \<and> \<not> im_Read x"
  by (induction rs arbitrary: i) (auto simp: new_message_def split: if_splits)

lemma readInbox_eq: "readInbox t a st = (fst (readInbox t a st), st)"
  by (simp add: readInbox_def)

lemma readInbox_same_name:
  "normalizeName a = normalizeName b \<Longrightarrow> readInbox t a st = readInbox t b st"
  by (simp add: readInbox_def inbox_path_def)

text \<open>In a store without faults whose inboxes can be read, sending reaches exactly the agents meant.\<close>

definition inboxes_ok :: "string \<Rightarrow> team_store \<Rightarrow> bool" where
  "inboxes_ok t st \<longleftrightarrow> (\<forall>a. is_ok (fst (readInbox t a st)))"

lemma send_faultless:
  assumes "faultless st" and "inboxes_ok t st"
  obtains st' where "sendMessage_to t s r c m b ts st = (Ok (), st')" and "faultless st'"
    and "inboxes_ok t st'"
    and "\<And>a ms. fst (readInbox t a st) = Ok ms \<Longrightarrow>
       fst (readInbox t a st') = Ok (ms @ (if normalizeName r = normalizeName a
                                         then [new_message s c m b ts] else []))"
proof -
  obtain ms0 where ms0: "readInbox t r st = (Ok ms0, st)"
    using assms(2) readInbox_eq [of t r st] by (auto simp: inboxes_ok_def is_ok_iff) metis
  obtain st' where w: "sendMessage_to t s r c m b ts st = (Ok (), st')"
    and rd: "readInbox t r st' = (Ok (ms0 @ [new_message s c m b ts]), st')"
    and sf: "same_faults st st'"
    and frame: "\<And>q. q \<noteq> inbox_path t r \<Longrightarrow> ts_files st' q = ts_files st q"
    using inbox_store.modify_faultless [OF assms(1), of "(t, r)" ms0 "\<lambda>ms. ms @ [new_message s c m b ts]"] ms0
    unfolding sendMessage_modify by (metis case_prod_conv)
  have eff: "fst (readInbox t a st') = Ok (ms @ (if normalizeName r = normalizeName a
                                         then [new_message s c m b ts] else []))"
    if "fst (readInbox t a st) = Ok ms" for a ms
  proof (cases "normalizeName r = normalizeName a")
    case True
    then show ?thesis using rd that ms0 readInbox_same_name [OF True] by simp
  next
    case False
    then have "ts_files st' (inbox_path t a) = ts_files st (inbox_path t a)"
      by (intro frame) simp
    then show ?thesis
      using that False inbox_store.rd_cong [of st' "(t, a)" st, OF _ sf] by simp
  qed
  have "inboxes_ok t st'"
    using assms(2) eff unfolding inboxes_ok_def is_ok_iff by blast
  then show ?thesis using that w eff assms(1) sf faultless_same by blast
qed

lemma send_all_faultless:
  assumes "faultless st" and "inboxes_ok t st"
  obtains st' where "send_all t s c m ts i rs st = (Ok (), st')"
    and "\<And>a ms. fst (readInbox t a st) = Ok ms \<Longrightarrow>
       fst (readInbox t a st') = Ok (ms @ sent_to a s c m ts i rs)"
  using assms
proof (induction rs arbitrary: i st thesis)
  case Nil
  then show ?case by (simp add: sret_def)
next
  case (Cons r rs)
  obtain st1 where w: "sendMessage_to t s r c m True (ts i) st = (Ok (), st1)" and "faultless st1"
    and "inboxes_ok t st1"
    and eff: "\<And>a ms. fst (readInbox t a st) = Ok ms \<Longrightarrow>
       fst (readInbox t a st1) = Ok (ms @ (if normalizeName r = normalizeName a
                                         then [new_message s c m True (ts i)] else []))"
    using send_faultless [OF Cons.prems(2,3)] by metis
  then obtain st' where all: "send_all t s c m ts (Suc i) rs st1 = (Ok (), st')"
    and eff': "\<And>a ms. fst (readInbox t a st1) = Ok ms \<Longrightarrow>
       fst (readInbox t a st') = Ok (ms @ sent_to a s c m ts (Suc i) rs)"
    using Cons.IH by blast
  have "send_all t s c m ts i (r # rs) st = (Ok (), st')"
    by (simp add: sbind_def w all)
  then show ?case
    by (rule Cons.prems(1)) (use eff eff' in fastforce)
qed

end
