(* ===== verification/Sort_Slice.thy ===== *)
theory Sort_Slice
  imports Go_Strings "HOL-Library.Multiset"
begin

text \<open>
  What \<open>sort.Slice\<close> promises and needs. Its contract is about the comparison: a strict weak
  order. Then the slice becomes a sorted arrangement of itself; which one, among elements
  that tie, is left open. Insertion is one way to get there, so the promise can be kept.
\<close>

locale weak_lt =
  fixes lt :: "'a \<Rightarrow> 'a \<Rightarrow> bool"
  assumes asym: "lt a b \<Longrightarrow> \<not> lt b a"
    and neg_trans: "\<not> lt a b \<Longrightarrow> \<not> lt b c \<Longrightarrow> \<not> lt a c"
begin

lemma trans: "lt a b \<Longrightarrow> lt b c \<Longrightarrow> lt a c"
  using asym neg_trans by blast

end

definition slice_sorted :: "('a \<Rightarrow> 'a \<Rightarrow> bool) \<Rightarrow> 'a list \<Rightarrow> bool" where
  "slice_sorted lt xs \<longleftrightarrow> sorted_wrt (\<lambda>a b. \<not> lt b a) xs"

definition sort_Slice :: "('a \<Rightarrow> 'a \<Rightarrow> bool) \<Rightarrow> ('a list \<Rightarrow> 'a list) \<Rightarrow> bool" where
  "sort_Slice lt arrange \<longleftrightarrow> (\<forall>xs. mset (arrange xs) = mset xs \<and> slice_sorted lt (arrange xs))"

fun insert_by :: "('a \<Rightarrow> 'a \<Rightarrow> bool) \<Rightarrow> 'a \<Rightarrow> 'a list \<Rightarrow> 'a list" where
  "insert_by lt x [] = [x]"
| "insert_by lt x (y # ys) = (if lt y x then y # insert_by lt x ys else x # y # ys)"

definition sort_by :: "('a \<Rightarrow> 'a \<Rightarrow> bool) \<Rightarrow> 'a list \<Rightarrow> 'a list" where
  "sort_by lt xs = foldr (insert_by lt) xs []"

lemma mset_insert_by [simp]: "mset (insert_by lt x ys) = add_mset x (mset ys)"
  by (induction ys) auto

lemma set_insert_by [simp]: "set (insert_by lt x ys) = insert x (set ys)"
  by (induction ys) auto

lemma mset_sort_by: "mset (sort_by lt xs) = mset xs"
  by (induction xs) (simp_all add: sort_by_def)

context weak_lt
begin

lemma sorted_insert_by: "slice_sorted lt ys \<Longrightarrow> slice_sorted lt (insert_by lt x ys)"
proof (induction ys)
  case (Cons y ys)
  show ?case
  proof (cases "lt y x")
    case True
    then show ?thesis using Cons asym by (auto simp: slice_sorted_def)
  next
    case False
    have "\<not> lt z x" if "z \<in> set ys" for z
      using Cons.prems that False neg_trans by (auto simp: slice_sorted_def)
    then show ?thesis using Cons.prems False by (auto simp: slice_sorted_def)
  qed
qed (simp add: slice_sorted_def)

lemma sort_by_sorts: "sort_Slice lt (sort_by lt)"
proof -
  have "slice_sorted lt (sort_by lt xs)" for xs
    by (induction xs) (simp_all add: sort_by_def sorted_insert_by, simp add: slice_sorted_def)
  then show ?thesis by (simp add: sort_Slice_def mset_sort_by)
qed

end

text \<open>Comparing one field and then the rest is a weak order if the field has a linear one.\<close>

locale linear_lt = weak_lt +
  assumes linear: "lt a b \<or> a = b \<or> lt b a"
begin

lemma then_weak:
  assumes "weak_lt rest"
  shows "weak_lt (\<lambda>a b. if f a \<noteq> f b then lt (f a) (f b) else rest a b)"
proof
  show "\<not> (if f b \<noteq> f a then lt (f b) (f a) else rest b a)"
    if "if f a \<noteq> f b then lt (f a) (f b) else rest a b" for a b
    using that asym [of "f a" "f b"] weak_lt.asym [OF assms, of a b] by (auto split: if_splits)
  show "\<not> (if f a \<noteq> f c then lt (f a) (f c) else rest a c)"
    if ab: "\<not> (if f a \<noteq> f b then lt (f a) (f b) else rest a b)"
      and bc: "\<not> (if f b \<noteq> f c then lt (f b) (f c) else rest b c)" for a b c
  proof (cases "f a = f b \<and> f b = f c")
    case True
    then show ?thesis using ab bc weak_lt.neg_trans [OF assms, of a b c] by simp
  next
    case False
    have nab: "\<not> lt (f a) (f b)" and nbc: "\<not> lt (f b) (f c)"
      using ab bc asym by (metis (full_types))+
    then have "\<not> lt (f a) (f c)" by (rule neg_trans)
    moreover have "f a \<noteq> f c"
      using False nab nbc linear [of "f a" "f b"] by auto
    ultimately show ?thesis by simp
  qed
qed

lemma field_weak: "weak_lt (\<lambda>a b. lt (f a) (f b))"
  using asym neg_trans by unfold_locales blast+

end

interpretation str_lt: linear_lt str_less
proof
  show "\<not> str_less b a" if "str_less a b" for a b
    using that by (rule str_less_asym)
  show "\<not> str_less a c" if "\<not> str_less a b" "\<not> str_less b c" for a b c
    using that str_less_linear [of a b] str_less_linear [of b c] str_less_trans [of a c b]
      str_less_asym by blast
  show "str_less a b \<or> a = b \<or> str_less b a" for a b
    by (rule str_less_linear)
qed

interpretation int_lt: linear_lt "(<) :: int \<Rightarrow> int \<Rightarrow> bool"
  by unfold_locales auto

text \<open>True before false, as \<open>if a != b { return a }\<close> sorts a flag.\<close>

interpretation flag_lt: linear_lt "\<lambda>a b :: bool. a \<and> \<not> b"
  by unfold_locales auto

end
