(* ===== verification/Team_Runtime.thy ===== *)
theory Team_Runtime
  imports Team_Members Workers Sort_Slice
begin

text \<open>
  The runtime records of a team, \<open>internal/team/runtime_records.go\<close>: what is known of every
  worker, session or agent, merged from the stored records, the members and the live
  workers. \<open>sort.Slice\<close> promises a sorted arrangement but not which one of records that tie,
  so it is a parameter \<open>arrange\<close>, of which \<open>sort_Slice\<close> states that promise. The values
  of the record map are visited in the order of the association list.
\<close>

section \<open>The operations\<close>

fun runtime_of :: "document \<Rightarrow> runtime_record list option" where
  "runtime_of (RuntimeDoc rs) = Some rs"
| "runtime_of d = None"

definition ListRuntime :: "string \<Rightarrow> runtime_record list store_op" where
  "ListRuntime teamName = readJSON runtime_of [] teamName ''runtime_records.json''"

definition save_runtime :: "string \<Rightarrow> runtime_record list \<Rightarrow> unit store_op" where
  "save_runtime teamName rs = writeJSON teamName ''runtime_records.json'' (RuntimeDoc rs)"

definition runtimeRecordKey :: "runtime_record \<Rightarrow> string" where
  "runtimeRecordKey r =
     (if rr_WorkerID r \<noteq> [] then ''worker:'' @ rr_WorkerID r
      else if rr_SessionID r \<noteq> [] then ''session:'' @ rr_SessionID r
      else if rr_AgentName r \<noteq> [] then ''agent:'' @ normalizeName (rr_AgentName r)
      else ''record:unknown'')"

definition runtime_less :: "runtime_record \<Rightarrow> runtime_record \<Rightarrow> bool" where
  "runtime_less a b =
     (if rr_AgentName a \<noteq> rr_AgentName b then str_less (rr_AgentName a) (rr_AgentName b)
      else if rr_LineageDepth a \<noteq> rr_LineageDepth b then rr_LineageDepth a < rr_LineageDepth b
      else if rr_WorkerID a \<noteq> rr_WorkerID b then str_less (rr_WorkerID a) (rr_WorkerID b)
      else str_less (rr_SessionID a) (rr_SessionID b))"

fun minNonZero_from :: "int \<Rightarrow> int list \<Rightarrow> int" where
  "minNonZero_from m [] = m"
| "minNonZero_from m (v # vs) =
     (if v = 0 then minNonZero_from m vs
      else if m = 0 \<or> v < m then minNonZero_from v vs
      else minNonZero_from m vs)"

definition minNonZero :: "int list \<Rightarrow> int" where
  "minNonZero values = minNonZero_from 0 values"

definition deriveWakeState :: "string \<Rightarrow> string" where
  "deriveWakeState status =
     (if status = WorkerStatusRunning then WorkerWakeStateActive
      else if status = WorkerStatusQueued then WorkerWakeStateWaiting
      else WorkerWakeStateQuiescent)"

definition mergeRuntimeRecord :: "runtime_record \<Rightarrow> runtime_record \<Rightarrow> runtime_record" where
  "mergeRuntimeRecord base over = base
     \<lparr>rr_TeamName := or_str (rr_TeamName over) (rr_TeamName base),
      rr_AgentName := or_str (rr_AgentName over) (rr_AgentName base),
      rr_RoleName := or_str (rr_RoleName over) (rr_RoleName base),
      rr_SessionID := or_str (rr_SessionID over) (rr_SessionID base),
      rr_WorkerID := or_str (rr_WorkerID over) (rr_WorkerID base),
      rr_ParentWorkerID := or_str (rr_ParentWorkerID over) (rr_ParentWorkerID base),
      rr_RootWorkerID := or_str (rr_RootWorkerID over) (rr_RootWorkerID base),
      rr_ParentAgentName := or_str (rr_ParentAgentName over) (rr_ParentAgentName base),
      rr_Lineage := (if rr_Lineage over \<noteq> [] then rr_Lineage over else rr_Lineage base),
      rr_LineageDepth := max (rr_LineageDepth base) (rr_LineageDepth over),
      rr_Kind := or_str (rr_Kind over) (rr_Kind base),
      rr_Profile := or_str (rr_Profile over) (rr_Profile base),
      rr_Status := or_str (rr_Status over) (rr_Status base),
      rr_WakeState := or_str (rr_WakeState over) (rr_WakeState base),
      rr_StateScope := or_str (rr_StateScope over) (rr_StateScope base),
      rr_CommitmentState := or_str (rr_CommitmentState over) (rr_CommitmentState base),
      rr_WorkspaceMode := or_str (rr_WorkspaceMode over) (rr_WorkspaceMode base),
      rr_Result := or_str (rr_Result over) (rr_Result base),
      rr_Error := or_str (rr_Error over) (rr_Error base),
      rr_Source := or_str (rr_Source over) (rr_Source base),
      rr_LastSignalAt := (if rr_LastSignalAt over > 0 then rr_LastSignalAt over else rr_LastSignalAt base),
      rr_LastHeartbeatAt :=
        (if rr_LastHeartbeatAt over > 0 then rr_LastHeartbeatAt over else rr_LastHeartbeatAt base),
      rr_StartedAt := (if rr_StartedAt over > 0 then rr_StartedAt over else rr_StartedAt base),
      rr_CompletedAt := (if rr_CompletedAt over > 0 then rr_CompletedAt over else rr_CompletedAt base),
      rr_RecordID := or_str (rr_RecordID over) (rr_RecordID base),
      rr_CreatedAt :=
        (if rr_CreatedAt over > 0 then minNonZero [rr_CreatedAt base, rr_CreatedAt over]
         else rr_CreatedAt base),
      rr_UpdatedAt := (if rr_UpdatedAt over > 0 then rr_UpdatedAt over else rr_UpdatedAt base)\<rparr>"

definition runtimeRecordFromMember :: "string \<Rightarrow> member \<Rightarrow> runtime_record" where
  "runtimeRecordFromMember teamName m =
     \<lparr>rr_RecordID = [], rr_TeamName = teamName, rr_AgentName = mb_AgentName m,
      rr_RoleName = mb_RoleName m, rr_SessionID = mb_SessionID m, rr_WorkerID = mb_WorkerID m,
      rr_ParentWorkerID = mb_ParentWorkerID m, rr_RootWorkerID = mb_RootWorkerID m,
      rr_ParentAgentName = mb_ReportsTo m, rr_Lineage = mb_Lineage m,
      rr_LineageDepth = mb_LineageDepth m, rr_Kind = mb_Kind m, rr_Profile = mb_Profile m,
      rr_Status = mb_Status m, rr_WakeState = mb_WakeState m, rr_StateScope = mb_StateScope m,
      rr_CommitmentState = mb_CommitmentState m, rr_WorkspaceMode = mb_WorkspaceMode m,
      rr_Result = mb_LastResult m, rr_Error = [], rr_Source = ''member'',
      rr_LastSignalAt = mb_LastSignalAt m, rr_LastHeartbeatAt = mb_LastHeartbeatAt m,
      rr_StartedAt = 0, rr_CompletedAt = 0, rr_UpdatedAt = mb_UpdatedAt m,
      rr_CreatedAt = mb_CreatedAt m\<rparr>"

definition worker_fields :: "string \<Rightarrow> worker \<Rightarrow> runtime_record" where
  "worker_fields teamName w =
     \<lparr>rr_RecordID = [], rr_TeamName = teamName, rr_AgentName = wk_Name w,
      rr_RoleName = wk_RoleName w, rr_SessionID = wk_SessionID w, rr_WorkerID = wk_ID w,
      rr_ParentWorkerID = wk_ParentWorkerID w, rr_RootWorkerID = wk_RootWorkerID w,
      rr_ParentAgentName = [], rr_Lineage = wk_Lineage w, rr_LineageDepth = wk_LineageDepth w,
      rr_Kind = wk_Kind w, rr_Profile = wk_Profile w, rr_Status = wk_Status w,
      rr_WakeState = wk_WakeState w, rr_StateScope = wk_StateScope w,
      rr_CommitmentState = wk_CommitmentState w, rr_WorkspaceMode = wk_WorkspaceMode w,
      rr_Result = wk_Result w, rr_Error = wk_Error w, rr_Source = ''worker'',
      rr_LastSignalAt = wk_LastSignalAt w, rr_LastHeartbeatAt = wk_LastHeartbeatAt w,
      rr_StartedAt = wk_StartedAt w, rr_CompletedAt = wk_CompletedAt w,
      rr_UpdatedAt = wk_UpdatedAt w, rr_CreatedAt = wk_CreatedAt w\<rparr>"

definition runtimeRecordFromWorker :: "string \<Rightarrow> worker \<Rightarrow> member option \<Rightarrow> runtime_record" where
  "runtimeRecordFromWorker teamName w found =
     (let r0 = worker_fields teamName w;
          r1 = (case found of
                 None \<Rightarrow> r0
               | Some m \<Rightarrow> r0
                   \<lparr>rr_ParentAgentName := mb_ReportsTo m,
                    rr_AgentName := or_str (rr_AgentName r0) (mb_AgentName m),
                    rr_RoleName := or_str (rr_RoleName r0) (mb_RoleName m),
                    rr_Profile := or_str (rr_Profile r0) (mb_Profile m),
                    rr_WorkspaceMode := or_str (rr_WorkspaceMode r0) (mb_WorkspaceMode m)\<rparr>)
      in r1\<lparr>rr_RootWorkerID := or_str (rr_RootWorkerID r1) (rr_WorkerID r1),
            rr_Lineage := (if rr_Lineage r1 = [] \<and> rr_WorkerID r1 \<noteq> [] then [rr_WorkerID r1]
                           else rr_Lineage r1),
            rr_StateScope := or_str (rr_StateScope r1) ''local'',
            rr_CommitmentState := or_str (rr_CommitmentState r1) ''local'',
            rr_WorkspaceMode := or_str (rr_WorkspaceMode r1) ''shared'',
            rr_WakeState := or_str (rr_WakeState r1) (deriveWakeState (rr_Status r1))\<rparr>)"

definition add_one :: "string \<Rightarrow> (string, int) gomap \<Rightarrow> (string, int) gomap" where
  "add_one k m = map_put k (map_get_or 0 m k + 1) m"

definition summarize_step :: "runtime_record \<Rightarrow> runtime_summary \<Rightarrow> runtime_summary" where
  "summarize_step r s = s
     \<lparr>rs_ByStatus := (if rr_Status r \<noteq> [] then add_one (rr_Status r) (rs_ByStatus s) else rs_ByStatus s),
      rs_Active := (if rr_Status r = WorkerStatusQueued \<or> rr_Status r = WorkerStatusRunning
                    then rs_Active s + 1 else rs_Active s),
      rs_ByWakeState :=
        (if rr_WakeState r \<noteq> [] then add_one (rr_WakeState r) (rs_ByWakeState s) else rs_ByWakeState s),
      rs_Committed := (if rr_CommitmentState r = ''committed'' then rs_Committed s + 1 else rs_Committed s),
      rs_Pending := (if rr_CommitmentState r = ''pending'' then rs_Pending s + 1 else rs_Pending s),
      rs_Local := (if rr_CommitmentState r \<noteq> ''committed'' \<and> rr_CommitmentState r \<noteq> ''pending''
                   then rs_Local s + 1 else rs_Local s),
      rs_ByCommitmentState :=
        (if rr_CommitmentState r \<noteq> [] then add_one (rr_CommitmentState r) (rs_ByCommitmentState s)
         else rs_ByCommitmentState s),
      rs_ByWorkspaceMode :=
        (if rr_WorkspaceMode r \<noteq> [] then add_one (rr_WorkspaceMode r) (rs_ByWorkspaceMode s)
         else rs_ByWorkspaceMode s),
      rs_MaxLineageDepth := max (rs_MaxLineageDepth s) (rr_LineageDepth r)\<rparr>"

definition summarizeRuntimeRecords :: "runtime_record list \<Rightarrow> runtime_summary" where
  "summarizeRuntimeRecords records = fold summarize_step records
     \<lparr>rs_Total = int (length records), rs_Active = 0, rs_Local = 0, rs_Committed = 0,
      rs_Pending = 0, rs_MaxLineageDepth = 0, rs_ByStatus = [], rs_ByWakeState = [],
      rs_ByCommitmentState = [], rs_ByWorkspaceMode = []\<rparr>"

text \<open>\<open>Upsert\<close>: the first record with the identifier is merged, a new one is appended.\<close>

fun put_record :: "runtime_record list \<Rightarrow> runtime_record \<Rightarrow> runtime_record list" where
  "put_record [] r = [r]"
| "put_record (x # xs) r = (if rr_RecordID x = rr_RecordID r then r # xs else x # put_record xs r)"

definition UpsertRuntime ::
  "(runtime_record list \<Rightarrow> runtime_record list) \<Rightarrow> string \<Rightarrow> runtime_record \<Rightarrow> int \<Rightarrow>
   runtime_record store_op" where
  "UpsertRuntime arrange teamName r now =
     sbind (ListRuntime teamName) (\<lambda>records.
     let r1 = r\<lparr>rr_TeamName := teamName, rr_UpdatedAt := now,
                rr_CreatedAt := or_int (rr_CreatedAt r) now\<rparr>;
         r2 = r1\<lparr>rr_RecordID := or_str (rr_RecordID r1) (runtimeRecordKey r1)\<rparr>;
         old = find (\<lambda>x. rr_RecordID x = rr_RecordID r2) records;
         stored = (case old of
             None \<Rightarrow> r2
           | Some x \<Rightarrow> mergeRuntimeRecord x (r2\<lparr>rr_CreatedAt := rr_CreatedAt x\<rparr>));
         records' = arrange (put_record records stored);
         answer = (case old of
             None \<Rightarrow> r2
           | Some x \<Rightarrow> (case find (\<lambda>y. rr_RecordID y = rr_RecordID r2) records' of
                 Some y \<Rightarrow> y | None \<Rightarrow> r2\<lparr>rr_CreatedAt := rr_CreatedAt x\<rparr>))
     in sbind (save_runtime teamName records') (\<lambda>_. sret answer))"

fun find_runtime_in :: "string \<Rightarrow> string list \<Rightarrow> (string \<times> runtime_record) option store_op" where
  "find_runtime_in sessionID [] = sret None"
| "find_runtime_in sessionID (t # ts) =
     sbind (ListRuntime t) (\<lambda>records.
     case find (\<lambda>r. rr_SessionID r = sessionID) records of
       Some r \<Rightarrow> sret (Some (t, r))
     | None \<Rightarrow> find_runtime_in sessionID ts)"

definition FindRuntimeBySessionID :: "string \<Rightarrow> (string \<times> runtime_record) option store_op" where
  "FindRuntimeBySessionID sessionID = sbind listTeamNames (find_runtime_in sessionID)"

text \<open>The record map of \<open>Project\<close>: stored records first, then members, then workers.\<close>

definition merge_into ::
  "runtime_record \<Rightarrow> (string, runtime_record) gomap \<Rightarrow> (string, runtime_record) gomap" where
  "merge_into r m =
     (let key = runtimeRecordKey r; r' = r\<lparr>rr_RecordID := key\<rparr> in
      case map_of m key of
        Some existing \<Rightarrow> map_put key (mergeRuntimeRecord existing r') m
      | None \<Rightarrow> map_put key r' m)"

definition stored_into ::
  "runtime_record \<Rightarrow> (string, runtime_record) gomap \<Rightarrow> (string, runtime_record) gomap" where
  "stored_into r m =
     (let r' = r\<lparr>rr_RecordID := or_str (rr_RecordID r) (runtimeRecordKey r)\<rparr>
      in map_put (rr_RecordID r') r' m)"

text \<open>
  \<open>membersBySession[worker.SessionID]\<close>, then \<open>membersByName[worker.Name]\<close>: in both maps the
  last member with the key wins, and neither holds the empty key.
\<close>

definition member_of_worker :: "member list \<Rightarrow> worker \<Rightarrow> member option" where
  "member_of_worker members w =
     (case find (\<lambda>m. mb_SessionID m = wk_SessionID w \<and> mb_SessionID m \<noteq> []) (rev members) of
        Some m \<Rightarrow> Some m
      | None \<Rightarrow>
          if wk_Name w \<noteq> [] then find (\<lambda>m. mb_AgentName m = wk_Name w) (rev members) else None)"

definition record_map ::
  "string \<Rightarrow> runtime_record list \<Rightarrow> member list \<Rightarrow> worker list \<Rightarrow> (string, runtime_record) gomap" where
  "record_map teamName records members ws =
     fold (\<lambda>w. merge_into (runtimeRecordFromWorker teamName w (member_of_worker members w))) ws
       (fold (\<lambda>m. merge_into (runtimeRecordFromMember teamName m)) members
         (fold stored_into records []))"

definition project_records ::
  "(runtime_record list \<Rightarrow> runtime_record list) \<Rightarrow> string \<Rightarrow> runtime_record list \<Rightarrow> member list \<Rightarrow>
   worker list \<Rightarrow> runtime_record list" where
  "project_records arrange teamName records members ws =
     arrange (map (\<lambda>(k, r). r\<lparr>rr_RecordID := or_str (rr_RecordID r) (runtimeRecordKey r),
                              rr_TeamName := teamName\<rparr>)
       (record_map teamName records members ws))"

definition ProjectRuntime ::
  "(runtime_record list \<Rightarrow> runtime_record list) \<Rightarrow> string \<Rightarrow> member list \<Rightarrow> worker list \<Rightarrow>
   (runtime_record list \<times> runtime_summary) store_op" where
  "ProjectRuntime arrange teamName members ws =
     sbind (ListRuntime teamName) (\<lambda>records.
     let projected = project_records arrange teamName records members ws in
     sret (projected, summarizeRuntimeRecords projected))"

definition MaterializeRuntime ::
  "(runtime_record list \<Rightarrow> runtime_record list) \<Rightarrow> string \<Rightarrow> member list \<Rightarrow> worker list \<Rightarrow>
   (runtime_record list \<times> runtime_summary) store_op" where
  "MaterializeRuntime arrange teamName members ws =
     sbind (ProjectRuntime arrange teamName members ws) (\<lambda>(projected, summary).
     sbind (save_runtime teamName projected) (\<lambda>_. sret (projected, summary)))"

section \<open>Facts\<close>

interpretation runtime_store: doc_store
  "\<lambda>t. json_path t ''runtime_records.json''" ListRuntime save_runtime
  unfolding ListRuntime_def save_runtime_def by (rule json_doc_store) simp

interpretation runtime_records: keyed_upsert rr_RecordID put_record
  by unfold_locales simp_all

text \<open>The comparison of the records meets the contract of \<open>sort.Slice\<close>.\<close>

interpretation runtime_lt: weak_lt runtime_less
proof -
  have "weak_lt (\<lambda>a b. if rr_AgentName a \<noteq> rr_AgentName b then str_less (rr_AgentName a) (rr_AgentName b)
      else if rr_LineageDepth a \<noteq> rr_LineageDepth b then rr_LineageDepth a < rr_LineageDepth b
      else if rr_WorkerID a \<noteq> rr_WorkerID b then str_less (rr_WorkerID a) (rr_WorkerID b)
      else str_less (rr_SessionID a) (rr_SessionID b))"
    by (intro str_lt.then_weak int_lt.then_weak str_lt.field_weak)
  then show "weak_lt runtime_less"
    unfolding runtime_less_def [abs_def] .
qed

lemma runtimeRecordKey_nonempty [simp]: "runtimeRecordKey r \<noteq> []"
  by (simp add: runtimeRecordKey_def)

lemma key_of_record_id [simp]: "runtimeRecordKey (r\<lparr>rr_RecordID := i\<rparr>) = runtimeRecordKey r"
  by (simp add: runtimeRecordKey_def)

lemma merge_RecordID [simp]:
  "rr_RecordID (mergeRuntimeRecord a b) = or_str (rr_RecordID b) (rr_RecordID a)"
  by (simp add: mergeRuntimeRecord_def)

lemma or_str_nonempty [simp]: "b \<noteq> [] \<Longrightarrow> or_str a b \<noteq> []" "a \<noteq> [] \<Longrightarrow> or_str a b = a"
  by (simp_all add: or_str_def)

text \<open>Every record of the record map stands under its identifier, which is not empty.\<close>

definition records_ok :: "(string, runtime_record) gomap \<Rightarrow> bool" where
  "records_ok m \<longleftrightarrow> wf_map m \<and> (\<forall>(k, r) \<in> set m. rr_RecordID r = k \<and> k \<noteq> [])"

lemma records_ok_put:
  assumes "records_ok m" and "rr_RecordID r = k" and "k \<noteq> []"
  shows "records_ok (map_put k r m)"
  unfolding records_ok_def
proof (intro conjI ballI, goal_cases)
  case 1
  then show ?case using assms(1) by (simp add: records_ok_def wf_map_put)
next
  case (2 x)
  then show ?case
    using assms set_map_put [of m "fst x" "snd x" k r] by (auto simp: records_ok_def)
qed

lemma stored_into_ok: "records_ok m \<Longrightarrow> records_ok (stored_into r m)"
  unfolding stored_into_def Let_def by (rule records_ok_put) simp_all

lemma merge_into_ok: "records_ok m \<Longrightarrow> records_ok (merge_into r m)"
  unfolding merge_into_def Let_def
  by (cases "map_of m (runtimeRecordKey r)") (auto intro!: records_ok_put)

lemma keys_merge_into: "fst ` set (merge_into r m) = insert (runtimeRecordKey r) (fst ` set m)"
  by (simp add: merge_into_def Let_def keys_map_put split: option.split)

definition stored_id :: "runtime_record \<Rightarrow> string" where
  "stored_id r = or_str (rr_RecordID r) (runtimeRecordKey r)"

lemma keys_stored_into: "fst ` set (stored_into r m) = insert (stored_id r) (fst ` set m)"
  by (simp add: stored_into_def stored_id_def Let_def keys_map_put)

lemma record_map_keys:
  "records_ok (record_map t records ms ws) \<and>
   fst ` set (record_map t records ms ws) =
     stored_id ` set records \<union>
     (\<lambda>m. runtimeRecordKey (runtimeRecordFromMember t m)) ` set ms \<union>
     (\<lambda>w. runtimeRecordKey (runtimeRecordFromWorker t w (member_of_worker ms w))) ` set ws"
proof -
  define m1 where "m1 = fold stored_into records []"
  define m2 where "m2 = fold (\<lambda>m. merge_into (runtimeRecordFromMember t m)) ms m1"
  have nil: "records_ok []" by (simp add: records_ok_def wf_map_def)
  have 1: "records_ok m1 \<and> fst ` set m1 = stored_id ` set records \<union> fst ` set ([] :: (string, runtime_record) gomap)"
    unfolding m1_def
    by (rule fold_keys [where P = records_ok])
      (simp_all add: stored_into_ok keys_stored_into nil)
  have 2: "records_ok m2 \<and> fst ` set m2 =
      (\<lambda>m. runtimeRecordKey (runtimeRecordFromMember t m)) ` set ms \<union> fst ` set m1"
    unfolding m2_def
    by (rule fold_keys [where P = records_ok]) (simp_all add: merge_into_ok keys_merge_into 1)
  have "records_ok (record_map t records ms ws) \<and> fst ` set (record_map t records ms ws) =
     (\<lambda>w. runtimeRecordKey (runtimeRecordFromWorker t w (member_of_worker ms w))) ` set ws \<union> fst ` set m2"
    unfolding record_map_def m1_def [symmetric] m2_def [symmetric]
    by (rule fold_keys [where P = records_ok]) (simp_all add: merge_into_ok keys_merge_into 2)
  then show ?thesis using 1 2 by auto
qed

lemma project_ids:
  assumes "sort_Slice runtime_less arrange"
  shows "distinct (map rr_RecordID (project_records arrange t records ms ws))"
    and "rr_RecordID ` set (project_records arrange t records ms ws) = fst ` set (record_map t records ms ws)"
    and "r \<in> set (project_records arrange t records ms ws) \<Longrightarrow> rr_TeamName r = t"
    and "length (project_records arrange t records ms ws) = length (record_map t records ms ws)"
proof -
  let ?m = "record_map t records ms ws"
  let ?f = "\<lambda>(k, r). r\<lparr>rr_RecordID := or_str (rr_RecordID r) (runtimeRecordKey r), rr_TeamName := t\<rparr>"
  have m: "mset (project_records arrange t records ms ws) = mset (map ?f ?m)"
    using assms unfolding sort_Slice_def project_records_def by blast
  have s: "set (project_records arrange t records ms ws) = set (map ?f ?m)"
    by (rule mset_eq_setD [OF m])
  have ok: "records_ok ?m" using record_map_keys by blast
  have own: "rr_RecordID (?f x) = fst x" if "x \<in> set ?m" for x
  proof (cases x)
    case (Pair k r)
    then have "rr_RecordID r = k" and "k \<noteq> []"
      using ok that by (auto simp: records_ok_def)
    then show ?thesis by (simp add: Pair)
  qed
  have ids: "map rr_RecordID (map ?f ?m) = map fst ?m"
    unfolding map_map comp_def by (rule map_cong [OF refl]) (rule own)
  have "mset (map rr_RecordID (project_records arrange t records ms ws)) = mset (map fst ?m)"
    using arg_cong [OF m, of "image_mset rr_RecordID"] unfolding mset_map [symmetric] ids .
  then show "distinct (map rr_RecordID (project_records arrange t records ms ws))"
    using ok unfolding records_ok_def wf_map_def using mset_eq_imp_distinct_iff by blast
  have "rr_RecordID ` set (map ?f ?m) = set (map fst ?m)"
    using arg_cong [OF ids, of set] unfolding set_map .
  then show "rr_RecordID ` set (project_records arrange t records ms ws) = fst ` set ?m"
    by (simp add: s)
  show "rr_TeamName r = t" if "r \<in> set (project_records arrange t records ms ws)"
    using that unfolding s by auto
  show "length (project_records arrange t records ms ws) = length ?m"
    using mset_eq_length [OF m] by simp
qed

section \<open>What a summary counts\<close>

lemma get_add_one: "map_get_or 0 (add_one k m) j = map_get_or 0 m j + (if j = k then 1 else 0)"
  by (simp add: add_one_def map_get_or_def map_simps)

lemma summarize_counts:
  fixes s :: runtime_summary
  defines "s' records \<equiv> fold summarize_step records s"
  shows "rs_Total (s' records) = rs_Total s"
    and "rs_Active (s' records) = rs_Active s +
      int (length (filter (\<lambda>r. rr_Status r \<in> {WorkerStatusQueued, WorkerStatusRunning}) records))"
    and "rs_Committed (s' records) = rs_Committed s +
      int (length (filter (\<lambda>r. rr_CommitmentState r = ''committed'') records))"
    and "rs_Pending (s' records) = rs_Pending s +
      int (length (filter (\<lambda>r. rr_CommitmentState r = ''pending'') records))"
    and "rs_Local (s' records) = rs_Local s +
      int (length (filter (\<lambda>r. rr_CommitmentState r \<notin> {''committed'', ''pending''}) records))"
    and "rs_MaxLineageDepth (s' records) = Max (insert (rs_MaxLineageDepth s) (rr_LineageDepth ` set records))"
    and "k \<noteq> [] \<Longrightarrow> map_get_or 0 (rs_ByStatus (s' records)) k = map_get_or 0 (rs_ByStatus s) k +
      int (length (filter (\<lambda>r. rr_Status r = k) records))"
proof -
  show "rs_MaxLineageDepth (s' records) = Max (insert (rs_MaxLineageDepth s) (rr_LineageDepth ` set records))"
  proof -
    have "rs_MaxLineageDepth (fold summarize_step records s) =
        fold max (map rr_LineageDepth records) (rs_MaxLineageDepth s)" for s
      by (induction records arbitrary: s) (simp_all add: summarize_step_def max.commute)
    then show ?thesis
      unfolding s'_def using Max.set_eq_fold [of "rs_MaxLineageDepth s" "map rr_LineageDepth records"] by simp
  qed
qed (unfold s'_def, (induction records arbitrary: s, simp_all add: summarize_step_def get_add_one)+)

lemma filter_partition3:
  "length (filter (\<lambda>x. f x = a) xs) + length (filter (\<lambda>x. f x = b) xs) +
   length (filter (\<lambda>x. f x \<notin> {a, b}) xs) = length xs" if "a \<noteq> b"
  using that by (induction xs) auto

lemma filter_two:
  "a \<noteq> b \<Longrightarrow> length (filter (\<lambda>x. f x \<in> {a, b}) xs) =
     length (filter (\<lambda>x. f x = a) xs) + length (filter (\<lambda>x. f x = b) xs)"
  by (induction xs) auto

end
