(* ===== verification/Team_Office.thy ===== *)
theory Team_Office
  imports Team_Runtime Team_Context
begin

text \<open>
  The office of a team, \<open>internal/team/office_state.go\<close>: one roster row for every agent, or for
  a role without one, merged from the roles, the members and the runtime records. \<open>arrange\<close>
  is \<open>sort.Slice\<close> by the order \<open>roster_less\<close>; the roles and the roster are visited in the
  order of their association lists.
\<close>

fun office_of :: "document \<Rightarrow> office_state option" where
  "office_of (OfficeDoc o') = Some o'"
| "office_of d = None"

definition zero_summary :: runtime_summary where
  "zero_summary =
     \<lparr>rs_Total = 0, rs_Active = 0, rs_Local = 0, rs_Committed = 0, rs_Pending = 0,
      rs_MaxLineageDepth = 0, rs_ByStatus = [], rs_ByWakeState = [], rs_ByCommitmentState = [],
      rs_ByWorkspaceMode = []\<rparr>"

definition zero_office :: office_state where
  "zero_office =
     \<lparr>of_TeamName = [], of_Leader = [], of_Constitution = [], of_RuntimeMode = [],
      of_SharedTruth = [], of_WorkspaceMode = [], of_PublicationMode = [], of_ConsensusMode = [],
      of_WakePolicy = [], of_MaterializedAt = 0, of_LastActiveAt = 0, of_LastWakeAt = 0,
      of_Roster = [], of_RuntimeSummary = zero_summary, of_ContinuityStatus = []\<rparr>"

definition zero_row :: office_roster_row where
  "zero_row =
     \<lparr>row_AgentName = [], row_RoleName = [], row_Responsible = [], row_SessionID = [],
      row_WorkerID = [], row_ReportsTo = [], row_Leader = False, row_Kind = [],
      row_Profile = [], row_Status = [], row_WakeState = [], row_StateScope = [],
      row_CommitmentState = [], row_WorkspaceMode = [], row_Present = False,
      row_LastActiveAt = 0, row_LastHeartbeatAt = 0, row_LineageDepth = 0,
      row_CanSpawnChildren = False\<rparr>"

fun coalesceString :: "string list \<Rightarrow> string" where
  "coalesceString [] = []"
| "coalesceString (v # vs) = (if v \<noteq> [] then v else coalesceString vs)"

definition maxInt64 :: "int \<Rightarrow> int list \<Rightarrow> int" where
  "maxInt64 base values = fold (\<lambda>v m. if v > m then v else m) values base"

definition rosterKey :: "string \<Rightarrow> string \<Rightarrow> string" where
  "rosterKey agentName roleName =
     (if agentName \<noteq> [] then ''agent:'' @ normalizeName agentName
      else if roleName \<noteq> [] then ''role:'' @ normalizeName roleName
      else ''office:unknown'')"

type_synonym roster = "(string, office_roster_row) gomap"

definition role_into :: "string \<Rightarrow> role \<Rightarrow> roster \<Rightarrow> roster" where
  "role_into roleName r m =
     map_put (rosterKey (rl_Agent r) roleName)
       (zero_row\<lparr>row_AgentName := rl_Agent r, row_RoleName := roleName,
          row_Responsible := rl_Responsible r, row_ReportsTo := rl_ReportsTo r,
          row_Profile := rl_Profile r, row_CanSpawnChildren := rl_CanSpawnSubagents r\<rparr>) m"

definition member_row :: "member \<Rightarrow> office_roster_row \<Rightarrow> office_roster_row" where
  "member_row m row = row
     \<lparr>row_AgentName := coalesceString [mb_AgentName m, row_AgentName row],
      row_RoleName := coalesceString [mb_RoleName m, row_RoleName row],
      row_SessionID := coalesceString [mb_SessionID m, row_SessionID row],
      row_WorkerID := coalesceString [mb_WorkerID m, row_WorkerID row],
      row_ReportsTo := coalesceString [mb_ReportsTo m, row_ReportsTo row],
      row_Kind := coalesceString [mb_Kind m, row_Kind row],
      row_Profile := coalesceString [mb_Profile m, row_Profile row],
      row_Status := coalesceString [mb_Status m, row_Status row],
      row_WakeState := coalesceString [mb_WakeState m, row_WakeState row],
      row_StateScope := coalesceString [mb_StateScope m, row_StateScope row],
      row_CommitmentState := coalesceString [mb_CommitmentState m, row_CommitmentState row],
      row_WorkspaceMode := coalesceString [mb_WorkspaceMode m, row_WorkspaceMode row],
      row_Leader := (row_Leader row \<or> mb_Leader m),
      row_Present := (row_Present row \<or> mb_SessionID m \<noteq> []),
      row_LastHeartbeatAt := maxInt64 (row_LastHeartbeatAt row) [mb_LastHeartbeatAt m],
      row_LastActiveAt :=
        maxInt64 (row_LastActiveAt row) [mb_LastSignalAt m, mb_LastHeartbeatAt m, mb_UpdatedAt m],
      row_LineageDepth := (if mb_LineageDepth m > row_LineageDepth row then mb_LineageDepth m
                           else row_LineageDepth row),
      row_CanSpawnChildren := (row_CanSpawnChildren row \<or> mb_CanSpawnSubagents m)\<rparr>"

definition record_row :: "runtime_record \<Rightarrow> office_roster_row \<Rightarrow> office_roster_row" where
  "record_row r row = row
     \<lparr>row_AgentName := coalesceString [rr_AgentName r, row_AgentName row],
      row_RoleName := coalesceString [rr_RoleName r, row_RoleName row],
      row_SessionID := coalesceString [rr_SessionID r, row_SessionID row],
      row_WorkerID := coalesceString [rr_WorkerID r, row_WorkerID row],
      row_Kind := coalesceString [rr_Kind r, row_Kind row],
      row_Profile := coalesceString [rr_Profile r, row_Profile row],
      row_Status := coalesceString [rr_Status r, row_Status row],
      row_WakeState := coalesceString [rr_WakeState r, row_WakeState row],
      row_StateScope := coalesceString [rr_StateScope r, row_StateScope row],
      row_CommitmentState := coalesceString [rr_CommitmentState r, row_CommitmentState row],
      row_WorkspaceMode := coalesceString [rr_WorkspaceMode r, row_WorkspaceMode row],
      row_Present := (row_Present row \<or> rr_SessionID r \<noteq> [] \<or> rr_WorkerID r \<noteq> []),
      row_LastHeartbeatAt := maxInt64 (row_LastHeartbeatAt row) [rr_LastHeartbeatAt r],
      row_LastActiveAt :=
        maxInt64 (row_LastActiveAt row)
          [rr_LastSignalAt r, rr_LastHeartbeatAt r, rr_StartedAt r, rr_UpdatedAt r, rr_CompletedAt r],
      row_LineageDepth := (if rr_LineageDepth r > row_LineageDepth row then rr_LineageDepth r
                           else row_LineageDepth row)\<rparr>"

definition change_row ::
  "string \<Rightarrow> (office_roster_row \<Rightarrow> office_roster_row) \<Rightarrow> roster \<Rightarrow> roster" where
  "change_row key f m = map_put key (f (map_get_or zero_row m key)) m"

definition build_roster ::
  "team_context option \<Rightarrow> member list \<Rightarrow> runtime_record list \<Rightarrow> roster" where
  "build_roster tc members records =
     fold (\<lambda>r. change_row (rosterKey (rr_AgentName r) (rr_RoleName r)) (record_row r)) records
       (fold (\<lambda>m. change_row (rosterKey (mb_AgentName m) (mb_RoleName m)) (member_row m)) members
         (case tc of None \<Rightarrow> [] | Some c \<Rightarrow> fold (\<lambda>(name, r). role_into name r) (tc_Roles c) []))"

definition roster_less :: "office_roster_row \<Rightarrow> office_roster_row \<Rightarrow> bool" where
  "roster_less a b =
     (if row_Leader a \<noteq> row_Leader b then row_Leader a
      else if row_RoleName a \<noteq> row_RoleName b then str_less (row_RoleName a) (row_RoleName b)
      else str_less (row_AgentName a) (row_AgentName b))"

definition office_header :: "string \<Rightarrow> team_context option \<Rightarrow> runtime_summary \<Rightarrow> int \<Rightarrow> office_state" where
  "office_header teamName tc summary now =
     (let office = zero_office\<lparr>of_TeamName := teamName, of_RuntimeSummary := summary,
                               of_MaterializedAt := now\<rparr> in
      case tc of
        None \<Rightarrow> office
      | Some c \<Rightarrow> office
          \<lparr>of_Leader := tc_Leader c, of_Constitution := tc_Constitution c,
           of_RuntimeMode := tc_RuntimeMode c, of_SharedTruth := tc_SharedTruth c,
           of_WorkspaceMode := wa_WorkspaceMode (tc_WorkingAgreement c),
           of_PublicationMode := wa_PublicationMode (tc_WorkingAgreement c),
           of_ConsensusMode := wa_ConsensusMode (tc_WorkingAgreement c),
           of_WakePolicy := wa_WakePolicy (tc_WorkingAgreement c)\<rparr>)"

definition buildOfficeState ::
  "(office_roster_row list \<Rightarrow> office_roster_row list) \<Rightarrow> string \<Rightarrow> team_context option \<Rightarrow>
   member list \<Rightarrow> runtime_record list \<Rightarrow> runtime_summary \<Rightarrow> int \<Rightarrow> office_state" where
  "buildOfficeState arrange teamName tc members records summary now =
     (let rows = map snd (build_roster tc members records)
      in (office_header teamName tc summary now)
        \<lparr>of_Roster := arrange rows,
         of_LastActiveAt := fold (\<lambda>row t. maxInt64 t [row_LastActiveAt row]) rows 0,
         of_LastWakeAt := fold (\<lambda>row t. maxInt64 t [row_LastHeartbeatAt row]) rows 0,
         of_ContinuityStatus :=
           (if rs_Active summary > 0 then ''active''
            else if rows \<noteq> [] then ''standing-by''
            else ''empty'')\<rparr>)"

definition save_office :: "string \<Rightarrow> office_state \<Rightarrow> unit store_op" where
  "save_office teamName office = writeJSON teamName ''office_state.json'' (OfficeDoc office)"

definition load_office :: "string \<Rightarrow> office_state store_op" where
  "load_office teamName = readJSON office_of zero_office teamName ''office_state.json''"

definition ReadOffice :: "string \<Rightarrow> office_state option store_op" where
  "ReadOffice teamName =
     sbind (load_office teamName) (\<lambda>office.
     sret (if of_TeamName office = [] then None else Some office))"

definition MaterializeOffice ::
  "(office_roster_row list \<Rightarrow> office_roster_row list) \<Rightarrow> string \<Rightarrow> team_context option \<Rightarrow>
   member list \<Rightarrow> runtime_record list \<Rightarrow> runtime_summary \<Rightarrow> int \<Rightarrow> office_state store_op" where
  "MaterializeOffice arrange teamName tc members records summary now =
     (let office = buildOfficeState arrange teamName tc members records summary now
      in sbind (save_office teamName office) (\<lambda>_. sret office))"

section \<open>Facts\<close>

interpretation office_store: doc_store
  "\<lambda>t. json_path t ''office_state.json''" load_office save_office
  unfolding load_office_def save_office_def by (rule json_doc_store) simp

interpretation roster_lt: weak_lt roster_less
proof -
  have w: "weak_lt (\<lambda>a b. if row_Leader a \<noteq> row_Leader b then row_Leader a \<and> \<not> row_Leader b
      else if row_RoleName a \<noteq> row_RoleName b then str_less (row_RoleName a) (row_RoleName b)
      else str_less (row_AgentName a) (row_AgentName b))"
    by (intro flag_lt.then_weak str_lt.then_weak str_lt.field_weak)
  have eq: "roster_less = (\<lambda>a b. if row_Leader a \<noteq> row_Leader b then row_Leader a \<and> \<not> row_Leader b
      else if row_RoleName a \<noteq> row_RoleName b then str_less (row_RoleName a) (row_RoleName b)
      else str_less (row_AgentName a) (row_AgentName b))"
    by (intro ext) (simp add: roster_less_def)
  show "weak_lt roster_less" unfolding eq by (rule w)
qed

text \<open>Every row of a roster stands under its own key.\<close>

definition roster_ok :: "roster \<Rightarrow> bool" where
  "roster_ok m \<longleftrightarrow> wf_map m \<and> (\<forall>(k, row) \<in> set m. rosterKey (row_AgentName row) (row_RoleName row) = k)"

lemma roster_ok_put:
  assumes "roster_ok m" and "rosterKey (row_AgentName row) (row_RoleName row) = k"
  shows "roster_ok (map_put k row m)"
  unfolding roster_ok_def
proof (intro conjI ballI, goal_cases)
  case 1
  then show ?case using assms(1) by (simp add: roster_ok_def wf_map_put)
next
  case (2 x)
  then show ?case
    using assms set_map_put [of m "fst x" "snd x" k row] by (auto simp: roster_ok_def)
qed

lemma role_into_ok: "roster_ok m \<Longrightarrow> roster_ok (role_into name r m)"
  unfolding role_into_def by (rule roster_ok_put) simp_all

text \<open>Merging names into the row of their key leaves the row under that key.\<close>

lemma rosterKey_merge:
  assumes "rosterKey a' r' = rosterKey a r \<or> a' = [] \<and> r' = []"
  shows "rosterKey (coalesceString [a, a']) (coalesceString [r, r']) = rosterKey a r"
  using assms by (auto simp: rosterKey_def split: if_splits)

lemma change_row_ok:
  assumes "roster_ok m"
    and "\<And>row. row_AgentName (f row) = coalesceString [a, row_AgentName row]"
    and "\<And>row. row_RoleName (f row) = coalesceString [r, row_RoleName row]"
  shows "roster_ok (change_row (rosterKey a r) f m)"
  unfolding change_row_def
proof (rule roster_ok_put [OF assms(1)])
  let ?row = "map_get_or zero_row m (rosterKey a r)"
  have "rosterKey (row_AgentName ?row) (row_RoleName ?row) = rosterKey a r \<or>
        row_AgentName ?row = [] \<and> row_RoleName ?row = []"
  proof (cases "map_of m (rosterKey a r)")
    case None
    then show ?thesis by (simp add: map_get_or_def zero_row_def)
  next
    case (Some row)
    then show ?thesis
      using assms(1) map_of_SomeD [OF Some] by (auto simp: map_get_or_def roster_ok_def)
  qed
  then show "rosterKey (row_AgentName (f ?row)) (row_RoleName (f ?row)) = rosterKey a r"
    unfolding assms(2,3) by (rule rosterKey_merge)
qed

lemma keys_role_into: "fst ` set (role_into n r m) = insert (rosterKey (rl_Agent r) n) (fst ` set m)"
  by (simp add: role_into_def keys_map_put)

lemma keys_change_row: "fst ` set (change_row k f m) = insert k (fst ` set m)"
  by (simp add: change_row_def keys_map_put)

definition role_keys :: "team_context option \<Rightarrow> string set" where
  "role_keys tc =
     (case tc of None \<Rightarrow> {} | Some c \<Rightarrow> (\<lambda>(name, r). rosterKey (rl_Agent r) name) ` set (tc_Roles c))"

lemma build_roster_keys:
  "roster_ok (build_roster tc members records) \<and>
   fst ` set (build_roster tc members records) =
     role_keys tc \<union>
     (\<lambda>m. rosterKey (mb_AgentName m) (mb_RoleName m)) ` set members \<union>
     (\<lambda>r. rosterKey (rr_AgentName r) (rr_RoleName r)) ` set records"
proof -
  define roles where
    "roles = (case tc of None \<Rightarrow> [] | Some c \<Rightarrow> fold (\<lambda>(name, r). role_into name r) (tc_Roles c) [])"
  have nil: "roster_ok []" by (simp add: roster_ok_def wf_map_def)
  have 1: "roster_ok roles \<and> fst ` set roles = role_keys tc"
  proof (cases tc)
    case None
    then show ?thesis using nil by (simp add: roles_def role_keys_def)
  next
    case (Some c)
    have "roster_ok (fold (\<lambda>(name, r). role_into name r) (tc_Roles c) []) \<and>
      fst ` set (fold (\<lambda>(name, r). role_into name r) (tc_Roles c) []) =
        (\<lambda>(name, r). rosterKey (rl_Agent r) name) ` set (tc_Roles c) \<union> fst ` set ([] :: roster)"
      by (rule fold_keys [where P = roster_ok]) (simp_all add: role_into_ok keys_role_into nil split_beta)
    then show ?thesis by (simp add: roles_def role_keys_def Some)
  qed
  define ms where
    "ms = fold (\<lambda>m. change_row (rosterKey (mb_AgentName m) (mb_RoleName m)) (member_row m)) members roles"
  have 2: "roster_ok ms \<and> fst ` set ms =
      (\<lambda>m. rosterKey (mb_AgentName m) (mb_RoleName m)) ` set members \<union> fst ` set roles"
    unfolding ms_def
    by (rule fold_keys [where P = roster_ok]) (use 1 in \<open>auto simp: keys_change_row member_row_def intro!: change_row_ok\<close>)
  have "roster_ok (build_roster tc members records) \<and> fst ` set (build_roster tc members records) =
      (\<lambda>r. rosterKey (rr_AgentName r) (rr_RoleName r)) ` set records \<union> fst ` set ms"
    unfolding build_roster_def roles_def [symmetric] ms_def [symmetric]
    by (rule fold_keys [where P = roster_ok]) (use 2 in \<open>auto simp: keys_change_row record_row_def intro!: change_row_ok\<close>)
  then show ?thesis using 1 2 by auto
qed

lemma maxInt64_one: "maxInt64 t [v] = max v t"
  by (simp add: maxInt64_def max_def)

lemma fold_max:
  "fold (\<lambda>row t. maxInt64 t [f row]) rows t0 = Max (insert t0 (f ` set rows))"
  using Max.set_eq_fold [of t0 "map f rows"] by (simp add: maxInt64_one fold_map comp_def)

end
