(* ===== verification/Team_Snapshot.thy ===== *)
theory Team_Snapshot
  imports Team_Board Team_Handoff Team_Inbox Team_Office
begin

text \<open>
  The snapshot of a team, \<open>internal/team/snapshot.go\<close>: every service is asked in turn, the
  runtime records and the office are written on the way. \<open>arrangeM\<close>, \<open>arrangeR\<close> and
  \<open>arrangeO\<close> are the three uses of \<open>sort.Slice\<close>.
\<close>

record agency_snapshot =
  as_Constitution :: string
  as_RuntimeMode :: string
  as_SharedTruth :: string
  as_WorkspaceMode :: string
  as_PublicationMode :: string
  as_ConsensusMode :: string
  as_ActiveRuntimeRecords :: int
  as_LocalRuntimeRecords :: int
  as_CommittedRuntimeCount :: int

record snapshot =
  sn_TeamName :: string
  sn_Context :: "team_context option"
  sn_Board :: "task_board option"
  sn_BoardSummary :: "(string, int) gomap"
  sn_Members :: "member list"
  sn_Agency :: "agency_snapshot option"
  sn_Office :: "office_state option"
  sn_RuntimeRecords :: "runtime_record list"
  sn_RuntimeSummary :: runtime_summary
  sn_PendingHandoffs :: int
  sn_UnreadDirect :: int
  sn_UnreadBroadcasts :: int
  sn_Workers :: "worker list"

definition buildAgencySnapshot :: "team_context option \<Rightarrow> runtime_summary \<Rightarrow> agency_snapshot option" where
  "buildAgencySnapshot tc summary =
     (case tc of
        None \<Rightarrow> None
      | Some c \<Rightarrow> Some
          \<lparr>as_Constitution = tc_Constitution c, as_RuntimeMode = tc_RuntimeMode c,
           as_SharedTruth = tc_SharedTruth c,
           as_WorkspaceMode = wa_WorkspaceMode (tc_WorkingAgreement c),
           as_PublicationMode = wa_PublicationMode (tc_WorkingAgreement c),
           as_ConsensusMode = wa_ConsensusMode (tc_WorkingAgreement c),
           as_ActiveRuntimeRecords = rs_Active summary, as_LocalRuntimeRecords = rs_Local summary,
           as_CommittedRuntimeCount = rs_Committed summary\<rparr>)"

definition member_less :: "member \<Rightarrow> member \<Rightarrow> bool" where
  "member_less a b =
     (if mb_Leader a \<noteq> mb_Leader b then mb_Leader a
      else str_less (mb_AgentName a) (mb_AgentName b))"

text \<open>The loop over the members: unread direct messages and unread broadcasts.\<close>

fun count_unread :: "string \<Rightarrow> member list \<Rightarrow> int \<Rightarrow> int \<Rightarrow> (int \<times> int) store_op" where
  "count_unread teamName [] direct bcast = sret (direct, bcast)"
| "count_unread teamName (m # ms) direct bcast =
     sbind (ReadInbox teamName (mb_AgentName m) True) (\<lambda>msgs.
     count_unread teamName ms
       (direct + int (length (filter (\<lambda>x. \<not> im_Broadcast x) msgs)))
       (bcast + int (length (filter im_Broadcast msgs))))"

definition Snapshot ::
  "(member list \<Rightarrow> member list) \<Rightarrow> (runtime_record list \<Rightarrow> runtime_record list) \<Rightarrow>
   (office_roster_row list \<Rightarrow> office_roster_row list) \<Rightarrow>
   string \<Rightarrow> worker list \<Rightarrow> int \<Rightarrow> int \<Rightarrow> snapshot option store_op" where
  "Snapshot arrangeM arrangeR arrangeO teamName ws now0 now =
     sbind (ReadContext teamName) (\<lambda>found.
     case found of
       None \<Rightarrow> sret None
     | Some tc \<Rightarrow>
         sbind (CreateBoard teamName now0) (\<lambda>board.
         sbind (ListMembers teamName) (\<lambda>listed.
         sbind (ListHandoffs teamName ''pending'' []) (\<lambda>handoffs.
         let members = arrangeM listed in
         sbind (MaterializeRuntime arrangeR teamName members ws) (\<lambda>(records, summary).
         sbind (MaterializeOffice arrangeO teamName (Some tc) members records summary now) (\<lambda>office.
         sbind (count_unread teamName members 0 0) (\<lambda>(direct, bcast).
         sret (Some
           \<lparr>sn_TeamName = teamName, sn_Context = Some tc, sn_Board = Some board,
            sn_BoardSummary = summarizeBoard (Some board), sn_Members = members,
            sn_Agency = buildAgencySnapshot (Some tc) summary, sn_Office = Some office,
            sn_RuntimeRecords = records, sn_RuntimeSummary = summary,
            sn_PendingHandoffs = int (length handoffs), sn_UnreadDirect = direct,
            sn_UnreadBroadcasts = bcast, sn_Workers = ws\<rparr>))))))))"

interpretation member_lt: weak_lt member_less
proof -
  have w: "weak_lt (\<lambda>a b. if mb_Leader a \<noteq> mb_Leader b then mb_Leader a \<and> \<not> mb_Leader b
      else str_less (mb_AgentName a) (mb_AgentName b))"
    by (intro flag_lt.then_weak str_lt.field_weak)
  have eq: "member_less = (\<lambda>a b. if mb_Leader a \<noteq> mb_Leader b then mb_Leader a \<and> \<not> mb_Leader b
      else str_less (mb_AgentName a) (mb_AgentName b))"
    by (intro ext) (simp add: member_less_def)
  show "weak_lt member_less" unfolding eq by (rule w)
qed

end
