(* ===== verification/Team_Properties.thy ===== *)
theory Team_Properties
  imports Team_Board Team_Handoff Team_Inbox
begin

text \<open>
  The properties of the team services: names, the task board, handoffs, inboxes, members,
  runtime records and the office.
\<close>

section \<open>Names\<close>

text \<open>
  Property C33. \<open>normalizeName\<close> is a normal form: whatever the name, the result is a non-empty
  string of lower-case letters, digits, dots, underscores and hyphens that neither starts
  nor ends with a hyphen, and normalizing it again changes nothing; so two teams share a
  directory exactly if their normal names agree.
\<close>

theorem team_names_are_canonical:
  "normal_name (normalizeName name) \<and>
   normalizeName (normalizeName name) = normalizeName name \<and>
   (teamDir name = teamDir other \<longleftrightarrow> normalizeName name = normalizeName other)"
  by (simp add: normal_normalizeName normalizeName_normal teamDir_eq_iff)

section \<open>The task board\<close>

text \<open>
  Property C20. A successful \<open>MoveTask\<close> leaves the task in the target column and in no other
  one, leaves the other tasks of every column as they were and in their order, and the board
  it returns is the one a later read finds. The one exception is in the code's second loop,
  which skips the column it was told to move from: with an empty \<open>fromColumn\<close> a task keeps its
  place in a column whose name is empty.
\<close>

theorem move_task_leaves_one_column:
  assumes "MoveTask t task from to agent now0 now st = (Ok b, st')"
    and "CreateBoard t now0 st = (Ok b0, st0)" and "t \<noteq> []"
  shows "(task \<in> set (column_of (board_columns b) c) \<longleftrightarrow>
            c = to \<or> c = [] \<and> from = [] \<and> task \<in> set (column_of (board_columns b0) [])) \<and>
         removeAll task (column_of (board_columns b) c) =
           removeAll task (column_of (board_columns b0) c) \<and>
         ReadBoard t st' = (Ok (Some b), st')"
proof -
  obtain b1 st1 where c1: "CreateBoard t now0 st = (Ok b1, st1)" and n: "tb_TeamName b = tb_TeamName b1"
    and cols: "tb_Columns b = Some (move_columns task from to (ensure_columns b1))"
    and w: "write_board t b st1 = (Ok (), st')"
    using MoveTask_Ok [OF assms(1)] .
  have b1: "b1 = b0" "st1 = st0" using c1 assms(2) by auto
  have name: "tb_TeamName b \<noteq> []"
    using CreateBoard_readable(2) [OF c1] assms(3) n by auto
  have "column_of (board_columns b) c = column_of (move_columns task from to (ensure_columns b0)) c"
    by (simp add: board_columns_def cols b1)
  then show ?thesis
    using write_then_ReadBoard [OF w CreateBoard_readable(1) [OF c1] name]
    by (auto simp: column_of_move column_of_ensure Let_def)
qed

definition empty_store :: team_store where
  "empty_store =
     \<lparr>ts_files = (\<lambda>p. None), ts_dirs = [], ts_readErr = (\<lambda>p. None), ts_mkdirErr = (\<lambda>p. None),
      ts_writeErr = (\<lambda>p. None), ts_listErr = None\<rparr>"

lemma faultless_empty_store [simp]: "faultless empty_store"
  by (simp add: faultless_def empty_store_def)

lemma move_example:
  "is_ok (fst (MoveTask ''core'' ''T1'' ''ready'' ''done'' ''ann'' 1 2 empty_store))"
  by code_simp

theorem move_task_leaves_one_column_witness:
  "\<exists>b. fst (MoveTask ''core'' ''T1'' ''ready'' ''done'' ''ann'' 1 2 empty_store) = Ok b \<and>
     ''T1'' \<in> set (column_of (board_columns b) ''done'') \<and>
     ''T1'' \<notin> set (column_of (board_columns b) ''ready'')"
proof -
  obtain b st' where m: "MoveTask ''core'' ''T1'' ''ready'' ''done'' ''ann'' 1 2 empty_store = (Ok b, st')"
    using ran_ok [OF move_example] .
  obtain b0 st0 where c: "CreateBoard ''core'' 1 empty_store = (Ok b0, st0)"
    using MoveTask_Ok [OF m] by blast
  show ?thesis
    using move_task_leaves_one_column [OF m c, of "''done''"]
      move_task_leaves_one_column [OF m c, of "''ready''"] m
    by simp
qed

text \<open>
  The board operations panic exactly when they write to a map that is nil in the
  stored board: every one of them when the file has no \<open>constraints\<close>, and assigning a task,
  alone or in a move to an agent, when it has no \<open>assignments\<close>; nothing is written then.
\<close>

theorem board_operations_panic_iff:
  assumes "CreateBoard t now0 st = (Ok b, st0)"
  shows "(is_panic (fst (MoveTask t task from to agent now0 now st)) \<longleftrightarrow>
            tb_Constraints b = None \<or> agent \<noteq> [] \<and> tb_Assignments b = None) \<and>
         (is_panic (fst (AddTaskToColumn t task to now0 now st)) \<longleftrightarrow> tb_Constraints b = None) \<and>
         (is_panic (fst (AssignTask t task agent now0 now st)) \<longleftrightarrow>
            tb_Constraints b = None \<or> tb_Assignments b = None) \<and>
         (is_panic (fst (AssignTask t task agent now0 now st)) \<longrightarrow>
            snd (AssignTask t task agent now0 now st) = st0)"
proof -
  have w: "is_panic (fst (sbind (write_board t b') (\<lambda>_. sret b') st0)) = False" for b'
    using no_panicD [OF no_panic_sbind [OF board_store.wr_np no_panic_sret], of t b' "\<lambda>_. b'" st0]
    by (auto simp: is_panic_iff)
  have s: "sbind (slift r) f st0 =
      (case r of Ok a \<Rightarrow> f a st0 | Err e \<Rightarrow> (Err e, st0) | Panic e \<Rightarrow> (Panic e, st0))"
    for r and f :: "task_board \<Rightarrow> task_board store_op"
    by (simp add: sbind_def slift_def split: outcome.split)
  have c: "sbind (CreateBoard t now0) f st = f b st0" for f :: "task_board \<Rightarrow> task_board store_op"
    by (simp add: sbind_def assms)
  note ops = c s put_updated_def put_assignment_def nil_map_put_def w Let_def
  have m: "is_panic (fst (MoveTask t task from to agent now0 now st)) \<longleftrightarrow>
            tb_Constraints b = None \<or> agent \<noteq> [] \<and> tb_Assignments b = None"
    by (cases "tb_Constraints b"; cases "tb_Assignments b")
      (simp_all add: MoveTask_def ops)
  have a: "is_panic (fst (AddTaskToColumn t task to now0 now st)) \<longleftrightarrow> tb_Constraints b = None"
    by (cases "tb_Constraints b") (simp_all add: AddTaskToColumn_def ops)
  have g: "is_panic (fst (AssignTask t task agent now0 now st)) \<longleftrightarrow>
            tb_Constraints b = None \<or> tb_Assignments b = None"
    by (cases "tb_Constraints b"; cases "tb_Assignments b") (simp_all add: AssignTask_def ops)
  have "snd (AssignTask t task agent now0 now st) = st0"
    if "tb_Constraints b = None \<or> tb_Assignments b = None"
    using that by (cases "tb_Assignments b") (simp_all add: AssignTask_def ops)
  with m a g show ?thesis by blast
qed

definition bare_board :: team_store where
  "bare_board = empty_store
     \<lparr>ts_files := [[''core'', ''task_board.json''] \<mapsto>
        Doc (BoardDoc \<lparr>tb_TeamName = ''core'', tb_Columns = None, tb_Assignments = None,
                       tb_Constraints = None\<rparr>)]\<rparr>"

lemma bare_board_read:
  "CreateBoard ''core'' 1 bare_board =
     (Ok \<lparr>tb_TeamName = ''core'', tb_Columns = None, tb_Assignments = None, tb_Constraints = None\<rparr>,
      bare_board)"
proof -
  have "json_path ''core'' ''task_board.json'' = [''core'', ''task_board.json'']" by code_simp
  then show ?thesis
    by (simp add: CreateBoard_def ReadBoard_def sbind_def readJSON_def read_path_def bare_board_def
        empty_store_def sret_def)
qed

theorem board_operations_panic_iff_witness:
  "is_panic (fst (AddTaskToColumn ''core'' ''T1'' ''ready'' 1 2 bare_board))"
  using board_operations_panic_iff [OF bare_board_read, of "''T1''" "[]" "''ready''" "[]" 2] by simp

section \<open>Handoffs\<close>

text \<open>
  Accepting and rejecting a handoff record the decision and nothing else: the
  stored handoff is the old one with the new status and decider (and the time, or the
  reason), every other handoff reads as before, and the pending list of each agent loses
  exactly the decided one. The decision does not look at the earlier status: a rejected
  handoff can be accepted, and then still carries the reason of its rejection.
\<close>

theorem handoff_decision_is_recorded:
  assumes "faultless st" and "load_handoffs t st = (Ok hs, st)"
    and "find (\<lambda>h. ho_ID h = hid) hs = Some h" and "distinct (map ho_ID hs)"
    and "act = AcceptHandoff t hid who now \<and> h' = accepted who now h \<or>
         act = RejectHandoff t hid who reason \<and> h' = rejected who reason h"
    and "act st = (r, st')"
  shows "r = Ok (Some h') \<and> ReadHandoff t hid st' = (Ok (Some h'), st') \<and>
    (j \<noteq> hid \<longrightarrow> fst (ReadHandoff t j st') = fst (ReadHandoff t j st)) \<and>
    fst (GetPendingForAgent t agent st') =
      (case fst (GetPendingForAgent t agent st) of
         Ok ps \<Rightarrow> Ok (filter (\<lambda>p. ho_ID p \<noteq> hid) ps) | e \<Rightarrow> e)"
proof -
  obtain f where act: "act = decide_handoff t hid f" and f: "h' = f h" "keeps_id f"
    and status: "\<And>x. ho_Status (f x) \<noteq> ''pending''"
    using assms(5)
    by (auto simp: AcceptHandoff_def RejectHandoff_def accepted_def rejected_def keeps_id_def)
  obtain st1 where d: "decide_handoff t hid f st = (Ok (Some (f h)), st1)"
    and l: "load_handoffs t st1 = (Ok (decide_list hid f hs), st1)"
    using decide_handoff_found [OF assms(1-3)] .
  have eqs: "r = Ok (Some h')" "st' = st1"
    using assms(6) d f(1) by (auto simp: act)
  let ?P = "\<lambda>h. ho_Status h = ''pending'' \<and> (agent = [] \<or> ho_ToAgent h = agent)"
  have "filter ?P (decide_list hid f hs) = filter (\<lambda>x. ?P x \<and> ho_ID x \<noteq> hid) hs"
    by (rule filter_decided [OF f(2) assms(4)]) (simp add: status)
  also have "\<dots> = filter (\<lambda>p. ho_ID p \<noteq> hid) (filter ?P hs)"
    by (simp add: conj_commute)
  finally show ?thesis
    using f by (simp add: eqs ReadHandoff_load [OF l] ReadHandoff_load [OF assms(2)] Pending_load [OF l]
        Pending_load [OF assms(2)] find_decided assms(3))
qed

definition old_handoff :: handoff where
  "old_handoff =
     \<lparr>ho_ID = ''h1'', ho_TaskID = ''T1'', ho_FromAgent = ''ann'', ho_ToAgent = ''bob'',
      ho_Status = ''rejected'', ho_WorkSummary = [], ho_Artifacts = [],
      ho_AcceptanceCriteria = [], ho_CreatedAt = 1, ho_AcceptedAt = None,
      ho_AcceptedBy = ''bob'', ho_RejectionReason = ''no tests''\<rparr>"

definition handoff_example :: team_store where
  "handoff_example = empty_store
     \<lparr>ts_files := [json_path ''core'' ''handoffs.json'' \<mapsto> Doc (HandoffsDoc [old_handoff])]\<rparr>"

lemma load_handoff_example:
  "load_handoffs ''core'' handoff_example = (Ok [old_handoff], handoff_example)"
  by (simp add: load_handoffs_def readJSON_def read_path_def handoff_example_def empty_store_def)

lemma faultless_handoff_example: "faultless handoff_example"
  by (simp add: faultless_def handoff_example_def empty_store_def)

theorem handoff_decision_is_recorded_witness:
  "fst (AcceptHandoff ''core'' ''h1'' ''bob'' 9 handoff_example) =
     Ok (Some (old_handoff\<lparr>ho_Status := ''accepted'', ho_AcceptedBy := ''bob'', ho_AcceptedAt := Some 9\<rparr>)) \<and>
   ho_RejectionReason (old_handoff\<lparr>ho_Status := ''accepted'', ho_AcceptedBy := ''bob'',
     ho_AcceptedAt := Some 9\<rparr>) = ''no tests''"
proof -
  have id: "find (\<lambda>h. ho_ID h = ''h1'') [old_handoff] = Some old_handoff"
    by (simp add: old_handoff_def)
  show ?thesis
    using handoff_decision_is_recorded [OF faultless_handoff_example load_handoff_example id,
        of "AcceptHandoff ''core'' ''h1'' ''bob'' 9" "''bob''" 9 _ _
        "fst (AcceptHandoff ''core'' ''h1'' ''bob'' 9 handoff_example)"
        "snd (AcceptHandoff ''core'' ''h1'' ''bob'' 9 handoff_example)" "[]" "[]"]
    by (simp add: accepted_def old_handoff_def)
qed

section \<open>Members\<close>

text \<open>
  \<open>Upsert\<close> keeps one entry per agent name: the stored entry of the agent is the
  returned one, all others and their order are unchanged, and a first entry goes to the end.
  What was stored survives: the creation time stays, a field the caller leaves empty keeps
  its value, and an agent once marked as leader, or allowed to spawn, stays so.
\<close>

theorem member_upsert_merges:
  assumes "faultless st" and "ListMembers t st = (Ok ms, st)" and "distinct (map mb_AgentName ms)"
    and "UpsertMember t m now st = (r, st')"
  shows "\<exists>m' ms'. r = Ok m' \<and> ListMembers t st' = (Ok ms', st') \<and> mb_UpdatedAt m' = now \<and>
    distinct (map mb_AgentName ms') \<and>
    map mb_AgentName ms' = map mb_AgentName ms @
      (if mb_AgentName m \<in> mb_AgentName ` set ms then [] else [mb_AgentName m]) \<and>
    (\<forall>a. find (\<lambda>x. mb_AgentName x = a) ms' =
       (if a = mb_AgentName m then Some m' else find (\<lambda>x. mb_AgentName x = a) ms)) \<and>
    (case find (\<lambda>x. mb_AgentName x = mb_AgentName m) ms of
       None \<Rightarrow> mb_CreatedAt m' = (if mb_CreatedAt m = 0 then now else mb_CreatedAt m)
     | Some old \<Rightarrow> mb_CreatedAt m' = mb_CreatedAt old \<and>
         mb_SessionID m' = (if mb_SessionID m = [] then mb_SessionID old else mb_SessionID m) \<and>
         mb_Status m' = (if mb_Status m = [] then mb_Status old else mb_Status m) \<and>
         mb_Lineage m' = (if mb_Lineage m = [] then mb_Lineage old else mb_Lineage m) \<and>
         (mb_Leader m' \<longleftrightarrow> mb_Leader m \<or> mb_Leader old) \<and>
         (mb_CanSpawnSubagents m' \<longleftrightarrow> mb_CanSpawnSubagents m \<or> mb_CanSpawnSubagents old))"
proof -
  let ?m = "upserted_member ms now m" and ?ms = "put_member ms (upserted_member ms now m)"
  obtain st1 where "UpsertMember t m now st = (Ok ?m, st1)" and l: "ListMembers t st1 = (Ok ?ms, st1)"
    using UpsertMember_faultless [OF assms(1,2)] by metis
  then have r: "r = Ok ?m" and st': "st' = st1" using assms(4) by auto
  have "find (\<lambda>x. mb_AgentName x = a) ?ms =
       (if a = mb_AgentName m then Some ?m else find (\<lambda>x. mb_AgentName x = a) ms)" for a
    using members.find_upsert_same [of ?m ms] members.find_upsert_other [of a ?m ms] by simp
  moreover have "map mb_AgentName ?ms = map mb_AgentName ms @
      (if mb_AgentName m \<in> mb_AgentName ` set ms then [] else [mb_AgentName m])"
    using members.map_key_upsert [of ms ?m] by simp
  moreover have "distinct (map mb_AgentName ?ms)"
    using members.upsert_distinct [OF assms(3)] by blast
  moreover have "mb_UpdatedAt ?m = now"
    by (simp add: upserted_member_def merge_member_def stamp_member_def split: option.split)
  ultimately show ?thesis
    unfolding r st'
    by (intro exI [of _ ?m] exI [of _ ?ms] conjI l refl allI)
      (auto simp: upserted_member_def merge_member_def stamp_member_def or_str_def or_int_def
        split: option.split)
qed

definition some_member :: "string \<Rightarrow> member" where
  "some_member name =
     \<lparr>mb_AgentName = name, mb_RoleName = [], mb_SessionID = [], mb_WorkerID = [], mb_Kind = [],
      mb_Profile = [], mb_Status = [], mb_LastResult = [], mb_ReportsTo = [],
      mb_ParentWorkerID = [], mb_RootWorkerID = [], mb_Lineage = [], mb_LineageDepth = 0,
      mb_StateScope = [], mb_CommitmentState = [], mb_WorkspaceMode = [], mb_WakeState = [],
      mb_LastSignalAt = 0, mb_LastHeartbeatAt = 0, mb_Leader = False,
      mb_CanSpawnSubagents = False, mb_UpdatedAt = 0, mb_CreatedAt = 0\<rparr>"

text \<open>A team of two, whose names differ only in case.\<close>

definition crew :: team_store where
  "crew = empty_store
     \<lparr>ts_files := [json_path ''core'' ''members.json'' \<mapsto>
        Doc (MembersDoc [(some_member ''Bob'')\<lparr>mb_Leader := True, mb_CreatedAt := 3\<rparr>,
                         some_member ''bob''])]\<rparr>"

lemma crew_members:
  "ListMembers ''core'' crew =
     (Ok [(some_member ''Bob'')\<lparr>mb_Leader := True, mb_CreatedAt := 3\<rparr>, some_member ''bob''], crew)"
  by (simp add: ListMembers_def readJSON_def read_path_def crew_def empty_store_def)

lemma faultless_crew: "faultless crew"
  by (simp add: faultless_def crew_def empty_store_def)

theorem member_upsert_merges_witness:
  "\<exists>m'. fst (UpsertMember ''core'' (some_member ''Bob'') 8 crew) = Ok m' \<and>
     mb_Leader m' \<and> mb_CreatedAt m' = 3 \<and> mb_UpdatedAt m' = 8"
proof -
  have d: "distinct (map mb_AgentName
      [(some_member ''Bob'')\<lparr>mb_Leader := True, mb_CreatedAt := 3\<rparr>, some_member ''bob''])"
    by (simp add: some_member_def)
  show ?thesis
    using member_upsert_merges [OF faultless_crew crew_members d surjective_pairing,
        of "some_member ''Bob''" 8]
    by (auto simp: some_member_def)
qed

section \<open>Inboxes\<close>

text \<open>
  Without file faults \<open>Broadcast\<close> succeeds and adds, to the inbox of an agent, one
  unread broadcast message with the sender's text for each recipient whose normal name is
  the agent's; the recipients are the agents of the roles and the members, each once, without
  the empty name and the sender. Recipients are told apart by their names and inboxes by their
  normal names, so two names that differ only in case get the message twice, and so may the
  sender.
\<close>

theorem broadcast_reaches_recipients:
  assumes "faultless st" and "inboxes_ok t st"
    and "load_context t st = (Ok c, st)" and "ListMembers t st = (Ok ms, st)"
    and "Broadcast t sender content summary ts st = (r, st')"
    and "fst (readInbox t a st) = Ok before"
  shows "r = Ok () \<and> (\<exists>rs new.
    set rs = (mb_AgentName ` set ms \<union>
              (if tc_TeamName c = [] then {} else (rl_Agent \<circ> snd) ` set (tc_Roles c))) - {[], sender} \<and>
    distinct rs \<and>
    fst (readInbox t a st') = Ok (before @ new) \<and>
    length new = length (filter (\<lambda>n. normalizeName n = normalizeName a) rs) \<and>
    list_all (\<lambda>m. im_From m = sender \<and> im_Text m = content \<and> im_Summary m = summary \<and>
                  im_Broadcast m \<and> \<not> im_Read m) new)"
proof -
  define roles where "roles = (if tc_TeamName c = [] then [] else tc_Roles c)"
  define rs where "rs = fold (\<lambda>m. add_recipient sender (mb_AgentName m)) ms
    (fold (\<lambda>x. add_recipient sender ((rl_Agent \<circ> snd) x)) roles [])"
  have rc: "ReadContext t st = (Ok (if tc_TeamName c = [] then None else Some c), st)"
    unfolding ReadContext_Ok using assms(3) by blast
  have "recipients t sender st = (Ok rs, st)"
    using assms(4)
    by (simp add: recipients_def sbind_def rc Let_def sret_def rs_def roles_def case_prod_beta' comp_def)
  then have b: "Broadcast t sender content summary ts st = send_all t sender content summary ts 0 rs st"
    by (simp add: Broadcast_def sbind_def)
  obtain st1 where all: "send_all t sender content summary ts 0 rs st = (Ok (), st1)"
    and eff: "fst (readInbox t a st1) = Ok (before @ sent_to a sender content summary ts 0 rs)"
    using send_all_faultless [OF assms(1,2)] assms(6) by metis
  have res: "r = Ok ()" "st' = st1" using assms(5) all by (auto simp: b)
  have "set rs = (mb_AgentName ` set ms \<union>
      (if tc_TeamName c = [] then {} else (rl_Agent \<circ> snd) ` set (tc_Roles c))) - {[], sender}"
    unfolding rs_def fold_add_recipient roles_def by auto
  moreover have "distinct rs"
    unfolding rs_def by (intro distinct_fold_add_recipient) simp
  ultimately show ?thesis
    unfolding res
    by (intro conjI refl exI [of _ rs] exI [of _ "sent_to a sender content summary ts 0 rs"] eff
        length_sent_to) (auto simp: list_all_iff dest: sent_to_text)
qed

lemma crew_context: "load_context ''core'' crew = (Ok zero_context, crew)"
  by (simp add: load_context_def readJSON_def read_path_def crew_def empty_store_def)

lemma crew_inbox: "readInbox ''core'' a crew = (Ok [], crew)"
proof -
  have "json_path ''core'' ''members.json'' \<noteq> inbox_path ''core'' a"
    by (simp add: json_path_def inbox_path_def inboxDir_def)
  then show ?thesis
    by (simp add: readInbox_def read_path_def crew_def empty_store_def)
qed

theorem broadcast_reaches_recipients_witness:
  "fst (Broadcast ''core'' ''ann'' ''hello'' [] (\<lambda>i. ''now'') crew) = Ok ()"
proof -
  have ok: "inboxes_ok ''core'' crew"
    by (simp add: inboxes_ok_def crew_inbox)
  have b: "fst (readInbox ''core'' ''bob'' crew) = Ok []"
    by (simp add: crew_inbox)
  show ?thesis
    using broadcast_reaches_recipients [OF faultless_crew ok crew_context crew_members
        surjective_pairing b, of "''ann''" "''hello''" "[]" "\<lambda>i. ''now''"]
    by blast
qed

text \<open>
  Sending is a locked read followed by a locked write, without a lock around
  both. One after the other, two sends add both messages; but when both senders read before
  either writes, both sends succeed and the inbox holds only the message of the later
  writer.
\<close>

theorem concurrent_sends_lose_a_message:
  assumes "faultless st" and "readInbox t a st = (Ok ms, st)"
    and "m1 = new_message s1 c1 x1 False ts1" and "m2 = new_message s2 c2 x2 False ts2"
    and "writeInbox t a (ms @ [m1]) st = (r1, st1)" and "writeInbox t a (ms @ [m2]) st1 = (r2, st2)"
  shows "(\<exists>st'. sbind (SendMessage t s1 a c1 x1 ts1) (\<lambda>_. SendMessage t s2 a c2 x2 ts2) st = (Ok (), st') \<and>
            readInbox t a st' = (Ok (ms @ [m1, m2]), st')) \<and>
         r1 = Ok () \<and> r2 = Ok () \<and> readInbox t a st2 = (Ok (ms @ [m2]), st2)"
proof
  obtain s where 1: "SendMessage t s1 a c1 x1 ts1 st = (Ok (), s)" and r: "readInbox t a s = (Ok (ms @ [m1]), s)"
    and sf: "same_faults st s"
    using inbox_store.modify_faultless [OF assms(1), of "(t, a)" ms "\<lambda>ms. ms @ [m1]"] assms(2)
    unfolding SendMessage_def sendMessage_modify assms(3) by (metis case_prod_conv)
  have "faultless s" using assms(1) sf faultless_same by blast
  then obtain s' where "SendMessage t s2 a c2 x2 ts2 s = (Ok (), s')"
    and "readInbox t a s' = (Ok ((ms @ [m1]) @ [m2]), s')"
    using inbox_store.modify_faultless [of s "(t, a)" "ms @ [m1]" "\<lambda>ms. ms @ [m2]"] r
    unfolding SendMessage_def sendMessage_modify assms(4) by (metis case_prod_conv)
  then show "\<exists>st'. sbind (SendMessage t s1 a c1 x1 ts1) (\<lambda>_. SendMessage t s2 a c2 x2 ts2) st = (Ok (), st') \<and>
            readInbox t a st' = (Ok (ms @ [m1, m2]), st')"
    using 1 by (auto simp: sbind_def)
  show "r1 = Ok () \<and> r2 = Ok () \<and> readInbox t a st2 = (Ok (ms @ [m2]), st2)"
    using inbox_store.lost_update [OF assms(1), of "(t, a)" ms "\<lambda>ms. ms @ [m1]" r1 st1 "\<lambda>ms. ms @ [m2]" r2 st2]
      assms(2,5,6) by simp
qed

theorem concurrent_sends_lose_a_message_witness:
  "fst (readInbox ''core'' ''bob'' (snd (writeInbox ''core'' ''bob'' [new_message ''eve'' ''2'' [] False []]
     (snd (writeInbox ''core'' ''bob'' [new_message ''ann'' ''1'' [] False []] crew))))) =
   Ok [new_message ''eve'' ''2'' [] False []]"
  using concurrent_sends_lose_a_message [OF faultless_crew crew_inbox refl refl
      surjective_pairing surjective_pairing, of "''ann''" "''bob''" "''1''" "[]" "[]" "''eve''" "''2''" "[]" "[]"]
  by simp

end
