(* ===== verification/Team_Office_Properties.thy ===== *)
theory Team_Office_Properties
  imports Team_Snapshot Team_Properties
begin

text \<open>
  The properties of the runtime records, of the office built from them, and of the choice of
  the most recent team.
\<close>

section \<open>Runtime records\<close>

text \<open>
  The summary of the runtime records adds up: local, committed and pending
  records are all the records, the active ones are those counted as queued or running and no
  more than all, every status is counted as often as it occurs, and the lineage depth is the
  greatest one, or zero.
\<close>

theorem runtime_summary_adds_up:
  "rs_Local (summarizeRuntimeRecords rs) + rs_Committed (summarizeRuntimeRecords rs) +
     rs_Pending (summarizeRuntimeRecords rs) = rs_Total (summarizeRuntimeRecords rs) \<and>
   rs_Total (summarizeRuntimeRecords rs) = int (length rs) \<and>
   rs_Active (summarizeRuntimeRecords rs) =
     map_get_or 0 (rs_ByStatus (summarizeRuntimeRecords rs)) WorkerStatusQueued +
     map_get_or 0 (rs_ByStatus (summarizeRuntimeRecords rs)) WorkerStatusRunning \<and>
   0 \<le> rs_Active (summarizeRuntimeRecords rs) \<and>
   rs_Active (summarizeRuntimeRecords rs) \<le> rs_Total (summarizeRuntimeRecords rs) \<and>
   map_get_or 0 (rs_ByStatus (summarizeRuntimeRecords rs)) (c # cs) =
     int (length (filter (\<lambda>r. rr_Status r = c # cs) rs)) \<and>
   rs_MaxLineageDepth (summarizeRuntimeRecords rs) = Max (insert 0 (rr_LineageDepth ` set rs))"
proof -
  let ?len = "\<lambda>P. length (filter P rs)"
  have 3: "?len (\<lambda>r. rr_CommitmentState r = ''committed'') + ?len (\<lambda>r. rr_CommitmentState r = ''pending'') +
      ?len (\<lambda>r. rr_CommitmentState r \<notin> {''committed'', ''pending''}) = length rs"
    by (rule filter_partition3) simp
  have 2: "?len (\<lambda>r. rr_Status r \<in> {WorkerStatusQueued, WorkerStatusRunning}) =
      ?len (\<lambda>r. rr_Status r = WorkerStatusQueued) + ?len (\<lambda>r. rr_Status r = WorkerStatusRunning)"
    by (rule filter_two) simp
  have le: "?len (\<lambda>r. rr_Status r \<in> {WorkerStatusQueued, WorkerStatusRunning}) \<le> length rs"
    by (rule length_filter_le)
  show ?thesis
    unfolding summarizeRuntimeRecords_def summarize_counts
    using 2 3 le by (simp add: summarize_counts)
qed

text \<open>
  Materializing the runtime records of a team keeps one record per identifier:
  the result has exactly the identifiers of the stored records, of the members and of the
  workers, each once, all labelled with the team; it is sorted, its summary counts it, and it
  is what a later read returns. So a record once stored is never dropped, also when its
  member has since got a worker and with it another identifier.
\<close>

theorem materialized_runtime_is_complete:
  assumes "sort_Slice runtime_less arrange" and "ListRuntime t st = (Ok records, st)"
    and "MaterializeRuntime arrange t ms ws st = (Ok (projected, summary), st')"
  shows "distinct (map rr_RecordID projected) \<and>
    rr_RecordID ` set projected =
      stored_id ` set records \<union>
      (\<lambda>m. runtimeRecordKey (runtimeRecordFromMember t m)) ` set ms \<union>
      (\<lambda>w. runtimeRecordKey (runtimeRecordFromWorker t w (member_of_worker ms w))) ` set ws \<and>
    list_all (\<lambda>r. rr_TeamName r = t) projected \<and>
    slice_sorted runtime_less projected \<and>
    rs_Total summary = int (length projected) \<and>
    ListRuntime t st' = (Ok projected, st')"
proof -
  have p: "projected = project_records arrange t records ms ws"
    and s: "summary = summarizeRuntimeRecords projected"
    and w: "save_runtime t projected st = (Ok (), st')"
    using assms(3)
    by (auto simp: MaterializeRuntime_def ProjectRuntime_def sbind_def assms(2) sret_def Let_def
        split: prod.splits outcome.splits)
  have "ts_readErr st (json_path t ''runtime_records.json'') = None"
    by (rule runtime_store.rd_readable [of t st records]) (simp add: assms(2))
  then have "ListRuntime t st' = (Ok projected, st')"
    by (rule runtime_store.rd_after_wr [OF w])
  moreover have "slice_sorted runtime_less projected"
    using assms(1) unfolding p project_records_def sort_Slice_def by blast
  moreover have "rs_Total summary = int (length projected)"
    unfolding s summarizeRuntimeRecords_def summarize_counts by simp
  moreover have "list_all (\<lambda>r. rr_TeamName r = t) projected"
    using project_ids(3) [OF assms(1)] unfolding p list_all_iff by blast
  moreover have "distinct (map rr_RecordID projected)"
    unfolding p by (rule project_ids(1) [OF assms(1)])
  moreover have "rr_RecordID ` set projected =
      stored_id ` set records \<union>
      (\<lambda>m. runtimeRecordKey (runtimeRecordFromMember t m)) ` set ms \<union>
      (\<lambda>w. runtimeRecordKey (runtimeRecordFromWorker t w (member_of_worker ms w))) ` set ws"
    unfolding p project_ids(2) [OF assms(1)] using record_map_keys [of t records ms ws] by (rule conjunct2)
  ultimately show ?thesis by (intro conjI)
qed

lemma crew_runtime: "ListRuntime ''core'' crew = (Ok [], crew)"
  by (simp add: ListRuntime_def readJSON_def read_path_def crew_def empty_store_def)

lemma MaterializeRuntime_faultless:
  assumes "faultless st" and "ListRuntime t st = (Ok records, st)"
  shows "is_ok (fst (MaterializeRuntime arrange t ms ws st))"
proof -
  let ?p = "project_records arrange t records ms ws"
  define st' where "st' = snd (save_runtime t ?p st)"
  have w: "save_runtime t ?p st = (Ok (), st')"
    using runtime_store.wr_faultless [OF assms(1), of t ?p] by (simp add: st'_def prod_eq_iff)
  have "ProjectRuntime arrange t ms ws st = (Ok (?p, summarizeRuntimeRecords ?p), st)"
    by (simp add: ProjectRuntime_def sbind_def assms(2) sret_def Let_def)
  then have "MaterializeRuntime arrange t ms ws st = (Ok (?p, summarizeRuntimeRecords ?p), st')"
    by (simp add: MaterializeRuntime_def sbind_def w sret_def)
  then show ?thesis by simp
qed

theorem materialized_runtime_is_complete_witness:
  "\<exists>projected summary st'.
     MaterializeRuntime (sort_by runtime_less) ''core'' [some_member ''Bob''] [] crew =
       (Ok (projected, summary), st') \<and>
     rr_RecordID ` set projected = {''agent:bob''}"
proof -
  obtain a st' where a: "MaterializeRuntime (sort_by runtime_less) ''core'' [some_member ''Bob''] [] crew = (Ok a, st')"
    using ran_ok [OF MaterializeRuntime_faultless [OF faultless_crew crew_runtime]] .
  obtain projected summary where a': "a = (projected, summary)" by (cases a)
  have "runtimeRecordKey (runtimeRecordFromMember ''core'' (some_member ''Bob'')) = ''agent:bob''"
    by code_simp
  then show ?thesis
    using materialized_runtime_is_complete [OF runtime_lt.sort_by_sorts crew_runtime a [unfolded a']] a
    by (auto simp: a')
qed

section \<open>The office\<close>

text \<open>
  The roster of an office has one row for every roster key of a role, a member
  or a runtime record, and no other, each standing for the key of its own names, sorted with
  the leaders first; the office was last active when its most recent row was; and it is
  active if a runtime record is, standing by if it has a row, and empty otherwise.
\<close>

theorem office_roster_is_complete:
  assumes "sort_Slice roster_less arrange"
    and "office = buildOfficeState arrange t tc ms records (summarizeRuntimeRecords records) now"
  shows "distinct (map (\<lambda>row. rosterKey (row_AgentName row) (row_RoleName row)) (of_Roster office)) \<and>
    (\<lambda>row. rosterKey (row_AgentName row) (row_RoleName row)) ` set (of_Roster office) =
      role_keys tc \<union>
      (\<lambda>m. rosterKey (mb_AgentName m) (mb_RoleName m)) ` set ms \<union>
      (\<lambda>r. rosterKey (rr_AgentName r) (rr_RoleName r)) ` set records \<and>
    slice_sorted roster_less (of_Roster office) \<and>
    of_LastActiveAt office = Max (insert 0 (row_LastActiveAt ` set (of_Roster office))) \<and>
    (of_ContinuityStatus office = ''active'' \<longleftrightarrow>
       (\<exists>r \<in> set records. rr_Status r \<in> {WorkerStatusQueued, WorkerStatusRunning})) \<and>
    (of_ContinuityStatus office = ''empty'' \<longleftrightarrow> of_Roster office = [])"
proof -
  let ?b = "build_roster tc ms records" and ?key = "\<lambda>row. rosterKey (row_AgentName row) (row_RoleName row)"
  have ros: "of_Roster office = arrange (map snd ?b)"
    and act: "of_LastActiveAt office = fold (\<lambda>row t. maxInt64 t [row_LastActiveAt row]) (map snd ?b) 0"
    and con: "of_ContinuityStatus office =
      (if rs_Active (summarizeRuntimeRecords records) > 0 then ''active''
       else if map snd ?b \<noteq> [] then ''standing-by'' else ''empty'')"
    by (simp_all add: assms(2) buildOfficeState_def Let_def)
  have m: "mset (of_Roster office) = mset (map snd ?b)"
    using assms(1) unfolding ros sort_Slice_def by blast
  have ok: "roster_ok ?b" using build_roster_keys by blast
  have "?key (snd x) = fst x" if "x \<in> set ?b" for x
    using ok that by (auto simp: roster_ok_def split: prod.splits)
  then have keys: "map ?key (map snd ?b) = map fst ?b" by simp
  have mk: "mset (map ?key (of_Roster office)) = mset (map fst ?b)"
    using arg_cong [OF m, of "image_mset ?key"] unfolding mset_map [symmetric] keys .
  have "distinct (map ?key (of_Roster office))"
    using ok mset_eq_imp_distinct_iff [OF mk] unfolding roster_ok_def wf_map_def by blast
  moreover have "?key ` set (of_Roster office) = fst ` set ?b"
    using mset_eq_setD [OF mk] by simp
  moreover have "slice_sorted roster_less (of_Roster office)"
    using assms(1) unfolding ros sort_Slice_def by blast
  moreover have "of_LastActiveAt office = Max (insert 0 (row_LastActiveAt ` set (of_Roster office)))"
    unfolding act fold_max mset_eq_setD [OF m] ..
  moreover have active: "rs_Active (summarizeRuntimeRecords records) > 0 \<longleftrightarrow>
      (\<exists>r \<in> set records. rr_Status r \<in> {WorkerStatusQueued, WorkerStatusRunning})"
    unfolding summarizeRuntimeRecords_def summarize_counts by (auto simp: filter_empty_conv)
  moreover have "of_Roster office = [] \<longleftrightarrow> ?b = []"
    using m by (metis list.map_disc_iff mset_zero_iff)
  moreover have "records = []" if "?b = []"
    using build_roster_keys [of tc ms records] that by simp
  ultimately show ?thesis
    using build_roster_keys [of tc ms records] unfolding con by auto
qed

theorem office_roster_is_complete_witness:
  "(\<lambda>row. rosterKey (row_AgentName row) (row_RoleName row)) `
     set (of_Roster (buildOfficeState (sort_by roster_less) ''core'' None
       [some_member ''Bob'', some_member ''bob''] [] (summarizeRuntimeRecords []) 5)) = {''agent:bob''}"
proof -
  have "rosterKey ''Bob'' [] = ''agent:bob''" and "rosterKey ''bob'' [] = ''agent:bob''"
    by code_simp+
  then show ?thesis
    using office_roster_is_complete [OF roster_lt.sort_by_sorts refl, of "''core''" None
        "[some_member ''Bob'', some_member ''bob'']" "[]" 5]
    by (simp add: role_keys_def some_member_def)
qed

end
