(* ===== verification/Message_Content.thy ===== *)
theory Message_Content
  imports Go_Strings
begin

text \<open>
  A message as the agent streams it, \<open>internal/message/content.go\<close>: a list of parts, read by
  type assertions and changed in place while deltas, tool calls and the end arrive. The
  constructors of \<open>content_part\<close> are the structs that implement \<open>ContentPart\<close>; a byte slice is
  a string.
\<close>

section \<open>Parts and messages\<close>

record tool_call =
  call_ID :: string
  call_Name :: string
  call_Input :: string
  call_Type :: string
  call_Finished :: bool

record tool_result =
  res_ToolCallID :: string
  res_Name :: string
  res_Content :: string
  res_Metadata :: string
  res_IsError :: bool

record finish =
  fin_Reason :: string
  fin_Time :: int

datatype content_part =
    ReasoningContent string
  | TextContent string
  | ImageURLContent string string
  | BinaryContent string string string
  | ToolCall tool_call
  | ToolResult tool_result
  | Finish finish

record message =
  ms_ID :: string
  ms_Role :: string
  ms_SessionID :: string
  ms_Parts :: "content_part list"
  ms_Model :: string
  ms_CreatedAt :: int
  ms_UpdatedAt :: int

text \<open>The type assertions \<open>part.(T)\<close>.\<close>

fun as_text :: "content_part \<Rightarrow> string option" where
  "as_text (TextContent s) = Some s" | "as_text p = None"

fun as_reasoning :: "content_part \<Rightarrow> string option" where
  "as_reasoning (ReasoningContent s) = Some s" | "as_reasoning p = None"

fun as_image :: "content_part \<Rightarrow> (string \<times> string) option" where
  "as_image (ImageURLContent u d) = Some (u, d)" | "as_image p = None"

fun as_binary :: "content_part \<Rightarrow> (string \<times> string \<times> string) option" where
  "as_binary (BinaryContent p t d) = Some (p, t, d)" | "as_binary p = None"

fun as_call :: "content_part \<Rightarrow> tool_call option" where
  "as_call (ToolCall c) = Some c" | "as_call p = None"

fun as_result :: "content_part \<Rightarrow> tool_result option" where
  "as_result (ToolResult r) = Some r" | "as_result p = None"

fun as_finish :: "content_part \<Rightarrow> finish option" where
  "as_finish (Finish f) = Some f" | "as_finish p = None"

text \<open>The two shapes of the reading loops: the first part of a type, and all of them.\<close>

fun first_as :: "('p \<Rightarrow> 'a option) \<Rightarrow> 'p list \<Rightarrow> 'a option" where
  "first_as f [] = None"
| "first_as f (p # ps) = (case f p of Some a \<Rightarrow> Some a | None \<Rightarrow> first_as f ps)"

fun all_as :: "('p \<Rightarrow> 'a option) \<Rightarrow> 'p list \<Rightarrow> 'a list" where
  "all_as f [] = []"
| "all_as f (p # ps) = (case f p of Some a \<Rightarrow> a # all_as f ps | None \<Rightarrow> all_as f ps)"

section \<open>Reading\<close>

definition Content :: "message \<Rightarrow> string" where
  "Content m = (case first_as as_text (ms_Parts m) of Some s \<Rightarrow> s | None \<Rightarrow> [])"

definition Reasoning :: "message \<Rightarrow> string" where
  "Reasoning m = (case first_as as_reasoning (ms_Parts m) of Some s \<Rightarrow> s | None \<Rightarrow> [])"

definition ImageURLs :: "message \<Rightarrow> (string \<times> string) list" where
  "ImageURLs m = all_as as_image (ms_Parts m)"

definition Binaries :: "message \<Rightarrow> (string \<times> string \<times> string) list" where
  "Binaries m = all_as as_binary (ms_Parts m)"

definition ToolCalls :: "message \<Rightarrow> tool_call list" where
  "ToolCalls m = all_as as_call (ms_Parts m)"

definition ToolResults :: "message \<Rightarrow> tool_result list" where
  "ToolResults m = all_as as_result (ms_Parts m)"

definition FinishPart :: "message \<Rightarrow> finish option" where
  "FinishPart m = first_as as_finish (ms_Parts m)"

definition IsFinished :: "message \<Rightarrow> bool" where
  "IsFinished m = (first_as as_finish (ms_Parts m) \<noteq> None)"

definition FinishReason :: "message \<Rightarrow> string" where
  "FinishReason m = (case first_as as_finish (ms_Parts m) of Some f \<Rightarrow> fin_Reason f | None \<Rightarrow> [])"

definition IsThinking :: "message \<Rightarrow> bool" where
  "IsThinking m = (Reasoning m \<noteq> [] \<and> Content m = [] \<and> \<not> IsFinished m)"

section \<open>Changing\<close>

definition append_text :: "string \<Rightarrow> content_part \<Rightarrow> content_part" where
  "append_text delta p = (case as_text p of Some s \<Rightarrow> TextContent (s @ delta) | None \<Rightarrow> p)"

definition AppendContent :: "string \<Rightarrow> message \<Rightarrow> message" where
  "AppendContent delta m = m\<lparr>ms_Parts :=
     (if \<exists>p \<in> set (ms_Parts m). as_text p \<noteq> None then map (append_text delta) (ms_Parts m)
      else ms_Parts m @ [TextContent delta])\<rparr>"

definition append_reasoning :: "string \<Rightarrow> content_part \<Rightarrow> content_part" where
  "append_reasoning delta p =
     (case as_reasoning p of Some s \<Rightarrow> ReasoningContent (s @ delta) | None \<Rightarrow> p)"

definition AppendReasoningContent :: "string \<Rightarrow> message \<Rightarrow> message" where
  "AppendReasoningContent delta m = m\<lparr>ms_Parts :=
     (if \<exists>p \<in> set (ms_Parts m). as_reasoning p \<noteq> None
      then map (append_reasoning delta) (ms_Parts m)
      else ms_Parts m @ [ReasoningContent delta])\<rparr>"

text \<open>The loop of \<open>FinishToolCall\<close> and \<open>AppendToolCallInput\<close>: the first call with the ID.\<close>

fun change_call :: "string \<Rightarrow> (tool_call \<Rightarrow> tool_call) \<Rightarrow> content_part list \<Rightarrow> content_part list" where
  "change_call i f [] = []"
| "change_call i f (p # ps) = (case as_call p of
     Some c \<Rightarrow> if call_ID c = i then ToolCall (f c) # ps else p # change_call i f ps
   | None \<Rightarrow> p # change_call i f ps)"

definition FinishToolCall :: "string \<Rightarrow> message \<Rightarrow> message" where
  "FinishToolCall i m =
     m\<lparr>ms_Parts := change_call i (\<lambda>c. c\<lparr>call_Finished := True\<rparr>) (ms_Parts m)\<rparr>"

definition AppendToolCallInput :: "string \<Rightarrow> string \<Rightarrow> message \<Rightarrow> message" where
  "AppendToolCallInput i delta m =
     m\<lparr>ms_Parts := change_call i (\<lambda>c. c\<lparr>call_Input := call_Input c @ delta\<rparr>) (ms_Parts m)\<rparr>"

fun put_call :: "tool_call \<Rightarrow> content_part list \<Rightarrow> content_part list" where
  "put_call tc [] = [ToolCall tc]"
| "put_call tc (p # ps) = (case as_call p of
     Some c \<Rightarrow> if call_ID c = call_ID tc then ToolCall tc # ps else p # put_call tc ps
   | None \<Rightarrow> p # put_call tc ps)"

definition AddToolCall :: "tool_call \<Rightarrow> message \<Rightarrow> message" where
  "AddToolCall tc m = m\<lparr>ms_Parts := put_call tc (ms_Parts m)\<rparr>"

definition SetToolCalls :: "tool_call list \<Rightarrow> message \<Rightarrow> message" where
  "SetToolCalls tcs m =
     m\<lparr>ms_Parts := filter (\<lambda>p. as_call p = None) (ms_Parts m) @ map ToolCall tcs\<rparr>"

definition AddToolResult :: "tool_result \<Rightarrow> message \<Rightarrow> message" where
  "AddToolResult tr m = m\<lparr>ms_Parts := ms_Parts m @ [ToolResult tr]\<rparr>"

definition SetToolResults :: "tool_result list \<Rightarrow> message \<Rightarrow> message" where
  "SetToolResults trs m = m\<lparr>ms_Parts := ms_Parts m @ map ToolResult trs\<rparr>"

fun drop_first_finish :: "content_part list \<Rightarrow> content_part list" where
  "drop_first_finish [] = []"
| "drop_first_finish (p # ps) = (if as_finish p \<noteq> None then ps else p # drop_first_finish ps)"

definition AddFinish :: "string \<Rightarrow> int \<Rightarrow> message \<Rightarrow> message" where
  "AddFinish reason now m =
     m\<lparr>ms_Parts := drop_first_finish (ms_Parts m) @ [Finish \<lparr>fin_Reason = reason, fin_Time = now\<rparr>]\<rparr>"

definition AddImageURL :: "string \<Rightarrow> string \<Rightarrow> message \<Rightarrow> message" where
  "AddImageURL url detail m = m\<lparr>ms_Parts := ms_Parts m @ [ImageURLContent url detail]\<rparr>"

definition AddBinary :: "string \<Rightarrow> string \<Rightarrow> message \<Rightarrow> message" where
  "AddBinary mimeType bytes m = m\<lparr>ms_Parts := ms_Parts m @ [BinaryContent [] mimeType bytes]\<rparr>"

section \<open>What a message shows\<close>

text \<open>
  The specification of the streaming operations speaks of what a message shows: its text, its
  reasoning, its calls by identifier, and how it ended.
\<close>

record shown =
  sh_text :: string
  sh_reasoning :: string
  sh_calls :: "tool_call list"
  sh_finish :: "finish option"

definition show_message :: "message \<Rightarrow> shown" where
  "show_message m =
     \<lparr>sh_text = Content m, sh_reasoning = Reasoning m, sh_calls = ToolCalls m,
      sh_finish = FinishPart m\<rparr>"

datatype stream_op =
    TextDelta string | ThinkingDelta string
  | CallStart tool_call | CallDelta string string | CallStop string
  | Done string int

fun stream :: "stream_op \<Rightarrow> message \<Rightarrow> message" where
  "stream (TextDelta s) m = AppendContent s m"
| "stream (ThinkingDelta s) m = AppendReasoningContent s m"
| "stream (CallStart c) m = AddToolCall c m"
| "stream (CallDelta i s) m = AppendToolCallInput i s m"
| "stream (CallStop i) m = FinishToolCall i m"
| "stream (Done r t) m = AddFinish r t m"

fun upsert_call :: "tool_call list \<Rightarrow> tool_call \<Rightarrow> tool_call list" where
  "upsert_call [] c = [c]"
| "upsert_call (x # xs) c = (if call_ID x = call_ID c then c # xs else x # upsert_call xs c)"

definition on_call :: "string \<Rightarrow> (tool_call \<Rightarrow> tool_call) \<Rightarrow> tool_call list \<Rightarrow> tool_call list" where
  "on_call i f cs = map (\<lambda>c. if call_ID c = i then f c else c) cs"

fun stream_shown :: "stream_op \<Rightarrow> shown \<Rightarrow> shown" where
  "stream_shown (TextDelta s) v = v\<lparr>sh_text := sh_text v @ s\<rparr>"
| "stream_shown (ThinkingDelta s) v = v\<lparr>sh_reasoning := sh_reasoning v @ s\<rparr>"
| "stream_shown (CallStart c) v = v\<lparr>sh_calls := upsert_call (sh_calls v) c\<rparr>"
| "stream_shown (CallDelta i s) v =
     v\<lparr>sh_calls := on_call i (\<lambda>c. c\<lparr>call_Input := call_Input c @ s\<rparr>) (sh_calls v)\<rparr>"
| "stream_shown (CallStop i) v =
     v\<lparr>sh_calls := on_call i (\<lambda>c. c\<lparr>call_Finished := True\<rparr>) (sh_calls v)\<rparr>"
| "stream_shown (Done r t) v = v\<lparr>sh_finish := Some \<lparr>fin_Reason = r, fin_Time = t\<rparr>\<rparr>"

text \<open>A message has at most one end, and its calls have different identifiers.\<close>

definition message_ok :: "message \<Rightarrow> bool" where
  "message_ok m \<longleftrightarrow>
     distinct (map call_ID (all_as as_call (ms_Parts m))) \<and>
     length (all_as as_finish (ms_Parts m)) \<le> 1"

section \<open>Facts\<close>

interpretation calls: keyed_upsert call_ID upsert_call
  by unfold_locales simp_all

lemma all_as_append [simp]: "all_as f (ps @ qs) = all_as f ps @ all_as f qs"
  by (induction ps) (auto split: option.split)

lemma first_as_eq: "first_as f ps = (case all_as f ps of [] \<Rightarrow> None | a # as \<Rightarrow> Some a)"
  by (induction ps) (auto split: option.split)

lemma all_as_empty: "all_as f ps = [] \<longleftrightarrow> (\<forall>p \<in> set ps. f p = None)"
  by (induction ps) (auto split: option.splits)

lemma all_as_map_same:
  "(\<And>p. f (g p) = f p) \<Longrightarrow> all_as f (map g ps) = all_as f ps"
  by (induction ps) (auto split: option.split)

lemma all_as_map:
  "(\<And>p. f (g p) = map_option h (f p)) \<Longrightarrow> all_as f (map g ps) = map h (all_as f ps)"
  by (induction ps) (auto split: option.split)

lemma append_text_others [simp]:
  "as_reasoning (append_text s p) = as_reasoning p" "as_call (append_text s p) = as_call p"
  "as_finish (append_text s p) = as_finish p"
  "as_text (append_text s p) = map_option (\<lambda>t. t @ s) (as_text p)"
  by (cases p; simp add: append_text_def)+

lemma append_reasoning_others [simp]:
  "as_text (append_reasoning s p) = as_text p" "as_call (append_reasoning s p) = as_call p"
  "as_finish (append_reasoning s p) = as_finish p"
  "as_reasoning (append_reasoning s p) = map_option (\<lambda>t. t @ s) (as_reasoning p)"
  by (cases p; simp add: append_reasoning_def)+

lemma as_call_cases:
  obtains c where "p = ToolCall c" | "as_call p = None"
  by (cases p) auto

lemma put_call_others:
  "all_as as_text (put_call c ps) = all_as as_text ps"
  "all_as as_reasoning (put_call c ps) = all_as as_reasoning ps"
  "all_as as_finish (put_call c ps) = all_as as_finish ps"
  by (induction ps) (auto split: option.split elim: as_call.elims)

lemma put_call_calls: "all_as as_call (put_call c ps) = upsert_call (all_as as_call ps) c"
  by (induction ps) (auto split: option.split)

lemma change_call_others:
  "all_as as_text (change_call i f ps) = all_as as_text ps"
  "all_as as_reasoning (change_call i f ps) = all_as as_reasoning ps"
  "all_as as_finish (change_call i f ps) = all_as as_finish ps"
  by (induction ps) (auto split: option.split elim: as_call.elims)

lemma on_call_absent: "i \<notin> call_ID ` set cs \<Longrightarrow> on_call i f cs = cs"
  by (induction cs) (auto simp: on_call_def)

lemma change_call_calls:
  "distinct (map call_ID (all_as as_call ps)) \<Longrightarrow>
   all_as as_call (change_call i f ps) = on_call i f (all_as as_call ps)"
proof (induction ps)
  case (Cons p ps)
  show ?case
  proof (cases "as_call p")
    case (Some c)
    then have "on_call (call_ID c) f (all_as as_call ps) = all_as as_call ps"
      using Cons.prems by (intro on_call_absent) simp
    then show ?thesis using Cons Some by (auto simp: on_call_def)
  qed (use Cons in simp)
qed (simp add: on_call_def)

lemma drop_finish_others:
  "all_as as_text (drop_first_finish ps) = all_as as_text ps"
  "all_as as_reasoning (drop_first_finish ps) = all_as as_reasoning ps"
  "all_as as_call (drop_first_finish ps) = all_as as_call ps"
  by (induction ps) (auto split: option.split elim: as_text.elims as_reasoning.elims as_call.elims)

lemma drop_finish_finish: "all_as as_finish (drop_first_finish ps) = tl (all_as as_finish ps)"
  by (induction ps) (auto split: option.split)

text \<open>One step: what the changed message shows is what the specification says.\<close>

lemma stream_step:
  assumes "message_ok m"
  shows "show_message (stream op m) = stream_shown op (show_message m)" and "message_ok (stream op m)"
proof -
  note defs = show_message_def Content_def Reasoning_def ToolCalls_def FinishPart_def first_as_eq
  have "show_message (stream op m) = stream_shown op (show_message m) \<and> message_ok (stream op m)"
  proof (cases op)
    case (TextDelta s)
    have map: "all_as as_text (map (append_text s) ps) = map (\<lambda>t. t @ s) (all_as as_text ps)" for ps
      by (rule all_as_map) simp
    show ?thesis
      using assms all_as_empty [of as_text "ms_Parts m"]
      by (auto simp: TextDelta AppendContent_def defs map all_as_map_same message_ok_def
          split: list.split)
  next
    case (ThinkingDelta s)
    have map: "all_as as_reasoning (map (append_reasoning s) ps) =
        map (\<lambda>t. t @ s) (all_as as_reasoning ps)" for ps
      by (rule all_as_map) simp
    show ?thesis
      using assms all_as_empty [of as_reasoning "ms_Parts m"]
      by (auto simp: ThinkingDelta AppendReasoningContent_def defs map all_as_map_same message_ok_def
          split: list.split)
  next
    case (CallStart c)
    show ?thesis
      using assms calls.upsert_distinct
      by (simp add: CallStart AddToolCall_def defs message_ok_def put_call_others put_call_calls)
  next
    case (CallDelta i s)
    show ?thesis
      using assms
      by (simp add: CallDelta AppendToolCallInput_def defs message_ok_def change_call_others
          change_call_calls on_call_def comp_def if_distrib cong: if_cong)
  next
    case (CallStop i)
    show ?thesis
      using assms
      by (simp add: CallStop FinishToolCall_def defs message_ok_def change_call_others
          change_call_calls on_call_def comp_def if_distrib cong: if_cong)
  next
    case (Done r t)
    have "tl (all_as as_finish (ms_Parts m)) = []"
      using assms by (cases "all_as as_finish (ms_Parts m)") (auto simp: message_ok_def)
    then show ?thesis
      using assms
      by (simp add: Done AddFinish_def defs message_ok_def drop_finish_others drop_finish_finish)
  qed
  then show "show_message (stream op m) = stream_shown op (show_message m)" and "message_ok (stream op m)"
    by auto
qed

end
