(* ===== verification/Message_Store.thy ===== *)
theory Message_Store
  imports Message_Content Sort_Slice
begin

text \<open>
  The message service of \<open>internal/message/message.go\<close> over the table of
  \<open>internal/db/messages.sql.go\<close>. The JSON of the parts is the list of its wrappers, each with
  the type of the part it holds; text that \<open>encoding/json\<close> rejects, a wrapper of an unknown
  type and data that does not fit its type are values of their own. The texts are valid UTF-8,
  which the encoding keeps. \<open>fault\<close> is the error the database answers with, if any; that a
  session does not exist, to which a message should be added, is one of them. The rows that the
  database deletes with their session are not modelled here: see \<open>File_History\<close> for the same rule
  on the files. \<open>sv_events\<close> collects what is published to the broker.
\<close>

section \<open>Parts as JSON\<close>

datatype raw_part = RawPart content_part | RawUnknown string | RawBad string

datatype parts_json = PartsJSON "raw_part list" | BadPartsJSON string

definition marshallParts :: "content_part list \<Rightarrow> parts_json" where
  "marshallParts parts = PartsJSON (map RawPart parts)"

text \<open>
  One round of the loop of \<open>unmarshallParts\<close>. The case of an image URL decodes the part and
  does not append it.
\<close>

fun unmarshal_part :: "raw_part \<Rightarrow> content_part list \<Rightarrow> (string, content_part list) outcome" where
  "unmarshal_part (RawPart (ImageURLContent u d)) parts = Ok parts"
| "unmarshal_part (RawPart p) parts = Ok (parts @ [p])"
| "unmarshal_part (RawUnknown t) parts = Err (''unknown part type: '' @ t)"
| "unmarshal_part (RawBad e) parts = Err e"

fun unmarshal_loop :: "raw_part list \<Rightarrow> content_part list \<Rightarrow> (string, content_part list) outcome" where
  "unmarshal_loop [] parts = Ok parts"
| "unmarshal_loop (r # rs) parts = obind (unmarshal_part r parts) (unmarshal_loop rs)"

definition unmarshallParts :: "parts_json \<Rightarrow> (string, content_part list) outcome" where
  "unmarshallParts j = (case j of BadPartsJSON e \<Rightarrow> Err e | PartsJSON rs \<Rightarrow> unmarshal_loop rs [])"

section \<open>The table\<close>

record message_row =
  mr_ID :: string
  mr_SessionID :: string
  mr_Role :: string
  mr_Parts :: parts_json
  mr_Model :: "string option"
  mr_CreatedAt :: int
  mr_UpdatedAt :: int
  mr_FinishedAt :: "int option"

definition q_CreateMessage ::
  "string option \<Rightarrow> int \<Rightarrow> message_row \<Rightarrow> message_row list \<Rightarrow>
   (string, message_row) outcome \<times> message_row list" where
  "q_CreateMessage fault now row rows =
     (case fault of
        Some e \<Rightarrow> (Err e, rows)
      | None \<Rightarrow>
          if mr_ID row \<in> mr_ID ` set rows then (Err ''UNIQUE constraint failed: messages.id'', rows)
          else (let row' = row\<lparr>mr_CreatedAt := now, mr_UpdatedAt := now, mr_FinishedAt := None\<rparr>
                in (Ok row', rows @ [row'])))"

definition q_GetMessage ::
  "string option \<Rightarrow> string \<Rightarrow> message_row list \<Rightarrow> (string, message_row) outcome" where
  "q_GetMessage fault i rows =
     (case fault of
        Some e \<Rightarrow> Err e
      | None \<Rightarrow> (case find (\<lambda>r. mr_ID r = i) rows of
            Some r \<Rightarrow> Ok r | None \<Rightarrow> Err ''sql: no rows in result set''))"

definition q_DeleteMessage ::
  "string option \<Rightarrow> string \<Rightarrow> message_row list \<Rightarrow> (string, unit) outcome \<times> message_row list" where
  "q_DeleteMessage fault i rows =
     (case fault of Some e \<Rightarrow> (Err e, rows) | None \<Rightarrow> (Ok (), filter (\<lambda>r. mr_ID r \<noteq> i) rows))"

definition q_UpdateMessage ::
  "string option \<Rightarrow> int \<Rightarrow> string \<Rightarrow> parts_json \<Rightarrow> int option \<Rightarrow> message_row list \<Rightarrow>
   (string, unit) outcome \<times> message_row list" where
  "q_UpdateMessage fault now i parts finishedAt rows =
     (case fault of
        Some e \<Rightarrow> (Err e, rows)
      | None \<Rightarrow> (Ok (), map (\<lambda>r. if mr_ID r = i
            then r\<lparr>mr_Parts := parts, mr_FinishedAt := finishedAt, mr_UpdatedAt := now\<rparr> else r) rows))"

text \<open>\<open>ORDER BY created_at ASC\<close>: \<open>arrange\<close> is one arrangement by the time.\<close>

definition q_ListMessagesBySession ::
  "(message_row list \<Rightarrow> message_row list) \<Rightarrow> string option \<Rightarrow> string \<Rightarrow> message_row list \<Rightarrow>
   (string, message_row list) outcome" where
  "q_ListMessagesBySession arrange fault sessionID rows =
     (case fault of
        Some e \<Rightarrow> Err e | None \<Rightarrow> Ok (arrange (filter (\<lambda>r. mr_SessionID r = sessionID) rows)))"

section \<open>The service\<close>

datatype message_event = CreatedEvent message | UpdatedEvent message | DeletedEvent message

record message_service =
  sv_rows :: "message_row list"
  sv_events :: "message_event list"

definition fromDBItem :: "message_row \<Rightarrow> (string, message) outcome" where
  "fromDBItem item =
     obind (unmarshallParts (mr_Parts item)) (\<lambda>parts.
     Ok \<lparr>ms_ID = mr_ID item, ms_Role = mr_Role item, ms_SessionID = mr_SessionID item,
         ms_Parts = parts, ms_Model = (case mr_Model item of Some s \<Rightarrow> s | None \<Rightarrow> []),
         ms_CreatedAt = mr_CreatedAt item, ms_UpdatedAt = mr_UpdatedAt item\<rparr>)"

definition publish :: "message_event \<Rightarrow> message_service \<Rightarrow> message_service" where
  "publish e sv = sv\<lparr>sv_events := sv_events sv @ [e]\<rparr>"

definition GetMessage :: "string option \<Rightarrow> string \<Rightarrow> message_service \<Rightarrow> (string, message) outcome" where
  "GetMessage fault i sv = obind (q_GetMessage fault i (sv_rows sv)) fromDBItem"

definition created_parts :: "string \<Rightarrow> content_part list \<Rightarrow> content_part list" where
  "created_parts role parts =
     (if role \<noteq> ''assistant'' then parts @ [Finish \<lparr>fin_Reason = ''stop'', fin_Time = 0\<rparr>] else parts)"

definition CreateMessage ::
  "string option \<Rightarrow> string \<Rightarrow> int \<Rightarrow> string \<Rightarrow> string \<Rightarrow> content_part list \<Rightarrow> string \<Rightarrow>
   message_service \<Rightarrow> (string, message) outcome \<times> message_service" where
  "CreateMessage fault uid now sessionID role parts model sv =
     (case q_CreateMessage fault now
        \<lparr>mr_ID = uid, mr_SessionID = sessionID, mr_Role = role,
         mr_Parts = marshallParts (created_parts role parts), mr_Model = Some model,
         mr_CreatedAt = 0, mr_UpdatedAt = 0, mr_FinishedAt = None\<rparr> (sv_rows sv) of
        (Ok row, rows) \<Rightarrow>
          (let sv' = sv\<lparr>sv_rows := rows\<rparr> in
           case fromDBItem row of
             Ok m \<Rightarrow> (Ok m, publish (CreatedEvent m) sv')
           | Err e \<Rightarrow> (Err e, sv')
           | Panic e \<Rightarrow> (Panic e, sv'))
      | (Err e, rows) \<Rightarrow> (Err e, sv)
      | (Panic e, rows) \<Rightarrow> (Panic e, sv))"

definition UpdateMessage ::
  "string option \<Rightarrow> int \<Rightarrow> int \<Rightarrow> message \<Rightarrow> message_service \<Rightarrow>
   (string, unit) outcome \<times> message_service" where
  "UpdateMessage fault dbNow now m sv =
     (let finishedAt = map_option fin_Time (FinishPart m) in
      case q_UpdateMessage fault dbNow (ms_ID m) (marshallParts (ms_Parts m)) finishedAt (sv_rows sv) of
        (Ok _, rows) \<Rightarrow>
          (Ok (), publish (UpdatedEvent (m\<lparr>ms_UpdatedAt := now\<rparr>)) (sv\<lparr>sv_rows := rows\<rparr>))
      | (Err e, rows) \<Rightarrow> (Err e, sv)
      | (Panic e, rows) \<Rightarrow> (Panic e, sv))"

definition DeleteMessage ::
  "string option \<Rightarrow> string option \<Rightarrow> string \<Rightarrow> message_service \<Rightarrow>
   (string, unit) outcome \<times> message_service" where
  "DeleteMessage faultG faultD i sv =
     (case GetMessage faultG i sv of
        Ok m \<Rightarrow>
          (case q_DeleteMessage faultD (ms_ID m) (sv_rows sv) of
             (Ok _, rows) \<Rightarrow> (Ok (), publish (DeletedEvent m) (sv\<lparr>sv_rows := rows\<rparr>))
           | (Err e, rows) \<Rightarrow> (Err e, sv)
           | (Panic e, rows) \<Rightarrow> (Panic e, sv))
      | Err e \<Rightarrow> (Err e, sv)
      | Panic e \<Rightarrow> (Panic e, sv))"

fun from_items :: "message_row list \<Rightarrow> (string, message list) outcome" where
  "from_items [] = Ok []"
| "from_items (r # rs) = obind (fromDBItem r) (\<lambda>m. obind (from_items rs) (\<lambda>ms. Ok (m # ms)))"

definition ListMessages ::
  "(message_row list \<Rightarrow> message_row list) \<Rightarrow> string option \<Rightarrow> string \<Rightarrow> message_service \<Rightarrow>
   (string, message list) outcome" where
  "ListMessages arrange fault sessionID sv =
     obind (q_ListMessagesBySession arrange fault sessionID (sv_rows sv)) from_items"

text \<open>The loop of \<open>DeleteSessionMessages\<close>; the faults are those of each single deletion.\<close>

fun delete_all ::
  "(nat \<Rightarrow> string option) \<Rightarrow> (nat \<Rightarrow> string option) \<Rightarrow> string \<Rightarrow> nat \<Rightarrow> message list \<Rightarrow>
   message_service \<Rightarrow> (string, unit) outcome \<times> message_service" where
  "delete_all faultG faultD sessionID k [] sv = (Ok (), sv)"
| "delete_all faultG faultD sessionID k (m # ms) sv =
     (if ms_SessionID m = sessionID
      then (case DeleteMessage (faultG k) (faultD k) (ms_ID m) sv of
              (Ok _, sv') \<Rightarrow> delete_all faultG faultD sessionID (Suc k) ms sv'
            | (Err e, sv') \<Rightarrow> (Err e, sv')
            | (Panic e, sv') \<Rightarrow> (Panic e, sv'))
      else delete_all faultG faultD sessionID (Suc k) ms sv)"

definition DeleteSessionMessages ::
  "(message_row list \<Rightarrow> message_row list) \<Rightarrow> string option \<Rightarrow> (nat \<Rightarrow> string option) \<Rightarrow>
   (nat \<Rightarrow> string option) \<Rightarrow> string \<Rightarrow> message_service \<Rightarrow> (string, unit) outcome \<times> message_service" where
  "DeleteSessionMessages arrange fault faultG faultD sessionID sv =
     (case ListMessages arrange fault sessionID sv of
        Ok ms \<Rightarrow> delete_all faultG faultD sessionID 0 ms sv
      | Err e \<Rightarrow> (Err e, sv)
      | Panic e \<Rightarrow> (Panic e, sv))"

section \<open>Facts\<close>

definition readable_parts :: "content_part list \<Rightarrow> content_part list" where
  "readable_parts parts = filter (\<lambda>p. as_image p = None) parts"

lemma unmarshal_loop_marshalled:
  "unmarshal_loop (map RawPart ps) parts = Ok (parts @ readable_parts ps)"
proof (induction ps arbitrary: parts)
  case (Cons p ps)
  then show ?case by (cases p) (simp_all add: readable_parts_def)
qed (simp add: readable_parts_def)

lemma parts_round_trip: "unmarshallParts (marshallParts ps) = Ok (readable_parts ps)"
  by (simp add: unmarshallParts_def marshallParts_def unmarshal_loop_marshalled)

lemma find_append_new: "(\<And>x. x \<in> set xs \<Longrightarrow> \<not> P x) \<Longrightarrow> P y \<Longrightarrow> find P (xs @ [y]) = Some y"
  by (induction xs) auto

lemma find_map_update:
  "find (\<lambda>r. mr_ID r = i) (map (\<lambda>r. if mr_ID r = j then r\<lparr>mr_Parts := p, mr_FinishedAt := f, mr_UpdatedAt := n\<rparr>
     else r) rows) =
   map_option (\<lambda>r. if mr_ID r = j then r\<lparr>mr_Parts := p, mr_FinishedAt := f, mr_UpdatedAt := n\<rparr> else r)
     (find (\<lambda>r. mr_ID r = i) rows)"
  by (induction rows) auto

end
