(* ===== verification/Message_Properties.thy ===== *)
theory Message_Properties
  imports Message_Store
begin

text \<open>The properties of messages: streaming into their parts, and reading them back.\<close>

text \<open>
  Property C25. Streaming refines its specification: starting from a message with at most one
  end and calls with different identifiers, any sequence of text deltas, thinking deltas,
  tool calls, their input deltas and ends, and message ends leads to a message of that kind
  that shows what the specification computes from what the first one showed; its text is the
  old text followed by all text deltas in their order.
\<close>

theorem streaming_refines_specification:
  assumes "message_ok m"
  shows "show_message (fold stream ops m) = fold stream_shown ops (show_message m) \<and>
    message_ok (fold stream ops m) \<and>
    Content (fold stream ops m) = Content m @ concat (map (\<lambda>op. case op of TextDelta s \<Rightarrow> s | _ \<Rightarrow> []) ops)"
proof -
  have 1: "show_message (fold stream ops m) = fold stream_shown ops (show_message m) \<and>
      message_ok (fold stream ops m)"
    using assms by (induction ops arbitrary: m) (simp_all add: stream_step)
  have "sh_text (fold stream_shown ops v) =
      sh_text v @ concat (map (\<lambda>op. case op of TextDelta s \<Rightarrow> s | _ \<Rightarrow> []) ops)" for v
  proof (induction ops arbitrary: v)
    case (Cons op ops)
    then show ?case by (cases op) simp_all
  qed simp
  from this [of "show_message m"]
  have "sh_text (show_message (fold stream ops m)) =
      sh_text (show_message m) @ concat (map (\<lambda>op. case op of TextDelta s \<Rightarrow> s | _ \<Rightarrow> []) ops)"
    unfolding conjunct1 [OF 1] .
  then have "Content (fold stream ops m) =
      Content m @ concat (map (\<lambda>op. case op of TextDelta s \<Rightarrow> s | _ \<Rightarrow> []) ops)"
    unfolding show_message_def shown.simps .
  with 1 show ?thesis by (intro conjI) blast+
qed

definition new_assistant :: message where
  "new_assistant =
     \<lparr>ms_ID = ''m1'', ms_Role = ''assistant'', ms_SessionID = ''s1'', ms_Parts = [],
      ms_Model = [], ms_CreatedAt = 0, ms_UpdatedAt = 0\<rparr>"

theorem streaming_refines_specification_witness:
  "Content (fold stream [TextDelta ''Hel'', ThinkingDelta ''hm'', TextDelta ''lo'', Done ''end_turn'' 7]
     new_assistant) = ''Hello''"
proof -
  have "message_ok new_assistant"
    by (simp add: message_ok_def new_assistant_def)
  from streaming_refines_specification [OF this,
      of "[TextDelta ''Hel'', ThinkingDelta ''hm'', TextDelta ''lo'', Done ''end_turn'' 7]"]
  show ?thesis by (simp add: Content_def new_assistant_def)
qed

text \<open>
  What the service stores is read back, but for the image URLs: a created message
  and a later \<open>Get\<close> have the parts that were given, with the stop mark a message of another
  role than the assistant gets, and without the images, which \<open>unmarshallParts\<close> decodes and
  drops; after an update \<open>Get\<close> returns the updated parts, again without images, and other
  messages read as before.
\<close>

theorem stored_message_loses_images:
  assumes "CreateMessage fault uid now sessionID role parts model sv = (Ok m, sv')"
    and "UpdateMessage None dbNow now' (m\<lparr>ms_Parts := parts'\<rparr>) sv' = (r, sv'')"
  shows "ms_Parts m = readable_parts (created_parts role parts) \<and>
    GetMessage None uid sv' = Ok m \<and>
    (\<exists>m'. GetMessage None uid sv'' = Ok m' \<and> ms_Parts m' = readable_parts parts') \<and>
    (i \<noteq> uid \<longrightarrow> GetMessage None i sv'' = GetMessage None i sv)"
proof -
  define row where "row = \<lparr>mr_ID = uid, mr_SessionID = sessionID, mr_Role = role,
         mr_Parts = marshallParts (created_parts role parts), mr_Model = Some model,
         mr_CreatedAt = now, mr_UpdatedAt = now, mr_FinishedAt = None\<rparr>"
  have new: "uid \<notin> mr_ID ` set (sv_rows sv)" and m: "fromDBItem row = Ok m"
    and rows: "sv_rows sv' = sv_rows sv @ [row]"
    using assms(1)
    by (auto simp: CreateMessage_def q_CreateMessage_def Let_def row_def publish_def
        split: option.splits if_splits outcome.splits)
  have parts: "ms_Parts m = readable_parts (created_parts role parts)" and mid: "ms_ID m = uid"
    using m by (auto simp: fromDBItem_def row_def parts_round_trip)
  have find_new: "find (\<lambda>r. mr_ID r = uid) (sv_rows sv') = Some row"
    unfolding rows by (rule find_append_new) (use new in \<open>auto simp: row_def\<close>)
  have get: "GetMessage None uid sv' = Ok m"
    using m by (simp add: GetMessage_def q_GetMessage_def find_new)
  let ?upd = "\<lambda>r. r\<lparr>mr_Parts := marshallParts parts',
      mr_FinishedAt := map_option fin_Time (FinishPart (m\<lparr>ms_Parts := parts'\<rparr>)), mr_UpdatedAt := dbNow\<rparr>"
  have rows'': "sv_rows sv'' = map (\<lambda>r. if mr_ID r = uid then ?upd r else r) (sv_rows sv')"
    using assms(2) by (auto simp: UpdateMessage_def q_UpdateMessage_def Let_def publish_def mid)
  have "GetMessage None uid sv'' = fromDBItem (?upd row)"
    by (simp add: GetMessage_def q_GetMessage_def rows'' find_map_update find_new) (simp add: row_def)
  then have upd: "\<exists>m'. GetMessage None uid sv'' = Ok m' \<and> ms_Parts m' = readable_parts parts'"
    by (simp add: fromDBItem_def parts_round_trip)
  have other: "GetMessage None i sv'' = GetMessage None i sv" if "i \<noteq> uid"
  proof -
    have "find (\<lambda>r. mr_ID r = i) (rs @ [row]) = find (\<lambda>r. mr_ID r = i) rs" for rs
      by (induction rs) (use that in \<open>auto simp: row_def\<close>)
    moreover have "map_option (\<lambda>r. if mr_ID r = uid then ?upd r else r)
        (find (\<lambda>r. mr_ID r = i) rs) = find (\<lambda>r. mr_ID r = i) rs" for rs
    proof (cases "find (\<lambda>r. mr_ID r = i) rs")
      case (Some r)
      then have "mr_ID r \<noteq> uid" using that by (auto simp: find_Some_iff)
      with Some show ?thesis by simp
    qed simp
    ultimately have "find (\<lambda>r. mr_ID r = i) (sv_rows sv'') = find (\<lambda>r. mr_ID r = i) (sv_rows sv)"
      unfolding rows'' find_map_update rows by simp
    then show ?thesis by (simp add: GetMessage_def q_GetMessage_def)
  qed
  show ?thesis using parts get upd other by blast
qed

theorem stored_message_loses_images_witness:
  "\<exists>m sv'. CreateMessage None ''m1'' 5 ''s1'' ''user'' [TextContent ''look'', ImageURLContent ''u'' []] []
      \<lparr>sv_rows = [], sv_events = []\<rparr> = (Ok m, sv') \<and>
    ms_Parts m = [TextContent ''look'', Finish \<lparr>fin_Reason = ''stop'', fin_Time = 0\<rparr>]"
proof -
  have "is_ok (fst (CreateMessage None ''m1'' 5 ''s1'' ''user''
      [TextContent ''look'', ImageURLContent ''u'' []] [] \<lparr>sv_rows = [], sv_events = []\<rparr>))"
    by code_simp
  then obtain m sv' where c: "CreateMessage None ''m1'' 5 ''s1'' ''user''
      [TextContent ''look'', ImageURLContent ''u'' []] [] \<lparr>sv_rows = [], sv_events = []\<rparr> = (Ok m, sv')"
    using ran_ok by blast
  show ?thesis
    using stored_message_loses_images [OF c surjective_pairing, of 0 0 "[]" "[]"] c
    by (simp add: readable_parts_def created_parts_def)
qed

end
