(* ===== verification/Causal_Merkle.thy ===== *)
theory Causal_Merkle
  imports Go_Numbers "HOL-Library.Multiset"
begin

text \<open>
  Merkle attestations of causal graphs, \<open>internal/agency/causal_graph.go\<close> (the data) and
  \<open>internal/agency/speculative_merkle.go\<close>. Three things are arguments: \<open>sha\<close> is SHA-256,
  \<open>lower\<close> is \<open>strings.ToLower\<close> on Unicode text, and \<open>wtext\<close> is the six-digit decimal text of
  a weight, whose type is left open because it is a floating-point number.
\<close>

section \<open>Graphs\<close>

record 'w causal_node =
  cn_ID :: string
  cn_Role :: string
  cn_Summary :: string
  cn_Parents :: "string list"
  cn_AtomRefs :: "string list"
  cn_Weight :: 'w
  cn_Meta :: "(string, string) gomap"

record 'w causal_graph =
  cg_ProtocolVersion :: int
  cg_Nodes :: "'w causal_node list"

text \<open>\<open>Clone\<close> copies every field; a graph is a pointer.\<close>

definition CloneGraph :: "'w causal_graph option \<Rightarrow> 'w causal_graph option" where
  "CloneGraph g = (case g of
     None \<Rightarrow> None
   | Some c \<Rightarrow> Some \<lparr>cg_ProtocolVersion = cg_ProtocolVersion c,
       cg_Nodes = map (\<lambda>n. \<lparr>cn_ID = cn_ID n, cn_Role = cn_Role n, cn_Summary = cn_Summary n,
         cn_Parents = cn_Parents n, cn_AtomRefs = cn_AtomRefs n, cn_Weight = cn_Weight n,
         cn_Meta = cn_Meta n\<rparr>) (cg_Nodes c)\<rparr>)"

definition FilterByRole :: "'w causal_graph option \<Rightarrow> string list \<Rightarrow> 'w causal_graph option" where
  "FilterByRole g roles = (case g of
     None \<Rightarrow> None
   | Some c \<Rightarrow>
       if roles = [] then None
       else (let ns = filter (\<lambda>n. cn_Role n \<in> set roles) (cg_Nodes c) in
             if ns = [] then None
             else Some \<lparr>cg_ProtocolVersion = cg_ProtocolVersion c, cg_Nodes = ns\<rparr>))"

definition CountByRole :: "'w causal_graph option \<Rightarrow> (string, int) gomap" where
  "CountByRole g = (case g of
     None \<Rightarrow> []
   | Some c \<Rightarrow> fold (\<lambda>n m. map_put (cn_Role n) (map_get_or 0 m (cn_Role n) + 1) m) (cg_Nodes c) [])"

section \<open>Leaves\<close>

definition NUL :: string where
  "NUL = [CHR 0x00]"

definition merkleLeafTag :: string where
  "merkleLeafTag = ''node'' @ NUL"

definition merkleInternalTag :: string where
  "merkleInternalTag = ''internal'' @ NUL"

definition is_space_byte :: "char \<Rightarrow> bool" where
  "is_space_byte c = (c \<in> {CHR 0x20, CHR 0x09, CHR 0x0A, CHR 0x0D, CHR 0x0B, CHR 0x0C})"

fun collapse_spaces :: "bool \<Rightarrow> string \<Rightarrow> string" where
  "collapse_spaces prevSpace [] = []"
| "collapse_spaces prevSpace (c # cs) =
     (if is_space_byte c
      then (if prevSpace then collapse_spaces True cs else CHR '' '' # collapse_spaces True cs)
      else c # collapse_spaces False cs)"

definition normalizeSummary :: "(string \<Rightarrow> string) \<Rightarrow> string \<Rightarrow> string" where
  "normalizeSummary lower s =
     (let t = lower (trim_space s) in if t = [] then [] else collapse_spaces False t)"

definition sortedJoin :: "string list \<Rightarrow> string" where
  "sortedJoin xs = (if xs = [] then [] else join NUL (sort_strings xs))"

definition sortedMetaJoin :: "(string, string) gomap \<Rightarrow> string" where
  "sortedMetaJoin m =
     (if m = [] then []
      else join NUL (map (\<lambda>k. k @ ''='' @ map_get_or [] m k) (sort_strings (map fst m))))"

definition writeNUL :: "string \<Rightarrow> string" where
  "writeNUL s = s @ NUL"

definition leaf_preimage :: "(string \<Rightarrow> string) \<Rightarrow> ('w \<Rightarrow> string) \<Rightarrow> 'w causal_node \<Rightarrow> string" where
  "leaf_preimage lower wtext node =
     merkleLeafTag @ writeNUL (cn_ID node) @ writeNUL (cn_Role node) @
     writeNUL (normalizeSummary lower (cn_Summary node)) @ writeNUL (wtext (cn_Weight node)) @
     writeNUL (sortedJoin (cn_Parents node)) @ writeNUL (sortedJoin (cn_AtomRefs node)) @
     writeNUL (sortedMetaJoin (cn_Meta node))"

definition canonicalLeafHash ::
  "(string \<Rightarrow> string) \<Rightarrow> (string \<Rightarrow> string) \<Rightarrow> ('w \<Rightarrow> string) \<Rightarrow> 'w causal_node \<Rightarrow> string" where
  "canonicalLeafHash sha lower wtext node = hex_encode (sha (leaf_preimage lower wtext node))"

section \<open>The tree\<close>

definition internal_preimage :: "string \<Rightarrow> string \<Rightarrow> string" where
  "internal_preimage left right = merkleInternalTag @ hex_decode left @ NUL @ hex_decode right"

definition merkleInternalHash :: "(string \<Rightarrow> string) \<Rightarrow> string \<Rightarrow> string \<Rightarrow> string" where
  "merkleInternalHash sha left right = hex_encode (sha (internal_preimage left right))"

definition emptyMerkleRoot :: "(string \<Rightarrow> string) \<Rightarrow> string" where
  "emptyMerkleRoot sha = hex_encode (sha (merkleLeafTag @ ''empty'' @ NUL))"

text \<open>One round over a level: an element without a partner is paired with itself.\<close>

fun next_level :: "(string \<Rightarrow> string \<Rightarrow> string) \<Rightarrow> string list \<Rightarrow> string list" where
  "next_level h (left # right # rest) = h left right # next_level h rest"
| "next_level h [left] = [h left left]"
| "next_level h [] = []"

lemma length_next_level: "length (next_level h level) = (length level + 1) div 2"
  by (induction h level rule: next_level.induct) auto

function merkle_root :: "(string \<Rightarrow> string \<Rightarrow> string) \<Rightarrow> string list \<Rightarrow> string" where
  "merkle_root h level =
     (if length level > 1 then merkle_root h (next_level h level) else hd level)"
  by pat_completeness auto
termination
  by (relation "measure (\<lambda>(h, level). length level)") (auto simp: length_next_level)

declare merkle_root.simps [simp del]

definition merkleRootFromSortedLeaves :: "(string \<Rightarrow> string) \<Rightarrow> string list \<Rightarrow> string" where
  "merkleRootFromSortedLeaves sha leaves =
     (if leaves = [] then emptyMerkleRoot sha else merkle_root (merkleInternalHash sha) leaves)"

section \<open>Attestations\<close>

definition MerkleAttestProtocolVersion :: int where
  "MerkleAttestProtocolVersion = 1"

record attestation =
  at_ProtocolVersion :: int
  at_Root :: string
  at_LeafCount :: int
  at_LeafHashes :: "string list"
  at_GraphSize :: int
  at_AttestedAt :: int

text \<open>\<open>attestedAt\<close> is the configured time, or the clock when that is zero.\<close>

definition MerkleAttestWithConfig ::
  "(string \<Rightarrow> string) \<Rightarrow> (string \<Rightarrow> string) \<Rightarrow> ('w \<Rightarrow> string) \<Rightarrow> bool \<Rightarrow> int \<Rightarrow>
   'w causal_graph option \<Rightarrow> attestation" where
  "MerkleAttestWithConfig sha lower wtext includeLeaves attestedAt graph =
     (let nodes = (case graph of None \<Rightarrow> [] | Some g \<Rightarrow> cg_Nodes g) in
      if nodes = []
      then \<lparr>at_ProtocolVersion = MerkleAttestProtocolVersion, at_Root = emptyMerkleRoot sha,
            at_LeafCount = 0, at_LeafHashes = [], at_GraphSize = 0, at_AttestedAt = attestedAt\<rparr>
      else let leaves = sort_strings (map (canonicalLeafHash sha lower wtext) nodes) in
           \<lparr>at_ProtocolVersion = MerkleAttestProtocolVersion,
            at_Root = merkleRootFromSortedLeaves sha leaves, at_LeafCount = int (length leaves),
            at_LeafHashes = (if includeLeaves then leaves else []),
            at_GraphSize = int (length nodes), at_AttestedAt = attestedAt\<rparr>)"

definition MerkleAttest ::
  "(string \<Rightarrow> string) \<Rightarrow> (string \<Rightarrow> string) \<Rightarrow> ('w \<Rightarrow> string) \<Rightarrow> int \<Rightarrow>
   'w causal_graph option \<Rightarrow> attestation" where
  "MerkleAttest sha lower wtext now graph = MerkleAttestWithConfig sha lower wtext True now graph"

definition LeafSet :: "attestation \<Rightarrow> string set" where
  "LeafSet a = set (at_LeafHashes a)"

section \<open>Facts about text and sorting\<close>

lemma mset_insert_str [simp]: "mset (insert_str x ys) = add_mset x (mset ys)"
  by (induction ys) auto

lemma mset_sort_strings [simp]: "mset (sort_strings xs) = mset xs"
  unfolding sort_strings_def by (induction xs) auto

text \<open>There is only one sorted arrangement, so sorting forgets the order of its input.\<close>

lemma sorted_strings_unique:
  assumes "sorted_wrt (\<lambda>a b. \<not> str_less b a) xs" and "sorted_wrt (\<lambda>a b. \<not> str_less b a) ys"
    and "mset xs = mset ys"
  shows "xs = ys"
  using assms
proof (induction xs arbitrary: ys)
  case Nil
  then show ?case by simp
next
  case (Cons x xs)
  obtain y zs where ys: "ys = y # zs"
    using Cons.prems(3) by (cases ys) auto
  have set: "set (x # xs) = set (y # zs)"
    using mset_eq_setD [OF Cons.prems(3)] by (simp add: ys)
  have "\<not> str_less y x" and "\<not> str_less x y"
    using Cons.prems(1,2) set unfolding ys by (metis set_ConsD list.set_intros(1) sorted_wrt.simps(2) str_less_irrefl)+
  then have xy: "x = y" using str_less_linear by blast
  then show ?case
    using Cons.IH [of zs] Cons.prems unfolding ys by simp
qed

lemma sort_strings_eq_iff: "sort_strings xs = sort_strings ys \<longleftrightarrow> mset xs = mset ys"
  using sorted_strings_unique [OF sorted_sort_strings sorted_sort_strings, of xs ys]
    mset_sort_strings by metis

lemma sort_strings_snoc_max:
  assumes "\<And>x. x \<in> set xs \<Longrightarrow> \<not> str_less c x"
  shows "sort_strings (xs @ [c]) = sort_strings xs @ [c]"
proof (rule sorted_strings_unique)
  show "sorted_wrt (\<lambda>a b. \<not> str_less b a) (sort_strings (xs @ [c]))"
    by (rule sorted_sort_strings)
  show "sorted_wrt (\<lambda>a b. \<not> str_less b a) (sort_strings xs @ [c])"
    using assms sorted_sort_strings by (auto simp: sorted_wrt_append)
qed simp

lemma sort_strings_sorted: "sorted_wrt (\<lambda>a b. \<not> str_less b a) xs \<Longrightarrow> sort_strings xs = xs"
  by (rule sorted_strings_unique [OF sorted_sort_strings]) simp_all

lemma join_Cons: "ys \<noteq> [] \<Longrightarrow> join sep (y # ys) = y @ sep @ join sep ys"
  by (cases ys) simp_all

lemma join_append: "xs \<noteq> [] \<Longrightarrow> ys \<noteq> [] \<Longrightarrow> join sep (xs @ ys) = join sep xs @ sep @ join sep ys"
  by (induction xs rule: induct_list012) (simp_all add: join_Cons)

end
