(* ===== verification/Merkle_Properties.thy ===== *)
theory Merkle_Properties
  imports Causal_Merkle
begin

text \<open>
  What a Merkle root says of a graph. Collision freedom of the hash is only assumed on the
  preimages of the two trees at hand, which \<open>tree_preimages\<close> lists.
\<close>

section \<open>The trees of two leaf lists\<close>

fun level_pairs :: "string list \<Rightarrow> (string \<times> string) list" where
  "level_pairs (l # r # rest) = (l, r) # level_pairs rest"
| "level_pairs [l] = [(l, l)]"
| "level_pairs [] = []"

function tree_preimages :: "(string \<Rightarrow> string) \<Rightarrow> string list \<Rightarrow> string list" where
  "tree_preimages sha level =
     (if length level > 1
      then map (\<lambda>(l, r). internal_preimage l r) (level_pairs level) @
           tree_preimages sha (next_level (merkleInternalHash sha) level)
      else [])"
  by pat_completeness auto
termination
  by (relation "measure (\<lambda>(sha, level). length level)") (auto simp: length_next_level)

declare tree_preimages.simps [simp del]

text \<open>A digest is the hexadecimal text of 32 bytes.\<close>

definition digest_text :: "string \<Rightarrow> bool" where
  "digest_text s \<longleftrightarrow> hex_encode (hex_decode s) = s \<and> length (hex_decode s) = 32"

lemma digest_text_hash: "length y = 32 \<Longrightarrow> digest_text (hex_encode y)"
  by (simp add: digest_text_def)

lemma internal_preimage_inject:
  assumes "digest_text a" "digest_text b" "digest_text c" "digest_text d"
    and "internal_preimage a b = internal_preimage c d"
  shows "a = c \<and> b = d"
proof -
  have "hex_decode a @ NUL @ hex_decode b = hex_decode c @ NUL @ hex_decode d"
    using assms(5) by (simp add: internal_preimage_def)
  moreover have "length (hex_decode a) = length (hex_decode c)"
    using assms(1,3) by (simp add: digest_text_def)
  ultimately have "hex_decode a = hex_decode c \<and> hex_decode b = hex_decode d"
    by simp
  then show ?thesis using assms(1-4) by (metis digest_text_def)
qed

lemma digest_next_level:
  "\<forall>x. length (sha x) = 32 \<Longrightarrow> list_all digest_text (next_level (merkleInternalHash sha) level)"
  by (induction level rule: level_pairs.induct) (simp_all add: merkleInternalHash_def digest_text_hash)

lemma next_level_inject:
  assumes "inj_on sha (A \<union> B)"
    and "(\<lambda>(l, r). internal_preimage l r) ` set (level_pairs l1) \<subseteq> A"
    and "(\<lambda>(l, r). internal_preimage l r) ` set (level_pairs l2) \<subseteq> B"
    and "list_all digest_text l1" and "list_all digest_text l2"
    and "length l1 = length l2"
    and "next_level (merkleInternalHash sha) l1 = next_level (merkleInternalHash sha) l2"
  shows "l1 = l2"
  using assms(2-)
proof (induction l1 arbitrary: l2 rule: level_pairs.induct)
  case (1 l r rest)
  obtain l' r' rest' where l2: "l2 = l' # r' # rest'"
    using 1(6) by (cases l2; cases "tl l2") auto
  have "sha (internal_preimage l r) = sha (internal_preimage l' r')"
    using 1(7) unfolding l2 by (simp add: merkleInternalHash_def) (metis hex_decode_encode)
  then have "internal_preimage l r = internal_preimage l' r'"
    using inj_onD [OF assms(1)] 1(2,3) unfolding l2 by auto
  moreover have "digest_text l" "digest_text r" "digest_text l'" "digest_text r'"
    using 1(4,5) unfolding l2 by simp_all
  ultimately have "l = l' \<and> r = r'"
    by (intro internal_preimage_inject)
  moreover have "rest = rest'"
    by (rule 1(1)) (use 1(2-7) in \<open>auto simp: l2\<close>)
  ultimately show ?case by (simp add: l2)
next
  case (2 l)
  obtain l' where l2: "l2 = [l']"
    using 2(5) by (cases l2) auto
  have "sha (internal_preimage l l) = sha (internal_preimage l' l')"
    using 2(6) unfolding l2 by (simp add: merkleInternalHash_def) (metis hex_decode_encode)
  then have "internal_preimage l l = internal_preimage l' l'"
    using inj_onD [OF assms(1)] 2(1,2) unfolding l2 by auto
  moreover have "digest_text l" "digest_text l'"
    using 2(3,4) unfolding l2 by simp_all
  ultimately have "l = l' \<and> l = l'"
    by (intro internal_preimage_inject)
  then show ?case by (simp add: l2)
next
  case 3
  then show ?case by simp
qed

lemma merkle_root_inject:
  assumes "\<forall>x. length (sha x) = 32"
    and "inj_on sha (set (tree_preimages sha l1) \<union> set (tree_preimages sha l2))"
    and "list_all digest_text l1" and "list_all digest_text l2" and "length l1 = length l2"
    and "merkle_root (merkleInternalHash sha) l1 = merkle_root (merkleInternalHash sha) l2"
  shows "l1 = l2"
  using assms(2-)
proof (induction "merkleInternalHash sha" l1 arbitrary: l2 rule: merkle_root.induct)
  case (1 l1)
  let ?h = "merkleInternalHash sha"
  show ?case
  proof (cases "length l1 > 1")
    case True
    have t1: "tree_preimages sha l1 = map (\<lambda>(l, r). internal_preimage l r) (level_pairs l1) @
        tree_preimages sha (next_level ?h l1)"
      using True by (subst tree_preimages.simps) simp
    have t2: "tree_preimages sha l2 = map (\<lambda>(l, r). internal_preimage l r) (level_pairs l2) @
        tree_preimages sha (next_level ?h l2)"
      using True 1(5) by (subst tree_preimages.simps) simp
    have eq: "next_level ?h l1 = next_level ?h l2"
    proof (rule 1(1) [OF True])
      show "inj_on sha (set (tree_preimages sha (next_level ?h l1)) \<union>
          set (tree_preimages sha (next_level ?h l2)))"
        by (rule inj_on_subset [OF 1(2)]) (auto simp: t1 t2)
      show "list_all digest_text (next_level ?h l1)" and "list_all digest_text (next_level ?h l2)"
        using digest_next_level [OF assms(1)] by blast+
      show "length (next_level ?h l1) = length (next_level ?h l2)"
        using 1(5) by (simp add: length_next_level)
      show "merkle_root ?h (next_level ?h l1) = merkle_root ?h (next_level ?h l2)"
        using 1(6) True 1(5) by (simp add: merkle_root.simps [of _ l1] merkle_root.simps [of _ l2])
    qed
    show ?thesis
      by (rule next_level_inject [OF 1(2) _ _ 1(3,4,5) eq]) (auto simp: t1 t2)
  next
    case False
    then show ?thesis
      using 1(5,6) by (cases l1; cases l2) (auto simp: merkle_root.simps)
  qed
qed

section \<open>The properties\<close>

text \<open>
  Property C28. A root together with a leaf count identifies the nodes of a graph up to their
  order and their canonical form: if the hash has 32 bytes and no collision among the inner
  nodes of the two trees, two graphs get the same root and the same count exactly if they
  have the same multiset of leaf hashes; and the order of the nodes never matters.
\<close>

theorem merkle_root_identifies_leaves:
  assumes "\<forall>x. length (sha x) = 32"
    and "l1 = map (canonicalLeafHash sha lower wtext) (cg_Nodes g1)"
    and "l2 = map (canonicalLeafHash sha lower wtext) (cg_Nodes g2)"
    and "inj_on sha (set (tree_preimages sha (sort_strings l1)) \<union>
                     set (tree_preimages sha (sort_strings l2)))"
  shows "(at_Root (MerkleAttest sha lower wtext now (Some g1)) =
            at_Root (MerkleAttest sha lower wtext now' (Some g2)) \<and>
          at_LeafCount (MerkleAttest sha lower wtext now (Some g1)) =
            at_LeafCount (MerkleAttest sha lower wtext now' (Some g2)) \<longleftrightarrow> mset l1 = mset l2) \<and>
         (mset (cg_Nodes g1) = mset (cg_Nodes g2) \<longrightarrow>
            MerkleAttest sha lower wtext now (Some g1) = MerkleAttest sha lower wtext now (Some g2))"
proof -
  let ?att = "\<lambda>now g. MerkleAttest sha lower wtext now (Some g)"
  have att: "at_Root (?att n g) =
        (if cg_Nodes g = [] then emptyMerkleRoot sha
         else merkle_root (merkleInternalHash sha)
           (sort_strings (map (canonicalLeafHash sha lower wtext) (cg_Nodes g)))) \<and>
      at_LeafCount (?att n g) = int (length (cg_Nodes g))" for n g
  proof (cases "cg_Nodes g = []")
    case True
    then show ?thesis by (simp add: MerkleAttest_def MerkleAttestWithConfig_def)
  next
    case False
    then have "sort_strings (map (canonicalLeafHash sha lower wtext) (cg_Nodes g)) \<noteq> []"
      using length_sort_strings [of "map (canonicalLeafHash sha lower wtext) (cg_Nodes g)"]
      by (metis length_0_conv length_map)
    then show ?thesis
      using False by (simp add: MerkleAttest_def MerkleAttestWithConfig_def Let_def merkleRootFromSortedLeaves_def)
  qed
  have digests: "list_all digest_text
      (sort_strings (map (canonicalLeafHash sha lower wtext) (cg_Nodes g)))" for g
    using assms(1) by (auto simp: list_all_iff canonicalLeafHash_def digest_text_hash)
  have len: "length (cg_Nodes g1) = length l1" "length (cg_Nodes g2) = length l2"
    by (simp_all add: assms(2,3))
  have "mset l1 = mset l2"
    if r: "at_Root (?att now g1) = at_Root (?att now' g2)"
      and c: "at_LeafCount (?att now g1) = at_LeafCount (?att now' g2)"
  proof (cases "cg_Nodes g1 = []")
    case True
    then show ?thesis using c att by (simp add: assms(2,3))
  next
    case False
    have ll: "length l1 = length l2" using c att len by simp
    then have "cg_Nodes g2 \<noteq> []" using False len by auto
    then have "merkle_root (merkleInternalHash sha) (sort_strings l1) =
        merkle_root (merkleInternalHash sha) (sort_strings l2)"
      using r att False by (simp add: assms(2,3))
    then have "sort_strings l1 = sort_strings l2"
      using digests ll by (intro merkle_root_inject [OF assms(1,4)]) (simp_all add: assms(2,3))
    then show ?thesis by (simp add: sort_strings_eq_iff)
  qed
  moreover have "at_Root (?att now g1) = at_Root (?att now' g2) \<and>
      at_LeafCount (?att now g1) = at_LeafCount (?att now' g2)" if m: "mset l1 = mset l2"
  proof -
    have "sort_strings l1 = sort_strings l2" using m by (simp add: sort_strings_eq_iff)
    moreover have "length (cg_Nodes g1) = length (cg_Nodes g2)"
      unfolding len by (rule mset_eq_length [OF m])
    moreover from this have "cg_Nodes g1 = [] \<longleftrightarrow> cg_Nodes g2 = []"
      by (simp only: length_0_conv [symmetric])
    ultimately show ?thesis
      using att [of now g1] att [of now' g2] unfolding assms(2,3) by simp
  qed
  moreover have "?att now g1 = ?att now g2" if m: "mset (cg_Nodes g1) = mset (cg_Nodes g2)"
  proof -
    have "mset (map (canonicalLeafHash sha lower wtext) (cg_Nodes g1)) =
        mset (map (canonicalLeafHash sha lower wtext) (cg_Nodes g2))"
      using m by simp
    then have "sort_strings (map (canonicalLeafHash sha lower wtext) (cg_Nodes g1)) =
        sort_strings (map (canonicalLeafHash sha lower wtext) (cg_Nodes g2))"
      by (simp only: sort_strings_eq_iff)
    moreover have "length (cg_Nodes g1) = length (cg_Nodes g2)" by (rule mset_eq_length [OF m])
    ultimately show ?thesis
      by (auto simp: MerkleAttest_def MerkleAttestWithConfig_def Let_def)
  qed
  ultimately show ?thesis by blast
qed

lemma next_level_even:
  "even (length xs) \<Longrightarrow> next_level h (xs @ ys) = next_level h xs @ next_level h ys"
proof (induction h xs rule: next_level.induct)
  case (1 h left right rest)
  then show ?case by simp
qed simp_all

lemma merkle_root_repeat_last:
  assumes "even (length xs)" and "xs \<noteq> []"
  shows "merkle_root h (xs @ [c]) = merkle_root h (xs @ [c, c])"
proof -
  have "next_level h (xs @ [c]) = next_level h (xs @ [c, c])"
    using next_level_even [OF assms(1), of h "[c]"] next_level_even [OF assms(1), of h "[c, c]"] by simp
  moreover have "length xs > 0" using assms(2) by simp
  ultimately show ?thesis
    by (simp add: merkle_root.simps [of h "xs @ [c]"] merkle_root.simps [of h "xs @ [c, c]"])
qed

text \<open>
  The root alone does not identify a graph, whatever the hash: in a graph with an
  odd number of nodes, at least three, listing the node with the greatest leaf hash once more
  does not change the root, because an element without a partner is paired with itself; only
  the count differs. The gate compares roots alone.
\<close>

theorem merkle_root_repeats_last_leaf:
  assumes "odd (length (cg_Nodes g))" and "length (cg_Nodes g) > 1" and "n \<in> set (cg_Nodes g)"
    and "\<forall>m \<in> set (cg_Nodes g).
           \<not> str_less (canonicalLeafHash sha lower wtext n) (canonicalLeafHash sha lower wtext m)"
  shows "at_Root (MerkleAttest sha lower wtext now (Some g)) =
           at_Root (MerkleAttest sha lower wtext now (Some (g\<lparr>cg_Nodes := cg_Nodes g @ [n]\<rparr>))) \<and>
         at_LeafCount (MerkleAttest sha lower wtext now (Some g)) + 1 =
           at_LeafCount (MerkleAttest sha lower wtext now (Some (g\<lparr>cg_Nodes := cg_Nodes g @ [n]\<rparr>)))"
proof -
  let ?leaf = "canonicalLeafHash sha lower wtext" and ?h = "merkleInternalHash sha"
  let ?c = "canonicalLeafHash sha lower wtext n" and ?l = "map (canonicalLeafHash sha lower wtext) (cg_Nodes g)"
  obtain as bs where split: "?l = as @ ?c # bs"
    using split_list [of ?c ?l] assms(3) by auto
  have max: "\<not> str_less ?c x" if "x \<in> set (as @ bs)" for x
  proof -
    have "x \<in> set ?l" using that by (simp add: split)
    then show ?thesis using assms(4) by auto
  qed
  have "mset ?l = mset ((as @ bs) @ [?c])" by (simp add: split)
  then have "sort_strings ?l = sort_strings ((as @ bs) @ [?c])" by (simp only: sort_strings_eq_iff)
  also have "\<dots> = sort_strings (as @ bs) @ [?c]" by (rule sort_strings_snoc_max) (rule max)
  finally have l: "sort_strings ?l = sort_strings (as @ bs) @ [?c]" .
  have l2: "sort_strings (?l @ [?c]) = sort_strings ?l @ [?c]"
    by (rule sort_strings_snoc_max) (use assms(4) in auto)
  have len: "length ?l = Suc (length (as @ bs))" by (simp add: split)
  then have "even (length (sort_strings (as @ bs)))" and "sort_strings (as @ bs) \<noteq> []"
    using assms(1,2) by (auto simp flip: length_greater_0_conv)
  then have "merkle_root ?h (sort_strings ?l) = merkle_root ?h (sort_strings (?l @ [?c]))"
    unfolding l2 unfolding l using merkle_root_repeat_last by simp
  moreover have "cg_Nodes g \<noteq> []" and "sort_strings ?l \<noteq> []" using assms(2) l by auto
  ultimately show ?thesis
    by (simp add: MerkleAttest_def MerkleAttestWithConfig_def Let_def merkleRootFromSortedLeaves_def l2)
qed

text \<open>
  The fields of a leaf are not separated: a list joins its elements with the NUL
  byte that also ends a field, so when a node has parents and atom references, all in order,
  moving the last parent to the front of the references gives a different node with the same
  leaf hash, whatever the hash function.
\<close>

theorem leaf_hash_confuses_parents_and_atoms:
  assumes "sorted_wrt (\<lambda>a b. \<not> str_less b a) (parents @ p # atoms)"
    and "parents \<noteq> []" and "atoms \<noteq> []"
  shows "canonicalLeafHash sha lower wtext (n\<lparr>cn_Parents := parents @ [p], cn_AtomRefs := atoms\<rparr>) =
         canonicalLeafHash sha lower wtext (n\<lparr>cn_Parents := parents, cn_AtomRefs := p # atoms\<rparr>)"
proof -
  note sorted = assms(1) [unfolded sorted_wrt_append sorted_wrt.simps]
  have "sort_strings (parents @ [p]) = parents @ [p]" "sort_strings parents = parents"
    "sort_strings (p # atoms) = p # atoms" "sort_strings atoms = atoms"
    using sorted by (auto intro!: sort_strings_sorted simp: sorted_wrt_append)
  then have "writeNUL (sortedJoin (parents @ [p])) @ writeNUL (sortedJoin atoms) =
      writeNUL (sortedJoin parents) @ writeNUL (sortedJoin (p # atoms))"
    using assms(2,3) by (simp add: sortedJoin_def writeNUL_def join_append join_Cons)
  then have "leaf_preimage lower wtext (n\<lparr>cn_Parents := parents @ [p], cn_AtomRefs := atoms\<rparr>) =
      leaf_preimage lower wtext (n\<lparr>cn_Parents := parents, cn_AtomRefs := p # atoms\<rparr>)"
    by (simp add: leaf_preimage_def)
  then show ?thesis by (simp add: canonicalLeafHash_def)
qed

section \<open>Witnesses\<close>

text \<open>A stand-in for the hash with 32 bytes: the end of the text, filled up with zeros.\<close>

definition short_sha :: "string \<Rightarrow> string" where
  "short_sha x = take 32 (rev x @ replicate 32 (CHR 0x00))"

definition plain_node :: "string \<Rightarrow> unit causal_node" where
  "plain_node i =
     \<lparr>cn_ID = i, cn_Role = ''evidence'', cn_Summary = [], cn_Parents = [], cn_AtomRefs = [],
      cn_Weight = (), cn_Meta = []\<rparr>"

definition plain_graph :: "string list \<Rightarrow> unit causal_graph" where
  "plain_graph is = \<lparr>cg_ProtocolVersion = 1, cg_Nodes = map plain_node is\<rparr>"

lemma length_two: "length xs = 2 \<Longrightarrow> \<exists>x y. xs = [x, y]"
  by (cases xs; cases "tl xs") auto

lemma length_short_sha: "length (short_sha x) = 32"
  by (simp add: short_sha_def)

theorem merkle_root_repeats_last_leaf_witness:
  "at_Root (MerkleAttest short_sha (\<lambda>s. s) (\<lambda>w. ''1.000000'') 0 (Some (plain_graph [''a'', ''b'', ''c'']))) =
   at_Root (MerkleAttest short_sha (\<lambda>s. s) (\<lambda>w. ''1.000000'') 0
     (Some ((plain_graph [''a'', ''b'', ''c''])\<lparr>cg_Nodes := cg_Nodes (plain_graph [''a'', ''b'', ''c'']) @ [plain_node ''c'']\<rparr>)))"
proof -
  have "\<forall>m \<in> set (cg_Nodes (plain_graph [''a'', ''b'', ''c''])).
     \<not> str_less (canonicalLeafHash short_sha (\<lambda>s. s) (\<lambda>w. ''1.000000'') (plain_node ''c''))
        (canonicalLeafHash short_sha (\<lambda>s. s) (\<lambda>w. ''1.000000'') m)"
    by code_simp
  then show ?thesis
    using merkle_root_repeats_last_leaf [of "plain_graph [''a'', ''b'', ''c'']" "plain_node ''c''"]
    by (simp add: plain_graph_def)
qed

theorem merkle_root_identifies_leaves_witness:
  "at_Root (MerkleAttest short_sha (\<lambda>s. s) (\<lambda>w. ''1.000000'') 0 (Some (plain_graph [''a'', ''b'']))) =
   at_Root (MerkleAttest short_sha (\<lambda>s. s) (\<lambda>w. ''1.000000'') 0 (Some (plain_graph [''b'', ''a''])))"
proof -
  let ?l = "\<lambda>g. map (canonicalLeafHash short_sha (\<lambda>s. s) (\<lambda>w. ''1.000000'')) (cg_Nodes (plain_graph g))"
  have m: "mset (?l [''a'', ''b'']) = mset (?l [''b'', ''a''])"
    by (simp add: plain_graph_def)
  have "length (sort_strings (?l [''a'', ''b''])) = 2"
    by (simp add: plain_graph_def)
  from length_two [OF this] obtain x y where xy: "sort_strings (?l [''a'', ''b'']) = [x, y]"
    by (elim exE)
  have yx: "sort_strings (?l [''b'', ''a'']) = [x, y]"
    using sort_strings_eq_iff [THEN iffD2, OF m] unfolding xy by (rule sym)
  have inj: "inj_on short_sha (set (tree_preimages short_sha (sort_strings (?l [''a'', ''b'']))) \<union>
      set (tree_preimages short_sha (sort_strings (?l [''b'', ''a'']))))"
    unfolding xy yx by (simp add: tree_preimages.simps)
  have "\<forall>x. length (short_sha x) = 32" by (simp add: length_short_sha)
  from merkle_root_identifies_leaves [OF this refl refl inj, of 0 0] m show ?thesis by blast
qed

theorem leaf_hash_confuses_parents_and_atoms_witness:
  "canonicalLeafHash short_sha (\<lambda>s. s) (\<lambda>w. ''1.000000'')
     ((plain_node ''x'')\<lparr>cn_Parents := [''a'', ''b''], cn_AtomRefs := [''c'']\<rparr>) =
   canonicalLeafHash short_sha (\<lambda>s. s) (\<lambda>w. ''1.000000'')
     ((plain_node ''x'')\<lparr>cn_Parents := [''a''], cn_AtomRefs := [''b'', ''c'']\<rparr>)"
  using leaf_hash_confuses_parents_and_atoms [of "[''a'']" "''b''" "[''c'']"] by simp

end
