(* ===== verification/Convergence.thy ===== *)
theory Convergence
  imports Causal_Merkle Complex_Main
begin

text \<open>
  The convergence gate over the attestations of a cohort,
  \<open>internal/agency/speculative_converge.go\<close>. A floating-point number is the real it stands
  for; \<open>fdiv a b\<close> is \<open>float64(a) / float64(b)\<close>, with its rounding, and
  \<open>defaultThreshold\<close> the number nearest to 0.66. Histograms and buckets are association lists;
  where the code sorts keys first, so does the model.
\<close>

record peer_attestation =
  pa_AgentID :: string
  pa_Attestation :: attestation

record divergence_locus =
  dl_LeafHash :: string
  dl_Severity :: string
  dl_Inclusion :: "string list"
  dl_Exclusion :: "string list"

datatype convergence_status = Converged | Partial | Divergent

record convergence_report =
  cr_ProtocolVersion :: int
  cr_Status :: convergence_status
  cr_ConsensusRoot :: string
  cr_Threshold :: real
  cr_Quorum :: real
  cr_AgentCount :: int
  cr_RootHistogram :: "(string, int) gomap"
  cr_BucketAgents :: "(string, string list) gomap"
  cr_DivergenceLoci :: "divergence_locus list"
  cr_Notes :: "string list"

definition count_root :: "string \<Rightarrow> (string, int) gomap \<Rightarrow> (string, int) gomap" where
  "count_root r hist = map_put r (map_get_or 0 hist r + 1) hist"

definition add_agent :: "string \<Rightarrow> string \<Rightarrow> (string, string list) gomap \<Rightarrow> (string, string list) gomap" where
  "add_agent r agent buckets = map_put r (map_get_or [] buckets r @ [agent]) buckets"

definition root_histogram :: "peer_attestation list \<Rightarrow> (string, int) gomap" where
  "root_histogram peers = fold (\<lambda>p. count_root (at_Root (pa_Attestation p))) peers []"

definition bucket_agents :: "peer_attestation list \<Rightarrow> (string, string list) gomap" where
  "bucket_agents peers =
     map (\<lambda>(k, agents). (k, sort_strings agents))
       (fold (\<lambda>p. add_agent (at_Root (pa_Attestation p)) (pa_AgentID p)) peers [])"

text \<open>The loop of \<open>pluralityRoot\<close> over the sorted keys.\<close>

fun plurality_loop ::
  "(string, int) gomap \<Rightarrow> string list \<Rightarrow> string \<times> int \<times> bool \<Rightarrow> string \<times> int \<times> bool" where
  "plurality_loop hist [] acc = acc"
| "plurality_loop hist (k # ks) (best, bestCount, tied) =
     (let c = map_get_or 0 hist k in
      if c > bestCount then plurality_loop hist ks (k, c, False)
      else if c = bestCount \<and> k \<noteq> best then plurality_loop hist ks (best, bestCount, True)
      else plurality_loop hist ks (best, bestCount, tied))"

definition pluralityRoot :: "(string, int) gomap \<Rightarrow> string \<times> int \<times> bool" where
  "pluralityRoot hist = plurality_loop hist (sort_strings (map fst hist)) ([], 0, False)"

definition setToSortedSlice :: "string list \<Rightarrow> string list" where
  "setToSortedSlice xs = sort_strings (remdups xs)"

text \<open>
  The leaves of the consensus are those of the first peer in its bucket. A locus is a leaf
  that some peer outside the bucket lacks, or has in excess.
\<close>

definition consensus_leaves :: "peer_attestation list \<Rightarrow> string \<Rightarrow> string list" where
  "consensus_leaves peers consensusRoot =
     (case find (\<lambda>p. at_Root (pa_Attestation p) = consensusRoot) peers of
        None \<Rightarrow> [] | Some p \<Rightarrow> remdups (at_LeafHashes (pa_Attestation p)))"

definition locus_of ::
  "string list \<Rightarrow> peer_attestation list \<Rightarrow> string \<Rightarrow> divergence_locus" where
  "locus_of consensus outside leaf =
     \<lparr>dl_LeafHash = leaf,
      dl_Severity = (if leaf \<in> set consensus then ''missing'' else ''extra''),
      dl_Inclusion = setToSortedSlice (map pa_AgentID (filter (\<lambda>p.
        leaf \<notin> set consensus \<and> leaf \<in> LeafSet (pa_Attestation p)) outside)),
      dl_Exclusion = setToSortedSlice (map pa_AgentID (filter (\<lambda>p.
        leaf \<in> set consensus \<and> leaf \<notin> LeafSet (pa_Attestation p)) outside))\<rparr>"

definition computeDivergenceLoci :: "peer_attestation list \<Rightarrow> string \<Rightarrow> divergence_locus list" where
  "computeDivergenceLoci peers consensusRoot =
     (let consensus = consensus_leaves peers consensusRoot;
          outside = filter (\<lambda>p. at_Root (pa_Attestation p) \<noteq> consensusRoot) peers;
          missing = filter (\<lambda>l. \<exists>p \<in> set outside. l \<notin> LeafSet (pa_Attestation p)) consensus;
          extra = filter (\<lambda>l. l \<notin> set consensus)
                    (concat (map (\<lambda>p. at_LeafHashes (pa_Attestation p)) outside))
      in if consensus = [] then []
         else map (locus_of consensus outside) (sort_strings (remdups (missing @ extra))))"

definition MerkleConvergeWithThreshold ::
  "(int \<Rightarrow> int \<Rightarrow> real) \<Rightarrow> real \<Rightarrow> peer_attestation list \<Rightarrow> real \<Rightarrow> convergence_report" where
  "MerkleConvergeWithThreshold fdiv defaultThreshold peers threshold0 =
     (let threshold = (if threshold0 \<le> 0 \<or> threshold0 > 1 then defaultThreshold else threshold0);
          blank = \<lparr>cr_ProtocolVersion = 1, cr_Status = Divergent, cr_ConsensusRoot = [],
            cr_Threshold = threshold, cr_Quorum = 0, cr_AgentCount = int (length peers),
            cr_RootHistogram = [], cr_BucketAgents = [], cr_DivergenceLoci = [], cr_Notes = []\<rparr>
      in if peers = [] then blank\<lparr>cr_Notes := [''no peer attestations supplied'']\<rparr>
         else
           let hist = root_histogram peers;
               (plurality, pluralityCount, tied) = pluralityRoot hist;
               quorum = fdiv pluralityCount (int (length peers));
               report = blank\<lparr>cr_RootHistogram := hist, cr_BucketAgents := bucket_agents peers,
                              cr_Quorum := quorum\<rparr>;
               report1 =
                 (if tied then report\<lparr>cr_Status := Divergent,
                    cr_Notes := [''multiple roots tied for plurality; no defensible consensus'']\<rparr>
                  else if quorum \<ge> threshold
                  then report\<lparr>cr_Status := Converged, cr_ConsensusRoot := plurality\<rparr>
                  else report\<lparr>cr_Status := Partial, cr_ConsensusRoot := plurality,
                    cr_Notes := [''plurality root below threshold; downstream stages should run with caveats'']\<rparr>)
           in (if cr_ConsensusRoot report1 \<noteq> []
               then report1\<lparr>cr_DivergenceLoci := computeDivergenceLoci peers (cr_ConsensusRoot report1)\<rparr>
               else report1))"

definition MerkleConverge ::
  "(int \<Rightarrow> int \<Rightarrow> real) \<Rightarrow> real \<Rightarrow> peer_attestation list \<Rightarrow> convergence_report" where
  "MerkleConverge fdiv defaultThreshold peers =
     MerkleConvergeWithThreshold fdiv defaultThreshold peers defaultThreshold"

definition IsGateOpen :: "convergence_report \<Rightarrow> bool" where
  "IsGateOpen r = (cr_Status r = Converged \<or> cr_Status r = Partial)"

definition ConsensusBucketAgents :: "convergence_report \<Rightarrow> string list" where
  "ConsensusBucketAgents r =
     (if cr_ConsensusRoot r = [] then []
      else map_get_or [] (cr_BucketAgents r) (cr_ConsensusRoot r))"

section \<open>Facts\<close>

text \<open>How often a root occurs in a cohort.\<close>

definition root_votes :: "peer_attestation list \<Rightarrow> string \<Rightarrow> int" where
  "root_votes peers r = int (length (filter (\<lambda>p. at_Root (pa_Attestation p) = r) peers))"

lemma root_histogram_votes:
  "map_get_or 0 (root_histogram peers) r = root_votes peers r \<and>
   fst ` set (root_histogram peers) = (\<lambda>p. at_Root (pa_Attestation p)) ` set peers \<and>
   distinct (map fst (root_histogram peers))"
proof -
  let ?root = "\<lambda>p. at_Root (pa_Attestation p)"
  have "map_get_or 0 (fold (\<lambda>p. count_root (?root p)) peers hist) r = map_get_or 0 hist r + root_votes peers r"
    for hist
    by (induction peers arbitrary: hist)
      (simp_all add: root_votes_def count_root_def map_get_or_def map_simps)
  moreover have "fst ` set (fold (\<lambda>p. count_root (?root p)) peers hist) = ?root ` set peers \<union> fst ` set hist" for hist
    by (induction peers arbitrary: hist) (simp_all add: count_root_def keys_map_put)
  moreover have "distinct (map fst hist) \<Longrightarrow> distinct (map fst (fold (\<lambda>p. count_root (?root p)) peers hist))" for hist
    by (induction peers arbitrary: hist) (simp_all add: count_root_def distinct_update)
  ultimately show ?thesis by (simp add: root_histogram_def)
qed

text \<open>
  What the loop knows after some keys: the best count is the greatest one, and it is tied
  exactly if another key has it.
\<close>

definition plurality_of :: "(string, int) gomap \<Rightarrow> string set \<Rightarrow> string \<times> int \<times> bool \<Rightarrow> bool" where
  "plurality_of hist K acc \<longleftrightarrow> (case acc of (best, n, tied) \<Rightarrow>
     best \<in> K \<and> map_get_or 0 hist best = n \<and> (\<forall>k \<in> K. map_get_or 0 hist k \<le> n) \<and>
     (tied \<longleftrightarrow> (\<exists>k \<in> K. k \<noteq> best \<and> map_get_or 0 hist k = n)))"

lemma plurality_loop_inv:
  assumes "plurality_of hist K acc"
  shows "plurality_of hist (K \<union> set ks) (plurality_loop hist ks acc)"
  using assms
proof (induction ks arbitrary: K acc)
  case (Cons k ks)
  obtain best n tied where acc: "acc = (best, n, tied)" by (cases acc)
  let ?c = "map_get_or 0 hist"
  have best: "best \<in> K" "?c best = n" and le: "\<And>j. j \<in> K \<Longrightarrow> ?c j \<le> n"
    and tie: "tied \<longleftrightarrow> (\<exists>j \<in> K. j \<noteq> best \<and> ?c j = n)"
    using Cons.prems by (auto simp: plurality_of_def acc)
  consider (more) "?c k > n" | (same) "?c k = n" "k \<noteq> best" | (less) "?c k \<le> n" "?c k \<noteq> n \<or> k = best"
    by linarith
  then show ?case
  proof cases
    case more
    have "?c j < ?c k" if "j \<in> K" for j using le [OF that] more by linarith
    then have "plurality_of hist (insert k K) (k, ?c k, False)"
      unfolding plurality_of_def by fastforce
    from Cons.IH [OF this] show ?thesis using more by (simp add: acc Let_def)
  next
    case same
    then have "plurality_of hist (insert k K) (best, n, True)"
      unfolding plurality_of_def using best le by auto
    from Cons.IH [OF this] show ?thesis using same by (simp add: acc Let_def)
  next
    case less
    then have "plurality_of hist (insert k K) (best, n, tied)"
      unfolding plurality_of_def tie using best le by auto
    from Cons.IH [OF this] show ?thesis using less by (auto simp: acc Let_def)
  qed
qed simp

lemma pluralityRoot_inv:
  assumes "hist \<noteq> []" and "\<And>k. k \<in> fst ` set hist \<Longrightarrow> map_get_or 0 hist k > 0"
  shows "plurality_of hist (fst ` set hist) (pluralityRoot hist)"
proof -
  have set: "set (sort_strings (map fst hist)) = fst ` set hist" by simp
  have "sort_strings (map fst hist) \<noteq> []"
    using assms(1) length_sort_strings [of "map fst hist"] by (cases "sort_strings (map fst hist)") auto
  then obtain k ks where ks: "sort_strings (map fst hist) = k # ks"
    by (cases "sort_strings (map fst hist)") auto
  have keys: "fst ` set hist = insert k (set ks)"
    using set unfolding ks by simp
  then have "map_get_or 0 hist k > 0"
    by (intro assms(2)) simp
  then have "pluralityRoot hist = plurality_loop hist ks (k, map_get_or 0 hist k, False)"
    by (simp add: pluralityRoot_def ks)
  moreover have "plurality_of hist {k} (k, map_get_or 0 hist k, False)"
    by (auto simp: plurality_of_def)
  ultimately show ?thesis
    using plurality_loop_inv [of hist "{k}" "(k, map_get_or 0 hist k, False)" ks] unfolding keys by simp
qed

end
