(* ===== verification/Convergence_Properties.thy ===== *)
theory Convergence_Properties
  imports Convergence
begin

text \<open>The property of the convergence gate.\<close>

text \<open>A root with more votes than any other of the cohort.\<close>

definition strict_plurality :: "peer_attestation list \<Rightarrow> string \<Rightarrow> bool" where
  "strict_plurality peers r \<longleftrightarrow>
     r \<in> (\<lambda>p. at_Root (pa_Attestation p)) ` set peers \<and>
     (\<forall>s \<in> (\<lambda>p. at_Root (pa_Attestation p)) ` set peers.
        s \<noteq> r \<longrightarrow> root_votes peers s < root_votes peers r)"

lemma root_votes_pos:
  "r \<in> (\<lambda>p. at_Root (pa_Attestation p)) ` set peers \<Longrightarrow> root_votes peers r > 0"
  unfolding root_votes_def by (auto simp: filter_empty_conv)

lemma plurality_of_peers:
  assumes "peers \<noteq> []"
  obtains best n tied where "pluralityRoot (root_histogram peers) = (best, n, tied)"
    and "n = root_votes peers best"
    and "tied \<Longrightarrow> \<not> (\<exists>r. strict_plurality peers r)"
    and "\<not> tied \<Longrightarrow> strict_plurality peers best"
    and "strict_plurality peers r \<Longrightarrow> r = best"
proof -
  let ?roots = "(\<lambda>p. at_Root (pa_Attestation p)) ` set peers" and ?h = "root_histogram peers"
  have keys: "fst ` set ?h = ?roots" and votes: "map_get_or 0 ?h s = root_votes peers s" for s
    using root_histogram_votes by blast+
  have "?h \<noteq> []" using keys assms by auto
  then have inv: "plurality_of ?h ?roots (pluralityRoot ?h)"
    using pluralityRoot_inv [of ?h] root_votes_pos unfolding keys votes by blast
  obtain best n tied where res: "pluralityRoot ?h = (best, n, tied)" by (cases "pluralityRoot ?h")
  have best: "best \<in> ?roots" "root_votes peers best = n"
    and le: "\<And>s. s \<in> ?roots \<Longrightarrow> root_votes peers s \<le> n"
    and tie: "tied \<longleftrightarrow> (\<exists>s \<in> ?roots. s \<noteq> best \<and> root_votes peers s = n)"
    using inv unfolding plurality_of_def res votes by auto
  have unique: "r = best" if "strict_plurality peers r" for r
  proof (rule ccontr)
    assume "r \<noteq> best"
    then have "root_votes peers best < root_votes peers r" and "r \<in> ?roots"
      using that best(1) unfolding strict_plurality_def by auto
    then show False using le [of r] best(2) by linarith
  qed
  have "\<not> (\<exists>r. strict_plurality peers r)" if "tied"
  proof
    assume "\<exists>r. strict_plurality peers r"
    then have "strict_plurality peers best" using unique by blast
    then show False using that tie best(2) unfolding strict_plurality_def by force
  qed
  moreover have "strict_plurality peers best" if "\<not> tied"
    unfolding strict_plurality_def
  proof (intro conjI ballI impI best(1))
    fix s assume "s \<in> ?roots" and "s \<noteq> best"
    then show "root_votes peers s < root_votes peers best"
      using le [of s] tie that best(2) by force
  qed
  ultimately show ?thesis using that res best(2) unique by blast
qed

text \<open>
  The gate is sound and complete for the plurality of the roots: when a root has
  strictly more votes than any other it becomes the consensus root, the quorum is its share,
  and the status is converged if the share reaches the threshold and partial otherwise; when
  there is no such root, with no peers or a tie at the top, the report is divergent, names no
  root, and the gate stays closed.
\<close>

theorem gate_opens_on_plurality:
  assumes "report = MerkleConvergeWithThreshold fdiv d peers threshold"
    and "limit = (if threshold \<le> 0 \<or> threshold > 1 then d else threshold)"
  shows "(strict_plurality peers r \<longrightarrow>
            cr_ConsensusRoot report = r \<and>
            cr_Quorum report = fdiv (root_votes peers r) (int (length peers)) \<and>
            cr_Status report = (if cr_Quorum report \<ge> limit then Converged else Partial)) \<and>
         (IsGateOpen report \<longleftrightarrow> (\<exists>s. strict_plurality peers s)) \<and>
         (\<not> IsGateOpen report \<longrightarrow> cr_Status report = Divergent \<and> cr_ConsensusRoot report = [])"
proof (cases "peers = []")
  case True
  then show ?thesis
    by (simp add: assms(1) MerkleConvergeWithThreshold_def strict_plurality_def IsGateOpen_def)
next
  case False
  obtain best n tied where res: "pluralityRoot (root_histogram peers) = (best, n, tied)"
    and n: "n = root_votes peers best"
    and tie: "tied \<Longrightarrow> \<not> (\<exists>r. strict_plurality peers r)"
    and strict: "\<not> tied \<Longrightarrow> strict_plurality peers best"
    and unique: "strict_plurality peers r \<Longrightarrow> r = best"
    using plurality_of_peers [OF False] by blast
  have rep: "cr_Status report = (if tied then Divergent
        else if fdiv n (int (length peers)) \<ge> limit then Converged else Partial)"
    "cr_ConsensusRoot report = (if tied then [] else best)"
    "cr_Quorum report = fdiv n (int (length peers))"
    using False by (simp_all add: assms MerkleConvergeWithThreshold_def Let_def res)
  show ?thesis
  proof (cases tied)
    case True
    then show ?thesis using tie rep by (auto simp: IsGateOpen_def)
  next
    case False
    then show ?thesis using strict unique rep n by (auto simp: IsGateOpen_def)
  qed
qed

definition vote_for :: "string \<Rightarrow> string \<Rightarrow> peer_attestation" where
  "vote_for agent rt =
     \<lparr>pa_AgentID = agent, pa_Attestation =
        \<lparr>at_ProtocolVersion = 1, at_Root = rt, at_LeafCount = 1, at_LeafHashes = [rt],
         at_GraphSize = 1, at_AttestedAt = 0\<rparr>\<rparr>"

theorem gate_opens_on_plurality_witness:
  "cr_Status (MerkleConvergeWithThreshold (\<lambda>a b. real_of_int a / real_of_int b) (33 / 50)
      [vote_for ''a'' ''x'', vote_for ''b'' ''x'', vote_for ''c'' ''y''] 1) = Partial"
proof -
  let ?peers = "[vote_for ''a'' ''x'', vote_for ''b'' ''x'', vote_for ''c'' ''y'']"
  have "strict_plurality ?peers ''x''"
    by (simp add: strict_plurality_def root_votes_def vote_for_def)
  then show ?thesis
    using gate_opens_on_plurality [OF refl refl, of ?peers "''x''" "\<lambda>a b. real_of_int a / real_of_int b" "33 / 50" 1]
    by (simp add: root_votes_def vote_for_def)
qed

end
