(* ===== verification/Scheduler.thy ===== *)
theory Scheduler
  imports Agency_Types Go_Numbers
begin

text \<open>
  The schedulers of \<open>internal/agency/scheduler.go\<close> and \<open>nested_scheduler.go\<close>. A goroutine
  started by \<open>Register\<close> is an element of \<open>sd_runs\<close>; its own steps are \<open>start_run\<close>, which
  creates the ticker, \<open>fire_run\<close> and \<open>end_run\<close>. The cancel function of a run is its index.
  Contexts of callers are numbers, and the environment says which of them are done.
\<close>

section \<open>Expressions\<close>

definition parseSchedule :: "(int \<Rightarrow> int \<Rightarrow> nat \<Rightarrow> int) \<Rightarrow> string \<Rightarrow> (string, int) outcome" where
  "parseSchedule frac expr0 =
     (let expr = trim_space expr0; parts = str_fields expr in
      if expr = ''@hourly'' then Ok 3600000000000
      else if expr = ''@daily'' then Ok (24 * 3600000000000)
      else if expr = ''@weekly'' then Ok (7 * 24 * 3600000000000)
      else if has_prefix expr ''@every '' then parse_duration frac (trim_space (drop 7 expr))
      else if length parts = 5 \<and> has_prefix (parts ! 0) ''*/''
      then (case atoi (drop 2 (parts ! 0)) of
              None \<Rightarrow> Err (''invalid schedule expression: '' @ expr)
            | Some n \<Rightarrow>
                if n \<le> 0 then Err (''invalid schedule expression: '' @ expr)
                else Ok (wrap64 (n * 60000000000)))
      else Err (''unsupported schedule expression: '' @ expr))"

definition ParseScheduleInterval :: "(int \<Rightarrow> int \<Rightarrow> nat \<Rightarrow> int) \<Rightarrow> string \<Rightarrow> (string, int) outcome" where
  "ParseScheduleInterval frac expr = parseSchedule frac expr"

definition ActorChannel :: "string \<Rightarrow> string" where
  "ActorChannel actorID = ''agency.actor.'' @ actorID"

section \<open>The scheduler\<close>

datatype 'f publisher = ToBus | Publisher 'f

datatype run_phase = Starting | Ticking | Ended

record ticker_run =
  tk_Schedule :: agent_schedule
  tk_Base :: wake_signal
  tk_Interval :: int
  tk_Parent :: nat
  tk_Cancelled :: bool
  tk_Phase :: run_phase

record 'f scheduler =
  sd_cancel :: "(string, nat) gomap"
  sd_schedules :: "(string, agent_schedule) gomap"
  sd_publish :: "'f publisher"
  sd_runs :: "ticker_run list"
  sd_sent :: "('f publisher \<times> agent_schedule \<times> wake_signal) list"

definition NewScheduler :: "'f scheduler" where
  "NewScheduler =
     \<lparr>sd_cancel = [], sd_schedules = [], sd_publish = ToBus, sd_runs = [], sd_sent = []\<rparr>"

definition cancel_run :: "nat \<Rightarrow> ticker_run list \<Rightarrow> ticker_run list" where
  "cancel_run i runs = runs[i := (runs ! i)\<lparr>tk_Cancelled := True\<rparr>]"

definition Register ::
  "(int \<Rightarrow> int \<Rightarrow> nat \<Rightarrow> int) \<Rightarrow> nat \<Rightarrow> agent_schedule \<Rightarrow> wake_signal \<Rightarrow> 'f scheduler \<Rightarrow>
   (string, unit) outcome \<times> 'f scheduler" where
  "Register frac ctx schedule base s =
     (if as_ID schedule = [] then (Err ''schedule id is required'', s)
      else if \<not> as_Enabled schedule then (Ok (), s)
      else case parseSchedule frac (as_Expression schedule) of
        Err e \<Rightarrow> (Err e, s)
      | Panic e \<Rightarrow> (Panic e, s)
      | Ok interval \<Rightarrow>
          (let runs = (case map_of (sd_cancel s) (as_ID schedule) of
                 Some i \<Rightarrow> cancel_run i (sd_runs s) | None \<Rightarrow> sd_runs s)
           in (Ok (), s\<lparr>sd_cancel := map_put (as_ID schedule) (length runs) (sd_cancel s),
                 sd_schedules := map_put (as_ID schedule) schedule (sd_schedules s),
                 sd_runs := runs @ [\<lparr>tk_Schedule = schedule, tk_Base = base,
                   tk_Interval = interval, tk_Parent = ctx, tk_Cancelled = False,
                   tk_Phase = Starting\<rparr>]\<rparr>)))"

definition SetPublisher :: "'f option \<Rightarrow> 'f scheduler \<Rightarrow> 'f scheduler" where
  "SetPublisher fn s =
     s\<lparr>sd_publish := (case fn of None \<Rightarrow> ToBus | Some f \<Rightarrow> Publisher f)\<rparr>"

definition Schedules :: "'f scheduler \<Rightarrow> agent_schedule list" where
  "Schedules s = map snd (sd_schedules s)"

definition StopScheduler :: "'f scheduler \<Rightarrow> 'f scheduler" where
  "StopScheduler s =
     s\<lparr>sd_runs := fold cancel_run (map snd (sd_cancel s)) (sd_runs s),
       sd_cancel := [], sd_schedules := []\<rparr>"

text \<open>
  The goroutine. \<open>NewTicker\<close> panics unless the interval is positive. When the context is
  done and the ticker has fired, \<open>select\<close> may take either case, so a cancelled run can still
  fire before it ends.
\<close>

definition set_phase :: "nat \<Rightarrow> run_phase \<Rightarrow> 'f scheduler \<Rightarrow> 'f scheduler" where
  "set_phase i p s = s\<lparr>sd_runs := (sd_runs s)[i := (sd_runs s ! i)\<lparr>tk_Phase := p\<rparr>]\<rparr>"

definition start_run :: "nat \<Rightarrow> 'f scheduler \<Rightarrow> (string, 'f scheduler) outcome" where
  "start_run i s =
     (if tk_Interval (sd_runs s ! i) \<le> 0 then Panic ''non-positive interval for NewTicker''
      else Ok (set_phase i Ticking s))"

definition tick_signal :: "string \<Rightarrow> int \<Rightarrow> agent_schedule \<Rightarrow> wake_signal \<Rightarrow> wake_signal" where
  "tick_signal uid now schedule base =
     base\<lparr>ws_ID := (if ws_ID base = [] then uid else ws_ID base),
          ws_ActorID := as_ActorID schedule,
          ws_Kind := as_DefaultSignalKind schedule,
          ws_CreatedAt := now,
          ws_Channel := (if ws_Channel base = [] then ActorChannel (as_ActorID schedule)
                         else ws_Channel base)\<rparr>"

definition fire_run :: "string \<Rightarrow> int \<Rightarrow> nat \<Rightarrow> 'f scheduler \<Rightarrow> 'f scheduler" where
  "fire_run uid now i s =
     (let r = sd_runs s ! i in
      s\<lparr>sd_sent := sd_sent s @
          [(sd_publish s, tk_Schedule r, tick_signal uid now (tk_Schedule r) (tk_Base r))]\<rparr>)"

definition run_done :: "nat list \<Rightarrow> ticker_run \<Rightarrow> bool" where
  "run_done ctxs r \<longleftrightarrow> tk_Cancelled r \<or> tk_Parent r \<in> set ctxs"

definition end_run :: "nat \<Rightarrow> 'f scheduler \<Rightarrow> 'f scheduler" where
  "end_run i s = set_phase i Ended s"

inductive scheduler_step ::
  "(int \<Rightarrow> int \<Rightarrow> nat \<Rightarrow> int) \<Rightarrow> 'f scheduler \<Rightarrow> 'f scheduler \<Rightarrow> bool" for frac where
  step_register: "Register frac ctx schedule base s = (r, t) \<Longrightarrow> scheduler_step frac s t"
| step_publisher: "scheduler_step frac s (SetPublisher fn s)"
| step_stop: "scheduler_step frac s (StopScheduler s)"
| step_start: "i < length (sd_runs s) \<Longrightarrow> tk_Phase (sd_runs s ! i) = Starting \<Longrightarrow>
    start_run i s = Ok t \<Longrightarrow> scheduler_step frac s t"
| step_fire: "i < length (sd_runs s) \<Longrightarrow> tk_Phase (sd_runs s ! i) = Ticking \<Longrightarrow>
    scheduler_step frac s (fire_run uid now i s)"
| step_end: "i < length (sd_runs s) \<Longrightarrow> tk_Phase (sd_runs s ! i) = Ticking \<Longrightarrow>
    run_done ctxs (sd_runs s ! i) \<Longrightarrow> scheduler_step frac s (end_run i s)"

inductive_cases scheduler_stepE: "scheduler_step frac s t"

section \<open>The nested scheduler\<close>

record schedule_node =
  sk_ID :: string
  sk_OrganizationID :: string
  sk_ActorID :: string
  sk_ParentID :: string
  sk_Expression :: string
  sk_PromptInjection :: string
  sk_Layer :: int
  sk_Enabled :: bool
  sk_Metadata :: str_map
  sk_CreatedAt :: int
  sk_UpdatedAt :: int

record 'f nested_scheduler =
  ns_inner :: "'f scheduler"
  ns_nodes :: "(string, schedule_node) gomap"

definition NewNestedScheduler :: "'f nested_scheduler" where
  "NewNestedScheduler = \<lparr>ns_inner = NewScheduler, ns_nodes = []\<rparr>"

definition node_schedule :: "schedule_node \<Rightarrow> agent_schedule" where
  "node_schedule node =
     zero_agent_schedule\<lparr>as_ID := sk_ID node, as_ActorID := sk_ActorID node,
       as_Expression := sk_Expression node, as_Enabled := sk_Enabled node,
       as_DefaultSignalKind := SignalSchedule\<rparr>"

definition node_payload :: "schedule_node \<Rightarrow> str_map" where
  "node_payload node =
     [(''schedule_node_id'', sk_ID node), (''schedule_layer'', show_int (sk_Layer node))] @
     (if sk_PromptInjection node \<noteq> [] then [(''prompt_injection'', sk_PromptInjection node)] else []) @
     (if sk_ParentID node \<noteq> [] then [(''parent_node_id'', sk_ParentID node)] else [])"

definition node_signal :: "schedule_node \<Rightarrow> wake_signal" where
  "node_signal node =
     zero_wake_signal\<lparr>ws_OrganizationID := sk_OrganizationID node,
       ws_Channel := ActorChannel (sk_ActorID node), ws_Kind := SignalSchedule,
       ws_Payload := node_payload node\<rparr>"

text \<open>The node is stored before the inner scheduler sees it, under a lock of its own.\<close>

definition RegisterNode ::
  "(int \<Rightarrow> int \<Rightarrow> nat \<Rightarrow> int) \<Rightarrow> string \<Rightarrow> nat \<Rightarrow> schedule_node \<Rightarrow> 'f nested_scheduler \<Rightarrow>
   (string, unit) outcome \<times> 'f nested_scheduler" where
  "RegisterNode frac uid ctx node0 n =
     (let node = (if sk_ID node0 = [] then node0\<lparr>sk_ID := uid\<rparr> else node0) in
      if sk_ActorID node = [] then (Err ''schedule node: actor_id is required'', n)
      else case Register frac ctx (node_schedule node) (node_signal node) (ns_inner n) of
        (r, inner) \<Rightarrow>
          (r, n\<lparr>ns_nodes := map_put (sk_ID node) node (ns_nodes n), ns_inner := inner\<rparr>))"

definition Nodes :: "'f nested_scheduler \<Rightarrow> schedule_node list" where
  "Nodes n = map snd (ns_nodes n)"

definition StopNested :: "'f nested_scheduler \<Rightarrow> 'f nested_scheduler" where
  "StopNested n = n\<lparr>ns_inner := StopScheduler (ns_inner n)\<rparr>"

definition SetNestedPublisher :: "'f option \<Rightarrow> 'f nested_scheduler \<Rightarrow> 'f nested_scheduler" where
  "SetNestedPublisher fn n = n\<lparr>ns_inner := SetPublisher fn (ns_inner n)\<rparr>"

end
