(* ===== verification/Go_Fields.thy ===== *)
theory Go_Fields
  imports Go_Numbers
begin

text \<open>The fields of a text made of printable characters without spaces, and single spaces between.\<close>

definition plain_char :: "char \<Rightarrow> bool" where
  "plain_char c \<longleftrightarrow> 32 < (of_char c :: nat) \<and> (of_char c :: nat) < 127"

definition plain_field :: "string \<Rightarrow> bool" where
  "plain_field w \<longleftrightarrow> w \<noteq> [] \<and> list_all plain_char w"

lemma white_space_not_plain:
  "list_all (\<lambda>r. r \<noteq> [] \<and> \<not> plain_char (hd r)) white_space"
  "list_all (\<lambda>r. r \<noteq> [] \<and> \<not> plain_char (hd r)) (map rev white_space)"
  by code_simp+

lemma strip_plain:
  assumes "list_all (\<lambda>r. r \<noteq> [] \<and> \<not> plain_char (hd r)) rs" and "plain_char c"
  shows "strip_runes rs (c # s) = c # s"
proof -
  have "hd r = c" if "r \<noteq> []" "has_prefix (c # s) r" for r
    using that by (cases r) auto
  then have "find (\<lambda>r. r \<noteq> [] \<and> has_prefix (c # s) r) rs = None"
    using assms by (force simp: find_None_iff list_all_iff)
  then show ?thesis by (simp add: strip_runes.simps [of _ "c # s"])
qed

lemma trim_left_plain: "plain_char c \<Longrightarrow> trim_left_space (c # s) = c # s"
  unfolding trim_left_space_def by (rule strip_plain [OF white_space_not_plain(1)])

lemma trim_left_blank: "trim_left_space (CHR '' '' # s) = trim_left_space s"
  unfolding trim_left_space_def
  by (simp add: strip_runes.simps [of white_space "CHR '' '' # s"]) (simp add: white_space_def)

lemma trim_plain:
  assumes "s \<noteq> []" and "plain_char (hd s)" and "plain_char (last s)"
  shows "trim_space s = s"
proof -
  have "trim_left_space s = s" using assms(1,2) trim_left_plain by (cases s) auto
  moreover have "strip_runes (map rev white_space) (rev s) = rev s"
    using assms(1,3) strip_plain [OF white_space_not_plain(2)] by (cases s rule: rev_cases) auto
  ultimately show ?thesis by (simp add: trim_space_def trim_right_space_def)
qed

lemma not_at_space: "plain_char c \<Longrightarrow> \<not> at_space (c # s)"
proof
  assume c: "plain_char c" and "at_space (c # s)"
  then obtain r where r: "r \<in> set white_space" "has_prefix (c # s) r" by (auto simp: at_space_def)
  then have "r \<noteq> [] \<and> \<not> plain_char (hd r)" using white_space_not_plain(1) by (simp add: list_all_iff)
  then show False using c r(2) by (cases r) auto
qed

lemma until_space_plain:
  "list_all plain_char w \<Longrightarrow> until_space w = (w, [])"
  "list_all plain_char w \<Longrightarrow> until_space (w @ CHR '' '' # s) = (w, CHR '' '' # s)"
proof -
  show "list_all plain_char w \<Longrightarrow> until_space w = (w, [])"
    by (induction w) (simp_all add: not_at_space)
  have "at_space (CHR '' '' # s)" by (simp add: at_space_def white_space_def)
  then show "list_all plain_char w \<Longrightarrow> until_space (w @ CHR '' '' # s) = (w, CHR '' '' # s)"
    by (induction w) (simp_all add: not_at_space)
qed

lemma str_fields_plain: "plain_field w \<Longrightarrow> str_fields (w @ CHR '' '' # s) = w # str_fields s"
proof -
  assume w: "plain_field w"
  then obtain c cs where c: "w = c # cs" "plain_char c" by (cases w) (auto simp: plain_field_def)
  have "str_fields (CHR '' '' # s) = str_fields s"
    by (simp add: str_fields.simps [of "CHR '' '' # s"] str_fields.simps [of s] trim_left_blank)
  then show ?thesis
    using w c until_space_plain(2) [of w s]
    by (simp add: str_fields.simps [of "c # cs @ CHR '' '' # s"] trim_left_plain plain_field_def)
qed

lemma str_fields_join: "list_all plain_field ws \<Longrightarrow> str_fields (join '' '' ws) = ws"
proof (induction ws rule: induct_list012)
  case 1
  show ?case by (simp add: str_fields.simps trim_left_space_def strip_runes.simps white_space_def)
next
  case (2 w)
  then obtain c cs where "w = c # cs" "plain_char c" by (cases w) (auto simp: plain_field_def)
  then show ?case
    using 2 until_space_plain(1) [of w]
    by (simp add: str_fields.simps [of "c # cs"] trim_left_plain plain_field_def)
      (simp add: str_fields.simps trim_left_space_def strip_runes.simps white_space_def)
next
  case (3 w v ws)
  then show ?case using str_fields_plain [of w "join '' '' (v # ws)"] by simp
qed

end
