(* ===== verification/Scheduler_Properties.thy ===== *)
theory Scheduler_Properties
  imports Scheduler Go_Fields
begin

text \<open>What keeps the tickers and the schedules together, and when a ticker panics.\<close>

section \<open>The invariant\<close>

text \<open>
  A run that was not cancelled is the one that the cancel function of its schedule stands
  for, and it runs the stored schedule at the interval of its expression.
\<close>

definition run_ok :: "(int \<Rightarrow> int \<Rightarrow> nat \<Rightarrow> int) \<Rightarrow> ticker_run \<Rightarrow> bool" where
  "run_ok frac r \<longleftrightarrow> as_ID (tk_Schedule r) \<noteq> [] \<and> as_Enabled (tk_Schedule r) \<and>
     parseSchedule frac (as_Expression (tk_Schedule r)) = Ok (tk_Interval r) \<and>
     (tk_Phase r = Ticking \<longrightarrow> tk_Interval r > 0)"

definition cancels_ok :: "'f scheduler \<Rightarrow> bool" where
  "cancels_ok s \<longleftrightarrow> (\<forall>k i. map_of (sd_cancel s) k = Some i \<longleftrightarrow>
     i < length (sd_runs s) \<and> \<not> tk_Cancelled (sd_runs s ! i) \<and>
     as_ID (tk_Schedule (sd_runs s ! i)) = k)"

definition schedules_ok :: "'f scheduler \<Rightarrow> bool" where
  "schedules_ok s \<longleftrightarrow> (\<forall>k. map_of (sd_schedules s) k =
     map_option (\<lambda>i. tk_Schedule (sd_runs s ! i)) (map_of (sd_cancel s) k))"

definition scheduler_inv :: "(int \<Rightarrow> int \<Rightarrow> nat \<Rightarrow> int) \<Rightarrow> 'f scheduler \<Rightarrow> bool" where
  "scheduler_inv frac s \<longleftrightarrow>
     (\<forall>r \<in> set (sd_runs s). run_ok frac r) \<and> cancels_ok s \<and> schedules_ok s \<and>
     wf_map (sd_schedules s) \<and> wf_map (sd_cancel s)"

lemmas scheduler_defs = scheduler_inv_def cancels_ok_def schedules_ok_def

lemma NewScheduler_inv: "scheduler_inv frac NewScheduler"
  by (simp add: scheduler_defs NewScheduler_def wf_map_def)

lemma run_ok_cancelled [simp]: "run_ok frac (r\<lparr>tk_Cancelled := b\<rparr>) = run_ok frac r"
  by (simp add: run_ok_def)

lemma set_cancel_run:
  "i < length runs \<Longrightarrow> \<forall>r \<in> set runs. run_ok frac r \<Longrightarrow> \<forall>r \<in> set (cancel_run i runs). run_ok frac r"
  unfolding cancel_run_def by (auto dest!: set_update_subset_insert [THEN subsetD])

lemma length_cancel_run [simp]: "length (cancel_run i runs) = length runs"
  by (simp add: cancel_run_def)

lemma nth_cancel_run:
  "j < length runs \<Longrightarrow> cancel_run i runs ! j =
     (if j = i then (runs ! j)\<lparr>tk_Cancelled := True\<rparr> else runs ! j)"
  by (simp add: cancel_run_def nth_list_update)

lemma set_phase_inv:
  assumes "scheduler_inv frac s" and "i < length (sd_runs s)"
    and "p = Ticking \<Longrightarrow> tk_Interval (sd_runs s ! i) > 0"
  shows "scheduler_inv frac (set_phase i p s)"
proof -
  let ?r = "(sd_runs s ! i)\<lparr>tk_Phase := p\<rparr>" and ?runs = "sd_runs (set_phase i p s)"
  have nth: "j < length (sd_runs s) \<Longrightarrow>
      tk_Schedule (?runs ! j) = tk_Schedule (sd_runs s ! j) \<and>
      tk_Cancelled (?runs ! j) = tk_Cancelled (sd_runs s ! j)" for j
    using assms(2) by (simp add: set_phase_def nth_list_update)
  have len: "length ?runs = length (sd_runs s)" and same: "sd_cancel (set_phase i p s) = sd_cancel s"
    "sd_schedules (set_phase i p s) = sd_schedules s"
    by (simp_all add: set_phase_def)
  have "run_ok frac ?r"
    using assms nth_mem [OF assms(2)] unfolding scheduler_inv_def run_ok_def by simp
  then have runs: "\<forall>r \<in> set ?runs. run_ok frac r"
    using assms(1) unfolding scheduler_inv_def set_phase_def
    by (auto dest!: set_update_subset_insert [THEN subsetD])
  have cancels: "cancels_ok (set_phase i p s)"
    using assms(1) by (simp add: scheduler_inv_def cancels_ok_def same len nth cong: conj_cong)
  have "map_option (\<lambda>i. tk_Schedule (?runs ! i)) (map_of (sd_cancel s) k) =
      map_option (\<lambda>i. tk_Schedule (sd_runs s ! i)) (map_of (sd_cancel s) k)" for k
  proof (cases "map_of (sd_cancel s) k")
    case (Some j)
    then have "j < length (sd_runs s)" using assms(1) unfolding scheduler_inv_def cancels_ok_def by blast
    then show ?thesis using Some nth by simp
  qed simp
  then have "schedules_ok (set_phase i p s)"
    using assms(1) unfolding scheduler_inv_def schedules_ok_def same by simp
  then show ?thesis
    using assms(1) runs cancels unfolding scheduler_inv_def same by blast
qed

text \<open>Cancelling and forgetting every run of the cancel map.\<close>

lemma fold_cancel:
  "length (fold cancel_run is runs) = length runs \<and>
   (j < length runs \<longrightarrow> fold cancel_run is runs ! j =
      (if j \<in> set is then (runs ! j)\<lparr>tk_Cancelled := True\<rparr> else runs ! j))"
proof (induction "is" arbitrary: runs)
  case (Cons i "is")
  then show ?case using nth_cancel_run [of j runs i] by auto
qed simp

lemma StopScheduler_inv:
  assumes "scheduler_inv frac s"
  shows "scheduler_inv frac (StopScheduler s)" and "r \<in> set (sd_runs (StopScheduler s)) \<Longrightarrow> tk_Cancelled r"
proof -
  let ?runs = "fold cancel_run (map snd (sd_cancel s)) (sd_runs s)"
  have wf: "wf_map (sd_cancel s)" using assms by (simp add: scheduler_inv_def)
  have each: "tk_Cancelled (?runs ! j) \<and> run_ok frac (?runs ! j)" if j: "j < length (sd_runs s)" for j
  proof (cases "tk_Cancelled (sd_runs s ! j)")
    case False
    then have "map_of (sd_cancel s) (as_ID (tk_Schedule (sd_runs s ! j))) = Some j"
      using assms j unfolding scheduler_inv_def cancels_ok_def by blast
    then have "j \<in> set (map snd (sd_cancel s))" by (force dest: map_of_SomeD)
    then show ?thesis
      using assms j fold_cancel [of "map snd (sd_cancel s)" "sd_runs s" j]
      by (simp add: scheduler_inv_def)
  next
    case True
    then show ?thesis
      using assms j fold_cancel [of "map snd (sd_cancel s)" "sd_runs s" j]
      by (auto simp: scheduler_inv_def)
  qed
  then have all: "\<forall>r \<in> set ?runs. tk_Cancelled r \<and> run_ok frac r"
    using fold_cancel [of "map snd (sd_cancel s)" "sd_runs s"] by (auto simp: in_set_conv_nth)
  show "scheduler_inv frac (StopScheduler s)"
    using all unfolding scheduler_defs StopScheduler_def by (auto simp: wf_map_def)
  show "r \<in> set (sd_runs (StopScheduler s)) \<Longrightarrow> tk_Cancelled r"
    using all by (simp add: StopScheduler_def)
qed

text \<open>Registering an enabled schedule: the run it replaces is cancelled, a new one is appended.\<close>

lemma Register_Ok:
  assumes "Register frac ctx schedule base s = (Ok u, t)" and "as_Enabled schedule"
  obtains interval runs where "as_ID schedule \<noteq> []"
    and "parseSchedule frac (as_Expression schedule) = Ok interval"
    and "runs = (case map_of (sd_cancel s) (as_ID schedule) of
           Some i \<Rightarrow> cancel_run i (sd_runs s) | None \<Rightarrow> sd_runs s)"
    and "t = s\<lparr>sd_cancel := map_put (as_ID schedule) (length runs) (sd_cancel s),
           sd_schedules := map_put (as_ID schedule) schedule (sd_schedules s),
           sd_runs := runs @ [\<lparr>tk_Schedule = schedule, tk_Base = base, tk_Interval = interval,
             tk_Parent = ctx, tk_Cancelled = False, tk_Phase = Starting\<rparr>]\<rparr>"
  using assms by (auto simp: Register_def Let_def split: if_splits outcome.splits)

lemma Register_unchanged:
  assumes "Register frac ctx schedule base s = (r, t)" and "\<not> as_Enabled schedule \<or> \<not> is_ok r"
  shows "t = s"
  using assms by (auto simp: Register_def Let_def split: if_splits outcome.splits)

lemma Register_inv:
  assumes inv: "scheduler_inv frac s" and reg: "Register frac ctx schedule base s = (r, t)"
  shows "scheduler_inv frac t"
proof (cases "as_Enabled schedule \<and> is_ok r")
  case False
  then show ?thesis using Register_unchanged [OF reg] inv by blast
next
  case True
  then obtain u where "r = Ok u" by (auto simp: is_ok_iff)
  with reg True obtain interval runs where new: "as_ID schedule \<noteq> []"
    and interval: "parseSchedule frac (as_Expression schedule) = Ok interval"
    and runs: "runs = (case map_of (sd_cancel s) (as_ID schedule) of
           Some i \<Rightarrow> cancel_run i (sd_runs s) | None \<Rightarrow> sd_runs s)"
    and t: "t = s\<lparr>sd_cancel := map_put (as_ID schedule) (length runs) (sd_cancel s),
           sd_schedules := map_put (as_ID schedule) schedule (sd_schedules s),
           sd_runs := runs @ [\<lparr>tk_Schedule = schedule, tk_Base = base, tk_Interval = interval,
             tk_Parent = ctx, tk_Cancelled = False, tk_Phase = Starting\<rparr>]\<rparr>"
    by (blast elim: Register_Ok)
  let ?k = "as_ID schedule" and ?old = "sd_runs s" and ?n = "length (sd_runs s)"
  have cancels: "map_of (sd_cancel s) k = Some i \<longleftrightarrow>
      i < ?n \<and> \<not> tk_Cancelled (?old ! i) \<and> as_ID (tk_Schedule (?old ! i)) = k" for k i
    using inv by (simp add: scheduler_inv_def cancels_ok_def)
  have len: "length runs = ?n" by (simp add: runs split: option.split)
  have nth: "i < ?n \<Longrightarrow> runs ! i =
      (if map_of (sd_cancel s) ?k = Some i then (?old ! i)\<lparr>tk_Cancelled := True\<rparr> else ?old ! i)" for i
    by (auto simp: runs nth_cancel_run split: option.split)
  have "\<forall>r \<in> set runs. run_ok frac r"
    using inv set_cancel_run [of _ ?old frac] cancels by (auto simp: runs scheduler_inv_def split: option.split)
  then have ok: "\<forall>r \<in> set (sd_runs t). run_ok frac r"
    using new interval True by (simp add: t run_ok_def)
  have "map_of (sd_cancel t) k = Some i \<longleftrightarrow> i < length (sd_runs t) \<and>
      \<not> tk_Cancelled (sd_runs t ! i) \<and> as_ID (tk_Schedule (sd_runs t ! i)) = k" for k i
  proof (cases "i < ?n")
    case True
    then show ?thesis
      using cancels [of k i] cancels [of ?k i] by (auto simp: t map_simps len nth_append nth)
  next
    case False
    then show ?thesis
      using cancels [of k i] by (auto simp: t map_simps len nth_append)
  qed
  then have c: "cancels_ok t" by (simp only: cancels_ok_def simp_thms)
  have "map_of (sd_schedules t) k =
      map_option (\<lambda>i. tk_Schedule (sd_runs t ! i)) (map_of (sd_cancel t) k)" for k
  proof (cases "map_of (sd_cancel s) k")
    case (Some i)
    then have "i < ?n" using cancels by blast
    then show ?thesis
      using inv Some by (simp add: t map_simps len nth_append nth scheduler_inv_def schedules_ok_def)
  qed (use inv in \<open>simp add: t map_simps len nth_append scheduler_inv_def schedules_ok_def\<close>)
  then have "schedules_ok t" by (simp add: schedules_ok_def)
  with ok c show ?thesis
    using inv by (simp add: scheduler_inv_def t wf_map_put)
qed

lemma scheduler_inv_publish [simp]: "scheduler_inv frac (s\<lparr>sd_publish := p\<rparr>) = scheduler_inv frac s"
  by (simp add: scheduler_defs)

lemma scheduler_inv_sent [simp]: "scheduler_inv frac (s\<lparr>sd_sent := x\<rparr>) = scheduler_inv frac s"
  by (simp add: scheduler_defs)

text \<open>Every signal sent so far is one of an enabled schedule with a positive interval.\<close>

definition sent_ok :: "(int \<Rightarrow> int \<Rightarrow> nat \<Rightarrow> int) \<Rightarrow> 'f publisher \<times> agent_schedule \<times> wake_signal \<Rightarrow> bool" where
  "sent_ok frac x = (case x of (p, schedule, signal) \<Rightarrow>
     as_Enabled schedule \<and> ws_ActorID signal = as_ActorID schedule \<and>
     ws_Kind signal = as_DefaultSignalKind schedule \<and> ws_Channel signal \<noteq> [] \<and>
     (case parseSchedule frac (as_Expression schedule) of Ok i \<Rightarrow> i > 0 | _ \<Rightarrow> False))"

lemma sent_unchanged:
  "sd_sent (set_phase i p s) = sd_sent s" "sd_sent (SetPublisher fn s) = sd_sent s"
  "sd_sent (StopScheduler s) = sd_sent s"
  by (simp_all add: set_phase_def SetPublisher_def StopScheduler_def)

lemma Register_sent: "Register frac ctx schedule base s = (r, t) \<Longrightarrow> sd_sent t = sd_sent s"
  by (auto simp: Register_def Let_def split: if_splits outcome.splits)

lemma fire_sent_ok:
  assumes "scheduler_inv frac s" and "i < length (sd_runs s)" and "tk_Phase (sd_runs s ! i) = Ticking"
  shows "sent_ok frac (sd_publish s, tk_Schedule (sd_runs s ! i),
           tick_signal uid now (tk_Schedule (sd_runs s ! i)) (tk_Base (sd_runs s ! i)))"
proof -
  have "run_ok frac (sd_runs s ! i)"
    using assms(1,2) by (simp add: scheduler_inv_def)
  then show ?thesis
    using assms(3) by (simp add: run_ok_def sent_ok_def tick_signal_def ActorChannel_def)
qed

definition runs_and_signals_ok :: "(int \<Rightarrow> int \<Rightarrow> nat \<Rightarrow> int) \<Rightarrow> 'f scheduler \<Rightarrow> bool" where
  "runs_and_signals_ok frac s \<longleftrightarrow> scheduler_inv frac s \<and> list_all (sent_ok frac) (sd_sent s)"

lemma scheduler_step_inv:
  assumes "scheduler_step frac s t" and "runs_and_signals_ok frac s"
  shows "runs_and_signals_ok frac t"
proof -
  have inv: "scheduler_inv frac s" and sent: "list_all (sent_ok frac) (sd_sent s)"
    using assms(2) by (simp_all add: runs_and_signals_ok_def)
  from assms(1) have "scheduler_inv frac t \<and> list_all (sent_ok frac) (sd_sent t)"
  proof (cases rule: scheduler_step.cases)
    case (step_register ctx schedule base r)
    then show ?thesis using Register_inv [OF inv] Register_sent sent by force
  next
    case (step_publisher fn)
    then show ?thesis using inv sent by (simp add: SetPublisher_def)
  next
    case step_stop
    then show ?thesis using StopScheduler_inv(1) [OF inv] sent by (simp add: sent_unchanged)
  next
    case (step_start i)
    then show ?thesis
      using set_phase_inv [OF inv, of i Ticking] sent
      by (auto simp: start_run_def sent_unchanged split: if_splits)
  next
    case (step_fire i uid now)
    then show ?thesis
      using inv sent fire_sent_ok [OF inv] by (simp add: fire_run_def Let_def)
  next
    case (step_end i ctxs)
    then show ?thesis
      using set_phase_inv [OF inv, of i Ended] sent by (simp add: end_run_def sent_unchanged)
  qed
  then show ?thesis by (simp add: runs_and_signals_ok_def)
qed

lemma NewScheduler_ok: "s = NewScheduler \<Longrightarrow> runs_and_signals_ok frac s"
  using NewScheduler_inv [of frac] by (simp add: runs_and_signals_ok_def NewScheduler_def)

interpretation scheduler_system: invariant_system
  "\<lambda>s. s = NewScheduler" "scheduler_step frac" "runs_and_signals_ok frac" for frac
  by unfold_locales (fact NewScheduler_ok, rule scheduler_step_inv)

definition live_runs :: "'f scheduler \<Rightarrow> ticker_run list" where
  "live_runs s = filter (\<lambda>r. \<not> tk_Cancelled r) (sd_runs s)"

lemma distinct_map_filter:
  assumes "\<And>i j. i < length xs \<Longrightarrow> j < length xs \<Longrightarrow> P (xs ! i) \<Longrightarrow> P (xs ! j) \<Longrightarrow>
    f (xs ! i) = f (xs ! j) \<Longrightarrow> i = j"
  shows "distinct (map f (filter P xs))"
proof -
  have "map f (filter P xs) = map (\<lambda>i. f (xs ! i)) (filter (\<lambda>i. P (xs ! i)) [0..<length xs])"
    by (subst (1) map_nth [symmetric, of xs]) (simp add: filter_map o_def)
  then show ?thesis using assms by (auto simp: distinct_map inj_on_def)
qed

lemma live_runs_inv:
  assumes inv: "scheduler_inv frac s"
  shows "distinct (map (\<lambda>r. as_ID (tk_Schedule r)) (live_runs s))"
    and "set (map tk_Schedule (live_runs s)) = set (Schedules s)"
proof -
  have cancels: "map_of (sd_cancel s) k = Some i \<longleftrightarrow> i < length (sd_runs s) \<and>
      \<not> tk_Cancelled (sd_runs s ! i) \<and> as_ID (tk_Schedule (sd_runs s ! i)) = k" for k i
    using inv by (simp add: scheduler_inv_def cancels_ok_def)
  show "distinct (map (\<lambda>r. as_ID (tk_Schedule r)) (live_runs s))"
    unfolding live_runs_def
  proof (rule distinct_map_filter)
    fix i j
    assume "i < length (sd_runs s)" "j < length (sd_runs s)" "\<not> tk_Cancelled (sd_runs s ! i)"
      "\<not> tk_Cancelled (sd_runs s ! j)"
      "as_ID (tk_Schedule (sd_runs s ! i)) = as_ID (tk_Schedule (sd_runs s ! j))"
    then show "i = j" using cancels by (metis option.inject)
  qed
  have wf: "distinct (map fst (sd_schedules s))" using inv by (simp add: scheduler_inv_def wf_map_def)
  have get: "map_of (sd_schedules s) k =
      map_option (\<lambda>i. tk_Schedule (sd_runs s ! i)) (map_of (sd_cancel s) k)" for k
    using inv by (simp add: scheduler_inv_def schedules_ok_def)
  show "set (map tk_Schedule (live_runs s)) = set (Schedules s)"
  proof (intro set_eqI iffI)
    fix x assume "x \<in> set (map tk_Schedule (live_runs s))"
    then obtain i where "i < length (sd_runs s)" "\<not> tk_Cancelled (sd_runs s ! i)"
      and x: "x = tk_Schedule (sd_runs s ! i)"
      by (auto simp: live_runs_def in_set_conv_nth)
    then have "map_of (sd_cancel s) (as_ID x) = Some i" using cancels by blast
    then have "map_of (sd_schedules s) (as_ID x) = Some x" by (simp add: get x)
    then show "x \<in> set (Schedules s)" by (force simp: Schedules_def dest: map_of_SomeD)
  next
    fix x assume "x \<in> set (Schedules s)"
    then obtain k where "map_of (sd_schedules s) k = Some x"
      using wf by (auto simp: Schedules_def)
    then obtain i where "map_of (sd_cancel s) k = Some i" "x = tk_Schedule (sd_runs s ! i)"
      by (auto simp: get)
    then show "x \<in> set (map tk_Schedule (live_runs s))"
      using cancels by (auto simp: live_runs_def)
  qed
qed

section \<open>Expressions in five fields\<close>

lemma plain_show_nat: "list_all plain_char (show_nat n)"
proof -
  have "plain_char c" if "c \<in> set (show_nat n)" for c
    using show_nat_digits [OF that] by (auto simp: digit_val_def plain_char_def Let_def split: if_splits)
  then show ?thesis by (simp add: list_all_iff)
qed

lemma parse_minutes:
  assumes "0 < n" and "int n < 2 ^ 63" and "list_all plain_field [a, b, c, d]"
  shows "parseSchedule frac (join '' '' [''*/'' @ show_nat n, a, b, c, d]) =
    Ok (wrap64 (int n * 60000000000))"
proof -
  let ?ws = "[''*/'' @ show_nat n, a, b, c, d]"
  have first: "plain_field (''*/'' @ show_nat n)"
    using plain_show_nat [of n] by (simp add: plain_field_def plain_char_def)
  have "plain_char (last d)" and "d \<noteq> []"
    using assms(3) by (auto simp: plain_field_def list_all_iff)
  then have "trim_space (join '' '' ?ws) = join '' '' ?ws"
    by (intro trim_plain) (simp_all add: plain_char_def)
  moreover have "str_fields (join '' '' ?ws) = ?ws"
    by (rule str_fields_join) (use first assms(3) in simp)
  ultimately show ?thesis
    using assms(1) atoi_show_nat [OF assms(2)] by (simp add: parseSchedule_def Let_def)
qed

section \<open>The properties\<close>

text \<open>
  Property C17. Whatever is registered, replaced, stopped, fired and ended in whatever order,
  there is at most one ticker per schedule that was not cancelled, these tickers run exactly
  the stored schedules, and every signal sent so far names the actor, the kind and a channel
  of an enabled schedule whose interval is positive; stopping cancels every ticker.
\<close>

theorem one_ticker_per_schedule:
  assumes "reach (\<lambda>s. s = NewScheduler) (scheduler_step frac) s"
  shows "distinct (map (\<lambda>r. as_ID (tk_Schedule r)) (live_runs s)) \<and>
    set (map tk_Schedule (live_runs s)) = set (Schedules s) \<and>
    list_all (sent_ok frac) (sd_sent s) \<and>
    live_runs (StopScheduler s) = [] \<and> Schedules (StopScheduler s) = []"
proof -
  have "runs_and_signals_ok frac s"
    by (rule scheduler_system.reachable_inv [OF assms])
  then have inv: "scheduler_inv frac s" and sent: "list_all (sent_ok frac) (sd_sent s)"
    by (simp_all add: runs_and_signals_ok_def)
  have "live_runs (StopScheduler s) = []"
    using StopScheduler_inv(2) [OF inv] by (simp add: live_runs_def filter_empty_conv)
  moreover have "Schedules (StopScheduler s) = []"
    by (simp add: Schedules_def StopScheduler_def)
  ultimately show ?thesis using live_runs_inv [OF inv] sent by blast
qed

text \<open>The product of a fraction and a unit, without rounding: the instance the witnesses use.\<close>

definition exact_frac :: "int \<Rightarrow> int \<Rightarrow> nat \<Rightarrow> int" where
  "exact_frac f unit k = f * unit div 10 ^ k"

definition minute_schedule :: "string \<Rightarrow> agent_schedule" where
  "minute_schedule i = zero_agent_schedule\<lparr>as_ID := i, as_ActorID := ''lead'', as_Enabled := True,
     as_Expression := ''@hourly'', as_DefaultSignalKind := ''tick''\<rparr>"

lemma parse_hourly: "parseSchedule frac ''@hourly'' = Ok 3600000000000"
proof -
  have "trim_space ''@hourly'' = ''@hourly''" by (rule trim_plain) (simp_all add: plain_char_def)
  then show ?thesis by (simp add: parseSchedule_def)
qed

theorem one_ticker_per_schedule_witness:
  "length (live_runs (snd (Register exact_frac 0 (minute_schedule ''s'') zero_wake_signal
     (snd (Register exact_frac 0 (minute_schedule ''s'') zero_wake_signal (NewScheduler :: unit scheduler)))))) = 1 \<and>
   live_runs (StopScheduler (snd (Register exact_frac 0 (minute_schedule ''s'') zero_wake_signal
     (snd (Register exact_frac 0 (minute_schedule ''s'') zero_wake_signal (NewScheduler :: unit scheduler)))))) = []"
proof -
  let ?reg = "\<lambda>s. snd (Register exact_frac 0 (minute_schedule ''s'') zero_wake_signal s)"
  let ?s = "?reg (?reg (NewScheduler :: unit scheduler))"
  have step: "scheduler_step exact_frac s (?reg s)" for s :: "unit scheduler"
    by (rule step_register) (rule surjective_pairing)
  have "reach (\<lambda>s. s = NewScheduler) (scheduler_step exact_frac) (NewScheduler :: unit scheduler)"
    by (rule reach_init) simp
  then have "reach (\<lambda>s. s = NewScheduler) (scheduler_step exact_frac) (?reg (NewScheduler :: unit scheduler))"
    by (rule reach_step) (rule step)
  then have "reach (\<lambda>s. s = NewScheduler) (scheduler_step exact_frac) ?s"
    by (rule reach_step) (rule step)
  from one_ticker_per_schedule [OF this] have "live_runs (StopScheduler ?s) = []" by blast
  moreover have "length (live_runs ?s) = 1"
    by (simp add: Register_def minute_schedule_def zero_agent_schedule_def NewScheduler_def
        parse_hourly live_runs_def cancel_run_def)
  ultimately show ?thesis by blast
qed

text \<open>
  A five-field expression that starts with \<open>*/n\<close> means every \<open>n\<close> minutes,
  whatever the other four fields say, as long as \<open>n\<close> is at most 153722867; from there to
  307445734 the number of nanoseconds wraps around 64 bits, registering still succeeds, and the
  goroutine then panics when it creates its ticker.
\<close>

theorem minute_schedule_bounds:
  assumes "0 < n" and "n \<le> 307445734" and "list_all plain_field [a, b, c, d]"
    and "as_Expression schedule = join '' '' [''*/'' @ show_nat n, a, b, c, d]"
    and "as_ID schedule \<noteq> []" and "as_Enabled schedule"
    and "Register frac ctx schedule base s = (r, t)"
  shows "r = Ok () \<and>
    (is_panic (start_run (length (sd_runs s)) t) \<longleftrightarrow> 153722867 < n) \<and>
    (n \<le> 153722867 \<longrightarrow> tk_Interval (sd_runs t ! length (sd_runs s)) = int n * 60000000000)"
proof -
  have parse: "parseSchedule frac (as_Expression schedule) = Ok (wrap64 (int n * 60000000000))"
    unfolding assms(4) by (rule parse_minutes) (use assms(1-3) in auto)
  have len: "length (case map_of (sd_cancel s) (as_ID schedule) of
      Some i \<Rightarrow> cancel_run i (sd_runs s) | None \<Rightarrow> sd_runs s) = length (sd_runs s)"
    by (simp split: option.split)
  have r: "r = Ok ()" and run: "tk_Interval (sd_runs t ! length (sd_runs s)) = wrap64 (int n * 60000000000)"
    using assms(5-7) len by (auto simp: Register_def parse Let_def nth_append)
  have "n \<le> 153722867 \<Longrightarrow> wrap64 (int n * 60000000000) = int n * 60000000000"
    by (simp add: wrap64_def mod_pos_pos_trivial)
  moreover have "153722867 < n \<Longrightarrow> wrap64 (int n * 60000000000) \<le> 0"
  proof -
    assume n: "153722867 < n"
    have "(int n * 60000000000 + 2 ^ 63) mod 2 ^ 64 = (int n * 60000000000 + 2 ^ 63 - 2 ^ 64) mod 2 ^ 64"
      by (metis diff_add_cancel mod_add_self2)
    also have "\<dots> = int n * 60000000000 + 2 ^ 63 - 2 ^ 64"
      by (rule mod_pos_pos_trivial) (use n assms(2) in simp_all)
    finally show ?thesis using assms(2) by (simp add: wrap64_def)
  qed
  ultimately show ?thesis
    using r run assms(1) by (cases "n \<le> 153722867") (auto simp: start_run_def is_panic_iff)
qed

definition monthly :: agent_schedule where
  "monthly = zero_agent_schedule\<lparr>as_ID := ''s'', as_ActorID := ''lead'', as_Enabled := True,
     as_Expression := ''*/153722868 9 1 * *'', as_DefaultSignalKind := ''tick''\<rparr>"

theorem minute_schedule_bounds_witness:
  "is_panic (start_run 0 (snd (Register exact_frac 0 monthly zero_wake_signal (NewScheduler :: unit scheduler))))"
proof -
  have "as_Expression monthly = join '' '' [''*/'' @ show_nat 153722868, ''9'', ''1'', ''*'', ''*'']"
    by (simp add: monthly_def show_nat.simps) code_simp
  moreover have "as_ID monthly \<noteq> []" "as_Enabled monthly"
    by (simp_all add: monthly_def)
  moreover have "list_all plain_field [''9'', ''1'', ''*'', ''*'']"
    by (simp add: plain_field_def plain_char_def)
  ultimately show ?thesis
    using minute_schedule_bounds [of 153722868 "''9''" "''1''" "''*''" "''*''" monthly exact_frac 0
        zero_wake_signal "NewScheduler :: unit scheduler"]
    by (simp add: NewScheduler_def prod_eq_iff)
qed

text \<open>
  Disabling does not disable: after an enabled node was registered, registering
  it once more as disabled succeeds, shows it as disabled among the nodes, and leaves its
  ticker live, which still fires.
\<close>

theorem disabled_node_keeps_ticking:
  assumes "RegisterNode frac uid ctx node n = (Ok u, n1)" and "sk_ID node \<noteq> []" and "sk_Enabled node"
    and "RegisterNode frac uid' ctx' (node\<lparr>sk_Enabled := False\<rparr>) n1 = (r, n2)"
  shows "r = Ok () \<and> map_of (ns_nodes n2) (sk_ID node) = Some (node\<lparr>sk_Enabled := False\<rparr>) \<and>
    (\<exists>run \<in> set (live_runs (ns_inner n2)). tk_Schedule run = node_schedule node \<and>
       tk_Phase run = Starting) \<and>
    sd_schedules (ns_inner n2) = sd_schedules (ns_inner n1)"
proof -
  have actor: "sk_ActorID node \<noteq> []"
    using assms(1,2) by (auto simp: RegisterNode_def Let_def split: if_splits)
  obtain inner where reg: "Register frac ctx (node_schedule node) (node_signal node) (ns_inner n) = (Ok u, inner)"
    and n1: "ns_inner n1 = inner"
    using assms(1,2) actor by (auto simp: RegisterNode_def Let_def split: prod.splits)
  have "as_Enabled (node_schedule node)" using assms(3) by (simp add: node_schedule_def)
  with reg obtain runs interval where "inner = (ns_inner n)\<lparr>
      sd_cancel := map_put (as_ID (node_schedule node)) (length runs) (sd_cancel (ns_inner n)),
      sd_schedules := map_put (as_ID (node_schedule node)) (node_schedule node) (sd_schedules (ns_inner n)),
      sd_runs := runs @ [\<lparr>tk_Schedule = node_schedule node, tk_Base = node_signal node,
        tk_Interval = interval, tk_Parent = ctx, tk_Cancelled = False, tk_Phase = Starting\<rparr>]\<rparr>"
    by (blast elim: Register_Ok)
  then have live: "\<exists>run \<in> set (live_runs inner). tk_Schedule run = node_schedule node \<and> tk_Phase run = Starting"
    by (simp add: live_runs_def)
  have "r = Ok () \<and> n2 = n1\<lparr>ns_nodes := map_put (sk_ID node) (node\<lparr>sk_Enabled := False\<rparr>) (ns_nodes n1)\<rparr>"
    using assms(2,4) actor by (auto simp: RegisterNode_def Register_def node_schedule_def)
  then show ?thesis using live by (simp add: n1 map_simps)
qed

definition hourly_node :: schedule_node where
  "hourly_node =
     \<lparr>sk_ID = ''n1'', sk_OrganizationID = ''o1'', sk_ActorID = ''lead'', sk_ParentID = [],
      sk_Expression = ''@hourly'', sk_PromptInjection = [], sk_Layer = 0, sk_Enabled = True,
      sk_Metadata = [], sk_CreatedAt = 0, sk_UpdatedAt = 0\<rparr>"

theorem disabled_node_keeps_ticking_witness:
  "length (Schedules (ns_inner (snd (RegisterNode exact_frac ''u'' 0 (hourly_node\<lparr>sk_Enabled := False\<rparr>)
     (snd (RegisterNode exact_frac ''u'' 0 hourly_node (NewNestedScheduler :: unit nested_scheduler))))))) = 1"
proof -
  let ?n1 = "RegisterNode exact_frac ''u'' 0 hourly_node (NewNestedScheduler :: unit nested_scheduler)"
  have n1: "?n1 = (Ok (), snd ?n1)"
    by (simp add: RegisterNode_def Register_def hourly_node_def node_schedule_def
        zero_agent_schedule_def parse_hourly Let_def split_beta)
  have "length (Schedules (ns_inner (snd ?n1))) = 1"
    by (simp add: RegisterNode_def Register_def hourly_node_def node_schedule_def Schedules_def
        zero_agent_schedule_def parse_hourly NewNestedScheduler_def NewScheduler_def Let_def)
  moreover have "sk_ID hourly_node \<noteq> []" "sk_Enabled hourly_node"
    by (simp_all add: hourly_node_def)
  ultimately show ?thesis
    using disabled_node_keeps_ticking [OF n1 _ _ surjective_pairing] by (simp add: Schedules_def)
qed

end
