(* ===== verification/Permissions.thy ===== *)
theory Permissions
  imports Go_Strings
begin

text \<open>
  The permission service, \<open>internal/permission/permission.go\<close>: tools ask before they act, and
  wait for the answer of the user interface. A call of \<open>Request\<close> that has to wait and a call
  of \<open>Grant\<close>, \<open>GrantPersistant\<close> or \<open>Deny\<close> that has loaded a channel are threads with steps of
  their own; a channel holds one answer, and sending to a full one blocks. The logs
  \<open>pv_answers\<close> and \<open>pv_results\<close> and the field \<open>pc_For\<close> record what happened and are read by no
  step. The lists of the service are read and written without a lock; a step is one such access.
\<close>

section \<open>Directories\<close>

text \<open>\<open>filepath.Clean\<close> and \<open>filepath.Dir\<close> on a system with slashes.\<close>

fun clean_step :: "bool \<Rightarrow> string list \<Rightarrow> string \<Rightarrow> string list" where
  "clean_step rooted acc w =
     (if w = [] \<or> w = ''.'' then acc
      else if w = ''..''
      then (case acc of
              [] \<Rightarrow> if rooted then [] else [''..'']
            | v # vs \<Rightarrow> if v = ''..'' then ''..'' # acc else vs)
      else w # acc)"

definition clean_path :: "string \<Rightarrow> string" where
  "clean_path p =
     (let rooted = has_prefix p ''/'';
          s = join ''/'' (rev (fold (\<lambda>w acc. clean_step rooted acc w) (split_on CHR ''/'' p) []))
      in if rooted then CHR ''/'' # s else if s = [] then ''.'' else s)"

definition path_dir :: "string \<Rightarrow> string" where
  "path_dir p = clean_path (rev (dropWhile (\<lambda>c. c \<noteq> CHR ''/'') (rev p)))"

section \<open>Requests\<close>

record create_request =
  rq_SessionID :: string
  rq_ToolName :: string
  rq_Description :: string
  rq_Action :: string
  rq_Params :: string
  rq_Path :: string

record permission_request =
  pr_ID :: string
  pr_SessionID :: string
  pr_ToolName :: string
  pr_Description :: string
  pr_Action :: string
  pr_Params :: string
  pr_Path :: string

datatype answer = Grant | GrantPersistant | Deny

definition answer_value :: "answer \<Rightarrow> bool" where
  "answer_value k \<longleftrightarrow> k \<noteq> Deny"

record permission_chan =
  pc_For :: string
  pc_Buffer :: "bool option"

record waiting_request =
  wr_Request :: create_request
  wr_ID :: string
  wr_Chan :: nat

text \<open>A call of the user interface after \<open>Load\<close>: the channel it found, if any.\<close>

record answer_call =
  an_Answer :: answer
  an_Permission :: permission_request
  an_Chan :: "nat option"

record permission_service =
  pv_sessionPermissions :: "permission_request list"
  pv_pending :: "(string, nat) gomap"
  pv_autoApprove :: "string list"
  pv_chans :: "permission_chan list"
  pv_waiting :: "waiting_request list"
  pv_calls :: "answer_call list"
  pv_published :: "permission_request list"
  pv_ids :: "string list"
  pv_answers :: "(answer \<times> permission_request) list"
  pv_results :: "(create_request \<times> string \<times> bool) list"

definition NewPermissionService :: permission_service where
  "NewPermissionService =
     \<lparr>pv_sessionPermissions = [], pv_pending = [], pv_autoApprove = [], pv_chans = [],
      pv_waiting = [], pv_calls = [], pv_published = [], pv_ids = [], pv_answers = [],
      pv_results = []\<rparr>"

definition AutoApproveSession :: "string \<Rightarrow> permission_service \<Rightarrow> permission_service" where
  "AutoApproveSession sessionID s = s\<lparr>pv_autoApprove := pv_autoApprove s @ [sessionID]\<rparr>"

definition request_dir :: "string \<Rightarrow> create_request \<Rightarrow> string" where
  "request_dir workingDir opts =
     (let dir = path_dir (rq_Path opts) in if dir = ''.'' then workingDir else dir)"

definition new_request :: "string \<Rightarrow> string \<Rightarrow> create_request \<Rightarrow> permission_request" where
  "new_request workingDir uid opts =
     \<lparr>pr_ID = uid, pr_SessionID = rq_SessionID opts, pr_ToolName = rq_ToolName opts,
      pr_Description = rq_Description opts, pr_Action = rq_Action opts,
      pr_Params = rq_Params opts, pr_Path = request_dir workingDir opts\<rparr>"

definition same_permission :: "permission_request \<Rightarrow> permission_request \<Rightarrow> bool" where
  "same_permission p q \<longleftrightarrow> pr_ToolName p = pr_ToolName q \<and> pr_Action p = pr_Action q \<and>
     pr_SessionID p = pr_SessionID q \<and> pr_Path p = pr_Path q"

text \<open>\<open>Request\<close> up to its answer, or up to the receive on its channel.\<close>

definition begin_request ::
  "string \<Rightarrow> string \<Rightarrow> create_request \<Rightarrow> permission_service \<Rightarrow> permission_service" where
  "begin_request workingDir uid opts s =
     (let permission = new_request workingDir uid opts in
      if rq_SessionID opts \<in> set (pv_autoApprove s)
      then s\<lparr>pv_results := pv_results s @ [(opts, [], True)]\<rparr>
      else if \<exists>p \<in> set (pv_sessionPermissions s). same_permission p permission
      then s\<lparr>pv_results := pv_results s @ [(opts, [], True)]\<rparr>
      else s\<lparr>pv_chans := pv_chans s @ [\<lparr>pc_For = uid, pc_Buffer = None\<rparr>],
             pv_pending := map_put uid (length (pv_chans s)) (pv_pending s),
             pv_published := pv_published s @ [permission],
             pv_ids := pv_ids s @ [uid],
             pv_waiting := pv_waiting s @
               [\<lparr>wr_Request = opts, wr_ID = uid, wr_Chan = length (pv_chans s)\<rparr>]\<rparr>)"

text \<open>The rest of it, once the channel holds an answer.\<close>

definition end_request :: "nat \<Rightarrow> bool \<Rightarrow> permission_service \<Rightarrow> permission_service" where
  "end_request j b s =
     (let w = pv_waiting s ! j; c = wr_Chan w in
      s\<lparr>pv_chans := (pv_chans s)[c := (pv_chans s ! c)\<lparr>pc_Buffer := None\<rparr>],
        pv_pending := AList.delete (wr_ID w) (pv_pending s),
        pv_waiting := take j (pv_waiting s) @ drop (Suc j) (pv_waiting s),
        pv_results := pv_results s @ [(wr_Request w, wr_ID w, b)]\<rparr>)"

text \<open>\<open>Grant\<close>, \<open>GrantPersistant\<close> and \<open>Deny\<close>: load the channel, then send and finish.\<close>

definition begin_answer :: "answer \<Rightarrow> permission_request \<Rightarrow> permission_service \<Rightarrow> permission_service" where
  "begin_answer k p s =
     s\<lparr>pv_calls := pv_calls s @ [\<lparr>an_Answer = k, an_Permission = p,
         an_Chan = map_of (pv_pending s) (pr_ID p)\<rparr>],
       pv_answers := pv_answers s @ [(k, p)]\<rparr>"

definition can_send :: "answer_call \<Rightarrow> permission_service \<Rightarrow> bool" where
  "can_send a s = (case an_Chan a of None \<Rightarrow> True | Some c \<Rightarrow> pc_Buffer (pv_chans s ! c) = None)"

definition end_answer :: "nat \<Rightarrow> permission_service \<Rightarrow> permission_service" where
  "end_answer j s =
     (let a = pv_calls s ! j;
          chans = (case an_Chan a of
            None \<Rightarrow> pv_chans s
          | Some c \<Rightarrow> (pv_chans s)[c := (pv_chans s ! c)\<lparr>pc_Buffer := Some (answer_value (an_Answer a))\<rparr>])
      in s\<lparr>pv_chans := chans,
           pv_calls := take j (pv_calls s) @ drop (Suc j) (pv_calls s),
           pv_sessionPermissions := pv_sessionPermissions s @
             (if an_Answer a = GrantPersistant then [an_Permission a] else [])\<rparr>)"

text \<open>\<open>uuid.New\<close> returns an identifier that it has not returned before.\<close>

inductive permission_step :: "string \<Rightarrow> permission_service \<Rightarrow> permission_service \<Rightarrow> bool"
  for workingDir where
  p_request: "uid \<notin> set (pv_ids s) \<Longrightarrow>
    permission_step workingDir s (begin_request workingDir uid opts s)"
| p_receive: "j < length (pv_waiting s) \<Longrightarrow>
    pc_Buffer (pv_chans s ! wr_Chan (pv_waiting s ! j)) = Some b \<Longrightarrow>
    permission_step workingDir s (end_request j b s)"
| p_load: "permission_step workingDir s (begin_answer k p s)"
| p_send: "j < length (pv_calls s) \<Longrightarrow> can_send (pv_calls s ! j) s \<Longrightarrow>
    permission_step workingDir s (end_answer j s)"
| p_auto: "permission_step workingDir s (AutoApproveSession sessionID s)"

end
