(* ===== verification/Permission_Properties.thy ===== *)
theory Permission_Properties
  imports Permissions Prelude
begin

text \<open>Every answer a tool gets is one that was given, and waiting ends only with an answer.\<close>

section \<open>The invariant\<close>

text \<open>
  What stands behind the outcome of a request: for a yes, an auto-approved session, a
  persistent grant for the same tool, action, session and directory, or a grant of this very
  request; for a no, a denial of this very request.
\<close>

definition consent ::
  "string \<Rightarrow> string list \<Rightarrow> (answer \<times> permission_request) list \<Rightarrow> create_request \<Rightarrow> string \<Rightarrow>
   bool \<Rightarrow> bool" where
  "consent workingDir auto answers opts i b \<longleftrightarrow>
     (if b
      then rq_SessionID opts \<in> set auto \<or>
        (\<exists>(k, p) \<in> set answers. k = GrantPersistant \<and> pr_SessionID p = rq_SessionID opts \<and>
          pr_ToolName p = rq_ToolName opts \<and> pr_Action p = rq_Action opts \<and>
          pr_Path p = request_dir workingDir opts) \<or>
        (\<exists>(k, p) \<in> set answers. answer_value k \<and> pr_ID p = i)
      else (\<exists>(k, p) \<in> set answers. \<not> answer_value k \<and> pr_ID p = i))"

lemma consent_mono:
  "consent wd auto answers opts i b \<Longrightarrow> set auto \<subseteq> set auto' \<Longrightarrow> set answers \<subseteq> set answers' \<Longrightarrow>
   consent wd auto' answers' opts i b"
  unfolding consent_def by (auto split: if_splits)

definition buffers_ok :: "permission_service \<Rightarrow> bool" where
  "buffers_ok s \<longleftrightarrow> (\<forall>c \<in> set (pv_chans s). \<forall>b. pc_Buffer c = Some b \<longrightarrow>
     (\<exists>(k, p) \<in> set (pv_answers s). answer_value k = b \<and> pr_ID p = pc_For c))"

definition waiting_ok :: "permission_service \<Rightarrow> bool" where
  "waiting_ok s \<longleftrightarrow> distinct (map wr_ID (pv_waiting s)) \<and>
     (\<forall>w \<in> set (pv_waiting s). wr_Chan w < length (pv_chans s) \<and>
        pc_For (pv_chans s ! wr_Chan w) = wr_ID w \<and> wr_ID w \<in> set (pv_ids s) \<and>
        map_of (pv_pending s) (wr_ID w) = Some (wr_Chan w))"

definition pending_ok :: "permission_service \<Rightarrow> bool" where
  "pending_ok s \<longleftrightarrow> (\<forall>i c. map_of (pv_pending s) i = Some c \<longrightarrow>
     c < length (pv_chans s) \<and> pc_For (pv_chans s ! c) = i)"

definition calls_ok :: "permission_service \<Rightarrow> bool" where
  "calls_ok s \<longleftrightarrow> (\<forall>a \<in> set (pv_calls s).
     (an_Answer a, an_Permission a) \<in> set (pv_answers s) \<and>
     (\<forall>c. an_Chan a = Some c \<longrightarrow>
        c < length (pv_chans s) \<and> pc_For (pv_chans s ! c) = pr_ID (an_Permission a)))"

definition grants_ok :: "permission_service \<Rightarrow> bool" where
  "grants_ok s \<longleftrightarrow>
     (\<forall>p \<in> set (pv_sessionPermissions s). (GrantPersistant, p) \<in> set (pv_answers s))"

definition results_ok :: "string \<Rightarrow> permission_service \<Rightarrow> bool" where
  "results_ok wd s \<longleftrightarrow>
     list_all (\<lambda>(opts, i, b). consent wd (pv_autoApprove s) (pv_answers s) opts i b) (pv_results s)"

definition permission_inv :: "string \<Rightarrow> permission_service \<Rightarrow> bool" where
  "permission_inv wd s \<longleftrightarrow> buffers_ok s \<and> waiting_ok s \<and> pending_ok s \<and> calls_ok s \<and>
     grants_ok s \<and> results_ok wd s"

lemmas permission_defs =
  permission_inv_def buffers_ok_def waiting_ok_def pending_ok_def calls_ok_def grants_ok_def
  results_ok_def

lemma NewPermissionService_inv: "s = NewPermissionService \<Longrightarrow> permission_inv wd s"
  by (simp add: permission_defs NewPermissionService_def)

lemma results_mono:
  assumes "results_ok wd s" and "set (pv_autoApprove s) \<subseteq> set (pv_autoApprove t)"
    and "set (pv_answers s) \<subseteq> set (pv_answers t)" and "pv_results t = pv_results s"
  shows "results_ok wd t"
  using assms consent_mono unfolding results_ok_def list_all_iff by fastforce

lemma begin_request_inv:
  assumes inv: "permission_inv wd s" and new: "uid \<notin> set (pv_ids s)"
  shows "permission_inv wd (begin_request wd uid opts s)"
proof -
  have same: "same_permission p (new_request wd uid opts) = same_permission p (new_request wd [] opts)" for p
    by (simp add: same_permission_def new_request_def)
  have res: "permission_inv wd (s\<lparr>pv_results := pv_results s @ [(opts, [], True)]\<rparr>)"
    if "consent wd (pv_autoApprove s) (pv_answers s) opts [] True"
    using inv that by (simp add: permission_defs)
  consider (auto) "rq_SessionID opts \<in> set (pv_autoApprove s)"
    | (granted) "rq_SessionID opts \<notin> set (pv_autoApprove s)"
        "\<exists>p \<in> set (pv_sessionPermissions s). same_permission p (new_request wd uid opts)"
    | (wait) "rq_SessionID opts \<notin> set (pv_autoApprove s)"
        "\<not> (\<exists>p \<in> set (pv_sessionPermissions s). same_permission p (new_request wd uid opts))"
    by blast
  then show ?thesis
  proof cases
    case auto
    then show ?thesis using res by (simp add: begin_request_def consent_def)
  next
    case granted
    then obtain p where "(GrantPersistant, p) \<in> set (pv_answers s)"
        and "same_permission p (new_request wd [] opts)"
      using inv same by (auto simp: permission_inv_def grants_ok_def)
    then have "consent wd (pv_autoApprove s) (pv_answers s) opts [] True"
      by (force simp: consent_def same_permission_def new_request_def)
    then show ?thesis using granted res by (simp add: begin_request_def)
  next
    case wait
    have ids: "w \<in> set (pv_waiting s) \<Longrightarrow> wr_ID w \<noteq> uid" for w
      using inv new by (auto simp: permission_inv_def waiting_ok_def)
    show ?thesis
      using inv wait ids unfolding permission_inv_def begin_request_def Let_def
      by (simp add: buffers_ok_def waiting_ok_def pending_ok_def calls_ok_def grants_ok_def
          results_ok_def map_simps nth_append less_Suc_eq) auto
  qed
qed

text \<open>Changing the buffer of a channel leaves the channels theirs.\<close>

definition set_buffer :: "nat \<Rightarrow> bool option \<Rightarrow> permission_chan list \<Rightarrow> permission_chan list" where
  "set_buffer c b chans = chans[c := (chans ! c)\<lparr>pc_Buffer := b\<rparr>]"

lemma length_set_buffer [simp]: "length (set_buffer c b chans) = length chans"
  by (simp add: set_buffer_def)

lemma For_set_buffer [simp]:
  "x < length chans \<Longrightarrow> pc_For (set_buffer c b chans ! x) = pc_For (chans ! x)"
  by (cases "c < length chans") (simp_all add: set_buffer_def nth_list_update)

lemma set_set_buffer:
  "c < length chans \<Longrightarrow> x \<in> set (set_buffer c b chans) \<Longrightarrow>
   x \<in> set chans \<or> x = (chans ! c)\<lparr>pc_Buffer := b\<rparr>"
  unfolding set_buffer_def by (auto dest: set_update_subset_insert [THEN subsetD])

definition without :: "nat \<Rightarrow> 'a list \<Rightarrow> 'a list" where
  "without j xs = take j xs @ drop (Suc j) xs"

lemma set_without: "set (without j xs) \<subseteq> set xs"
  unfolding without_def by (auto dest: in_set_takeD in_set_dropD)

lemma without_distinct:
  assumes "j < length xs" and "distinct (map f xs)"
  shows "distinct (map f (without j xs))" and "f (xs ! j) \<notin> f ` set (without j xs)"
proof -
  have "distinct (map f (take j xs @ xs ! j # drop (Suc j) xs))"
    using assms id_take_nth_drop [OF assms(1)] by simp
  then show "distinct (map f (without j xs))" and "f (xs ! j) \<notin> f ` set (without j xs)"
    by (auto simp: without_def)
qed

lemma end_request_eq:
  "end_request j b s =
     s\<lparr>pv_chans := set_buffer (wr_Chan (pv_waiting s ! j)) None (pv_chans s),
       pv_pending := AList.delete (wr_ID (pv_waiting s ! j)) (pv_pending s),
       pv_waiting := without j (pv_waiting s),
       pv_results := pv_results s @ [(wr_Request (pv_waiting s ! j), wr_ID (pv_waiting s ! j), b)]\<rparr>"
  by (simp add: end_request_def Let_def set_buffer_def without_def)

lemma end_answer_eq:
  "end_answer j s =
     s\<lparr>pv_chans := (case an_Chan (pv_calls s ! j) of None \<Rightarrow> pv_chans s
         | Some c \<Rightarrow> set_buffer c (Some (answer_value (an_Answer (pv_calls s ! j)))) (pv_chans s)),
       pv_calls := without j (pv_calls s),
       pv_sessionPermissions := pv_sessionPermissions s @
         (if an_Answer (pv_calls s ! j) = GrantPersistant then [an_Permission (pv_calls s ! j)] else [])\<rparr>"
  by (simp add: end_answer_def Let_def set_buffer_def without_def split: option.split)

lemma buffered_answer:
  assumes "permission_inv wd s" and "w \<in> set (pv_waiting s)"
    and "pc_Buffer (pv_chans s ! wr_Chan w) = Some b"
  obtains k p where "(k, p) \<in> set (pv_answers s)" and "answer_value k = b" and "pr_ID p = wr_ID w"
proof -
  have c: "wr_Chan w < length (pv_chans s)" "pc_For (pv_chans s ! wr_Chan w) = wr_ID w"
    using assms(1,2) by (simp_all add: permission_inv_def waiting_ok_def)
  then have "pv_chans s ! wr_Chan w \<in> set (pv_chans s)" by simp
  then show ?thesis
    using assms(1,3) c(2) that unfolding permission_inv_def buffers_ok_def by fastforce
qed

lemma end_request_inv:
  assumes inv: "permission_inv wd s" and j: "j < length (pv_waiting s)"
    and b: "pc_Buffer (pv_chans s ! wr_Chan (pv_waiting s ! j)) = Some b"
  shows "permission_inv wd (end_request j b s)"
proof -
  let ?w = "pv_waiting s ! j" and ?t = "end_request j b s"
  have w: "?w \<in> set (pv_waiting s)" using j by simp
  have waiting: "waiting_ok s" using inv by (simp add: permission_inv_def)
  then have c: "wr_Chan ?w < length (pv_chans s)" using w by (simp add: waiting_ok_def)
  obtain k p where a: "(k, p) \<in> set (pv_answers s)" "answer_value k = b" "pr_ID p = wr_ID ?w"
    by (rule buffered_answer [OF inv w b])
  then have "consent wd (pv_autoApprove s) (pv_answers s) (wr_Request ?w) (wr_ID ?w) b"
    unfolding consent_def by (cases b) auto
  then have "results_ok wd ?t"
    using inv by (simp add: permission_inv_def results_ok_def end_request_eq)
  moreover have "buffers_ok ?t"
    using inv set_set_buffer [OF c] unfolding permission_inv_def buffers_ok_def end_request_eq by fastforce
  moreover have "waiting_ok ?t"
  proof -
    have d: "distinct (map wr_ID (pv_waiting s))" using waiting by (simp add: waiting_ok_def)
    have other: "wr_ID v \<noteq> wr_ID ?w" if "v \<in> set (without j (pv_waiting s))" for v
      using without_distinct(2) [OF j d] imageI [OF that, of wr_ID] by metis
    show ?thesis
      using waiting without_distinct(1) [OF j d] set_without [of j "pv_waiting s"] other
      unfolding waiting_ok_def end_request_eq by (auto simp: delete_conv')
  qed
  moreover have "pending_ok ?t"
    using inv by (auto simp: permission_inv_def pending_ok_def end_request_eq delete_conv')
  moreover have "calls_ok ?t" and "grants_ok ?t"
    using inv by (simp_all add: permission_inv_def calls_ok_def grants_ok_def end_request_eq)
  ultimately show ?thesis by (simp add: permission_inv_def)
qed

lemma end_answer_inv:
  assumes inv: "permission_inv wd s" and j: "j < length (pv_calls s)"
  shows "permission_inv wd (end_answer j s)"
proof -
  let ?a = "pv_calls s ! j" and ?t = "end_answer j s"
  have a: "?a \<in> set (pv_calls s)" using j by simp
  have call: "(an_Answer ?a, an_Permission ?a) \<in> set (pv_answers s)"
    and chan: "\<And>c. an_Chan ?a = Some c \<Longrightarrow>
      c < length (pv_chans s) \<and> pc_For (pv_chans s ! c) = pr_ID (an_Permission ?a)"
    using inv a by (auto simp: permission_inv_def calls_ok_def)
  have "buffers_ok ?t"
  proof (cases "an_Chan ?a")
    case (Some c)
    have "(\<exists>(k, p) \<in> set (pv_answers s). answer_value k = b \<and> pr_ID p = pc_For x)"
      if "x \<in> set (pv_chans ?t)" "pc_Buffer x = Some b" for x b
      using that set_set_buffer [OF chan [OF Some, THEN conjunct1]] chan [OF Some] call inv Some
      by (fastforce simp: end_answer_eq permission_inv_def buffers_ok_def)
    then show ?thesis by (auto simp: buffers_ok_def end_answer_eq)
  qed (use inv in \<open>simp add: end_answer_eq permission_inv_def buffers_ok_def\<close>)
  moreover have "waiting_ok ?t" and "pending_ok ?t"
    using inv by (auto simp: permission_inv_def waiting_ok_def pending_ok_def end_answer_eq split: option.split)
  moreover have "calls_ok ?t"
    using inv set_without [of j "pv_calls s"]
    by (auto simp: permission_inv_def calls_ok_def end_answer_eq split: option.split)
  moreover have "grants_ok ?t"
    using inv call by (auto simp: permission_inv_def grants_ok_def end_answer_eq)
  moreover have "results_ok wd ?t"
    using inv by (simp add: permission_inv_def results_ok_def end_answer_eq)
  ultimately show ?thesis by (simp add: permission_inv_def)
qed

lemma begin_answer_inv:
  assumes inv: "permission_inv wd s"
  shows "permission_inv wd (begin_answer k p s)"
proof -
  let ?t = "begin_answer k p s"
  have "results_ok wd ?t"
    by (rule results_mono [of _ s]) (use inv in \<open>auto simp: permission_inv_def begin_answer_def\<close>)
  moreover have "buffers_ok ?t" and "calls_ok ?t" and "grants_ok ?t"
    using inv by (fastforce simp: permission_defs begin_answer_def)+
  moreover have "waiting_ok ?t" and "pending_ok ?t"
    using inv by (simp_all add: permission_defs begin_answer_def)
  ultimately show ?thesis by (simp add: permission_inv_def)
qed

lemma permission_step_inv:
  assumes "permission_step wd s t" and "permission_inv wd s"
  shows "permission_inv wd t"
  using assms(1)
proof (cases rule: permission_step.cases)
  case (p_request uid opts)
  then show ?thesis using begin_request_inv [OF assms(2)] by simp
next
  case (p_receive j b)
  then show ?thesis using end_request_inv [OF assms(2)] by simp
next
  case (p_load k p)
  then show ?thesis using begin_answer_inv [OF assms(2)] by simp
next
  case (p_send j)
  then show ?thesis using end_answer_inv [OF assms(2)] by simp
next
  case (p_auto sessionID)
  have "results_ok wd t"
    by (rule results_mono [of _ s])
      (use assms(2) p_auto in \<open>auto simp: permission_inv_def AutoApproveSession_def\<close>)
  then show ?thesis
    using assms(2) p_auto by (simp add: permission_defs AutoApproveSession_def)
qed

interpretation permission_system: invariant_system
  "\<lambda>s. s = NewPermissionService" "permission_step wd" "permission_inv wd" for wd
  by unfold_locales (fact NewPermissionService_inv, rule permission_step_inv)

section \<open>The properties\<close>

text \<open>
  Property C13. No tool acts without consent: in every interleaving of requests, answers and
  automatic approvals, a request that returned yes belongs to a session that was approved as a
  whole, or matches a persistent grant in its tool, action, session and directory, or was
  granted itself; and a request that returned no was denied itself.
\<close>

theorem permission_needs_consent:
  assumes "reach (\<lambda>s. s = NewPermissionService) (permission_step workingDir) s"
    and "(opts, i, b) \<in> set (pv_results s)"
  shows "consent workingDir (pv_autoApprove s) (pv_answers s) opts i b"
  using permission_system.reachable_inv [OF assms(1)] assms(2)
  by (auto simp: permission_inv_def results_ok_def list_all_iff)

definition write_request :: create_request where
  "write_request =
     \<lparr>rq_SessionID = ''s1'', rq_ToolName = ''write'', rq_Description = [], rq_Action = ''write'',
      rq_Params = [], rq_Path = ''src/../main.go''\<rparr>"

definition granted_once :: permission_service where
  "granted_once = end_request 0 True (end_answer 0 (begin_answer Grant
     (new_request ''/w'' ''u1'' write_request)
     (begin_request ''/w'' ''u1'' write_request NewPermissionService)))"

lemma granted_once_reached:
  "reach (\<lambda>s. s = NewPermissionService) (permission_step ''/w'') granted_once"
proof -
  let ?s1 = "begin_request ''/w'' ''u1'' write_request NewPermissionService"
  let ?s2 = "begin_answer Grant (new_request ''/w'' ''u1'' write_request) ?s1"
  let ?step = "permission_step ''/w''" and ?init = "\<lambda>s. s = NewPermissionService"
  have "reach ?init ?step NewPermissionService" by (rule reach_init) simp
  moreover have "?step NewPermissionService ?s1"
    by (rule p_request) (simp add: NewPermissionService_def)
  ultimately have "reach ?init ?step ?s1" by (rule reach_step)
  then have "reach ?init ?step ?s2" by (rule reach_step) (rule p_load)
  moreover have "?step ?s2 (end_answer 0 ?s2)" by (rule p_send) code_simp+
  ultimately have "reach ?init ?step (end_answer 0 ?s2)" by (rule reach_step)
  moreover have "?step (end_answer 0 ?s2) granted_once"
    unfolding granted_once_def by (rule p_receive) code_simp+
  ultimately show ?thesis by (rule reach_step)
qed

theorem permission_needs_consent_witness:
  "consent ''/w'' [] [(Grant, new_request ''/w'' ''u1'' write_request)] write_request ''u1'' True"
proof -
  have "(write_request, ''u1'', True) \<in> set (pv_results granted_once)"
    by (simp add: granted_once_def end_request_def end_answer_def begin_answer_def
        begin_request_def NewPermissionService_def Let_def)
  from permission_needs_consent [OF granted_once_reached this] show ?thesis
    by (simp add: granted_once_def end_request_def end_answer_def begin_answer_def
        begin_request_def NewPermissionService_def Let_def)
qed

lemma answers_grow: "permission_step wd s t \<Longrightarrow> set (pv_answers s) \<subseteq> set (pv_answers t)"
  by (erule permission_step.cases)
    (auto simp: begin_request_def end_request_def begin_answer_def end_answer_def
      AutoApproveSession_def Let_def)

lemma without_mem: "x \<in> set xs \<Longrightarrow> j < length xs \<Longrightarrow> x \<noteq> xs ! j \<Longrightarrow> x \<in> set (without j xs)"
  unfolding without_def by (subst (asm) id_take_nth_drop [of j xs]) auto

text \<open>Only the receive of an answer ends the waiting.\<close>

lemma waiting_step:
  assumes step: "permission_step wd s t" and inv: "permission_inv wd s"
    and w: "w \<in> set (pv_waiting s)"
    and none: "\<not> (\<exists>(k, p) \<in> set (pv_answers s). pr_ID p = wr_ID w)"
  shows "w \<in> set (pv_waiting t)"
  using step
proof (cases rule: permission_step.cases)
  case (p_receive j b)
  have "w \<noteq> pv_waiting s ! j"
  proof
    assume eq: "w = pv_waiting s ! j"
    obtain k p where "(k, p) \<in> set (pv_answers s)" "pr_ID p = wr_ID w"
      using buffered_answer [OF inv w] p_receive(3) unfolding eq by blast
    then show False using none by auto
  qed
  then show ?thesis
    using without_mem [OF w p_receive(2)] p_receive(1) by (simp add: end_request_eq)
qed (use w in \<open>auto simp: begin_request_def begin_answer_def end_answer_def AutoApproveSession_def Let_def\<close>)

lemma waiting_steps:
  assumes "(permission_step wd)\<^sup>*\<^sup>* s t" and inv: "permission_inv wd s"
    and w: "w \<in> set (pv_waiting s)"
    and "\<not> (\<exists>(k, p) \<in> set (pv_answers t). pr_ID p = wr_ID w)"
  shows "w \<in> set (pv_waiting t)"
  using assms(1,4)
proof (induction rule: rtranclp_induct)
  case (step t u)
  have none: "\<not> (\<exists>(k, p) \<in> set (pv_answers t). pr_ID p = wr_ID w)"
    using step(4) answers_grow [OF step(2)] by auto
  show ?case
    by (rule waiting_step [OF step(2) permission_system.steps_inv [OF step(1) inv] step(3) [OF none] none])
qed (use w in simp)

text \<open>An answer to a waiting request brings it to its end.\<close>

lemma receive_ends:
  assumes inv: "permission_inv wd s" and w: "w \<in> set (pv_waiting s)"
    and "pc_Buffer (pv_chans s ! wr_Chan w) = Some b"
  shows "\<exists>t. permission_step wd s t \<and> (wr_Request w, wr_ID w, b) \<in> set (pv_results t)"
proof -
  obtain j where j: "j < length (pv_waiting s)" "w = pv_waiting s ! j"
    using w by (auto simp: in_set_conv_nth)
  have "permission_step wd s (end_request j b s)"
    by (rule p_receive) (use j assms(3) in simp_all)
  then show ?thesis using j(2) by (auto simp: end_request_eq)
qed

lemma answer_ends_waiting:
  assumes inv: "permission_inv wd s" and w: "w \<in> set (pv_waiting s)" and p: "pr_ID p = wr_ID w"
  shows "\<exists>t b. (permission_step wd)\<^sup>*\<^sup>* (begin_answer k p s) t \<and> (wr_Request w, wr_ID w, b) \<in> set (pv_results t)"
proof -
  let ?s = "begin_answer k p s" and ?j = "length (pv_calls s)"
  have inv': "permission_inv wd ?s" by (rule begin_answer_inv [OF inv])
  have w': "w \<in> set (pv_waiting ?s)" using w by (simp add: begin_answer_def)
  have chan: "map_of (pv_pending s) (pr_ID p) = Some (wr_Chan w)" and c: "wr_Chan w < length (pv_chans s)"
    using inv w by (simp_all add: permission_inv_def waiting_ok_def p)
  show ?thesis
  proof (cases "pc_Buffer (pv_chans s ! wr_Chan w)")
    case (Some b)
    then have "pc_Buffer (pv_chans ?s ! wr_Chan w) = Some b" by (simp add: begin_answer_def)
    from receive_ends [OF inv' w' this] show ?thesis by blast
  next
    case None
    let ?t = "end_answer ?j ?s"
    have call: "?j < length (pv_calls ?s)" "pv_calls ?s ! ?j = \<lparr>an_Answer = k, an_Permission = p, an_Chan = Some (wr_Chan w)\<rparr>"
      by (simp_all add: begin_answer_def chan)
    then have send: "permission_step wd ?s ?t"
      using None by (intro p_send) (simp_all add: can_send_def, simp add: begin_answer_def)
    have "pc_Buffer (pv_chans ?t ! wr_Chan w) = Some (answer_value k)"
      using c by (simp add: end_answer_eq call set_buffer_def) (simp add: begin_answer_def)
    moreover have "w \<in> set (pv_waiting ?t)" using w' by (simp add: end_answer_eq)
    ultimately obtain u where "permission_step wd ?t u" "(wr_Request w, wr_ID w, answer_value k) \<in> set (pv_results u)"
      using receive_ends [OF end_answer_inv [OF inv' call(1)]] by blast
    then show ?thesis
      using send by (meson converse_rtranclp_into_rtranclp rtranclp.rtrancl_refl)
  qed
qed

text \<open>
  A request waits for its answer and for nothing else: as long as nobody calls
  \<open>Grant\<close>, \<open>GrantPersistant\<close> or \<open>Deny\<close> with its identifier it goes on waiting, whatever else
  happens and however long, since there is no timeout; and once somebody does, there are steps
  that lead to its return.
\<close>

theorem request_waits_for_answer:
  assumes "reach (\<lambda>s. s = NewPermissionService) (permission_step workingDir) s"
    and "w \<in> set (pv_waiting s)"
  shows "(\<forall>t. (permission_step workingDir)\<^sup>*\<^sup>* s t \<and>
            \<not> (\<exists>(k, p) \<in> set (pv_answers t). pr_ID p = wr_ID w) \<longrightarrow> w \<in> set (pv_waiting t)) \<and>
         (pr_ID p = wr_ID w \<longrightarrow>
            (\<exists>t b. (permission_step workingDir)\<^sup>*\<^sup>* (begin_answer k p s) t \<and>
               (wr_Request w, wr_ID w, b) \<in> set (pv_results t)))"
  using waiting_steps [OF _ permission_system.reachable_inv [OF assms(1)] assms(2)]
    answer_ends_waiting [OF permission_system.reachable_inv [OF assms(1)] assms(2)] by blast

theorem request_waits_for_answer_witness:
  "\<exists>t b. (permission_step ''/w'')\<^sup>*\<^sup>*
      (begin_answer Deny (new_request ''/w'' ''u1'' write_request)
        (begin_request ''/w'' ''u1'' write_request NewPermissionService)) t \<and>
     (write_request, ''u1'', b) \<in> set (pv_results t)"
proof -
  let ?s = "begin_request ''/w'' ''u1'' write_request NewPermissionService"
  let ?w = "\<lparr>wr_Request = write_request, wr_ID = ''u1'', wr_Chan = 0\<rparr>"
  have "reach (\<lambda>s. s = NewPermissionService) (permission_step ''/w'') NewPermissionService"
    by (rule reach_init) simp
  then have "reach (\<lambda>s. s = NewPermissionService) (permission_step ''/w'') ?s"
    by (rule reach_step) (rule p_request, simp add: NewPermissionService_def)
  moreover have "?w \<in> set (pv_waiting ?s)"
    by (simp add: begin_request_def NewPermissionService_def Let_def)
  ultimately show ?thesis
    using request_waits_for_answer [of "''/w''" ?s ?w "new_request ''/w'' ''u1'' write_request" Deny]
    by (simp add: new_request_def)
qed

end
