(* ===== verification/Text_Edits.thy ===== *)
theory Text_Edits
  imports Go_Strings Prelude
begin

text \<open>
  Workspace edits of the language servers, \<open>internal/lsp/util/edit.go\<close>, over the edit types of
  \<open>internal/lsp/protocol\<close>. A file system is a map from paths to contents, with the errors of
  the next operations in \<open>wf_faults\<close>: an operation takes the first one, and fails with it if it
  is one; a write that fails leaves the file with the content the fault says, if any. The order that \<open>sort.Slice\<close> leaves among edits that tie is an argument.
\<close>

section \<open>Text and lines\<close>

fun contains_str :: "string \<Rightarrow> string \<Rightarrow> bool" where
  "contains_str [] p = (p = [])"
| "contains_str (c # cs) p = (has_prefix (c # cs) p \<or> contains_str cs p)"

definition has_suffix :: "string \<Rightarrow> string \<Rightarrow> bool" where
  "has_suffix s p = has_prefix (rev s) (rev p)"

text \<open>\<open>strings.Split\<close> for a separator of any length but zero.\<close>

function split_str :: "string \<Rightarrow> string \<Rightarrow> string list" where
  "split_str sep s = (case s of
     [] \<Rightarrow> [[]]
   | c # cs \<Rightarrow>
       if sep \<noteq> [] \<and> has_prefix (c # cs) sep
       then [] # split_str sep (drop (length sep) (c # cs))
       else (case split_str sep cs of [] \<Rightarrow> [[c]] | w # ws \<Rightarrow> (c # w) # ws))"
  by pat_completeness auto
termination by (relation "measure (\<lambda>(sep, s). length s)") (auto simp: neq_Nil_conv)

declare split_str.simps [simp del]

definition crlf_text :: string where
  "crlf_text = [CHR 0x0D, CHR 0x0A]"

definition trim_prefix :: "string \<Rightarrow> string \<Rightarrow> string" where
  "trim_prefix s p = (if has_prefix s p then drop (length p) s else s)"

section \<open>Edits\<close>

record position =
  po_Line :: int
  po_Character :: int

record text_edit =
  te_Start :: position
  te_End :: position
  te_NewText :: string

definition edit_middle :: "string \<Rightarrow> string \<Rightarrow> string \<Rightarrow> string list" where
  "edit_middle prefix suffix newText =
     (if newText = [] then (if prefix @ suffix \<noteq> [] then [prefix @ suffix] else [])
      else (let newLines = split_on (CHR 0x0A) newText in
            if length newLines = 1 then [prefix @ hd newLines @ suffix]
            else (prefix @ hd newLines) # butlast (tl newLines) @ [last newLines @ suffix]))"

definition clamp_char :: "int \<Rightarrow> string \<Rightarrow> nat" where
  "clamp_char c line = (if c < 0 \<or> c > int (length line) then length line else nat c)"

definition applyTextEdit :: "string list \<Rightarrow> text_edit \<Rightarrow> (string, string list) outcome" where
  "applyTextEdit ls edit =
     (let startLine = po_Line (te_Start edit);
          endLine = (if po_Line (te_End edit) < 0 \<or> po_Line (te_End edit) \<ge> int (length ls)
                     then int (length ls) - 1 else po_Line (te_End edit))
      in if startLine < 0 \<or> startLine \<ge> int (length ls)
         then Err (''invalid start line: '' @ show_int startLine)
         else let first = ls ! nat startLine; final = ls ! nat endLine;
                  prefix = take (clamp_char (po_Character (te_Start edit)) first) first;
                  suffix = drop (clamp_char (po_Character (te_End edit)) final) final
              in Ok (take (nat startLine) ls @ edit_middle prefix suffix (te_NewText edit) @
                     drop (nat endLine + 1) ls))"

definition rangesOverlap :: "text_edit \<Rightarrow> text_edit \<Rightarrow> bool" where
  "rangesOverlap r1 r2 =
     (if po_Line (te_Start r1) > po_Line (te_End r2) \<or> po_Line (te_Start r2) > po_Line (te_End r1)
      then False
      else if po_Line (te_Start r1) = po_Line (te_End r2) \<and>
              po_Character (te_Start r1) > po_Character (te_End r2) then False
      else if po_Line (te_Start r2) = po_Line (te_End r1) \<and>
              po_Character (te_Start r2) > po_Character (te_End r1) then False
      else True)"

text \<open>The first pair of edits that overlap, in the order of the two loops.\<close>

fun overlap_with :: "text_edit \<Rightarrow> nat \<Rightarrow> text_edit list \<Rightarrow> nat option" where
  "overlap_with e j [] = None"
| "overlap_with e j (f # fs) = (if rangesOverlap e f then Some j else overlap_with e (Suc j) fs)"

fun first_overlap :: "nat \<Rightarrow> text_edit list \<Rightarrow> (nat \<times> nat) option" where
  "first_overlap i [] = None"
| "first_overlap i (e # es) = (case overlap_with e (Suc i) es of
     Some j \<Rightarrow> Some (i, j) | None \<Rightarrow> first_overlap (Suc i) es)"

text \<open>The comparison of \<open>sort.Slice\<close>: later positions come first.\<close>

definition edit_after :: "text_edit \<Rightarrow> text_edit \<Rightarrow> bool" where
  "edit_after a b =
     (if po_Line (te_Start a) \<noteq> po_Line (te_Start b)
      then po_Line (te_Start a) > po_Line (te_Start b)
      else po_Character (te_Start a) > po_Character (te_Start b))"

fun apply_each :: "string list \<Rightarrow> text_edit list \<Rightarrow> (string, string list) outcome" where
  "apply_each ls [] = Ok ls"
| "apply_each ls (e # es) = (case applyTextEdit ls e of
     Ok ls' \<Rightarrow> apply_each ls' es
   | Err m \<Rightarrow> Err (''failed to apply edit: '' @ m)
   | Panic m \<Rightarrow> Panic m)"

definition edit_content ::
  "(text_edit list \<Rightarrow> text_edit list) \<Rightarrow> string \<Rightarrow> text_edit list \<Rightarrow> (string, string) outcome" where
  "edit_content arrange content edits =
     (let lineEnding = (if contains_str content crlf_text then crlf_text else nl);
          endsWithNewline = (content \<noteq> [] \<and> has_suffix content lineEnding);
          ls = split_str lineEnding content
      in case first_overlap 0 edits of
           Some (i, j) \<Rightarrow> Err (''overlapping edits detected between edit '' @ show_nat i @
                              '' and '' @ show_nat j)
         | None \<Rightarrow> obind (apply_each ls (arrange edits)) (\<lambda>ls'.
             let newContent = join lineEnding ls' in
             Ok (if endsWithNewline \<and> \<not> has_suffix newContent lineEnding
                 then newContent @ lineEnding else newContent)))"

section \<open>Files\<close>

record workspace_files =
  wf_files :: "(string, string) gomap"
  wf_faults :: "(string \<times> string option) option list"

text \<open>An operation of the operating system: the next fault, or its effect.\<close>

definition os_call ::
  "(workspace_files \<Rightarrow> (string, 'a) outcome \<times> workspace_files) \<Rightarrow> workspace_files \<Rightarrow>
   (string, 'a) outcome \<times> workspace_files" where
  "os_call f w = (case wf_faults w of
     [] \<Rightarrow> f w
   | None # fs \<Rightarrow> f (w\<lparr>wf_faults := fs\<rparr>)
   | Some (e, left) # fs \<Rightarrow> (Err e, w\<lparr>wf_faults := fs\<rparr>))"

definition os_ReadFile :: "string \<Rightarrow> workspace_files \<Rightarrow> (string, string) outcome \<times> workspace_files" where
  "os_ReadFile p = os_call (\<lambda>w. (case map_of (wf_files w) p of
     None \<Rightarrow> Err ''no such file or directory'' | Some s \<Rightarrow> Ok s, w))"

definition os_WriteFile :: "string \<Rightarrow> string \<Rightarrow> workspace_files \<Rightarrow> (string, unit) outcome \<times> workspace_files" where
  "os_WriteFile p s w = (case wf_faults w of
     Some (e, Some left) # fs \<Rightarrow>
       (Err e, w\<lparr>wf_faults := fs, wf_files := map_put p left (wf_files w)\<rparr>)
   | _ \<Rightarrow> os_call (\<lambda>w. (Ok (), w\<lparr>wf_files := map_put p s (wf_files w)\<rparr>)) w)"

definition os_Stat :: "string \<Rightarrow> workspace_files \<Rightarrow> (string, unit) outcome \<times> workspace_files" where
  "os_Stat p = os_call (\<lambda>w. (if map_of (wf_files w) p = None
     then Err ''no such file or directory'' else Ok (), w))"

definition os_Remove :: "string \<Rightarrow> workspace_files \<Rightarrow> (string, unit) outcome \<times> workspace_files" where
  "os_Remove p = os_call (\<lambda>w. if map_of (wf_files w) p = None
     then (Err ''no such file or directory'', w)
     else (Ok (), w\<lparr>wf_files := AList.delete p (wf_files w)\<rparr>))"

definition os_RemoveAll :: "string \<Rightarrow> workspace_files \<Rightarrow> (string, unit) outcome \<times> workspace_files" where
  "os_RemoveAll p = os_call (\<lambda>w. (Ok (), w\<lparr>wf_files :=
     filter (\<lambda>(q, s). q \<noteq> p \<and> \<not> has_prefix q (p @ ''/'')) (wf_files w)\<rparr>))"

definition os_Rename :: "string \<Rightarrow> string \<Rightarrow> workspace_files \<Rightarrow> (string, unit) outcome \<times> workspace_files" where
  "os_Rename p q = os_call (\<lambda>w. case map_of (wf_files w) p of
     None \<Rightarrow> (Err ''no such file or directory'', w)
   | Some s \<Rightarrow> (Ok (), w\<lparr>wf_files := map_put q s (AList.delete p (wf_files w))\<rparr>))"

text \<open>A step that wraps the error of an operation.\<close>

definition wrap_err :: "string \<Rightarrow> ('s \<Rightarrow> (string, 'a) outcome \<times> 's) \<Rightarrow> 's \<Rightarrow> (string, 'a) outcome \<times> 's" where
  "wrap_err msg f w = (case f w of (Err e, w') \<Rightarrow> (Err (msg @ e), w') | r \<Rightarrow> r)"

definition sequ ::
  "('s \<Rightarrow> (string, 'a) outcome \<times> 's) \<Rightarrow> ('a \<Rightarrow> 's \<Rightarrow> (string, 'b) outcome \<times> 's) \<Rightarrow> 's \<Rightarrow>
   (string, 'b) outcome \<times> 's" where
  "sequ f g w = (case f w of (Ok a, w') \<Rightarrow> g a w' | (Err e, w') \<Rightarrow> (Err e, w') | (Panic e, w') \<Rightarrow> (Panic e, w'))"

definition uri_path :: "string \<Rightarrow> string" where
  "uri_path uri = trim_prefix uri ''file://''"

definition applyTextEdits ::
  "(text_edit list \<Rightarrow> text_edit list) \<Rightarrow> string \<Rightarrow> text_edit list \<Rightarrow> workspace_files \<Rightarrow>
   (string, unit) outcome \<times> workspace_files" where
  "applyTextEdits arrange uri edits =
     sequ (wrap_err ''failed to read file: '' (os_ReadFile (uri_path uri))) (\<lambda>content.
     sequ (\<lambda>w. (edit_content arrange content edits, w)) (\<lambda>newContent.
     wrap_err ''failed to write file: '' (os_WriteFile (uri_path uri) newContent)))"

section \<open>Document changes\<close>

datatype edit_value = NilEdit | PlainEdit text_edit | AnnotatedEdit text_edit | OtherEdit string

fun AsTextEdit :: "edit_value \<Rightarrow> (string, text_edit) outcome" where
  "AsTextEdit NilEdit = Err ''nil text edit''"
| "AsTextEdit (PlainEdit e) = Ok e"
| "AsTextEdit (AnnotatedEdit e) = Ok e"
| "AsTextEdit (OtherEdit t) = Err (''unknown text edit type: '' @ t)"

record create_file =
  cf_URI :: string
  cf_Options :: "(bool \<times> bool) option"

record delete_file =
  df_URI :: string
  df_Recursive :: "bool option"

record rename_file =
  rf_OldURI :: string
  rf_NewURI :: string
  rf_Overwrite :: "bool option"

record document_change =
  dc_TextDocumentEdit :: "(string \<times> edit_value list) option"
  dc_CreateFile :: "create_file option"
  dc_RenameFile :: "rename_file option"
  dc_DeleteFile :: "delete_file option"

text \<open>The options of \<open>CreateFile\<close> are \<open>Overwrite\<close> and \<open>IgnoreIfExists\<close>; \<open>Ok True\<close> returns early.\<close>

definition create_change :: "create_file \<Rightarrow> workspace_files \<Rightarrow> (string, bool) outcome \<times> workspace_files" where
  "create_change c =
     (let path = uri_path (cf_URI c);
          write = sequ (wrap_err ''failed to create file: '' (os_WriteFile path [])) (\<lambda>u w. (Ok False, w))
      in case cf_Options c of
           Some (False, True) \<Rightarrow> (\<lambda>w. case os_Stat path w of
             (Ok u, w') \<Rightarrow> (Ok True, w') | (r, w') \<Rightarrow> write w')
         | _ \<Rightarrow> write)"

definition delete_change :: "delete_file \<Rightarrow> workspace_files \<Rightarrow> (string, unit) outcome \<times> workspace_files" where
  "delete_change d =
     (if df_Recursive d = Some True
      then wrap_err ''failed to delete directory recursively: '' (os_RemoveAll (uri_path (df_URI d)))
      else wrap_err ''failed to delete file: '' (os_Remove (uri_path (df_URI d))))"

definition rename_change :: "rename_file \<Rightarrow> workspace_files \<Rightarrow> (string, unit) outcome \<times> workspace_files" where
  "rename_change r =
     (let old = uri_path (rf_OldURI r); new = uri_path (rf_NewURI r);
          move = wrap_err ''failed to rename file: '' (os_Rename old new)
      in if rf_Overwrite r = Some False
         then (\<lambda>w. case os_Stat new w of
            (Ok u, w') \<Rightarrow> (Err (''target file already exists and overwrite is not allowed: '' @ new), w')
          | (e, w') \<Rightarrow> move w')
         else move)"

fun as_text_edits :: "edit_value list \<Rightarrow> (string, text_edit list) outcome" where
  "as_text_edits [] = Ok []"
| "as_text_edits (v # vs) = (case AsTextEdit v of
     Ok e \<Rightarrow> obind (as_text_edits vs) (\<lambda>es. Ok (e # es))
   | Err m \<Rightarrow> Err (''invalid edit type: '' @ m)
   | Panic m \<Rightarrow> Panic m)"

definition applyDocumentChange ::
  "(text_edit list \<Rightarrow> text_edit list) \<Rightarrow> document_change \<Rightarrow> workspace_files \<Rightarrow>
   (string, unit) outcome \<times> workspace_files" where
  "applyDocumentChange arrange change =
     sequ (case dc_CreateFile change of None \<Rightarrow> (\<lambda>w. (Ok False, w)) | Some c \<Rightarrow> create_change c) (\<lambda>done.
     if done then (\<lambda>w. (Ok (), w)) else
     sequ (case dc_DeleteFile change of None \<Rightarrow> (\<lambda>w. (Ok (), w)) | Some d \<Rightarrow> delete_change d) (\<lambda>_.
     sequ (case dc_RenameFile change of None \<Rightarrow> (\<lambda>w. (Ok (), w)) | Some r \<Rightarrow> rename_change r) (\<lambda>_.
     case dc_TextDocumentEdit change of
       None \<Rightarrow> (\<lambda>w. (Ok (), w))
     | Some (uri, vs) \<Rightarrow> sequ (\<lambda>w. (as_text_edits vs, w)) (\<lambda>es. applyTextEdits arrange uri es))))"

text \<open>\<open>ApplyWorkspaceEdit\<close>: the pairs of \<open>Changes\<close> in some order of the map, then the rest.\<close>

fun each_change :: "('x \<Rightarrow> 's \<Rightarrow> (string, unit) outcome \<times> 's) \<Rightarrow> string \<Rightarrow> 'x list \<Rightarrow> 's \<Rightarrow>
   (string, unit) outcome \<times> 's" where
  "each_change f msg [] = (\<lambda>w. (Ok (), w))"
| "each_change f msg (x # xs) = sequ (wrap_err msg (f x)) (\<lambda>_. each_change f msg xs)"

definition ApplyWorkspaceEdit ::
  "(text_edit list \<Rightarrow> text_edit list) \<Rightarrow> (string, text_edit list) gomap \<Rightarrow> document_change list \<Rightarrow>
   workspace_files \<Rightarrow> (string, unit) outcome \<times> workspace_files" where
  "ApplyWorkspaceEdit arrange changes documentChanges =
     sequ (each_change (\<lambda>(uri, es). applyTextEdits arrange uri es) ''failed to apply text edits: '' changes) (\<lambda>_.
     each_change (applyDocumentChange arrange) ''failed to apply document change: '' documentChanges)"

end
