(* ===== verification/Text_Edit_Properties.thy ===== *)
theory Text_Edit_Properties
  imports Text_Edits Sort_Slice
begin

text \<open>
  The edits of a document against its text: where a position lies in the text, what one edit
  does there, and that the edits of one change replace their ranges all at once.
\<close>

section \<open>Splitting and joining\<close>

lemma join_Cons_ne: "ws \<noteq> [] \<Longrightarrow> join sep (w # ws) = w @ sep @ join sep ws"
  by (cases ws) simp_all

lemma join_append_ne:
  "xs \<noteq> [] \<Longrightarrow> ys \<noteq> [] \<Longrightarrow> join sep (xs @ ys) = join sep xs @ sep @ join sep ys"
  by (induction xs rule: induct_list012) (simp_all add: join_Cons_ne)

lemma split_str_ne [simp]: "split_str sep s \<noteq> []"
  by (subst split_str.simps) (simp split: list.split)

lemma join_split_str: "join sep (split_str sep s) = s"
proof (induction sep s rule: split_str.induct)
  case (1 sep s)
  show ?case
  proof (cases s)
    case Nil
    then show ?thesis by (simp add: split_str.simps [of sep "[]"])
  next
    case (Cons c cs)
    show ?thesis
    proof (cases "sep \<noteq> [] \<and> has_prefix (c # cs) sep")
      case True
      then obtain t where t: "c # cs = sep @ t" by (auto simp: has_prefix_iff)
      have "split_str sep s = [] # split_str sep (drop (length sep) (c # cs))"
        using True by (simp add: split_str.simps [of sep "c # cs"] Cons)
      then have "join sep (split_str sep s) = sep @ join sep (split_str sep (drop (length sep) (c # cs)))"
        by (simp add: join_Cons_ne)
      also have "\<dots> = sep @ t" using 1(1) [OF Cons True] by (simp add: t)
      finally show ?thesis by (simp add: Cons t)
    next
      case False
      obtain w ws where ws: "split_str sep cs = w # ws" by (cases "split_str sep cs") auto
      have "join sep ((c # w) # ws) = c # join sep (w # ws)" by (cases ws) simp_all
      then show ?thesis
        using 1(2) [OF Cons False] False by (auto simp: split_str.simps [of sep "c # cs"] Cons ws)
    qed
  qed
qed

section \<open>Positions\<close>

text \<open>
  Where a position lies in the text of the lines, as \<open>applyTextEdit\<close> reads it: the character is an
  index into the bytes of the line.
\<close>

definition offset :: "string list \<Rightarrow> position \<Rightarrow> nat" where
  "offset ls p = length (concat (map (\<lambda>l. l @ nl) (take (nat (po_Line p)) ls))) + nat (po_Character p)"

definition pos_in :: "string list \<Rightarrow> position \<Rightarrow> bool" where
  "pos_in ls p \<longleftrightarrow> 0 \<le> po_Line p \<and> po_Line p < int (length ls) \<and> 0 \<le> po_Character p \<and>
     po_Character p \<le> int (length (ls ! nat (po_Line p)))"

definition pos_le :: "position \<Rightarrow> position \<Rightarrow> bool" where
  "pos_le p q \<longleftrightarrow> po_Line p < po_Line q \<or> po_Line p = po_Line q \<and> po_Character p \<le> po_Character q"

definition before_pos :: "string list \<Rightarrow> position \<Rightarrow> string" where
  "before_pos ls p = concat (map (\<lambda>l. l @ nl) (take (nat (po_Line p)) ls)) @
     take (nat (po_Character p)) (ls ! nat (po_Line p))"

definition after_pos :: "string list \<Rightarrow> position \<Rightarrow> string" where
  "after_pos ls p = join nl (drop (nat (po_Character p)) (ls ! nat (po_Line p)) #
     drop (Suc (nat (po_Line p))) ls)"

lemma concat_join: "ys \<noteq> [] \<Longrightarrow> concat (map (\<lambda>l. l @ sep) xs) @ join sep ys = join sep (xs @ ys)"
  by (induction xs) (simp_all add: join_Cons_ne)

lemma join_first: "join sep ((a @ b) # ws) = a @ join sep (b # ws)"
  by (cases ws) simp_all

lemma text_at_pos:
  assumes "pos_in ls p"
  shows "join nl ls = before_pos ls p @ after_pos ls p"
proof -
  let ?l = "nat (po_Line p)" and ?c = "nat (po_Character p)"
  have l: "?l < length ls" using assms by (auto simp: pos_in_def)
  have "join nl ls = join nl (take ?l ls @ (take ?c (ls ! ?l) @ drop ?c (ls ! ?l)) # drop (Suc ?l) ls)"
    using id_take_nth_drop [OF l] by simp
  also have "\<dots> = before_pos ls p @ after_pos ls p"
    unfolding before_pos_def after_pos_def
    by (subst concat_join [symmetric], simp) (simp only: join_first append_assoc)
  finally show ?thesis .
qed

lemma length_before_pos: "pos_in ls p \<Longrightarrow> length (before_pos ls p) = offset ls p"
  by (auto simp: before_pos_def offset_def pos_in_def)

lemma pos_take_drop:
  assumes "pos_in ls p"
  shows "take (offset ls p) (join nl ls) = before_pos ls p" and "drop (offset ls p) (join nl ls) = after_pos ls p"
  using text_at_pos [OF assms] length_before_pos [OF assms] by simp_all

section \<open>One edit\<close>

definition edit_in :: "string list \<Rightarrow> text_edit \<Rightarrow> bool" where
  "edit_in ls e \<longleftrightarrow> pos_in ls (te_Start e) \<and> pos_in ls (te_End e) \<and> pos_le (te_Start e) (te_End e)"

lemma clamp_char_in [simp]: "0 \<le> c \<Longrightarrow> c \<le> int (length s) \<Longrightarrow> clamp_char c s = nat c"
  by (simp add: clamp_char_def)

lemma applyTextEdit_in:
  assumes "edit_in ls e"
  shows "applyTextEdit ls e = Ok (take (nat (po_Line (te_Start e))) ls @
    edit_middle (take (nat (po_Character (te_Start e))) (ls ! nat (po_Line (te_Start e))))
      (drop (nat (po_Character (te_End e))) (ls ! nat (po_Line (te_End e)))) (te_NewText e) @
    drop (Suc (nat (po_Line (te_End e)))) ls)"
  using assms by (auto simp: edit_in_def pos_in_def applyTextEdit_def Let_def)

lemma join_last: "join sep (xs @ [a @ b]) = join sep (xs @ [a]) @ b"
  by (cases "xs = []") (simp_all add: join_append_ne)

text \<open>The middle lines, joined, are the prefix, the new text and the suffix.\<close>

lemma join_edit_middle:
  assumes "newText \<noteq> [] \<or> prefix @ suffix \<noteq> []"
  shows "edit_middle prefix suffix newText \<noteq> [] \<and>
    join nl (edit_middle prefix suffix newText) = prefix @ newText @ suffix"
proof (cases "newText = []")
  case True
  then show ?thesis using assms by (simp add: edit_middle_def)
next
  case False
  let ?ws = "split_on (CHR 0x0A) newText"
  have nt: "join nl ?ws = newText" by (simp add: nl_def)
  obtain w ws where ws: "?ws = w # ws" using split_on_nonempty by (cases ?ws) auto
  show ?thesis
  proof (cases ws rule: rev_cases)
    case Nil
    then show ?thesis using False nt ws by (simp add: edit_middle_def)
  next
    case (snoc vs v)
    have "join nl ((prefix @ w) # vs @ [v @ suffix]) = prefix @ join nl (w # vs @ [v]) @ suffix"
      using join_last [of nl "(prefix @ w) # vs" v suffix] by (simp add: join_first)
    then show ?thesis using False nt ws snoc by (simp add: edit_middle_def)
  qed
qed

lemma applyTextEdit_text:
  assumes "edit_in ls e" and "te_NewText e \<noteq> [] \<or>
      take (nat (po_Character (te_Start e))) (ls ! nat (po_Line (te_Start e))) @
      drop (nat (po_Character (te_End e))) (ls ! nat (po_Line (te_End e))) \<noteq> []"
    and "applyTextEdit ls e = Ok ls'"
  shows "join nl ls' = before_pos ls (te_Start e) @ te_NewText e @ after_pos ls (te_End e)"
proof -
  let ?p = "take (nat (po_Character (te_Start e))) (ls ! nat (po_Line (te_Start e)))"
  let ?s = "drop (nat (po_Character (te_End e))) (ls ! nat (po_Line (te_End e)))"
  let ?m = "edit_middle ?p ?s (te_NewText e)" and ?rest = "drop (Suc (nat (po_Line (te_End e)))) ls"
  have ls': "ls' = take (nat (po_Line (te_Start e))) ls @ ?m @ ?rest"
    using assms(3) applyTextEdit_in [OF assms(1)] by simp
  have m: "?m \<noteq> []" "join nl ?m = ?p @ te_NewText e @ ?s"
    using join_edit_middle [OF assms(2)] by blast+
  have "join nl (?m @ ?rest) = (?p @ te_NewText e) @ join nl (?s # ?rest)"
    using m by (cases "?rest = []") (simp_all add: join_append_ne join_Cons_ne)
  then show ?thesis
    using m(1) by (simp add: ls' before_pos_def after_pos_def concat_join [symmetric])
qed

section \<open>The order of positions\<close>

definition pos_lt :: "position \<Rightarrow> position \<Rightarrow> bool" where
  "pos_lt p q \<longleftrightarrow> po_Line p < po_Line q \<or> po_Line p = po_Line q \<and> po_Character p < po_Character q"

lemma pos_lt_le: "pos_lt p q \<Longrightarrow> pos_le p q"
  by (auto simp: pos_lt_def pos_le_def)

lemma pos_le_trans: "pos_le p q \<Longrightarrow> pos_le q r \<Longrightarrow> pos_le p r"
  by (auto simp: pos_le_def)

lemma no_overlap_iff:
  "\<not> rangesOverlap a b \<longleftrightarrow> pos_lt (te_End b) (te_Start a) \<or> pos_lt (te_End a) (te_Start b)"
  by (auto simp: rangesOverlap_def pos_lt_def)

lemma edit_after_iff: "edit_after a b \<longleftrightarrow> pos_lt (te_Start b) (te_Start a)"
  by (auto simp: edit_after_def pos_lt_def)

lemma offset_mono:
  assumes "pos_in ls p" and "pos_in ls q" and "pos_le p q"
  shows "offset ls p \<le> offset ls q"
proof (cases "po_Line p = po_Line q")
  case True
  then show ?thesis using assms(3) by (simp add: offset_def pos_le_def)
next
  case False
  let ?i = "nat (po_Line p)" and ?j = "nat (po_Line q)"
  have ij: "?i < ?j" and i: "?i < length ls" and j: "?j < length ls"
    and c: "nat (po_Character p) \<le> length (ls ! ?i)"
    using assms False by (auto simp: pos_in_def pos_le_def)
  have "take ?j ls = take ?i ls @ ls ! ?i # drop (Suc ?i) (take ?j ls)"
    using id_take_nth_drop [of ?i "take ?j ls"] ij j by (simp add: min_def)
  then have "offset ls q = length (concat (map (\<lambda>l. l @ nl) (take ?i ls @ ls ! ?i # drop (Suc ?i) (take ?j ls)))) +
      nat (po_Character q)"
    unfolding offset_def by (rule arg_cong)
  then show ?thesis using c by (simp add: offset_def)
qed

lemma before_pos_take:
  assumes "pos_in ls p" and "pos_in ls q" and "pos_le p q"
  shows "take (offset ls p) (before_pos ls q) = before_pos ls p"
proof -
  have "take (offset ls p) (take (offset ls q) (join nl ls)) = take (offset ls p) (join nl ls)"
    using offset_mono [OF assms] by (simp add: min_def)
  then show ?thesis by (simp add: pos_take_drop(1) assms)
qed

section \<open>All edits\<close>

text \<open>The specification: the ranges, in ascending order, are replaced at once.\<close>

fun substitute :: "nat \<Rightarrow> string \<Rightarrow> (nat \<times> nat \<times> string) list \<Rightarrow> string" where
  "substitute pos s [] = drop pos s"
| "substitute pos s ((a, b, new) # es) = take (a - pos) (drop pos s) @ new @ substitute b s es"

lemma substitute_snoc:
  assumes "pos \<le> a" and "a \<le> length s" and "list_all (\<lambda>(x, y, n). x \<le> y \<and> y \<le> a) es"
  shows "substitute pos s (es @ [(a, b, new)]) = substitute pos (take a s) es @ new @ drop b s"
  using assms
proof (induction es arbitrary: pos)
  case Nil
  then show ?case by (simp add: drop_take)
next
  case (Cons e es)
  obtain x y n where e: "e = (x, y, n)" by (cases e)
  then have "take (x - pos) (drop pos s) = take (x - pos) (drop pos (take a s))"
    using Cons.prems by (auto simp: drop_take min_def)
  then show ?case using Cons by (simp add: e)
qed

definition edit_offsets :: "string list \<Rightarrow> text_edit \<Rightarrow> nat \<times> nat \<times> string" where
  "edit_offsets ls e = (offset ls (te_Start e), offset ls (te_End e), te_NewText e)"

text \<open>Lines that agree with the original ones up to a position.\<close>

definition agree :: "string list \<Rightarrow> string list \<Rightarrow> position \<Rightarrow> bool" where
  "agree ls0 ls p \<longleftrightarrow> pos_in ls0 p \<and> pos_in ls p \<and>
     take (nat (po_Line p)) ls = take (nat (po_Line p)) ls0 \<and>
     take (nat (po_Character p)) (ls ! nat (po_Line p)) = take (nat (po_Character p)) (ls0 ! nat (po_Line p))"

lemma agree_before: "agree ls0 ls p \<Longrightarrow> before_pos ls p = before_pos ls0 p"
  by (simp add: agree_def before_pos_def)

lemma agree_le:
  assumes "agree ls0 ls p" and "pos_in ls0 q" and "pos_le q p"
  shows "agree ls0 ls q"
proof (cases "po_Line q = po_Line p")
  case True
  let ?l = "nat (po_Line p)" and ?c = "nat (po_Character p)" and ?d = "nat (po_Character q)"
  have "?d \<le> ?c" using assms(3) True by (auto simp: pos_le_def)
  then have "take ?d (take ?c (ls ! ?l)) = take ?d (take ?c (ls0 ! ?l))" and "?d \<le> length (ls ! ?l)"
    using assms(1) by (auto simp: agree_def pos_in_def)
  then show ?thesis
    using assms True \<open>?d \<le> ?c\<close> by (auto simp: agree_def pos_in_def min_def)
next
  case False
  let ?i = "nat (po_Line q)" and ?j = "nat (po_Line p)"
  have ij: "?i < ?j" and j: "?j < length ls"
    using assms False by (auto simp: pos_le_def pos_in_def agree_def)
  have eq: "take ?j ls = take ?j ls0" using assms(1) by (simp add: agree_def)
  have "take ?i (take ?j ls) = take ?i (take ?j ls0)" by (simp only: eq)
  then have "take ?i ls = take ?i ls0" using ij by (simp add: min_def)
  moreover have "ls ! ?i = ls0 ! ?i" using arg_cong [OF eq, of "\<lambda>xs. xs ! ?i"] ij by simp
  ultimately show ?thesis using assms(2) ij j by (auto simp: agree_def pos_in_def)
qed

lemma edit_middle_first:
  assumes "newText \<noteq> []"
  obtains rest ws where "edit_middle pre suf newText = (pre @ rest) # ws"
proof (cases "length (split_on (CHR 0x0A) newText) = 1")
  case True
  then show ?thesis
    using assms that [of "hd (split_on (CHR 0x0A) newText) @ suf" "[]"] by (simp add: edit_middle_def Let_def)
next
  case False
  then show ?thesis using assms that by (simp add: edit_middle_def Let_def)
qed

lemma agree_after_edit:
  assumes "agree ls0 ls (te_Start e)" and "edit_in ls e" and "te_NewText e \<noteq> []"
    and "applyTextEdit ls e = Ok ls'"
  shows "agree ls0 ls' (te_Start e)"
proof -
  let ?i = "nat (po_Line (te_Start e))" and ?c = "nat (po_Character (te_Start e))"
  have i: "?i < length ls" "?c \<le> length (ls ! ?i)"
    using assms(2) by (auto simp: edit_in_def pos_in_def)
  obtain rest ws where "ls' = take ?i ls @ (take ?c (ls ! ?i) @ rest) # ws"
    using assms(4) applyTextEdit_in [OF assms(2)] edit_middle_first [OF assms(3)]
    by (metis append_Cons outcome.inject(1))
  then have "take ?i ls' = take ?i ls" and "ls' ! ?i = take ?c (ls ! ?i) @ rest" and "?i < length ls'"
    using i by (simp_all add: nth_append min_def)
  then show ?thesis
    using assms(1) i by (auto simp: agree_def pos_in_def)
qed

lemma apply_each_text:
  assumes "list_all (\<lambda>e. edit_in ls0 e \<and> te_NewText e \<noteq> [] \<and> pos_le (te_End e) p) es"
    and "sorted_wrt (\<lambda>a b. pos_lt (te_End b) (te_Start a)) es"
    and "agree ls0 ls p" and "join nl ls = before_pos ls0 p @ tail"
  shows "\<exists>ls'. apply_each ls es = Ok ls' \<and>
    join nl ls' = substitute 0 (before_pos ls0 p) (map (edit_offsets ls0) (rev es)) @ tail"
  using assms
proof (induction es arbitrary: ls p tail)
  case (Cons e es)
  have e: "edit_in ls0 e" "te_NewText e \<noteq> []" "pos_le (te_End e) p" and p: "pos_in ls0 p"
    using Cons.prems by (simp_all add: agree_def)
  then have se: "pos_in ls0 (te_Start e)" "pos_in ls0 (te_End e)" "pos_le (te_Start e) (te_End e)"
    by (simp_all add: edit_in_def)
  have q: "agree ls0 ls (te_End e)" by (rule agree_le [OF Cons.prems(3) se(2) e(3)])
  have s: "agree ls0 ls (te_Start e)" by (rule agree_le [OF q se(1,3)])
  then have "edit_in ls e" using q se(3) by (simp add: edit_in_def agree_def)
  then obtain ls1 where ls1: "applyTextEdit ls e = Ok ls1" using applyTextEdit_in by blast
  let ?X = "drop (offset ls0 (te_End e)) (before_pos ls0 p)"
  have X: "before_pos ls0 p = before_pos ls0 (te_End e) @ ?X"
    using before_pos_take [OF se(2) p e(3)] append_take_drop_id by metis
  have "join nl ls = before_pos ls0 (te_End e) @ after_pos ls (te_End e)"
    using text_at_pos [of ls "te_End e"] q by (simp add: agree_before [OF q] agree_def)
  moreover have "join nl ls = (before_pos ls0 (te_End e) @ ?X) @ tail"
    unfolding Cons.prems(4) by (simp only: X [symmetric])
  ultimately have "after_pos ls (te_End e) = ?X @ tail" by simp
  then have "join nl ls1 = before_pos ls0 (te_Start e) @ te_NewText e @ ?X @ tail"
    using applyTextEdit_text [OF \<open>edit_in ls e\<close> _ ls1] e(2) by (simp add: agree_before [OF s])
  moreover have "agree ls0 ls1 (te_Start e)"
    by (rule agree_after_edit [OF s \<open>edit_in ls e\<close> e(2) ls1])
  moreover have before: "list_all (\<lambda>e'. edit_in ls0 e' \<and> te_NewText e' \<noteq> [] \<and> pos_le (te_End e') (te_Start e)) es"
    using Cons.prems(1,2) pos_lt_le by (auto simp: list_all_iff)
  ultimately obtain ls' where ls': "apply_each ls1 es = Ok ls'"
    and text': "join nl ls' = substitute 0 (before_pos ls0 (te_Start e)) (map (edit_offsets ls0) (rev es)) @
      te_NewText e @ ?X @ tail"
    using Cons.IH [of "te_Start e" ls1 "te_NewText e @ ?X @ tail"] Cons.prems(2) by auto
  have "list_all (\<lambda>(x, y, n). x \<le> y \<and> y \<le> offset ls0 (te_Start e)) (map (edit_offsets ls0) (rev es))"
    using before offset_mono se(1) by (auto simp: list_all_iff edit_offsets_def edit_in_def)
  moreover have "offset ls0 (te_Start e) \<le> length (before_pos ls0 p)"
    using offset_mono [OF se(1) p pos_le_trans [OF se(3) e(3)]] by (simp add: length_before_pos p)
  ultimately have "substitute 0 (before_pos ls0 p) (map (edit_offsets ls0) (rev es) @ [edit_offsets ls0 e]) =
      substitute 0 (before_pos ls0 (te_Start e)) (map (edit_offsets ls0) (rev es)) @ te_NewText e @ ?X"
    using substitute_snoc [of 0 "offset ls0 (te_Start e)" "before_pos ls0 p"]
      before_pos_take [OF se(1) p pos_le_trans [OF se(3) e(3)]]
    by (simp add: edit_offsets_def)
  then show ?case using ls1 ls' text' by simp
qed simp

section \<open>Edits that do not overlap\<close>

lemma overlap_with_None: "overlap_with e j fs = None \<longleftrightarrow> list_all (\<lambda>f. \<not> rangesOverlap e f) fs"
  by (induction fs arbitrary: j) auto

lemma first_overlap_None: "first_overlap i es = None \<longleftrightarrow> sorted_wrt (\<lambda>a b. \<not> rangesOverlap a b) es"
proof (induction es arbitrary: i)
  case (Cons e es)
  then show ?case
    using overlap_with_None [of e "Suc i" es]
    by (cases "overlap_with e (Suc i) es") (auto simp: list_all_iff)
qed simp

lemma pairwise_perm:
  assumes "\<And>a b. R a b \<Longrightarrow> R b a" and "sorted_wrt R xs" and "mset ys = mset xs"
  shows "sorted_wrt R ys"
  using assms(2,3)
proof (induction ys arbitrary: xs)
  case (Cons y ys)
  obtain as bs where xs: "xs = as @ y # bs"
    using mset_eq_setD [OF Cons.prems(2)] split_list [of y xs] by auto
  then have m: "mset ys = mset (as @ bs)" using Cons.prems(2) by simp
  moreover have "sorted_wrt R (as @ bs)" using Cons.prems(1) by (auto simp: xs sorted_wrt_append)
  moreover have "R y z" if "z \<in> set (as @ bs)" for z
    using Cons.prems(1) assms(1) that by (auto simp: xs sorted_wrt_append)
  ultimately show ?case using Cons.IH [of "as @ bs"] mset_eq_setD [OF m] by auto
qed simp

lemma disjoint_edits:
  assumes "\<not> rangesOverlap a b" and "\<not> edit_after b a" and "edit_in ls a" and "edit_in ls b"
  shows "pos_lt (te_End b) (te_Start a)"
proof (rule ccontr)
  assume "\<not> pos_lt (te_End b) (te_Start a)"
  then have "pos_lt (te_End a) (te_Start b)" using assms(1) by (simp add: no_overlap_iff)
  then show False
    using assms(2,3) by (auto simp: edit_after_iff edit_in_def pos_lt_def pos_le_def)
qed

lemma descending_edits:
  assumes "sort_Slice edit_after arrange" and "first_overlap 0 edits = None"
    and "list_all (edit_in ls) edits"
  shows "sorted_wrt (\<lambda>a b. pos_lt (te_End b) (te_Start a)) (arrange edits)"
proof -
  have perm: "mset (arrange edits) = mset edits" and sorted: "slice_sorted edit_after (arrange edits)"
    using assms(1) by (auto simp: sort_Slice_def)
  have "sorted_wrt (\<lambda>a b. \<not> rangesOverlap a b) (arrange edits)"
    by (rule pairwise_perm [OF _ assms(2) [unfolded first_overlap_None] perm]) (auto simp: no_overlap_iff)
  moreover have "sorted_wrt (\<lambda>a b. \<not> edit_after b a) (arrange edits)"
    using sorted by (simp add: slice_sorted_def)
  moreover have "edit_in ls a" if "a \<in> set (arrange edits)" for a
    using that assms(3) mset_eq_setD [OF perm] by (simp add: list_all_iff)
  ultimately show ?thesis
    unfolding sorted_wrt_iff_nth_less by (auto intro!: disjoint_edits [of _ _ ls])
qed

section \<open>The properties\<close>

definition keep_last_newline :: "string \<Rightarrow> string \<Rightarrow> string" where
  "keep_last_newline content s =
     (if content \<noteq> [] \<and> has_suffix content nl \<and> \<not> has_suffix s nl then s @ nl else s)"

text \<open>
  What the protocol documents for a position when no encoding was negotiated: the character counts
  UTF-16 code units. A rune of four bytes has two of them, any other has one.
\<close>

definition rune_bytes :: "char \<Rightarrow> nat" where
  "rune_bytes b = (let n = of_char b :: nat in
     if n < 192 then 1 else if n < 224 then 2 else if n < 240 then 3 else 4)"

function utf16_col :: "nat \<Rightarrow> string \<Rightarrow> nat" where
  "utf16_col 0 s = 0"
| "utf16_col (Suc c) [] = 0"
| "utf16_col (Suc c) (b # bs) =
     rune_bytes b + utf16_col (if rune_bytes b = 4 then c - 1 else c) (drop (rune_bytes b - 1) bs)"
  by pat_completeness auto
termination by (relation "measure fst") auto

definition utf16_offset :: "string list \<Rightarrow> position \<Rightarrow> nat" where
  "utf16_offset ls p = length (concat (map (\<lambda>l. l @ nl) (take (nat (po_Line p)) ls))) +
     utf16_col (nat (po_Character p)) (ls ! nat (po_Line p))"

definition documented_offsets :: "string list \<Rightarrow> text_edit \<Rightarrow> nat \<times> nat \<times> string" where
  "documented_offsets ls e = (utf16_offset ls (te_Start e), utf16_offset ls (te_End e), te_NewText e)"

definition ascii_before :: "string list \<Rightarrow> position \<Rightarrow> bool" where
  "ascii_before ls p \<longleftrightarrow>
     list_all (\<lambda>b. of_char b < (128 :: nat)) (take (nat (po_Character p)) (ls ! nat (po_Line p)))"

lemma utf16_col_ascii:
  "list_all (\<lambda>b. of_char b < (128 :: nat)) (take c s) \<Longrightarrow> c \<le> length s \<Longrightarrow> utf16_col c s = c"
proof (induction c arbitrary: s)
  case (Suc c)
  then obtain b bs where "s = b # bs" by (cases s) auto
  with Suc show ?case by (simp add: rune_bytes_def)
qed simp

lemma offsets_ascii:
  assumes "edit_in ls e" and "ascii_before ls (te_Start e)" and "ascii_before ls (te_End e)"
  shows "edit_offsets ls e = documented_offsets ls e"
proof -
  have "utf16_offset ls p = offset ls p" if "pos_in ls p" "ascii_before ls p" for p
    using that utf16_col_ascii [of "nat (po_Character p)" "ls ! nat (po_Line p)"]
    by (simp add: utf16_offset_def offset_def ascii_before_def pos_in_def nat_le_iff)
  with assms show ?thesis by (simp add: edit_offsets_def documented_offsets_def edit_in_def)
qed

text \<open>Behind an accented letter the two differ: the byte index falls into the letter.\<close>

lemma offsets_differ:
  "offset [[CHR 0xC3, CHR 0xA9, CHR ''x'']] \<lparr>po_Line = 0, po_Character = 1\<rparr> = 1"
  "utf16_offset [[CHR 0xC3, CHR 0xA9, CHR ''x'']] \<lparr>po_Line = 0, po_Character = 1\<rparr> = 2"
  by code_simp+

text \<open>
  Property C14. The edits of a document replace their ranges all at once: on a document with
  plain newlines, edits that pass the overlap check, lie inside the document and insert some
  text give the document in which every range, as a range of byte offsets of the original text, is
  replaced by its new text, whatever order they were given in and however the sort leaves it; a
  newline that ended the document is kept. The byte offsets are what the code takes positions for;
  the protocol's UTF-16 offsets are the same ones where the lines are ASCII up to the positions.
\<close>

theorem text_edits_are_simultaneous:
  assumes "sort_Slice edit_after arrange" and "\<not> contains_str content crlf_text"
    and "first_overlap 0 edits = None"
    and "list_all (\<lambda>e. edit_in (split_str nl content) e \<and> te_NewText e \<noteq> []) edits"
  shows "edit_content arrange content edits = Ok (keep_last_newline content
      (substitute 0 content (map (edit_offsets (split_str nl content)) (rev (arrange edits))))) \<and>
    (\<forall>e\<in>set edits. ascii_before (split_str nl content) (te_Start e) \<and>
        ascii_before (split_str nl content) (te_End e) \<longrightarrow>
      edit_offsets (split_str nl content) e = documented_offsets (split_str nl content) e)"
proof -
  let ?ls = "split_str nl content" and ?p = "\<lparr>po_Line = int (length (split_str nl content)) - 1,
      po_Character = int (length (last (split_str nl content)))\<rparr>"
  have ne: "?ls \<noteq> []" by simp
  have last: "nat (int (length ?ls) - 1) = length ?ls - Suc 0" by simp
  have p: "pos_in ?ls ?p" using ne by (simp add: pos_in_def last_conv_nth last Suc_leI)
  have "after_pos ?ls ?p = []"
    using ne by (simp add: after_pos_def last_conv_nth last)
  then have whole: "before_pos ?ls ?p = content"
    using text_at_pos [OF p] by (simp add: join_split_str)
  have in_p: "pos_le q ?p" if "pos_in ?ls q" for q
  proof (cases "po_Line q = po_Line ?p")
    case True
    then show ?thesis using that ne by (auto simp: pos_le_def pos_in_def last_conv_nth last)
  qed (use that in \<open>auto simp: pos_le_def pos_in_def\<close>)
  have perm: "set (arrange edits) = set edits"
    using assms(1) mset_eq_setD by (auto simp: sort_Slice_def)
  have "list_all (\<lambda>e. edit_in ?ls e \<and> te_NewText e \<noteq> [] \<and> pos_le (te_End e) ?p) (arrange edits)"
    using assms(4) in_p by (auto simp: list_all_iff perm edit_in_def)
  moreover have "sorted_wrt (\<lambda>a b. pos_lt (te_End b) (te_Start a)) (arrange edits)"
    by (rule descending_edits [OF assms(1,3), of ?ls]) (use assms(4) in \<open>auto simp: list_all_iff\<close>)
  moreover have "agree ?ls ?ls ?p" using p by (simp add: agree_def)
  moreover have "join nl ?ls = before_pos ?ls ?p @ []" using whole by (simp add: join_split_str)
  ultimately obtain ls' where "apply_each ?ls (arrange edits) = Ok ls'"
    and "join nl ls' = substitute 0 (before_pos ?ls ?p) (map (edit_offsets ?ls) (rev (arrange edits))) @ []"
    using apply_each_text by blast
  then have "edit_content arrange content edits = Ok (keep_last_newline content
      (substitute 0 content (map (edit_offsets ?ls) (rev (arrange edits)))))"
    using assms(2,3) by (simp add: edit_content_def Let_def whole keep_last_newline_def)
  then show ?thesis using offsets_ascii assms(4) by (auto simp: list_all_iff)
qed

definition edit_at :: "int \<Rightarrow> int \<Rightarrow> int \<Rightarrow> int \<Rightarrow> string \<Rightarrow> text_edit" where
  "edit_at l c l' c' s = \<lparr>te_Start = \<lparr>po_Line = l, po_Character = c\<rparr>,
     te_End = \<lparr>po_Line = l', po_Character = c'\<rparr>, te_NewText = s\<rparr>"

lemma edit_after_weak: "weak_lt edit_after"
  unfolding edit_after_def using flag_lt.asym
  by unfold_locales (auto split: if_splits)

theorem text_edits_are_simultaneous_witness:
  "edit_content (sort_by edit_after) (''ab'' @ nl @ ''cd'' @ nl)
     [edit_at 0 1 0 2 ''XY'', edit_at 1 0 1 1 ''Z''] = Ok (''aXY'' @ nl @ ''Zd'' @ nl)"
proof -
  let ?content = "''ab'' @ nl @ ''cd'' @ nl" and ?edits = "[edit_at 0 1 0 2 ''XY'', edit_at 1 0 1 1 ''Z'']"
  have split: "split_str nl ?content = [''ab'', ''cd'', []]" by code_simp
  have sorted: "sort_by edit_after ?edits = [edit_at 1 0 1 1 ''Z'', edit_at 0 1 0 2 ''XY'']" by code_simp
  have "\<not> contains_str ?content crlf_text" and "first_overlap 0 ?edits = None" by code_simp+
  moreover have "list_all (\<lambda>e. edit_in (split_str nl ?content) e \<and> te_NewText e \<noteq> []) ?edits"
    unfolding split by (simp add: edit_in_def pos_in_def pos_le_def edit_at_def)
  ultimately have "edit_content (sort_by edit_after) ?content ?edits = Ok (keep_last_newline ?content
      (substitute 0 ?content (map (edit_offsets (split_str nl ?content)) (rev (sort_by edit_after ?edits)))))"
    by (rule text_edits_are_simultaneous [OF weak_lt.sort_by_sorts [OF edit_after_weak], THEN conjunct1])
  also have "\<dots> = Ok (''aXY'' @ nl @ ''Zd'' @ nl)"
    unfolding split sorted by (simp add: edit_offsets_def offset_def edit_at_def nl_def keep_last_newline_def has_suffix_def)
  finally show ?thesis .
qed

text \<open>
  One edit replaces its range, with one exception: a deletion that empties every
  line it touches takes the line break along. In all other cases the text of the new lines is
  the text before the range, the new text and the text behind it; in that case there is one
  line fewer than there should be.
\<close>

theorem text_edit_replaces_range:
  assumes "edit_in ls e" and "i = nat (po_Line (te_Start e))" and "j = nat (po_Line (te_End e))"
  shows "\<exists>ls'. applyTextEdit ls e = Ok ls' \<and>
    (if te_NewText e = [] \<and> po_Character (te_Start e) = 0 \<and> po_Character (te_End e) = int (length (ls ! j))
     then ls' = take i ls @ drop (Suc j) ls \<and>
       before_pos ls (te_Start e) @ after_pos ls (te_End e) = join nl (take i ls @ [] # drop (Suc j) ls)
     else join nl ls' = before_pos ls (te_Start e) @ te_NewText e @ after_pos ls (te_End e))"
proof -
  let ?pre = "take (nat (po_Character (te_Start e))) (ls ! i)" and ?suf = "drop (nat (po_Character (te_End e))) (ls ! j)"
  obtain ls' where ls': "applyTextEdit ls e = Ok ls'" using applyTextEdit_in [OF assms(1)] by blast
  have chars: "0 \<le> po_Character (te_Start e)" "po_Character (te_Start e) \<le> int (length (ls ! i))"
    "0 \<le> po_Character (te_End e)" "po_Character (te_End e) \<le> int (length (ls ! j))"
    and i: "i < length ls"
    using assms by (auto simp: edit_in_def pos_in_def)
  have empty: "?pre @ ?suf = [] \<longleftrightarrow>
      po_Character (te_Start e) = 0 \<and> po_Character (te_End e) = int (length (ls ! j)) \<or>
      ls ! i = [] \<and> po_Character (te_End e) = int (length (ls ! j))"
    using chars by auto
  show ?thesis
  proof (cases "te_NewText e = [] \<and> ?pre @ ?suf = []")
    case True
    then have zero: "po_Character (te_Start e) = 0" "po_Character (te_End e) = int (length (ls ! j))"
      using empty chars by auto
    have "ls' = take i ls @ drop (Suc j) ls"
      using ls' applyTextEdit_in [OF assms(1)] True by (auto simp: edit_middle_def assms(2,3))
    moreover have "before_pos ls (te_Start e) @ after_pos ls (te_End e) = join nl (take i ls @ [] # drop (Suc j) ls)"
      using zero by (simp add: before_pos_def after_pos_def assms(2,3) concat_join [symmetric])
    ultimately show ?thesis using ls' True zero by simp
  next
    case False
    then have "join nl ls' = before_pos ls (te_Start e) @ te_NewText e @ after_pos ls (te_End e)"
      by (intro applyTextEdit_text [OF assms(1) _ ls']) (auto simp: assms(2,3))
    moreover have "\<not> (te_NewText e = [] \<and> po_Character (te_Start e) = 0 \<and>
        po_Character (te_End e) = int (length (ls ! j)))"
      using False by auto
    ultimately show ?thesis using ls' by auto
  qed
qed

theorem text_edit_replaces_range_witness:
  "applyTextEdit [''a'', ''bc'', ''d''] (edit_at 1 0 1 2 []) = Ok [''a'', ''d'']"
proof -
  have "edit_in [''a'', ''bc'', ''d''] (edit_at 1 0 1 2 [])"
    by (simp add: edit_in_def pos_in_def pos_le_def edit_at_def)
  from text_edit_replaces_range [OF this refl refl] show ?thesis
    by (simp add: edit_at_def)
qed

end
