(* ===== verification/File_History.thy ===== *)
theory File_History
  imports Go_Numbers Sort_Slice Text_Edits
begin

text \<open>
  The versions of the files a session edits: the service of \<open>internal/history/file.go\<close> over the
  table of \<open>internal/db/files.sql.go\<close>. The table keeps its identifiers unique, and the triples
  of path, session and version, and the session of a row is one of the table of sessions
  (\<open>internal/db/migrations/20250424200609_initial.sql\<close>; \<open>connect.go\<close> switches foreign keys on, and
  that is taken to hold for every connection of the pool): with a session the database deletes its
  rows. The text of the errors is the driver's. \<open>ORDER BY\<close> is an argument \<open>arrange\<close>; a fault is
  the error the database answers with, if any.
\<close>

section \<open>The table\<close>

record file_row =
  fr_ID :: string
  fr_SessionID :: string
  fr_Path :: string
  fr_Content :: string
  fr_Version :: string
  fr_CreatedAt :: int
  fr_UpdatedAt :: int

definition row_key :: "file_row \<Rightarrow> string \<times> string \<times> string" where
  "row_key r = (fr_Path r, fr_SessionID r, fr_Version r)"

definition unique_text :: string where
  "unique_text = ''UNIQUE constraint failed''"

definition q_CreateFile ::
  "string option \<Rightarrow> int \<Rightarrow> string list \<Rightarrow> file_row \<Rightarrow> file_row list \<Rightarrow>
   (string, file_row) outcome \<times> file_row list" where
  "q_CreateFile fault now sessions row rows =
     (case fault of
        Some e \<Rightarrow> (Err e, rows)
      | None \<Rightarrow>
          if fr_ID row \<in> fr_ID ` set rows then (Err (unique_text @ '': files.id''), rows)
          else if row_key row \<in> row_key ` set rows
          then (Err (unique_text @ '': files.path, files.session_id, files.version''), rows)
          else if fr_SessionID row \<notin> set sessions then (Err ''FOREIGN KEY constraint failed'', rows)
          else (let row' = row\<lparr>fr_CreatedAt := now, fr_UpdatedAt := now\<rparr> in (Ok row', rows @ [row'])))"

definition q_GetFile :: "string option \<Rightarrow> string \<Rightarrow> file_row list \<Rightarrow> (string, file_row) outcome" where
  "q_GetFile fault i rows = (case fault of
     Some e \<Rightarrow> Err e
   | None \<Rightarrow> (case find (\<lambda>r. fr_ID r = i) rows of
       Some r \<Rightarrow> Ok r | None \<Rightarrow> Err ''sql: no rows in result set''))"

definition q_DeleteFile ::
  "string option \<Rightarrow> string \<Rightarrow> file_row list \<Rightarrow> (string, unit) outcome \<times> file_row list" where
  "q_DeleteFile fault i rows = (case fault of
     Some e \<Rightarrow> (Err e, rows) | None \<Rightarrow> (Ok (), filter (\<lambda>r. fr_ID r \<noteq> i) rows))"

definition q_GetFileByPathAndSession ::
  "(file_row list \<Rightarrow> file_row list) \<Rightarrow> string option \<Rightarrow> string \<Rightarrow> string \<Rightarrow> file_row list \<Rightarrow>
   (string, file_row) outcome" where
  "q_GetFileByPathAndSession arrange fault path sessionID rows = (case fault of
     Some e \<Rightarrow> Err e
   | None \<Rightarrow> (case arrange (filter (\<lambda>r. fr_Path r = path \<and> fr_SessionID r = sessionID) rows) of
       [] \<Rightarrow> Err ''sql: no rows in result set'' | r # rs \<Rightarrow> Ok r))"

definition q_ListFilesByPath ::
  "(file_row list \<Rightarrow> file_row list) \<Rightarrow> string option \<Rightarrow> string \<Rightarrow> file_row list \<Rightarrow>
   (string, file_row list) outcome" where
  "q_ListFilesByPath arrange fault path rows = (case fault of
     Some e \<Rightarrow> Err e | None \<Rightarrow> Ok (arrange (filter (\<lambda>r. fr_Path r = path) rows)))"

definition q_ListFilesBySession ::
  "(file_row list \<Rightarrow> file_row list) \<Rightarrow> string option \<Rightarrow> string \<Rightarrow> file_row list \<Rightarrow>
   (string, file_row list) outcome" where
  "q_ListFilesBySession arrange fault sessionID rows = (case fault of
     Some e \<Rightarrow> Err e | None \<Rightarrow> Ok (arrange (filter (\<lambda>r. fr_SessionID r = sessionID) rows)))"

text \<open>The inner query takes the latest time per path over the rows of all sessions.\<close>

definition latest_time :: "string \<Rightarrow> file_row list \<Rightarrow> int" where
  "latest_time path rows = Max (fr_CreatedAt ` set (filter (\<lambda>r. fr_Path r = path) rows))"

definition q_ListLatestSessionFiles ::
  "(file_row list \<Rightarrow> file_row list) \<Rightarrow> string option \<Rightarrow> string \<Rightarrow> file_row list \<Rightarrow>
   (string, file_row list) outcome" where
  "q_ListLatestSessionFiles arrange fault sessionID rows = (case fault of
     Some e \<Rightarrow> Err e
   | None \<Rightarrow> Ok (arrange (filter (\<lambda>r. fr_SessionID r = sessionID \<and>
       fr_CreatedAt r = latest_time (fr_Path r) rows) rows)))"

text \<open>
  \<open>UpdateFile\<close> writes the content and the version of one row, and fails if the new version
  is the one of another row of the same path and session.
\<close>

definition q_UpdateFile ::
  "string option \<Rightarrow> int \<Rightarrow> string \<Rightarrow> string \<Rightarrow> string \<Rightarrow> file_row list \<Rightarrow>
   (string, file_row) outcome \<times> file_row list" where
  "q_UpdateFile fault now content version i rows = (case fault of
     Some e \<Rightarrow> (Err e, rows)
   | None \<Rightarrow> (case find (\<lambda>r. fr_ID r = i) rows of
       None \<Rightarrow> (Err ''sql: no rows in result set'', rows)
     | Some r \<Rightarrow>
         let r' = r\<lparr>fr_Content := content, fr_Version := version, fr_UpdatedAt := now\<rparr> in
         if \<exists>q \<in> set rows. fr_ID q \<noteq> i \<and> row_key q = row_key r'
         then (Err (unique_text @ '': files.path, files.session_id, files.version''), rows)
         else (Ok r', map (\<lambda>q. if fr_ID q = i then r' else q) rows)))"

section \<open>The service\<close>

record file_version =
  fv_ID :: string
  fv_SessionID :: string
  fv_Path :: string
  fv_Content :: string
  fv_Version :: string
  fv_CreatedAt :: int
  fv_UpdatedAt :: int

datatype file_event = FileCreated file_version | FileUpdated file_version | FileDeleted file_version

text \<open>\<open>hs_sessions\<close> are the identifiers in the table of sessions.\<close>

record history_service =
  hs_sessions :: "string list"
  hs_rows :: "file_row list"
  hs_events :: "file_event list"

definition file_of_row :: "file_row \<Rightarrow> file_version" where
  "file_of_row item =
     \<lparr>fv_ID = fr_ID item, fv_SessionID = fr_SessionID item, fv_Path = fr_Path item,
      fv_Content = fr_Content item, fv_Version = fr_Version item,
      fv_CreatedAt = fr_CreatedAt item, fv_UpdatedAt = fr_UpdatedAt item\<rparr>"

definition InitialVersion :: string where
  "InitialVersion = ''initial''"

definition numbered :: "int \<Rightarrow> string" where
  "numbered n = CHR ''v'' # show_int n"

definition next_version :: "string \<Rightarrow> int \<Rightarrow> string" where
  "next_version latestVersion createdAt =
     (if latestVersion = InitialVersion then ''v1''
      else if has_prefix latestVersion ''v''
      then (case atoi (drop 1 latestVersion) of
              None \<Rightarrow> numbered createdAt | Some n \<Rightarrow> numbered (wrap64 (n + 1)))
      else numbered createdAt)"

definition retry_version :: "string \<Rightarrow> int \<Rightarrow> string" where
  "retry_version version now =
     (case (if has_prefix version ''v'' then atoi (drop 1 version) else None) of
        Some n \<Rightarrow> numbered (wrap64 (n + 1)) | None \<Rightarrow> numbered now)"

text \<open>
  What the environment brings to one attempt: the identifier, the clocks of the database and of
  the program, and the faults of \<open>Begin\<close>, of the insertion and of \<open>Commit\<close>.
\<close>

record attempt_env =
  ae_uid :: string
  ae_dbNow :: int
  ae_now :: int
  ae_begin :: "string option"
  ae_create :: "string option"
  ae_commit :: "string option"

text \<open>The loop over the attempts that are left; a transaction that fails changes no row.\<close>

fun create_attempts ::
  "attempt_env list \<Rightarrow> string \<Rightarrow> string \<Rightarrow> string \<Rightarrow> string \<Rightarrow> history_service \<Rightarrow>
   (string, file_version) outcome \<times> history_service" where
  "create_attempts [] sessionID path content version sv =
     (Ok \<lparr>fv_ID = [], fv_SessionID = [], fv_Path = [], fv_Content = [], fv_Version = [],
          fv_CreatedAt = 0, fv_UpdatedAt = 0\<rparr>, sv)"
| "create_attempts (a # as) sessionID path content version sv =
     (case ae_begin a of
        Some e \<Rightarrow> (Err (''failed to begin transaction: '' @ e), sv)
      | None \<Rightarrow>
          (case q_CreateFile (ae_create a) (ae_dbNow a) (hs_sessions sv)
             \<lparr>fr_ID = ae_uid a, fr_SessionID = sessionID, fr_Path = path, fr_Content = content,
              fr_Version = version, fr_CreatedAt = 0, fr_UpdatedAt = 0\<rparr> (hs_rows sv) of
             (Err e, rows) \<Rightarrow>
               if contains_str e unique_text \<and> as \<noteq> []
               then create_attempts as sessionID path content (retry_version version (ae_now a)) sv
               else (Err e, sv)
           | (Panic e, rows) \<Rightarrow> (Panic e, sv)
           | (Ok row, rows) \<Rightarrow>
               (case ae_commit a of
                  Some e \<Rightarrow> (Err (''failed to commit transaction: '' @ e), sv)
                | None \<Rightarrow> (Ok (file_of_row row),
                    sv\<lparr>hs_rows := rows, hs_events := hs_events sv @ [FileCreated (file_of_row row)]\<rparr>))))"

definition createWithVersion ::
  "(nat \<Rightarrow> attempt_env) \<Rightarrow> string \<Rightarrow> string \<Rightarrow> string \<Rightarrow> string \<Rightarrow> history_service \<Rightarrow>
   (string, file_version) outcome \<times> history_service" where
  "createWithVersion env = create_attempts (map env [0..<3])"

definition CreateFile ::
  "(nat \<Rightarrow> attempt_env) \<Rightarrow> string \<Rightarrow> string \<Rightarrow> string \<Rightarrow> history_service \<Rightarrow>
   (string, file_version) outcome \<times> history_service" where
  "CreateFile env sessionID path content = createWithVersion env sessionID path content InitialVersion"

definition CreateVersion ::
  "(file_row list \<Rightarrow> file_row list) \<Rightarrow> string option \<Rightarrow> (nat \<Rightarrow> attempt_env) \<Rightarrow> string \<Rightarrow> string \<Rightarrow>
   string \<Rightarrow> history_service \<Rightarrow> (string, file_version) outcome \<times> history_service" where
  "CreateVersion arrange fault env sessionID path content sv =
     (case q_ListFilesByPath arrange fault path (hs_rows sv) of
        Err e \<Rightarrow> (Err e, sv)
      | Panic e \<Rightarrow> (Panic e, sv)
      | Ok [] \<Rightarrow> CreateFile env sessionID path content sv
      | Ok (latest # _) \<Rightarrow>
          createWithVersion env sessionID path content
            (next_version (fr_Version latest) (fr_CreatedAt latest)) sv)"

definition GetFile :: "string option \<Rightarrow> string \<Rightarrow> history_service \<Rightarrow> (string, file_version) outcome" where
  "GetFile fault i sv = obind (q_GetFile fault i (hs_rows sv)) (\<lambda>r. Ok (file_of_row r))"

definition GetByPathAndSession ::
  "(file_row list \<Rightarrow> file_row list) \<Rightarrow> string option \<Rightarrow> string \<Rightarrow> string \<Rightarrow> history_service \<Rightarrow>
   (string, file_version) outcome" where
  "GetByPathAndSession arrange fault path sessionID sv =
     obind (q_GetFileByPathAndSession arrange fault path sessionID (hs_rows sv)) (\<lambda>r. Ok (file_of_row r))"

definition ListBySession ::
  "(file_row list \<Rightarrow> file_row list) \<Rightarrow> string option \<Rightarrow> string \<Rightarrow> history_service \<Rightarrow>
   (string, file_version list) outcome" where
  "ListBySession arrange fault sessionID sv =
     obind (q_ListFilesBySession arrange fault sessionID (hs_rows sv)) (\<lambda>rs. Ok (map file_of_row rs))"

definition ListLatestSessionFiles ::
  "(file_row list \<Rightarrow> file_row list) \<Rightarrow> string option \<Rightarrow> string \<Rightarrow> history_service \<Rightarrow>
   (string, file_version list) outcome" where
  "ListLatestSessionFiles arrange fault sessionID sv =
     obind (q_ListLatestSessionFiles arrange fault sessionID (hs_rows sv)) (\<lambda>rs. Ok (map file_of_row rs))"

definition UpdateFile ::
  "string option \<Rightarrow> int \<Rightarrow> file_version \<Rightarrow> history_service \<Rightarrow>
   (string, file_version) outcome \<times> history_service" where
  "UpdateFile fault now file sv =
     (case q_UpdateFile fault now (fv_Content file) (fv_Version file) (fv_ID file) (hs_rows sv) of
        (Ok r, rows) \<Rightarrow> (Ok (file_of_row r),
          sv\<lparr>hs_rows := rows, hs_events := hs_events sv @ [FileUpdated (file_of_row r)]\<rparr>)
      | (Err e, rows) \<Rightarrow> (Err e, sv)
      | (Panic e, rows) \<Rightarrow> (Panic e, sv))"

definition DeleteFile ::
  "string option \<Rightarrow> string option \<Rightarrow> string \<Rightarrow> history_service \<Rightarrow>
   (string, unit) outcome \<times> history_service" where
  "DeleteFile faultG faultD i sv =
     (case GetFile faultG i sv of
        Err e \<Rightarrow> (Err e, sv)
      | Panic e \<Rightarrow> (Panic e, sv)
      | Ok file \<Rightarrow>
          (case q_DeleteFile faultD i (hs_rows sv) of
             (Ok _, rows) \<Rightarrow> (Ok (), sv\<lparr>hs_rows := rows, hs_events := hs_events sv @ [FileDeleted file]\<rparr>)
           | (Err e, rows) \<Rightarrow> (Err e, sv)
           | (Panic e, rows) \<Rightarrow> (Panic e, sv)))"

fun delete_files ::
  "(nat \<Rightarrow> string option) \<Rightarrow> (nat \<Rightarrow> string option) \<Rightarrow> nat \<Rightarrow> file_version list \<Rightarrow> history_service \<Rightarrow>
   (string, unit) outcome \<times> history_service" where
  "delete_files faultG faultD k [] sv = (Ok (), sv)"
| "delete_files faultG faultD k (f # fs) sv =
     (case DeleteFile (faultG k) (faultD k) (fv_ID f) sv of
        (Ok _, sv') \<Rightarrow> delete_files faultG faultD (Suc k) fs sv'
      | (Err e, sv') \<Rightarrow> (Err e, sv')
      | (Panic e, sv') \<Rightarrow> (Panic e, sv'))"

definition DeleteSessionFiles ::
  "(file_row list \<Rightarrow> file_row list) \<Rightarrow> string option \<Rightarrow> (nat \<Rightarrow> string option) \<Rightarrow> (nat \<Rightarrow> string option) \<Rightarrow>
   string \<Rightarrow> history_service \<Rightarrow> (string, unit) outcome \<times> history_service" where
  "DeleteSessionFiles arrange fault faultG faultD sessionID sv =
     (case ListBySession arrange fault sessionID sv of
        Ok fs \<Rightarrow> delete_files faultG faultD 0 fs sv
      | Err e \<Rightarrow> (Err e, sv)
      | Panic e \<Rightarrow> (Panic e, sv))"

text \<open>
  What the creation and the deletion of a session, \<open>q_CreateSession\<close> and \<open>q_DeleteSession\<close> of
  \<open>Session_Store\<close>, do to this state: the deletion cascades to the rows, and nothing is published
  about them.
\<close>

definition session_created :: "string \<Rightarrow> history_service \<Rightarrow> history_service" where
  "session_created sessionID sv = sv\<lparr>hs_sessions := List.insert sessionID (hs_sessions sv)\<rparr>"

definition session_deleted :: "string \<Rightarrow> history_service \<Rightarrow> history_service" where
  "session_deleted sessionID sv = sv\<lparr>hs_sessions := filter (\<lambda>i. i \<noteq> sessionID) (hs_sessions sv),
     hs_rows := filter (\<lambda>r. fr_SessionID r \<noteq> sessionID) (hs_rows sv)\<rparr>"

end
