(* ===== verification/File_History_Properties.thy ===== *)
theory File_History_Properties
  imports File_History Prelude
begin

text \<open>Which version number a new file gets, and that the published events tell the whole table.\<close>

section \<open>Version numbers\<close>

lemma numbered_inj: "0 \<le> m \<Longrightarrow> 0 \<le> n \<Longrightarrow> numbered m = numbered n \<longleftrightarrow> m = n"
  by (auto simp: numbered_def show_int_def show_nat_inject)

text \<open>The reference: the least of the three numbers from \<open>n\<close> on that no row of the session has.\<close>

definition version_taken :: "string \<Rightarrow> string \<Rightarrow> file_row list \<Rightarrow> int \<Rightarrow> bool" where
  "version_taken path sessionID rows n \<longleftrightarrow> (path, sessionID, numbered n) \<in> row_key ` set rows"

definition quiet :: "attempt_env \<Rightarrow> file_row list \<Rightarrow> bool" where
  "quiet a rows \<longleftrightarrow> ae_begin a = None \<and> ae_create a = None \<and> ae_commit a = None \<and>
     ae_uid a \<notin> fr_ID ` set rows"

definition version_row :: "attempt_env \<Rightarrow> string \<Rightarrow> string \<Rightarrow> string \<Rightarrow> int \<Rightarrow> file_row" where
  "version_row a sessionID path content n =
     \<lparr>fr_ID = ae_uid a, fr_SessionID = sessionID, fr_Path = path, fr_Content = content,
      fr_Version = numbered n, fr_CreatedAt = ae_dbNow a, fr_UpdatedAt = ae_dbNow a\<rparr>"

fun first_free ::
  "attempt_env list \<Rightarrow> string \<Rightarrow> string \<Rightarrow> string \<Rightarrow> int \<Rightarrow> file_row list \<Rightarrow> file_row option" where
  "first_free [] sessionID path content n rows = None"
| "first_free (a # as) sessionID path content n rows =
     (if version_taken path sessionID rows n
      then first_free as sessionID path content (n + 1) rows
      else Some (version_row a sessionID path content n))"

lemma next_of_numbered: "0 \<le> n \<Longrightarrow> n + 1 < 2 ^ 63 \<Longrightarrow> next_version (numbered n) t = numbered (n + 1)"
  by (simp add: next_version_def numbered_def show_int_def atoi_show_nat wrap64_def InitialVersion_def add.commute)

lemma next_of_initial: "next_version InitialVersion t = numbered 1"
  by code_simp

lemma retry_of_numbered: "0 \<le> n \<Longrightarrow> n + 1 < 2 ^ 63 \<Longrightarrow> retry_version (numbered n) t = numbered (n + 1)"
  by (simp add: retry_version_def numbered_def show_int_def atoi_show_nat wrap64_def add.commute)

definition taken_text :: string where
  "taken_text = unique_text @ '': files.path, files.session_id, files.version''"

lemma taken_is_unique: "contains_str taken_text unique_text"
  by code_simp

lemma q_CreateFile_numbered:
  assumes "quiet a rows" and "sessionID \<in> set sessions"
  shows "q_CreateFile (ae_create a) (ae_dbNow a) sessions
      \<lparr>fr_ID = ae_uid a, fr_SessionID = sessionID, fr_Path = path, fr_Content = content,
       fr_Version = numbered n, fr_CreatedAt = 0, fr_UpdatedAt = 0\<rparr> rows =
    (if version_taken path sessionID rows n then (Err taken_text, rows)
     else (Ok (version_row a sessionID path content n), rows @ [version_row a sessionID path content n]))"
  using assms unfolding quiet_def q_CreateFile_def version_taken_def version_row_def taken_text_def
  by (simp add: row_key_def Let_def)

lemma create_attempts_first_free:
  assumes "\<forall>a \<in> set as. quiet a (hs_rows sv)" and "0 \<le> n" and "n + int (length as) < 2 ^ 63" and "as \<noteq> []"
    and there: "sessionID \<in> set (hs_sessions sv)"
  shows "create_attempts as sessionID path content (numbered n) sv =
    (case first_free as sessionID path content n (hs_rows sv) of
       None \<Rightarrow> (Err taken_text, sv)
     | Some row \<Rightarrow> (Ok (file_of_row row),
         sv\<lparr>hs_rows := hs_rows sv @ [row], hs_events := hs_events sv @ [FileCreated (file_of_row row)]\<rparr>))"
  using assms(1-4)
proof (induction as arbitrary: n)
  case (Cons a as)
  then have a: "quiet a (hs_rows sv)" by simp
  then have env: "ae_begin a = None" "ae_commit a = None" by (simp_all add: quiet_def)
  show ?case
  proof (cases "as = []")
    case True
    then show ?thesis using env by (simp add: q_CreateFile_numbered [OF a there] version_row_def)
  next
    case False
    then have "create_attempts as sessionID path content (numbered (n + 1)) sv =
        (case first_free as sessionID path content (n + 1) (hs_rows sv) of
           None \<Rightarrow> (Err taken_text, sv)
         | Some row \<Rightarrow> (Ok (file_of_row row),
             sv\<lparr>hs_rows := hs_rows sv @ [row], hs_events := hs_events sv @ [FileCreated (file_of_row row)]\<rparr>))"
      using Cons.prems by (intro Cons.IH) auto
    then show ?thesis using env False Cons.prems(2,3)
      by (simp add: q_CreateFile_numbered [OF a there] retry_of_numbered taken_is_unique)
  qed
qed simp

text \<open>\<open>ORDER BY created_at DESC\<close>.\<close>

definition created_later :: "file_row \<Rightarrow> file_row \<Rightarrow> bool" where
  "created_later a b \<longleftrightarrow> fr_CreatedAt b < fr_CreatedAt a"

interpretation later_lt: weak_lt created_later
  by unfold_locales (auto simp: created_later_def)

lemma latest_comes_first:
  assumes "sort_Slice created_later arrange" and "r \<in> set rows" and "fr_Path r = path"
    and "list_all (\<lambda>q. fr_Path q = path \<longrightarrow> q = r \<or> fr_CreatedAt q < fr_CreatedAt r) rows"
  shows "\<exists>rest. arrange (filter (\<lambda>r. fr_Path r = path) rows) = r # rest"
proof -
  let ?xs = "filter (\<lambda>r. fr_Path r = path) rows"
  have sorted: "slice_sorted created_later (arrange ?xs)" and "mset (arrange ?xs) = mset ?xs"
    using assms(1) by (auto simp: sort_Slice_def)
  then have set: "set (arrange ?xs) = set ?xs" by (rule_tac mset_eq_setD)
  then obtain h rest where a: "arrange ?xs = h # rest"
    using assms(2,3) by (cases "arrange ?xs") auto
  have "h = r"
  proof (rule ccontr)
    assume "h \<noteq> r"
    then have "r \<in> set rest" and "fr_CreatedAt h < fr_CreatedAt r"
      using set a assms(2-4) by (auto simp: list_all_iff)
    then show False using sorted a by (auto simp: slice_sorted_def created_later_def)
  qed
  then show ?thesis using a by simp
qed

definition version_number :: "string \<Rightarrow> int \<Rightarrow> bool" where
  "version_number v n \<longleftrightarrow> (if n = 0 then v = InitialVersion else v = numbered n)"

text \<open>
  With the number \<open>n\<close> on the one latest row of a path (0 for the initial
  version), a session that exists and no fault, \<open>CreateVersion\<close> appends one row with the first of the numbers
  \<open>n + 1\<close>, \<open>n + 2\<close> and \<open>n + 3\<close> that the session does not have for the path, and announces it;
  if it has all three, the insertion's error is returned and nothing changes.
\<close>

theorem next_version_is_first_free:
  assumes "sort_Slice created_later arrange" and "r \<in> set (hs_rows sv)" and "fr_Path r = path"
    and "list_all (\<lambda>q. fr_Path q = path \<longrightarrow> q = r \<or> fr_CreatedAt q < fr_CreatedAt r) (hs_rows sv)"
    and "version_number (fr_Version r) n" and "0 \<le> n" and "n + 4 < 2 ^ 63"
    and "quiet (env 0) (hs_rows sv)" and "quiet (env 1) (hs_rows sv)" and "quiet (env 2) (hs_rows sv)"
    and "sessionID \<in> set (hs_sessions sv)"
  shows "CreateVersion arrange None env sessionID path content sv =
    (case first_free [env 0, env 1, env 2] sessionID path content (n + 1) (hs_rows sv) of
       None \<Rightarrow> (Err taken_text, sv)
     | Some row \<Rightarrow> (Ok (file_of_row row),
         sv\<lparr>hs_rows := hs_rows sv @ [row], hs_events := hs_events sv @ [FileCreated (file_of_row row)]\<rparr>))"
proof -
  have succ: "next_version (fr_Version r) (fr_CreatedAt r) = numbered (n + 1)"
    using assms(5-7) next_of_numbered [of n] next_of_initial
    by (simp add: version_number_def split: if_splits)
  have three: "map env [0..<3] = [env 0, env 1, env 2]" by (simp add: numeral_3_eq_3 numeral_2_eq_2)
  have "CreateVersion arrange None env sessionID path content sv =
      create_attempts [env 0, env 1, env 2] sessionID path content (numbered (n + 1)) sv"
    using latest_comes_first [OF assms(1-4)] succ
    by (auto simp: CreateVersion_def q_ListFilesByPath_def createWithVersion_def three
        simp del: create_attempts.simps)
  also have "\<dots> = (case first_free [env 0, env 1, env 2] sessionID path content (n + 1) (hs_rows sv) of
       None \<Rightarrow> (Err taken_text, sv)
     | Some row \<Rightarrow> (Ok (file_of_row row),
         sv\<lparr>hs_rows := hs_rows sv @ [row], hs_events := hs_events sv @ [FileCreated (file_of_row row)]\<rparr>))"
    using assms(6-) by (intro create_attempts_first_free) auto
  finally show ?thesis .
qed

text \<open>The witness: the session's own rows have taken \<open>v1\<close>.\<close>

definition sample_env :: "nat \<Rightarrow> attempt_env" where
  "sample_env k = \<lparr>ae_uid = [char_of (97 + k)], ae_dbNow = 9, ae_now = 9, ae_begin = None,
     ae_create = None, ae_commit = None\<rparr>"

definition sample_row :: "string \<Rightarrow> string \<Rightarrow> int \<Rightarrow> file_row" where
  "sample_row i v t = \<lparr>fr_ID = i, fr_SessionID = ''s'', fr_Path = ''p'', fr_Content = [],
     fr_Version = v, fr_CreatedAt = t, fr_UpdatedAt = t\<rparr>"

definition sample_history :: history_service where
  "sample_history = \<lparr>hs_sessions = [''s''], hs_rows = [sample_row ''1'' ''v1'' 3, sample_row ''2'' ''initial'' 5], hs_events = []\<rparr>"

theorem next_version_is_first_free_witness:
  "CreateVersion (sort_by created_later) None sample_env ''s'' ''p'' ''x'' sample_history =
     (case first_free [sample_env 0, sample_env 1, sample_env 2] ''s'' ''p'' ''x'' (0 + 1) (hs_rows sample_history) of
       None \<Rightarrow> (Err taken_text, sample_history)
     | Some row \<Rightarrow> (Ok (file_of_row row),
         sample_history\<lparr>hs_rows := hs_rows sample_history @ [row],
           hs_events := hs_events sample_history @ [FileCreated (file_of_row row)]\<rparr>))
   \<and> first_free [sample_env 0, sample_env 1, sample_env 2] ''s'' ''p'' ''x'' (0 + 1) (hs_rows sample_history)
      = Some (version_row (sample_env 1) ''s'' ''p'' ''x'' 2)"
proof
  show "CreateVersion (sort_by created_later) None sample_env ''s'' ''p'' ''x'' sample_history =
     (case first_free [sample_env 0, sample_env 1, sample_env 2] ''s'' ''p'' ''x'' (0 + 1) (hs_rows sample_history) of
       None \<Rightarrow> (Err taken_text, sample_history)
     | Some row \<Rightarrow> (Ok (file_of_row row),
         sample_history\<lparr>hs_rows := hs_rows sample_history @ [row],
           hs_events := hs_events sample_history @ [FileCreated (file_of_row row)]\<rparr>))"
  proof (rule next_version_is_first_free [OF later_lt.sort_by_sorts])
    show "sample_row ''2'' ''initial'' 5 \<in> set (hs_rows sample_history)"
      by (simp add: sample_history_def)
    show "version_number (fr_Version (sample_row ''2'' ''initial'' 5)) 0" by code_simp
  qed code_simp+
qed code_simp

section \<open>The events tell the table\<close>

text \<open>What a subscriber does that keeps its own copy of the files.\<close>

fun replay_event :: "file_version list \<Rightarrow> file_event \<Rightarrow> file_version list" where
  "replay_event fs (FileCreated f) = fs @ [f]"
| "replay_event fs (FileUpdated f) = map (\<lambda>g. if fv_ID g = fv_ID f then f else g) fs"
| "replay_event fs (FileDeleted f) = filter (\<lambda>g. fv_ID g \<noteq> fv_ID f) fs"

definition replay :: "file_event list \<Rightarrow> file_version list" where
  "replay = foldl replay_event []"

lemma replay_snoc [simp]: "replay (evs @ [ev]) = replay_event (replay evs) ev"
  by (simp add: replay_def)

text \<open>
  \<open>gone\<close> are the rows that vanished with their sessions. The copy of the subscriber is the table, in
  its order, once their files are left out, and it still has every one of them.
\<close>

definition copy_of :: "file_row list \<Rightarrow> file_row list \<Rightarrow> file_version list \<Rightarrow> bool" where
  "copy_of gone rows fs \<longleftrightarrow> filter (\<lambda>f. fv_ID f \<notin> fr_ID ` set gone) fs = map file_of_row rows \<and>
     file_of_row ` set gone \<subseteq> set fs"

definition history_ok :: "file_row list \<Rightarrow> history_service \<Rightarrow> bool" where
  "history_ok gone sv \<longleftrightarrow> distinct (map fr_ID (hs_rows sv)) \<and> distinct (map row_key (hs_rows sv)) \<and>
     fr_SessionID ` set (hs_rows sv) \<subseteq> set (hs_sessions sv) \<and>
     copy_of gone (hs_rows sv) (replay (hs_events sv))"

lemma file_of_row_ID [simp]: "fv_ID (file_of_row r) = fr_ID r"
  by (simp add: file_of_row_def)

lemma copy_row:
  assumes "copy_of gone rows fs" and "r \<in> set rows"
  shows "file_of_row r \<in> set fs" and "fr_ID r \<notin> fr_ID ` set gone"
proof -
  have "set (filter (\<lambda>f. fv_ID f \<notin> fr_ID ` set gone) fs) = set (map file_of_row rows)"
    using assms(1) by (simp only: copy_of_def)
  then have "file_of_row r \<in> {f \<in> set fs. fv_ID f \<notin> fr_ID ` set gone}" using assms(2) by auto
  then show "file_of_row r \<in> set fs" "fr_ID r \<notin> fr_ID ` set gone" by simp_all
qed

lemma copy_created:
  "copy_of gone rows fs \<Longrightarrow> fr_ID r \<notin> fr_ID ` set gone \<Longrightarrow> copy_of gone (rows @ [r]) (fs @ [file_of_row r])"
  by (auto simp: copy_of_def)

lemma copy_updated:
  assumes "copy_of gone rows fs" and "fr_ID r = i" and "i \<notin> fr_ID ` set gone"
  shows "copy_of gone (map (\<lambda>q. if fr_ID q = i then r else q) rows) (map (\<lambda>g. if fv_ID g = i then file_of_row r else g) fs)"
proof -
  have "filter (\<lambda>f. fv_ID f \<notin> fr_ID ` set gone) (map (\<lambda>g. if fv_ID g = i then file_of_row r else g) fs) =
      map (\<lambda>g. if fv_ID g = i then file_of_row r else g) (filter (\<lambda>f. fv_ID f \<notin> fr_ID ` set gone) fs)"
    using assms(2,3) by (induction fs) auto
  moreover have "file_of_row q \<in> set (map (\<lambda>g. if fv_ID g = i then file_of_row r else g) fs)" if "q \<in> set gone" for q
    using assms(1,3) that by (force simp: copy_of_def image_iff)
  ultimately show ?thesis using assms(1,2) by (auto simp: copy_of_def simp del: set_map)
qed

lemma copy_deleted:
  assumes "copy_of gone rows fs" and "i \<notin> fr_ID ` set gone"
  shows "copy_of gone (filter (\<lambda>r. fr_ID r \<noteq> i) rows) (filter (\<lambda>g. fv_ID g \<noteq> i) fs)"
proof -
  have "filter (\<lambda>f. fv_ID f \<notin> fr_ID ` set gone) (filter (\<lambda>g. fv_ID g \<noteq> i) fs) =
      filter (\<lambda>g. fv_ID g \<noteq> i) (filter (\<lambda>f. fv_ID f \<notin> fr_ID ` set gone) fs)"
    by (simp add: conj_commute)
  also have "\<dots> = map file_of_row (filter (\<lambda>r. fr_ID r \<noteq> i) rows)"
    using assms(1) by (simp only: copy_of_def filter_map) (simp add: comp_def)
  finally show ?thesis using assms by (auto simp: copy_of_def)
qed

lemma copy_vanished:
  assumes "copy_of gone rows fs" and "distinct (map fr_ID rows)"
  shows "copy_of (gone @ filter (\<lambda>r. \<not> P r) rows) (filter P rows) fs"
proof -
  let ?out = "filter (\<lambda>r. \<not> P r) rows"
  have mine: "fr_ID r \<in> fr_ID ` set ?out \<longleftrightarrow> \<not> P r" if "r \<in> set rows" for r
    using that assms(2) by (auto simp: distinct_map inj_on_def)
  have "filter (\<lambda>f. fv_ID f \<notin> fr_ID ` set (gone @ ?out)) fs =
      filter (\<lambda>f. fv_ID f \<notin> fr_ID ` set ?out) (filter (\<lambda>f. fv_ID f \<notin> fr_ID ` set gone) fs)"
    unfolding filter_filter set_append image_Un by (intro filter_cong) auto
  also have "\<dots> = map file_of_row (filter (\<lambda>r. fr_ID r \<notin> fr_ID ` set ?out) rows)"
    using assms(1) by (simp only: copy_of_def filter_map) (simp add: comp_def)
  also have "filter (\<lambda>r. fr_ID r \<notin> fr_ID ` set ?out) rows = filter P rows"
    using mine by (intro filter_cong) auto
  finally have "filter (\<lambda>f. fv_ID f \<notin> fr_ID ` set (gone @ ?out)) fs = map file_of_row (filter P rows)" .
  then show ?thesis using assms(1) copy_row(1) [OF assms(1)] by (auto simp: copy_of_def)
qed

text \<open>An operation keeps the invariant when the identifiers it draws are new.\<close>

definition new_ids :: "file_row list \<Rightarrow> (nat \<Rightarrow> attempt_env) \<Rightarrow> bool" where
  "new_ids gone env \<longleftrightarrow> (\<forall>k. ae_uid (env k) \<notin> fr_ID ` set gone)"

lemma create_attempts_ok:
  "history_ok gone sv \<Longrightarrow> list_all (\<lambda>a. ae_uid a \<notin> fr_ID ` set gone) as \<Longrightarrow>
   history_ok gone (snd (create_attempts as sid path content v sv))"
proof (induction as arbitrary: v)
  case (Cons a as)
  obtain res rows where q: "q_CreateFile (ae_create a) (ae_dbNow a) (hs_sessions sv)
      \<lparr>fr_ID = ae_uid a, fr_SessionID = sid, fr_Path = path, fr_Content = content, fr_Version = v,
       fr_CreatedAt = 0, fr_UpdatedAt = 0\<rparr> (hs_rows sv) = (res, rows)" by fastforce
  show ?case
  proof (cases res)
    case (Ok row)
    then have row: "rows = hs_rows sv @ [row]" "fr_ID row = ae_uid a" "fr_ID row \<notin> fr_ID ` set (hs_rows sv)"
        "row_key row \<notin> row_key ` set (hs_rows sv)" "fr_SessionID row \<in> set (hs_sessions sv)"
      using q by (auto simp: q_CreateFile_def Let_def row_key_def split: option.splits if_splits)
    have "copy_of gone (hs_rows sv @ [row]) (replay (hs_events sv) @ [file_of_row row])"
      using Cons.prems row(2) by (intro copy_created) (simp_all add: history_ok_def)
    then show ?thesis
      using Cons.prems q Ok row by (simp add: history_ok_def split: option.split)
  qed (use Cons q in \<open>auto split: option.split\<close>)
qed simp

lemma createWithVersion_ok:
  "history_ok gone sv \<Longrightarrow> new_ids gone env \<Longrightarrow> history_ok gone (snd (createWithVersion env sid path content v sv))"
  by (simp add: createWithVersion_def create_attempts_ok new_ids_def list_all_iff)

lemma CreateFile_ok:
  "history_ok gone sv \<Longrightarrow> new_ids gone env \<Longrightarrow> history_ok gone (snd (CreateFile env sid path content sv))"
  by (simp add: CreateFile_def createWithVersion_ok)

lemma CreateVersion_ok:
  "history_ok gone sv \<Longrightarrow> new_ids gone env \<Longrightarrow>
   history_ok gone (snd (CreateVersion arrange fault env sid path content sv))"
  by (simp add: CreateVersion_def CreateFile_ok createWithVersion_ok split: outcome.split list.split)

lemma distinct_map_replace:
  assumes "distinct (map f xs)" and "distinct (map g xs)" and "g y = i"
    and "\<forall>x \<in> set xs. g x \<noteq> i \<longrightarrow> f x \<noteq> f y"
  shows "distinct (map (\<lambda>x. f (if g x = i then y else x)) xs)"
  using assms
proof (induction xs)
  case (Cons x xs)
  show ?case
  proof (cases "g x = i")
    case True
    then have "\<forall>z \<in> set xs. g z \<noteq> i" using Cons.prems(2) by (auto simp: image_iff)
    then have same: "map (\<lambda>x. f (if g x = i then y else x)) xs = map f xs" and "f y \<notin> f ` set xs"
      using Cons.prems(4) by auto
    moreover have "f y \<notin> set (map (\<lambda>x. f (if g x = i then y else x)) xs)"
      unfolding same using calculation(2) by simp
    ultimately show ?thesis using True Cons.prems(1) by (simp only: list.map distinct.simps same) simp
  next
    case False
    then have "f x \<notin> (\<lambda>x. f (if g x = i then y else x)) ` set xs"
      using Cons.prems(1,4) by (auto simp: image_iff split: if_splits)
    moreover have "distinct (map (\<lambda>x. f (if g x = i then y else x)) xs)"
      using Cons.prems by (intro Cons.IH) auto
    ultimately show ?thesis using False by simp
  qed
qed simp

lemma UpdateFile_ok:
  assumes "history_ok gone sv"
  shows "history_ok gone (snd (UpdateFile fault now f sv))"
proof (cases "q_UpdateFile fault now (fv_Content f) (fv_Version f) (fv_ID f) (hs_rows sv)")
  case (Pair res rows)
  show ?thesis
  proof (cases res)
    case (Ok r')
    obtain r where find: "find (\<lambda>r. fr_ID r = fv_ID f) (hs_rows sv) = Some r" and "fault = None"
      using Ok Pair by (auto simp: q_UpdateFile_def split: option.splits)
    then have r': "r' = r\<lparr>fr_Content := fv_Content f, fr_Version := fv_Version f, fr_UpdatedAt := now\<rparr>"
      and rows: "rows = map (\<lambda>q. if fr_ID q = fv_ID f then r' else q) (hs_rows sv)"
      and new: "\<forall>q \<in> set (hs_rows sv). fr_ID q \<noteq> fv_ID f \<longrightarrow> row_key q \<noteq> row_key r'"
      using Ok Pair by (auto simp: q_UpdateFile_def Let_def split: if_splits)
    have r: "r \<in> set (hs_rows sv)" "fr_ID r = fv_ID f" using find by (auto simp: find_Some_iff)
    have ids: "map fr_ID rows = map fr_ID (hs_rows sv)" using r r' by (simp add: rows)
    have "distinct (map row_key rows)"
      using assms r r' new distinct_map_replace [of row_key "hs_rows sv" fr_ID r' "fv_ID f"]
      by (simp add: rows history_ok_def comp_def)
    moreover have "distinct (map fr_ID rows)"
      using assms by (simp only: ids) (simp add: history_ok_def)
    moreover have "fr_SessionID ` set rows \<subseteq> set (hs_sessions sv)"
      using assms r r' by (auto simp: rows history_ok_def)
    moreover have "fv_ID f \<notin> fr_ID ` set gone"
      using assms r copy_row(2) by (metis history_ok_def)
    then have "copy_of gone rows (map (\<lambda>g. if fv_ID g = fv_ID f then file_of_row r' else g) (replay (hs_events sv)))"
      unfolding rows using assms r r' by (intro copy_updated) (simp_all add: history_ok_def)
    moreover have "fr_ID r' = fv_ID f" using r r' by simp
    ultimately show ?thesis using assms Ok Pair by (simp add: UpdateFile_def history_ok_def)
  qed (use assms Pair in \<open>simp_all add: UpdateFile_def\<close>)
qed

lemma DeleteFile_ok:
  assumes "history_ok gone sv"
  shows "history_ok gone (snd (DeleteFile faultG faultD i sv))"
proof (cases "faultG = None \<and> faultD = None")
  case none: True
  show ?thesis
  proof (cases "find (\<lambda>r. fr_ID r = i) (hs_rows sv)")
    case (Some r)
    then have r: "r \<in> set (hs_rows sv)" "fr_ID r = i" by (auto simp: find_Some_iff)
    then have "i \<notin> fr_ID ` set gone" using assms copy_row(2) by (metis history_ok_def)
    then have "copy_of gone (filter (\<lambda>r. fr_ID r \<noteq> i) (hs_rows sv)) (filter (\<lambda>g. fv_ID g \<noteq> i) (replay (hs_events sv)))"
      using assms by (intro copy_deleted) (simp_all add: history_ok_def)
    then show ?thesis
      using assms none Some r
      by (auto simp: DeleteFile_def GetFile_def q_GetFile_def q_DeleteFile_def history_ok_def distinct_map_filter)
  qed (use assms none in \<open>simp add: DeleteFile_def GetFile_def q_GetFile_def\<close>)
qed (use assms in \<open>auto simp: DeleteFile_def GetFile_def q_GetFile_def q_DeleteFile_def split: option.split\<close>)

lemma delete_files_ok: "history_ok gone sv \<Longrightarrow> history_ok gone (snd (delete_files faultG faultD k fs sv))"
proof (induction fs arbitrary: k sv)
  case (Cons f fs)
  show ?case
    using Cons.IH [of "snd (DeleteFile (faultG k) (faultD k) (fv_ID f) sv)"]
      DeleteFile_ok [OF Cons.prems, of "faultG k" "faultD k" "fv_ID f"]
    by (auto split: prod.split outcome.split)
qed simp

lemma DeleteSessionFiles_ok:
  "history_ok gone sv \<Longrightarrow> history_ok gone (snd (DeleteSessionFiles arrange fault faultG faultD sid sv))"
  by (simp add: DeleteSessionFiles_def delete_files_ok split: outcome.split)

lemma session_created_ok: "history_ok gone sv \<Longrightarrow> history_ok gone (session_created sid sv)"
  by (auto simp: history_ok_def session_created_def)

lemma session_deleted_ok:
  assumes "history_ok gone sv"
  shows "history_ok (gone @ filter (\<lambda>r. fr_SessionID r = sid) (hs_rows sv)) (session_deleted sid sv)"
  using assms copy_vanished [of gone "hs_rows sv" "replay (hs_events sv)" "\<lambda>r. fr_SessionID r \<noteq> sid"]
  by (auto simp: history_ok_def session_deleted_def distinct_map_filter)

text \<open>
  The states that the operations, and the creation and deletion of sessions, reach from the empty
  tables, in any order and with any faults. The identifiers that are drawn are not those of rows that
  vanished before, as \<open>uuid.New\<close> promises.
\<close>

inductive history_reachable :: "file_row list \<Rightarrow> history_service \<Rightarrow> bool" where
  hr_new: "history_reachable [] \<lparr>hs_sessions = [], hs_rows = [], hs_events = []\<rparr>"
| hr_create: "history_reachable gone sv \<Longrightarrow> new_ids gone env \<Longrightarrow>
    history_reachable gone (snd (CreateFile env sid path content sv))"
| hr_version: "history_reachable gone sv \<Longrightarrow> new_ids gone env \<Longrightarrow>
    history_reachable gone (snd (CreateVersion arrange fault env sid path content sv))"
| hr_update: "history_reachable gone sv \<Longrightarrow> history_reachable gone (snd (UpdateFile fault now f sv))"
| hr_delete: "history_reachable gone sv \<Longrightarrow> history_reachable gone (snd (DeleteFile faultG faultD i sv))"
| hr_session: "history_reachable gone sv \<Longrightarrow>
    history_reachable gone (snd (DeleteSessionFiles arrange fault faultGs faultDs sid sv))"
| hr_session_created: "history_reachable gone sv \<Longrightarrow> history_reachable gone (session_created sid sv)"
| hr_session_deleted: "history_reachable gone sv \<Longrightarrow>
    history_reachable (gone @ filter (\<lambda>r. fr_SessionID r = sid) (hs_rows sv)) (session_deleted sid sv)"

text \<open>
  Property C16. Whatever operations ran and failed, and whatever sessions came and went, a subscriber
  that applies the published events in order holds the files of the table, in its order, and beside
  them exactly the files that vanished with their sessions: no event tells of those. The table has no
  two rows with one identifier, or with the same path, session and version, and no row without its
  session.
\<close>

theorem file_events_tell_the_table:
  assumes "history_reachable gone sv"
  shows "filter (\<lambda>f. fv_ID f \<notin> fr_ID ` set gone) (replay (hs_events sv)) = map file_of_row (hs_rows sv) \<and>
    file_of_row ` set gone \<subseteq> set (replay (hs_events sv)) \<and>
    distinct (map fr_ID (hs_rows sv)) \<and> distinct (map row_key (hs_rows sv)) \<and>
    fr_SessionID ` set (hs_rows sv) \<subseteq> set (hs_sessions sv)"
proof -
  from assms have "history_ok gone sv"
    by induction (simp_all add: CreateFile_ok CreateVersion_ok UpdateFile_ok DeleteFile_ok
        DeleteSessionFiles_ok session_created_ok session_deleted_ok,
        simp add: history_ok_def replay_def copy_of_def)
  then show ?thesis by (simp add: history_ok_def copy_of_def)
qed

definition sample_run :: history_service where
  "sample_run =
     session_deleted ''s''
       (snd (DeleteFile None None ''a''
         (snd (CreateVersion (sort_by created_later) None (\<lambda>k. sample_env (k + 1)) ''s'' ''p'' ''x''
           (snd (CreateFile sample_env ''s'' ''p'' ''y''
             (session_created ''s'' \<lparr>hs_sessions = [], hs_rows = [], hs_events = []\<rparr>)))))))"

text \<open>The witness: of two versions one is deleted, the other vanishes with the session.\<close>

theorem file_events_tell_the_table_witness:
  "\<exists>r. fr_ID r = ''b'' \<and> file_of_row ` {r} \<subseteq> set (replay (hs_events sample_run)) \<and> hs_rows sample_run = []"
proof -
  let ?before = "snd (DeleteFile None None ''a''
         (snd (CreateVersion (sort_by created_later) None (\<lambda>k. sample_env (k + 1)) ''s'' ''p'' ''x''
           (snd (CreateFile sample_env ''s'' ''p'' ''y''
             (session_created ''s'' \<lparr>hs_sessions = [], hs_rows = [], hs_events = []\<rparr>))))))"
  have "history_reachable ([] @ filter (\<lambda>r. fr_SessionID r = ''s'') (hs_rows ?before)) sample_run"
    unfolding sample_run_def by (intro history_reachable.intros) (simp_all add: new_ids_def)
  moreover have "map fr_ID (filter (\<lambda>r. fr_SessionID r = ''s'') (hs_rows ?before)) = [''b'']" by code_simp
  then obtain r where "filter (\<lambda>r. fr_SessionID r = ''s'') (hs_rows ?before) = [r]" "fr_ID r = ''b''"
    by (auto simp: map_eq_Cons_conv)
  moreover have "hs_rows sample_run = []" by code_simp
  ultimately have "history_reachable [r] sample_run" "fr_ID r = ''b''" "hs_rows sample_run = []" by auto
  with file_events_tell_the_table [of "[r]" sample_run] show ?thesis by auto
qed

section \<open>The latest files of a session\<close>

text \<open>
  A path of a session is listed only if no other session has written it later: the query takes
  the latest time of the path over all sessions.
\<close>

theorem latest_files_yield_to_other_sessions:
  assumes "sort_Slice created_later arrange" and "ListLatestSessionFiles arrange None sid sv = Ok fs"
  shows "(path \<in> fv_Path ` set fs) =
    (\<exists>r \<in> set (hs_rows sv). fr_Path r = path \<and> fr_SessionID r = sid \<and>
       list_all (\<lambda>q. fr_Path q = path \<longrightarrow> fr_CreatedAt q \<le> fr_CreatedAt r) (hs_rows sv))"
proof -
  have latest: "fr_CreatedAt r = latest_time (fr_Path r) (hs_rows sv) \<longleftrightarrow>
      list_all (\<lambda>q. fr_Path q = fr_Path r \<longrightarrow> fr_CreatedAt q \<le> fr_CreatedAt r) (hs_rows sv)"
    if "r \<in> set (hs_rows sv)" for r
  proof -
    let ?T = "fr_CreatedAt ` set (filter (\<lambda>q. fr_Path q = fr_Path r) (hs_rows sv))"
    have "fr_CreatedAt r \<in> ?T" using that by auto
    then have "fr_CreatedAt r = Max ?T \<longleftrightarrow> (\<forall>t \<in> ?T. t \<le> fr_CreatedAt r)"
      by (metis List.finite_set Max.coboundedI Max_eqI finite_imageI)
    then show ?thesis by (auto simp: latest_time_def list_all_iff)
  qed
  have sel: "mset (arrange ys) = mset ys" for ys using assms(1) by (simp add: sort_Slice_def)
  have set: "set (arrange ys) = set ys" for ys by (rule mset_eq_setD [OF sel])
  have "fv_Path ` set fs = fr_Path ` {r \<in> set (hs_rows sv). fr_SessionID r = sid \<and>
      fr_CreatedAt r = latest_time (fr_Path r) (hs_rows sv)}"
    using assms(2) set
    by (auto simp: ListLatestSessionFiles_def q_ListLatestSessionFiles_def file_of_row_def image_image)
  then show ?thesis using latest by (auto simp: image_iff)
qed

end
