(* ===== verification/Causal_Pearl.thy ===== *)
theory Causal_Pearl
  imports Causal_Merkle Sort_Slice Complex_Main
begin

text \<open>
  The typed causal graph as the older chain of texts and back (\<open>internal/agency/causal_graph.go\<close>)
  and the loop from abduction over actions to a prediction (\<open>internal/agency/pearl_loop.go\<close>).
  A floating-point number is the real it stands for, and every operation rounds; weights are
  finite, so the branches for infinities are not there. What the processor and the libraries
  bring is in \<open>causal_env\<close>: the rounding, \<open>math.Exp\<close>, \<open>strconv.ParseFloat\<close>, the
  text of a number for a format, \<open>strings.ToLower\<close>, SHA-256, the code points of a text and the
  random numbers below a bound that a seed gives.
  \<open>sort.SliceStable\<close> is \<^const>\<open>sort_by\<close>, which is stable.
\<close>

section \<open>Numbers\<close>

record causal_env =
  ce_Round :: "real \<Rightarrow> real"
  ce_Exp :: "real \<Rightarrow> real"
  ce_ParseFloat :: "string \<Rightarrow> real option"
  ce_Format :: "string \<Rightarrow> real \<Rightarrow> string"
  ce_Lower :: "string \<Rightarrow> string"
  ce_Sha :: "string \<Rightarrow> string"
  ce_Runes :: "string \<Rightarrow> nat list"
  ce_Draw :: "int \<Rightarrow> nat \<Rightarrow> nat \<Rightarrow> nat"

definition fadd :: "causal_env \<Rightarrow> real \<Rightarrow> real \<Rightarrow> real" where
  "fadd E a b = ce_Round E (a + b)"

definition fsub :: "causal_env \<Rightarrow> real \<Rightarrow> real \<Rightarrow> real" where
  "fsub E a b = ce_Round E (a - b)"

definition fmul :: "causal_env \<Rightarrow> real \<Rightarrow> real \<Rightarrow> real" where
  "fmul E a b = ce_Round E (a * b)"

definition fdiv :: "causal_env \<Rightarrow> real \<Rightarrow> real \<Rightarrow> real" where
  "fdiv E a b = ce_Round E (a / b)"

text \<open>The squashing function of every score.\<close>

definition sigmoid :: "causal_env \<Rightarrow> real \<Rightarrow> real" where
  "sigmoid E x = fdiv E 1 (fadd E 1 (ce_Exp E (- x)))"

section \<open>The chain of texts\<close>

definition NodeRoleEvidence :: string where "NodeRoleEvidence = ''evidence''"
definition NodeRoleConfounder :: string where "NodeRoleConfounder = ''confounder''"
definition NodeRoleIntervention :: string where "NodeRoleIntervention = ''intervention''"
definition NodeRoleOutcome :: string where "NodeRoleOutcome = ''outcome''"
definition NodeRoleUnknown :: string where "NodeRoleUnknown = ''unknown''"

lemmas node_roles = NodeRoleEvidence_def NodeRoleConfounder_def NodeRoleIntervention_def
  NodeRoleOutcome_def NodeRoleUnknown_def

text \<open>A role that is not in the table counts like an outcome: the map answers zero.\<close>

definition roleOrder :: "string \<Rightarrow> int" where
  "roleOrder r =
     (if r = NodeRoleOutcome then 0 else if r = NodeRoleIntervention then 1
      else if r = NodeRoleEvidence then 2 else if r = NodeRoleConfounder then 3
      else if r = NodeRoleUnknown then 4 else 0)"

definition chain_before :: "real causal_node \<Rightarrow> real causal_node \<Rightarrow> bool" where
  "chain_before a b =
     (if roleOrder (cn_Role a) \<noteq> roleOrder (cn_Role b) then roleOrder (cn_Role a) < roleOrder (cn_Role b)
      else if cn_Weight a \<noteq> cn_Weight b then cn_Weight a > cn_Weight b
      else str_less (cn_ID a) (cn_ID b))"

definition chain_label :: "real causal_node \<Rightarrow> string" where
  "chain_label n =
     (let label = (if trim_space (cn_Summary n) = [] then cn_ID n else trim_space (cn_Summary n)) in
      if cn_Role n \<noteq> [] \<and> cn_Role n \<noteq> NodeRoleUnknown then cn_Role n @ '': '' @ label else label)"

definition FlatChain :: "real causal_graph option \<Rightarrow> string list" where
  "FlatChain g = (case g of
     None \<Rightarrow> []
   | Some c \<Rightarrow> if cg_Nodes c = [] then [] else map chain_label (sort_by chain_before (cg_Nodes c)))"

text \<open>The index of the first colon, and the parts before and after it.\<close>

definition before_colon :: "string \<Rightarrow> string" where
  "before_colon s = takeWhile (\<lambda>c. c \<noteq> CHR '':'') s"

definition after_colon :: "string \<Rightarrow> string" where
  "after_colon s = drop 1 (dropWhile (\<lambda>c. c \<noteq> CHR '':'') s)"

definition legacyChainNodeID :: "causal_env \<Rightarrow> nat \<Rightarrow> string \<Rightarrow> string" where
  "legacyChainNodeID E idx raw =
     ''lcc:'' @ take 16 (hex_encode (ce_Sha E
       (''legacy-causal-chain'' @ [char_of (idx mod 256), char_of (idx div 256 mod 256)] @ raw)))"

definition hydrate_entry :: "causal_env \<Rightarrow> nat \<Rightarrow> nat \<Rightarrow> string \<Rightarrow> real causal_node" where
  "hydrate_entry E n idx raw =
     (let summary = trim_space raw;
          candidate = ce_Lower E (trim_space (before_colon summary));
          typed = CHR '':'' \<in> set summary \<and> before_colon summary \<noteq> [] \<and>
            candidate \<in> {NodeRoleEvidence, NodeRoleConfounder, NodeRoleIntervention, NodeRoleOutcome}
      in \<lparr>cn_ID = legacyChainNodeID E idx raw,
          cn_Role = (if typed then candidate else NodeRoleUnknown),
          cn_Summary = (if typed then trim_space (after_colon summary) else summary),
          cn_Parents = [], cn_AtomRefs = [],
          cn_Weight = fdiv E (real (n - idx)) (real n), cn_Meta = []\<rparr>)"

definition HydrateLegacyCausalChain :: "causal_env \<Rightarrow> string list \<Rightarrow> real causal_graph option" where
  "HydrateLegacyCausalChain E chain =
     (if chain = [] then None
      else Some \<lparr>cg_ProtocolVersion = 1,
        cg_Nodes = map (\<lambda>idx. hydrate_entry E (length chain) idx (chain ! idx)) [0..<length chain]\<rparr>)"

section \<open>Abduction, action, prediction\<close>

record hypothesis =
  hy_Evidence :: "string list"
  hy_Confounders :: "string list"
  hy_EvidenceWeight :: real
  hy_ConfounderLoad :: real

record action_candidate =
  ac_NodeID :: string
  ac_Label :: string
  ac_Score :: real
  ac_Risk :: real
  ac_Recommended :: bool

record prediction =
  pd_Recommended :: string
  pd_ProjectedConfidence :: real
  pd_Residual :: "string list"
  pd_BlockedByConfounder :: bool

record pearl_plan =
  pp_ProtocolVersion :: int
  pp_Hypothesis :: hypothesis
  pp_Actions :: "action_candidate list"
  pp_Prediction :: prediction

definition confounderBlockThreshold :: "causal_env \<Rightarrow> real" where
  "confounderBlockThreshold E = ce_Round E (6 / 10)"

definition interventionRiskFloor :: "causal_env \<Rightarrow> real" where
  "interventionRiskFloor E = ce_Round E (5 / 100)"

definition abduce_node :: "causal_env \<Rightarrow> real causal_node \<Rightarrow> hypothesis \<Rightarrow> hypothesis" where
  "abduce_node E n h =
     (if cn_Role n = NodeRoleEvidence
      then h\<lparr>hy_Evidence := hy_Evidence h @ [cn_ID n],
             hy_EvidenceWeight := fadd E (hy_EvidenceWeight h) (cn_Weight n)\<rparr>
      else if cn_Role n = NodeRoleConfounder
      then h\<lparr>hy_Confounders := hy_Confounders h @ [cn_ID n],
             hy_ConfounderLoad := fadd E (hy_ConfounderLoad h) (cn_Weight n)\<rparr>
      else if cn_Role n = NodeRoleUnknown
      then h\<lparr>hy_Evidence := hy_Evidence h @ [cn_ID n],
             hy_EvidenceWeight := fadd E (hy_EvidenceWeight h) (fmul E (1 / 2) (cn_Weight n))\<rparr>
      else h)"

definition no_hypothesis :: hypothesis where
  "no_hypothesis = \<lparr>hy_Evidence = [], hy_Confounders = [], hy_EvidenceWeight = 0, hy_ConfounderLoad = 0\<rparr>"

definition Abduce :: "causal_env \<Rightarrow> real causal_graph option \<Rightarrow> hypothesis" where
  "Abduce E graph = (case graph of
     None \<Rightarrow> no_hypothesis
   | Some g \<Rightarrow>
       let h = fold (abduce_node E) (cg_Nodes g) no_hypothesis
       in h\<lparr>hy_Evidence := sort_strings (hy_Evidence h), hy_Confounders := sort_strings (hy_Confounders h)\<rparr>)"

definition labelOrID :: "real causal_node \<Rightarrow> string" where
  "labelOrID n = (if cn_Summary n \<noteq> [] then cn_Summary n else cn_ID n)"

definition parseFloatMeta :: "causal_env \<Rightarrow> string \<Rightarrow> real" where
  "parseFloatMeta E s = (case ce_ParseFloat E s of None \<Rightarrow> 0 | Some f \<Rightarrow> f)"

definition action_risk :: "causal_env \<Rightarrow> hypothesis \<Rightarrow> real causal_node \<Rightarrow> real" where
  "action_risk E h n =
     (let risk = fadd E (interventionRiskFloor E) (fmul E (hy_ConfounderLoad h) (1 / 2)) in
      case map_of (cn_Meta n) ''risk'' of
        None \<Rightarrow> risk
      | Some s \<Rightarrow> if parseFloatMeta E s > risk then parseFloatMeta E s else risk)"

definition action_score :: "causal_env \<Rightarrow> hypothesis \<Rightarrow> real causal_node \<Rightarrow> real" where
  "action_score E h n =
     sigmoid E (fsub E (fadd E (fsub E (hy_EvidenceWeight h) (fmul E 2 (hy_ConfounderLoad h)))
       (fmul E (1 / 2) (cn_Weight n))) (action_risk E h n))"

definition action_of :: "causal_env \<Rightarrow> hypothesis \<Rightarrow> real causal_node \<Rightarrow> action_candidate" where
  "action_of E h n =
     \<lparr>ac_NodeID = cn_ID n, ac_Label = labelOrID n, ac_Score = action_score E h n,
      ac_Risk = action_risk E h n, ac_Recommended = False\<rparr>"

definition action_before :: "action_candidate \<Rightarrow> action_candidate \<Rightarrow> bool" where
  "action_before a b =
     (if ac_Score a \<noteq> ac_Score b then ac_Score a > ac_Score b else str_less (ac_NodeID a) (ac_NodeID b))"

definition EnumerateActions ::
  "causal_env \<Rightarrow> real causal_graph option \<Rightarrow> hypothesis \<Rightarrow> action_candidate list" where
  "EnumerateActions E graph h = (case graph of
     None \<Rightarrow> []
   | Some g \<Rightarrow>
       (case sort_by action_before
          (map (action_of E h) (filter (\<lambda>n. cn_Role n = NodeRoleIntervention) (cg_Nodes g))) of
          [] \<Rightarrow> []
        | c # cs \<Rightarrow>
            if hy_ConfounderLoad h < confounderBlockThreshold E
            then c\<lparr>ac_Recommended := True\<rparr> # cs else c # cs))"

definition Predict ::
  "causal_env \<Rightarrow> real causal_graph option \<Rightarrow> hypothesis \<Rightarrow> action_candidate list \<Rightarrow> prediction" where
  "Predict E graph h candidates =
     (let confidence = sigmoid E (fsub E (hy_EvidenceWeight h) (fmul E 2 (hy_ConfounderLoad h))) in
      if hy_ConfounderLoad h \<ge> confounderBlockThreshold E
      then \<lparr>pd_Recommended = [], pd_ProjectedConfidence = confidence,
            pd_Residual = [''Resolve confounders before consequential action.''],
            pd_BlockedByConfounder = True\<rparr>
      else
        (let residual = (case graph of None \<Rightarrow> []
           | Some g \<Rightarrow> map (\<lambda>n. ''Unclassified node: '' @ labelOrID n)
               (filter (\<lambda>n. cn_Role n = NodeRoleUnknown) (cg_Nodes g))) in
         case find ac_Recommended candidates of
           None \<Rightarrow> \<lparr>pd_Recommended = [], pd_ProjectedConfidence = confidence,
             pd_Residual = residual, pd_BlockedByConfounder = False\<rparr>
         | Some c \<Rightarrow> \<lparr>pd_Recommended = ac_NodeID c, pd_ProjectedConfidence = ac_Score c,
             pd_Residual = residual, pd_BlockedByConfounder = False\<rparr>))"

definition RunPearlLoop :: "causal_env \<Rightarrow> real causal_graph option \<Rightarrow> pearl_plan option" where
  "RunPearlLoop E graph = (case graph of
     None \<Rightarrow> None
   | Some g \<Rightarrow>
       if cg_Nodes g = [] then None
       else (let h = Abduce E graph; actions = EnumerateActions E graph h in
         Some \<lparr>pp_ProtocolVersion = 1, pp_Hypothesis = h, pp_Actions = actions,
               pp_Prediction = Predict E graph h actions\<rparr>))"

end
