(* ===== verification/Shapley.thy ===== *)
theory Shapley
  imports Causal_Pearl "HOL-Library.Word"
begin

text \<open>
  How much each node of a causal graph adds to the confidence: the Shapley values of
  \<open>internal/agency/shapley.go\<close>, over all subsets for few players and over random
  permutations for more. A subset is a bit mask; the masks stay below \<open>2 ^ 64\<close> because there are
  at most 64 players, so a mask is a natural number.
\<close>

unbundle bit_operations_syntax

section \<open>The value of a subset\<close>

record node_attribution =
  na_NodeID :: string
  na_Role :: string
  na_Phi :: real
  na_Rank :: nat
  na_Approximate :: bool

definition exactShapleyMaxPlayers :: nat where "exactShapleyMaxPlayers = 14"
definition sampledShapleyPermutations :: nat where "sampledShapleyPermutations = 256"
definition shapleyMaxPlayers :: nat where "shapleyMaxPlayers = 64"

definition roleWeight :: "string \<Rightarrow> real" where
  "roleWeight r =
     (if r = NodeRoleEvidence then 1 else if r = NodeRoleIntervention then 1 / 2
      else if r = NodeRoleConfounder then - 2 else if r = NodeRoleUnknown then 1 / 2 else 0)"

definition shapley_score :: "causal_env \<Rightarrow> real causal_node list \<Rightarrow> nat \<Rightarrow> real" where
  "shapley_score E players msk =
     fold (\<lambda>i score. if \<not> bit msk i then score
       else fadd E score (fmul E (roleWeight (cn_Role (players ! i))) (cn_Weight (players ! i))))
       [0..<length players] 0"

definition shapleyValue :: "causal_env \<Rightarrow> real causal_node list \<Rightarrow> nat \<Rightarrow> real" where
  "shapleyValue E players msk = sigmoid E (shapley_score E players msk)"

section \<open>All subsets\<close>

fun factorials :: "causal_env \<Rightarrow> nat \<Rightarrow> real" where
  "factorials E 0 = 1"
| "factorials E (Suc i) = fmul E (factorials E i) (real (Suc i))"

definition ones :: "nat \<Rightarrow> nat \<Rightarrow> nat" where
  "ones n msk = length (filter (bit msk) [0..<n])"

definition add_at :: "causal_env \<Rightarrow> nat \<Rightarrow> real \<Rightarrow> real list \<Rightarrow> real list" where
  "add_at E i x phi = phi[i := fadd E (phi ! i) x]"

definition marginal :: "causal_env \<Rightarrow> real causal_node list \<Rightarrow> nat \<Rightarrow> nat \<Rightarrow> real" where
  "marginal E players msk i =
     (let n = length players; sSize = ones n msk;
          vWithout = shapleyValue E players msk;
          vWith = shapleyValue E players (msk OR push_bit i 1);
          weight = fdiv E (fmul E (factorials E sSize) (factorials E (n - sSize - 1))) (factorials E n)
      in fmul E weight (fsub E vWith vWithout))"

definition shapley_mask :: "causal_env \<Rightarrow> real causal_node list \<Rightarrow> nat \<Rightarrow> real list \<Rightarrow> real list" where
  "shapley_mask E players msk phi =
     fold (\<lambda>i phi. if bit msk i then phi else add_at E i (marginal E players msk i) phi)
       [0..<length players] phi"

definition exactShapley :: "causal_env \<Rightarrow> real causal_node list \<Rightarrow> real list" where
  "exactShapley E players =
     fold (shapley_mask E players) [0..<2 ^ length players] (replicate (length players) 0)"

section \<open>Random permutations\<close>

definition seed_step :: "64 word \<Rightarrow> 64 word \<Rightarrow> 64 word" where
  "seed_step x s = (s * 1099511628211) XOR x"

definition stableSeed :: "causal_env \<Rightarrow> real causal_node list \<Rightarrow> 64 word" where
  "stableSeed E players =
     fold (\<lambda>p s. fold (\<lambda>c. seed_step (of_nat c)) (ce_Runes E (cn_ID p))
         (seed_step (of_nat (length (cn_ID p))) s))
       players 14695981039346656037"

definition swap :: "nat \<Rightarrow> nat \<Rightarrow> nat list \<Rightarrow> nat list" where
  "swap i j perm = perm[i := perm ! j, j := perm ! i]"

text \<open>
  \<open>Shuffle\<close> swaps each place from the last one down with a random one not after it; \<open>k\<close>
  counts the numbers that the source has given.
\<close>

fun shuffle_from :: "(nat \<Rightarrow> nat \<Rightarrow> nat) \<Rightarrow> nat \<Rightarrow> nat \<times> nat list \<Rightarrow> nat \<times> nat list" where
  "shuffle_from draw 0 s = s"
| "shuffle_from draw (Suc i) (k, perm) =
     shuffle_from draw i (Suc k, swap (Suc i) (draw k (Suc (Suc i))) perm)"

definition shuffle :: "(nat \<Rightarrow> nat \<Rightarrow> nat) \<Rightarrow> nat \<times> nat list \<Rightarrow> nat \<times> nat list" where
  "shuffle draw s = shuffle_from draw (length (snd s) - 1) s"

fun walk_perm ::
  "causal_env \<Rightarrow> real causal_node list \<Rightarrow> nat list \<Rightarrow> nat \<Rightarrow> real \<Rightarrow> real list \<Rightarrow> real list" where
  "walk_perm E players [] msk prev phi = phi"
| "walk_perm E players (idx # rest) msk prev phi =
     (let msk' = msk OR push_bit idx 1; curr = shapleyValue E players msk' in
      walk_perm E players rest msk' curr (add_at E idx (fsub E curr prev) phi))"

fun sample_perms ::
  "causal_env \<Rightarrow> real causal_node list \<Rightarrow> (nat \<Rightarrow> nat \<Rightarrow> nat) \<Rightarrow> nat \<Rightarrow> nat \<times> nat list \<Rightarrow> real list \<Rightarrow> real list" where
  "sample_perms E players draw 0 s phi = phi"
| "sample_perms E players draw (Suc m) s phi =
     (let s' = shuffle draw s in
      sample_perms E players draw m s'
        (walk_perm E players (snd s') 0 (shapleyValue E players 0) phi))"

definition sampledShapley :: "causal_env \<Rightarrow> real causal_node list \<Rightarrow> nat \<Rightarrow> real list" where
  "sampledShapley E players perms =
     (let n = length players;
          phi = sample_perms E players (ce_Draw E (sint (stableSeed E players))) perms
                  (0, [0..<n]) (replicate n 0);
          scale = fdiv E 1 (real perms)
      in map (\<lambda>x. fmul E x scale) phi)"

section \<open>Attribution\<close>

definition heavier :: "real causal_node \<Rightarrow> real causal_node \<Rightarrow> bool" where
  "heavier a b = (if cn_Weight a \<noteq> cn_Weight b then cn_Weight a > cn_Weight b
     else str_less (cn_ID a) (cn_ID b))"

definition phi_before :: "node_attribution \<Rightarrow> node_attribution \<Rightarrow> bool" where
  "phi_before a b = (if \<bar>na_Phi a\<bar> \<noteq> \<bar>na_Phi b\<bar> then \<bar>na_Phi a\<bar> > \<bar>na_Phi b\<bar>
     else str_less (na_NodeID a) (na_NodeID b))"

definition shapley_players :: "real causal_graph \<Rightarrow> real causal_node list" where
  "shapley_players g =
     (let players = filter (\<lambda>n. cn_Role n \<noteq> NodeRoleOutcome) (cg_Nodes g) in
      if length players > shapleyMaxPlayers then take shapleyMaxPlayers (sort_by heavier players)
      else players)"

definition shapley_phi :: "causal_env \<Rightarrow> real causal_node list \<Rightarrow> real list" where
  "shapley_phi E players =
     (if length players \<le> exactShapleyMaxPlayers then exactShapley E players
      else sampledShapley E players sampledShapleyPermutations)"

definition AttributeNecessity ::
  "causal_env \<Rightarrow> real causal_graph option \<Rightarrow> node_attribution list" where
  "AttributeNecessity E graph = (case graph of
     None \<Rightarrow> []
   | Some g \<Rightarrow>
       let players = shapley_players g;
           phi = shapley_phi E players;
           sorted = sort_by phi_before
             (map (\<lambda>(p, x). \<lparr>na_NodeID = cn_ID p, na_Role = cn_Role p, na_Phi = x, na_Rank = 0,
                na_Approximate = \<not> length players \<le> exactShapleyMaxPlayers\<rparr>) (zip players phi))
       in map (\<lambda>(i, a). a\<lparr>na_Rank := i + 1\<rparr>) (enumerate 0 sorted))"

end
