(* ===== verification/Disputes.thy ===== *)
theory Disputes
  imports Shapley
begin

text \<open>
  Disputes of a verdict: the claim applied to the causal graph, the loop and the attribution run
  again, and the ruling on the difference (\<open>internal/agency/dispute.go\<close> and
  \<open>internal/agency/adjudication.go\<close>), with the verdict of \<open>internal/agency/types.go\<close>. The fields of
  a verdict that no operation here reads are one field of any type; a time of zero is no time.
\<close>

section \<open>Verdicts\<close>

record 'r gist_verdict =
  gv_Verdict :: string
  gv_Confidence :: real
  gv_CausalChain :: "string list"
  gv_CausalGraph :: "real causal_graph option"
  gv_OpenQuestions :: "string list"
  gv_ExecutionIntent :: string
  gv_RiskLevel :: string
  gv_Degraded :: bool
  gv_DegradedReason :: string
  gv_PearlPlan :: "pearl_plan option"
  gv_Attribution :: "node_attribution list"
  gv_Rest :: 'r

definition graph_nodes :: "real causal_graph option \<Rightarrow> real causal_node list" where
  "graph_nodes g = (case g of None \<Rightarrow> [] | Some c \<Rightarrow> cg_Nodes c)"

definition SyncCausalChain :: "causal_env \<Rightarrow> 'r gist_verdict \<Rightarrow> 'r gist_verdict" where
  "SyncCausalChain E v =
     (if gv_CausalGraph v \<noteq> None \<and> graph_nodes (gv_CausalGraph v) \<noteq> []
      then v\<lparr>gv_CausalChain := FlatChain (gv_CausalGraph v)\<rparr>
      else if gv_CausalChain v \<noteq> [] \<and> gv_CausalGraph v = None
      then v\<lparr>gv_CausalGraph := HydrateLegacyCausalChain E (gv_CausalChain v)\<rparr>
      else v)"

section \<open>Disputes\<close>

record dispute =
  di_ID :: string
  di_ReviewerID :: string
  di_Ground :: string
  di_TargetNode :: string
  di_NewRole :: string
  di_AddedSummary :: string
  di_AddedWeight :: real
  di_StaleFactor :: real
  di_Narrative :: string
  di_CreatedAt :: int

record dispute_report =
  dr_Dispute :: dispute
  dr_OriginalVerdict :: string
  dr_OriginalConfidence :: real
  dr_OriginalRecommendation :: string
  dr_OriginalTopShapley :: string
  dr_OriginalBlocked :: bool
  dr_Plan :: "pearl_plan option"
  dr_Attribution :: "node_attribution list"
  dr_Confidence :: real
  dr_Recommendation :: string
  dr_TopShapley :: string
  dr_Blocked :: bool
  dr_DeltaConfidence :: real
  dr_RecommendationFlipped :: bool
  dr_TopShapleyChanged :: bool
  dr_BlockedFlipped :: bool
  dr_Applied :: bool
  dr_Notes :: "string list"

definition MislabeledRole :: string where "MislabeledRole = ''mislabeled-role''"
definition MissingConfounder :: string where "MissingConfounder = ''missing-confounder''"
definition ActionBlocked :: string where "ActionBlocked = ''action-blocked''"
definition EvidenceStale :: string where "EvidenceStale = ''evidence-stale''"
definition Narrative :: string where "Narrative = ''narrative''"

lemmas dispute_grounds = MislabeledRole_def MissingConfounder_def ActionBlocked_def
  EvidenceStale_def Narrative_def

definition defaultAddedConfounderWeight :: "causal_env \<Rightarrow> real" where
  "defaultAddedConfounderWeight E = ce_Round E (7 / 10)"

definition defaultStaleFactor :: real where
  "defaultStaleFactor = 1 / 4"

fun index_from :: "nat \<Rightarrow> string \<Rightarrow> real causal_node list \<Rightarrow> nat option" where
  "index_from i k [] = None"
| "index_from i k (n # ns) = (if cn_ID n = k then Some i else index_from (i + 1) k ns)"

definition indexOfNode :: "real causal_graph option \<Rightarrow> string \<Rightarrow> nat option" where
  "indexOfNode g k = index_from 0 k (graph_nodes g)"

definition slug_char :: "char \<Rightarrow> bool" where
  "slug_char c \<longleftrightarrow> (let n = of_char c :: nat in (97 \<le> n \<and> n \<le> 122) \<or> (48 \<le> n \<and> n \<le> 57))"

text \<open>
  The loop over the characters; a character of several bytes gives one dash, and so do its bytes.
\<close>

fun slug_loop :: "bool \<Rightarrow> string \<Rightarrow> string \<Rightarrow> string" where
  "slug_loop dashed acc [] = acc"
| "slug_loop dashed acc (c # cs) =
     (if slug_char c then slug_loop False (acc @ [c]) cs
      else if \<not> dashed \<and> acc \<noteq> [] then slug_loop True (acc @ ''-'') cs
      else slug_loop dashed acc cs)"

definition trim_dashes :: "string \<Rightarrow> string" where
  "trim_dashes s = rev (dropWhile (\<lambda>c. c = CHR ''-'') (rev (dropWhile (\<lambda>c. c = CHR ''-'') s)))"

definition simpleSlug :: "causal_env \<Rightarrow> string \<Rightarrow> string" where
  "simpleSlug E s =
     (let t = ce_Lower E (trim_space s) in
      if t = [] then ''anon''
      else (let out = trim_dashes (slug_loop False [] t) in if out = [] then ''anon'' else take 32 out))"

definition with_node :: "real causal_graph \<Rightarrow> nat \<Rightarrow> real causal_node \<Rightarrow> real causal_graph" where
  "with_node g i n = g\<lparr>cg_Nodes := (cg_Nodes g)[i := n]\<rparr>"

definition without_node :: "real causal_graph \<Rightarrow> nat \<Rightarrow> real causal_graph" where
  "without_node g i = g\<lparr>cg_Nodes := take i (cg_Nodes g) @ drop (i + 1) (cg_Nodes g)\<rparr>"

definition not_found :: "string \<Rightarrow> string list" where
  "not_found k = [''target node '' @ quoted k @ '' not found'']"

definition apply_relabel :: "real causal_graph \<Rightarrow> dispute \<Rightarrow> real causal_graph \<times> bool \<times> string list" where
  "apply_relabel cf d =
     (if di_TargetNode d = [] \<or> di_NewRole d = []
      then (cf, False, [''mislabeled-role requires targetNode + newRole''])
      else (case indexOfNode (Some cf) (di_TargetNode d) of
        None \<Rightarrow> (cf, False, not_found (di_TargetNode d))
      | Some i \<Rightarrow>
          let n = cg_Nodes cf ! i; old = cn_Role n in
          if old = di_NewRole d
          then (cf, False, [''node '' @ quoted (di_TargetNode d) @ '' already has role '' @ quoted (di_NewRole d)])
          else (with_node cf i (n\<lparr>cn_Role := di_NewRole d\<rparr>), True,
            [''node '' @ quoted (di_TargetNode d) @ '' role: '' @ quoted old @ '' -> '' @ quoted (di_NewRole d)])))"

definition apply_confounder ::
  "causal_env \<Rightarrow> real causal_graph \<Rightarrow> dispute \<Rightarrow> real causal_graph \<times> bool \<times> string list" where
  "apply_confounder E cf d =
     (let summary = trim_space (di_AddedSummary d) in
      if summary = [] then (cf, False, [''missing-confounder requires addedSummary''])
      else
        (let weight = (if di_AddedWeight d \<le> 0 then defaultAddedConfounderWeight E else di_AddedWeight d);
             newID = ''dispute:'' @ simpleSlug E summary;
             newID' = (if indexOfNode (Some cf) newID \<noteq> None then newID @ ''-cf'' else newID)
         in (cf\<lparr>cg_Nodes := cg_Nodes cf @
               [\<lparr>cn_ID = newID', cn_Role = NodeRoleConfounder, cn_Summary = summary, cn_Parents = [],
                 cn_AtomRefs = [], cn_Weight = weight, cn_Meta = [(''source'', ''dispute'')]\<rparr>]\<rparr>, True,
             [''appended confounder '' @ quoted newID' @ '' (weight '' @ ce_Format E ''%.2f'' weight @ '')''])))"

definition apply_blocked :: "real causal_graph \<Rightarrow> dispute \<Rightarrow> real causal_graph \<times> bool \<times> string list" where
  "apply_blocked cf d =
     (if di_TargetNode d = [] then (cf, False, [''action-blocked requires targetNode''])
      else (case indexOfNode (Some cf) (di_TargetNode d) of
        None \<Rightarrow> (cf, False, not_found (di_TargetNode d))
      | Some i \<Rightarrow> (without_node cf i, True,
          [''removed action '' @ quoted (di_TargetNode d) @ '' from graph''])))"

definition apply_stale ::
  "causal_env \<Rightarrow> real causal_graph \<Rightarrow> dispute \<Rightarrow> real causal_graph \<times> bool \<times> string list" where
  "apply_stale E cf d =
     (if di_TargetNode d = [] then (cf, False, [''evidence-stale requires targetNode''])
      else (case indexOfNode (Some cf) (di_TargetNode d) of
        None \<Rightarrow> (cf, False, not_found (di_TargetNode d))
      | Some i \<Rightarrow>
          let factor = (if di_StaleFactor d \<le> 0 \<or> di_StaleFactor d \<ge> 1 then defaultStaleFactor
                        else di_StaleFactor d);
              n = cg_Nodes cf ! i; old = cn_Weight n; new = fmul E old factor
          in (with_node cf i (n\<lparr>cn_Weight := new, cn_Meta := map_put ''stale'' ''true'' (cn_Meta n)\<rparr>), True,
              [''node '' @ quoted (di_TargetNode d) @ '' weight: '' @ ce_Format E ''%.3f'' old @ '' -> '' @
               ce_Format E ''%.3f'' new @ '' (factor '' @ ce_Format E ''%.2f'' factor @ '')''])))"

definition ApplyDisputeClaim ::
  "causal_env \<Rightarrow> real causal_graph option \<Rightarrow> dispute \<Rightarrow> real causal_graph option \<times> bool \<times> string list" where
  "ApplyDisputeClaim E graph d = (case CloneGraph graph of
     None \<Rightarrow> (None, False, [''no graph to mutate''])
   | Some cf \<Rightarrow>
       let (g, applied, notes) =
         (if di_Ground d = MislabeledRole then apply_relabel cf d
          else if di_Ground d = MissingConfounder then apply_confounder E cf d
          else if di_Ground d = ActionBlocked then apply_blocked cf d
          else if di_Ground d = EvidenceStale then apply_stale E cf d
          else if di_Ground d = Narrative
          then (cf, False, if trim_space (di_Narrative d) = [] then [''narrative requires non-empty text'']
                           else [''narrative recorded; graph unchanged''])
          else (cf, False, [''unknown dispute ground '' @ quoted (di_Ground d)]))
       in (Some g, applied, notes))"

section \<open>Evaluation\<close>

definition top_shapley :: "node_attribution list \<Rightarrow> string" where
  "top_shapley as = (case as of [] \<Rightarrow> [] | a # _ \<Rightarrow> na_NodeID a)"

text \<open>The report with the state before the dispute.\<close>

definition original_report :: "'r gist_verdict \<Rightarrow> dispute \<Rightarrow> dispute_report" where
  "original_report v d =
     \<lparr>dr_Dispute = d, dr_OriginalVerdict = gv_Verdict v,
      dr_OriginalConfidence = (case gv_PearlPlan v of
          None \<Rightarrow> gv_Confidence v
        | Some p \<Rightarrow> if pd_ProjectedConfidence (pp_Prediction p) > 0
                    then pd_ProjectedConfidence (pp_Prediction p) else gv_Confidence v),
      dr_OriginalRecommendation = (case gv_PearlPlan v of
          None \<Rightarrow> [] | Some p \<Rightarrow> pd_Recommended (pp_Prediction p)),
      dr_OriginalTopShapley = top_shapley (gv_Attribution v),
      dr_OriginalBlocked = (case gv_PearlPlan v of
          None \<Rightarrow> False | Some p \<Rightarrow> pd_BlockedByConfounder (pp_Prediction p)),
      dr_Plan = None, dr_Attribution = [], dr_Confidence = 0, dr_Recommendation = [],
      dr_TopShapley = [], dr_Blocked = False, dr_DeltaConfidence = 0,
      dr_RecommendationFlipped = False, dr_TopShapleyChanged = False, dr_BlockedFlipped = False,
      dr_Applied = False, dr_Notes = []\<rparr>"

definition EvaluateDispute :: "causal_env \<Rightarrow> int \<Rightarrow> 'r gist_verdict \<Rightarrow> dispute \<Rightarrow> dispute_report" where
  "EvaluateDispute E now verdict d =
     (let v = SyncCausalChain E verdict;
          d' = (if di_CreatedAt d = 0 then d\<lparr>di_CreatedAt := now\<rparr> else d);
          (cfGraph, applied, notes) = ApplyDisputeClaim E (gv_CausalGraph v) d';
          report = (original_report v d')\<lparr>dr_Applied := applied, dr_Notes := notes\<rparr>
      in
        if graph_nodes cfGraph = []
        then report\<lparr>dr_Confidence := 0, dr_DeltaConfidence := - dr_OriginalConfidence report,
               dr_RecommendationFlipped := (dr_OriginalRecommendation report \<noteq> []),
               dr_TopShapleyChanged := (dr_OriginalTopShapley report \<noteq> [])\<rparr>
        else
          (let cfPlan = RunPearlLoop E cfGraph;
               attribution = AttributeNecessity E cfGraph;
               conf = (case cfPlan of None \<Rightarrow> 0 | Some p \<Rightarrow> pd_ProjectedConfidence (pp_Prediction p));
               recommendation = (case cfPlan of None \<Rightarrow> [] | Some p \<Rightarrow> pd_Recommended (pp_Prediction p));
               blocked = (case cfPlan of None \<Rightarrow> False | Some p \<Rightarrow> pd_BlockedByConfounder (pp_Prediction p))
           in report\<lparr>dr_Plan := cfPlan, dr_Attribution := attribution, dr_Confidence := conf,
                dr_Recommendation := recommendation, dr_TopShapley := top_shapley attribution,
                dr_Blocked := blocked,
                dr_DeltaConfidence := fsub E conf (dr_OriginalConfidence report),
                dr_RecommendationFlipped := (dr_OriginalRecommendation report \<noteq> recommendation),
                dr_TopShapleyChanged := (dr_OriginalTopShapley report \<noteq> top_shapley attribution),
                dr_BlockedFlipped := (dr_OriginalBlocked report \<noteq> blocked)\<rparr>))"

definition AbsConfidenceSwing :: "dispute_report \<Rightarrow> real" where
  "AbsConfidenceSwing r = (if \<bar>dr_DeltaConfidence r\<bar> > 1 then 1 else \<bar>dr_DeltaConfidence r\<bar>)"

definition report_before :: "dispute_report \<Rightarrow> dispute_report \<Rightarrow> bool" where
  "report_before ri rj =
     (if dr_RecommendationFlipped ri \<noteq> dr_RecommendationFlipped rj then dr_RecommendationFlipped ri
      else if AbsConfidenceSwing ri \<noteq> AbsConfidenceSwing rj then AbsConfidenceSwing ri > AbsConfidenceSwing rj
      else if dr_TopShapleyChanged ri \<noteq> dr_TopShapleyChanged rj then dr_TopShapleyChanged ri
      else str_less (di_ID (dr_Dispute ri)) (di_ID (dr_Dispute rj)))"

definition SortDisputeReports :: "dispute_report list \<Rightarrow> dispute_report list" where
  "SortDisputeReports reports = sort_by report_before reports"

section \<open>Adjudication\<close>

datatype dispute_status = DisputeUpheld | DisputeNoted | DisputeRejected

record adjudication =
  aj_Status :: dispute_status
  aj_Reason :: string
  aj_SwingScore :: real
  aj_Mechanical :: bool

definition upholdConfidenceThreshold :: "causal_env \<Rightarrow> real" where
  "upholdConfidenceThreshold E = ce_Round E (15 / 100)"

definition notedConfidenceThreshold :: "causal_env \<Rightarrow> real" where
  "notedConfidenceThreshold E = ce_Round E (3 / 100)"

definition recommendationFlipBonus :: "causal_env \<Rightarrow> real" where
  "recommendationFlipBonus E = ce_Round E (50 / 100)"

definition blockedByConfounderBonus :: "causal_env \<Rightarrow> real" where
  "blockedByConfounderBonus E = ce_Round E (30 / 100)"

definition topShapleyChangedBonus :: "causal_env \<Rightarrow> real" where
  "topShapleyChangedBonus E = ce_Round E (10 / 100)"

definition swing_score :: "causal_env \<Rightarrow> dispute_report \<Rightarrow> real" where
  "swing_score E r =
     (let s1 = AbsConfidenceSwing r;
          s2 = (if dr_RecommendationFlipped r then fadd E s1 (recommendationFlipBonus E) else s1);
          s3 = (if dr_BlockedFlipped r then fadd E s2 (blockedByConfounderBonus E) else s2)
      in if dr_TopShapleyChanged r then fadd E s3 (topShapleyChangedBonus E) else s3)"

definition show_bool :: "bool \<Rightarrow> string" where
  "show_bool b = (if b then ''true'' else ''false'')"

definition Adjudicate :: "causal_env \<Rightarrow> dispute_report \<Rightarrow> adjudication" where
  "Adjudicate E r =
     (let ruling = (\<lambda>status reason mechanical.
            \<lparr>aj_Status = status, aj_Reason = reason, aj_SwingScore = swing_score E r,
             aj_Mechanical = mechanical\<rparr>);
          swung = ''confidence swung '' @ ce_Format E ''%+.3f'' (dr_DeltaConfidence r) in
      if \<not> dr_Applied r
      then ruling DisputeNoted ''non-mechanism concern (narrative or no-op claim)'' False
      else if dr_RecommendationFlipped r
      then ruling DisputeUpheld (''recommendation flipped: '' @ quoted (dr_OriginalRecommendation r) @
             '' -> '' @ quoted (dr_Recommendation r)) True
      else if dr_BlockedFlipped r
      then ruling DisputeUpheld (''blocked-by-confounder flipped: '' @ show_bool (dr_OriginalBlocked r) @
             '' -> '' @ show_bool (dr_Blocked r)) True
      else if AbsConfidenceSwing r \<ge> upholdConfidenceThreshold E
      then ruling DisputeUpheld (swung @ '' (>= '' @ ce_Format E ''%.2f'' (upholdConfidenceThreshold E) @ '')'') True
      else if AbsConfidenceSwing r \<ge> notedConfidenceThreshold E
      then ruling DisputeNoted (swung @ '' (between '' @ ce_Format E ''%.2f'' (notedConfidenceThreshold E) @
             '' and '' @ ce_Format E ''%.2f'' (upholdConfidenceThreshold E) @ '')'') True
      else if dr_TopShapleyChanged r
      then ruling DisputeNoted (''top Shapley node changed: '' @ quoted (dr_OriginalTopShapley r) @
             '' -> '' @ quoted (dr_TopShapley r)) True
      else ruling DisputeRejected ''no measurable counterfactual swing'' True)"

definition AdjudicateBatch :: "causal_env \<Rightarrow> dispute_report list \<Rightarrow> adjudication list" where
  "AdjudicateBatch E reports = map (Adjudicate E) reports"

record dispute_record =
  dc_ProtocolVersion :: int
  dc_Report :: dispute_report
  dc_Adjudication :: adjudication

definition NewDisputeRecord :: "causal_env \<Rightarrow> dispute_report \<Rightarrow> dispute_record" where
  "NewDisputeRecord E report =
     \<lparr>dc_ProtocolVersion = 1, dc_Report = report, dc_Adjudication = Adjudicate E report\<rparr>"

definition IsUpheld :: "dispute_record \<Rightarrow> bool" where
  "IsUpheld r \<longleftrightarrow> aj_Status (dc_Adjudication r) = DisputeUpheld"

end
