(* ===== verification/Adversarial_Review.thy ===== *)
theory Adversarial_Review
  imports Disputes
begin

text \<open>
  The reviewer that disputes a verdict by itself (\<open>internal/agency/adversarial_reviewer.go\<close>), and
  how a verdict comes about: the atoms of an observation, the answer of the subprocess and what
  is derived from it (\<open>internal/agency/gist_core.go\<close>). The subprocess and the JSON around it are
  the argument \<open>answer\<close>; the identifier of an atom, a hash of its parts, is \<open>atomID\<close>.
\<close>

section \<open>The reviewer\<close>

record reviewer_config =
  rc_ReviewerID :: string
  rc_MaxDisputes :: int
  rc_MinAbsSwingForKeep :: real
  rc_HighConfidenceProbeFloor :: real
  rc_HeavyEvidenceWeightFloor :: real

definition DefaultAdversarialReviewerConfig :: "causal_env \<Rightarrow> reviewer_config" where
  "DefaultAdversarialReviewerConfig E =
     \<lparr>rc_ReviewerID = ''adversarial-reviewer'', rc_MaxDisputes = 8, rc_MinAbsSwingForKeep = 0,
      rc_HighConfidenceProbeFloor = ce_Round E (7 / 10), rc_HeavyEvidenceWeightFloor = ce_Round E (8 / 10)\<rparr>"

definition NewAdversarialReviewer :: "causal_env \<Rightarrow> reviewer_config \<Rightarrow> reviewer_config" where
  "NewAdversarialReviewer E cfg =
     (let def = DefaultAdversarialReviewerConfig E in
      cfg\<lparr>rc_ReviewerID := (if trim_space (rc_ReviewerID cfg) = [] then rc_ReviewerID def
                             else rc_ReviewerID cfg),
          rc_HighConfidenceProbeFloor := (if rc_HighConfidenceProbeFloor cfg \<le> 0
            then rc_HighConfidenceProbeFloor def else rc_HighConfidenceProbeFloor cfg),
          rc_HeavyEvidenceWeightFloor := (if rc_HeavyEvidenceWeightFloor cfg \<le> 0
            then rc_HeavyEvidenceWeightFloor def else rc_HeavyEvidenceWeightFloor cfg)\<rparr>)"

definition disputeID :: "causal_env \<Rightarrow> reviewer_config \<Rightarrow> string \<Rightarrow> string \<Rightarrow> string" where
  "disputeID E cfg heuristic key = join '':'' [rc_ReviewerID cfg, heuristic, simpleSlug E key]"

definition probe :: "reviewer_config \<Rightarrow> string \<Rightarrow> string \<Rightarrow> string \<Rightarrow> string \<Rightarrow> dispute" where
  "probe cfg i ground target narrative =
     \<lparr>di_ID = i, di_ReviewerID = rc_ReviewerID cfg, di_Ground = ground, di_TargetNode = target,
      di_NewRole = [], di_AddedSummary = [], di_AddedWeight = 0, di_StaleFactor = 0,
      di_Narrative = narrative, di_CreatedAt = 0\<rparr>"

text \<open>The long dash of the texts, as its three bytes.\<close>

definition long_dash :: string where
  "long_dash = [CHR 0xE2, CHR 0x80, CHR 0x94]"

definition proposeMislabelDisputes ::
  "causal_env \<Rightarrow> reviewer_config \<Rightarrow> 'r gist_verdict \<Rightarrow> dispute list" where
  "proposeMislabelDisputes E cfg v =
     map (\<lambda>attr. (probe cfg (disputeID E cfg ''mislabel'' (na_NodeID attr)) MislabeledRole (na_NodeID attr)
            (''evidence node '' @ quoted (na_NodeID attr) @ '' has negative Shapley contribution ('' @
             ce_Format E ''%.3f'' (na_Phi attr) @ '') '' @ long_dash @ '' likely confounder''))
              \<lparr>di_NewRole := NodeRoleConfounder\<rparr>)
       (filter (\<lambda>attr. na_Role attr = NodeRoleEvidence \<and> \<not> na_Phi attr \<ge> 0) (gv_Attribution v))"

definition proposeActionBlockedDisputes ::
  "causal_env \<Rightarrow> reviewer_config \<Rightarrow> 'r gist_verdict \<Rightarrow> dispute list" where
  "proposeActionBlockedDisputes E cfg v = (case gv_PearlPlan v of
     None \<Rightarrow> []
   | Some p \<Rightarrow>
       map (\<lambda>c. probe cfg (disputeID E cfg ''blocked'' (ac_NodeID c)) ActionBlocked (ac_NodeID c)
              (''probe: what if recommended action '' @ quoted (ac_NodeID c) @ '' is infeasible?''))
         (filter ac_Recommended (pp_Actions p)))"

definition probe_summary :: "'r gist_verdict \<Rightarrow> string" where
  "probe_summary v = (case gv_OpenQuestions v of
     [] \<Rightarrow> ''unobserved common cause stress test''
   | q # _ \<Rightarrow> if trim_space q \<noteq> [] then trim_space q else ''unobserved common cause stress test'')"

definition proposeMissingConfounderProbe ::
  "causal_env \<Rightarrow> reviewer_config \<Rightarrow> 'r gist_verdict \<Rightarrow> dispute option" where
  "proposeMissingConfounderProbe E cfg v = (case gv_PearlPlan v of
     None \<Rightarrow> None
   | Some p \<Rightarrow>
       let conf = pd_ProjectedConfidence (pp_Prediction p) in
       if conf < rc_HighConfidenceProbeFloor cfg then None
       else if length (hy_Confounders (pp_Hypothesis p)) \<ge> 2 then None
       else Some ((probe cfg (disputeID E cfg ''missing-conf'' (probe_summary v)) MissingConfounder []
              (''high-confidence verdict ('' @ ce_Format E ''%.3f'' conf @
               '') with sparse confounder coverage '' @ long_dash @ '' probing robustness''))
          \<lparr>di_AddedSummary := probe_summary v, di_AddedWeight := defaultAddedConfounderWeight E\<rparr>))"

definition proposeEvidenceStaleDisputes ::
  "causal_env \<Rightarrow> reviewer_config \<Rightarrow> 'r gist_verdict \<Rightarrow> dispute list" where
  "proposeEvidenceStaleDisputes E cfg v =
     map (\<lambda>n. (probe cfg (disputeID E cfg ''stale'' (cn_ID n)) EvidenceStale (cn_ID n)
            (''heavy evidence node '' @ quoted (cn_ID n) @ '' (weight '' @ ce_Format E ''%.2f'' (cn_Weight n) @
             '') probed for staleness''))\<lparr>di_StaleFactor := defaultStaleFactor\<rparr>)
       (filter (\<lambda>n. cn_Role n = NodeRoleEvidence \<and> \<not> cn_Weight n < rc_HeavyEvidenceWeightFloor cfg)
         (graph_nodes (gv_CausalGraph v)))"

definition keep_report :: "reviewer_config \<Rightarrow> dispute_report \<Rightarrow> bool" where
  "keep_report cfg r \<longleftrightarrow> rc_MinAbsSwingForKeep cfg \<le> 0 \<or>
     dr_RecommendationFlipped r \<or> dr_BlockedFlipped r \<or> dr_TopShapleyChanged r \<or>
     AbsConfidenceSwing r \<ge> rc_MinAbsSwingForKeep cfg"

definition statusRank :: "dispute_status \<Rightarrow> int" where
  "statusRank s = (case s of DisputeUpheld \<Rightarrow> 0 | DisputeNoted \<Rightarrow> 1 | DisputeRejected \<Rightarrow> 2)"

definition record_before :: "dispute_record \<Rightarrow> dispute_record \<Rightarrow> bool" where
  "record_before a b =
     (let sa = statusRank (aj_Status (dc_Adjudication a)); sb = statusRank (aj_Status (dc_Adjudication b));
          wa = aj_SwingScore (dc_Adjudication a); wb = aj_SwingScore (dc_Adjudication b) in
      if sa \<noteq> sb then sa < sb else if wa \<noteq> wb then wa > wb
      else str_less (di_ID (dr_Dispute (dc_Report a))) (di_ID (dr_Dispute (dc_Report b))))"

definition proposed :: "causal_env \<Rightarrow> reviewer_config \<Rightarrow> 'r gist_verdict \<Rightarrow> dispute list" where
  "proposed E cfg v =
     proposeMislabelDisputes E cfg v @ proposeActionBlockedDisputes E cfg v @
     (case proposeMissingConfounderProbe E cfg v of None \<Rightarrow> [] | Some d \<Rightarrow> [d]) @
     proposeEvidenceStaleDisputes E cfg v"

text \<open>The clock may differ from one evaluation to the next.\<close>

definition Review ::
  "causal_env \<Rightarrow> (nat \<Rightarrow> int) \<Rightarrow> reviewer_config option \<Rightarrow> 'r gist_verdict \<Rightarrow> dispute_record list" where
  "Review E now a verdict = (case a of
     None \<Rightarrow> []
   | Some cfg \<Rightarrow>
       let v = SyncCausalChain E verdict in
       if graph_nodes (gv_CausalGraph v) = [] then []
       else
         (let reports = map (\<lambda>(k, d). EvaluateDispute E (now k) v d) (enumerate 0 (proposed E cfg v));
              records = sort_by record_before (map (NewDisputeRecord E) (filter (keep_report cfg) reports))
          in if rc_MaxDisputes cfg > 0 \<and> int (length records) > rc_MaxDisputes cfg
             then take (nat (rc_MaxDisputes cfg)) records else records))"

section \<open>The verdict\<close>

datatype 'r subprocess_answer =
    NoSubprocess
  | MarshalError string
  | NoPython
  | RunError string
  | InvalidOutput
  | Answered "'r gist_verdict" string string \<comment> \<open>the output, its error text and its lattice\<close>

definition defaultVerdict :: "causal_env \<Rightarrow> 'r \<Rightarrow> string \<Rightarrow> 'r gist_verdict" where
  "defaultVerdict E trace reason =
     \<lparr>gv_Verdict = ''degraded_gist_unavailable'', gv_Confidence = ce_Round E (1 / 10), gv_CausalChain = [reason],
      gv_CausalGraph = None,
      gv_OpenQuestions = [''GIST subprocess is unavailable; causal lattice was not updated.''],
      gv_ExecutionIntent = ''default_low_confidence'', gv_RiskLevel = ''unknown'', gv_Degraded = True,
      gv_DegradedReason = reason, gv_PearlPlan = None, gv_Attribution = [], gv_Rest = trace\<rparr>"

definition confounderQuestion :: string where
  "confounderQuestion =
     ''Resolve confounders flagged by the Pearl loop before consequential action.''"

definition applyConfounderRiskUplift :: "'r gist_verdict \<Rightarrow> 'r gist_verdict" where
  "applyConfounderRiskUplift v = (case gv_PearlPlan v of
     None \<Rightarrow> v
   | Some p \<Rightarrow>
       if \<not> pd_BlockedByConfounder (pp_Prediction p) then v
       else (let v' = v\<lparr>gv_RiskLevel := ''high''\<rparr> in
         if confounderQuestion \<in> set (gv_OpenQuestions v') then v'
         else v'\<lparr>gv_OpenQuestions := gv_OpenQuestions v' @ [confounderQuestion]\<rparr>))"

definition Compress ::
  "causal_env \<Rightarrow> (string \<Rightarrow> 'r) \<Rightarrow> 'r subprocess_answer \<Rightarrow> 'r gist_verdict \<times> string \<times> string option" where
  "Compress E trace answer = (case answer of
     NoSubprocess \<Rightarrow> (defaultVerdict E (trace ''subprocess unavailable'') ''subprocess unavailable'', ''{}'', None)
   | MarshalError e \<Rightarrow> (defaultVerdict E (trace ''marshal error'') ''marshal error'', ''{}'', Some e)
   | NoPython \<Rightarrow> (defaultVerdict E (trace ''python not found'') ''python not found'', ''{}'', None)
   | RunError stderr \<Rightarrow>
       let reason = ''subprocess error: '' @ trim_space stderr in
       (defaultVerdict E (trace reason) reason, ''{}'', None)
   | InvalidOutput \<Rightarrow>
       (defaultVerdict E (trace ''invalid subprocess output'') ''invalid subprocess output'', ''{}'', None)
   | Answered out err latticeJSON \<Rightarrow>
       if err \<noteq> [] then (defaultVerdict E (trace err) err, ''{}'', None)
       else
         (let lattice = (if latticeJSON = [] then ''{}'' else latticeJSON);
              v = SyncCausalChain E (out\<lparr>gv_Degraded := False, gv_DegradedReason := [],
                    gv_PearlPlan := None, gv_Attribution := []\<rparr>);
              v' = v\<lparr>gv_PearlPlan := RunPearlLoop E (gv_CausalGraph v),
                     gv_Attribution := AttributeNecessity E (gv_CausalGraph v)\<rparr>
          in (applyConfounderRiskUplift v', lattice, None)))"

record elastic_budget =
  eb_RecallThreshold :: real
  eb_MaxTTLMs :: int
  eb_StretchFactor :: real

definition ElasticStretch ::
  "causal_env \<Rightarrow> elastic_budget \<Rightarrow> int \<Rightarrow> 'r gist_verdict \<Rightarrow> int \<Rightarrow> 'r gist_verdict" where
  "ElasticStretch E budget now v lastWakeMs =
     (if eb_MaxTTLMs budget \<le> 0 then v
      else
        (let age = wrap64 (now - lastWakeMs);
             ageMs = (if age < 0 then 0 else age);
             fresh = fsub E 1 (fdiv E (ce_Round E (real_of_int ageMs)) (ce_Round E (real_of_int (eb_MaxTTLMs budget))));
             freshnessFactor = (if fresh < 0 then 0 else fresh);
             stretchFactor = (if eb_StretchFactor budget \<le> 0 then 1 else eb_StretchFactor budget);
             c = fadd E (gv_Confidence v)
                   (fmul E (fmul E freshnessFactor stretchFactor) (fsub E 1 (gv_Confidence v)))
         in v\<lparr>gv_Confidence := (if c > 1 then 1 else c)\<rparr>))"

end
