(* ===== verification/Shapley_Properties.thy ===== *)
theory Shapley_Properties
  imports Shapley Prelude
begin

text \<open>In exact arithmetic the attributions share out the whole swing of the confidence.\<close>

section \<open>Sums\<close>

lemma sum_list_update_real: "i < length xs \<Longrightarrow> sum_list (xs[i := x]) = sum_list xs + x - (xs ! i :: real)"
proof (induction xs arbitrary: i)
  case (Cons y ys)
  then show ?case by (cases i) simp_all
qed simp

definition exact :: "causal_env \<Rightarrow> bool" where
  "exact E \<longleftrightarrow> (\<forall>x. ce_Round E x = x)"

lemma exact_ops [simp]:
  assumes "exact E"
  shows "fadd E a b = a + b" and "fsub E a b = a - b" and "fmul E a b = a * b" and "fdiv E a b = a / b"
  using assms by (simp_all add: exact_def fadd_def fsub_def fmul_def fdiv_def)

lemma length_add_at [simp]: "length (add_at E i x phi) = length phi"
  by (simp add: add_at_def)

lemma sum_add_at: "exact E \<Longrightarrow> i < length phi \<Longrightarrow> sum_list (add_at E i x phi) = sum_list phi + x"
  by (simp add: add_at_def sum_list_update_real)

section \<open>All subsets\<close>

lemma shapley_mask_sum:
  assumes "exact E" and "length phi = length players"
  shows "length (shapley_mask E players msk phi) = length players \<and>
    sum_list (shapley_mask E players msk phi) =
      sum_list phi + (\<Sum>i | i < length players \<and> \<not> bit msk i. marginal E players msk i)"
proof -
  have "length (fold (\<lambda>i phi. if bit msk i then phi else add_at E i (marginal E players msk i) phi) [0..<k] phi)
        = length players \<and>
      sum_list (fold (\<lambda>i phi. if bit msk i then phi else add_at E i (marginal E players msk i) phi) [0..<k] phi)
        = sum_list phi + (\<Sum>i | i < k \<and> \<not> bit msk i. marginal E players msk i)"
    if "k \<le> length players" for k
    using that
  proof (induction k)
    case (Suc k)
    have "{i. i < Suc k \<and> \<not> bit msk i} =
        (if bit msk k then {i. i < k \<and> \<not> bit msk i} else insert k {i. i < k \<and> \<not> bit msk i})"
      by (auto simp: less_Suc_eq)
    then show ?case using Suc assms(1) by (auto simp: sum_add_at)
  qed (use assms in simp)
  then show ?thesis by (simp add: shapley_mask_def)
qed

lemma exactShapley_sum:
  assumes "exact E"
  shows "length (exactShapley E players) = length players \<and>
    sum_list (exactShapley E players) =
      (\<Sum>msk < 2 ^ length players. \<Sum>i | i < length players \<and> \<not> bit msk i. marginal E players msk i)"
proof -
  have "length (fold (shapley_mask E players) [0..<k] (replicate (length players) 0)) = length players \<and>
     sum_list (fold (shapley_mask E players) [0..<k] (replicate (length players) 0)) =
       (\<Sum>msk < k. \<Sum>i | i < length players \<and> \<not> bit msk i. marginal E players msk i)" for k
  proof (induction k)
    case (Suc k)
    then show ?case using shapley_mask_sum [OF assms] by simp
  qed (simp add: sum_list_replicate)
  then show ?thesis by (simp add: exactShapley_def)
qed

text \<open>Adding a player to the masks without it gives each mask with it once.\<close>

lemma ones_card: "ones n m = card {i. i < n \<and> bit m i}"
proof -
  have "ones n m = card (set (filter (bit m) [0..<n]))"
    unfolding ones_def by (rule distinct_card [symmetric]) simp
  also have "set (filter (bit m) [0..<n]) = {i. i < n \<and> bit m i}" by auto
  finally show ?thesis .
qed

lemma bit_add_player: "bit (m OR 2 ^ i :: nat) j \<longleftrightarrow> bit m j \<or> j = i"
  by (auto simp: bit_or_iff bit_exp_iff)

lemma small_iff: "m < 2 ^ n \<longleftrightarrow> (\<forall>j. bit (m :: nat) j \<longrightarrow> j < n)"
proof
  assume "m < 2 ^ n"
  then show "\<forall>j. bit m j \<longrightarrow> j < n"
    by (metis bit_take_bit_iff take_bit_nat_eq_self_iff)
next
  assume "\<forall>j. bit m j \<longrightarrow> j < n"
  then have "take_bit n m = m" by (intro bit_eqI) (auto simp: bit_take_bit_iff)
  then show "m < 2 ^ n" by (simp add: take_bit_nat_eq_self_iff)
qed

lemma add_player_bij:
  assumes "i < n"
  shows "bij_betw (\<lambda>m. m OR push_bit i 1) {m :: nat. m < 2 ^ n \<and> \<not> bit m i} {m. m < 2 ^ n \<and> bit m i}"
    (is "bij_betw ?add ?out ?in")
proof (rule bij_betw_byWitness [where f' = "unset_bit i"])
  show "\<forall>m\<in>?out. unset_bit i (?add m) = m"
    by (auto intro!: bit_eqI simp: bit_unset_bit_iff bit_add_player)
  show "\<forall>m\<in>?in. ?add (unset_bit i m) = m"
    by (auto intro!: bit_eqI simp: bit_unset_bit_iff bit_add_player)
  show "?add ` ?out \<subseteq> ?in"
    using assms by (auto simp: small_iff bit_add_player)
  show "unset_bit i ` ?in \<subseteq> ?out"
    by (auto simp: small_iff bit_unset_bit_iff)
qed

lemma ones_add_player:
  assumes "i < n" and "\<not> bit m i"
  shows "ones n (m OR push_bit i 1) = Suc (ones n m)"
proof -
  have "{j. j < n \<and> bit (m OR push_bit i 1) j} = insert i {j. j < n \<and> bit m j}"
    using assms(1) by (auto simp: bit_add_player)
  then show ?thesis using assms(2) by (simp add: ones_card)
qed

lemma ones_le: "ones n m \<le> n"
  using card_mono [of "{..<n}" "{i. i < n \<and> bit m i}"] by (auto simp: ones_card)

lemma ones_none: "m < 2 ^ n \<Longrightarrow> ones n m = 0 \<longleftrightarrow> m = 0"
  by (auto simp: ones_card small_iff intro!: bit_eqI)

lemma ones_all: "m < 2 ^ n \<Longrightarrow> ones n m = n \<longleftrightarrow> m = 2 ^ n - 1"
proof
  assume m: "m < 2 ^ n"
  assume "ones n m = n"
  then have "{i. i < n \<and> bit m i} = {..<n}"
    by (intro card_subset_eq) (auto simp: ones_card)
  then have "bit m j \<longleftrightarrow> j < n" for j using m by (auto simp: small_iff)
  then have "m = mask n" by (intro bit_eqI) (simp add: bit_mask_iff)
  then show "m = 2 ^ n - 1" by (simp add: mask_eq_exp_minus_1)
next
  assume "m = 2 ^ n - 1"
  then have "m = mask n" by (simp add: mask_eq_exp_minus_1)
  then show "ones n m = n" by (simp add: ones_card bit_mask_iff)
qed

text \<open>The weight of a subset with \<open>s\<close> of \<open>n\<close> players, and what the subset counts in total.\<close>

definition share :: "nat \<Rightarrow> nat \<Rightarrow> real" where
  "share n s = fact s * fact (n - s - 1) / fact n"

definition total_share :: "nat \<Rightarrow> nat \<Rightarrow> real" where
  "total_share n s = fact s * fact (n - s) / fact n"

lemma share_out: "s < n \<Longrightarrow> real (n - s) * share n s = total_share n s"
  by (cases "n - s") (auto simp: share_def total_share_def field_simps)

lemma share_in: "0 < s \<Longrightarrow> real s * share n (s - 1) = total_share n s"
  by (cases s) (auto simp: share_def total_share_def field_simps)

lemma total_share_ends [simp]: "total_share n 0 = 1" "total_share n n = 1"
  by (simp_all add: total_share_def)

lemma sum_masks_players:
  fixes f :: "nat \<Rightarrow> nat \<Rightarrow> real"
  shows "(\<Sum>m < 2 ^ n. \<Sum>i | i < n \<and> P m i. f m i) = (\<Sum>i < n. \<Sum>m | m < 2 ^ n \<and> P m i. f m i)"
proof -
  have "(\<Sum>m < 2 ^ n. \<Sum>i | i < n \<and> P m i. f m i) = (\<Sum>m < 2 ^ n. \<Sum>i | i \<in> {..<n} \<and> P m i. f m i)"
    by simp
  also have "\<dots> = (\<Sum>i < n. \<Sum>m | m \<in> {..<2 ^ n} \<and> P m i. f m i)"
    by (rule sum.swap_restrict) simp_all
  finally show ?thesis by simp
qed

lemma move_players:
  assumes "i < n"
  shows "(\<Sum>m | m < 2 ^ n \<and> \<not> bit m i. share n (ones n m) * v (m OR push_bit i 1))
    = (\<Sum>m | m < 2 ^ n \<and> bit m i. share n (ones n m - 1) * v m)"
proof -
  have "(\<Sum>m | m < 2 ^ n \<and> \<not> bit m i. share n (ones n m) * v (m OR push_bit i 1))
      = (\<Sum>m | m < 2 ^ n \<and> \<not> bit m i.
          share n (ones n (m OR push_bit i 1) - 1) * v (m OR push_bit i 1))"
    using ones_add_player [OF assms] by (intro sum.cong) simp_all
  also have "\<dots> = (\<Sum>m | m < 2 ^ n \<and> bit m i. share n (ones n m - 1) * v m)"
    by (rule sum.reindex_bij_betw [OF add_player_bij [OF assms],
          of "\<lambda>m. share n (ones n m - 1) * v m"])
  finally show ?thesis .
qed

lemma shapley_gain:
  "(\<Sum>m < 2 ^ n. \<Sum>i | i < n \<and> \<not> bit m i. share n (ones n m) * v (m OR push_bit i 1))
    = (\<Sum>m < 2 ^ n. if m = 0 then 0 else total_share n (ones n m) * v m)"
proof -
  have "(\<Sum>m < 2 ^ n. \<Sum>i | i < n \<and> \<not> bit m i. share n (ones n m) * v (m OR push_bit i 1))
      = (\<Sum>i < n. \<Sum>m | m < 2 ^ n \<and> bit m i. share n (ones n m - 1) * v m)"
    by (subst sum_masks_players) (rule sum.cong, simp, rule move_players, simp)
  also have "\<dots> = (\<Sum>m < 2 ^ n. \<Sum>i | i < n \<and> bit m i. share n (ones n m - 1) * v m)"
    by (rule sum_masks_players [symmetric])
  also have "\<dots> = (\<Sum>m < 2 ^ n. real (ones n m) * (share n (ones n m - 1) * v m))"
    by (simp add: ones_card)
  also have "\<dots> = (\<Sum>m < 2 ^ n. if m = 0 then 0 else total_share n (ones n m) * v m)"
  proof (rule sum.cong)
    show "real (ones n m) * (share n (ones n m - 1) * v m)
        = (if m = 0 then 0 else total_share n (ones n m) * v m)" if "m \<in> {..<2 ^ n}" for m
      using that ones_none [of m n] share_in [of "ones n m" n] by auto
  qed simp
  finally show ?thesis .
qed

lemma shapley_loss:
  "(\<Sum>m < 2 ^ n. \<Sum>i | i < n \<and> \<not> bit m i. share n (ones n m) * v m)
    = (\<Sum>m < 2 ^ n. if m = 2 ^ n - 1 then 0 else total_share n (ones n m) * v m)"
proof (rule sum.cong)
  fix m :: nat assume m: "m \<in> {..<2 ^ n}"
  have "{i. i < n \<and> \<not> bit m i} = {..<n} - {i. i < n \<and> bit m i}" by auto
  then have "card {i. i < n \<and> \<not> bit m i} = n - ones n m"
    by (simp add: ones_card card_Diff_subset subset_eq)
  then have "(\<Sum>i | i < n \<and> \<not> bit m i. share n (ones n m) * v m)
      = real (n - ones n m) * share n (ones n m) * v m" by simp
  then show "(\<Sum>i | i < n \<and> \<not> bit m i. share n (ones n m) * v m)
      = (if m = 2 ^ n - 1 then 0 else total_share n (ones n m) * v m)"
    using m ones_all [of m n] ones_le [of n m] share_out [of "ones n m" n] by auto
qed simp

lemma sum_drop:
  fixes f :: "nat \<Rightarrow> real"
  assumes "a < k"
  shows "(\<Sum>m < k. if m = a then 0 else f m) = (\<Sum>m < k. f m) - f a"
  using assms by (subst (1 2) sum.remove [of "{..<k}" a]) auto

theorem shapley_efficiency:
  fixes v :: "nat \<Rightarrow> real"
  shows "(\<Sum>m < 2 ^ n. \<Sum>i | i < n \<and> \<not> bit m i. share n (ones n m) * (v (m OR push_bit i 1) - v m))
     = v (2 ^ n - 1) - v 0"
proof -
  have ends: "ones n (2 ^ n - 1) = n" "ones n 0 = 0"
    using ones_all [of "2 ^ n - 1" n] ones_none [of 0 n] by simp_all
  have "(\<Sum>m < 2 ^ n. \<Sum>i | i < n \<and> \<not> bit m i. share n (ones n m) * (v (m OR push_bit i 1) - v m))
      = (\<Sum>m < 2 ^ n. \<Sum>i | i < n \<and> \<not> bit m i. share n (ones n m) * v (m OR push_bit i 1))
        - (\<Sum>m < 2 ^ n. \<Sum>i | i < n \<and> \<not> bit m i. share n (ones n m) * v m)"
    by (simp only: right_diff_distrib sum_subtractf)
  also have "\<dots> = v (2 ^ n - 1) - v 0"
    unfolding shapley_gain shapley_loss
    using sum_drop [of 0 "2 ^ n" "\<lambda>m. total_share n (ones n m) * v m"]
      sum_drop [of "2 ^ n - 1" "2 ^ n" "\<lambda>m. total_share n (ones n m) * v m"] ends
    by (simp del: One_nat_def)
  finally show ?thesis .
qed

section \<open>The code's sums\<close>

lemma factorials_fact: "exact E \<Longrightarrow> factorials E i = fact i"
  by (induction i) (simp_all add: algebra_simps)

lemma marginal_share:
  "exact E \<Longrightarrow> marginal E players m i = share (length players) (ones (length players) m) *
     (shapleyValue E players (m OR push_bit i 1) - shapleyValue E players m)"
  by (simp add: marginal_def Let_def factorials_fact share_def)

definition swing :: "causal_env \<Rightarrow> real causal_node list \<Rightarrow> real" where
  "swing E players = shapleyValue E players (2 ^ length players - 1) - shapleyValue E players 0"

lemma exactShapley_efficient: "exact E \<Longrightarrow> sum_list (exactShapley E players) = swing E players"
  using shapley_efficiency [of "length players" "shapleyValue E players"]
  by (simp add: exactShapley_sum marginal_share swing_def)

lemma shapley_score_sum:
  assumes "exact E"
  shows "shapley_score E players m = (\<Sum>i | i < length players \<and> bit m i.
    roleWeight (cn_Role (players ! i)) * cn_Weight (players ! i))"
proof -
  have "fold (\<lambda>i score. if \<not> bit m i then score
       else fadd E score (fmul E (roleWeight (cn_Role (players ! i))) (cn_Weight (players ! i)))) [0..<k] 0
     = (\<Sum>i | i < k \<and> bit m i. roleWeight (cn_Role (players ! i)) * cn_Weight (players ! i))" for k
  proof (induction k)
    case (Suc k)
    have "{i. i < Suc k \<and> bit m i} = (if bit m k then insert k {i. i < k \<and> bit m i} else {i. i < k \<and> bit m i})"
      by (auto simp: less_Suc_eq)
    then show ?case using Suc assms by simp
  qed simp
  then show ?thesis by (simp add: shapley_score_def)
qed

lemma swing_weights:
  assumes "exact E"
  shows "swing E players =
    sigmoid E (sum_list (map (\<lambda>n. roleWeight (cn_Role n) * cn_Weight n) players)) - sigmoid E 0"
proof -
  let ?w = "\<lambda>n. roleWeight (cn_Role n) * cn_Weight n"
  have "bit (2 ^ k - 1 :: nat) i \<longleftrightarrow> i < k" for k i
    using bit_mask_iff [of k i, where 'a = nat] by (simp add: mask_eq_exp_minus_1)
  then have "shapley_score E players (2 ^ length players - 1) = (\<Sum>i < length players. ?w (players ! i))"
    using assms by (auto simp: shapley_score_sum intro: sum.cong)
  also have "\<dots> = sum_list (map ?w players)"
    by (simp add: sum_list_sum_nth atLeast0LessThan)
  finally show ?thesis using assms by (simp add: swing_def shapleyValue_def shapley_score_sum)
qed

section \<open>Random permutations\<close>

lemma walk_perm_sum:
  assumes "exact E" and "\<forall>i \<in> set perm. i < length phi" and "prev = shapleyValue E players m"
  shows "length (walk_perm E players perm m prev phi) = length phi \<and>
    sum_list (walk_perm E players perm m prev phi) =
      sum_list phi + shapleyValue E players (fold (\<lambda>i m. m OR push_bit i 1) perm m) - prev"
  using assms
proof (induction perm arbitrary: m prev phi)
  case (Cons i perm)
  then show ?case
    using Cons.IH [of "add_at E i (shapleyValue E players (m OR push_bit i 1) - prev) phi"
        "shapleyValue E players (m OR push_bit i 1)" "m OR push_bit i 1"]
    by (simp add: Let_def sum_add_at)
qed simp

lemma bit_fold_players: "bit (fold (\<lambda>i m. m OR push_bit i 1) perm m :: nat) j \<longleftrightarrow> bit m j \<or> j \<in> set perm"
  by (induction perm arbitrary: m) (auto simp: bit_add_player)

lemma walk_whole_perm:
  assumes "exact E" and "mset perm = mset [0..<length players]" and "length phi = length players"
  shows "length (walk_perm E players perm 0 (shapleyValue E players 0) phi) = length players \<and>
    sum_list (walk_perm E players perm 0 (shapleyValue E players 0) phi) = sum_list phi + swing E players"
proof -
  have set: "set perm = {0..<length players}" using mset_eq_setD [OF assms(2)] by simp
  have "fold (\<lambda>i m. m OR push_bit i 1) perm 0 = (mask (length players) :: nat)"
    by (rule bit_eqI) (simp only: bit_fold_players set, simp add: bit_mask_iff)
  then have "fold (\<lambda>i m. m OR push_bit i 1) perm 0 = (2 ^ length players - 1 :: nat)"
    by (simp add: mask_eq_exp_minus_1)
  moreover have "\<forall>i \<in> set perm. i < length phi" using set assms(3) by simp
  ultimately show ?thesis
    using walk_perm_sum [OF assms(1), of perm phi _ players 0] assms(3) by (simp add: swing_def)
qed

lemma shuffle_from_mset:
  assumes "\<forall>k b. 0 < b \<longrightarrow> draw k b < b" and "i < length perm \<or> i = 0"
  shows "mset (snd (shuffle_from draw i (k, perm))) = mset perm"
  using assms(2)
proof (induction i arbitrary: k perm)
  case (Suc i)
  let ?j = "draw k (Suc (Suc i))"
  have j: "?j < Suc (Suc i)" using assms(1) by simp
  have "mset (swap (Suc i) ?j perm) = mset perm"
    unfolding swap_def using Suc.prems j by (intro mset_swap) auto
  moreover have "length (swap (Suc i) ?j perm) = length perm" by (simp add: swap_def)
  ultimately show ?case using Suc.IH [of "swap (Suc i) ?j perm" "Suc k"] Suc.prems by simp
qed simp

lemma shuffle_mset:
  "\<forall>k b. 0 < b \<longrightarrow> draw k b < b \<Longrightarrow> mset (snd (shuffle draw s)) = mset (snd s)"
  using shuffle_from_mset [of draw "length (snd s) - 1" "snd s" "fst s"]
  by (cases "snd s = []") (auto simp: shuffle_def)

lemma sample_perms_sum:
  assumes "exact E" and "\<forall>k b. 0 < b \<longrightarrow> draw k b < b"
    and "mset (snd s) = mset [0..<length players]" and "length phi = length players"
  shows "sum_list (sample_perms E players draw m s phi) = sum_list phi + real m * swing E players \<and>
    length (sample_perms E players draw m s phi) = length players"
  using assms(3,4)
proof (induction m arbitrary: s phi)
  case (Suc m)
  have s: "mset (snd (shuffle draw s)) = mset [0..<length players]"
    using shuffle_mset [OF assms(2)] Suc.prems by simp
  show ?case
    using Suc.IH [OF s] walk_whole_perm [OF assms(1) s Suc.prems(2)]
    by (simp add: Let_def algebra_simps)
qed simp

lemma sampledShapley_efficient:
  assumes "exact E" and "\<forall>seed k b. 0 < b \<longrightarrow> ce_Draw E seed k b < b" and "0 < perms"
  shows "sum_list (sampledShapley E players perms) = swing E players \<and>
    length (sampledShapley E players perms) = length players"
proof -
  define phi where "phi = sample_perms E players (ce_Draw E (sint (stableSeed E players))) perms
      (0, [0..<length players]) (replicate (length players) 0)"
  have "sum_list phi = real perms * swing E players \<and> length phi = length players"
    using sample_perms_sum [OF assms(1), of "ce_Draw E (sint (stableSeed E players))" "(0, [0..<length players])"
        players "replicate (length players) 0" perms] assms(2)
    by (simp add: phi_def sum_list_replicate)
  moreover have "sum_list (map (\<lambda>x. x / c) xs) = sum_list xs / c" for xs and c :: real
    by (induction xs) (simp_all add: add_divide_distrib)
  ultimately show ?thesis
    using assms(1,3) by (simp add: sampledShapley_def Let_def flip: phi_def)
qed

lemma shapley_phi_efficient:
  assumes "exact E" and "\<forall>seed k b. 0 < b \<longrightarrow> ce_Draw E seed k b < b"
  shows "sum_list (shapley_phi E players) = swing E players \<and> length (shapley_phi E players) = length players"
  using exactShapley_efficient exactShapley_sum sampledShapley_efficient [OF assms] assms(1)
  by (simp add: shapley_phi_def sampledShapleyPermutations_def)

text \<open>
  Property C12. Without rounding, and with random numbers below their bounds, the attributions of
  a graph add up to the confidence with all its players less the confidence with none, for the
  exact values and for the sampled ones.
\<close>

theorem attributions_sum_to_swing:
  assumes "exact E" and "\<forall>seed k b. 0 < b \<longrightarrow> ce_Draw E seed k b < b"
  shows "sum_list (map na_Phi (AttributeNecessity E (Some g))) =
    sigmoid E (sum_list (map (\<lambda>n. roleWeight (cn_Role n) * cn_Weight n) (shapley_players g))) - sigmoid E 0"
proof -
  let ?players = "shapley_players g" and ?phi = "shapley_phi E (shapley_players g)"
  define attrs where "attrs = map (\<lambda>(p, x). \<lparr>na_NodeID = cn_ID p, na_Role = cn_Role p, na_Phi = x, na_Rank = 0,
      na_Approximate = \<not> length ?players \<le> exactShapleyMaxPlayers\<rparr>) (zip ?players ?phi)"
  have phi: "sum_list ?phi = swing E ?players" "length ?phi = length ?players"
    using shapley_phi_efficient [OF assms] by auto
  have ranked: "map na_Phi (map (\<lambda>(i, a). a\<lparr>na_Rank := i + 1\<rparr>) (enumerate k as)) = map na_Phi as" for k as
    by (induction as arbitrary: k) simp_all
  have "map na_Phi (AttributeNecessity E (Some g)) = map na_Phi (sort_by phi_before attrs)"
    unfolding AttributeNecessity_def option.case Let_def ranked attrs_def ..
  then have "sum_list (map na_Phi (AttributeNecessity E (Some g))) = sum_list (map na_Phi attrs)"
    by (simp add: mset_sort_by flip: sum_mset_sum_list)
  also have "map na_Phi attrs = ?phi"
    using phi(2) by (simp add: attrs_def comp_def split_beta)
  finally show ?thesis using phi(1) swing_weights [OF assms(1)] by simp
qed

definition exact_env :: causal_env where
  "exact_env = \<lparr>ce_Round = (\<lambda>x. x), ce_Exp = exp, ce_ParseFloat = (\<lambda>s. None), ce_Format = (\<lambda>f x. f),
     ce_Lower = to_lower_ascii, ce_Sha = (\<lambda>s. s), ce_Runes = map of_char, ce_Draw = (\<lambda>seed k b. k mod b)\<rparr>"

definition plain_node :: "string \<Rightarrow> string \<Rightarrow> real \<Rightarrow> real causal_node" where
  "plain_node i r w = \<lparr>cn_ID = i, cn_Role = r, cn_Summary = [], cn_Parents = [], cn_AtomRefs = [],
     cn_Weight = w, cn_Meta = []\<rparr>"

definition plain_graph :: "real causal_graph" where
  "plain_graph = \<lparr>cg_ProtocolVersion = 1, cg_Nodes =
     [plain_node ''o'' ''outcome'' 1, plain_node ''e'' ''evidence'' 1, plain_node ''c'' ''confounder'' 1]\<rparr>"

theorem attributions_sum_to_swing_witness:
  "sum_list (map na_Phi (AttributeNecessity exact_env (Some plain_graph))) =
     sigmoid exact_env (- 1) - sigmoid exact_env 0"
proof -
  have "exact exact_env" and "\<forall>seed k b. 0 < b \<longrightarrow> ce_Draw exact_env seed k b < b"
    by (simp_all add: exact_def exact_env_def)
  from attributions_sum_to_swing [OF this, of plain_graph] show ?thesis
    by (simp add: plain_graph_def plain_node_def shapley_players_def shapleyMaxPlayers_def roleWeight_def
        node_roles)
qed

end
