(* ===== verification/Review_Properties.thy ===== *)
theory Review_Properties
  imports Adversarial_Review Shapley_Properties
begin

text \<open>
  What the loop recommends, what a dispute can change, and what the reviewer finds in every
  verdict that recommends an action.
\<close>

section \<open>The recommendation\<close>

lemma set_sort_by [simp]: "set (sort_by lt xs) = set xs"
  by (rule mset_eq_setD [OF mset_sort_by])

interpretation real_gt: linear_lt "(>) :: real \<Rightarrow> real \<Rightarrow> bool"
  by unfold_locales auto

interpretation action_lt: weak_lt action_before
  using real_gt.then_weak [OF str_lt.field_weak, of ac_Score ac_NodeID]
  by (simp add: action_before_def [abs_def])

lemma EnumerateActions_nodes:
  "c \<in> set (EnumerateActions E (Some g) h) \<Longrightarrow>
   \<exists>n \<in> set (cg_Nodes g). cn_Role n = NodeRoleIntervention \<and> cn_ID n = ac_NodeID c"
proof -
  let ?xs = "map (action_of E h) (filter (\<lambda>n. cn_Role n = NodeRoleIntervention) (cg_Nodes g))"
  assume "c \<in> set (EnumerateActions E (Some g) h)"
  then have "\<exists>a \<in> set (sort_by action_before ?xs). ac_NodeID a = ac_NodeID c"
    by (cases "sort_by action_before ?xs") (auto simp: EnumerateActions_def split: if_splits)
  then have "\<exists>a \<in> set ?xs. ac_NodeID a = ac_NodeID c" by (simp only: set_sort_by)
  then show ?thesis by (auto simp: action_of_def)
qed

text \<open>What it means that a plan recommends an action.\<close>

lemma recommended_head:
  assumes "RunPearlLoop E (Some g) = Some p" and "pd_Recommended (pp_Prediction p) \<noteq> []"
  obtains c cs where "pp_Actions p = c # cs" and "ac_Recommended c"
    and "ac_NodeID c = pd_Recommended (pp_Prediction p)"
    and "pd_ProjectedConfidence (pp_Prediction p) = ac_Score c"
    and "hy_ConfounderLoad (pp_Hypothesis p) < confounderBlockThreshold E"
    and "\<not> pd_BlockedByConfounder (pp_Prediction p)"
    and "list_all (\<lambda>c'. ac_Score c' \<le> ac_Score c) (pp_Actions p)"
proof -
  define h where "h = Abduce E (Some g)"
  let ?xs = "map (action_of E h) (filter (\<lambda>n. cn_Role n = NodeRoleIntervention) (cg_Nodes g))"
  have p: "p = \<lparr>pp_ProtocolVersion = 1, pp_Hypothesis = h, pp_Actions = EnumerateActions E (Some g) h,
      pp_Prediction = Predict E (Some g) h (EnumerateActions E (Some g) h)\<rparr>"
    using assms(1) by (simp add: RunPearlLoop_def Let_def h_def split: if_splits)
  have load: "hy_ConfounderLoad h < confounderBlockThreshold E"
    using assms(2) by (auto simp: p Predict_def Let_def split: if_splits)
  have none: "c \<in> set (sort_by action_before ?xs) \<Longrightarrow> \<not> ac_Recommended c" for c
    by (simp only: set_sort_by) (auto simp: action_of_def)
  show ?thesis
  proof (cases "sort_by action_before ?xs")
    case Nil
    then show ?thesis using assms(2) load by (simp add: p Predict_def EnumerateActions_def Let_def)
  next
    case (Cons a as)
    have "slice_sorted action_before (sort_by action_before ?xs)"
      using action_lt.sort_by_sorts by (simp only: sort_Slice_def)
    then have best: "c' \<in> set as \<Longrightarrow> ac_Score c' \<le> ac_Score a" for c'
      unfolding Cons by (auto simp: slice_sorted_def action_before_def split: if_splits)
    have actions: "EnumerateActions E (Some g) h = a\<lparr>ac_Recommended := True\<rparr> # as"
      using Cons load by (simp add: EnumerateActions_def)
    show ?thesis
    proof (rule that [of "a\<lparr>ac_Recommended := True\<rparr>" as])
      show "list_all (\<lambda>c'. ac_Score c' \<le> ac_Score (a\<lparr>ac_Recommended := True\<rparr>)) (pp_Actions p)"
        using best by (simp add: p actions list_all_iff)
    qed (use load in \<open>simp_all add: p actions Predict_def Let_def\<close>)
  qed
qed

lemma recommended_node:
  assumes "RunPearlLoop E (Some g) = Some p" and "pd_Recommended (pp_Prediction p) \<noteq> []"
  shows "\<exists>n \<in> set (cg_Nodes g). cn_Role n = NodeRoleIntervention \<and> cn_ID n = pd_Recommended (pp_Prediction p)"
proof -
  obtain c cs where "pp_Actions p = c # cs" "ac_NodeID c = pd_Recommended (pp_Prediction p)"
    using recommended_head [OF assms] by metis
  moreover have "pp_Actions p = EnumerateActions E (Some g) (Abduce E (Some g))"
    using assms(1) by (auto simp: RunPearlLoop_def Let_def split: if_splits)
  ultimately show ?thesis using EnumerateActions_nodes [of c E g "Abduce E (Some g)"] by auto
qed

text \<open>
  Property C24. The loop recommends an action only if the load of the confounders is below the
  threshold and the prediction is not blocked; the action is an intervention of the graph, no
  other one scores higher, and its score is the projected confidence.
\<close>

theorem recommended_action_is_best:
  assumes "RunPearlLoop E (Some g) = Some p" and "pd_Recommended (pp_Prediction p) \<noteq> []"
  shows "hy_ConfounderLoad (pp_Hypothesis p) < confounderBlockThreshold E \<and>
    \<not> pd_BlockedByConfounder (pp_Prediction p) \<and>
    (\<exists>n \<in> set (cg_Nodes g). cn_Role n = NodeRoleIntervention \<and>
       cn_ID n = pd_Recommended (pp_Prediction p)) \<and>
    list_all (\<lambda>c. ac_Score c \<le> pd_ProjectedConfidence (pp_Prediction p)) (pp_Actions p)"
  using recommended_head [OF assms] recommended_node [OF assms] by (metis list.pred_mono_strong)

section \<open>Disputes\<close>

lemma CloneGraph_same [simp]: "CloneGraph g = g"
  by (cases g) (auto simp: CloneGraph_def intro!: causal_graph.equality map_idI)

lemma index_from_finds:
  assumes "k \<in> cn_ID ` set ns"
  shows "\<exists>i. index_from j k ns = Some (j + i) \<and> i < length ns \<and> cn_ID (ns ! i) = k"
  using assms
proof (induction ns arbitrary: j)
  case (Cons n ns)
  show ?case
  proof (cases "cn_ID n = k")
    case False
    then obtain i where "index_from (j + 1) k ns = Some (j + 1 + i)" "i < length ns" "cn_ID (ns ! i) = k"
      using Cons.IH [of "j + 1"] Cons.prems by auto
    then show ?thesis using False by (intro exI [of _ "Suc i"]) simp
  qed simp
qed simp

lemma removed_is_gone:
  assumes "distinct (map cn_ID ns)" and "i < length ns"
  shows "cn_ID (ns ! i) \<notin> cn_ID ` set (take i ns @ drop (i + 1) ns)"
proof -
  have "distinct (map cn_ID (take i ns @ ns ! i # drop (i + 1) ns))"
    using assms id_take_nth_drop [OF assms(2)] by simp
  then show ?thesis by auto
qed

lemma recommended_is_node:
  assumes "RunPearlLoop E (Some g) = Some p" and "pd_Recommended (pp_Prediction p) \<noteq> []"
  shows "pd_Recommended (pp_Prediction p) \<in> cn_ID ` set (cg_Nodes g)"
  using recommended_node [OF assms] by force

text \<open>A verdict as \<open>Compress\<close> leaves it: plan and attribution are those of its graph.\<close>

definition derived :: "causal_env \<Rightarrow> 'r gist_verdict \<Rightarrow> bool" where
  "derived E v \<longleftrightarrow> gv_PearlPlan v = RunPearlLoop E (gv_CausalGraph v) \<and>
     gv_Attribution v = AttributeNecessity E (gv_CausalGraph v)"

lemma SyncCausalChain_graph:
  "gv_CausalGraph v = Some g \<Longrightarrow> cg_Nodes g \<noteq> [] \<Longrightarrow>
   SyncCausalChain E v = v\<lparr>gv_CausalChain := FlatChain (Some g)\<rparr>"
  by (simp add: SyncCausalChain_def graph_nodes_def)

lemma blocking_the_recommendation:
  assumes g: "gv_CausalGraph v = Some g" and dist: "distinct (map cn_ID (cg_Nodes g))"
    and der: "derived E v" and p: "gv_PearlPlan v = Some p"
    and rec: "pd_Recommended (pp_Prediction p) \<noteq> []"
    and d: "di_Ground d = ActionBlocked" "di_TargetNode d = pd_Recommended (pp_Prediction p)"
  shows "dr_Applied (EvaluateDispute E now v d) \<and> dr_RecommendationFlipped (EvaluateDispute E now v d)"
proof -
  let ?r = "pd_Recommended (pp_Prediction p)"
  have run: "RunPearlLoop E (Some g) = Some p" using der p g by (simp add: derived_def)
  have nodes: "cg_Nodes g \<noteq> []" using run by (auto simp: RunPearlLoop_def)
  obtain i where i: "index_from 0 ?r (cg_Nodes g) = Some i" "i < length (cg_Nodes g)" "cn_ID (cg_Nodes g ! i) = ?r"
    using index_from_finds [OF recommended_is_node [OF run rec], of 0] by auto
  define cf where "cf = without_node g i"
  have gone: "?r \<notin> cn_ID ` set (cg_Nodes cf)"
    using removed_is_gone [OF dist i(2)] i(3) by (simp add: cf_def without_node_def)
  have claim: "ApplyDisputeClaim E (Some g) d' =
      (Some cf, True, [''removed action '' @ quoted ?r @ '' from graph''])"
    if "di_Ground d' = ActionBlocked" "di_TargetNode d' = ?r" for d'
    using that rec i(1)
    by (simp add: ApplyDisputeClaim_def apply_blocked_def indexOfNode_def graph_nodes_def cf_def dispute_grounds)
  have "pd_Recommended (pp_Prediction p') \<noteq> ?r" if "RunPearlLoop E (Some cf) = Some p'" for p'
    using recommended_is_node [OF that] gone rec by metis
  then show ?thesis
    using g p rec claim [of d] claim [of "d\<lparr>di_CreatedAt := now\<rparr>"] d
    by (auto simp: EvaluateDispute_def SyncCausalChain_graph [OF g nodes] Let_def original_report_def
        split: option.splits)
qed

section \<open>The review\<close>

interpretation record_lt: weak_lt record_before
  using int_lt.then_weak [OF real_gt.then_weak [OF str_lt.field_weak],
      of "\<lambda>a. statusRank (aj_Status (dc_Adjudication a))" "\<lambda>a. aj_SwingScore (dc_Adjudication a)"
        "\<lambda>a. di_ID (dr_Dispute (dc_Report a))"]
  by (simp add: record_before_def [abs_def] Let_def)

lemma upheld_comes_first:
  assumes "r \<in> set rs" and "IsUpheld r"
  obtains r' rs' where "sort_by record_before rs = r' # rs'" and "IsUpheld r'"
proof (cases "sort_by record_before rs")
  case Nil
  then have "set (sort_by record_before rs) = {}" by simp
  then show ?thesis using assms(1) by (simp only: set_sort_by) simp
next
  case (Cons r' rs')
  have "slice_sorted record_before (sort_by record_before rs)"
    using record_lt.sort_by_sorts by (simp only: sort_Slice_def)
  moreover have "r \<in> set (sort_by record_before rs)" using assms(1) by (simp only: set_sort_by)
  ultimately have "r = r' \<or> \<not> record_before r r'"
    unfolding Cons by (auto simp: slice_sorted_def)
  then have "IsUpheld r'"
    using assms(2) by (auto simp: record_before_def IsUpheld_def statusRank_def Let_def
        split: if_splits dispute_status.splits)
  then show ?thesis using that Cons by blast
qed

lemma flipped_is_upheld:
  "dr_Applied r \<Longrightarrow> dr_RecommendationFlipped r \<or> dr_BlockedFlipped r \<Longrightarrow> IsUpheld (NewDisputeRecord E r)"
  by (auto simp: IsUpheld_def NewDisputeRecord_def Adjudicate_def Let_def)

lemma in_enumerate: "d \<in> set ds \<Longrightarrow> \<exists>k. (k, d) \<in> set (enumerate 0 ds)"
  by (subst (asm) in_set_conv_nth) (auto simp: in_set_enumerate_eq)

lemma review_upholds:
  assumes g: "gv_CausalGraph v = Some g" and dist: "distinct (map cn_ID (cg_Nodes g))"
    and der: "derived E v" and p: "gv_PearlPlan v = Some p"
    and rec: "pd_Recommended (pp_Prediction p) \<noteq> []"
  shows "Review E now (Some cfg) v \<noteq> [] \<and> IsUpheld (hd (Review E now (Some cfg) v))"
proof -
  have run: "RunPearlLoop E (Some g) = Some p" using der p g by (simp add: derived_def)
  have nodes: "cg_Nodes g \<noteq> []" using run by (auto simp: RunPearlLoop_def)
  define w where "w = SyncCausalChain E v"
  have w: "gv_CausalGraph w = Some g" "derived E w" "gv_PearlPlan w = Some p"
    using g der p by (simp_all add: w_def SyncCausalChain_graph [OF g nodes] derived_def)
  obtain c cs where c: "pp_Actions p = c # cs" "ac_Recommended c" "ac_NodeID c = pd_Recommended (pp_Prediction p)"
    using recommended_head [OF run rec] by metis
  define d where "d = hd (proposeActionBlockedDisputes E cfg w)"
  have d: "d \<in> set (proposed E cfg w)" "di_Ground d = ActionBlocked"
      "di_TargetNode d = pd_Recommended (pp_Prediction p)"
    using w(3) c by (simp_all add: d_def proposed_def proposeActionBlockedDisputes_def probe_def)
  obtain k where k: "(k, d) \<in> set (enumerate 0 (proposed E cfg w))" using in_enumerate [OF d(1)] by auto
  define rs where "rs = map (NewDisputeRecord E) (filter (keep_report cfg)
      (map (\<lambda>(k, d). EvaluateDispute E (now k) w d) (enumerate 0 (proposed E cfg w))))"
  let ?r = "EvaluateDispute E (now k) w d"
  have flips: "dr_Applied ?r" "dr_RecommendationFlipped ?r"
    using blocking_the_recommendation [OF w(1) dist w(2,3) rec d(2,3)] by auto
  then have "NewDisputeRecord E ?r \<in> set rs"
    using k by (force simp: rs_def keep_report_def)
  then obtain r' rs' where "sort_by record_before rs = r' # rs'" "IsUpheld r'"
    using upheld_comes_first flipped_is_upheld flips by metis
  then show ?thesis
    using w(1) nodes
    by (auto simp: Review_def Let_def graph_nodes_def take_Cons' simp flip: w_def rs_def)
qed

lemma Compress_derived:
  assumes "err = []"
  shows "derived E (fst (Compress E trace (Answered out err lattice)))"
  using assms by (simp add: derived_def Compress_def Let_def applyConfounderRiskUplift_def split: option.split)

text \<open>
  Property C23. Every verdict that the core makes out of an answer and that recommends an action
  is disputed with success: when the nodes of its graph have different identifiers, the review
  is not empty and its first record is upheld, whatever the configuration and the numbers.
\<close>

theorem review_always_upholds_a_dispute:
  assumes "v = fst (Compress E trace (Answered out [] lattice))"
    and "gv_CausalGraph v = Some g" and "distinct (map cn_ID (cg_Nodes g))"
    and "gv_PearlPlan v = Some p" and "pd_Recommended (pp_Prediction p) \<noteq> []"
  shows "Review E now (Some cfg) v \<noteq> [] \<and> IsUpheld (hd (Review E now (Some cfg) v))"
  using review_upholds [OF assms(2,3) _ assms(4,5)] Compress_derived assms(1) by blast

text \<open>The witness: one piece of evidence and one action.\<close>

definition acting_graph :: "real causal_graph" where
  "acting_graph = \<lparr>cg_ProtocolVersion = 1, cg_Nodes =
     [plain_node ''e'' ''evidence'' 1, plain_node ''a'' ''intervention'' 1]\<rparr>"

definition acting_verdict :: "unit gist_verdict" where
  "acting_verdict = (defaultVerdict exact_env () [])\<lparr>gv_CausalGraph := Some acting_graph\<rparr>"

definition acting_plan :: pearl_plan where
  "acting_plan = (let h = Abduce exact_env (Some acting_graph) in
     \<lparr>pp_ProtocolVersion = 1, pp_Hypothesis = h, pp_Actions = EnumerateActions exact_env (Some acting_graph) h,
      pp_Prediction = Predict exact_env (Some acting_graph) h (EnumerateActions exact_env (Some acting_graph) h)\<rparr>)"

lemma acting_plan_runs: "RunPearlLoop exact_env (Some acting_graph) = Some acting_plan"
  by (simp add: RunPearlLoop_def acting_plan_def acting_graph_def Let_def)

lemma acting_plan_recommends: "pd_Recommended (pp_Prediction acting_plan) = ''a''"
  by (simp add: acting_plan_def Abduce_def abduce_node_def acting_graph_def plain_node_def node_roles
      no_hypothesis_def EnumerateActions_def Predict_def sort_by_def action_of_def Let_def
      confounderBlockThreshold_def exact_env_def)

theorem recommended_action_is_best_witness:
  "hy_ConfounderLoad (pp_Hypothesis acting_plan) < confounderBlockThreshold exact_env \<and>
   (\<exists>n. n \<in> set (cg_Nodes acting_graph) \<and> cn_ID n = ''a'')"
  using recommended_action_is_best [OF acting_plan_runs] acting_plan_recommends by auto

lemma acting_verdict_compressed:
  "fst (Compress exact_env (\<lambda>r. ()) (Answered acting_verdict [] [])) =
   acting_verdict\<lparr>gv_CausalChain := FlatChain (Some acting_graph), gv_Degraded := False, gv_DegradedReason := [],
     gv_PearlPlan := Some acting_plan, gv_Attribution := AttributeNecessity exact_env (Some acting_graph)\<rparr>"
proof -
  have "\<not> pd_BlockedByConfounder (pp_Prediction acting_plan)"
    using recommended_head [OF acting_plan_runs] acting_plan_recommends by (metis list.distinct(1))
  moreover have "graph_nodes (Some acting_graph) \<noteq> []" by (simp add: graph_nodes_def acting_graph_def)
  ultimately show ?thesis
    by (simp add: Compress_def Let_def acting_verdict_def SyncCausalChain_def acting_plan_runs
        applyConfounderRiskUplift_def)
qed

theorem review_always_upholds_a_dispute_witness:
  "IsUpheld (hd (Review exact_env (\<lambda>k. 1) (Some (DefaultAdversarialReviewerConfig exact_env))
     (fst (Compress exact_env (\<lambda>r. ()) (Answered acting_verdict [] [])))))"
proof -
  let ?v = "fst (Compress exact_env (\<lambda>r. ()) (Answered acting_verdict [] []))"
  have g: "gv_CausalGraph ?v = Some acting_graph" and p: "gv_PearlPlan ?v = Some acting_plan"
    by (simp_all only: acting_verdict_compressed) (simp_all add: acting_verdict_def)
  have dist: "distinct (map cn_ID (cg_Nodes acting_graph))" by (simp add: acting_graph_def plain_node_def)
  have rec: "pd_Recommended (pp_Prediction acting_plan) \<noteq> []" by (simp add: acting_plan_recommends)
  show ?thesis by (rule review_always_upholds_a_dispute [OF refl g dist p rec, THEN conjunct2])
qed

section \<open>Claims without effect, and the default confounder\<close>

lemma no_effect_same_graph:
  "ApplyDisputeClaim E (Some g) d = (g', False, ns) \<Longrightarrow> g' = Some g"
  by (auto simp: ApplyDisputeClaim_def apply_relabel_def apply_confounder_def apply_blocked_def
      apply_stale_def Let_def split: if_splits option.splits)

lemma EvaluateDispute_same_graph:
  assumes g: "gv_CausalGraph v = Some g" "cg_Nodes g \<noteq> []" and der: "derived E v"
    and pos: "gv_PearlPlan v = Some p" "0 < pd_ProjectedConfidence (pp_Prediction p)" and zero: "ce_Round E 0 = 0"
    and no: "ApplyDisputeClaim E (Some g) (if di_CreatedAt d = 0 then d\<lparr>di_CreatedAt := now\<rparr> else d) = (Some g, b, ns)"
  shows "dr_Applied (EvaluateDispute E now v d) = b \<and> dr_DeltaConfidence (EvaluateDispute E now v d) = 0 \<and>
    \<not> dr_RecommendationFlipped (EvaluateDispute E now v d) \<and> \<not> dr_TopShapleyChanged (EvaluateDispute E now v d) \<and>
    \<not> dr_BlockedFlipped (EvaluateDispute E now v d)"
proof -
  have run: "RunPearlLoop E (Some g) = Some p" using der pos g by (simp add: derived_def)
  have attr: "gv_Attribution v = AttributeNecessity E (Some g)" using der g by (simp add: derived_def)
  show ?thesis
    using pos zero g(2) unfolding EvaluateDispute_def SyncCausalChain_graph [OF g] Let_def
    by (simp add: g(1) no run attr original_report_def graph_nodes_def fsub_def)
qed

text \<open>
  A dispute whose claim has no effect on the graph of a verdict that the core made,
  with a positive projected confidence, moves nothing: no difference of confidence, no flip, and
  the ruling is that it is noted, with a swing of zero.
\<close>

theorem claim_without_effect_is_noted:
  assumes "v = fst (Compress E trace (Answered out [] lattice))"
    and "gv_CausalGraph v = Some g" and "gv_PearlPlan v = Some p"
    and "0 < pd_ProjectedConfidence (pp_Prediction p)" and "ce_Round E 0 = 0"
    and "\<not> dr_Applied (EvaluateDispute E now v d)"
  shows "dr_DeltaConfidence (EvaluateDispute E now v d) = 0 \<and>
    aj_Status (Adjudicate E (EvaluateDispute E now v d)) = DisputeNoted \<and>
    aj_SwingScore (Adjudicate E (EvaluateDispute E now v d)) = 0"
proof -
  have der: "derived E v" using Compress_derived assms(1) by blast
  have nodes: "cg_Nodes g \<noteq> []" using der assms(2,3) by (auto simp: derived_def RunPearlLoop_def)
  obtain g' b ns where a:
      "ApplyDisputeClaim E (Some g) (if di_CreatedAt d = 0 then d\<lparr>di_CreatedAt := now\<rparr> else d) = (g', b, ns)"
    by (metis prod_cases3)
  have "\<not> b"
    using assms(6) unfolding EvaluateDispute_def SyncCausalChain_graph [OF assms(2) nodes] Let_def
    by (simp add: assms(2) a split: if_splits)
  then have same: "g' = Some g" using a no_effect_same_graph by metis
  show ?thesis
    using EvaluateDispute_same_graph [OF assms(2) nodes der assms(3-5) a [unfolded same]] \<open>\<not> b\<close>
    by (auto simp: Adjudicate_def Let_def swing_score_def AbsConfidenceSwing_def)
qed

definition remark :: dispute where
  "remark = (probe (DefaultAdversarialReviewerConfig exact_env) [] Narrative [] ''I am not sure'')"

lemma acting_confidence: "0 < pd_ProjectedConfidence (pp_Prediction acting_plan)"
  by (simp add: acting_plan_def Abduce_def abduce_node_def acting_graph_def plain_node_def node_roles
      no_hypothesis_def EnumerateActions_def Predict_def sort_by_def action_of_def Let_def
      confounderBlockThreshold_def exact_env_def action_score_def sigmoid_def fdiv_def fadd_def add_pos_pos)

theorem claim_without_effect_is_noted_witness:
  "aj_Status (Adjudicate exact_env (EvaluateDispute exact_env 1
     (fst (Compress exact_env (\<lambda>r. ()) (Answered acting_verdict [] []))) remark)) = DisputeNoted"
proof -
  let ?v = "fst (Compress exact_env (\<lambda>r. ()) (Answered acting_verdict [] []))"
  have g: "gv_CausalGraph ?v = Some acting_graph" and p: "gv_PearlPlan ?v = Some acting_plan"
    by (simp_all only: acting_verdict_compressed) (simp_all add: acting_verdict_def)
  have zero: "ce_Round exact_env 0 = 0" by (simp add: exact_env_def)
  have nodes: "cg_Nodes acting_graph \<noteq> []" by (simp add: acting_graph_def)
  have no: "\<not> dr_Applied (EvaluateDispute exact_env 1 ?v remark)"
    unfolding EvaluateDispute_def SyncCausalChain_graph [OF g nodes] Let_def
    by (simp add: g remark_def probe_def ApplyDisputeClaim_def dispute_grounds Let_def)
  show ?thesis
    using claim_without_effect_is_noted [OF refl g p acting_confidence zero no] by blast
qed

section \<open>The default confounder\<close>

text \<open>What the theorems use of the rounding to the nearest number.\<close>

definition rounds :: "causal_env \<Rightarrow> bool" where
  "rounds E \<longleftrightarrow> mono (ce_Round E) \<and> (\<forall>x. ce_Round E (ce_Round E x) = ce_Round E x) \<and> ce_Round E 0 = 0"

lemma abduce_load_nonneg:
  assumes "rounds E" and "list_all (\<lambda>n. 0 \<le> cn_Weight n) ns" and "0 \<le> hy_ConfounderLoad h"
  shows "0 \<le> hy_ConfounderLoad (fold (abduce_node E) ns h)"
  using assms(2,3)
proof (induction ns arbitrary: h)
  case (Cons n ns)
  have "ce_Round E 0 \<le> fadd E (hy_ConfounderLoad h) (cn_Weight n)"
    unfolding fadd_def using assms(1) Cons.prems
    by (intro monoD [of "ce_Round E"]) (simp_all add: rounds_def)
  then have "0 \<le> fadd E (hy_ConfounderLoad h) (cn_Weight n)"
    using assms(1) by (simp add: rounds_def)
  then have "0 \<le> hy_ConfounderLoad (abduce_node E n h)"
    using Cons.prems by (simp add: abduce_node_def)
  then show ?case using Cons by simp
qed simp

lemma load_with_confounder:
  assumes "rounds E" and "list_all (\<lambda>n. 0 \<le> cn_Weight n) (cg_Nodes g)"
    and "cn_Role n = NodeRoleConfounder" and "cn_Weight n = defaultAddedConfounderWeight E"
  shows "confounderBlockThreshold E \<le>
    hy_ConfounderLoad (Abduce E (Some (g\<lparr>cg_Nodes := cg_Nodes g @ [n]\<rparr>)))"
proof -
  let ?l = "hy_ConfounderLoad (fold (abduce_node E) (cg_Nodes g) no_hypothesis)"
  have "0 \<le> ?l" by (rule abduce_load_nonneg [OF assms(1,2)]) (simp add: no_hypothesis_def)
  then have "ce_Round E (ce_Round E (7 / 10)) \<le> ce_Round E (?l + ce_Round E (7 / 10))"
    using assms(1) by (intro monoD [of "ce_Round E"]) (simp_all add: rounds_def)
  moreover have "ce_Round E (6 / 10) \<le> ce_Round E (7 / 10)"
    using assms(1) by (intro monoD [of "ce_Round E"]) (simp_all add: rounds_def)
  ultimately have "ce_Round E (6 / 10) \<le> ce_Round E (?l + ce_Round E (7 / 10))"
    using assms(1) by (simp add: rounds_def)
  then show ?thesis
    using assms(3,4) by (simp add: Abduce_def Let_def abduce_node_def fadd_def node_roles
        confounderBlockThreshold_def defaultAddedConfounderWeight_def)
qed

lemma default_confounder_claim:
  assumes "di_Ground d = MissingConfounder" and "trim_space (di_AddedSummary d) \<noteq> []" and "di_AddedWeight d \<le> 0"
  shows "\<exists>n ns. cn_Role n = NodeRoleConfounder \<and> cn_Weight n = defaultAddedConfounderWeight E \<and>
    ApplyDisputeClaim E (Some g) d = (Some (g\<lparr>cg_Nodes := cg_Nodes g @ [n]\<rparr>), True, ns)"
proof -
  have "ApplyDisputeClaim E (Some g) d = (case apply_confounder E g d of (g, b, ns) \<Rightarrow> (Some g, b, ns))"
    using assms(1) by (simp add: ApplyDisputeClaim_def dispute_grounds Let_def)
  moreover have "\<exists>n ns. apply_confounder E g d = (g\<lparr>cg_Nodes := cg_Nodes g @ [n]\<rparr>, True, ns) \<and>
      cn_Role n = NodeRoleConfounder \<and> cn_Weight n = defaultAddedConfounderWeight E"
    unfolding apply_confounder_def Let_def if_not_P [OF assms(2)] if_P [OF assms(3)]
    by (intro exI conjI, rule refl) simp_all
  ultimately show ?thesis by fastforce
qed

text \<open>
  A dispute that adds a confounder of the default weight to a graph without negative
  weights always blocks the counterfactual plan, so it is upheld against every verdict of the
  core that is not blocked itself.
\<close>

theorem default_confounder_always_blocks:
  assumes "rounds E" and "v = fst (Compress E trace (Answered out [] lattice))"
    and "gv_CausalGraph v = Some g" and "list_all (\<lambda>n. 0 \<le> cn_Weight n) (cg_Nodes g)"
    and "gv_PearlPlan v = Some p" and "\<not> pd_BlockedByConfounder (pp_Prediction p)"
    and "di_Ground d = MissingConfounder" and "trim_space (di_AddedSummary d) \<noteq> []" and "di_AddedWeight d \<le> 0"
  shows "dr_Blocked (EvaluateDispute E now v d) \<and>
    IsUpheld (NewDisputeRecord E (EvaluateDispute E now v d))"
proof -
  have der: "derived E v" using Compress_derived assms(2) by blast
  have nodes: "cg_Nodes g \<noteq> []" using der assms(3,5) by (auto simp: derived_def RunPearlLoop_def)
  let ?d = "if di_CreatedAt d = 0 then d\<lparr>di_CreatedAt := now\<rparr> else d"
  have "di_Ground ?d = MissingConfounder" "trim_space (di_AddedSummary ?d) \<noteq> []" "di_AddedWeight ?d \<le> 0"
    using assms(7-9) by simp_all
  from default_confounder_claim [OF this] obtain n ns where
      n: "cn_Role n = NodeRoleConfounder" "cn_Weight n = defaultAddedConfounderWeight E"
    and claim: "ApplyDisputeClaim E (Some g) ?d = (Some (g\<lparr>cg_Nodes := cg_Nodes g @ [n]\<rparr>), True, ns)"
    by blast
  let ?cf = "g\<lparr>cg_Nodes := cg_Nodes g @ [n]\<rparr>"
  obtain q where q: "RunPearlLoop E (Some ?cf) = Some q" "pd_BlockedByConfounder (pp_Prediction q)"
    using load_with_confounder [OF assms(1,4) n]
    by (simp add: RunPearlLoop_def Let_def Predict_def)
  have "dr_Applied (EvaluateDispute E now v d) \<and> dr_Blocked (EvaluateDispute E now v d) \<and>
      dr_BlockedFlipped (EvaluateDispute E now v d)"
    using q assms(5,6) unfolding EvaluateDispute_def SyncCausalChain_graph [OF assms(3) nodes] Let_def
    by (simp add: assms(3) claim original_report_def graph_nodes_def)
  then show ?thesis using flipped_is_upheld by blast
qed

definition doubt :: dispute where
  "doubt = (probe (DefaultAdversarialReviewerConfig exact_env) [] MissingConfounder [] [])
     \<lparr>di_AddedSummary := ''load''\<rparr>"

theorem default_confounder_always_blocks_witness:
  "dr_Blocked (EvaluateDispute exact_env 1
     (fst (Compress exact_env (\<lambda>r. ()) (Answered acting_verdict [] []))) doubt)"
proof -
  let ?v = "fst (Compress exact_env (\<lambda>r. ()) (Answered acting_verdict [] []))"
  have g: "gv_CausalGraph ?v = Some acting_graph" and p: "gv_PearlPlan ?v = Some acting_plan"
    by (simp_all only: acting_verdict_compressed) (simp_all add: acting_verdict_def)
  have r: "rounds exact_env" by (simp add: rounds_def exact_env_def mono_def)
  have w: "list_all (\<lambda>n. 0 \<le> cn_Weight n) (cg_Nodes acting_graph)"
    by (simp add: acting_graph_def plain_node_def)
  have nb: "\<not> pd_BlockedByConfounder (pp_Prediction acting_plan)"
    using recommended_head [OF acting_plan_runs] acting_plan_recommends by (metis list.distinct(1))
  have d: "di_Ground doubt = MissingConfounder" "di_AddedWeight doubt \<le> 0"
    "trim_space (di_AddedSummary doubt) \<noteq> []"
    by (simp_all add: doubt_def probe_def) code_simp
  show ?thesis
    using default_confounder_always_blocks [OF r refl g w p nb d(1,3,2)] by blast
qed

end
