(* ===== verification/Causal_Chain_Properties.thy ===== *)
theory Causal_Chain_Properties
  imports Shapley_Properties Disputes
begin

text \<open>When a chain of texts survives the way through a graph and back, and when it does not.\<close>

lemma sort_by_sorted: "slice_sorted lt xs \<Longrightarrow> sort_by lt xs = xs"
proof (induction xs)
  case (Cons x xs)
  then have "sort_by lt xs = xs" by (simp add: slice_sorted_def)
  then show ?case using Cons.prems by (cases xs) (simp_all add: sort_by_def slice_sorted_def)
qed (simp add: sort_by_def)

text \<open>An entry that the reading takes as it is: trimmed, not empty and without a role.\<close>

definition plain_entry :: "causal_env \<Rightarrow> string \<Rightarrow> bool" where
  "plain_entry E s \<longleftrightarrow> trim_space s = s \<and> s \<noteq> [] \<and> cn_Role (hydrate_entry E 1 0 s) = NodeRoleUnknown"

lemma hydrate_plain:
  assumes "plain_entry E s"
  shows "cn_Role (hydrate_entry E n i s) = NodeRoleUnknown \<and> cn_Summary (hydrate_entry E n i s) = s"
  using assms by (auto simp: plain_entry_def hydrate_entry_def Let_def node_roles split: if_splits)

text \<open>
  A chain of trimmed, non-empty texts without a role in front comes back unchanged
  from the graph that is made of it, as long as the weights by rank are rounded to different
  numbers.
\<close>

theorem plain_chain_round_trip:
  assumes "list_all (plain_entry E) chain"
    and "\<And>i j. i < j \<Longrightarrow> j < length chain \<Longrightarrow>
      fdiv E (real (length chain - j)) (real (length chain)) < fdiv E (real (length chain - i)) (real (length chain))"
  shows "FlatChain (HydrateLegacyCausalChain E chain) = chain"
proof -
  define ns where "ns = map (\<lambda>i. hydrate_entry E (length chain) i (chain ! i)) [0..<length chain]"
  have plain: "cn_Role (ns ! i) = NodeRoleUnknown \<and> cn_Summary (ns ! i) = chain ! i" if "i < length chain" for i
    using that assms(1) hydrate_plain by (simp add: ns_def list_all_length)
  have "slice_sorted chain_before ns"
    unfolding slice_sorted_def sorted_wrt_iff_nth_less
  proof (intro allI impI)
    fix i j assume ij: "i < j" "j < length ns"
    then have "cn_Weight (ns ! j) < cn_Weight (ns ! i)"
      using assms(2) by (simp add: ns_def hydrate_entry_def Let_def)
    then show "\<not> chain_before (ns ! j) (ns ! i)"
      using plain [of i] plain [of j] ij by (simp add: chain_before_def ns_def)
  qed
  then have sorted: "sort_by chain_before ns = ns" by (rule sort_by_sorted)
  have "map chain_label ns = chain"
  proof (rule nth_equalityI)
    show "map chain_label ns ! i = chain ! i" if "i < length (map chain_label ns)" for i
      using that plain [of i] assms(1)
      by (simp add: ns_def chain_label_def Let_def list_all_length plain_entry_def)
  qed (simp add: ns_def)
  then show ?thesis
    using sorted by (auto simp: FlatChain_def HydrateLegacyCausalChain_def simp flip: ns_def)
qed

lemma trimmed_samples [simp]: "trim_space ''a'' = ''a''" "trim_space ''b'' = ''b''"
  by code_simp+

theorem plain_chain_round_trip_witness:
  "FlatChain (HydrateLegacyCausalChain exact_env [''b'', ''a'']) = [''b'', ''a'']"
proof (rule plain_chain_round_trip)
  show "list_all (plain_entry exact_env) [''b'', ''a'']"
    by (simp add: plain_entry_def hydrate_entry_def Let_def)
  show "fdiv exact_env (real (length [''b'', ''a''] - j)) (real (length [''b'', ''a''])) <
      fdiv exact_env (real (length [''b'', ''a''] - i)) (real (length [''b'', ''a'']))"
    if "i < j" "j < length [''b'', ''a'']" for i j
    using that by (simp add: fdiv_def exact_env_def less_Suc_eq)
qed

text \<open>
  Roles are sorted, so a chain with an outcome after its evidence is turned around by the second
  call, while the first one only adds the graph.
\<close>

definition mixed_verdict :: "unit gist_verdict" where
  "mixed_verdict = \<lparr>gv_Verdict = [], gv_Confidence = 0, gv_CausalChain = [''evidence: a'', ''outcome: b''],
     gv_CausalGraph = None, gv_OpenQuestions = [], gv_ExecutionIntent = [], gv_RiskLevel = [],
     gv_Degraded = False, gv_DegradedReason = [], gv_PearlPlan = None, gv_Attribution = [], gv_Rest = ()\<rparr>"

lemma mixed_trims [simp]:
  "trim_space ''evidence: a'' = ''evidence: a''" "trim_space ''outcome: b'' = ''outcome: b''"
  "trim_space ''evidence'' = ''evidence''" "trim_space ''outcome'' = ''outcome''"
  "trim_space '' a'' = ''a''" "trim_space '' b'' = ''b''"
  "to_lower_ascii ''evidence'' = ''evidence''" "to_lower_ascii ''outcome'' = ''outcome''"
  by code_simp+

theorem second_sync_reorders:
  "gv_CausalChain (SyncCausalChain exact_env mixed_verdict) = [''evidence: a'', ''outcome: b''] \<and>
   gv_CausalChain (SyncCausalChain exact_env (SyncCausalChain exact_env mixed_verdict)) =
     [''outcome: b'', ''evidence: a'']"
  by (simp add: SyncCausalChain_def mixed_verdict_def HydrateLegacyCausalChain_def graph_nodes_def
      hydrate_entry_def Let_def before_colon_def after_colon_def exact_env_def node_roles FlatChain_def
      sort_by_def chain_before_def roleOrder_def chain_label_def)

end
