(* ===== verification/Session_Store.thy ===== *)
theory Session_Store
  imports Message_Store Complex_Main
begin

text \<open>
  Sessions, \<open>internal/session/session.go\<close> over \<open>internal/db/sessions.sql.go\<close>. A cost is the
  real number it stands for. No operation here writes the message count: the triggers of the
  database do, with the messages.
\<close>

section \<open>The table\<close>

record session_row =
  sr_ID :: string
  sr_ParentSessionID :: "string option"
  sr_Title :: string
  sr_MessageCount :: int
  sr_PromptTokens :: int
  sr_CompletionTokens :: int
  sr_Cost :: real
  sr_UpdatedAt :: int
  sr_CreatedAt :: int
  sr_SummaryMessageID :: "string option"

definition session_checks :: "session_row \<Rightarrow> bool" where
  "session_checks r \<longleftrightarrow> 0 \<le> sr_MessageCount r \<and> 0 \<le> sr_PromptTokens r \<and>
     0 \<le> sr_CompletionTokens r \<and> 0 \<le> sr_Cost r"

definition q_CreateSession ::
  "string option \<Rightarrow> int \<Rightarrow> session_row \<Rightarrow> session_row list \<Rightarrow>
   (string, session_row) outcome \<times> session_row list" where
  "q_CreateSession fault now row rows =
     (case fault of
        Some e \<Rightarrow> (Err e, rows)
      | None \<Rightarrow>
          if sr_ID row \<in> sr_ID ` set rows then (Err ''UNIQUE constraint failed: sessions.id'', rows)
          else (let row' = row\<lparr>sr_UpdatedAt := now, sr_CreatedAt := now, sr_SummaryMessageID := None\<rparr>
                in (Ok row', rows @ [row'])))"

definition q_DeleteSession ::
  "string option \<Rightarrow> string \<Rightarrow> session_row list \<Rightarrow> (string, unit) outcome \<times> session_row list" where
  "q_DeleteSession fault i rows =
     (case fault of Some e \<Rightarrow> (Err e, rows) | None \<Rightarrow> (Ok (), filter (\<lambda>r. sr_ID r \<noteq> i) rows))"

definition q_GetSessionByID ::
  "string option \<Rightarrow> string \<Rightarrow> session_row list \<Rightarrow> (string, session_row) outcome" where
  "q_GetSessionByID fault i rows =
     (case fault of
        Some e \<Rightarrow> Err e
      | None \<Rightarrow> (case find (\<lambda>r. sr_ID r = i) rows of
            Some r \<Rightarrow> Ok r | None \<Rightarrow> Err ''sql: no rows in result set''))"

definition q_ListSessions ::
  "(session_row list \<Rightarrow> session_row list) \<Rightarrow> string option \<Rightarrow> session_row list \<Rightarrow>
   (string, session_row list) outcome" where
  "q_ListSessions arrange fault rows =
     (case fault of
        Some e \<Rightarrow> Err e | None \<Rightarrow> Ok (arrange (filter (\<lambda>r. sr_ParentSessionID r = None) rows)))"

text \<open>Only these five columns are written; the time of the update is the trigger's.\<close>

definition q_UpdateSession ::
  "string option \<Rightarrow> int \<Rightarrow> session_row \<Rightarrow> session_row list \<Rightarrow>
   (string, session_row) outcome \<times> session_row list" where
  "q_UpdateSession fault now arg rows =
     (case fault of
        Some e \<Rightarrow> (Err e, rows)
      | None \<Rightarrow> (case find (\<lambda>r. sr_ID r = sr_ID arg) rows of
            None \<Rightarrow> (Err ''sql: no rows in result set'', rows)
          | Some r \<Rightarrow>
              let r' = r\<lparr>sr_Title := sr_Title arg, sr_PromptTokens := sr_PromptTokens arg,
                  sr_CompletionTokens := sr_CompletionTokens arg,
                  sr_SummaryMessageID := sr_SummaryMessageID arg, sr_Cost := sr_Cost arg\<rparr> in
              if session_checks r'
              then (Ok r', map (\<lambda>q. if sr_ID q = sr_ID arg then r'\<lparr>sr_UpdatedAt := now\<rparr> else q) rows)
              else (Err ''CHECK constraint failed'', rows)))"

section \<open>The service\<close>

record session =
  ss_ID :: string
  ss_ParentSessionID :: string
  ss_Title :: string
  ss_MessageCount :: int
  ss_PromptTokens :: int
  ss_CompletionTokens :: int
  ss_SummaryMessageID :: string
  ss_Cost :: real
  ss_CreatedAt :: int
  ss_UpdatedAt :: int

datatype session_event = SessionCreated session | SessionUpdated session | SessionDeleted session

record session_service =
  sn_rows :: "session_row list"
  sn_events :: "session_event list"

definition null_string :: "string option \<Rightarrow> string" where
  "null_string s = (case s of None \<Rightarrow> [] | Some t \<Rightarrow> t)"

definition session_of_row :: "session_row \<Rightarrow> session" where
  "session_of_row item =
     \<lparr>ss_ID = sr_ID item, ss_ParentSessionID = null_string (sr_ParentSessionID item),
      ss_Title = sr_Title item, ss_MessageCount = sr_MessageCount item,
      ss_PromptTokens = sr_PromptTokens item, ss_CompletionTokens = sr_CompletionTokens item,
      ss_SummaryMessageID = null_string (sr_SummaryMessageID item), ss_Cost = sr_Cost item,
      ss_CreatedAt = sr_CreatedAt item, ss_UpdatedAt = sr_UpdatedAt item\<rparr>"

definition create_session ::
  "string option \<Rightarrow> int \<Rightarrow> string \<Rightarrow> string option \<Rightarrow> string \<Rightarrow> session_service \<Rightarrow>
   (string, session) outcome \<times> session_service" where
  "create_session fault now i parent title sv =
     (case q_CreateSession fault now
        \<lparr>sr_ID = i, sr_ParentSessionID = parent, sr_Title = title, sr_MessageCount = 0,
         sr_PromptTokens = 0, sr_CompletionTokens = 0, sr_Cost = 0, sr_UpdatedAt = 0,
         sr_CreatedAt = 0, sr_SummaryMessageID = None\<rparr> (sn_rows sv) of
        (Ok row, rows) \<Rightarrow> (Ok (session_of_row row),
           sv\<lparr>sn_rows := rows, sn_events := sn_events sv @ [SessionCreated (session_of_row row)]\<rparr>)
      | (Err e, rows) \<Rightarrow> (Err e, sv)
      | (Panic e, rows) \<Rightarrow> (Panic e, sv))"

definition CreateSession ::
  "string option \<Rightarrow> string \<Rightarrow> int \<Rightarrow> string \<Rightarrow> session_service \<Rightarrow>
   (string, session) outcome \<times> session_service" where
  "CreateSession fault uid now title = create_session fault now uid None title"

definition CreateTaskSession ::
  "string option \<Rightarrow> int \<Rightarrow> string \<Rightarrow> string \<Rightarrow> string \<Rightarrow> session_service \<Rightarrow>
   (string, session) outcome \<times> session_service" where
  "CreateTaskSession fault now toolCallID parentSessionID title =
     create_session fault now toolCallID (Some parentSessionID) title"

definition CreateTitleSession ::
  "string option \<Rightarrow> int \<Rightarrow> string \<Rightarrow> session_service \<Rightarrow> (string, session) outcome \<times> session_service" where
  "CreateTitleSession fault now parentSessionID =
     create_session fault now (''title-'' @ parentSessionID) (Some parentSessionID) ''Generate a title''"

definition GetSession :: "string option \<Rightarrow> string \<Rightarrow> session_service \<Rightarrow> (string, session) outcome" where
  "GetSession fault i sv = obind (q_GetSessionByID fault i (sn_rows sv)) (\<lambda>r. Ok (session_of_row r))"

definition DeleteSession ::
  "string option \<Rightarrow> string option \<Rightarrow> string \<Rightarrow> session_service \<Rightarrow>
   (string, unit) outcome \<times> session_service" where
  "DeleteSession faultG faultD i sv =
     (case GetSession faultG i sv of
        Ok s \<Rightarrow>
          (case q_DeleteSession faultD (ss_ID s) (sn_rows sv) of
             (Ok _, rows) \<Rightarrow> (Ok (), sv\<lparr>sn_rows := rows, sn_events := sn_events sv @ [SessionDeleted s]\<rparr>)
           | (Err e, rows) \<Rightarrow> (Err e, sv)
           | (Panic e, rows) \<Rightarrow> (Panic e, sv))
      | Err e \<Rightarrow> (Err e, sv)
      | Panic e \<Rightarrow> (Panic e, sv))"

definition SaveSession ::
  "string option \<Rightarrow> int \<Rightarrow> session \<Rightarrow> session_service \<Rightarrow> (string, session) outcome \<times> session_service" where
  "SaveSession fault now s sv =
     (case q_UpdateSession fault now
        \<lparr>sr_ID = ss_ID s, sr_ParentSessionID = None, sr_Title = ss_Title s, sr_MessageCount = 0,
         sr_PromptTokens = ss_PromptTokens s, sr_CompletionTokens = ss_CompletionTokens s,
         sr_Cost = ss_Cost s, sr_UpdatedAt = 0, sr_CreatedAt = 0,
         sr_SummaryMessageID = (if ss_SummaryMessageID s \<noteq> [] then Some (ss_SummaryMessageID s) else None)\<rparr>
        (sn_rows sv) of
        (Ok row, rows) \<Rightarrow> (Ok (session_of_row row),
           sv\<lparr>sn_rows := rows, sn_events := sn_events sv @ [SessionUpdated (session_of_row row)]\<rparr>)
      | (Err e, rows) \<Rightarrow> (Err e, sv)
      | (Panic e, rows) \<Rightarrow> (Panic e, sv))"

definition ListSessions ::
  "(session_row list \<Rightarrow> session_row list) \<Rightarrow> string option \<Rightarrow> session_service \<Rightarrow>
   (string, session list) outcome" where
  "ListSessions arrange fault sv =
     obind (q_ListSessions arrange fault (sn_rows sv)) (\<lambda>rs. Ok (map session_of_row rs))"

end
