(* ===== verification/Agent_Loop.thy ===== *)
theory Agent_Loop
  imports Session_Store Go_Numbers
begin

text \<open>
  The agent of a session, \<open>internal/llm/agent/agent.go\<close>: the events of the language model fill a
  message, its tool calls are run, and their results go back to the model until it ends. The
  model, the tools and the database faults are functions of the environment; a counter in the
  state tells the environment which of its answers is asked for, so it may answer differently
  every time. Contexts are one flag, asked by counter too. An error is its text and whether it
  wraps the cancellation or the denial of a permission.
\<close>

section \<open>Environment and state\<close>

record go_error =
  ge_Text :: string
  ge_Canceled :: bool
  ge_Denied :: bool

definition plain_error :: "string \<Rightarrow> go_error" where
  "plain_error s = \<lparr>ge_Text = s, ge_Canceled = False, ge_Denied = False\<rparr>"

text \<open>\<open>fmt.Errorf\<close> with \<open>%w\<close>.\<close>

definition wrap_error :: "string \<Rightarrow> go_error \<Rightarrow> go_error" where
  "wrap_error prefix e = e\<lparr>ge_Text := prefix @ ge_Text e\<rparr>"

record token_usage =
  us_InputTokens :: int
  us_OutputTokens :: int
  us_CacheCreationTokens :: int
  us_CacheReadTokens :: int

record provider_response =
  rp_Content :: string
  rp_ToolCalls :: "tool_call list"
  rp_Usage :: token_usage
  rp_FinishReason :: string

record provider_event =
  ev_Type :: string
  ev_Content :: string
  ev_Response :: "provider_response option"
  ev_ToolCall :: "tool_call option"
  ev_Error :: "go_error option"

record tool_response =
  tr_Content :: string
  tr_Metadata :: string
  tr_IsError :: bool

record model_info =
  mi_ID :: string
  mi_SupportsAttachments :: bool
  mi_CostPer1MIn :: real
  mi_CostPer1MOut :: real
  mi_CostPer1MInCached :: real
  mi_CostPer1MOutCached :: real

text \<open>A function of the program that may panic.\<close>

datatype 'a run = Returned 'a | Panicked string

record 'w agent_env =
  ag_Uid :: "nat \<Rightarrow> string"
  ag_DbNow :: "nat \<Rightarrow> int"
  ag_Now :: "nat \<Rightarrow> int"
  ag_Fault :: "nat \<Rightarrow> go_error option"
  ag_Done :: "nat \<Rightarrow> go_error option"
  ag_Stream :: "nat \<Rightarrow> message list \<Rightarrow> provider_event list"
  ag_Tools :: "(string \<times> (nat \<Rightarrow> tool_call \<Rightarrow> 'w \<Rightarrow> ((tool_response \<times> go_error option) run) \<times> 'w)) list"
  ag_Model :: model_info
  ag_Round :: "real \<Rightarrow> real"
  ag_Arrange :: "message_row list \<Rightarrow> message_row list"

record 'w agent_state =
  as_Tick :: nat
  as_Messages :: message_service
  as_Sessions :: session_service
  as_World :: 'w
  as_Ran :: "tool_call list"
  as_Titles :: "(string \<times> string) list"

definition tick :: "'w agent_state \<Rightarrow> 'w agent_state" where
  "tick st = st\<lparr>as_Tick := as_Tick st + 1\<rparr>"

definition db_error :: "go_error option \<Rightarrow> string \<Rightarrow> go_error" where
  "db_error fault s = (case fault of None \<Rightarrow> plain_error s | Some f \<Rightarrow> f\<lparr>ge_Text := s\<rparr>)"

definition create_message ::
  "'w agent_env \<Rightarrow> string \<Rightarrow> string \<Rightarrow> content_part list \<Rightarrow> string \<Rightarrow> 'w agent_state \<Rightarrow>
   (go_error, message) outcome \<times> 'w agent_state" where
  "create_message E sessionID role parts model st =
     (let k = as_Tick st; f = ag_Fault E k in
      case CreateMessage (map_option ge_Text f) (ag_Uid E k) (ag_DbNow E k) sessionID role parts model
             (as_Messages st) of
        (Ok m, sv) \<Rightarrow> (Ok m, tick (st\<lparr>as_Messages := sv\<rparr>))
      | (Err e, sv) \<Rightarrow> (Err (db_error f e), tick (st\<lparr>as_Messages := sv\<rparr>))
      | (Panic e, sv) \<Rightarrow> (Panic e, tick (st\<lparr>as_Messages := sv\<rparr>)))"

definition update_message ::
  "'w agent_env \<Rightarrow> message \<Rightarrow> 'w agent_state \<Rightarrow> (go_error, unit) outcome \<times> 'w agent_state" where
  "update_message E m st =
     (let k = as_Tick st; f = ag_Fault E k in
      case UpdateMessage (map_option ge_Text f) (ag_DbNow E k) (ag_Now E k) m (as_Messages st) of
        (Ok _, sv) \<Rightarrow> (Ok (), tick (st\<lparr>as_Messages := sv\<rparr>))
      | (Err e, sv) \<Rightarrow> (Err (db_error f e), tick (st\<lparr>as_Messages := sv\<rparr>))
      | (Panic e, sv) \<Rightarrow> (Panic e, tick (st\<lparr>as_Messages := sv\<rparr>)))"

definition get_session ::
  "'w agent_env \<Rightarrow> string \<Rightarrow> 'w agent_state \<Rightarrow> (go_error, session) outcome \<times> 'w agent_state" where
  "get_session E sessionID st =
     (let f = ag_Fault E (as_Tick st) in
      case GetSession (map_option ge_Text f) sessionID (as_Sessions st) of
        Ok s \<Rightarrow> (Ok s, tick st)
      | Err e \<Rightarrow> (Err (db_error f e), tick st)
      | Panic e \<Rightarrow> (Panic e, tick st))"

definition save_session ::
  "'w agent_env \<Rightarrow> session \<Rightarrow> 'w agent_state \<Rightarrow> (go_error, session) outcome \<times> 'w agent_state" where
  "save_session E s st =
     (let k = as_Tick st; f = ag_Fault E k in
      case SaveSession (map_option ge_Text f) (ag_DbNow E k) s (as_Sessions st) of
        (Ok r, sv) \<Rightarrow> (Ok r, tick (st\<lparr>as_Sessions := sv\<rparr>))
      | (Err e, sv) \<Rightarrow> (Err (db_error f e), tick (st\<lparr>as_Sessions := sv\<rparr>))
      | (Panic e, sv) \<Rightarrow> (Panic e, tick (st\<lparr>as_Sessions := sv\<rparr>)))"

section \<open>Events\<close>

text \<open>The errors of the update are dropped; the finish is in the message all the same.\<close>

definition finishMessage ::
  "'w agent_env \<Rightarrow> string \<Rightarrow> message \<Rightarrow> 'w agent_state \<Rightarrow> message \<times> 'w agent_state" where
  "finishMessage E reason m st =
     (let m' = AddFinish reason (ag_Now E (as_Tick st)) m in (m', snd (update_message E m' st)))"

definition usage_cost :: "(real \<Rightarrow> real) \<Rightarrow> model_info \<Rightarrow> token_usage \<Rightarrow> real" where
  "usage_cost rnd model usage =
     (let part = (\<lambda>price tokens. rnd (rnd (price / 1000000) * rnd (real_of_int tokens))) in
      rnd (rnd (rnd (part (mi_CostPer1MInCached model) (us_CacheCreationTokens usage) +
                     part (mi_CostPer1MOutCached model) (us_CacheReadTokens usage)) +
                part (mi_CostPer1MIn model) (us_InputTokens usage)) +
           part (mi_CostPer1MOut model) (us_OutputTokens usage)))"

definition used_session :: "(real \<Rightarrow> real) \<Rightarrow> model_info \<Rightarrow> token_usage \<Rightarrow> session \<Rightarrow> session" where
  "used_session rnd model usage s =
     s\<lparr>ss_Cost := rnd (ss_Cost s + usage_cost rnd model usage),
       ss_CompletionTokens := wrap64 (us_OutputTokens usage + us_CacheReadTokens usage),
       ss_PromptTokens := wrap64 (us_InputTokens usage + us_CacheCreationTokens usage)\<rparr>"

definition TrackUsage ::
  "'w agent_env \<Rightarrow> string \<Rightarrow> model_info \<Rightarrow> token_usage \<Rightarrow> 'w agent_state \<Rightarrow>
   (go_error, unit) outcome \<times> 'w agent_state" where
  "TrackUsage E sessionID model usage st =
     (case get_session E sessionID st of
        (Err e, st1) \<Rightarrow> (Err (wrap_error ''failed to get session: '' e), st1)
      | (Panic e, st1) \<Rightarrow> (Panic e, st1)
      | (Ok s, st1) \<Rightarrow>
          (case save_session E (used_session (ag_Round E) model usage s) st1 of
             (Err e, st2) \<Rightarrow> (Err (wrap_error ''failed to save session: '' e), st2)
           | (Panic e, st2) \<Rightarrow> (Panic e, st2)
           | (Ok _, st2) \<Rightarrow> (Ok (), st2)))"

definition nil_pointer :: string where
  "nil_pointer = ''runtime error: invalid memory address or nil pointer dereference''"

text \<open>A message changed by an event, with its update.\<close>

definition with_update ::
  "'w agent_env \<Rightarrow> message \<Rightarrow> 'w agent_state \<Rightarrow> (go_error, unit) outcome \<times> message \<times> 'w agent_state" where
  "with_update E m st = (case update_message E m st of (r, st') \<Rightarrow> (r, m, st'))"

definition complete_event ::
  "'w agent_env \<Rightarrow> string \<Rightarrow> message \<Rightarrow> provider_response \<Rightarrow> 'w agent_state \<Rightarrow>
   (go_error, unit) outcome \<times> message \<times> 'w agent_state" where
  "complete_event E sessionID m resp st =
     (let m' = AddFinish (rp_FinishReason resp) (ag_Now E (as_Tick st)) (SetToolCalls (rp_ToolCalls resp) m) in
      case update_message E m' st of
        (Err e, st1) \<Rightarrow> (Err (wrap_error ''failed to update message: '' e), m', st1)
      | (Panic e, st1) \<Rightarrow> (Panic e, m', st1)
      | (Ok _, st1) \<Rightarrow>
          (case TrackUsage E sessionID (ag_Model E) (rp_Usage resp) st1 of (r, st2) \<Rightarrow> (r, m', st2)))"

definition processEvent ::
  "'w agent_env \<Rightarrow> string \<Rightarrow> message \<Rightarrow> provider_event \<Rightarrow> 'w agent_state \<Rightarrow>
   (go_error, unit) outcome \<times> message \<times> 'w agent_state" where
  "processEvent E sessionID m event st0 =
     (let st = tick st0 in
      case ag_Done E (as_Tick st0) of
        Some e \<Rightarrow> (Err e, m, st)
      | None \<Rightarrow>
          if ev_Type event = ''thinking_delta''
          then with_update E (AppendReasoningContent (ev_Content event) m) st
          else if ev_Type event = ''content_delta''
          then with_update E (AppendContent (ev_Content event) m) st
          else if ev_Type event = ''tool_use_start''
          then (case ev_ToolCall event of
                  None \<Rightarrow> (Panic nil_pointer, m, st)
                | Some c \<Rightarrow> with_update E (AddToolCall c m) st)
          else if ev_Type event = ''tool_use_stop''
          then (case ev_ToolCall event of
                  None \<Rightarrow> (Panic nil_pointer, m, st)
                | Some c \<Rightarrow> with_update E (FinishToolCall (call_ID c) m) st)
          else if ev_Type event = ''error''
          then (case ev_Error event of
                  None \<Rightarrow> (Panic nil_pointer, m, st)
                | Some e \<Rightarrow> if ge_Canceled e
                    then (Err \<lparr>ge_Text = ''context canceled'', ge_Canceled = True, ge_Denied = False\<rparr>, m, st)
                    else (Err e, m, st))
          else if ev_Type event = ''complete''
          then (case ev_Response event of
                  None \<Rightarrow> (Panic nil_pointer, m, st)
                | Some resp \<Rightarrow> complete_event E sessionID m resp st)
          else (Ok (), m, st))"

fun stream_events ::
  "'w agent_env \<Rightarrow> string \<Rightarrow> provider_event list \<Rightarrow> message \<Rightarrow> 'w agent_state \<Rightarrow>
   (go_error, unit) outcome \<times> message \<times> 'w agent_state" where
  "stream_events E sessionID [] m st = (Ok (), m, st)"
| "stream_events E sessionID (ev # evs) m st =
     (case processEvent E sessionID m ev st of
        (Panic e, m1, st1) \<Rightarrow> (Panic e, m1, st1)
      | (Err e, m1, st1) \<Rightarrow>
          (case finishMessage E ''canceled'' m1 st1 of (m2, st2) \<Rightarrow> (Err e, m2, st2))
      | (Ok _, m1, st1) \<Rightarrow>
          (case ag_Done E (as_Tick st1) of
             Some e \<Rightarrow> (case finishMessage E ''canceled'' m1 (tick st1) of (m2, st2) \<Rightarrow> (Err e, m2, st2))
           | None \<Rightarrow> stream_events E sessionID evs m1 (tick st1)))"

section \<open>Tools\<close>

definition find_tool ::
  "'w agent_env \<Rightarrow> string \<Rightarrow> (nat \<Rightarrow> tool_call \<Rightarrow> 'w \<Rightarrow> ((tool_response \<times> go_error option) run) \<times> 'w) option" where
  "find_tool E name = map_option snd (find (\<lambda>t. fst t = name) (ag_Tools E))"

definition result_of :: "tool_call \<Rightarrow> string \<Rightarrow> string \<Rightarrow> bool \<Rightarrow> tool_result" where
  "result_of c content metadata isError =
     \<lparr>res_ToolCallID = call_ID c, res_Name = [], res_Content = content, res_Metadata = metadata,
      res_IsError = isError\<rparr>"

definition canceled_result :: "tool_call \<Rightarrow> tool_result" where
  "canceled_result c = result_of c ''Tool execution canceled by user'' [] True"

definition empty_result :: tool_result where
  "empty_result = \<lparr>res_ToolCallID = [], res_Name = [], res_Content = [], res_Metadata = [], res_IsError = False\<rparr>"

definition cancel_from :: "tool_call list \<Rightarrow> nat \<Rightarrow> tool_result list \<Rightarrow> tool_result list" where
  "cancel_from calls i rs = take i rs @ map canceled_result (drop i calls)"

text \<open>
  The loop over the calls, at \<open>i\<close>. After a denied permission the \<open>break\<close> leaves the \<open>select\<close> and
  not the loop: the next calls follow, and their results replace those that were set.
\<close>

fun run_calls ::
  "'w agent_env \<Rightarrow> tool_call list \<Rightarrow> nat \<Rightarrow> tool_call list \<Rightarrow> tool_result list \<Rightarrow> message \<Rightarrow>
   'w agent_state \<Rightarrow> (tool_result list \<times> message) run \<times> 'w agent_state" where
  "run_calls E calls i [] rs m st = (Returned (rs, m), st)"
| "run_calls E calls i (c # cs) rs m st =
     (case ag_Done E (as_Tick st) of
        Some e \<Rightarrow> (case finishMessage E ''canceled'' m (tick st) of
            (m', st') \<Rightarrow> (Returned (cancel_from calls i rs, m'), st'))
      | None \<Rightarrow>
          (case find_tool E (call_Name c) of
             None \<Rightarrow> run_calls E calls (i + 1) cs
               (rs[i := result_of c (''Tool not found: '' @ call_Name c) [] True]) m (tick st)
           | Some tool \<Rightarrow>
               (case tool (as_Tick st) c (as_World st) of
                  (Panicked e, w) \<Rightarrow>
                    (Panicked e, tick (st\<lparr>as_World := w, as_Ran := as_Ran st @ [c]\<rparr>))
                | (Returned (resp, err), w) \<Rightarrow>
                    let st1 = tick (st\<lparr>as_World := w, as_Ran := as_Ran st @ [c]\<rparr>) in
                    if (case err of None \<Rightarrow> False | Some e \<Rightarrow> ge_Denied e)
                    then (let rs1 = cancel_from calls (i + 1) (rs[i := result_of c ''Permission denied'' [] True]) in
                          case finishMessage E ''permission_denied'' m st1 of
                            (m', st2) \<Rightarrow> run_calls E calls (i + 1) cs rs1 m' st2)
                    else run_calls E calls (i + 1) cs
                      (rs[i := result_of c (tr_Content resp) (tr_Metadata resp) (tr_IsError resp)]) m st1)))"

definition streamAndHandleEvents ::
  "'w agent_env \<Rightarrow> string \<Rightarrow> message list \<Rightarrow> 'w agent_state \<Rightarrow>
   (message \<times> message option \<times> go_error option) run \<times> 'w agent_state" where
  "streamAndHandleEvents E sessionID msgHistory st0 =
     (let events = ag_Stream E (as_Tick st0) msgHistory;
          none = \<lparr>ms_ID = [], ms_Role = [], ms_SessionID = [], ms_Parts = [], ms_Model = [],
                  ms_CreatedAt = 0, ms_UpdatedAt = 0\<rparr> in
      case create_message E sessionID ''assistant'' [] (mi_ID (ag_Model E)) (tick st0) of
        (Panic e, st) \<Rightarrow> (Panicked e, st)
      | (Err e, st) \<Rightarrow>
          (Returned (none, None, Some (wrap_error ''failed to create assistant message: '' e)), st)
      | (Ok m, st) \<Rightarrow>
          (case stream_events E sessionID events m st of
             (Panic e, m1, st1) \<Rightarrow> (Panicked e, st1)
           | (Err e, m1, st1) \<Rightarrow> (Returned (m1, None, Some e), st1)
           | (Ok _, m1, st1) \<Rightarrow>
               let calls = ToolCalls m1 in
               (case run_calls E calls 0 calls (replicate (length calls) empty_result) m1 st1 of
                  (Panicked e, st2) \<Rightarrow> (Panicked e, st2)
                | (Returned (rs, m2), st2) \<Rightarrow>
                    if rs = [] then (Returned (m2, None, None), st2)
                    else
                      (case create_message E (ms_SessionID m2) ''tool'' (map ToolResult rs) [] st2 of
                         (Panic e, st3) \<Rightarrow> (Panicked e, st3)
                       | (Err e, st3) \<Rightarrow>
                           (Returned (m2, None, Some (wrap_error ''failed to create cancelled tool message: '' e)), st3)
                       | (Ok tm, st3) \<Rightarrow> (Returned (m2, Some tm, None), st3)))))"

section \<open>The generation\<close>

datatype agent_event =
    AgentError go_error
  | AgentResponse message
  | AgentPanic string

definition trim_prefix :: "string \<Rightarrow> string \<Rightarrow> string" where
  "trim_prefix p s = (if has_prefix s p then drop (length p) s else s)"

definition humanizeProviderError :: "go_error \<Rightarrow> string" where
  "humanizeProviderError e =
     (let text = trim_prefix ''codex exec: '' (trim_prefix ''failed to process events: '' (trim_space (ge_Text e)))
      in if text = [] then [] else ''Request failed: '' @ text)"

definition request_cancelled :: go_error where
  "request_cancelled = plain_error ''request cancelled by user''"

text \<open>The rounds, with the number of rounds that are left; None is a generation that goes on.\<close>

fun generate ::
  "'w agent_env \<Rightarrow> string \<Rightarrow> nat \<Rightarrow> message list \<Rightarrow> 'w agent_state \<Rightarrow>
   agent_event option \<times> message list \<times> 'w agent_state" where
  "generate E sessionID 0 msgHistory st = (None, msgHistory, st)"
| "generate E sessionID (Suc fuel) msgHistory st =
     (case ag_Done E (as_Tick st) of
        Some e \<Rightarrow> (Some (AgentError e), msgHistory, tick st)
      | None \<Rightarrow>
          (case streamAndHandleEvents E sessionID msgHistory (tick st) of
             (Panicked e, st1) \<Rightarrow> (Some (AgentPanic e), msgHistory, st1)
           | (Returned (m, results, Some e), st1) \<Rightarrow>
               if ge_Canceled e
               then (Some (AgentError request_cancelled), msgHistory,
                     snd (update_message E (AddFinish ''canceled'' (ag_Now E (as_Tick st1)) m) st1))
               else
                 (let text = humanizeProviderError e;
                      m1 = (if text \<noteq> [] then AppendContent text m else m)
                  in (Some (AgentError (wrap_error ''failed to process events: '' e)), msgHistory,
                      snd (finishMessage E ''error'' m1 st1)))
           | (Returned (m, results, None), st1) \<Rightarrow>
               (case (if FinishReason m = ''tool_use'' then results else None) of
                  Some tm \<Rightarrow> generate E sessionID fuel (msgHistory @ [m, tm]) st1
                | None \<Rightarrow> (Some (AgentResponse m), msgHistory, st1))))"

fun index_of_message :: "string \<Rightarrow> message list \<Rightarrow> nat option" where
  "index_of_message i [] = None"
| "index_of_message i (m # ms) =
     (if ms_ID m = i then Some 0 else map_option Suc (index_of_message i ms))"

text \<open>A summarised session goes on from the summary, as if the user had said it.\<close>

definition from_summary :: "session \<Rightarrow> message list \<Rightarrow> message list" where
  "from_summary s msgs =
     (if ss_SummaryMessageID s = [] then msgs
      else (case index_of_message (ss_SummaryMessageID s) msgs of
        None \<Rightarrow> msgs
      | Some i \<Rightarrow> (case drop i msgs of
            [] \<Rightarrow> [] | m # ms \<Rightarrow> m\<lparr>ms_Role := ''user''\<rparr> # ms)))"

fun set_first_text :: "string \<Rightarrow> content_part list \<Rightarrow> content_part list" where
  "set_first_text s [] = []"
| "set_first_text s (p # ps) = (if as_text p \<noteq> None then TextContent s # ps else p # set_first_text s ps)"

definition processGeneration ::
  "'w agent_env \<Rightarrow> string option \<Rightarrow> string \<Rightarrow> string \<Rightarrow> content_part list \<Rightarrow> nat \<Rightarrow> 'w agent_state \<Rightarrow>
   agent_event option \<times> 'w agent_state" where
  "processGeneration E display sessionID content attachmentParts fuel st0 =
     (let f = ag_Fault E (as_Tick st0) in
      case ListMessages (ag_Arrange E) (map_option ge_Text f) sessionID (as_Messages st0) of
        Panic e \<Rightarrow> (Some (AgentPanic e), tick st0)
      | Err e \<Rightarrow> (Some (AgentError (wrap_error ''failed to list messages: '' (db_error f e))), tick st0)
      | Ok msgs \<Rightarrow>
          let st1 = tick (if msgs = [] then st0\<lparr>as_Titles := as_Titles st0 @ [(sessionID, content)]\<rparr> else st0) in
          (case get_session E sessionID st1 of
             (Panic e, st2) \<Rightarrow> (Some (AgentPanic e), st2)
           | (Err e, st2) \<Rightarrow> (Some (AgentError (wrap_error ''failed to get session: '' e)), st2)
           | (Ok s, st2) \<Rightarrow>
               let shown = (case display of None \<Rightarrow> content
                     | Some v \<Rightarrow> if trim_space v \<noteq> [] then v else content) in
               (case create_message E sessionID ''user'' (TextContent shown # attachmentParts) [] st2 of
                  (Panic e, st3) \<Rightarrow> (Some (AgentPanic e), st3)
                | (Err e, st3) \<Rightarrow> (Some (AgentError (wrap_error ''failed to create user message: '' e)), st3)
                | (Ok um, st3) \<Rightarrow>
                    (case generate E sessionID fuel
                       (from_summary s msgs @ [um\<lparr>ms_Parts := set_first_text content (ms_Parts um)\<rparr>]) st3 of
                       (r, _, st4) \<Rightarrow> (r, st4)))))"

text \<open>
  \<open>Run\<close> from the point where the request is entered: attachments, with path, type and content,
  are dropped for a model without them.
\<close>

definition RunRequest ::
  "'w agent_env \<Rightarrow> string option \<Rightarrow> string \<Rightarrow> string \<Rightarrow> (string \<times> string \<times> string) list \<Rightarrow> nat \<Rightarrow>
   'w agent_state \<Rightarrow> agent_event option \<times> 'w agent_state" where
  "RunRequest E display sessionID content attachments fuel st =
     processGeneration E display sessionID content
       (if mi_SupportsAttachments (ag_Model E)
        then map (\<lambda>(path, mimeType, bytes). BinaryContent path mimeType bytes) attachments else []) fuel st"

end
