(* ===== verification/Agent_Properties.thy ===== *)
theory Agent_Properties
  imports Agent_Loop
begin

text \<open>What goes back to the language model: one result per call, whatever the tools answer.\<close>

section \<open>Results\<close>

lemma AddFinish_calls [simp]: "ToolCalls (AddFinish reason t m) = ToolCalls m"
  by (simp add: ToolCalls_def AddFinish_def drop_finish_others)

lemma finishMessage_calls: "finishMessage E reason m st = (m', st') \<Longrightarrow> ToolCalls m' = ToolCalls m"
  by (auto simp: finishMessage_def Let_def)

lemma canceled_IDs [simp]: "map res_ToolCallID (map canceled_result cs) = map call_ID cs"
  by (simp add: canceled_result_def result_of_def)

lemma result_of_ID [simp]: "res_ToolCallID (result_of c content metadata b) = call_ID c"
  by (simp add: result_of_def)

lemma cancel_from_IDs:
  assumes "length rs = length calls" and "map res_ToolCallID (take i rs) = map call_ID (take i calls)"
  shows "length (cancel_from calls i rs) = length calls \<and>
    map res_ToolCallID (cancel_from calls i rs) = map call_ID calls"
proof -
  have "map res_ToolCallID (cancel_from calls i rs) = map call_ID (take i calls) @ map call_ID (drop i calls)"
    using assms(2) by (simp only: cancel_from_def map_append canceled_IDs)
  also have "\<dots> = map call_ID calls" by (simp flip: map_append)
  finally show ?thesis by (metis length_map)
qed

text \<open>The state of the loop at \<open>i\<close>: the results before \<open>i\<close> answer the calls before \<open>i\<close>.\<close>

definition answered_to :: "tool_call list \<Rightarrow> nat \<Rightarrow> tool_call list \<Rightarrow> tool_result list \<Rightarrow> bool" where
  "answered_to calls i cs rs \<longleftrightarrow> cs = drop i calls \<and> length rs = length calls \<and>
     map res_ToolCallID (take i rs) = map call_ID (take i calls)"

lemma answered_next:
  assumes "answered_to calls i (c # cs) rs" and "res_ToolCallID r = call_ID c"
  shows "answered_to calls (i + 1) cs (rs[i := r])"
proof -
  have c: "c # cs = drop i calls" and len: "length rs = length calls"
    using assms(1) by (auto simp: answered_to_def)
  then have i: "i < length calls" by (metis drop_eq_Nil linorder_not_le list.distinct(1))
  have "calls ! i = c" and "drop (i + 1) calls = cs"
    using c i by (metis Cons_nth_drop_Suc list.inject Suc_eq_plus1)+
  then show ?thesis
    using assms i len by (simp add: answered_to_def take_Suc_conv_app_nth)
qed

lemma answered_cancel:
  assumes "answered_to calls i cs rs"
  shows "answered_to calls i cs (cancel_from calls i rs)"
  using assms by (auto simp: answered_to_def cancel_from_def min_def)

lemma run_calls_answers:
  assumes "run_calls E calls i cs rs m st = (Returned (rs', m'), st')" and "answered_to calls i cs rs"
  shows "map res_ToolCallID rs' = map call_ID calls \<and> ToolCalls m' = ToolCalls m"
  using assms
proof (induction cs arbitrary: i rs m st)
  case Nil
  then show ?case by (auto simp: answered_to_def)
next
  case (Cons c cs)
  show ?case
  proof (cases "ag_Done E (as_Tick st)")
    case (Some e)
    then show ?thesis
      using Cons.prems by (auto simp: answered_to_def cancel_from_IDs finishMessage_calls split: prod.splits)
  next
    case running: None
    show ?thesis
    proof (cases "find_tool E (call_Name c)")
      case None
      then show ?thesis using Cons running answered_next by auto
    next
      case (Some tool)
      then obtain resp err w where tool: "tool (as_Tick st) c (as_World st) = (Returned (resp, err), w)"
        using Cons.prems(1) running by (auto split: prod.splits run.splits)
      define st1 where "st1 = tick (st\<lparr>as_World := w, as_Ran := as_Ran st @ [c]\<rparr>)"
      show ?thesis
      proof (cases "case err of None \<Rightarrow> False | Some e \<Rightarrow> ge_Denied e")
        case True
        let ?rs = "cancel_from calls (i + 1) (rs[i := result_of c ''Permission denied'' [] True])"
        obtain m1 st2 where f: "finishMessage E ''permission_denied'' m st1 = (m1, st2)" by fastforce
        have "answered_to calls (i + 1) cs ?rs"
          using Cons.prems(2) answered_next answered_cancel by auto
        moreover have "run_calls E calls (i + 1) cs ?rs m1 st2 = (Returned (rs', m'), st')"
          using Cons.prems(1) running Some tool True f by (simp add: Let_def flip: st1_def)
        ultimately show ?thesis using Cons.IH finishMessage_calls [OF f] by metis
      next
        case False
        then have "run_calls E calls (i + 1) cs
            (rs[i := result_of c (tr_Content resp) (tr_Metadata resp) (tr_IsError resp)]) m st1
          = (Returned (rs', m'), st')"
          using Cons.prems(1) running Some tool by (simp add: Let_def flip: st1_def)
        then show ?thesis using Cons.IH answered_next [OF Cons.prems(2)] by simp
      qed
    qed
  qed
qed

section \<open>The rounds\<close>

lemma CreateMessage_parts:
  assumes "CreateMessage fault uid now sid role parts model sv = (Ok m, sv')"
  shows "ms_Parts m = readable_parts (created_parts role parts)"
  using assms by (auto simp: CreateMessage_def q_CreateMessage_def fromDBItem_def parts_round_trip Let_def
      split: option.splits if_splits)

lemma create_message_parts:
  "create_message E sid role parts model st = (Ok m, st') \<Longrightarrow>
   ms_Parts m = readable_parts (created_parts role parts)"
  using CreateMessage_parts by (fastforce simp: create_message_def Let_def split: prod.splits outcome.splits)

lemma results_read_back: "all_as as_result (readable_parts (created_parts ''tool'' (map ToolResult rs))) = rs"
  by (induction rs) (simp_all add: readable_parts_def created_parts_def)

definition answers :: "message \<Rightarrow> message \<Rightarrow> bool" where
  "answers m tm \<longleftrightarrow> map res_ToolCallID (ToolResults tm) = map call_ID (ToolCalls m)"

lemma stream_answers:
  assumes "streamAndHandleEvents E sid msgs st = (Returned (m, Some tm, None), st')"
  shows "answers m tm"
proof -
  obtain m0 st0 where "create_message E sid ''assistant'' [] (mi_ID (ag_Model E)) (tick st) = (Ok m0, st0)"
    using assms by (auto simp: streamAndHandleEvents_def Let_def split: prod.splits outcome.splits)
  moreover obtain m1 st1 where
      "stream_events E sid (ag_Stream E (as_Tick st) msgs) m0 st0 = (Ok (), m1, st1)"
    using assms calculation by (auto simp: streamAndHandleEvents_def Let_def split: prod.splits outcome.splits)
  moreover define calls where "calls = ToolCalls m1"
  ultimately obtain rs st2 st3 where
      run: "run_calls E calls 0 calls (replicate (length calls) empty_result) m1 st1 = (Returned (rs, m), st2)"
    and tm: "create_message E (ms_SessionID m) ''tool'' (map ToolResult rs) [] st2 = (Ok tm, st3)"
    using assms by (auto simp: streamAndHandleEvents_def Let_def split: prod.splits outcome.splits
        run.splits if_splits)
  have "answered_to calls 0 calls (replicate (length calls) empty_result)"
    by (simp add: answered_to_def)
  then have "map res_ToolCallID rs = map call_ID calls" and "ToolCalls m = calls"
    using run_calls_answers [OF run] by (simp_all add: calls_def)
  then show ?thesis
    using create_message_parts [OF tm] by (simp add: answers_def ToolResults_def results_read_back)
qed

text \<open>
  Property C4. What a generation adds to the conversation it was given are rounds of two: a
  message of the model that ended for its tool calls, and a message with exactly one result for
  each of these calls, in their order, however the tools answer, fail or are canceled. Whatever
  is sent to the model next is such a conversation.
\<close>

theorem every_call_is_answered:
  assumes "generate E sessionID fuel msgs st = (r, msgs', st')"
  shows "\<exists>rounds. msgs' = msgs @ concat (map (\<lambda>(m, tm). [m, tm]) rounds) \<and>
    list_all (\<lambda>(m, tm). FinishReason m = ''tool_use'' \<and>
      map res_ToolCallID (ToolResults tm) = map call_ID (ToolCalls m)) rounds"
  using assms
proof (induction fuel arbitrary: msgs st)
  case (Suc fuel)
  have stop: "?case" if "msgs' = msgs" using that by (intro exI [of _ "[]"]) simp
  show ?case
  proof (cases "ag_Done E (as_Tick st)")
    case (Some e)
    then show ?thesis using Suc.prems stop by simp
  next
    case None
    show ?thesis
    proof (cases "\<exists>m tm st1. streamAndHandleEvents E sessionID msgs (tick st) = (Returned (m, Some tm, None), st1)
        \<and> FinishReason m = ''tool_use''")
      case True
      then obtain m tm st1 where round: "streamAndHandleEvents E sessionID msgs (tick st) = (Returned (m, Some tm, None), st1)"
        and reason: "FinishReason m = ''tool_use''" by blast
      then have "generate E sessionID fuel (msgs @ [m, tm]) st1 = (r, msgs', st')"
        using Suc.prems None by simp
      then obtain rounds where "msgs' = (msgs @ [m, tm]) @ concat (map (\<lambda>(m, tm). [m, tm]) rounds)"
          "list_all (\<lambda>(m, tm). FinishReason m = ''tool_use'' \<and>
             map res_ToolCallID (ToolResults tm) = map call_ID (ToolCalls m)) rounds"
        using Suc.IH by blast
      then show ?thesis
        using stream_answers [OF round] reason by (intro exI [of _ "(m, tm) # rounds"]) (simp add: answers_def)
    next
      case False
      then have "msgs' = msgs"
        using Suc.prems None by (auto simp: Let_def split: prod.splits run.splits option.splits if_splits)
      then show ?thesis by (rule stop)
    qed
  qed
qed (intro exI [of _ "[]"], simp)

section \<open>What is run\<close>

lemma update_message_ran [simp]: "as_Ran (snd (update_message E m st)) = as_Ran st"
  by (simp add: update_message_def Let_def tick_def split: prod.split outcome.split)

lemma finishMessage_ran: "finishMessage E reason m st = (m', st') \<Longrightarrow> as_Ran st' = as_Ran st"
  by (auto simp: finishMessage_def Let_def)

definition known_call :: "'w agent_env \<Rightarrow> tool_call \<Rightarrow> bool" where
  "known_call E c \<longleftrightarrow> find_tool E (call_Name c) \<noteq> None"

lemma run_calls_ran:
  assumes "\<And>k. ag_Done E k = None"
    and "\<And>name tool k c w. find_tool E name = Some tool \<Longrightarrow> \<exists>resp err. fst (tool k c w) = Returned (resp, err)"
  shows "as_Ran (snd (run_calls E calls i cs rs m st)) = as_Ran st @ filter (known_call E) cs"
proof (induction cs arbitrary: i rs m st)
  case (Cons c cs)
  show ?case
  proof (cases "find_tool E (call_Name c)")
    case None
    then show ?thesis using assms(1) Cons.IH by (simp add: known_call_def tick_def)
  next
    case (Some tool)
    obtain resp err w where tool: "tool (as_Tick st) c (as_World st) = (Returned (resp, err), w)"
      using assms(2) [OF Some, of "as_Tick st" c "as_World st"] by (metis prod.collapse)
    then show ?thesis
      using assms(1) Cons.IH Some
      by (auto simp: known_call_def tick_def Let_def dest!: finishMessage_ran split: prod.split)
  qed
qed simp

text \<open>
  As long as the context is not done and no tool panics, every call of a message
  whose tool exists is run, in order: a denied permission does not stop the calls after it,
  although their results say canceled until they are replaced.
\<close>

theorem denial_does_not_stop_the_calls:
  assumes "\<And>k. ag_Done E k = None"
    and "\<And>name tool k c w. find_tool E name = Some tool \<Longrightarrow> \<exists>resp err. fst (tool k c w) = Returned (resp, err)"
  shows "as_Ran (snd (run_calls E calls 0 calls rs m st)) = as_Ran st @ filter (known_call E) calls"
  by (rule run_calls_ran) (fact assms)+

text \<open>The witness: a model that asks for two calls, of which the first is denied.\<close>

definition demo_call :: "string \<Rightarrow> string \<Rightarrow> tool_call" where
  "demo_call i name = \<lparr>call_ID = i, call_Name = name, call_Input = [], call_Type = [], call_Finished = True\<rparr>"

definition demo_complete :: "string \<Rightarrow> tool_call list \<Rightarrow> provider_event" where
  "demo_complete reason calls =
     \<lparr>ev_Type = ''complete'', ev_Content = [], ev_Response = Some \<lparr>rp_Content = [], rp_ToolCalls = calls,
        rp_Usage = \<lparr>us_InputTokens = 0, us_OutputTokens = 0, us_CacheCreationTokens = 0, us_CacheReadTokens = 0\<rparr>,
        rp_FinishReason = reason\<rparr>, ev_ToolCall = None, ev_Error = None\<rparr>"

definition demo_calls :: "tool_call list" where
  "demo_calls = [demo_call ''1'' ''deny'', demo_call ''2'' ''add'']"

definition demo_tool :: "bool \<Rightarrow> nat \<Rightarrow> tool_call \<Rightarrow> nat \<Rightarrow> ((tool_response \<times> go_error option) run) \<times> nat" where
  "demo_tool denied k c w =
     (Returned (\<lparr>tr_Content = [], tr_Metadata = [], tr_IsError = False\<rparr>,
        if denied then Some \<lparr>ge_Text = ''permission denied'', ge_Canceled = False, ge_Denied = True\<rparr> else None),
      if denied then w else w + 1)"

definition demo_agent :: "nat agent_env" where
  "demo_agent = \<lparr>ag_Uid = show_nat, ag_DbNow = (\<lambda>k. 0), ag_Now = (\<lambda>k. 0), ag_Fault = (\<lambda>k. None),
     ag_Done = (\<lambda>k. None),
     ag_Stream = (\<lambda>k ms. if length ms = 1 then [demo_complete ''tool_use'' demo_calls]
                          else [demo_complete ''end_turn'' []]),
     ag_Tools = [(''add'', demo_tool False), (''deny'', demo_tool True)],
     ag_Model = \<lparr>mi_ID = ''m'', mi_SupportsAttachments = False, mi_CostPer1MIn = 0, mi_CostPer1MOut = 0,
       mi_CostPer1MInCached = 0, mi_CostPer1MOutCached = 0\<rparr>,
     ag_Round = (\<lambda>x. x), ag_Arrange = (\<lambda>rows. rows)\<rparr>"

definition demo_message :: message where
  "demo_message = \<lparr>ms_ID = ''u'', ms_Role = ''user'', ms_SessionID = ''s'', ms_Parts = [TextContent ''go''],
     ms_Model = [], ms_CreatedAt = 0, ms_UpdatedAt = 0\<rparr>"

definition demo_state :: "nat agent_state" where
  "demo_state = \<lparr>as_Tick = 0, as_Messages = \<lparr>sv_rows = [], sv_events = []\<rparr>,
     as_Sessions = \<lparr>sn_rows = [\<lparr>sr_ID = ''s'', sr_ParentSessionID = None, sr_Title = [], sr_MessageCount = 0,
       sr_PromptTokens = 0, sr_CompletionTokens = 0, sr_Cost = 0, sr_UpdatedAt = 0, sr_CreatedAt = 0,
       sr_SummaryMessageID = None\<rparr>], sn_events = []\<rparr>, as_World = 0, as_Ran = [], as_Titles = []\<rparr>"

lemma demo_tools_return:
  "find_tool demo_agent name = Some tool \<Longrightarrow> \<exists>resp err. fst (tool k c w) = Returned (resp, err)"
  by (auto simp: find_tool_def demo_agent_def demo_tool_def split: if_splits)

theorem denial_does_not_stop_the_calls_witness:
  "as_Ran (snd (run_calls demo_agent demo_calls 0 demo_calls [] demo_message demo_state)) = demo_calls"
proof -
  have "as_Ran (snd (run_calls demo_agent demo_calls 0 demo_calls [] demo_message demo_state)) =
      as_Ran demo_state @ filter (known_call demo_agent) demo_calls"
  proof (rule denial_does_not_stop_the_calls)
    show "ag_Done demo_agent k = None" for k by (simp add: demo_agent_def)
  qed (rule demo_tools_return)
  then show ?thesis
    by (simp add: demo_state_def known_call_def find_tool_def demo_agent_def demo_calls_def demo_call_def)
qed

definition busy_agent :: "nat agent_env" where
  "busy_agent = demo_agent\<lparr>ag_Stream := (\<lambda>k ms. if length ms = 1
     then [demo_complete ''tool_use'' [demo_call ''1'' ''add'', demo_call ''2'' ''none'']]
     else [demo_complete ''end_turn'' []])\<rparr>"

theorem every_call_is_answered_witness:
  "\<exists>rounds. fst (snd (generate busy_agent ''s'' 3 [demo_message] demo_state)) =
     [demo_message] @ concat (map (\<lambda>(m, tm). [m, tm]) rounds) \<and> length rounds = 1"
proof -
  obtain r msgs' st' where g: "generate busy_agent ''s'' 3 [demo_message] demo_state = (r, msgs', st')"
    by (metis prod_cases3)
  have len: "length (fst (snd (generate busy_agent ''s'' 3 [demo_message] demo_state))) = 3" by code_simp
  obtain rounds where "msgs' = [demo_message] @ concat (map (\<lambda>(m, tm). [m, tm]) rounds)"
    using every_call_is_answered [OF g] by blast
  moreover have "length (concat (map (\<lambda>(m, tm). [m, tm]) rounds)) = 2 * length rounds"
    by (induction rounds) auto
  ultimately show ?thesis using g len by (intro exI [of _ rounds]) auto
qed

end
