(* ===== verification/Agent_Requests.thy ===== *)
theory Agent_Requests
  imports Agent_Properties Prelude
begin

text \<open>
  Around the generation, \<open>internal/llm/agent/agent.go\<close>: which requests are active, their
  cancellation and their end; the title of a new session, made beside the first generation; and
  the summary of a session. A request is its number in the list of all requests; the check
  whether a session is busy and the entry of the request are two steps, as in the code.
\<close>

section \<open>Active requests\<close>

record request_job =
  jb_Key :: string
  jb_Running :: bool
  jb_Canceled :: bool

record request_state =
  rq_Active :: "(string, nat) gomap"
  rq_Jobs :: "request_job list"
  rq_Checked :: "string list"

definition no_requests :: request_state where
  "no_requests = \<lparr>rq_Active = [], rq_Jobs = [], rq_Checked = []\<rparr>"

definition IsSessionBusy :: "string \<Rightarrow> request_state \<Rightarrow> bool" where
  "IsSessionBusy sessionID st \<longleftrightarrow> map_of (rq_Active st) sessionID \<noteq> None"

definition IsBusy :: "request_state \<Rightarrow> bool" where
  "IsBusy st \<longleftrightarrow> rq_Active st \<noteq> []"

definition summarize_key :: "string \<Rightarrow> string" where
  "summarize_key sessionID = sessionID @ ''-summarize''"

text \<open>
  The steps: \<open>Run\<close> and \<open>Summarize\<close> check the session and then enter their key, \<open>Cancel\<close> takes
  a key out and cancels its context, and a goroutine ends or panics. A check that finds the
  session busy is an error and no step.
\<close>

datatype request_event =
    CheckIdle string string
  | StoreRequest string
  | CancelKey string
  | EndRequest nat
  | PanicRequest nat

definition check_run :: "string \<Rightarrow> request_event" where
  "check_run sessionID = CheckIdle sessionID sessionID"

definition check_summarize :: "string \<Rightarrow> request_event" where
  "check_summarize sessionID = CheckIdle sessionID (summarize_key sessionID)"

definition change_job :: "nat \<Rightarrow> (request_job \<Rightarrow> request_job) \<Rightarrow> request_state \<Rightarrow> request_state" where
  "change_job n f st = st\<lparr>rq_Jobs := (rq_Jobs st)[n := f (rq_Jobs st ! n)]\<rparr>"

definition running_job :: "request_state \<Rightarrow> nat \<Rightarrow> bool" where
  "running_job st n \<longleftrightarrow> n < length (rq_Jobs st) \<and> jb_Running (rq_Jobs st ! n)"

definition drop_key :: "string \<Rightarrow> (string, nat) gomap \<Rightarrow> (string, nat) gomap" where
  "drop_key k m = filter (\<lambda>e. fst e \<noteq> k) m"

fun request_step :: "request_event \<Rightarrow> request_state \<Rightarrow> request_state option" where
  "request_step (CheckIdle sessionID key) st =
     (if IsSessionBusy sessionID st then None else Some (st\<lparr>rq_Checked := rq_Checked st @ [key]\<rparr>))"
| "request_step (StoreRequest key) st =
     (if key \<in> set (rq_Checked st)
      then Some (st\<lparr>rq_Checked := remove1 key (rq_Checked st),
                    rq_Active := map_put key (length (rq_Jobs st)) (rq_Active st),
                    rq_Jobs := rq_Jobs st @ [\<lparr>jb_Key = key, jb_Running = True, jb_Canceled = False\<rparr>]\<rparr>)
      else None)"
| "request_step (CancelKey key) st =
     (case map_of (rq_Active st) key of
        None \<Rightarrow> Some st
      | Some n \<Rightarrow> Some (change_job n (\<lambda>j. j\<lparr>jb_Canceled := True\<rparr>)
          (st\<lparr>rq_Active := drop_key key (rq_Active st)\<rparr>)))"
| "request_step (EndRequest n) st =
     (if running_job st n
      then Some (change_job n (\<lambda>j. j\<lparr>jb_Running := False, jb_Canceled := True\<rparr>)
        (st\<lparr>rq_Active := drop_key (jb_Key (rq_Jobs st ! n)) (rq_Active st)\<rparr>))
      else None)"
| "request_step (PanicRequest n) st =
     (if running_job st n then Some (change_job n (\<lambda>j. j\<lparr>jb_Running := False\<rparr>) st) else None)"

fun request_steps :: "request_event list \<Rightarrow> request_state \<Rightarrow> request_state option" where
  "request_steps [] st = Some st"
| "request_steps (e # es) st = (case request_step e st of None \<Rightarrow> None | Some st' \<Rightarrow> request_steps es st')"

section \<open>The title\<close>

definition clean_title :: "string \<Rightarrow> string" where
  "clean_title content = trim_space (map (\<lambda>c. if c = CHR 0x0A then CHR '' '' else c) content)"

text \<open>
  The session is read before the model is asked and saved with the title afterwards. The first
  function is the part up to the request, the second one the part after its answer.
\<close>

definition title_begin ::
  "'w agent_env \<Rightarrow> bool \<Rightarrow> string \<Rightarrow> string \<Rightarrow> 'w agent_state \<Rightarrow>
   (go_error, session option) outcome \<times> 'w agent_state" where
  "title_begin E hasProvider sessionID content st =
     (if content = [] \<or> \<not> hasProvider then (Ok None, st)
      else (case get_session E sessionID st of
        (Ok s, st') \<Rightarrow> (Ok (Some s), st') | (Err e, st') \<Rightarrow> (Err e, st') | (Panic e, st') \<Rightarrow> (Panic e, st')))"

definition title_end ::
  "'w agent_env \<Rightarrow> session \<Rightarrow> (go_error, provider_response) outcome \<Rightarrow> 'w agent_state \<Rightarrow>
   (go_error, unit) outcome \<times> 'w agent_state" where
  "title_end E s answer st =
     (case answer of
        Err e \<Rightarrow> (Err e, st)
      | Panic e \<Rightarrow> (Panic e, st)
      | Ok response \<Rightarrow>
          let title = clean_title (rp_Content response) in
          if title = [] then (Ok (), st)
          else (case save_session E (s\<lparr>ss_Title := title\<rparr>) st of
             (Ok _, st') \<Rightarrow> (Ok (), st') | (Err e, st') \<Rightarrow> (Err e, st') | (Panic e, st') \<Rightarrow> (Panic e, st')))"

section \<open>The summary\<close>

definition summarizePrompt :: string where
  "summarizePrompt = ''Provide a detailed but concise summary of our conversation above. Focus on information that would be helpful for continuing the conversation, including what we did, what we'' @ [CHR 0x27] @ ''re doing, which files we'' @ [CHR 0x27] @ ''re working on, and what we'' @ [CHR 0x27] @ ''re going to do next.''"

datatype summary_event =
    SummaryProgress string
  | SummaryError go_error
  | SummaryDone string

definition summarized_session :: "(real \<Rightarrow> real) \<Rightarrow> model_info \<Rightarrow> string \<Rightarrow> token_usage \<Rightarrow> session \<Rightarrow> session" where
  "summarized_session rnd model messageID usage s =
     s\<lparr>ss_SummaryMessageID := messageID, ss_CompletionTokens := us_OutputTokens usage, ss_PromptTokens := 0,
       ss_Cost := rnd (ss_Cost s + usage_cost rnd model usage)\<rparr>"

text \<open>
  The goroutine of \<open>Summarize\<close>: the events it publishes and the state it leaves. After a
  session that cannot be saved, success is announced all the same. \<open>ask\<close> is the model.
\<close>

definition summarize ::
  "'w agent_env \<Rightarrow> (nat \<Rightarrow> message list \<Rightarrow> (go_error, provider_response) outcome) \<Rightarrow> model_info \<Rightarrow> string \<Rightarrow>
   'w agent_state \<Rightarrow> summary_event list \<times> string option \<times> 'w agent_state" where
  "summarize E ask model sessionID st0 =
     (let start = SummaryProgress ''Starting summarization...'';
          analyze = SummaryProgress ''Analyzing conversation...'';
          generate = SummaryProgress ''Generating summary...'';
          creating = SummaryProgress ''Creating new session...'';
          f = ag_Fault E (as_Tick st0) in
      case ListMessages (ag_Arrange E) (map_option ge_Text f) sessionID (as_Messages st0) of
        Panic e \<Rightarrow> ([start], Some e, st0)
      | Err e \<Rightarrow> ([start, SummaryError (wrap_error ''failed to list messages: '' (db_error f e))], None, tick st0)
      | Ok msgs \<Rightarrow>
          if msgs = [] then ([start, SummaryError (plain_error ''no messages to summarize'')], None, tick st0)
          else
            (let prompt = \<lparr>ms_ID = [], ms_Role = ''user'', ms_SessionID = [],
                   ms_Parts = [TextContent summarizePrompt], ms_Model = [], ms_CreatedAt = 0, ms_UpdatedAt = 0\<rparr>;
                 st1 = tick (tick st0) in
             case ask (as_Tick (tick st0)) (msgs @ [prompt]) of
               Panic e \<Rightarrow> ([start, analyze, generate], Some e, st1)
             | Err e \<Rightarrow> ([start, analyze, generate, SummaryError (wrap_error ''failed to summarize: '' e)], None, st1)
             | Ok response \<Rightarrow>
                 let summary = trim_space (rp_Content response) in
                 if summary = []
                 then ([start, analyze, generate, SummaryError (plain_error ''empty summary returned'')], None, st1)
                 else
                   (case get_session E sessionID st1 of
                      (Panic e, st2) \<Rightarrow> ([start, analyze, generate, creating], Some e, st2)
                    | (Err e, st2) \<Rightarrow> ([start, analyze, generate, creating,
                          SummaryError (wrap_error ''failed to get session: '' e)], None, st2)
                    | (Ok s, st2) \<Rightarrow>
                        (case create_message E (ss_ID s) ''assistant''
                           [TextContent summary, Finish \<lparr>fin_Reason = ''end_turn'', fin_Time = ag_Now E (as_Tick st2)\<rparr>]
                           (mi_ID model) st2 of
                           (Panic e, st3) \<Rightarrow> ([start, analyze, generate, creating], Some e, st3)
                         | (Err e, st3) \<Rightarrow> ([start, analyze, generate, creating,
                               SummaryError (wrap_error ''failed to create summary message: '' e)], None, st3)
                         | (Ok m, st3) \<Rightarrow>
                             (case save_session E (summarized_session (ag_Round E) model (ms_ID m)
                                     (rp_Usage response) s) st3 of
                                (Panic e, st4) \<Rightarrow> ([start, analyze, generate, creating], Some e, st4)
                              | (Err e, st4) \<Rightarrow> ([start, analyze, generate, creating,
                                    SummaryError (wrap_error ''failed to save session: '' e), SummaryDone (ss_ID s)], None, st4)
                              | (Ok _, st4) \<Rightarrow>
                                  ([start, analyze, generate, creating, SummaryDone (ss_ID s)], None, st4))))))"

section \<open>One request per session, and more\<close>

lemma map_of_drop_key: "map_of (drop_key k m) x = (if x = k then None else map_of m x)"
  by (induction m) (auto simp: drop_key_def)

lemma kept_change_job:
  assumes "\<And>j. jb_Key (f j) = jb_Key j" and "\<And>j. jb_Running (f j) \<Longrightarrow> jb_Running j"
    and "running_job (change_job n f st) m"
  shows "running_job st m \<and> jb_Key (rq_Jobs (change_job n f st) ! m) = jb_Key (rq_Jobs st ! m)"
  using assms by (cases "m = n") (auto simp: change_job_def running_job_def)

lemma change_job_fields [simp]:
  "rq_Checked (change_job n f st) = rq_Checked st" "rq_Active (change_job n f st) = rq_Active st"
  "length (rq_Jobs (change_job n f st)) = length (rq_Jobs st)"
  by (simp_all add: change_job_def)

lemma request_steps_snoc:
  "request_steps (es @ [e]) st = Some st2 \<longleftrightarrow>
   (\<exists>st1. request_steps es st = Some st1 \<and> request_step e st1 = Some st2)"
  by (induction es arbitrary: st) (auto split: option.splits)

text \<open>
  The runs of a session by themselves: its key is not canceled, and it is not checked a second time
  while a check waits for its entry.
\<close>

definition check_waits :: "string \<Rightarrow> request_event list \<Rightarrow> bool" where
  "check_waits k es \<longleftrightarrow> (\<exists>before after. es = before @ CheckIdle k k # after \<and> StoreRequest k \<notin> set after)"

definition checks_overlap :: "string \<Rightarrow> request_event list \<Rightarrow> bool" where
  "checks_overlap k es \<longleftrightarrow> (\<exists>before between after.
     es = before @ CheckIdle k k # between @ CheckIdle k k # after \<and> StoreRequest k \<notin> set between)"

lemma checks_overlap_snoc: "checks_overlap k es \<Longrightarrow> checks_overlap k (es @ [e])"
  unfolding checks_overlap_def by (metis append.assoc append_Cons)

lemma check_waits_check:
  "check_waits k (es @ [CheckIdle k k])" "check_waits k es \<Longrightarrow> checks_overlap k (es @ [CheckIdle k k])"
  unfolding check_waits_def checks_overlap_def
  by (metis empty_iff empty_set, metis append.assoc append_Cons append_Nil)

lemma check_waits_snoc: "check_waits k es \<Longrightarrow> e \<noteq> StoreRequest k \<Longrightarrow> check_waits k (es @ [e])"
  unfolding check_waits_def by (metis Un_iff append.assoc append_Cons empty_iff empty_set set_ConsD set_append)

definition one_run :: "string \<Rightarrow> request_event list \<Rightarrow> request_state \<Rightarrow> bool" where
  "one_run k es st \<longleftrightarrow>
     (\<forall>n. running_job st n \<longrightarrow> jb_Key (rq_Jobs st ! n) = k \<longrightarrow> map_of (rq_Active st) k = Some n) \<and>
     (k \<in> set (rq_Checked st) \<longrightarrow> map_of (rq_Active st) k = None \<and> check_waits k es \<and> k \<notin> set (remove1 k (rq_Checked st)))"

lemma one_run_check:
  assumes "one_run k es st" and "request_step (CheckIdle s key) st = Some st'"
    and "key = k \<Longrightarrow> s = k" and "\<not> checks_overlap k (es @ [CheckIdle s key])"
  shows "one_run k (es @ [CheckIdle s key]) st'"
proof (cases "key = k")
  case True
  then have s: "s = k" using assms(3) by blast
  then have st': "st' = st\<lparr>rq_Checked := rq_Checked st @ [k]\<rparr>" "map_of (rq_Active st) k = None"
    using assms(2) True by (auto simp: IsSessionBusy_def split: if_splits)
  have "k \<notin> set (rq_Checked st)"
    using assms(1,4) True s check_waits_check(2) by (auto simp: one_run_def)
  then show ?thesis
    using assms(1) st' True s check_waits_check(1) by (auto simp: one_run_def running_job_def remove1_append)
next
  case False
  then show ?thesis
    using assms(1,2) check_waits_snoc [of k es "CheckIdle s key"]
    by (auto simp: one_run_def running_job_def remove1_append split: if_splits)
qed

lemma one_run_store:
  assumes "one_run k es st" and "request_step (StoreRequest key) st = Some st'"
  shows "one_run k (es @ [StoreRequest key]) st'"
proof -
  let ?job = "\<lparr>jb_Key = key, jb_Running = True, jb_Canceled = False\<rparr>"
  have key: "key \<in> set (rq_Checked st)"
    and st': "st' = st\<lparr>rq_Checked := remove1 key (rq_Checked st), rq_Active := map_put key (length (rq_Jobs st)) (rq_Active st),
        rq_Jobs := rq_Jobs st @ [?job]\<rparr>"
    using assms(2) by (auto split: if_splits)
  have old: "running_job st n \<and> rq_Jobs st' ! n = rq_Jobs st ! n \<or> n = length (rq_Jobs st)" if "running_job st' n" for n
    using that by (auto simp: st' running_job_def nth_append split: if_splits)
  show ?thesis
  proof (cases "key = k")
    case True
    then have "map_of (rq_Active st) k = None" "k \<notin> set (remove1 k (rq_Checked st))"
      using assms(1) key by (auto simp: one_run_def)
    moreover from this have "\<not> (running_job st n \<and> jb_Key (rq_Jobs st ! n) = k)" for n
      using assms(1) by (auto simp: one_run_def)
    ultimately have "n = length (rq_Jobs st)" if "running_job st' n" "jb_Key (rq_Jobs st' ! n) = k" for n
      using old [OF that(1)] that(2) by metis
    moreover have "k \<notin> set (rq_Checked st')" using \<open>k \<notin> set (remove1 k (rq_Checked st))\<close> True by (simp add: st')
    ultimately show ?thesis using True unfolding one_run_def by (auto simp: st' map_of_put)
  next
    case False
    have "map_of (rq_Active st') k = Some n" if "running_job st' n" "jb_Key (rq_Jobs st' ! n) = k" for n
      using old [OF that(1)] that(2) assms(1) False by (auto simp: one_run_def st' map_of_put)
    moreover have "k \<in> set (rq_Checked st') \<longrightarrow> k \<in> set (rq_Checked st) \<and> k \<notin> set (remove1 k (rq_Checked st'))"
      using assms(1) False by (auto simp: one_run_def st' remove1_commute [of k] dest: notin_set_remove1)
    ultimately show ?thesis
      using assms(1) False check_waits_snoc [of k es "StoreRequest key"] by (auto simp: one_run_def st' map_of_put)
  qed
qed

lemma one_run_change:
  assumes "one_run k es st" and "e \<noteq> StoreRequest k"
    and "rq_Checked st' = rq_Checked st" and "length (rq_Jobs st') = length (rq_Jobs st)"
    and "\<And>n. running_job st' n \<Longrightarrow> running_job st n \<and> jb_Key (rq_Jobs st' ! n) = jb_Key (rq_Jobs st ! n)"
    and "map_of (rq_Active st') k = map_of (rq_Active st) k \<or> (\<nexists>n. running_job st' n \<and> jb_Key (rq_Jobs st' ! n) = k)"
    and "map_of (rq_Active st) k = None \<Longrightarrow> map_of (rq_Active st') k = None"
  shows "one_run k (es @ [e]) st'"
  using assms check_waits_snoc [of k es e] unfolding one_run_def by metis

lemma one_run_step:
  assumes "one_run k es st" and "request_step e st = Some st'" and "e \<noteq> CancelKey k"
    and "\<And>s. e = CheckIdle s k \<Longrightarrow> s = k" and "\<not> checks_overlap k (es @ [e])"
  shows "one_run k (es @ [e]) st'"
proof (cases e)
  case (CheckIdle s key)
  then show ?thesis using assms one_run_check by blast
next
  case (StoreRequest key)
  then show ?thesis using assms one_run_store by blast
next
  case (CancelKey key)
  then have "key \<noteq> k" using assms(3) by blast
  show ?thesis
  proof (cases "map_of (rq_Active st) key")
    case None
    then show ?thesis using assms(1,2) CancelKey by (intro one_run_change [OF assms(1)]) auto
  next
    case (Some n)
    have st': "st' = change_job n (\<lambda>j. j\<lparr>jb_Canceled := True\<rparr>) (st\<lparr>rq_Active := drop_key key (rq_Active st)\<rparr>)"
      using assms(2) CancelKey Some by simp
    have "running_job st m \<and> jb_Key (rq_Jobs st' ! m) = jb_Key (rq_Jobs st ! m)" if "running_job st' m" for m
      using kept_change_job [OF _ _ that [unfolded st']] by (simp add: st' running_job_def)
    then show ?thesis
      using \<open>key \<noteq> k\<close> CancelKey
      by (intro one_run_change [OF assms(1)]) (simp_all add: st' map_of_drop_key)
  qed
next
  case (EndRequest n)
  have n: "running_job st n"
    and st': "st' = change_job n (\<lambda>j. j\<lparr>jb_Running := False, jb_Canceled := True\<rparr>)
       (st\<lparr>rq_Active := drop_key (jb_Key (rq_Jobs st ! n)) (rq_Active st)\<rparr>)"
    using assms(2) EndRequest by (auto split: if_splits)
  have kept: "m \<noteq> n \<and> running_job st m \<and> jb_Key (rq_Jobs st' ! m) = jb_Key (rq_Jobs st ! m)" if "running_job st' m" for m
    using that n by (cases "m = n") (auto simp: st' change_job_def running_job_def)
  have "map_of (rq_Active st') k = map_of (rq_Active st) k \<or> (\<nexists>m. running_job st' m \<and> jb_Key (rq_Jobs st' ! m) = k)"
  proof (cases "jb_Key (rq_Jobs st ! n) = k")
    case True
    then have "map_of (rq_Active st) k = Some n" using assms(1) n by (simp add: one_run_def)
    then show ?thesis using assms(1) kept by (auto simp: one_run_def)
  qed (simp add: st' change_job_def map_of_drop_key)
  then show ?thesis
    using kept EndRequest by (intro one_run_change [OF assms(1)]) (auto simp: st' change_job_def map_of_drop_key)
next
  case (PanicRequest n)
  have st': "st' = change_job n (\<lambda>j. j\<lparr>jb_Running := False\<rparr>) st"
    using assms(2) PanicRequest by (auto split: if_splits)
  have "running_job st m \<and> jb_Key (rq_Jobs st' ! m) = jb_Key (rq_Jobs st ! m)" if "running_job st' m" for m
    using kept_change_job [OF _ _ that [unfolded st']] by (simp add: st')
  then show ?thesis
    using PanicRequest by (intro one_run_change [OF assms(1)]) (simp_all add: st')
qed

text \<open>
  Property C32. Whatever requests, cancellations, ends and panics were interleaved: a run of a session
  that is going on is the one the session's entry names - so it is the only one, and the one that
  \<open>Cancel\<close> stops - unless the session was canceled at some time, or two runs were checked before the
  first of them was entered. (\<open>k\<close> is a session whose identifier is not the key of a summary.)
\<close>

theorem lost_run_has_a_cause:
  assumes "request_steps es no_requests = Some st"
    and "running_job st i" and "jb_Key (rq_Jobs st ! i) = k"
    and "\<And>s. CheckIdle s k \<in> set es \<Longrightarrow> s = k"
  shows "map_of (rq_Active st) k = Some i \<or> CancelKey k \<in> set es \<or>
    (\<exists>before between after. es = before @ CheckIdle k k # between @ CheckIdle k k # after \<and>
      StoreRequest k \<notin> set between)"
proof -
  have "one_run k es st \<or> CancelKey k \<in> set es \<or> checks_overlap k es"
    using assms(1,4)
  proof (induction es arbitrary: st rule: rev_induct)
    case Nil
    then have "st = no_requests" by simp
    then have "one_run k [] st" by (simp add: one_run_def no_requests_def running_job_def)
    then show ?case ..
  next
    case (snoc e es)
    then obtain st1 where steps: "request_steps es no_requests = Some st1" "request_step e st1 = Some st"
      by (auto simp: request_steps_snoc)
    have "one_run k es st1 \<or> CancelKey k \<in> set es \<or> checks_overlap k es"
      using snoc.IH [OF steps(1)] snoc.prems(2) by simp
    then show ?case
      using one_run_step [OF _ steps(2), of k es] snoc.prems(2) checks_overlap_snoc by fastforce
  qed
  then show ?thesis using assms(2,3) unfolding one_run_def checks_overlap_def by blast
qed

definition two_sessions :: "request_event list" where
  "two_sessions = [check_run ''s'', StoreRequest ''s'', check_summarize ''t'', StoreRequest ''t-summarize'',
     check_run ''t'', CancelKey ''s'', StoreRequest ''t'']"

theorem lost_run_has_a_cause_witness:
  "\<exists>st. request_steps two_sessions no_requests = Some st \<and> map_of (rq_Active st) ''t'' = Some 2"
proof -
  obtain st where st: "request_steps two_sessions no_requests = Some st" "running_job st 2" "jb_Key (rq_Jobs st ! 2) = ''t''"
    by (simp add: two_sessions_def check_run_def check_summarize_def summarize_key_def IsSessionBusy_def no_requests_def
        running_job_def change_job_def drop_key_def)
  have keys: "\<And>s. CheckIdle s ''t'' \<in> set two_sessions \<Longrightarrow> s = ''t''"
    by (auto simp: two_sessions_def check_run_def check_summarize_def summarize_key_def)
  have "CancelKey ''t'' \<notin> set two_sessions" "length (filter (\<lambda>e. e = CheckIdle ''t'' ''t'') two_sessions) = 1"
    by (simp_all add: two_sessions_def check_run_def check_summarize_def summarize_key_def)
  moreover have "2 \<le> length (filter (\<lambda>e. e = c) (xs @ c # ys @ c # zs))" for c :: request_event and xs ys zs
    by simp
  ultimately have "\<nexists>before between after. two_sessions =
      before @ CheckIdle ''t'' ''t'' # between @ CheckIdle ''t'' ''t'' # after \<and> StoreRequest ''t'' \<notin> set between"
    by (metis Suc_1 not_less_eq_eq One_nat_def le_refl)
  then show ?thesis
    using lost_run_has_a_cause [OF st keys] st(1) \<open>CancelKey ''t'' \<notin> set two_sessions\<close> by blast
qed

text \<open>
  A summary keeps nothing else away from its session, since its entry is under a key that
  no check looks at: while one runs on an idle session, and no other request is being started, a run
  can start, and so can a second summary, which takes the entry of the first; \<open>Cancel\<close> of the
  summary then stops only the second.
\<close>

theorem summaries_exclude_nothing:
  assumes "\<not> IsSessionBusy s st" and "n = length (rq_Jobs st)" and "rq_Checked st = []"
  shows "\<exists>st1 st2 st3. request_steps [check_summarize s, StoreRequest (summarize_key s),
        check_summarize s, StoreRequest (summarize_key s)] st = Some st1 \<and>
    running_job st1 n \<and> running_job st1 (Suc n) \<and>
    jb_Key (rq_Jobs st1 ! n) = summarize_key s \<and> jb_Key (rq_Jobs st1 ! Suc n) = summarize_key s \<and>
    request_step (CancelKey (summarize_key s)) st1 = Some st2 \<and>
    jb_Canceled (rq_Jobs st2 ! Suc n) \<and> \<not> jb_Canceled (rq_Jobs st2 ! n) \<and> running_job st2 n \<and>
    request_steps [check_run s, StoreRequest s] st1 = Some st3 \<and>
    running_job st3 n \<and> running_job st3 (Suc (Suc n)) \<and> jb_Key (rq_Jobs st3 ! Suc (Suc n)) = s"
proof -
  let ?k = "summarize_key s"
  let ?job = "\<lambda>key. \<lparr>jb_Key = key, jb_Running = True, jb_Canceled = False\<rparr>"
  have k: "?k \<noteq> s" by (simp add: summarize_key_def)
  define st1 where "st1 = st\<lparr>rq_Active := map_put ?k (Suc n) (map_put ?k n (rq_Active st)),
    rq_Jobs := rq_Jobs st @ [?job ?k, ?job ?k]\<rparr>"
  have run: "request_steps [check_summarize s, StoreRequest ?k, check_summarize s, StoreRequest ?k] st = Some st1"
    using assms k by (simp add: st1_def check_summarize_def IsSessionBusy_def map_of_put remove1_append)
  define st2 where "st2 = change_job (Suc n) (\<lambda>j. j\<lparr>jb_Canceled := True\<rparr>) (st1\<lparr>rq_Active := drop_key ?k (rq_Active st1)\<rparr>)"
  have cancel: "request_step (CancelKey ?k) st1 = Some st2"
    by (simp add: st2_def st1_def map_of_put)
  define st3 where "st3 = st1\<lparr>rq_Active := map_put s (Suc (Suc n)) (rq_Active st1), rq_Jobs := rq_Jobs st1 @ [?job s]\<rparr>"
  have start: "request_steps [check_run s, StoreRequest s] st1 = Some st3"
    using assms k by (simp add: st3_def st1_def check_run_def IsSessionBusy_def map_of_put remove1_append)
  have jobs: "rq_Jobs st1 = rq_Jobs st @ [?job ?k, ?job ?k]"
    "rq_Jobs st2 = rq_Jobs st @ [?job ?k, (?job ?k)\<lparr>jb_Canceled := True\<rparr>]"
    "rq_Jobs st3 = rq_Jobs st @ [?job ?k, ?job ?k, ?job s]"
    by (simp_all add: st1_def st2_def st3_def change_job_def assms(2) list_update_append nth_append)
  show ?thesis
    using run cancel start
    by (intro exI [of _ st1] exI [of _ st2] exI [of _ st3]) (simp add: running_job_def jobs assms(2) nth_append)
qed

theorem summaries_exclude_nothing_witness:
  "\<exists>st1. request_steps [check_summarize ''s'', StoreRequest (summarize_key ''s''),
        check_summarize ''s'', StoreRequest (summarize_key ''s'')] no_requests = Some st1 \<and>
     running_job st1 0 \<and> running_job st1 1"
proof -
  have "\<not> IsSessionBusy ''s'' no_requests" "0 = length (rq_Jobs no_requests)" "rq_Checked no_requests = []"
    by (simp_all add: IsSessionBusy_def no_requests_def)
  from summaries_exclude_nothing [OF this] show ?thesis by auto
qed

text \<open>
  As it is, a canceled request goes on until it sees its context; a new one can
  start meanwhile, and the end of the old one then takes the entry of the new one out: the
  session is idle for every caller while a request of it runs, which \<open>Cancel\<close> no longer stops.
\<close>

theorem running_request_out_of_sight:
  "\<exists>st. request_steps [check_run ''s'', StoreRequest ''s'', CancelKey ''s'',
        check_run ''s'', StoreRequest ''s'', EndRequest 0] no_requests = Some st \<and>
     \<not> IsSessionBusy ''s'' st \<and> running_job st 1 \<and> jb_Key (rq_Jobs st ! 1) = ''s'' \<and>
     \<not> jb_Canceled (rq_Jobs st ! 1) \<and> request_step (CancelKey ''s'') st = Some st"
  by (simp add: check_run_def IsSessionBusy_def no_requests_def change_job_def drop_key_def running_job_def)

section \<open>The title and the usage\<close>

lemma find_row_ID: "find (\<lambda>r. sr_ID r = i) rows = Some r \<Longrightarrow> sr_ID r = i"
  by (auto simp: find_Some_iff)

lemma find_replaced:
  "find (\<lambda>r. sr_ID r = i) rows = Some r \<Longrightarrow> sr_ID r' = i \<Longrightarrow>
   find (\<lambda>r. sr_ID r = i) (map (\<lambda>q. if sr_ID q = i then r' else q) rows) = Some r'"
  by (induction rows) auto

lemma SaveSession_then_Get:
  assumes "SaveSession fault now s sv = (Ok r, sv')"
  shows "\<exists>g. GetSession None (ss_ID s) sv' = Ok g \<and> ss_Title g = ss_Title s \<and> ss_Cost g = ss_Cost s \<and>
    ss_PromptTokens g = ss_PromptTokens s \<and> ss_CompletionTokens g = ss_CompletionTokens s"
proof -
  obtain row where row: "find (\<lambda>r. sr_ID r = ss_ID s) (sn_rows sv) = Some row"
    using assms by (auto simp: SaveSession_def q_UpdateSession_def split: option.splits)
  define r' where "r' = row\<lparr>sr_Title := ss_Title s, sr_PromptTokens := ss_PromptTokens s,
      sr_CompletionTokens := ss_CompletionTokens s, sr_SummaryMessageID :=
        (if ss_SummaryMessageID s \<noteq> [] then Some (ss_SummaryMessageID s) else None),
      sr_Cost := ss_Cost s, sr_UpdatedAt := now\<rparr>"
  have "sn_rows sv' = map (\<lambda>q. if sr_ID q = ss_ID s then r' else q) (sn_rows sv)"
    using assms row by (auto simp: SaveSession_def q_UpdateSession_def Let_def r'_def split: option.splits if_splits)
  then show ?thesis
    using find_replaced [OF row, of r'] find_row_ID [OF row]
    by (simp add: GetSession_def q_GetSessionByID_def session_of_row_def r'_def)
qed

text \<open>
  The title is saved with the session as it was read before the model was asked:
  whatever the generations have added to the cost and the tokens meanwhile is lost.
\<close>

theorem title_discards_usage:
  assumes "title_begin E True sessionID content st = (Ok (Some s), st1)"
    and "title_end E s (Ok response) st2 = (Ok (), st3)" and "clean_title (rp_Content response) \<noteq> []"
  shows "\<exists>g. GetSession None sessionID (as_Sessions st3) = Ok g \<and> ss_Cost g = ss_Cost s \<and>
    ss_PromptTokens g = ss_PromptTokens s \<and> ss_CompletionTokens g = ss_CompletionTokens s"
proof -
  have "ss_ID s = sessionID"
    using assms(1) find_row_ID
    by (fastforce simp: title_begin_def get_session_def GetSession_def q_GetSessionByID_def Let_def
        session_of_row_def split: if_splits option.splits outcome.splits prod.splits)
  moreover obtain f now r where "SaveSession f now (s\<lparr>ss_Title := clean_title (rp_Content response)\<rparr>) (as_Sessions st2)
      = (Ok r, as_Sessions st3)"
    using assms(2,3) by (fastforce simp: title_end_def save_session_def Let_def tick_def
        split: prod.splits outcome.splits)
  ultimately show ?thesis using SaveSession_then_Get by fastforce
qed

definition demo_session :: session where
  "demo_session = \<lparr>ss_ID = ''s'', ss_ParentSessionID = [], ss_Title = [], ss_MessageCount = 0, ss_PromptTokens = 0,
     ss_CompletionTokens = 0, ss_SummaryMessageID = [], ss_Cost = 0, ss_CreatedAt = 0, ss_UpdatedAt = 0\<rparr>"

definition used_state :: "nat agent_state" where
  "used_state = snd (TrackUsage demo_agent ''s'' (ag_Model demo_agent)
     \<lparr>us_InputTokens = 5, us_OutputTokens = 7, us_CacheCreationTokens = 0, us_CacheReadTokens = 0\<rparr> demo_state)"

definition demo_title :: provider_response where
  "demo_title = \<lparr>rp_Content = ''a'', rp_ToolCalls = [], rp_Usage = \<lparr>us_InputTokens = 0, us_OutputTokens = 0,
     us_CacheCreationTokens = 0, us_CacheReadTokens = 0\<rparr>, rp_FinishReason = []\<rparr>"

lemmas session_defs = title_begin_def title_end_def get_session_def save_session_def GetSession_def
  q_GetSessionByID_def SaveSession_def q_UpdateSession_def session_of_row_def null_string_def
  session_checks_def tick_def Let_def

theorem title_discards_usage_witness:
  "\<exists>g h. GetSession None ''s'' (as_Sessions used_state) = Ok g \<and> ss_PromptTokens g = 5 \<and>
     GetSession None ''s'' (as_Sessions (snd (title_end demo_agent demo_session (Ok demo_title) used_state))) = Ok h \<and>
     ss_PromptTokens h = 0"
proof -
  have title: "clean_title ''a'' = ''a''" by code_simp
  have read: "title_begin demo_agent True ''s'' ''x'' demo_state = (Ok (Some demo_session), tick demo_state)"
    by (simp add: session_defs demo_agent_def demo_state_def demo_session_def)
  have five: "\<exists>g. GetSession None ''s'' (as_Sessions used_state) = Ok g \<and> ss_PromptTokens g = 5"
    by (simp add: used_state_def TrackUsage_def session_defs demo_agent_def demo_state_def used_session_def
        usage_cost_def wrap64_def)
  have "fst (title_end demo_agent demo_session (Ok demo_title) used_state) = Ok ()"
    by (simp add: used_state_def TrackUsage_def session_defs demo_agent_def demo_state_def used_session_def
        usage_cost_def wrap64_def title demo_title_def demo_session_def)
  then have "title_end demo_agent demo_session (Ok demo_title) used_state =
      (Ok (), snd (title_end demo_agent demo_session (Ok demo_title) used_state))"
    by (metis prod.collapse)
  moreover have "clean_title (rp_Content demo_title) \<noteq> []" by (simp add: demo_title_def title)
  ultimately show ?thesis
    using title_discards_usage [OF read] five by (fastforce simp: demo_session_def)
qed

end
