(* ===== verification/File_Tools.thy ===== *)
theory File_Tools
  imports Agent_Loop File_History
begin

text \<open>
  The tools that write files, \<open>internal/llm/tools/edit.go\<close>, \<open>write.go\<close> and the read and write times
  of \<open>file.go\<close>, with the line counts of \<open>GenerateDiff\<close> in \<open>internal/diff/diff.go\<close>. The file system
  is a map; a counter tells the environment which of its answers is asked for: a fault of an
  operating system call, the answer to a permission request, the clock. Paths are joined and split
  by functions of the environment, and the unified diff is a library's. A time of zero is the
  zero time. \<open>ts_Asked\<close> records the permission requests with their answers.
\<close>

section \<open>Environment and state\<close>

datatype fs_node = FsDir | FsFile string int

record file_record =
  fl_readTime :: int
  fl_writeTime :: int

record write_request =
  wq_SessionID :: string
  wq_Path :: string
  wq_ToolName :: string
  wq_Action :: string
  wq_Description :: string
  wq_FilePath :: string
  wq_Diff :: string

record file_env =
  fe_Now :: "nat \<Rightarrow> int"
  fe_Fault :: "nat \<Rightarrow> string option"
  fe_Grant :: "nat \<Rightarrow> write_request \<Rightarrow> bool"
  fe_Attempt :: "nat \<Rightarrow> nat \<Rightarrow> attempt_env"
  fe_Arrange :: "file_row list \<Rightarrow> file_row list"
  fe_IsAbs :: "string \<Rightarrow> bool"
  fe_Join :: "string \<Rightarrow> string \<Rightarrow> string"
  fe_Dir :: "string \<Rightarrow> string"
  fe_Cwd :: string
  fe_Unified :: "string \<Rightarrow> string \<Rightarrow> string \<Rightarrow> string \<Rightarrow> string"
  fe_RFC3339 :: "int \<Rightarrow> string"
  fe_Metadata :: "string \<Rightarrow> int \<Rightarrow> int \<Rightarrow> string"
  fe_Diagnostics :: "nat \<Rightarrow> string \<Rightarrow> string"

record tool_state =
  ts_Tick :: nat
  ts_Files :: "(string, fs_node) gomap"
  ts_Records :: "(string, file_record) gomap"
  ts_History :: history_service
  ts_Asked :: "(write_request \<times> bool) list"

type_synonym tool_answer = "tool_response \<times> go_error option"

definition step :: "tool_state \<Rightarrow> tool_state" where
  "step st = st\<lparr>ts_Tick := ts_Tick st + 1\<rparr>"

definition NewTextResponse :: "string \<Rightarrow> tool_response" where
  "NewTextResponse content = \<lparr>tr_Content = content, tr_Metadata = [], tr_IsError = False\<rparr>"

definition NewTextErrorResponse :: "string \<Rightarrow> tool_response" where
  "NewTextErrorResponse content = \<lparr>tr_Content = content, tr_Metadata = [], tr_IsError = True\<rparr>"

definition error_answer :: "string \<Rightarrow> tool_answer" where
  "error_answer content = (NewTextErrorResponse content, None)"

definition failed_answer :: "string \<Rightarrow> tool_answer" where
  "failed_answer e = (NewTextResponse [], Some (plain_error e))"

definition denied_answer :: tool_answer where
  "denied_answer = (NewTextResponse [],
     Some \<lparr>ge_Text = ''permission denied'', ge_Canceled = False, ge_Denied = True\<rparr>)"

section \<open>Times\<close>

definition file_record_of :: "string \<Rightarrow> tool_state \<Rightarrow> file_record" where
  "file_record_of path st = (case map_of (ts_Records st) path of
     Some r \<Rightarrow> r | None \<Rightarrow> \<lparr>fl_readTime = 0, fl_writeTime = 0\<rparr>)"

definition recordFileRead :: "file_env \<Rightarrow> string \<Rightarrow> tool_state \<Rightarrow> tool_state" where
  "recordFileRead E path st = step (st\<lparr>ts_Records :=
     map_put path ((file_record_of path st)\<lparr>fl_readTime := fe_Now E (ts_Tick st)\<rparr>) (ts_Records st)\<rparr>)"

definition getLastReadTime :: "string \<Rightarrow> tool_state \<Rightarrow> int" where
  "getLastReadTime path st = fl_readTime (file_record_of path st)"

definition recordFileWrite :: "file_env \<Rightarrow> string \<Rightarrow> tool_state \<Rightarrow> tool_state" where
  "recordFileWrite E path st = step (st\<lparr>ts_Records :=
     map_put path ((file_record_of path st)\<lparr>fl_writeTime := fe_Now E (ts_Tick st)\<rparr>) (ts_Records st)\<rparr>)"

section \<open>Text\<close>

fun index_str :: "string \<Rightarrow> string \<Rightarrow> nat option" where
  "index_str [] p = (if p = [] then Some 0 else None)"
| "index_str (c # cs) p = (if has_prefix (c # cs) p then Some 0 else map_option Suc (index_str cs p))"

fun last_index_str :: "string \<Rightarrow> string \<Rightarrow> nat option" where
  "last_index_str [] p = (if p = [] then Some 0 else None)"
| "last_index_str (c # cs) p = (case last_index_str cs p of
     Some i \<Rightarrow> Some (Suc i) | None \<Rightarrow> if has_prefix (c # cs) p then Some 0 else None)"

definition replace_at :: "nat \<Rightarrow> string \<Rightarrow> string \<Rightarrow> string \<Rightarrow> string" where
  "replace_at i old new content = take i content @ new @ drop (i + length old) content"

definition GenerateDiff :: "file_env \<Rightarrow> string \<Rightarrow> string \<Rightarrow> string \<Rightarrow> string \<times> int \<times> int" where
  "GenerateDiff E before after fileName =
     (let name = trim_prefix ''/'' (trim_prefix (fe_Cwd E) fileName);
          unified = fe_Unified E (''a/'' @ name) (''b/'' @ name) before after;
          lines = split_str nl unified
      in (unified,
          int (length (filter (\<lambda>l. has_prefix l ''+'' \<and> \<not> has_prefix l ''+++'') lines)),
          int (length (filter (\<lambda>l. \<not> (has_prefix l ''+'' \<and> \<not> has_prefix l ''+++'') \<and>
             has_prefix l ''-'' \<and> \<not> has_prefix l ''---'') lines))))"

section \<open>The operating system\<close>

datatype stat_result = StatFailed string | StatNotExist | StatDir | StatFile int

definition os_Stat :: "file_env \<Rightarrow> string \<Rightarrow> tool_state \<Rightarrow> stat_result \<times> tool_state" where
  "os_Stat E path st =
     (case fe_Fault E (ts_Tick st) of
        Some e \<Rightarrow> (StatFailed e, step st)
      | None \<Rightarrow> (case map_of (ts_Files st) path of
            None \<Rightarrow> (StatNotExist, step st)
          | Some FsDir \<Rightarrow> (StatDir, step st)
          | Some (FsFile content modTime) \<Rightarrow> (StatFile modTime, step st)))"

definition os_ReadFile :: "file_env \<Rightarrow> string \<Rightarrow> tool_state \<Rightarrow> (string, string) outcome \<times> tool_state" where
  "os_ReadFile E path st =
     (case fe_Fault E (ts_Tick st) of
        Some e \<Rightarrow> (Err e, step st)
      | None \<Rightarrow> (case map_of (ts_Files st) path of
            Some (FsFile content modTime) \<Rightarrow> (Ok content, step st)
          | _ \<Rightarrow> (Err (''open '' @ path), step st)))"

definition os_WriteFile :: "file_env \<Rightarrow> string \<Rightarrow> string \<Rightarrow> tool_state \<Rightarrow> (string, unit) outcome \<times> tool_state" where
  "os_WriteFile E path content st =
     (case fe_Fault E (ts_Tick st) of
        Some e \<Rightarrow> (Err e, step st)
      | None \<Rightarrow> (Ok (), step (st\<lparr>ts_Files :=
          map_put path (FsFile content (fe_Now E (ts_Tick st))) (ts_Files st)\<rparr>)))"

text \<open>
  The directories above a file are not in the map unless something made them there. A directory
  cannot be made where a file is, nor below a file.
\<close>

definition os_MkdirAll :: "file_env \<Rightarrow> string \<Rightarrow> tool_state \<Rightarrow> (string, unit) outcome \<times> tool_state" where
  "os_MkdirAll E dir st =
     (case fe_Fault E (ts_Tick st) of
        Some e \<Rightarrow> (Err e, step st)
      | None \<Rightarrow>
          if list_ex (\<lambda>(p, entry). entry \<noteq> FsDir \<and> (p = dir \<or> has_prefix dir (p @ ''/''))) (ts_Files st)
          then (Err (''mkdir '' @ dir @ '': not a directory''), step st)
          else (Ok (), step (if map_of (ts_Files st) dir = None
          then st\<lparr>ts_Files := map_put dir FsDir (ts_Files st)\<rparr> else st)))"

definition ask_permission ::
  "file_env \<Rightarrow> string \<Rightarrow> string \<Rightarrow> string \<Rightarrow> string \<Rightarrow> string \<Rightarrow> tool_state \<Rightarrow> bool \<times> tool_state" where
  "ask_permission E sessionID toolName description filePath diff st =
     (let permissionPath = (if has_prefix filePath (fe_Cwd E) then fe_Cwd E else fe_Dir E filePath);
          req = \<lparr>wq_SessionID = sessionID, wq_Path = permissionPath, wq_ToolName = toolName,
            wq_Action = ''write'', wq_Description = description @ filePath, wq_FilePath = filePath,
            wq_Diff = diff\<rparr>;
          granted = fe_Grant E (ts_Tick st) req
      in (granted, step (st\<lparr>ts_Asked := ts_Asked st @ [(req, granted)]\<rparr>)))"

section \<open>History\<close>

definition h_create :: "file_env \<Rightarrow> string \<Rightarrow> string \<Rightarrow> string \<Rightarrow> tool_state \<Rightarrow>
   (string, file_version) outcome \<times> tool_state" where
  "h_create E sessionID path content st =
     (case CreateFile (fe_Attempt E (ts_Tick st)) sessionID path content (ts_History st) of
        (r, hs) \<Rightarrow> (r, step (st\<lparr>ts_History := hs\<rparr>)))"

definition h_version :: "file_env \<Rightarrow> string \<Rightarrow> string \<Rightarrow> string \<Rightarrow> tool_state \<Rightarrow> tool_state" where
  "h_version E sessionID path content st =
     (case CreateVersion (fe_Arrange E) (fe_Fault E (ts_Tick st)) (fe_Attempt E (ts_Tick st))
        sessionID path content (ts_History st) of
        (r, hs) \<Rightarrow> step (st\<lparr>ts_History := hs\<rparr>))"

text \<open>
  After a write: the file enters the history if it is not there, an old content that the history
  does not have is kept as a version, and the new content follows. A failed look-up leaves a
  record without content, which the old content is then compared with.
\<close>

definition store_history ::
  "file_env \<Rightarrow> string \<Rightarrow> string \<Rightarrow> string \<Rightarrow> string \<Rightarrow> tool_state \<Rightarrow> string option \<times> tool_state" where
  "store_history E sessionID path oldContent newContent st =
     (let found = GetByPathAndSession (fe_Arrange E) (fe_Fault E (ts_Tick st)) path sessionID (ts_History st);
          (failed, st1) = (case found of
             Ok f \<Rightarrow> (None, step st)
           | _ \<Rightarrow> (case h_create E sessionID path oldContent (step st) of
                (Err e, st') \<Rightarrow> (Some e, st') | (_, st') \<Rightarrow> (None, st')));
          known = (case found of Ok f \<Rightarrow> fv_Content f | _ \<Rightarrow> [])
      in case failed of
           Some e \<Rightarrow> (Some e, st1)
         | None \<Rightarrow> (None, h_version E sessionID path newContent
             (if known \<noteq> oldContent then h_version E sessionID path oldContent st1 else st1)))"

text \<open>A relative path is joined to the working directory.\<close>

definition resolve :: "file_env \<Rightarrow> string \<Rightarrow> string" where
  "resolve E path = (if fe_IsAbs E path then path else fe_Join E (fe_Cwd E) path)"

section \<open>The edit tool\<close>

definition EditToolName :: string where
  "EditToolName = ''edit''"

definition modified_text :: "file_env \<Rightarrow> string \<Rightarrow> int \<Rightarrow> int \<Rightarrow> string" where
  "modified_text E path modTime lastRead =
     ''file '' @ path @ '' has been modified since it was last read (mod time: '' @ fe_RFC3339 E modTime @
     '', last read: '' @ fe_RFC3339 E lastRead @ '')''"

text \<open>What a file must be to be edited: the answer that ends the edit, or its content.\<close>

definition read_to_edit ::
  "file_env \<Rightarrow> string \<Rightarrow> tool_state \<Rightarrow> (tool_answer + string) \<times> tool_state" where
  "read_to_edit E path st =
     (case os_Stat E path st of
        (StatFailed e, st1) \<Rightarrow> (Inl (failed_answer (''failed to access file: '' @ e)), st1)
      | (StatNotExist, st1) \<Rightarrow> (Inl (error_answer (''file not found: '' @ path)), st1)
      | (StatDir, st1) \<Rightarrow> (Inl (error_answer (''path is a directory, not a file: '' @ path)), st1)
      | (StatFile modTime, st1) \<Rightarrow>
          let lastRead = getLastReadTime path st1 in
          if lastRead = 0
          then (Inl (error_answer ''you must read the file before editing it. Use the View tool first''), st1)
          else if modTime > lastRead
          then (Inl (error_answer (modified_text E path modTime lastRead)), st1)
          else (case os_ReadFile E path st1 of
             (Ok content, st2) \<Rightarrow> (Inr content, st2)
           | (Err e, st2) \<Rightarrow> (Inl (failed_answer (''failed to read file: '' @ e)), st2)
           | (Panic e, st2) \<Rightarrow> (Inl (failed_answer e), st2)))"

definition unique_index :: "string \<Rightarrow> string \<Rightarrow> tool_answer + nat" where
  "unique_index content old =
     (case index_str content old of
        None \<Rightarrow> Inl (error_answer ''old_string not found in file. Make sure it matches exactly, including whitespace and line breaks'')
      | Some i \<Rightarrow>
          if last_index_str content old \<noteq> Some i
          then Inl (error_answer ''old_string appears multiple times in the file. Please provide more context to ensure a unique match'')
          else Inr i)"

definition no_context :: string where
  "no_context = ''session ID and message ID are required for creating a new file''"

text \<open>
  From the permission on: the new content is written to the file, \<open>versioned\<close> to the history.
\<close>

definition write_edit ::
  "file_env \<Rightarrow> string \<times> string \<Rightarrow> string \<Rightarrow> string \<Rightarrow> string \<Rightarrow> string \<Rightarrow> string \<Rightarrow> string \<Rightarrow> tool_state \<Rightarrow>
   tool_answer \<times> tool_state" where
  "write_edit E ids path description done oldContent newContent versioned st =
     (if fst ids = [] \<or> snd ids = [] then (failed_answer no_context, st)
      else
        (let (diff, additions, removals) = GenerateDiff E oldContent newContent path;
             (granted, st1) = ask_permission E (fst ids) EditToolName description path diff st in
         if \<not> granted then (denied_answer, st1)
         else (case os_WriteFile E path newContent st1 of
             (Ok _, st2) \<Rightarrow>
               (case store_history E (fst ids) path oldContent versioned st2 of
                  (Some e, st3) \<Rightarrow> (failed_answer (''error creating file history: '' @ e), st3)
                | (None, st3) \<Rightarrow>
                    (((NewTextResponse (done @ path))\<lparr>tr_Metadata := fe_Metadata E diff additions removals\<rparr>, None),
                     recordFileRead E path (recordFileWrite E path st3)))
           | (Err e, st2) \<Rightarrow> (failed_answer (''failed to write file: '' @ e), st2)
           | (Panic e, st2) \<Rightarrow> (failed_answer e, st2))))"

definition createNewFile ::
  "file_env \<Rightarrow> string \<times> string \<Rightarrow> string \<Rightarrow> string \<Rightarrow> tool_state \<Rightarrow> tool_answer \<times> tool_state" where
  "createNewFile E ids path content st =
     (case os_Stat E path st of
        (StatDir, st1) \<Rightarrow> (error_answer (''path is a directory, not a file: '' @ path), st1)
      | (StatFile _, st1) \<Rightarrow> (error_answer (''file already exists: '' @ path), st1)
      | (StatFailed e, st1) \<Rightarrow> (failed_answer (''failed to access file: '' @ e), st1)
      | (StatNotExist, st1) \<Rightarrow>
          (case os_MkdirAll E (fe_Dir E path) st1 of
             (Err e, st2) \<Rightarrow> (failed_answer (''failed to create parent directories: '' @ e), st2)
           | (Panic e, st2) \<Rightarrow> (failed_answer e, st2)
           | (Ok _, st2) \<Rightarrow>
               if fst ids = [] \<or> snd ids = [] then (failed_answer no_context, st2)
               else
                 (let (diff, additions, removals) = GenerateDiff E [] content path;
                      (granted, st3) = ask_permission E (fst ids) EditToolName ''Create file '' path diff st2 in
                  if \<not> granted then (denied_answer, st3)
                  else (case os_WriteFile E path content st3 of
                      (Err e, st4) \<Rightarrow> (failed_answer (''failed to write file: '' @ e), st4)
                    | (Panic e, st4) \<Rightarrow> (failed_answer e, st4)
                    | (Ok _, st4) \<Rightarrow>
                        (case h_create E (fst ids) path [] st4 of
                           (Err e, st5) \<Rightarrow> (failed_answer (''error creating file history: '' @ e), st5)
                         | (_, st5) \<Rightarrow>
                             (((NewTextResponse (''File created: '' @ path))
                                 \<lparr>tr_Metadata := fe_Metadata E diff additions removals\<rparr>, None),
                              recordFileRead E path (recordFileWrite E path
                                (h_version E (fst ids) path content st5))))))))"

definition deleteContent ::
  "file_env \<Rightarrow> string \<times> string \<Rightarrow> string \<Rightarrow> string \<Rightarrow> tool_state \<Rightarrow> tool_answer \<times> tool_state" where
  "deleteContent E ids path oldString st =
     (case read_to_edit E path st of
        (Inl a, st1) \<Rightarrow> (a, st1)
      | (Inr oldContent, st1) \<Rightarrow>
          (case unique_index oldContent oldString of
             Inl a \<Rightarrow> (a, st1)
           | Inr i \<Rightarrow> write_edit E ids path ''Delete content from file '' ''Content deleted from file: ''
               oldContent (replace_at i oldString [] oldContent) [] st1))"

definition replaceContent ::
  "file_env \<Rightarrow> string \<times> string \<Rightarrow> string \<Rightarrow> string \<Rightarrow> string \<Rightarrow> tool_state \<Rightarrow>
   tool_answer \<times> tool_state" where
  "replaceContent E ids path oldString newString st =
     (case read_to_edit E path st of
        (Inl a, st1) \<Rightarrow> (a, st1)
      | (Inr oldContent, st1) \<Rightarrow>
          (case unique_index oldContent oldString of
             Inl a \<Rightarrow> (a, st1)
           | Inr i \<Rightarrow>
               let newContent = replace_at i oldString newString oldContent in
               if oldContent = newContent
               then (error_answer ''new content is the same as old content. No changes made.'', st1)
               else write_edit E ids path ''Replace content in file '' ''Content replaced in file: ''
                 oldContent newContent newContent st1))"

record edit_params =
  ep_FilePath :: string
  ep_OldString :: string
  ep_NewString :: string

text \<open>
  \<open>Run\<close> goes on after a file was created and after content was deleted, as the code does: the
  answer of the replacement is the answer of the tool. Parameters that do not parse are None.
\<close>

definition EditRun ::
  "file_env \<Rightarrow> string \<times> string \<Rightarrow> edit_params option \<Rightarrow> tool_state \<Rightarrow> tool_answer \<times> tool_state" where
  "EditRun E ids input st =
     (case input of
        None \<Rightarrow> (error_answer ''invalid parameters'', st)
      | Some params \<Rightarrow>
          if ep_FilePath params = [] then (error_answer ''file_path is required'', st)
          else
            (let path = resolve E (ep_FilePath params);
                 old = ep_OldString params; new = ep_NewString params;
                 (a1, st1) = (if old = [] then createNewFile E ids path new st else ((NewTextResponse [], None), st))
             in if snd a1 \<noteq> None then (a1, st1)
                else
                  (let (a2, st2) = (if new = [] then deleteContent E ids path old st1
                                    else ((NewTextResponse [], None), st1))
                   in if snd a2 \<noteq> None then (a2, st2)
                      else
                        (case replaceContent E ids path old new st2 of
                           ((resp, Some e), st3) \<Rightarrow> ((resp, Some e), st3)
                         | ((resp, None), st3) \<Rightarrow>
                             if tr_IsError resp then ((resp, None), st3)
                             else ((resp\<lparr>tr_Content := ''<result>'' @ nl @ tr_Content resp @ nl @ ''</result>'' @ nl @
                                      fe_Diagnostics E (ts_Tick st3) path\<rparr>, None), step st3)))))"

section \<open>The write tool\<close>

definition WriteToolName :: string where
  "WriteToolName = ''write''"

record write_params =
  wp_FilePath :: string
  wp_Content :: string

text \<open>The check of an existing file: the answer that ends the write, if any, and whether it is there.\<close>

definition check_to_write ::
  "file_env \<Rightarrow> string \<Rightarrow> string \<Rightarrow> tool_state \<Rightarrow> (tool_answer + bool) \<times> tool_state" where
  "check_to_write E path content st =
     (case os_Stat E path st of
        (StatFailed e, st1) \<Rightarrow> (Inl (failed_answer (''error checking file: '' @ e)), st1)
      | (StatNotExist, st1) \<Rightarrow> (Inr False, st1)
      | (StatDir, st1) \<Rightarrow> (Inl (error_answer (''Path is a directory, not a file: '' @ path)), st1)
      | (StatFile modTime, st1) \<Rightarrow>
          let lastRead = getLastReadTime path st1 in
          if modTime > lastRead
          then (Inl (error_answer (''File '' @ path @ '' has been modified since it was last read.'' @ nl @
                 ''Last modification: '' @ fe_RFC3339 E modTime @ nl @ ''Last read: '' @ fe_RFC3339 E lastRead @
                 nl @ nl @ ''Please read the file again before modifying it.'')), st1)
          else (case os_ReadFile E path st1 of
             (Ok old, st2) \<Rightarrow>
               if old = content
               then (Inl (error_answer (''File '' @ path @ '' already contains the exact content. No changes made.'')), st2)
               else (Inr True, st2)
           | (_, st2) \<Rightarrow> (Inr True, st2)))"

text \<open>The write of a checked file, from its context on.\<close>

definition write_checked ::
  "file_env \<Rightarrow> string \<times> string \<Rightarrow> string \<Rightarrow> string \<Rightarrow> string \<Rightarrow> tool_state \<Rightarrow>
   tool_answer \<times> tool_state" where
  "write_checked E ids path oldContent content st =
     (if fst ids = [] \<or> snd ids = []
      then (failed_answer ''session_id and message_id are required'', st)
      else
        (let (diff, additions, removals) = GenerateDiff E oldContent content path;
             (granted, st1) = ask_permission E (fst ids) WriteToolName ''Create file '' path diff st in
         if \<not> granted then (denied_answer, st1)
         else (case os_WriteFile E path content st1 of
             (Err e, st2) \<Rightarrow> (failed_answer (''error writing file: '' @ e), st2)
           | (Panic e, st2) \<Rightarrow> (failed_answer e, st2)
           | (Ok _, st2) \<Rightarrow>
               (case store_history E (fst ids) path oldContent content st2 of
                  (Some e, st3) \<Rightarrow> (failed_answer (''error creating file history: '' @ e), st3)
                | (None, st3) \<Rightarrow>
                    let st4 = recordFileRead E path (recordFileWrite E path st3) in
                    (((NewTextResponse (''<result>'' @ nl @ ''File successfully written: '' @ path @ nl @
                         ''</result>'' @ fe_Diagnostics E (ts_Tick st4) path))
                       \<lparr>tr_Metadata := fe_Metadata E diff additions removals\<rparr>, None), step st4)))))"

definition WriteRun ::
  "file_env \<Rightarrow> string \<times> string \<Rightarrow> write_params option \<Rightarrow> string \<Rightarrow> tool_state \<Rightarrow> tool_answer \<times> tool_state" where
  "WriteRun E ids input parseError st =
     (case input of
        None \<Rightarrow> (error_answer (''error parsing parameters: '' @ parseError), st)
      | Some params \<Rightarrow>
          if wp_FilePath params = [] then (error_answer ''file_path is required'', st)
          else if wp_Content params = [] then (error_answer ''content is required'', st)
          else
            (let path = resolve E (wp_FilePath params) in
             case check_to_write E path (wp_Content params) st of
               (Inl a, st1) \<Rightarrow> (a, st1)
             | (Inr there, st1) \<Rightarrow>
                 (case os_MkdirAll E (fe_Dir E path) st1 of
                    (Err e, st2) \<Rightarrow> (failed_answer (''error creating directory: '' @ e), st2)
                  | (Panic e, st2) \<Rightarrow> (failed_answer e, st2)
                  | (Ok _, st2) \<Rightarrow>
                      if there
                      then (case os_ReadFile E path st2 of
                              (Ok old, st3) \<Rightarrow> write_checked E ids path old (wp_Content params) st3
                            | (_, st3) \<Rightarrow> write_checked E ids path [] (wp_Content params) st3)
                      else write_checked E ids path [] (wp_Content params) st2)))"

end
