(* ===== verification/Patch_Tool.thy ===== *)
theory Patch_Tool
  imports File_Tools Patch_Apply
begin

text \<open>
  The patch tool, \<open>internal/llm/tools/patch.go\<close>: the patch parser and the commits of
  \<open>internal/diff/patch.go\<close> over the files, the permissions and the history of the other file tools.
  The ranges over the maps of files and of changes visit them in an order of the environment.
\<close>

section \<open>Environment\<close>

record patch_env =
  pe_Needed :: "string list \<Rightarrow> string list"
  pe_Added :: "string list \<Rightarrow> string list"
  pe_Range :: "nat \<Rightarrow> commit \<Rightarrow> commit"
  pe_Metadata :: "string list \<Rightarrow> int \<Rightarrow> int \<Rightarrow> string"

definition PatchToolName :: string where
  "PatchToolName = ''patch''"

section \<open>Checks\<close>

text \<open>A file that the patch needs must have been read, be there, and not be modified since.\<close>

definition check_needed :: "file_env \<Rightarrow> string \<Rightarrow> tool_state \<Rightarrow> tool_answer option \<times> tool_state" where
  "check_needed E filePath st =
     (let absPath = resolve E filePath in
      if getLastReadTime absPath st = 0
      then (Some (error_answer (''you must read the file '' @ filePath @
              '' before patching it. Use the FileRead tool first'')), st)
      else (case os_Stat E absPath st of
          (StatNotExist, st1) \<Rightarrow> (Some (error_answer (''file not found: '' @ absPath)), st1)
        | (StatFailed e, st1) \<Rightarrow> (Some (failed_answer (''failed to access file: '' @ e)), st1)
        | (StatDir, st1) \<Rightarrow> (Some (error_answer (''path is a directory, not a file: '' @ absPath)), st1)
        | (StatFile modTime, st1) \<Rightarrow>
            let lastRead = getLastReadTime absPath st1 in
            if modTime > lastRead
            then (Some (error_answer (modified_text E absPath modTime lastRead)), st1)
            else (None, st1)))"

text \<open>A file that the patch adds must not be there.\<close>

definition check_added :: "file_env \<Rightarrow> string \<Rightarrow> tool_state \<Rightarrow> tool_answer option \<times> tool_state" where
  "check_added E filePath st =
     (let absPath = resolve E filePath in
      case os_Stat E absPath st of
        (StatNotExist, st1) \<Rightarrow> (None, st1)
      | (StatFailed e, st1) \<Rightarrow> (Some (failed_answer (''failed to check file: '' @ e)), st1)
      | (_, st1) \<Rightarrow> (Some (error_answer (''file already exists and cannot be added: '' @ absPath)), st1))"

fun check_all ::
  "(string \<Rightarrow> tool_state \<Rightarrow> tool_answer option \<times> tool_state) \<Rightarrow> string list \<Rightarrow> tool_state \<Rightarrow>
   tool_answer option \<times> tool_state" where
  "check_all check [] st = (None, st)"
| "check_all check (p # ps) st =
     (case check p st of (Some a, st1) \<Rightarrow> (Some a, st1) | (None, st1) \<Rightarrow> check_all check ps st1)"

fun load_all ::
  "file_env \<Rightarrow> string list \<Rightarrow> (string, string) gomap \<Rightarrow> tool_state \<Rightarrow>
   (tool_answer + (string, string) gomap) \<times> tool_state" where
  "load_all E [] files st = (Inr files, st)"
| "load_all E (p # ps) files st =
     (case os_ReadFile E (resolve E p) st of
        (Ok content, st1) \<Rightarrow> load_all E ps (map_put p content files) st1
      | (Err e, st1) \<Rightarrow> (Inl (failed_answer (''failed to read file '' @ resolve E p @ '': '' @ e)), st1)
      | (Panic e, st1) \<Rightarrow> (Inl (failed_answer e), st1))"

section \<open>Permissions\<close>

definition change_request :: "file_env \<Rightarrow> string \<Rightarrow> string \<Rightarrow> file_change \<Rightarrow> write_request" where
  "change_request E sessionID path change =
     (let content = (\<lambda>c. case c of None \<Rightarrow> [] | Some s \<Rightarrow> s);
          (action, verb, before, after) =
            (case fc_Type change of
               ActionAdd \<Rightarrow> (''create'', ''Create file '', [], content (fc_NewContent change))
             | ActionUpdate \<Rightarrow> (''update'', ''Update file '', content (fc_OldContent change), content (fc_NewContent change))
             | ActionDelete \<Rightarrow> (''delete'', ''Delete file '', content (fc_OldContent change), []))
      in \<lparr>wq_SessionID = sessionID, wq_Path = fe_Dir E path, wq_ToolName = PatchToolName,
          wq_Action = action, wq_Description = verb @ path, wq_FilePath = path,
          wq_Diff = fst (GenerateDiff E before after path)\<rparr>)"

text \<open>The contents that are dereferenced without a check.\<close>

definition nil_content :: "file_change \<Rightarrow> bool" where
  "nil_content change \<longleftrightarrow>
     (case fc_Type change of
        ActionAdd \<Rightarrow> fc_NewContent change = None
      | ActionUpdate \<Rightarrow> False
      | ActionDelete \<Rightarrow> fc_OldContent change = None)"

fun ask_changes ::
  "file_env \<Rightarrow> string \<Rightarrow> commit \<Rightarrow> tool_state \<Rightarrow> (string, bool) outcome \<times> tool_state" where
  "ask_changes E sessionID [] st = (Ok True, st)"
| "ask_changes E sessionID ((path, change) # rest) st =
     (if nil_content change
      then (Panic ''invalid memory address or nil pointer dereference'', st)
      else
        (let req = change_request E sessionID path change;
             granted = fe_Grant E (ts_Tick st) req;
             st1 = step (st\<lparr>ts_Asked := ts_Asked st @ [(req, granted)]\<rparr>)
         in if granted then ask_changes E sessionID rest st1 else (Ok False, st1)))"

section \<open>Writing\<close>

definition os_Remove :: "file_env \<Rightarrow> string \<Rightarrow> tool_state \<Rightarrow> (string, unit) outcome \<times> tool_state" where
  "os_Remove E path st =
     (case fe_Fault E (ts_Tick st) of
        Some e \<Rightarrow> (Err e, step st)
      | None \<Rightarrow>
          if map_of (ts_Files st) path = None then (Err (''remove '' @ path), step st)
          else (Ok (), step (st\<lparr>ts_Files := AList.delete path (ts_Files st)\<rparr>)))"

text \<open>The two functions that \<open>ApplyCommit\<close> is given, on resolved paths.\<close>

definition write_path :: "file_env \<Rightarrow> tool_state write_fn" where
  "write_path E path content st =
     (case os_MkdirAll E (fe_Dir E path) st of
        (Err e, st1) \<Rightarrow> (st1, Some (''failed to create parent directories for '' @ path @ '': '' @ e))
      | (Panic e, st1) \<Rightarrow> (st1, Some e)
      | (Ok _, st1) \<Rightarrow>
          (case os_WriteFile E path content st1 of
             (Ok _, st2) \<Rightarrow> (st2, None) | (Err e, st2) \<Rightarrow> (st2, Some e) | (Panic e, st2) \<Rightarrow> (st2, Some e)))"

definition remove_path :: "file_env \<Rightarrow> tool_state remove_fn" where
  "remove_path E path st =
     (case os_Remove E path st of
        (Ok _, st1) \<Rightarrow> (st1, None) | (Err e, st1) \<Rightarrow> (st1, Some e) | (Panic e, st1) \<Rightarrow> (st1, Some e))"

definition apply_commit :: "file_env \<Rightarrow> commit \<Rightarrow> tool_state \<Rightarrow> tool_state \<times> string option" where
  "apply_commit E commit =
     ApplyCommit commit (\<lambda>p. write_path E (resolve E p)) (\<lambda>p. remove_path E (resolve E p))"

section \<open>History\<close>

definition update_history :: "file_env \<Rightarrow> string \<Rightarrow> string \<Rightarrow> file_change \<Rightarrow> tool_state \<Rightarrow> tool_state" where
  "update_history E sessionID absPath change st =
     (let old = (case fc_OldContent change of None \<Rightarrow> [] | Some s \<Rightarrow> s);
          new = (case fc_NewContent change of None \<Rightarrow> [] | Some s \<Rightarrow> s);
          found = GetByPathAndSession (fe_Arrange E) (fe_Fault E (ts_Tick st)) absPath sessionID (ts_History st);
          known = (case found of Ok f \<Rightarrow> fv_Content f | _ \<Rightarrow> []);
          (fine, st1) = (if is_ok found then (True, step st)
             else if fc_Type change = ActionAdd then (False, step st)
             else (case h_create E sessionID absPath old (step st) of (r, st') \<Rightarrow> (is_ok r, st')));
          st2 = (if fine \<and> fc_Type change \<noteq> ActionAdd \<and> known \<noteq> old
                 then h_version E sessionID absPath old st1 else st1);
          st3 = h_version E sessionID absPath (if fc_Type change = ActionDelete then [] else new) st2
      in recordFileRead E absPath (recordFileWrite E absPath st3))"

fun record_changes ::
  "file_env \<Rightarrow> string \<Rightarrow> commit \<Rightarrow> tool_state \<Rightarrow> (string list \<times> int \<times> int) \<times> tool_state" where
  "record_changes E sessionID [] st = (([], 0, 0), st)"
| "record_changes E sessionID ((path, change) # rest) st =
     (let absPath = resolve E path;
          old = (case fc_OldContent change of None \<Rightarrow> [] | Some s \<Rightarrow> s);
          new = (case fc_NewContent change of None \<Rightarrow> [] | Some s \<Rightarrow> s);
          (d, additions, removals) = GenerateDiff E old new path;
          ((changed, adds, rems), st1) =
            record_changes E sessionID rest (update_history E sessionID absPath change st)
      in ((absPath # changed, additions + adds, removals + rems), st1))"

section \<open>The run\<close>

text \<open>From the commit on.\<close>

definition run_commit ::
  "file_env \<Rightarrow> patch_env \<Rightarrow> string \<times> string \<Rightarrow> commit \<Rightarrow> tool_state \<Rightarrow>
   tool_answer run \<times> tool_state" where
  "run_commit E P ids commit st =
     (if fst ids = [] \<or> snd ids = []
      then (Returned (failed_answer ''session ID and message ID are required for creating a patch''), st)
      else (case ask_changes E (fst ids) (pe_Range P 0 commit) st of
          (Panic e, st1) \<Rightarrow> (Panicked e, st1)
        | (Err e, st1) \<Rightarrow> (Returned (failed_answer e), st1)
        | (Ok granted, st1) \<Rightarrow>
            if \<not> granted then (Returned denied_answer, st1)
            else (case apply_commit E (pe_Range P 1 commit) st1 of
                (st2, Some e) \<Rightarrow> (Returned (error_answer (''failed to apply patch: '' @ e)), st2)
              | (st2, None) \<Rightarrow>
                  let ((changed, adds, rems), st3) = record_changes E (fst ids) (pe_Range P 2 commit) st2;
                      result = ''Patch applied successfully. '' @ show_int (int (length changed)) @
                        '' files changed, '' @ show_int adds @ '' additions, '' @ show_int rems @ '' removals'';
                      diagnostics = concat (map (fe_Diagnostics E (ts_Tick st3)) changed)
                  in (Returned ((NewTextResponse (result @
                        (if diagnostics = [] then [] else nl @ nl @ ''Diagnostics:'' @ nl @ diagnostics)))
                        \<lparr>tr_Metadata := pe_Metadata P changed adds rems\<rparr>, None), step st3))))"

text \<open>
  The fuel is the parser's; no result is a parser that does not return. Parameters that do not
  parse are None.
\<close>

definition PatchRun ::
  "nat \<Rightarrow> file_env \<Rightarrow> patch_env \<Rightarrow> string \<times> string \<Rightarrow> string option \<Rightarrow> tool_state \<Rightarrow>
   (tool_answer run \<times> tool_state) option" where
  "PatchRun fuel E P ids input st =
     (case input of
        None \<Rightarrow> Some (Returned (error_answer ''invalid parameters''), st)
      | Some patchText \<Rightarrow>
          if patchText = [] then Some (Returned (error_answer ''patch_text is required''), st)
          else
            (let needed = IdentifyFilesNeeded (pe_Needed P) patchText in
             case check_all (check_needed E) needed st of
               (Some a, st1) \<Rightarrow> Some (Returned a, st1)
             | (None, st1) \<Rightarrow>
                 (case check_all (check_added E) (IdentifyFilesAdded (pe_Added P) patchText) st1 of
                    (Some a, st2) \<Rightarrow> Some (Returned a, st2)
                  | (None, st2) \<Rightarrow>
                      (case load_all E needed [] st2 of
                         (Inl a, st3) \<Rightarrow> Some (Returned a, st3)
                       | (Inr files, st3) \<Rightarrow>
                           (case TextToPatch fuel patchText files of
                              None \<Rightarrow> None
                            | Some (Panic e) \<Rightarrow> Some (Panicked e, st3)
                            | Some (Err e) \<Rightarrow>
                                Some (Returned (error_answer (''failed to parse patch: '' @ e)), st3)
                            | Some (Ok (patch, fuzz)) \<Rightarrow>
                                if fuzz > 3
                                then Some (Returned (error_answer (''patch contains fuzzy matches (fuzz level: '' @
                                  show_int fuzz @ ''). Please make your context lines more precise'')), st3)
                                else (case PatchToCommit patch files of
                                    Panic e \<Rightarrow> Some (Panicked e, st3)
                                  | Err e \<Rightarrow> Some (Returned (error_answer
                                      (''failed to create commit from patch: '' @ e)), st3)
                                  | Ok commit \<Rightarrow> Some (run_commit E P ids commit st3)))))))"

end
