(* ===== verification/File_Tool_Properties.thy ===== *)
theory File_Tool_Properties
  imports File_Tools File_History_Properties
begin

text \<open>What the edit tool writes, that nothing is written without permission, and what it reports.\<close>

section \<open>Occurrences\<close>

definition occurs_at :: "string \<Rightarrow> string \<Rightarrow> nat \<Rightarrow> bool" where
  "occurs_at content p i \<longleftrightarrow> i \<le> length content \<and> has_prefix (drop i content) p"

lemma occurs_Cons: "occurs_at (c # cs) p (Suc i) \<longleftrightarrow> occurs_at cs p i"
  by (simp add: occurs_at_def)

lemma occurs_zero: "occurs_at content p 0 \<longleftrightarrow> has_prefix content p"
  by (simp add: occurs_at_def)

lemma has_prefix_Nil: "has_prefix [] p \<longleftrightarrow> p = []"
  by (cases p) auto

lemma occurs_Nil: "occurs_at [] p i \<longleftrightarrow> i = 0 \<and> p = []"
  by (auto simp: occurs_at_def has_prefix_Nil)

lemma index_str_None: "index_str content p = None \<longleftrightarrow> (\<forall>i. \<not> occurs_at content p i)"
proof (induction content)
  case Nil
  then show ?case by (auto simp: occurs_Nil)
next
  case (Cons c cs)
  have "(\<forall>i. \<not> occurs_at (c # cs) p i) \<longleftrightarrow> \<not> has_prefix (c # cs) p \<and> (\<forall>i. \<not> occurs_at cs p i)"
    by (metis occurs_Cons occurs_zero not0_implies_Suc)
  then show ?case using Cons.IH by simp
qed

lemma last_index_str_None: "last_index_str content p = None \<longleftrightarrow> (\<forall>i. \<not> occurs_at content p i)"
proof (induction content)
  case Nil
  then show ?case by (auto simp: occurs_Nil)
next
  case (Cons c cs)
  have "(\<forall>i. \<not> occurs_at (c # cs) p i) \<longleftrightarrow> \<not> has_prefix (c # cs) p \<and> (\<forall>i. \<not> occurs_at cs p i)"
    by (metis occurs_Cons occurs_zero not0_implies_Suc)
  then show ?case using Cons.IH by (auto split: option.split)
qed

lemma index_str_first:
  "index_str content p = Some i \<Longrightarrow> occurs_at content p i \<and> (\<forall>j. occurs_at content p j \<longrightarrow> i \<le> j)"
proof (induction content arbitrary: i)
  case Nil
  then show ?case by (auto simp: occurs_Nil split: if_splits)
next
  case (Cons c cs)
  show ?case
  proof (cases "has_prefix (c # cs) p")
    case False
    then obtain k where k: "index_str cs p = Some k" "i = Suc k" using Cons.prems by auto
    have "i \<le> j" if "occurs_at (c # cs) p j" for j
      using that Cons.IH [OF k(1)] k(2) False by (cases j) (auto simp: occurs_Cons occurs_zero)
    then show ?thesis using Cons.IH [OF k(1)] k(2) by (simp add: occurs_Cons)
  qed (use Cons.prems in \<open>simp add: occurs_zero\<close>)
qed

lemma last_index_str_last:
  "last_index_str content p = Some i \<Longrightarrow> occurs_at content p i \<and> (\<forall>j. occurs_at content p j \<longrightarrow> j \<le> i)"
proof (induction content arbitrary: i)
  case Nil
  then show ?case by (auto simp: occurs_Nil split: if_splits)
next
  case (Cons c cs)
  show ?case
  proof (cases "last_index_str cs p")
    case None
    then have "i = 0" and "has_prefix (c # cs) p" using Cons.prems by (auto split: if_splits)
    moreover have "j = 0" if "occurs_at (c # cs) p j" for j
      using that None by (cases j) (auto simp: occurs_Cons last_index_str_None)
    ultimately show ?thesis by (auto simp: occurs_zero)
  next
    case (Some k)
    then have i: "i = Suc k" using Cons.prems by simp
    have "j \<le> i" if "occurs_at (c # cs) p j" for j
      using that Cons.IH [OF Some] i by (cases j) (auto simp: occurs_Cons)
    then show ?thesis using Cons.IH [OF Some] i by (simp add: occurs_Cons)
  qed
qed

lemma unique_index_unique: "unique_index content p = Inr i \<longleftrightarrow> (\<forall>j. occurs_at content p j \<longleftrightarrow> j = i)"
proof
  assume "unique_index content p = Inr i"
  then have "index_str content p = Some i" and "last_index_str content p = Some i"
    by (auto simp: unique_index_def split: option.splits if_splits)
  then show "\<forall>j. occurs_at content p j \<longleftrightarrow> j = i"
    using index_str_first last_index_str_last by (metis le_antisym)
next
  assume only: "\<forall>j. occurs_at content p j \<longleftrightarrow> j = i"
  have "index_str content p = Some i"
    using only index_str_None index_str_first by (metis not_None_eq)
  moreover have "last_index_str content p = Some i"
    using only last_index_str_None last_index_str_last by (metis not_None_eq)
  ultimately show "unique_index content p = Inr i" by (simp add: unique_index_def)
qed

section \<open>Single steps\<close>

lemma step_fields [simp]:
  "ts_Files (step st) = ts_Files st" "ts_Records (step st) = ts_Records st" "ts_Asked (step st) = ts_Asked st"
  "ts_Tick (step st) = Suc (ts_Tick st)" "ts_History (step st) = ts_History st"
  by (simp_all add: step_def)

text \<open>Steps that leave files, times and permissions as they are, and let the clock run.\<close>

definition quiet_step :: "tool_state \<Rightarrow> tool_state \<Rightarrow> bool" where
  "quiet_step st st' \<longleftrightarrow> ts_Files st' = ts_Files st \<and> ts_Records st' = ts_Records st \<and>
     ts_Asked st' = ts_Asked st \<and> ts_Tick st \<le> ts_Tick st'"

lemma quiet_refl [simp]: "quiet_step st st"
  by (simp add: quiet_step_def)

lemma quiet_trans: "quiet_step a b \<Longrightarrow> quiet_step b c \<Longrightarrow> quiet_step a c"
  by (auto simp: quiet_step_def)

lemma quiet_step_step [simp]: "quiet_step st (step st)"
  by (simp add: quiet_step_def)

lemma os_Stat_quiet: "os_Stat E path st = (r, st') \<Longrightarrow> quiet_step st st'"
  by (auto simp: os_Stat_def split: option.splits fs_node.splits)

lemma os_ReadFile_quiet: "os_ReadFile E path st = (r, st') \<Longrightarrow> quiet_step st st'"
  by (auto simp: os_ReadFile_def split: option.splits fs_node.splits)

lemma h_create_quiet: "h_create E sid path content st = (r, st') \<Longrightarrow> quiet_step st st'"
  by (auto simp: h_create_def quiet_step_def split: prod.splits)

lemma h_version_quiet: "quiet_step st (h_version E sid path content st)"
  by (auto simp: h_version_def quiet_step_def split: prod.split)

lemma h_create_after_step: "h_create E sid path content (step st) = (r, st') \<Longrightarrow> quiet_step st st'"
  using h_create_quiet [of E sid path content "step st"] by (auto simp: quiet_step_def)

lemma h_version_after: "quiet_step st st' \<Longrightarrow> quiet_step st (h_version E sid path content st')"
  using h_version_quiet quiet_trans by blast

lemma store_history_quiet: "store_history E sid path old new st = (r, st') \<Longrightarrow> quiet_step st st'"
  unfolding store_history_def Let_def
  by (auto split: prod.splits outcome.splits option.splits if_splits
      dest!: h_create_after_step intro!: h_version_after)

lemma read_to_edit_quiet: "read_to_edit E path st = (r, st') \<Longrightarrow> quiet_step st st'"
  unfolding read_to_edit_def Let_def
  by (auto split: prod.splits stat_result.splits outcome.splits if_splits
      dest!: os_Stat_quiet os_ReadFile_quiet intro: quiet_trans)

section \<open>Writing\<close>

text \<open>
  What a run may do to files: every file of the new state is as it was, or there is a granted
  request for it that showed the difference to the content that was written; no file goes away.
\<close>

definition granted_write :: "file_env \<Rightarrow> string \<Rightarrow> string \<Rightarrow> write_request \<times> bool \<Rightarrow> bool" where
  "granted_write E path content r \<longleftrightarrow> snd r \<and> wq_FilePath (fst r) = path \<and>
     (\<exists>old. wq_Diff (fst r) = fst (GenerateDiff E old content path))"

definition only_granted :: "file_env \<Rightarrow> tool_state \<Rightarrow> tool_state \<Rightarrow> bool" where
  "only_granted E st st' \<longleftrightarrow> (\<exists>new. ts_Asked st' = ts_Asked st @ new \<and>
     (\<forall>f content t. map_of (ts_Files st') f = Some (FsFile content t) \<longrightarrow>
        map_of (ts_Files st) f = Some (FsFile content t) \<or> (\<exists>r \<in> set new. granted_write E f content r))) \<and>
     (\<forall>f. map_of (ts_Files st) f \<noteq> None \<longrightarrow> map_of (ts_Files st') f \<noteq> None)"

lemma quiet_only_granted: "quiet_step st st' \<Longrightarrow> only_granted E st st'"
  by (auto simp: quiet_step_def only_granted_def intro: exI [of _ "[]"])

lemma only_granted_trans:
  assumes "only_granted E a b" and "only_granted E b c"
  shows "only_granted E a c"
proof -
  obtain n1 n2 where n: "ts_Asked b = ts_Asked a @ n1" "ts_Asked c = ts_Asked b @ n2"
    and f1: "\<And>f content t. map_of (ts_Files b) f = Some (FsFile content t) \<Longrightarrow>
        map_of (ts_Files a) f = Some (FsFile content t) \<or> (\<exists>r \<in> set n1. granted_write E f content r)"
    and f2: "\<And>f content t. map_of (ts_Files c) f = Some (FsFile content t) \<Longrightarrow>
        map_of (ts_Files b) f = Some (FsFile content t) \<or> (\<exists>r \<in> set n2. granted_write E f content r)"
    using assms unfolding only_granted_def by blast
  have "map_of (ts_Files a) f = Some (FsFile content t) \<or> (\<exists>r \<in> set (n1 @ n2). granted_write E f content r)"
    if "map_of (ts_Files c) f = Some (FsFile content t)" for f content t
    using f2 [OF that] f1 [of f content t] by auto
  then show ?thesis
    using n assms unfolding only_granted_def by (intro conjI exI [of _ "n1 @ n2"]) auto
qed

lemma os_MkdirAll_granted: "os_MkdirAll E dir st = (r, st') \<Longrightarrow> only_granted E st st'"
  by (auto simp: os_MkdirAll_def only_granted_def map_of_put split: option.splits if_splits
      intro!: exI [of _ "[]"])

lemma recordFileRead_quiet: "ts_Files (recordFileRead E path st) = ts_Files st"
    "ts_Asked (recordFileRead E path st) = ts_Asked st"
  and recordFileWrite_quiet: "ts_Files (recordFileWrite E path st) = ts_Files st"
    "ts_Asked (recordFileWrite E path st) = ts_Asked st"
  by (simp_all add: recordFileRead_def recordFileWrite_def)

lemmas record_quiet = recordFileRead_quiet recordFileWrite_quiet

lemma only_granted_same:
  "ts_Files st' = ts_Files b \<Longrightarrow> ts_Asked st' = ts_Asked b \<Longrightarrow> only_granted E a b \<Longrightarrow> only_granted E a st'"
  by (simp add: only_granted_def)

text \<open>A permission and the write that it is for.\<close>

lemma ask_then_write:
  assumes "ask_permission E sid tool description path diff st = (True, st1)"
    and "diff = fst (GenerateDiff E old content path)" and "os_WriteFile E path content st1 = (r, st2)"
  shows "only_granted E st st2"
  using assms by (auto simp: ask_permission_def os_WriteFile_def only_granted_def granted_write_def Let_def
      map_of_put split: option.splits if_splits)

lemma ask_only: "ask_permission E sid tool description path diff st = (g, st1) \<Longrightarrow> only_granted E st st1"
  by (auto simp: ask_permission_def only_granted_def Let_def)

lemma only_granted_refl [simp]: "only_granted E st st"
  by (rule quiet_only_granted) simp

text \<open>The ways an edit may end: without context, denied, with a failed write, with a failed history, well.\<close>

lemma write_edit_ends:
  assumes "write_edit E ids path description done old new ver st = (a, st')"
  obtains (no_context) "a = failed_answer no_context" "st' = st"
  | (denied) st1 where "ask_permission E (fst ids) EditToolName description path
        (fst (GenerateDiff E old new path)) st = (False, st1)" "a = denied_answer" "st' = st1"
  | (unwritten) st1 r e where "ask_permission E (fst ids) EditToolName description path
        (fst (GenerateDiff E old new path)) st = (True, st1)"
      "os_WriteFile E path new st1 = (r, st')" "a = failed_answer e"
  | (written) st1 st2 st3 h where "ask_permission E (fst ids) EditToolName description path
        (fst (GenerateDiff E old new path)) st = (True, st1)"
      "os_WriteFile E path new st1 = (Ok (), st2)" "store_history E (fst ids) path old ver st2 = (h, st3)"
      "case h of Some e \<Rightarrow> a = failed_answer (''error creating file history: '' @ e) \<and> st' = st3
       | None \<Rightarrow> st' = recordFileRead E path (recordFileWrite E path st3) \<and> snd a = None \<and> \<not> tr_IsError (fst a)"
proof -
  obtain diff adds rems where diff: "GenerateDiff E old new path = (diff, adds, rems)" by (metis prod_cases3)
  obtain g st1 where ask: "ask_permission E (fst ids) EditToolName description path diff st = (g, st1)" by fastforce
  obtain r st2 where w: "os_WriteFile E path new st1 = (r, st2)" by fastforce
  obtain h st3 where h: "store_history E (fst ids) path old ver st2 = (h, st3)" by fastforce
  consider "fst ids = [] \<or> snd ids = []" | "fst ids \<noteq> []" "snd ids \<noteq> []" "\<not> g"
    | "fst ids \<noteq> []" "snd ids \<noteq> []" g by blast
  then show thesis
  proof cases
    case 3
    then show thesis
      using assms unwritten written ask w h
      by (auto simp: write_edit_def diff NewTextResponse_def split: outcome.splits option.splits)
  qed (use assms no_context denied ask in \<open>auto simp: write_edit_def diff\<close>)
qed

lemma write_edit_granted:
  assumes "write_edit E ids path description done old new ver st = (a, st')"
  shows "only_granted E st st'"
  using assms
proof (cases rule: write_edit_ends)
  case (denied st1)
  then show ?thesis using ask_only by simp
next
  case (unwritten st1 r e)
  then show ?thesis using ask_then_write by blast
next
  case (written st1 st2 st3 h)
  have "only_granted E st st3"
    using ask_then_write [OF written(1) refl written(2)] store_history_quiet [OF written(3)]
      quiet_only_granted only_granted_trans by blast
  then show ?thesis
    using written(4) by (auto split: option.splits intro: only_granted_same simp: record_quiet)
qed simp

lemma edit_parts_granted:
  assumes "read_to_edit E path st = (r, st1)"
  shows "only_granted E st st1"
  using read_to_edit_quiet [OF assms] by (rule quiet_only_granted)

lemma deleteContent_granted: "deleteContent E ids path old st = (a, st') \<Longrightarrow> only_granted E st st'"
  unfolding deleteContent_def
  by (auto split: prod.splits sum.splits dest: write_edit_granted edit_parts_granted
      intro: only_granted_trans)

lemma replaceContent_granted: "replaceContent E ids path old new st = (a, st') \<Longrightarrow> only_granted E st st'"
  unfolding replaceContent_def Let_def
  by (auto split: prod.splits sum.splits if_splits dest: write_edit_granted edit_parts_granted
      intro: only_granted_trans)

text \<open>Everything after the permission that neither writes files nor asks.\<close>

lemma after_write:
  assumes "only_granted E st st1" and "ask_permission E sid tool description path (fst (GenerateDiff E old content path)) st1 = (True, st2)"
    and "os_WriteFile E path content st2 = (r, st3)"
  shows "only_granted E st st3"
  using assms ask_then_write only_granted_trans by blast

lemma recorded_granted:
  "only_granted E st st1 \<Longrightarrow> quiet_step st1 st2 \<Longrightarrow>
   only_granted E st (recordFileRead E path (recordFileWrite E path st2))"
  by (rule only_granted_same [of _ st2]) (auto simp: record_quiet intro: only_granted_trans quiet_only_granted)

lemma granted_then_quiet: "only_granted E st st1 \<Longrightarrow> quiet_step st1 st2 \<Longrightarrow> only_granted E st st2"
  using quiet_only_granted only_granted_trans by blast

lemma createNewFile_granted:
  assumes "createNewFile E ids path content st = (a, st')"
  shows "only_granted E st st'"
proof -
  obtain r1 st1 where stat: "os_Stat E path st = (r1, st1)" by fastforce
  obtain r2 st2 where mk: "os_MkdirAll E (fe_Dir E path) st1 = (r2, st2)" by fastforce
  obtain d x y where diff: "GenerateDiff E [] content path = (d, x, y)" by (metis prod_cases3)
  obtain g st3 where ask: "ask_permission E (fst ids) EditToolName ''Create file '' path d st2 = (g, st3)" by fastforce
  obtain r4 st4 where w: "os_WriteFile E path content st3 = (r4, st4)" by fastforce
  obtain r5 st5 where h: "h_create E (fst ids) path [] st4 = (r5, st5)" by fastforce
  have g1: "only_granted E st st1" using stat os_Stat_quiet quiet_only_granted by blast
  then have g2: "only_granted E st st2" using mk os_MkdirAll_granted only_granted_trans by blast
  then have g3: "only_granted E st st3" using ask ask_only only_granted_trans by blast
  have g4: "only_granted E st st4" if g using after_write [OF g2, of "fst ids" _ _ path "[]" content] ask that w
    by (simp add: diff)
  have g5: "only_granted E st st5" if g using g4 [OF that] h h_create_quiet granted_then_quiet by blast
  have g6: "only_granted E st (recordFileRead E path (recordFileWrite E path (h_version E (fst ids) path content st5)))"
    if g using recorded_granted [OF g5 [OF that] h_version_quiet] .
  have fresh: "only_granted E st st'" if "r1 = StatNotExist"
  proof (cases "fst ids = [] \<or> snd ids = [] \<or> \<not> is_ok r2 \<or> \<not> g")
    case True
    then show ?thesis
      using assms that g2 g3 by (cases r2) (auto simp: createNewFile_def stat mk diff ask split: if_splits)
  next
    case False
    then obtain u where "r2 = Ok u" and g and "fst ids \<noteq> []" and "snd ids \<noteq> []" by (cases r2) auto
    then show ?thesis
      using assms that g4 g5 g6
      by (cases r4; cases r5) (simp_all add: createNewFile_def stat mk diff ask w h)
  qed
  show ?thesis
  proof (cases r1)
    case StatNotExist
    then show ?thesis by (rule fresh)
  qed (use assms g1 in \<open>simp_all add: createNewFile_def stat\<close>)
qed

lemma EditRun_granted:
  assumes "EditRun E ids input st = (a, st')"
  shows "only_granted E st st'"
proof (cases input)
  case (Some params)
  define path where "path = resolve E (ep_FilePath params)"
  let ?old = "ep_OldString params" and ?new = "ep_NewString params"
  obtain a1 st1 where one: "(if ?old = [] then createNewFile E ids path ?new st else ((NewTextResponse [], None), st)) = (a1, st1)"
    by fastforce
  obtain a2 st2 where two: "(if ?new = [] then deleteContent E ids path ?old st1 else ((NewTextResponse [], None), st1)) = (a2, st2)"
    by fastforce
  obtain resp e st3 where three: "replaceContent E ids path ?old ?new st2 = ((resp, e), st3)"
    by (metis prod.exhaust)
  have g1: "only_granted E st st1" using one createNewFile_granted by (auto split: if_splits)
  then have g2: "only_granted E st st2"
    using two deleteContent_granted only_granted_trans by (auto split: if_splits)
  then have g3: "only_granted E st st3" using three replaceContent_granted only_granted_trans by blast
  then have g4: "only_granted E st (step st3)" using granted_then_quiet quiet_step_step by blast
  show ?thesis
    using assms g1 g2 g3 g4
    by (auto simp: EditRun_def Some Let_def one two three split: if_splits option.splits simp flip: path_def)
qed (use assms in \<open>simp add: EditRun_def\<close>)

lemma check_to_write_quiet: "check_to_write E path content st = (r, st') \<Longrightarrow> quiet_step st st'"
  unfolding check_to_write_def Let_def
  by (auto split: prod.splits stat_result.splits outcome.splits if_splits
      dest!: os_Stat_quiet os_ReadFile_quiet intro: quiet_trans)

lemma write_checked_granted:
  assumes "write_checked E ids path old content st = (a, st')"
  shows "only_granted E st st'"
proof -
  obtain d x y where diff: "GenerateDiff E old content path = (d, x, y)" by (metis prod_cases3)
  obtain g st1 where ask: "ask_permission E (fst ids) WriteToolName ''Create file '' path d st = (g, st1)" by fastforce
  obtain r st2 where w: "os_WriteFile E path content st1 = (r, st2)" by fastforce
  obtain h st3 where h: "store_history E (fst ids) path old content st2 = (h, st3)" by fastforce
  have g1: "only_granted E st st1" using ask ask_only by blast
  have g2: "only_granted E st st2" if g
    using after_write [OF only_granted_refl, of E "fst ids" _ _ path old content] ask that w by (simp add: diff)
  have g3: "only_granted E st st3" if g using g2 [OF that] h store_history_quiet granted_then_quiet by blast
  have g4: "only_granted E st (step (recordFileRead E path (recordFileWrite E path st3)))" if g
    using recorded_granted [OF g3 [OF that] quiet_refl] granted_then_quiet quiet_step_step by blast
  show ?thesis
  proof (cases "fst ids = [] \<or> snd ids = [] \<or> \<not> g")
    case True
    then show ?thesis using assms g1 by (auto simp: write_checked_def diff ask split: if_splits)
  next
    case False
    then show ?thesis
      using assms g2 g3 g4 by (cases r; cases h) (simp_all add: write_checked_def diff ask w h Let_def)
  qed
qed

lemma WriteRun_granted:
  assumes "WriteRun E ids input bad st = (a, st')"
  shows "only_granted E st st'"
proof (cases "input = None \<or> wp_FilePath (the input) = [] \<or> wp_Content (the input) = []")
  case True
  then show ?thesis using assms by (auto simp: WriteRun_def split: option.splits if_splits)
next
  case False
  then obtain params where params: "input = Some params" "wp_FilePath params \<noteq> []" "wp_Content params \<noteq> []"
    by auto
  define path where "path = resolve E (wp_FilePath params)"
  obtain r1 st1 where check: "check_to_write E path (wp_Content params) st = (r1, st1)" by fastforce
  obtain r2 st2 where mk: "os_MkdirAll E (fe_Dir E path) st1 = (r2, st2)" by fastforce
  obtain r3 st3 where read: "os_ReadFile E path st2 = (r3, st3)" by fastforce
  have g1: "only_granted E st st1" using check check_to_write_quiet quiet_only_granted by blast
  then have g2: "only_granted E st st2" using mk os_MkdirAll_granted only_granted_trans by blast
  then have g3: "only_granted E st st3" using read os_ReadFile_quiet granted_then_quiet by blast
  have from2: "only_granted E st st'" if "write_checked E ids path old c st2 = (a, st')" for old c
    using g2 write_checked_granted [OF that] only_granted_trans by blast
  have from3: "only_granted E st st'" if "write_checked E ids path old c st3 = (a, st')" for old c
    using g3 write_checked_granted [OF that] only_granted_trans by blast
  have run: "WriteRun E ids input bad st = (case r1 of Inl b \<Rightarrow> (b, st1) | Inr there \<Rightarrow>
      (case r2 of Err e \<Rightarrow> (failed_answer (''error creating directory: '' @ e), st2)
       | Panic e \<Rightarrow> (failed_answer e, st2)
       | Ok _ \<Rightarrow> if there then write_checked E ids path (case r3 of Ok old \<Rightarrow> old | _ \<Rightarrow> []) (wp_Content params) st3
           else write_checked E ids path [] (wp_Content params) st2))"
    using params check mk read
    by (cases r1; cases r2; cases r3) (simp_all add: WriteRun_def Let_def flip: path_def)
  show ?thesis
    using assms g1 g2 from2 from3
    by (cases r1; cases r2) (auto simp: run split: if_splits)
qed

text \<open>
  Property C5. Neither the edit nor the write tool changes a file without a granted request for
  that file that shows the difference to exactly the content written, whatever fails and whatever
  the parameters are; and neither removes a file.
\<close>

theorem files_change_only_with_permission:
  "only_granted E st (snd (EditRun E ids input st)) \<and> only_granted E st (snd (WriteRun E ids params bad st))"
  using EditRun_granted WriteRun_granted by (metis prod.collapse)

section \<open>What an edit replaces\<close>

lemma read_to_edit_file:
  assumes "read_to_edit E path st = (Inr content, st1)"
  obtains t where "map_of (ts_Files st) path = Some (FsFile content t)"
    "getLastReadTime path st \<noteq> 0" "t \<le> getLastReadTime path st"
proof -
  have same: "getLastReadTime path (step q) = getLastReadTime path q" for q
    by (simp add: getLastReadTime_def file_record_of_def)
  show thesis
    using assms that unfolding read_to_edit_def os_Stat_def os_ReadFile_def Let_def
    by (auto simp: same split: option.splits fs_node.splits if_splits)
qed

lemma ask_fields:
  assumes "ask_permission E sid tool description path diff st = (g, st1)"
  shows "ts_Files st1 = ts_Files st" and "ts_Tick st \<le> ts_Tick st1"
    and "\<exists>req. ts_Asked st1 = ts_Asked st @ [(req, g)] \<and> wq_FilePath req = path \<and> wq_Diff req = diff"
  using assms by (auto simp: ask_permission_def Let_def)

lemma os_WriteFile_fields:
  assumes "os_WriteFile E path content st = (Ok u, st1)"
  shows "ts_Files st1 = map_put path (FsFile content (fe_Now E (ts_Tick st))) (ts_Files st)"
    and "ts_Asked st1 = ts_Asked st" and "ts_Tick st1 = Suc (ts_Tick st)"
  using assms by (auto simp: os_WriteFile_def split: option.splits)

lemma getLastReadTime_recorded:
  "getLastReadTime path (recordFileRead E path st) = fe_Now E (ts_Tick st)"
  by (simp add: getLastReadTime_def file_record_of_def recordFileRead_def map_of_put)

text \<open>A successful edit: one granted request, the write, and a read time not before its time.\<close>

lemma write_edit_success:
  assumes "write_edit E ids path description done old new ver st = ((r, None), st')"
  obtains n m req where "ts_Files st' = map_put path (FsFile new (fe_Now E n)) (ts_Files st)"
    "getLastReadTime path st' = fe_Now E m" "n \<le> m"
    "ts_Asked st' = ts_Asked st @ [(req, True)]" "wq_FilePath req = path"
    "wq_Diff req = fst (GenerateDiff E old new path)" "\<not> tr_IsError r"
  using assms
proof (cases rule: write_edit_ends)
  case (written st1 st2 st3 h)
  then have h: "h = None" and st': "st' = recordFileRead E path (recordFileWrite E path st3)"
    and r: "\<not> tr_IsError r"
    by (auto simp: failed_answer_def split: option.splits)
  have q: "quiet_step st2 st3" using store_history_quiet [OF written(3)] .
  obtain req where req: "ts_Asked st1 = ts_Asked st @ [(req, True)]" "wq_FilePath req = path"
      "wq_Diff req = fst (GenerateDiff E old new path)"
    using ask_fields(3) [OF written(1)] by blast
  show thesis
  proof (rule that [of "ts_Tick st1" "ts_Tick (recordFileWrite E path st3)" req])
    show "getLastReadTime path st' = fe_Now E (ts_Tick (recordFileWrite E path st3))"
      by (simp add: st' getLastReadTime_recorded)
    show "ts_Tick st1 \<le> ts_Tick (recordFileWrite E path st3)"
      using os_WriteFile_fields(3) [OF written(2)] q by (simp add: recordFileWrite_def quiet_step_def)
  qed (use st' q r req os_WriteFile_fields [OF written(2)] ask_fields [OF written(1)] in
      \<open>auto simp: record_quiet quiet_step_def\<close>)
qed (auto simp: failed_answer_def denied_answer_def)

lemma read_answers_error: "read_to_edit E path st = (Inl (q, None), st1) \<Longrightarrow> tr_IsError q"
  unfolding read_to_edit_def os_Stat_def os_ReadFile_def Let_def
  by (auto simp: error_answer_def failed_answer_def NewTextErrorResponse_def
      split: option.splits fs_node.splits if_splits)

lemma unique_answers_error: "unique_index c old = Inl (q, None) \<Longrightarrow> tr_IsError q"
  by (auto simp: unique_index_def error_answer_def NewTextErrorResponse_def split: option.splits if_splits)

lemma replaceContent_success:
  assumes "replaceContent E ids path old new st = ((r, None), st')" and "\<not> tr_IsError r"
  obtains content i st1 where "read_to_edit E path st = (Inr content, st1)"
    "unique_index content old = Inr i"
    "write_edit E ids path ''Replace content in file '' ''Content replaced in file: ''
       content (replace_at i old new content) (replace_at i old new content) st1 = ((r, None), st')"
proof -
  show thesis
    using assms that read_answers_error unique_answers_error unfolding replaceContent_def Let_def
    by (auto simp: error_answer_def NewTextErrorResponse_def split: prod.splits sum.splits if_splits)
qed

text \<open>The steps of a run, for evaluation.\<close>

lemma read_to_edit_now:
  assumes "\<And>n. fe_Fault E n = None" and "map_of (ts_Files st) path = Some (FsFile content t)"
    and "getLastReadTime path st \<noteq> 0" and "t \<le> getLastReadTime path st"
  shows "read_to_edit E path st = (Inr content, step (step st))"
proof -
  have same: "getLastReadTime path (step q) = getLastReadTime path q" for q
    by (simp add: getLastReadTime_def file_record_of_def)
  show ?thesis
    using assms by (simp add: read_to_edit_def os_Stat_def os_ReadFile_def Let_def same)
qed

lemma deleteContent_at:
  "read_to_edit E path st = (Inr content, st1) \<Longrightarrow> unique_index content old = Inr i \<Longrightarrow>
   deleteContent E ids path old st = write_edit E ids path ''Delete content from file ''
     ''Content deleted from file: '' content (replace_at i old [] content) [] st1"
  by (simp add: deleteContent_def)

lemma replaceContent_at:
  "read_to_edit E path st = (Inr content, st1) \<Longrightarrow> unique_index content old = Inr i \<Longrightarrow>
   content \<noteq> replace_at i old new content \<Longrightarrow>
   replaceContent E ids path old new st = write_edit E ids path ''Replace content in file ''
     ''Content replaced in file: '' content (replace_at i old new content) (replace_at i old new content) st1"
  by (simp add: replaceContent_def Let_def)

definition written_state ::
  "file_env \<Rightarrow> string \<Rightarrow> string \<Rightarrow> string \<Rightarrow> string \<Rightarrow> string \<Rightarrow> tool_state \<Rightarrow> tool_state" where
  "written_state E sid path description old new st = snd (os_WriteFile E path new
     (snd (ask_permission E sid EditToolName description path (fst (GenerateDiff E old new path)) st)))"

lemma write_edit_at:
  assumes "\<And>n. fe_Fault E n = None" and "\<And>n req. fe_Grant E n req" and "fst ids \<noteq> []" and "snd ids \<noteq> []"
    and "fst (store_history E (fst ids) path old ver (written_state E (fst ids) path description old new st)) = None"
  shows "\<exists>r. write_edit E ids path description done old new ver st = ((r, None),
      recordFileRead E path (recordFileWrite E path
        (snd (store_history E (fst ids) path old ver (written_state E (fst ids) path description old new st))))) \<and>
    \<not> tr_IsError r"
proof -
  obtain d x y where diff: "GenerateDiff E old new path = (d, x, y)" by (metis prod_cases3)
  obtain g st1 where ask: "ask_permission E (fst ids) EditToolName description path d st = (g, st1)" by fastforce
  obtain r st2 where w: "os_WriteFile E path new st1 = (r, st2)" by fastforce
  have "g" using ask assms(2) by (auto simp: ask_permission_def Let_def)
  moreover have "r = Ok ()" using w assms(1) by (auto simp: os_WriteFile_def)
  moreover have "written_state E (fst ids) path description old new st = st2"
    by (simp add: written_state_def diff ask w)
  ultimately show ?thesis
    using assms(3-5) by (auto simp: write_edit_def diff ask w NewTextResponse_def split: prod.split)
qed

lemma EditRun_replaces:
  "ep_FilePath p \<noteq> [] \<Longrightarrow> ep_OldString p \<noteq> [] \<Longrightarrow> ep_NewString p \<noteq> [] \<Longrightarrow>
   replaceContent E ids (resolve E (ep_FilePath p)) (ep_OldString p) (ep_NewString p) st = ((r, None), st1) \<Longrightarrow>
   \<not> tr_IsError r \<Longrightarrow> EditRun E ids (Some p) st = ((r\<lparr>tr_Content := ''<result>'' @ nl @ tr_Content r @ nl @
     ''</result>'' @ nl @ fe_Diagnostics E (ts_Tick st1) (resolve E (ep_FilePath p))\<rparr>, None), step st1)"
  by (simp add: EditRun_def Let_def)

lemma EditRun_deletes:
  "ep_FilePath p \<noteq> [] \<Longrightarrow> ep_OldString p \<noteq> [] \<Longrightarrow> ep_NewString p = [] \<Longrightarrow>
   deleteContent E ids (resolve E (ep_FilePath p)) (ep_OldString p) st = ((r, None), st1) \<Longrightarrow>
   replaceContent E ids (resolve E (ep_FilePath p)) (ep_OldString p) [] st1 = ((r', None), st2) \<Longrightarrow>
   ts_Files (snd (EditRun E ids (Some p) st)) = ts_Files st2 \<and>
   ts_Asked (snd (EditRun E ids (Some p) st)) = ts_Asked st2 \<and>
   ts_History (snd (EditRun E ids (Some p) st)) = ts_History st2"
  by (simp add: EditRun_def Let_def)

text \<open>
  Property C6. A replacement, which is an edit with a nonempty old text and a nonempty new text, that
  reports success replaced the only occurrence of the old text: the file was there, had been read,
  was not modified after that, contained the old text at one place only, and now has the new text
  there; no other file changed, and the one request of the edit was granted and showed this very
  change.
\<close>

theorem edit_replaces_unique_occurrence:
  assumes "EditRun E ids (Some p) st = ((resp, None), st')" and "\<not> tr_IsError resp"
    and "ep_OldString p \<noteq> []" and "ep_NewString p \<noteq> []"
  shows "\<exists>content t i t' req. map_of (ts_Files st) (resolve E (ep_FilePath p)) = Some (FsFile content t) \<and>
    getLastReadTime (resolve E (ep_FilePath p)) st \<noteq> 0 \<and> t \<le> getLastReadTime (resolve E (ep_FilePath p)) st \<and>
    (\<forall>j. occurs_at content (ep_OldString p) j \<longleftrightarrow> j = i) \<and>
    ts_Files st' = map_put (resolve E (ep_FilePath p))
      (FsFile (replace_at i (ep_OldString p) (ep_NewString p) content) t') (ts_Files st) \<and>
    ts_Asked st' = ts_Asked st @ [(req, True)] \<and> wq_FilePath req = resolve E (ep_FilePath p) \<and>
    wq_Diff req = fst (GenerateDiff E content (replace_at i (ep_OldString p) (ep_NewString p) content)
      (resolve E (ep_FilePath p)))"
proof -
  define path where "path = resolve E (ep_FilePath p)"
  have "ep_FilePath p \<noteq> []"
    using assms(1,2) by (auto simp: EditRun_def error_answer_def NewTextErrorResponse_def)
  then obtain r st1 where run: "replaceContent E ids path (ep_OldString p) (ep_NewString p) st = ((r, None), st1)"
      and r: "\<not> tr_IsError r" and st': "st' = step st1"
    using assms by (auto simp: EditRun_def Let_def split: prod.splits option.splits if_splits simp flip: path_def)
  obtain content i st2 where read: "read_to_edit E path st = (Inr content, st2)"
      and i: "unique_index content (ep_OldString p) = Inr i"
      and w: "write_edit E ids path ''Replace content in file '' ''Content replaced in file: ''
       content (replace_at i (ep_OldString p) (ep_NewString p) content)
       (replace_at i (ep_OldString p) (ep_NewString p) content) st2 = ((r, None), st1)"
    using replaceContent_success [OF run r] by blast
  have q: "quiet_step st st2" by (rule read_to_edit_quiet [OF read])
  obtain t where t: "map_of (ts_Files st) path = Some (FsFile content t)"
      "getLastReadTime path st \<noteq> 0" "t \<le> getLastReadTime path st"
    using read_to_edit_file [OF read] by blast
  obtain n m req where "ts_Files st1 = map_put path
      (FsFile (replace_at i (ep_OldString p) (ep_NewString p) content) (fe_Now E n)) (ts_Files st2)"
    "ts_Asked st1 = ts_Asked st2 @ [(req, True)]" "wq_FilePath req = path"
    "wq_Diff req = fst (GenerateDiff E content (replace_at i (ep_OldString p) (ep_NewString p) content) path)"
    using write_edit_success [OF w] by metis
  then show ?thesis
    using t q i by (simp add: st' unique_index_unique quiet_step_def flip: path_def) blast
qed

section \<open>The history of an edit\<close>

definition known_file :: "string \<Rightarrow> string \<Rightarrow> tool_state \<Rightarrow> bool" where
  "known_file sid path st \<longleftrightarrow> (\<exists>r \<in> set (hs_rows (ts_History st)). fr_Path r = path \<and> fr_SessionID r = sid)"

lemma create_attempts_grow:
  "set (hs_rows sv) \<subseteq> set (hs_rows (snd (create_attempts as sid path content v sv)))"
proof (induction as arbitrary: v)
  case (Cons a as)
  show ?case
    using Cons.IH by (auto simp: q_CreateFile_def Let_def split: option.splits if_splits)
qed simp

lemma CreateVersion_grow:
  "set (hs_rows sv) \<subseteq> set (hs_rows (snd (CreateVersion arrange fault env sid path content sv)))"
  using create_attempts_grow
  by (simp add: CreateVersion_def CreateFile_def createWithVersion_def split: outcome.split list.split)

lemma h_version_known: "known_file sid path st \<Longrightarrow> known_file sid path (h_version E sid' path' content st)"
  using CreateVersion_grow [of "ts_History st"]
  by (simp add: known_file_def h_version_def split: prod.split) (metis snd_conv subsetD)

text \<open>A file the history knows is found again, if nothing faults; then no history can fail.\<close>

lemma known_file_found:
  assumes "\<And>n. fe_Fault E n = None" and "\<And>xs. set (fe_Arrange E xs) = set xs" and "known_file sid path st"
  shows "fst (store_history E sid path old new st) = None"
proof -
  obtain f where "GetByPathAndSession (fe_Arrange E) None path sid (ts_History st) = Ok f"
    using assms(2) [of "filter (\<lambda>r. fr_Path r = path \<and> fr_SessionID r = sid) (hs_rows (ts_History st))"] assms(3)
    by (cases "fe_Arrange E (filter (\<lambda>r. fr_Path r = path \<and> fr_SessionID r = sid) (hs_rows (ts_History st)))")
      (auto simp: GetByPathAndSession_def q_GetFileByPathAndSession_def known_file_def)
  then show ?thesis by (simp add: store_history_def assms(1) Let_def)
qed

text \<open>The first version of a file, with an attempt that does not fault.\<close>

definition first_attempt_works :: "file_env \<Rightarrow> bool" where
  "first_attempt_works E \<longleftrightarrow>
     (\<forall>n. ae_begin (fe_Attempt E n 0) = None \<and> ae_create (fe_Attempt E n 0) = None \<and> ae_commit (fe_Attempt E n 0) = None)"

lemma h_create_empty:
  assumes "first_attempt_works E" and "hs_rows (ts_History st) = []" and "sid \<in> set (hs_sessions (ts_History st))"
  shows "is_ok (fst (h_create E sid path content st)) \<and> known_file sid path (snd (h_create E sid path content st))"
  using assms by (auto simp: first_attempt_works_def h_create_def CreateFile_def createWithVersion_def
      upt_rec [of 0 3] q_CreateFile_def known_file_def Let_def)

lemma store_history_empty:
  assumes "\<And>n. fe_Fault E n = None" and "\<And>xs. set (fe_Arrange E xs) = set xs" and "first_attempt_works E"
    and "hs_rows (ts_History st) = []" and "sid \<in> set (hs_sessions (ts_History st))"
  shows "fst (store_history E sid path old new st) = None \<and> known_file sid path (snd (store_history E sid path old new st))"
proof -
  have none: "GetByPathAndSession (fe_Arrange E) None path sid (ts_History st) = Err ''sql: no rows in result set''"
    using assms(2) [of "[]"] by (simp add: GetByPathAndSession_def q_GetFileByPathAndSession_def assms(4))
  obtain r q where c: "h_create E sid path old (step st) = (r, q)" by fastforce
  have "is_ok r" and "known_file sid path q"
    using h_create_empty [OF assms(3), of "step st" sid path old] assms(4,5) c by simp_all
  then show ?thesis
    by (cases r) (simp_all add: store_history_def assms(1) Let_def none c h_version_known)
qed

text \<open>The witness: a file of three letters that was read, and an environment without faults.\<close>

definition sample_tools :: file_env where
  "sample_tools = \<lparr>fe_Now = (\<lambda>n. 10 + int n), fe_Fault = (\<lambda>n. None), fe_Grant = (\<lambda>n req. True),
     fe_Attempt = (\<lambda>n k. \<lparr>ae_uid = [char_of (33 + n)], ae_dbNow = int n, ae_now = int n, ae_begin = None,
       ae_create = None, ae_commit = None\<rparr>),
     fe_Arrange = sort_by created_later, fe_IsAbs = (\<lambda>f. has_prefix f ''/''), fe_Join = (\<lambda>d f. d @ ''/'' @ f),
     fe_Dir = (\<lambda>f. ''/''), fe_Cwd = ''/w'', fe_Unified = (\<lambda>a b x y. ''-'' @ x @ nl @ ''+'' @ y),
     fe_RFC3339 = (\<lambda>t. []), fe_Metadata = (\<lambda>d x y. d), fe_Diagnostics = (\<lambda>n f. [])\<rparr>"

definition sample_files :: "string \<Rightarrow> tool_state" where
  "sample_files content = \<lparr>ts_Tick = 0, ts_Files = [(''/w/f'', FsFile content 3)],
     ts_Records = [(''/w/f'', \<lparr>fl_readTime = 5, fl_writeTime = 0\<rparr>)],
     ts_History = \<lparr>hs_sessions = [''s''], hs_rows = [], hs_events = []\<rparr>, ts_Asked = []\<rparr>"

definition sample_edit :: "string \<Rightarrow> string \<Rightarrow> edit_params option" where
  "sample_edit old new = Some \<lparr>ep_FilePath = ''f'', ep_OldString = old, ep_NewString = new\<rparr>"

abbreviation edit_sample :: "string \<Rightarrow> string \<Rightarrow> string \<Rightarrow> tool_answer \<times> tool_state" where
  "edit_sample old new content \<equiv>
     EditRun sample_tools (''s'', ''m'') (sample_edit old new) (sample_files content)"

lemma sample_read:
  "read_to_edit sample_tools ''/w/f'' (sample_files content) = (Inr content, step (step (sample_files content)))"
  by (rule read_to_edit_now [of _ _ _ _ 3])
    (simp_all add: sample_tools_def sample_files_def getLastReadTime_def file_record_of_def)

lemma sample_path: "resolve sample_tools ''f'' = ''/w/f''"
  by code_simp

lemma sample_env_facts:
  "fe_Fault sample_tools n = None" "fe_Grant sample_tools n req" "set (fe_Arrange sample_tools xs) = set xs"
  "first_attempt_works sample_tools"
  by (simp_all add: sample_tools_def first_attempt_works_def mset_sort_by
      flip: set_mset_mset)

lemma written_state_fields:
  "ts_History (written_state E sid path description old new st) = ts_History st"
  by (simp add: written_state_def os_WriteFile_def ask_permission_def Let_def split: option.split)

lemma written_state_files:
  "fe_Fault E (Suc (ts_Tick st)) = None \<Longrightarrow> ts_Files (written_state E sid path description old new st) =
     map_put path (FsFile new (fe_Now E (Suc (ts_Tick st)))) (ts_Files st)"
  by (simp add: written_state_def os_WriteFile_def ask_permission_def Let_def)

definition sample_stored :: "string \<Rightarrow> string \<Rightarrow> string \<Rightarrow> string \<Rightarrow> tool_state \<Rightarrow> string option \<times> tool_state" where
  "sample_stored description old new ver st = store_history sample_tools ''s'' ''/w/f'' old ver
     (written_state sample_tools ''s'' ''/w/f'' description old new st)"

lemma sample_stored_ok:
  assumes "hs_rows (ts_History st) = [] \<and> ''s'' \<in> set (hs_sessions (ts_History st)) \<or> known_file ''s'' ''/w/f'' st"
  shows "fst (sample_stored description old new ver st) = None"
  using assms
proof
  assume "known_file ''s'' ''/w/f'' st"
  then have "known_file ''s'' ''/w/f'' (written_state sample_tools ''s'' ''/w/f'' description old new st)"
    by (simp add: known_file_def written_state_fields)
  then show ?thesis using known_file_found sample_env_facts by (simp add: sample_stored_def)
qed (use store_history_empty sample_env_facts in \<open>simp add: sample_stored_def written_state_fields\<close>)

lemma sample_stored_known:
  assumes "hs_rows (ts_History st) = []" and "''s'' \<in> set (hs_sessions (ts_History st))"
  shows "known_file ''s'' ''/w/f'' (snd (sample_stored description old new ver st))"
  using assms store_history_empty [of sample_tools] sample_env_facts
  by (auto simp: sample_stored_def written_state_fields)

lemma sample_write:
  assumes "hs_rows (ts_History st) = [] \<and> ''s'' \<in> set (hs_sessions (ts_History st)) \<or> known_file ''s'' ''/w/f'' st"
  shows "\<exists>r. write_edit sample_tools (''s'', ''m'') ''/w/f'' description done old new ver st = ((r, None),
      recordFileRead sample_tools ''/w/f'' (recordFileWrite sample_tools ''/w/f''
        (snd (sample_stored description old new ver st)))) \<and> \<not> tr_IsError r"
  using write_edit_at [of sample_tools "(''s'', ''m'')"] sample_env_facts sample_stored_ok [OF assms]
  by (simp add: sample_stored_def)

lemma sample_no_history: "hs_rows (ts_History (step (step (sample_files content)))) = [] \<and>
    ''s'' \<in> set (hs_sessions (ts_History (step (step (sample_files content)))))"
  by (simp add: sample_files_def)

lemma sample_replacement:
  obtains resp st' where "edit_sample ''b'' ''xy'' ''abc'' = ((resp, None), st')" "\<not> tr_IsError resp"
proof -
  have "unique_index ''abc'' ''b'' = Inr 1" and "''abc'' \<noteq> replace_at 1 ''b'' ''xy'' ''abc''" by code_simp+
  then have "replaceContent sample_tools (''s'', ''m'') ''/w/f'' ''b'' ''xy'' (sample_files ''abc'') =
      write_edit sample_tools (''s'', ''m'') ''/w/f'' ''Replace content in file '' ''Content replaced in file: ''
        ''abc'' (replace_at 1 ''b'' ''xy'' ''abc'') (replace_at 1 ''b'' ''xy'' ''abc'') (step (step (sample_files ''abc'')))"
    by (rule replaceContent_at [OF sample_read])
  then obtain r st1 where "replaceContent sample_tools (''s'', ''m'') ''/w/f'' ''b'' ''xy'' (sample_files ''abc'') =
      ((r, None), st1)" and "\<not> tr_IsError r"
    using sample_write [OF disjI1, OF sample_no_history] by metis
  then show thesis
    using EditRun_replaces [of "\<lparr>ep_FilePath = ''f'', ep_OldString = ''b'', ep_NewString = ''xy''\<rparr>" sample_tools]
      that by (simp add: sample_edit_def sample_path)
qed

theorem edit_replaces_unique_occurrence_witness:
  "\<exists>content t i t' req. map_of (ts_Files (sample_files ''abc'')) ''/w/f'' = Some (FsFile content t) \<and>
    getLastReadTime ''/w/f'' (sample_files ''abc'') \<noteq> 0 \<and> t \<le> getLastReadTime ''/w/f'' (sample_files ''abc'') \<and>
    (\<forall>j. occurs_at content ''b'' j \<longleftrightarrow> j = i) \<and>
    ts_Files (snd (edit_sample ''b'' ''xy'' ''abc'')) =
      map_put ''/w/f'' (FsFile (replace_at i ''b'' ''xy'' content) t') (ts_Files (sample_files ''abc'')) \<and>
    ts_Asked (snd (edit_sample ''b'' ''xy'' ''abc'')) = ts_Asked (sample_files ''abc'') @ [(req, True)] \<and>
    wq_FilePath req = ''/w/f'' \<and>
    wq_Diff req = fst (GenerateDiff sample_tools content (replace_at i ''b'' ''xy'' content) ''/w/f'')"
proof -
  obtain resp st' where run: "edit_sample ''b'' ''xy'' ''abc'' = ((resp, None), st')" and ok: "\<not> tr_IsError resp"
    by (rule sample_replacement)
  show ?thesis
    using edit_replaces_unique_occurrence [OF run [unfolded sample_edit_def] ok] run
    by (simp add: sample_path)
qed

section \<open>Deletions\<close>

text \<open>
  \<open>Run\<close> does not return after a deletion: the replacement runs on the new content, looks for the
  deleted text there, and its answer is the answer of the tool.
\<close>

text \<open>
  With no faults and a clock that does not run backwards, a deletion of text that does
  not occur in what remains is done, and is answered as one that did not find the text.
\<close>

theorem deletion_answers_not_found:
  assumes "\<And>n. fe_Fault E n = None" and "\<And>n. fe_Now E n \<noteq> 0" and "mono (fe_Now E)"
    and "ep_OldString p \<noteq> []" and "ep_NewString p = []" and "ep_FilePath p \<noteq> []"
    and "deleteContent E ids (resolve E (ep_FilePath p)) (ep_OldString p) st = ((r, None), st1)" and "\<not> tr_IsError r"
    and "map_of (ts_Files st1) (resolve E (ep_FilePath p)) = Some (FsFile rest t)"
    and "\<And>j. \<not> occurs_at rest (ep_OldString p) j"
  shows "fst (EditRun E ids (Some p) st) = error_answer
      ''old_string not found in file. Make sure it matches exactly, including whitespace and line breaks'' \<and>
    ts_Files (snd (EditRun E ids (Some p) st)) = ts_Files st1"
proof -
  define path where "path = resolve E (ep_FilePath p)"
  have "\<exists>old i st0. write_edit E ids path ''Delete content from file '' ''Content deleted from file: ''
      old (replace_at i (ep_OldString p) [] old) [] st0 = ((r, None), st1)"
    using assms(7,8) unfolding deleteContent_def path_def [symmetric]
    by (auto simp: read_to_edit_def unique_index_def error_answer_def failed_answer_def NewTextErrorResponse_def Let_def
        split: prod.splits sum.splits stat_result.splits outcome.splits option.splits if_splits)
  then obtain old i st0 where "write_edit E ids path ''Delete content from file '' ''Content deleted from file: ''
      old (replace_at i (ep_OldString p) [] old) [] st0 = ((r, None), st1)" by blast
  then obtain n m req where files: "ts_Files st1 = map_put path
        (FsFile (replace_at i (ep_OldString p) [] old) (fe_Now E n)) (ts_Files st0)"
      and read: "getLastReadTime path st1 = fe_Now E m" and "n \<le> m"
    using write_edit_success by metis
  then have "t = fe_Now E n" and le: "fe_Now E n \<le> fe_Now E m"
    using assms(9) monoD [OF assms(3)] by (auto simp: map_of_put simp flip: path_def)
  then have again: "read_to_edit E path st1 = (Inr rest, step (step st1))"
    using read_to_edit_now [of E st1 path rest t] assms(1,2,9) read by (simp add: path_def)
  have none: "index_str rest (ep_OldString p) = None" using assms(10) by (simp add: index_str_None)
  have replace: "replaceContent E ids path (ep_OldString p) [] st1 = (error_answer
      ''old_string not found in file. Make sure it matches exactly, including whitespace and line breaks'',
      step (step st1))"
    by (simp add: replaceContent_def again unique_index_def none)
  have "EditRun E ids (Some p) st = (error_answer
      ''old_string not found in file. Make sure it matches exactly, including whitespace and line breaks'',
      step (step st1))"
    using assms(4-7) replace
    by (simp add: EditRun_def Let_def error_answer_def NewTextErrorResponse_def flip: path_def)
  then show ?thesis by simp
qed

text \<open>The witness deletes the middle of three letters; the history then holds an empty version.\<close>

definition after_deletion :: "string \<Rightarrow> string \<Rightarrow> tool_state" where
  "after_deletion content rest = recordFileRead sample_tools ''/w/f'' (recordFileWrite sample_tools ''/w/f''
     (snd (sample_stored ''Delete content from file '' content rest [] (step (step (sample_files content))))))"

lemma sample_deletion:
  assumes "unique_index content old = Inr i" and "replace_at i old [] content = rest"
  shows "\<exists>r. deleteContent sample_tools (''s'', ''m'') ''/w/f'' old (sample_files content) =
    ((r, None), after_deletion content rest) \<and> \<not> tr_IsError r"
  using sample_write [OF disjI1, OF sample_no_history]
  unfolding deleteContent_at [OF sample_read assms(1)] after_deletion_def assms(2) .

lemma sample_stored_files:
  "ts_Files (snd (sample_stored description old new ver st)) =
     map_put ''/w/f'' (FsFile new (11 + int (ts_Tick st))) (ts_Files st)"
proof -
  obtain h st1 where run: "store_history sample_tools ''s'' ''/w/f'' old ver
      (written_state sample_tools ''s'' ''/w/f'' description old new st) = (h, st1)" by fastforce
  have "fe_Now sample_tools (Suc (ts_Tick st)) = 11 + int (ts_Tick st)" by (simp add: sample_tools_def)
  then show ?thesis
    using store_history_quiet [OF run] written_state_files [OF sample_env_facts(1)]
    by (simp add: sample_stored_def run quiet_step_def)
qed

lemma after_deletion_file:
  "ts_Files (after_deletion content rest) = [(''/w/f'', FsFile rest 13)]"
  by (simp add: after_deletion_def record_quiet sample_stored_files sample_files_def)

lemma sample_stored_tick: "ts_Tick st \<le> ts_Tick (snd (sample_stored description old new ver st))"
proof -
  obtain h st1 where run: "store_history sample_tools ''s'' ''/w/f'' old ver
      (written_state sample_tools ''s'' ''/w/f'' description old new st) = (h, st1)" by fastforce
  have "ts_Tick st \<le> ts_Tick (written_state sample_tools ''s'' ''/w/f'' description old new st)"
    by (simp add: written_state_def ask_permission_def os_WriteFile_def Let_def split: option.split)
  then show ?thesis using store_history_quiet [OF run] by (simp add: sample_stored_def run quiet_step_def)
qed

lemma after_deletion_time: "13 \<le> getLastReadTime ''/w/f'' (after_deletion content rest)"
proof -
  have "2 \<le> ts_Tick (snd (sample_stored ''Delete content from file '' content rest [] (step (step (sample_files content)))))"
    by (rule order_trans [OF _ sample_stored_tick]) (simp add: sample_files_def)
  then show ?thesis
    by (simp add: after_deletion_def getLastReadTime_recorded recordFileWrite_def sample_tools_def)
qed

lemma after_deletion_known:
  "known_file ''s'' ''/w/f'' (step (step (after_deletion content rest)))"
  using sample_stored_known [OF sample_no_history [THEN conjunct1] sample_no_history [THEN conjunct2]]
  by (simp add: known_file_def after_deletion_def recordFileRead_def recordFileWrite_def)

lemma sample_cut: "unique_index ''abc'' ''b'' = Inr 1" "replace_at 1 ''b'' [] ''abc'' = ''ac''"
  by code_simp+

theorem deletion_answers_not_found_witness:
  "fst (edit_sample ''b'' [] ''abc'') = error_answer
      ''old_string not found in file. Make sure it matches exactly, including whitespace and line breaks'' \<and>
   ts_Files (snd (edit_sample ''b'' [] ''abc'')) = [(''/w/f'', FsFile ''ac'' 13)]"
proof -
  let ?p = "\<lparr>ep_FilePath = ''f'', ep_OldString = ''b'', ep_NewString = []\<rparr>"
  obtain r where del: "deleteContent sample_tools (''s'', ''m'') (resolve sample_tools (ep_FilePath ?p))
      (ep_OldString ?p) (sample_files ''abc'') = ((r, None), after_deletion ''abc'' ''ac'')" and r: "\<not> tr_IsError r"
    using sample_deletion [of "''abc''" "''b''" 1 "''ac''"] sample_cut by (auto simp: sample_path)
  have gone: "\<not> occurs_at ''ac'' (ep_OldString ?p) j" for j
  proof -
    have "index_str ''ac'' ''b'' = None" by code_simp
    then show ?thesis unfolding index_str_None by simp
  qed
  have rest: "map_of (ts_Files (after_deletion ''abc'' ''ac'')) (resolve sample_tools (ep_FilePath ?p)) =
      Some (FsFile ''ac'' 13)"
    by (simp add: after_deletion_file sample_path)
  show ?thesis
    using deletion_answers_not_found [OF _ _ _ _ _ _ del r rest gone]
    by (simp add: after_deletion_file sample_edit_def sample_tools_def mono_def)
qed

text \<open>What two readings in a row see.\<close>

lemma read_to_edit_again:
  assumes "read_to_edit E path st = (Inl (r, None), st1)" and "read_to_edit E path st1 = (Inr content, st2)"
  shows False
  using assms unfolding read_to_edit_def os_Stat_def os_ReadFile_def getLastReadTime_def file_record_of_def Let_def
  by (auto simp: error_answer_def failed_answer_def split: option.splits fs_node.splits if_splits)

lemma read_to_edit_same:
  assumes "read_to_edit E path st = (Inr content, st1)" and "read_to_edit E path st1 = (Inr content', st2)"
  shows "content' = content"
  using assms unfolding read_to_edit_def os_Stat_def os_ReadFile_def Let_def
  by (auto split: option.splits fs_node.splits if_splits)

text \<open>A deletion that was not done leaves nothing for the replacement to do.\<close>

lemma failed_deletion_fails_again:
  assumes "deleteContent E ids path old st = ((r, None), st1)" and "tr_IsError r"
    and "replaceContent E ids path old [] st1 = ((r', None), st2)" and "\<not> tr_IsError r'"
  shows False
proof -
  obtain content i st3 where again: "read_to_edit E path st1 = (Inr content, st3)"
      and i: "unique_index content old = Inr i"
    using replaceContent_success [OF assms(3,4)] by blast
  obtain a st4 where read: "read_to_edit E path st = (a, st4)" by fastforce
  show False
  proof (cases a)
    case (Inl b)
    then have "read_to_edit E path st = (Inl (r, None), st1)"
      using assms(1) read by (simp add: deleteContent_def)
    then show False using again by (rule read_to_edit_again)
  next
    case (Inr c)
    show False
    proof (cases "unique_index c old")
      case (Inl b)
      then have "st1 = st4" using assms(1) read \<open>a = Inr c\<close> by (simp add: deleteContent_def)
      then show False using read_to_edit_same [of E path st c st4] read Inr again i Inl by auto
    next
      case (Inr j)
      then show False
        using assms(1,2) deleteContent_at [of E path st c st4 old j ids] read \<open>a = Inr c\<close> write_edit_success
        by metis
    qed
  qed
qed

text \<open>
  A deletion that reports success has deleted the text twice: the only occurrence in
  the file, and the only occurrence in what remained.
\<close>

theorem deletion_success_deletes_twice:
  assumes "EditRun E ids (Some p) st = ((resp, None), st')" and "\<not> tr_IsError resp"
    and "ep_OldString p \<noteq> []" and "ep_NewString p = []"
  shows "\<exists>content t i j t'. map_of (ts_Files st) (resolve E (ep_FilePath p)) = Some (FsFile content t) \<and>
    (\<forall>k. occurs_at content (ep_OldString p) k \<longleftrightarrow> k = i) \<and>
    (\<forall>k. occurs_at (replace_at i (ep_OldString p) [] content) (ep_OldString p) k \<longleftrightarrow> k = j) \<and>
    map_of (ts_Files st') (resolve E (ep_FilePath p)) =
      Some (FsFile (replace_at j (ep_OldString p) [] (replace_at i (ep_OldString p) [] content)) t')"
proof -
  define path where "path = resolve E (ep_FilePath p)"
  let ?old = "ep_OldString p"
  have "ep_FilePath p \<noteq> []"
    using assms(1,2) by (auto simp: EditRun_def error_answer_def NewTextErrorResponse_def)
  then obtain r st1 r' st2 where del: "deleteContent E ids path ?old st = ((r, None), st1)"
      and rep: "replaceContent E ids path ?old [] st1 = ((r', None), st2)"
      and r': "\<not> tr_IsError r'" and st': "st' = step st2"
    using assms by (auto simp: EditRun_def Let_def split: prod.splits option.splits if_splits simp flip: path_def)
  have r: "\<not> tr_IsError r" using failed_deletion_fails_again [OF del _ rep r'] by blast
  obtain a st3 where read: "read_to_edit E path st = (a, st3)" by fastforce
  obtain content where a: "a = Inr content"
    using del r read read_answers_error by (cases a) (auto simp: deleteContent_def)
  obtain i where i: "unique_index content ?old = Inr i"
    using del r read a unique_answers_error by (cases "unique_index content ?old") (auto simp: deleteContent_def)
  obtain n where files: "ts_Files st1 = map_put path (FsFile (replace_at i ?old [] content) (fe_Now E n)) (ts_Files st3)"
    using del deleteContent_at [OF read [unfolded a] i] write_edit_success by metis
  obtain content' j st4 where read': "read_to_edit E path st1 = (Inr content', st4)"
      and j: "unique_index content' ?old = Inr j"
      and w: "write_edit E ids path ''Replace content in file '' ''Content replaced in file: ''
        content' (replace_at j ?old [] content') (replace_at j ?old [] content') st4 = ((r', None), st2)"
    using replaceContent_success [OF rep r'] by blast
  have "content' = replace_at i ?old [] content"
    using read_to_edit_file [OF read'] files by (auto simp: map_of_put)
  moreover obtain t where "map_of (ts_Files st) path = Some (FsFile content t)"
    using read_to_edit_file [OF read [unfolded a]] by blast
  moreover obtain m where "ts_Files st2 = map_put path (FsFile (replace_at j ?old [] content') (fe_Now E m)) (ts_Files st4)"
    using write_edit_success [OF w] by metis
  ultimately show ?thesis
    using i j by (simp add: unique_index_unique st' map_of_put flip: path_def) blast
qed

text \<open>The witness deletes from a file of four letters a text that they contain once.\<close>

lemma sample_twice:
  obtains resp st' where "edit_sample ''ab'' [] ''aabb'' = ((resp, None), st')" "\<not> tr_IsError resp"
proof -
  let ?p = "\<lparr>ep_FilePath = ''f'', ep_OldString = ''ab'', ep_NewString = []\<rparr>"
  have cut: "unique_index ''aabb'' ''ab'' = Inr 1" "replace_at 1 ''ab'' [] ''aabb'' = ''ab''"
      "unique_index ''ab'' ''ab'' = Inr 0" "''ab'' \<noteq> replace_at 0 ''ab'' [] ''ab''" by code_simp+
  obtain r where del: "deleteContent sample_tools (''s'', ''m'') ''/w/f'' ''ab'' (sample_files ''aabb'') =
      ((r, None), after_deletion ''aabb'' ''ab'')"
    using sample_deletion [OF cut(1,2)] by blast
  have "read_to_edit sample_tools ''/w/f'' (after_deletion ''aabb'' ''ab'') =
      (Inr ''ab'', step (step (after_deletion ''aabb'' ''ab'')))"
  proof (rule read_to_edit_now [of _ _ _ _ 13])
    show "map_of (ts_Files (after_deletion ''aabb'' ''ab'')) ''/w/f'' = Some (FsFile ''ab'' 13)"
      by (simp add: after_deletion_file)
    show "getLastReadTime ''/w/f'' (after_deletion ''aabb'' ''ab'') \<noteq> 0"
      and "13 \<le> getLastReadTime ''/w/f'' (after_deletion ''aabb'' ''ab'')"
      using after_deletion_time [of "''aabb''" "''ab''"] by simp_all
  qed (rule sample_env_facts)
  from replaceContent_at [OF this cut(3,4)]
  have rep: "replaceContent sample_tools (''s'', ''m'') ''/w/f'' ''ab'' [] (after_deletion ''aabb'' ''ab'') =
      write_edit sample_tools (''s'', ''m'') ''/w/f'' ''Replace content in file '' ''Content replaced in file: ''
        ''ab'' (replace_at 0 ''ab'' [] ''ab'') (replace_at 0 ''ab'' [] ''ab'') (step (step (after_deletion ''aabb'' ''ab'')))" .
  then obtain r' st' where "replaceContent sample_tools (''s'', ''m'') ''/w/f'' ''ab'' [] (after_deletion ''aabb'' ''ab'') =
      ((r', None), st')" "\<not> tr_IsError r'"
    using sample_write [OF disjI2, OF after_deletion_known] by metis
  then show thesis
    using that del by (simp add: EditRun_def sample_edit_def sample_path Let_def)
qed

theorem deletion_success_deletes_twice_witness:
  "\<exists>content t i j t'. map_of (ts_Files (sample_files ''aabb'')) ''/w/f'' = Some (FsFile content t) \<and>
    (\<forall>k. occurs_at content ''ab'' k \<longleftrightarrow> k = i) \<and> (\<forall>k. occurs_at (replace_at i ''ab'' [] content) ''ab'' k \<longleftrightarrow> k = j) \<and>
    map_of (ts_Files (snd (edit_sample ''ab'' [] ''aabb''))) ''/w/f'' =
      Some (FsFile (replace_at j ''ab'' [] (replace_at i ''ab'' [] content)) t')"
proof -
  obtain resp st' where run: "edit_sample ''ab'' [] ''aabb'' = ((resp, None), st')" and ok: "\<not> tr_IsError resp"
    by (rule sample_twice)
  show ?thesis
    using deletion_success_deletes_twice [OF run [unfolded sample_edit_def] ok] run
    by (simp add: sample_path)
qed

end
