(* ===== verification/Patch_Tool_Properties.thy ===== *)
theory Patch_Tool_Properties
  imports Patch_Tool File_Tool_Properties
begin

text \<open>
  The patch tool as a client of the commit writer: its two file functions satisfy the contract
  \<open>file_store\<close>, so a patch that reports success has the effect of its commit on the contents of the
  files, and no file changes before every change of the commit was granted.
\<close>

section \<open>The contents of the files\<close>

definition tool_contents :: "tool_state \<Rightarrow> string \<Rightarrow> string option" where
  "tool_contents st p = (case map_of (ts_Files st) p of Some (FsFile c t) \<Rightarrow> Some c | _ \<Rightarrow> None)"

lemma contents_same: "ts_Files st' = ts_Files st \<Longrightarrow> tool_contents st' = tool_contents st"
  by (rule ext) (simp add: tool_contents_def)

lemma os_MkdirAll_contents: "os_MkdirAll E dir st = (r, st') \<Longrightarrow> tool_contents st' = tool_contents st"
  by (rule ext) (auto simp: os_MkdirAll_def tool_contents_def map_of_put split: option.splits if_splits)

lemma os_WriteFile_contents:
  "os_WriteFile E path content st = (Ok u, st') \<Longrightarrow> tool_contents st' = (tool_contents st)(path \<mapsto> content)"
  "os_WriteFile E path content st = (Err e, st') \<Longrightarrow> tool_contents st' = tool_contents st"
  "os_WriteFile E path content st = (Panic e, st') \<Longrightarrow> tool_contents st' = tool_contents st"
  by (auto simp: os_WriteFile_def tool_contents_def map_of_put fun_eq_iff split: option.splits)

lemma os_Remove_contents:
  "os_Remove E path st = (Ok u, st') \<Longrightarrow> tool_contents st' = (tool_contents st)(path := None)"
  "os_Remove E path st = (Err e, st') \<Longrightarrow> tool_contents st' = tool_contents st"
  "os_Remove E path st = (Panic e, st') \<Longrightarrow> tool_contents st' = tool_contents st"
  by (auto simp: os_Remove_def tool_contents_def delete_conv' fun_eq_iff split: option.splits if_splits)

interpretation tool_files: file_store tool_contents "write_path E" "remove_path E" for E
  by unfold_locales
    (auto simp: write_path_def remove_path_def split: prod.splits outcome.splits
      dest!: os_MkdirAll_contents os_WriteFile_contents os_Remove_contents)

section \<open>Resolved commits\<close>

definition resolve_change :: "file_env \<Rightarrow> file_change \<Rightarrow> file_change" where
  "resolve_change E change = change\<lparr>fc_MovePath := map_option (resolve E) (fc_MovePath change)\<rparr>"

definition resolve_commit :: "file_env \<Rightarrow> commit \<Rightarrow> commit" where
  "resolve_commit E = map (\<lambda>(p, change). (resolve E p, resolve_change E change))"

lemma apply_change_resolved:
  "apply_change (\<lambda>p. W (resolve E p)) (\<lambda>p. R (resolve E p)) p change w = (w', None) \<Longrightarrow>
   apply_change W R (resolve E p) (resolve_change E change) w = (w', None)"
  by (auto simp: apply_change_def resolve_change_def split: patch_kind.splits option.splits prod.splits)

lemma ApplyCommit_resolved:
  "ApplyCommit c (\<lambda>p. W (resolve E p)) (\<lambda>p. R (resolve E p)) w = (w', None) \<Longrightarrow>
   ApplyCommit (resolve_commit E c) W R w = (w', None)"
proof (induction c arbitrary: w)
  case (Cons pc c)
  obtain p change where pc: "pc = (p, change)" by (cases pc)
  obtain w1 where w1: "apply_change (\<lambda>p. W (resolve E p)) (\<lambda>p. R (resolve E p)) p change w = (w1, None)"
      and rest: "ApplyCommit c (\<lambda>p. W (resolve E p)) (\<lambda>p. R (resolve E p)) w1 = (w', None)"
    using Cons.prems by (auto simp: pc split: prod.splits option.splits)
  show ?case
    using apply_change_resolved [OF w1] Cons.IH [OF rest] by (simp add: pc resolve_commit_def)
qed (simp add: resolve_commit_def)

lemma apply_commit_contents:
  "apply_commit E c st = (st', None) \<Longrightarrow>
   tool_contents st' = commit_effect (resolve_commit E c) (tool_contents st)"
  unfolding apply_commit_def by (rule tool_files.apply_commit_effect [OF ApplyCommit_resolved])

section \<open>Steps that write nothing\<close>

lemma check_needed_quiet: "check_needed E p st = (r, st') \<Longrightarrow> quiet_step st st'"
  unfolding check_needed_def Let_def
  by (auto split: prod.splits stat_result.splits if_splits dest: os_Stat_quiet)

lemma check_added_quiet: "check_added E p st = (r, st') \<Longrightarrow> quiet_step st st'"
  unfolding check_added_def Let_def
  by (auto split: prod.splits stat_result.splits if_splits dest: os_Stat_quiet)

lemma check_all_quiet:
  assumes "\<And>p st r st'. check p st = (r, st') \<Longrightarrow> quiet_step st st'"
  shows "check_all check ps st = (r, st') \<Longrightarrow> quiet_step st st'"
proof (induction ps arbitrary: st)
  case (Cons p ps)
  obtain a st1 where "check p st = (a, st1)" by fastforce
  then show ?case
    using Cons assms [of p st] by (auto split: option.splits intro: quiet_trans)
qed simp

lemma load_all_quiet: "load_all E ps files st = (r, st') \<Longrightarrow> quiet_step st st'"
proof (induction ps arbitrary: files st)
  case (Cons p ps)
  obtain a st1 where "os_ReadFile E (resolve E p) st = (a, st1)" by fastforce
  then show ?case
    using Cons os_ReadFile_quiet [of E "resolve E p" st a st1]
    by (cases a) (auto intro: quiet_trans)
qed simp

text \<open>What is loaded is what the files hold.\<close>

definition loaded :: "file_env \<Rightarrow> tool_state \<Rightarrow> (string, string) gomap \<Rightarrow> bool" where
  "loaded E st files \<longleftrightarrow> (\<forall>p c. map_of files p = Some c \<longrightarrow> tool_contents st (resolve E p) = Some c)"

lemma loaded_put:
  "loaded E st files \<Longrightarrow> tool_contents st (resolve E p) = Some c \<Longrightarrow> loaded E st (map_put p c files)"
  by (simp add: loaded_def map_of_put)

lemma loaded_same: "tool_contents st' = tool_contents st \<Longrightarrow> loaded E st' files \<longleftrightarrow> loaded E st files"
  by (simp add: loaded_def)

lemma os_ReadFile_content:
  "os_ReadFile E path st = (Ok content, st') \<Longrightarrow> tool_contents st path = Some content"
  by (auto simp: os_ReadFile_def tool_contents_def split: option.splits fs_node.splits)

lemma load_all_contents:
  "load_all E ps files st = (Inr files', st') \<Longrightarrow> loaded E st files \<Longrightarrow> loaded E st files'"
proof (induction ps arbitrary: files st)
  case (Cons q ps)
  obtain content st1 where read: "os_ReadFile E (resolve E q) st = (Ok content, st1)"
      and rest: "load_all E ps (map_put q content files) st1 = (Inr files', st')"
    using Cons.prems(1) by (auto split: prod.splits outcome.splits)
  have same: "tool_contents st1 = tool_contents st"
    using os_ReadFile_quiet [OF read] by (intro contents_same) (simp add: quiet_step_def)
  have "loaded E st1 (map_put q content files)"
    unfolding loaded_same [OF same]
    using Cons.prems(2) os_ReadFile_content [OF read] by (rule loaded_put)
  then have "loaded E st1 files'" by (rule Cons.IH [OF rest])
  then show ?case unfolding loaded_same [OF same] .
qed simp

text \<open>The requests: all of them and granted, or up to the first that is denied.\<close>

definition granted_requests :: "file_env \<Rightarrow> string \<Rightarrow> commit \<Rightarrow> (write_request \<times> bool) list" where
  "granted_requests E sid = map (\<lambda>(p, change). (change_request E sid p change, True))"

lemma ask_changes_files: "ask_changes E sid c st = (r, st') \<Longrightarrow> ts_Files st' = ts_Files st"
proof (induction c arbitrary: st)
  case (Cons pc c)
  then show ?case by (cases pc) (force simp: Let_def split: if_splits)
qed simp

lemma ask_changes_granted:
  "ask_changes E sid c st = (Ok True, st') \<Longrightarrow> ts_Asked st' = ts_Asked st @ granted_requests E sid c"
proof (induction c arbitrary: st)
  case (Cons pc c)
  then show ?case by (cases pc) (force simp: granted_requests_def Let_def split: if_splits)
qed (simp add: granted_requests_def)

lemma update_history_quiet:
  "ts_Files (update_history E sid path change st) = ts_Files st \<and>
   ts_Asked (update_history E sid path change st) = ts_Asked st"
proof -
  have h: "ts_Files (h_version E sid path content q) = ts_Files q \<and> ts_Asked (h_version E sid path content q) = ts_Asked q"
    for content q using h_version_quiet [of q E sid path content] by (simp add: quiet_step_def)
  have c: "ts_Files q' = ts_Files q \<and> ts_Asked q' = ts_Asked q"
    if "h_create E sid path content q = (r, q')" for content q r q'
    using h_create_quiet [OF that] by (simp add: quiet_step_def)
  show ?thesis
    by (auto simp: update_history_def Let_def record_quiet h split: prod.split dest: c)
qed

lemma record_changes_quiet:
  "record_changes E sid c st = (r, st') \<Longrightarrow> ts_Files st' = ts_Files st \<and> ts_Asked st' = ts_Asked st"
proof (induction c arbitrary: st r)
  case (Cons pc c)
  obtain p change where pc: "pc = (p, change)" by (cases pc)
  obtain r1 st1 where "record_changes E sid c (update_history E sid (resolve E p) change st) = (r1, st1)" by fastforce
  then show ?case
    using Cons update_history_quiet [of E sid "resolve E p" change st]
    by (auto simp: pc Let_def split: prod.splits)
qed simp

section \<open>Runs\<close>

definition reports_failure :: "tool_answer run \<Rightarrow> bool" where
  "reports_failure r \<longleftrightarrow>
     (case r of Returned (a, e) \<Rightarrow> tr_IsError a \<or> e \<noteq> None | Panicked e \<Rightarrow> True)"

lemma reports_failure_simps [simp]:
  "reports_failure (Returned (error_answer e))" "reports_failure (Returned (failed_answer e))"
  "reports_failure (Returned denied_answer)" "reports_failure (Panicked e)"
  by (simp_all add: reports_failure_def error_answer_def failed_answer_def denied_answer_def NewTextErrorResponse_def)

definition answers_failure :: "tool_answer \<Rightarrow> bool" where
  "answers_failure a \<longleftrightarrow> reports_failure (Returned a)"

lemma check_needed_failure: "check_needed E p st = (Some a, st') \<Longrightarrow> answers_failure a"
  by (auto simp: check_needed_def answers_failure_def Let_def split: prod.splits stat_result.splits if_splits)

lemma check_added_failure: "check_added E p st = (Some a, st') \<Longrightarrow> answers_failure a"
  by (auto simp: check_added_def answers_failure_def Let_def split: prod.splits stat_result.splits if_splits)

lemma check_all_failure:
  assumes "\<And>p st a st'. check p st = (Some a, st') \<Longrightarrow> answers_failure a"
  shows "check_all check ps st = (Some a, st') \<Longrightarrow> answers_failure a"
  by (induction ps arbitrary: st) (auto dest: assms split: prod.splits option.splits)

lemma load_all_failure: "load_all E ps files st = (Inl a, st') \<Longrightarrow> answers_failure a"
  by (induction ps arbitrary: files st) (auto simp: answers_failure_def split: prod.splits outcome.splits)

text \<open>A run fails before it has a commit and changed nothing, or runs the commit of its patch.\<close>

definition commit_of_patch ::
  "nat \<Rightarrow> file_env \<Rightarrow> string \<Rightarrow> tool_state \<Rightarrow> (string, string) gomap \<Rightarrow> commit \<Rightarrow> bool" where
  "commit_of_patch fuel E patchText st files commit \<longleftrightarrow> loaded E st files \<and>
     (\<exists>patch fuzz. TextToPatch fuel patchText files = Some (Ok (patch, fuzz)) \<and> fuzz \<le> 3 \<and>
        PatchToCommit patch files = Ok commit)"

lemma PatchRun_parts:
  assumes "PatchRun fuel E P ids input st = Some (r, st')"
  obtains (failed) "quiet_step st st'" "reports_failure r"
  | (committed) patchText files commit st1 where "input = Some patchText" "quiet_step st st1"
      "commit_of_patch fuel E patchText st files commit" "run_commit E P ids commit st1 = (r, st')"
proof (cases "input = None \<or> input = Some []")
  case True
  then show thesis using assms failed by (auto simp: PatchRun_def)
next
  case False
  then obtain patchText where input: "input = Some patchText" "patchText \<noteq> []" by auto
  define needed where "needed = IdentifyFilesNeeded (pe_Needed P) patchText"
  obtain c1 st1 where check1: "check_all (check_needed E) needed st = (c1, st1)" by fastforce
  obtain c2 st2 where check2: "check_all (check_added E) (IdentifyFilesAdded (pe_Added P) patchText) st1 = (c2, st2)"
    by fastforce
  obtain l st3 where load: "load_all E needed [] st2 = (l, st3)" by fastforce
  have q1: "quiet_step st st1" by (rule check_all_quiet [OF _ check1]) (rule check_needed_quiet)
  have "quiet_step st1 st2" by (rule check_all_quiet [OF _ check2]) (rule check_added_quiet)
  with q1 have q2: "quiet_step st st2" by (rule quiet_trans)
  then have q3: "quiet_step st st3" using load_all_quiet [OF load] by (rule quiet_trans)
  show thesis
  proof (cases "c1 = None \<and> c2 = None \<and> \<not> isl l")
    case False
    have f1: "reports_failure (Returned a)" if "c1 = Some a" for a
      unfolding answers_failure_def [symmetric]
      by (rule check_all_failure [OF _ check1 [unfolded that]]) (rule check_needed_failure)
    have f2: "reports_failure (Returned a)" if "c2 = Some a" for a
      unfolding answers_failure_def [symmetric]
      by (rule check_all_failure [OF _ check2 [unfolded that]]) (rule check_added_failure)
    have f3: "reports_failure (Returned a)" if "l = Inl a" for a
      using load_all_failure load that unfolding answers_failure_def by blast
    consider a where "c1 = Some a" | a where "c1 = None" "c2 = Some a" | a where "c1 = None" "c2 = None" "l = Inl a"
      using False by (cases c1; cases c2; cases l) auto
    then show thesis
    proof cases
      case 1
      then show thesis using assms failed q1 f1 by (auto simp: PatchRun_def input check1 simp flip: needed_def)
    next
      case 2
      then show thesis using assms failed q2 f2 by (auto simp: PatchRun_def input check1 check2 simp flip: needed_def)
    next
      case 3
      then show thesis using assms failed q3 f3 by (auto simp: PatchRun_def input check1 check2 load simp flip: needed_def)
    qed
  next
    case True
    then obtain files where l: "l = Inr files" "c1 = None" "c2 = None" by (cases l) auto
    have run: "(case TextToPatch fuel patchText files of
                None \<Rightarrow> None
              | Some (Panic e) \<Rightarrow> Some (Panicked e, st3)
              | Some (Err e) \<Rightarrow> Some (Returned (error_answer (''failed to parse patch: '' @ e)), st3)
              | Some (Ok (patch, fuzz)) \<Rightarrow>
                  if fuzz > 3
                  then Some (Returned (error_answer (''patch contains fuzzy matches (fuzz level: '' @
                    show_int fuzz @ ''). Please make your context lines more precise'')), st3)
                  else (case PatchToCommit patch files of
                      Panic e \<Rightarrow> Some (Panicked e, st3)
                    | Err e \<Rightarrow> Some (Returned (error_answer (''failed to create commit from patch: '' @ e)), st3)
                    | Ok commit \<Rightarrow> Some (run_commit E P ids commit st3))) = Some (r, st')"
      using assms by (simp add: PatchRun_def input check1 check2 load l flip: needed_def)
    have "tool_contents st2 = tool_contents st" using q2 by (intro contents_same) (simp add: quiet_step_def)
    then have files: "loaded E st files"
      using load_all_contents [OF load [unfolded l(1)]] by (simp add: loaded_same [of st2 st] loaded_def)
    show thesis
    proof (cases "\<exists>patch fuzz commit. TextToPatch fuel patchText files = Some (Ok (patch, fuzz)) \<and> fuzz \<le> 3 \<and>
        PatchToCommit patch files = Ok commit")
      case True
      then obtain patch fuzz commit where "TextToPatch fuel patchText files = Some (Ok (patch, fuzz))" "fuzz \<le> 3"
        "PatchToCommit patch files = Ok commit" by blast
      then show thesis
        using committed [of patchText st3 files commit] run files q3 input by (simp add: commit_of_patch_def)
    next
      case False
      then show thesis
        using failed run q3 by (auto split: option.splits outcome.splits prod.splits if_splits)
    qed
  qed
qed

text \<open>A commit that runs: no file changes, or every change was asked for and granted.\<close>

lemma run_commit_ends:
  assumes "run_commit E P ids commit st = (r, st')"
  obtains (unwritten) "ts_Files st' = ts_Files st" "reports_failure r"
  | (written) st1 st2 err where "ts_Files st1 = ts_Files st"
      "ts_Asked st1 = ts_Asked st @ granted_requests E (fst ids) (pe_Range P 0 commit)"
      "apply_commit E (pe_Range P 1 commit) st1 = (st2, err)"
      "err \<noteq> None \<longrightarrow> st' = st2 \<and> reports_failure r"
      "err = None \<longrightarrow> (\<exists>q. record_changes E (fst ids) (pe_Range P 2 commit) st2 = q \<and> st' = step (snd q))"
proof (cases "fst ids = [] \<or> snd ids = []")
  case True
  then show thesis using assms unwritten by (auto simp: run_commit_def)
next
  case False
  obtain g st1 where ask: "ask_changes E (fst ids) (pe_Range P 0 commit) st = (g, st1)" by fastforce
  have f1: "ts_Files st1 = ts_Files st" using ask_changes_files [OF ask] .
  show thesis
  proof (cases "g = Ok True")
    case False
    then show thesis
      using assms unwritten f1 ask \<open>\<not> (fst ids = [] \<or> snd ids = [])\<close>
      by (cases g) (auto simp: run_commit_def)
  next
    case True
    obtain st2 err where ac: "apply_commit E (pe_Range P 1 commit) st1 = (st2, err)" by fastforce
    show thesis
      by (rule written [OF f1 ask_changes_granted [OF ask [unfolded True]] ac])
        (use assms ask True ac \<open>\<not> (fst ids = [] \<or> snd ids = [])\<close> in
          \<open>auto simp: run_commit_def Let_def split: prod.splits\<close>)
  qed
qed

lemma apply_change_asked:
  "apply_change (\<lambda>p. write_path E (resolve E p)) (\<lambda>p. remove_path E (resolve E p)) p change st = (st', e) \<Longrightarrow>
   ts_Asked st' = ts_Asked st"
  by (auto simp: apply_change_def write_path_def remove_path_def os_MkdirAll_def os_WriteFile_def os_Remove_def
      split: patch_kind.splits option.splits prod.splits if_splits)

lemma apply_commit_asked: "apply_commit E c st = (st', e) \<Longrightarrow> ts_Asked st' = ts_Asked st"
  unfolding apply_commit_def
proof (induction c arbitrary: st)
  case (Cons pc c)
  obtain p change where pc: "pc = (p, change)" by (cases pc)
  obtain st1 e1 where one: "apply_change (\<lambda>p. write_path E (resolve E p)) (\<lambda>p. remove_path E (resolve E p)) p change st =
      (st1, e1)" by fastforce
  then show ?case
    using Cons apply_change_asked [OF one] by (cases e1) (auto simp: pc)
qed simp

lemma run_commit_asked:
  assumes "run_commit E P ids commit st = (r, st')"
  shows "ts_Files st' = ts_Files st \<or>
    ts_Asked st' = ts_Asked st @ granted_requests E (fst ids) (pe_Range P 0 commit)"
  using assms
proof (cases rule: run_commit_ends)
  case (written st1 st2 err)
  have "ts_Asked st' = ts_Asked st2"
  proof (cases err)
    case None
    then obtain r' q where "record_changes E (fst ids) (pe_Range P 2 commit) st2 = (r', q)" "st' = step q"
      using written(5) by (metis prod.collapse)
    then show ?thesis using record_changes_quiet by (metis step_fields(3))
  qed (use written(4) in simp)
  then show ?thesis using written(2) apply_commit_asked [OF written(3)] by simp
qed simp

text \<open>
  Property C7. The patch tool changes no file unless the patch parsed against the files as they
  are, with a fuzz of at most 3, and every change of its commit was asked for and granted: one
  denied request, in any place of the commit, and no file changes.
\<close>

theorem patch_needs_every_permission:
  assumes "PatchRun fuel E P ids input st = Some (r, st')" and "ts_Files st' \<noteq> ts_Files st"
  shows "\<exists>patchText files commit. input = Some patchText \<and> commit_of_patch fuel E patchText st files commit \<and>
    ts_Asked st' = ts_Asked st @ granted_requests E (fst ids) (pe_Range P 0 commit)"
  using assms(1)
proof (cases rule: PatchRun_parts)
  case failed
  then show ?thesis using assms(2) by (simp add: quiet_step_def)
next
  case (committed patchText files commit st1)
  then show ?thesis
    using run_commit_asked [OF committed(4)] assms(2) by (auto simp: quiet_step_def)
qed

text \<open>
  Property C8. A patch that reports success has the effect of its commit on the contents of the
  files, in the order of the range over the changes: added and updated files have their new
  content, deleted and moved files are gone, every other file is as it was.
\<close>

theorem patch_applies_its_commit:
  assumes "PatchRun fuel E P ids input st = Some (r, st')" and "\<not> reports_failure r"
  shows "\<exists>patchText files commit. input = Some patchText \<and> commit_of_patch fuel E patchText st files commit \<and>
    tool_contents st' = commit_effect (resolve_commit E (pe_Range P 1 commit)) (tool_contents st)"
  using assms(1)
proof (cases rule: PatchRun_parts)
  case failed
  then show ?thesis using assms(2) by simp
next
  case (committed patchText files commit st1)
  from committed(4) show ?thesis
  proof (cases rule: run_commit_ends)
    case unwritten
    then show ?thesis using assms(2) by simp
  next
    case (written st2 st3 err)
    then have err: "err = None" using assms(2) by auto
    then obtain r' q where "record_changes E (fst ids) (pe_Range P 2 commit) st3 = (r', q)" "st' = step q"
      using written(5) by (metis prod.collapse)
    then have "tool_contents st' = tool_contents st3"
      using record_changes_quiet by (intro contents_same) (metis step_fields(1))
    also have "\<dots> = commit_effect (resolve_commit E (pe_Range P 1 commit)) (tool_contents st2)"
      using written(3) by (intro apply_commit_contents) (simp add: err)
    also have "tool_contents st2 = tool_contents st"
      using written(1) committed(2) by (intro contents_same) (simp add: quiet_step_def)
    finally show ?thesis using committed by blast
  qed
qed

section \<open>A move\<close>

text \<open>
  The patch moves \<open>f\<close> to \<open>g\<close>, where \<open>g\<close> is a file that was never read.
\<close>

definition move_patch :: string where
  "move_patch = join nl [''*** Begin Patch'', ''*** Update File: f'', ''*** Move to: g'', ''@@'', ''-b'', ''+B'',
     ''*** End Patch'']"

definition move_files :: tool_state where
  "move_files = \<lparr>ts_Tick = 0, ts_Files = [(''/w/f'', FsFile ''b'' 3), (''/w/g'', FsFile ''precious'' 3)],
     ts_Records = [(''/w/f'', \<lparr>fl_readTime = 5, fl_writeTime = 0\<rparr>)],
     ts_History = \<lparr>hs_sessions = [''s''], hs_rows = [], hs_events = []\<rparr>, ts_Asked = []\<rparr>"

definition sample_order :: patch_env where
  "sample_order = \<lparr>pe_Needed = (\<lambda>ps. ps), pe_Added = (\<lambda>ps. ps), pe_Range = (\<lambda>k c. c), pe_Metadata = (\<lambda>c a r. [])\<rparr>"

definition move_commit :: commit where
  "move_commit = [(''f'', \<lparr>fc_Type = ActionUpdate, fc_OldContent = Some ''b'', fc_NewContent = Some ''B'',
     fc_MovePath = Some ''g''\<rparr>)]"

lemma move_parses: "commit_of_patch 10 sample_tools move_patch move_files [(''f'', ''b'')] move_commit"
proof -
  let ?patch = "[(''f'', \<lparr>pa_Type = ActionUpdate, pa_NewFile = None,
      pa_Chunks = [\<lparr>OrigIndex = 0, DelLines = [''b''], InsLines = [''B'']\<rparr>], pa_MovePath = Some ''g''\<rparr>)]"
  have "TextToPatch 10 move_patch [(''f'', ''b'')] = Some (Ok (?patch, 0))" by code_simp
  moreover have "PatchToCommit ?patch [(''f'', ''b'')] = Ok move_commit" by code_simp
  moreover have "loaded sample_tools move_files [(''f'', ''b'')]"
    by (simp add: loaded_def tool_contents_def move_files_def sample_path)
  ultimately show ?thesis unfolding commit_of_patch_def by fastforce
qed

lemma run_commit_success:
  assumes "fst ids \<noteq> []" and "snd ids \<noteq> []" and "ask_changes E (fst ids) (pe_Range P 0 commit) st = (Ok True, st1)"
    and "apply_commit E (pe_Range P 1 commit) st1 = (st2, None)"
  obtains r st' where "run_commit E P ids commit st = (r, st')" "\<not> reports_failure r"
    "ts_Files st' = ts_Files st2" "ts_Asked st' = ts_Asked st2"
proof -
  obtain changed adds rems st3 where rc: "record_changes E (fst ids) (pe_Range P 2 commit) st2 = ((changed, adds, rems), st3)"
    by (cases "record_changes E (fst ids) (pe_Range P 2 commit) st2") (metis prod_cases3)
  have "\<exists>r. run_commit E P ids commit st = (r, step st3) \<and> \<not> reports_failure r"
    using assms rc by (simp add: run_commit_def Let_def reports_failure_def NewTextResponse_def)
  then show thesis using that record_changes_quiet [OF rc] by force
qed

text \<open>The run of the move.\<close>

lemma move_run:
  obtains r st' where "PatchRun 10 sample_tools sample_order (''s'', ''m'') (Some move_patch) move_files = Some (r, st')"
    "\<not> reports_failure r" "tool_contents st' ''/w/g'' = Some ''B''" "tool_contents st' ''/w/f'' = None"
    "ts_Asked st' = granted_requests sample_tools ''s'' move_commit"
proof -
  let ?st = "step (step move_files)" and ?ids = "(''s'', ''m'')"
  have needed: "IdentifyFilesNeeded (pe_Needed sample_order) move_patch = [''f'']"
    and added: "IdentifyFilesAdded (pe_Added sample_order) move_patch = []"
    and checked: "check_all (check_needed sample_tools) [''f''] move_files = (None, step move_files)"
    and load: "load_all sample_tools [''f''] [] (step move_files) = (Inr [(''f'', ''b'')], ?st)"
    and nonempty: "move_patch \<noteq> []"
    by code_simp+
  obtain patch fuzz where patch: "TextToPatch 10 move_patch [(''f'', ''b'')] = Some (Ok (patch, fuzz))"
      "fuzz \<le> 3" "PatchToCommit patch [(''f'', ''b'')] = Ok move_commit"
    using move_parses unfolding commit_of_patch_def by blast
  have range: "pe_Range sample_order k move_commit = move_commit" for k by (simp add: sample_order_def)
  obtain g st1 where ask: "ask_changes sample_tools ''s'' move_commit ?st = (g, st1)" by fastforce
  have g: "g = Ok True"
    using ask by (simp add: move_commit_def nil_content_def sample_env_facts Let_def)
  obtain st2 e where ac: "apply_commit sample_tools move_commit st1 = (st2, e)" by fastforce
  have "st1 = snd (ask_changes sample_tools ''s'' move_commit ?st)" by (simp add: ask)
  moreover have "snd (apply_commit sample_tools move_commit (snd (ask_changes sample_tools ''s'' move_commit ?st))) = None"
    by code_simp
  ultimately have e: "e = None" using ac by simp
  obtain r st' where run: "run_commit sample_tools sample_order ?ids move_commit ?st = (r, st')" "\<not> reports_failure r"
      and st': "ts_Files st' = ts_Files st2" "ts_Asked st' = ts_Asked st2"
    using run_commit_success [of ?ids sample_tools sample_order move_commit ?st st1 st2] ask g ac e range by auto
  have "PatchRun 10 sample_tools sample_order ?ids (Some move_patch) move_files = Some (r, st')"
    using patch run nonempty by (simp add: PatchRun_def Let_def needed added checked load del: check_all.simps(2) load_all.simps(2))
  moreover have "tool_contents st' = commit_effect (resolve_commit sample_tools move_commit) (tool_contents move_files)"
  proof -
    have "tool_contents st' = tool_contents st2" using st'(1) by (rule contents_same)
    also have "\<dots> = commit_effect (resolve_commit sample_tools move_commit) (tool_contents st1)"
      using ac unfolding e by (rule apply_commit_contents)
    also have "tool_contents st1 = tool_contents move_files"
      using ask_changes_files [OF ask] by (intro contents_same) simp
    finally show ?thesis .
  qed
  moreover have "resolve_commit sample_tools move_commit = [(''/w/f'', \<lparr>fc_Type = ActionUpdate,
      fc_OldContent = Some ''b'', fc_NewContent = Some ''B'', fc_MovePath = Some ''/w/g''\<rparr>)]"
    by code_simp
  moreover have "ts_Asked st' = granted_requests sample_tools ''s'' move_commit"
    using st'(2) apply_commit_asked [OF ac] ask_changes_granted [OF ask [unfolded g]] by (simp add: move_files_def)
  ultimately show thesis
    using that run(2) by (simp add: commit_effect_def change_effect_def)
qed

abbreviation moved :: tool_state where
  "moved \<equiv> snd (the (PatchRun 10 sample_tools sample_order (''s'', ''m'') (Some move_patch) move_files))"

theorem patch_needs_every_permission_witness:
  "\<exists>files commit. commit_of_patch 10 sample_tools move_patch move_files files commit \<and>
    ts_Asked moved = ts_Asked move_files @ granted_requests sample_tools ''s'' commit"
proof -
  obtain r st' where run: "PatchRun 10 sample_tools sample_order (''s'', ''m'') (Some move_patch) move_files = Some (r, st')"
      and f: "tool_contents st' ''/w/f'' = None"
    by (rule move_run)
  have "tool_contents move_files ''/w/f'' \<noteq> None" by (simp add: tool_contents_def move_files_def)
  then have "ts_Files st' \<noteq> ts_Files move_files" using f contents_same by metis
  from patch_needs_every_permission [OF run this] run show ?thesis by (simp add: sample_order_def)
qed

theorem patch_applies_its_commit_witness:
  "\<exists>files commit. commit_of_patch 10 sample_tools move_patch move_files files commit \<and>
    tool_contents moved = commit_effect (resolve_commit sample_tools commit) (tool_contents move_files) \<and>
    tool_contents moved ''/w/f'' = None"
proof -
  obtain r st' where run: "PatchRun 10 sample_tools sample_order (''s'', ''m'') (Some move_patch) move_files = Some (r, st')"
      and ok: "\<not> reports_failure r" and f: "tool_contents st' ''/w/f'' = None"
    by (rule move_run)
  from patch_applies_its_commit [OF run ok] f run show ?thesis by (simp add: sample_order_def)
qed

text \<open>
  A move overwrites its destination: here a file that was never read. The one
  permission that is asked for shows the path of the source.
\<close>

theorem move_overwrites_unread_file:
  "\<exists>r st'. PatchRun 10 sample_tools sample_order (''s'', ''m'') (Some move_patch) move_files = Some (r, st') \<and>
    \<not> reports_failure r \<and> getLastReadTime ''/w/g'' move_files = 0 \<and>
    tool_contents move_files ''/w/g'' = Some ''precious'' \<and> tool_contents st' ''/w/g'' = Some ''B'' \<and>
    map (\<lambda>(req, granted). wq_FilePath req) (ts_Asked st') = [''f'']"
proof -
  obtain r st' where run: "PatchRun 10 sample_tools sample_order (''s'', ''m'') (Some move_patch) move_files = Some (r, st')"
    "\<not> reports_failure r" "tool_contents st' ''/w/g'' = Some ''B''"
    "ts_Asked st' = granted_requests sample_tools ''s'' move_commit"
    by (rule move_run)
  have "getLastReadTime ''/w/g'' move_files = 0" "tool_contents move_files ''/w/g'' = Some ''precious''"
    by (simp_all add: getLastReadTime_def file_record_of_def move_files_def tool_contents_def)
  with run show ?thesis
    by (simp add: granted_requests_def move_commit_def change_request_def Let_def)
qed

end
