(* ===== verification/Bash_Tool.thy ===== *)
theory Bash_Tool
  imports File_Tools
begin

text \<open>
  The shell tool, \<open>internal/llm/tools/bash.go\<close>: which commands it refuses, which it runs without
  asking, and what it answers. The shell behind it is an argument here, which may answer, fail or
  panic; \<open>Persistent_Shell\<close> models it. The model keeps the permission requests with their answers and
  the commands that the shell was given.
\<close>

section \<open>Strings\<close>

text \<open>
  \<open>strings.ToLower\<close> up to the spelling of the letters outside ASCII: the Kelvin sign and the dotted
  capital I are the two that become ASCII letters, the others stay outside, and no test of the tool
  tells them apart.
\<close>

fun lower_str :: "string \<Rightarrow> string" where
  "lower_str [] = []"
| "lower_str (c # s) =
     (if has_prefix (c # s) [CHR 0xE2, CHR 0x84, CHR 0xAA] then CHR ''k'' # lower_str (drop 2 s)
      else if has_prefix (c # s) [CHR 0xC4, CHR 0xB0] then CHR ''i'' # lower_str (drop 1 s)
      else ascii_lower c # lower_str s)"

text \<open>\<open>strings.EqualFold\<close> against a word of ASCII letters: the long s folds to s.\<close>

fun fold_str :: "string \<Rightarrow> string" where
  "fold_str [] = []"
| "fold_str (c # s) =
     (if has_prefix (c # s) [CHR 0xE2, CHR 0x84, CHR 0xAA] then CHR ''k'' # fold_str (drop 2 s)
      else if has_prefix (c # s) [CHR 0xC5, CHR 0xBF] then CHR ''s'' # fold_str (drop 1 s)
      else ascii_lower c # fold_str s)"

definition equal_fold_ascii :: "string \<Rightarrow> string \<Rightarrow> bool" where
  "equal_fold_ascii s w \<longleftrightarrow> fold_str s = fold_str w"

section \<open>Parameters and tables\<close>

record bash_params =
  bp_Command :: string
  bp_Timeout :: int

definition BashToolName :: string where
  "BashToolName = ''bash''"

definition DefaultTimeout :: int where
  "DefaultTimeout = 60000"

definition MaxTimeout :: int where
  "MaxTimeout = 600000"

definition MaxOutputLength :: nat where
  "MaxOutputLength = 30000"

definition bannedCommands :: "string list" where
  "bannedCommands =
     [''alias'', ''curl'', ''curlie'', ''wget'', ''axel'', ''aria2c'',
      ''nc'', ''telnet'', ''lynx'', ''w3m'', ''links'', ''httpie'', ''xh'',
      ''http-prompt'', ''chrome'', ''firefox'', ''safari'']"

definition safeReadOnlyCommands :: "string list" where
  "safeReadOnlyCommands =
     [''ls'', ''echo'', ''pwd'', ''date'', ''cal'', ''uptime'', ''whoami'', ''id'', ''groups'', ''env'',
      ''printenv'', ''set'', ''unset'', ''which'', ''type'', ''whereis'', ''whatis'', ''uname'', ''hostname'',
      ''df'', ''du'', ''free'', ''top'', ''ps'', ''kill'', ''killall'', ''nice'', ''nohup'', ''time'', ''timeout'',
      ''git status'', ''git log'', ''git diff'', ''git show'', ''git branch'', ''git tag'', ''git remote'',
      ''git ls-files'', ''git ls-remote'', ''git rev-parse'', ''git config --get'', ''git config --list'',
      ''git describe'', ''git blame'', ''git grep'', ''git shortlog'',
      ''go version'', ''go help'', ''go list'', ''go env'', ''go doc'', ''go vet'', ''go fmt'', ''go mod'',
      ''go test'', ''go build'', ''go run'', ''go install'', ''go clean'']"

definition banned :: "string \<Rightarrow> bool" where
  "banned baseCmd \<longleftrightarrow> list_ex (equal_fold_ascii baseCmd) bannedCommands"

definition follows_safely :: "string \<Rightarrow> bool" where
  "follows_safely rest \<longleftrightarrow> (case rest of [] \<Rightarrow> True | c # _ \<Rightarrow> c = CHR '' '' \<or> c = CHR ''-'')"

definition isSafeReadOnly :: "string \<Rightarrow> bool" where
  "isSafeReadOnly command \<longleftrightarrow>
     (let cmdLower = lower_str command in
      list_ex (\<lambda>safe. has_prefix cmdLower (lower_str safe) \<and> follows_safely (drop (length safe) cmdLower))
        safeReadOnlyCommands)"

definition clamp_timeout :: "int \<Rightarrow> int" where
  "clamp_timeout t = (if t > MaxTimeout then MaxTimeout else if t \<le> 0 then DefaultTimeout else t)"

section \<open>Output\<close>

definition countLines :: "string \<Rightarrow> int" where
  "countLines s = (if s = [] then 0 else int (length (split_on (CHR 0x0A) s)))"

definition truncateOutput :: "string \<Rightarrow> string" where
  "truncateOutput content =
     (if length content \<le> MaxOutputLength then content
      else
        (let halfLength = MaxOutputLength div 2;
             first = take halfLength content;
             last = drop (length content - halfLength) content;
             truncatedLinesCount = countLines (drop halfLength (take (length content - halfLength) content))
         in first @ nl @ nl @ ''... ['' @ show_int truncatedLinesCount @ '' lines truncated] ...'' @ nl @ nl @ last))"

record shell_result =
  sh_Stdout :: string
  sh_Stderr :: string
  sh_ExitCode :: int
  sh_Interrupted :: bool

definition error_message :: "string \<Rightarrow> shell_result \<Rightarrow> string" where
  "error_message stderr r =
     (if sh_Interrupted r
      then (if stderr \<noteq> [] then stderr @ nl else stderr) @ ''Command was aborted before completion''
      else if sh_ExitCode r \<noteq> 0
      then (if stderr \<noteq> [] then stderr @ nl else stderr) @ ''Exit code '' @ show_int (sh_ExitCode r)
      else stderr)"

definition bash_output :: "shell_result \<Rightarrow> string" where
  "bash_output r =
     (let stdout = truncateOutput (sh_Stdout r); stderr = truncateOutput (sh_Stderr r);
          errorMessage = error_message stderr r;
          stdout1 = (if stdout \<noteq> [] \<and> stderr \<noteq> [] then stdout @ nl else stdout)
      in if errorMessage \<noteq> [] then stdout1 @ nl @ errorMessage else stdout1)"

section \<open>The run\<close>

record bash_request =
  bq_SessionID :: string
  bq_Path :: string
  bq_ToolName :: string
  bq_Action :: string
  bq_Description :: string
  bq_Command :: string

record bash_env =
  be_Cwd :: string
  be_Grant :: "nat \<Rightarrow> bash_request \<Rightarrow> bool"
  be_Exec :: "nat \<Rightarrow> string \<Rightarrow> int \<Rightarrow> (string, shell_result) outcome"
  be_Metadata :: "nat \<Rightarrow> string"

record bash_state =
  bs_Tick :: nat
  bs_Asked :: "(bash_request \<times> bool) list"
  bs_Ran :: "(string \<times> int) list"

text \<open>The command is given to the shell, and its result becomes the answer.\<close>

definition run_command ::
  "bash_env \<Rightarrow> string \<Rightarrow> int \<Rightarrow> bash_state \<Rightarrow> tool_answer run \<times> bash_state" where
  "run_command E command timeout st =
     (let st1 = st\<lparr>bs_Tick := bs_Tick st + 1, bs_Ran := bs_Ran st @ [(command, timeout)]\<rparr> in
      case be_Exec E (bs_Tick st) command timeout of
        Ok r \<Rightarrow>
          (let stdout = bash_output r in
           (Returned ((NewTextResponse (if stdout = [] then ''no output'' else stdout))
              \<lparr>tr_Metadata := be_Metadata E (bs_Tick st)\<rparr>, None), st1))
      | Err e \<Rightarrow> (Returned (failed_answer (''error executing command: '' @ e)), st1)
      | Panic e \<Rightarrow> (Panicked e, st1))"

definition ask_execute :: "bash_env \<Rightarrow> string \<Rightarrow> string \<Rightarrow> bash_state \<Rightarrow> bool \<times> bash_state" where
  "ask_execute E sessionID command st =
     (let req = \<lparr>bq_SessionID = sessionID, bq_Path = be_Cwd E, bq_ToolName = BashToolName,
            bq_Action = ''execute'', bq_Description = ''Execute command: '' @ command, bq_Command = command\<rparr>;
          granted = be_Grant E (bs_Tick st) req
      in (granted, st\<lparr>bs_Tick := bs_Tick st + 1, bs_Asked := bs_Asked st @ [(req, granted)]\<rparr>))"

text \<open>\<open>strings.Fields(command)[0]\<close> panics if the command is all white space.\<close>

definition BashRun ::
  "bash_env \<Rightarrow> string \<times> string \<Rightarrow> bash_params option \<Rightarrow> bash_state \<Rightarrow> tool_answer run \<times> bash_state" where
  "BashRun E ids input st =
     (case input of
        None \<Rightarrow> (Returned (error_answer ''invalid parameters''), st)
      | Some params \<Rightarrow>
          let timeout = clamp_timeout (bp_Timeout params); command = bp_Command params in
          if command = [] then (Returned (error_answer ''missing command''), st)
          else (case str_fields command of
              [] \<Rightarrow> (Panicked ''index out of range [0] with length 0'', st)
            | baseCmd # _ \<Rightarrow>
                if banned baseCmd
                then (Returned (error_answer (''command '' @ [CHR 0x27] @ baseCmd @ [CHR 0x27] @ '' is not allowed'')), st)
                else if fst ids = [] \<or> snd ids = []
                then (Returned (failed_answer no_context), st)
                else if isSafeReadOnly command then run_command E command timeout st
                else (case ask_execute E (fst ids) command st of
                    (granted, st1) \<Rightarrow>
                      if granted then run_command E command timeout st1
                      else (Returned denied_answer, st1))))"

end
