(* ===== verification/Bash_Tool_Properties.thy ===== *)
theory Bash_Tool_Properties
  imports Bash_Tool Go_Fields
begin

text \<open>Which commands reach the shell, with and without permission, and which stop the tool.\<close>

section \<open>Words of the tables\<close>

definition table_char :: "char \<Rightarrow> bool" where
  "table_char c \<longleftrightarrow> c \<noteq> CHR 0xE2 \<and> c \<noteq> CHR 0xC4 \<and> c \<noteq> CHR 0xC5 \<and> ascii_lower c = c"

lemma lower_table: "list_all table_char w \<Longrightarrow> lower_str (w @ s) = w @ lower_str s"
  by (induction w) (auto simp: table_char_def)

lemma lower_blank: "lower_str (CHR '' '' # s) = CHR '' '' # lower_str s"
  by (simp add: ascii_lower_def)

text \<open>The first field of a word of the table.\<close>

definition first_word :: "string \<Rightarrow> string" where
  "first_word w = takeWhile (\<lambda>c. c \<noteq> CHR '' '') w"

lemma table_words:
  "list_all (list_all table_char) safeReadOnlyCommands"
  "list_all (list_all table_char) bannedCommands"
  by (simp_all add: safeReadOnlyCommands_def bannedCommands_def table_char_def ascii_lower_def)

lemma safe_first_words:
  "list_all (\<lambda>w. plain_field (first_word w)) safeReadOnlyCommands"
  "list_all (\<lambda>w. first_word w \<notin> set bannedCommands) safeReadOnlyCommands"
  by (simp_all add: safeReadOnlyCommands_def bannedCommands_def first_word_def plain_field_def plain_char_def)

lemma fold_table: "list_all table_char w \<Longrightarrow> fold_str w = w"
  by (induction w) (auto simp: table_char_def)

lemma banned_table: "list_all table_char w \<Longrightarrow> banned w \<longleftrightarrow> w \<in> set bannedCommands"
  using table_words(2) by (auto simp: banned_def equal_fold_ascii_def list_ex_iff list_all_iff fold_table)

lemma safe_words:
  assumes "w \<in> set safeReadOnlyCommands"
  shows "list_all table_char w" and "plain_field (first_word w)" and "\<not> banned (first_word w)"
proof -
  show w: "list_all table_char w" and "plain_field (first_word w)"
    using assms table_words(1) safe_first_words(1) by (simp_all add: list_all_iff)
  have "list_all table_char (first_word w)"
    using w by (auto simp: first_word_def list_all_iff dest: set_takeWhileD)
  then show "\<not> banned (first_word w)"
    using assms safe_first_words(2) by (simp add: banned_table list_all_iff)
qed

lemma str_fields_first:
  assumes "plain_field (first_word w)"
  shows "\<exists>fs. str_fields (w @ CHR '' '' # s) = first_word w # fs"
proof (cases "dropWhile (\<lambda>c. c \<noteq> CHR '' '') w")
  case Nil
  then have "w = first_word w" by (metis append_Nil2 first_word_def takeWhile_dropWhile_id)
  then show ?thesis using str_fields_plain [OF assms, of s] by metis
next
  case (Cons c cs)
  then have "c = CHR '' ''" using hd_dropWhile [of "\<lambda>c. c \<noteq> CHR '' ''" w] by simp
  have "w = first_word w @ c # cs"
    using takeWhile_dropWhile_id [of "\<lambda>c. c \<noteq> CHR '' ''" w] unfolding Cons first_word_def [symmetric] by simp
  then have "w @ CHR '' '' # s = first_word w @ CHR '' '' # (cs @ CHR '' '' # s)"
    unfolding \<open>c = CHR '' ''\<close> by (subst (1) \<open>w = first_word w @ c # cs\<close>) (simp add: \<open>c = CHR '' ''\<close>)
  then show ?thesis using str_fields_plain [OF assms] by metis
qed

lemma safe_prefix_is_safe:
  assumes "w \<in> set safeReadOnlyCommands"
  shows "isSafeReadOnly (w @ CHR '' '' # s)"
proof -
  have w: "list_all table_char w" using assms by (rule safe_words)
  have self: "lower_str w = w" using lower_table [OF w, of "[]"] by simp
  have "lower_str (w @ CHR '' '' # s) = w @ CHR '' '' # lower_str s"
    using lower_table [OF w] by (simp add: lower_blank del: lower_str.simps)
  then have "has_prefix (lower_str (w @ CHR '' '' # s)) (lower_str w) \<and>
      follows_safely (drop (length w) (lower_str (w @ CHR '' '' # s)))"
    by (simp add: self follows_safely_def)
  then show ?thesis
    using assms unfolding isSafeReadOnly_def Let_def list_ex_iff by blast
qed

section \<open>What runs\<close>

lemma clamp_timeout_bounds: "0 < clamp_timeout t \<and> clamp_timeout t \<le> MaxTimeout"
  by (simp add: clamp_timeout_def MaxTimeout_def DefaultTimeout_def)

lemma run_command_state:
  "bs_Ran (snd (run_command E command timeout st)) = bs_Ran st @ [(command, timeout)]"
  "bs_Asked (snd (run_command E command timeout st)) = bs_Asked st"
  by (simp_all add: run_command_def Let_def split: outcome.split)

text \<open>
  Property C9. The shell is given a command only if its first word is not banned and the command
  starts with a word of the safe list or was granted, in a request that shows this very command;
  its timeout is between one millisecond and ten minutes. At most one command runs.
\<close>

theorem commands_run_with_consent:
  "bs_Ran (snd (BashRun E ids input st)) = bs_Ran st \<or>
   (\<exists>params word words. input = Some params \<and> str_fields (bp_Command params) = word # words \<and> \<not> banned word \<and>
      bs_Ran (snd (BashRun E ids input st)) = bs_Ran st @ [(bp_Command params, clamp_timeout (bp_Timeout params))] \<and>
      0 < clamp_timeout (bp_Timeout params) \<and> clamp_timeout (bp_Timeout params) \<le> MaxTimeout \<and>
      (isSafeReadOnly (bp_Command params) \<or>
       (\<exists>req. bs_Asked (snd (BashRun E ids input st)) = bs_Asked st @ [(req, True)] \<and>
          bq_Command req = bp_Command params \<and> bq_SessionID req = fst ids)))"
proof (cases input)
  case (Some params)
  show ?thesis
  proof (cases "str_fields (bp_Command params)")
    case (Cons word words)
    then show ?thesis
      using clamp_timeout_bounds [of "bp_Timeout params"]
      by (auto simp: BashRun_def Some Let_def ask_execute_def run_command_state split: prod.split)
  qed (simp add: BashRun_def Some Let_def)
qed (simp add: BashRun_def)

text \<open>
  Whatever follows a word of the safe list and a space runs without permission:
  the test looks at the beginning of the command only.
\<close>

theorem safe_prefix_runs_anything:
  assumes "w \<in> set safeReadOnlyCommands" and "fst ids \<noteq> []" and "snd ids \<noteq> []"
    and "bp_Command params = w @ CHR '' '' # rest"
  shows "bs_Ran (snd (BashRun E ids (Some params) st)) =
      bs_Ran st @ [(w @ CHR '' '' # rest, clamp_timeout (bp_Timeout params))] \<and>
    bs_Asked (snd (BashRun E ids (Some params) st)) = bs_Asked st"
proof -
  have first: "plain_field (first_word w)" and no: "\<not> banned (first_word w)"
    using assms(1) by (rule safe_words)+
  obtain fs where fs: "str_fields (w @ CHR '' '' # rest) = first_word w # fs"
    using str_fields_first [OF first] by blast
  show ?thesis
    using assms(2-) fs no safe_prefix_is_safe [OF assms(1)]
    by (simp add: BashRun_def Let_def run_command_state)
qed

definition sample_shell :: bash_env where
  "sample_shell = \<lparr>be_Cwd = ''/w'', be_Grant = (\<lambda>n req. False),
     be_Exec = (\<lambda>n c t. Ok \<lparr>sh_Stdout = [], sh_Stderr = [], sh_ExitCode = 0, sh_Interrupted = False\<rparr>),
     be_Metadata = (\<lambda>n. [])\<rparr>"

theorem safe_prefix_runs_anything_witness:
  "bs_Ran (snd (BashRun sample_shell (''s'', ''m'') (Some \<lparr>bp_Command = ''echo ok && rm -rf .'', bp_Timeout = 0\<rparr>)
      \<lparr>bs_Tick = 0, bs_Asked = [], bs_Ran = []\<rparr>)) = [(''echo ok && rm -rf .'', 60000)] \<and>
   bs_Asked (snd (BashRun sample_shell (''s'', ''m'') (Some \<lparr>bp_Command = ''echo ok && rm -rf .'', bp_Timeout = 0\<rparr>)
      \<lparr>bs_Tick = 0, bs_Asked = [], bs_Ran = []\<rparr>)) = []"
  using safe_prefix_runs_anything [of "''echo''" "(''s'', ''m'')"
      "\<lparr>bp_Command = ''echo ok && rm -rf .'', bp_Timeout = 0\<rparr>" "''ok && rm -rf .''" sample_shell]
  by (simp add: safeReadOnlyCommands_def clamp_timeout_def DefaultTimeout_def MaxTimeout_def)

text \<open>
  Property C35. The tool panics in two cases. By itself it panics exactly on a command that is not
  empty and has no word, white space only, and then nothing was given to the shell. Every other panic
  is one of the shell, for the command it was given: \<open>GetPersistentShell\<close> can return nil, and the
  queue of a shell that ended is closed (\<open>shell.go\<close>).
\<close>

theorem blank_command_panics:
  "fst (BashRun E ids input st) = Panicked e \<longleftrightarrow>
     (\<exists>params. input = Some params \<and> bp_Command params \<noteq> [] \<and> str_fields (bp_Command params) = []) \<and>
     e = ''index out of range [0] with length 0'' \<and> snd (BashRun E ids input st) = st \<or>
     (\<exists>c t n. bs_Ran (snd (BashRun E ids input st)) = bs_Ran st @ [(c, t)] \<and>
       bs_Tick (snd (BashRun E ids input st)) = Suc n \<and> be_Exec E n c t = Panic e)"
proof -
  have shell: "fst (run_command E command timeout q) = Panicked e \<longleftrightarrow>
      (\<exists>c t n. bs_Ran (snd (run_command E command timeout q)) = bs_Ran q @ [(c, t)] \<and>
        bs_Tick (snd (run_command E command timeout q)) = Suc n \<and> be_Exec E n c t = Panic e)"
    "snd (run_command E command timeout q) \<noteq> q" for command timeout q
    by (cases "be_Exec E (bs_Tick q) command timeout"; auto simp: run_command_def Let_def bash_state.splits
        dest: arg_cong [where f = bs_Tick])+
  show ?thesis
  proof (cases input)
    case (Some params)
    define c where "c = bp_Command params"
    define t where "t = clamp_timeout (bp_Timeout params)"
    obtain granted q where ask: "ask_execute E (fst ids) c st = (granted, q)" by fastforce
    then have q: "bs_Ran q = bs_Ran st" by (auto simp: ask_execute_def Let_def)
    consider "c = []" | "c \<noteq> []" "str_fields c = []" | w ws where "c \<noteq> []" "str_fields c = w # ws"
      by (cases "str_fields c") auto
    then show ?thesis
    proof cases
      case (3 w ws)
      have "BashRun E ids input st \<in> {run_command E c t st, run_command E c t q} \<or>
          (\<exists>a q'. BashRun E ids input st = (Returned a, q') \<and> bs_Ran q' = bs_Ran st)"
        unfolding BashRun_def Some option.case Let_def c_def [symmetric] t_def [symmetric] ask prod.case
        using 3 q by simp
      then show ?thesis using shell [of c t] 3 q Some by (auto simp: c_def)
    qed (auto simp: BashRun_def Some c_def)
  qed (simp add: BashRun_def)
qed

theorem blank_command_panics_witness:
  "fst (BashRun sample_shell (''s'', ''m'') (Some \<lparr>bp_Command = ''  '', bp_Timeout = 0\<rparr>)
      \<lparr>bs_Tick = 0, bs_Asked = [], bs_Ran = []\<rparr>) = Panicked ''index out of range [0] with length 0''"
proof -
  let ?p = "\<lparr>bp_Command = ''  '', bp_Timeout = 0\<rparr>" and ?st = "\<lparr>bs_Tick = 0, bs_Asked = [], bs_Ran = []\<rparr>"
  have "str_fields ''  '' = []" by code_simp
  then have "(\<exists>params. Some ?p = Some params \<and> bp_Command params \<noteq> [] \<and> str_fields (bp_Command params) = [])"
    and "snd (BashRun sample_shell (''s'', ''m'') (Some ?p) ?st) = ?st"
    by (simp_all add: BashRun_def)
  then show ?thesis
    using blank_command_panics [of sample_shell "(''s'', ''m'')" "Some ?p" ?st "''index out of range [0] with length 0''"]
    by blast
qed

section \<open>Output\<close>

lemma truncateOutput_short: "length s \<le> MaxOutputLength \<Longrightarrow> truncateOutput s = s"
  by (simp add: truncateOutput_def)

text \<open>
  A long output keeps its first and its last 15000 bytes around a line that counts
  the lines cut out between them, and nothing is cut out of an output of at most 30000 bytes.
\<close>

theorem truncation_keeps_both_ends:
  "truncateOutput s = s \<and> length s \<le> 30000 \<or>
   (\<exists>first middle last. s = first @ middle @ last \<and> length first = 15000 \<and> length last = 15000 \<and> middle \<noteq> [] \<and>
      truncateOutput s = first @ nl @ nl @ ''... ['' @ show_int (countLines middle) @ '' lines truncated] ...'' @ nl @ nl @ last)"
proof (cases "length s \<le> MaxOutputLength")
  case False
  let ?h = "MaxOutputLength div 2"
  have h: "?h + ?h < length s" using False by (simp add: MaxOutputLength_def)
  have "s = take ?h s @ drop ?h (take (length s - ?h) s) @ drop (length s - ?h) s"
    using h by (metis append_take_drop_id drop_take le_add_diff_inverse append.assoc take_add less_imp_le_nat add_le_imp_le_diff)
  moreover have "length (take ?h s) = 15000" "length (drop (length s - ?h) s) = 15000"
      "drop ?h (take (length s - ?h) s) \<noteq> []"
    using h by (simp_all add: MaxOutputLength_def)
  moreover have "truncateOutput s = take ?h s @ nl @ nl @ ''... ['' @ show_int (countLines (drop ?h (take (length s - ?h) s))) @
      '' lines truncated] ...'' @ nl @ nl @ drop (length s - ?h) s"
    using False by (simp add: truncateOutput_def Let_def)
  ultimately show ?thesis by blast
qed (simp add: truncateOutput_short MaxOutputLength_def)

end
