(* ===== verification/Lsp_Transport.thy ===== *)
theory Lsp_Transport
  imports Go_Numbers Channels
begin

text \<open>
  The transport of the language-server client, \<open>internal/lsp/transport.go\<close> with the messages of
  \<open>protocol.go\<close>: the frames on the wire, the loop that reads and dispatches messages, and the calls
  that wait for their response. JSON is an argument; a message is what its JSON is read as.
\<close>

section \<open>Messages\<close>

record lsp_error =
  le_Code :: int
  le_Message :: string

record lsp_message =
  lm_JSONRPC :: string
  lm_ID :: int
  lm_Method :: string
  lm_Params :: string
  lm_Result :: string
  lm_Error :: "lsp_error option"

definition NewRequest :: "int \<Rightarrow> string \<Rightarrow> (string, string) outcome \<Rightarrow> (string, lsp_message) outcome" where
  "NewRequest i method params = obind params (\<lambda>paramsJSON.
     Ok \<lparr>lm_JSONRPC = ''2.0'', lm_ID = i, lm_Method = method, lm_Params = paramsJSON, lm_Result = [], lm_Error = None\<rparr>)"

definition NewNotification :: "string \<Rightarrow> (string, string) outcome \<Rightarrow> (string, lsp_message) outcome" where
  "NewNotification method params = obind params (\<lambda>paramsJSON.
     Ok \<lparr>lm_JSONRPC = ''2.0'', lm_ID = 0, lm_Method = method, lm_Params = paramsJSON, lm_Result = [], lm_Error = None\<rparr>)"

section \<open>Frames\<close>

definition crlf :: string where
  "crlf = [CHR 0x0D, CHR 0x0A]"

definition length_header :: string where
  "length_header = ''Content-Length: ''"

text \<open>What \<open>WriteMessage\<close> writes for the JSON of a message.\<close>

definition write_frame :: "string \<Rightarrow> string" where
  "write_frame data = length_header @ show_int (int (length data)) @ crlf @ crlf @ data"

text \<open>\<open>ReadString\<close> of a line; at the end of the input it fails.\<close>

definition read_line :: "string \<Rightarrow> (string \<times> string) option" where
  "read_line s = (if CHR 0x0A \<in> set s
     then Some (takeWhile (\<lambda>c. c \<noteq> CHR 0x0A) s, drop 1 (dropWhile (\<lambda>c. c \<noteq> CHR 0x0A) s)) else None)"

text \<open>\<open>Sscanf\<close> with \<open>%d\<close>: blanks, a sign, digits within 64 bits; what follows is not looked at.\<close>

definition scan_int :: "string \<Rightarrow> int option" where
  "scan_int s =
     (let t = dropWhile (\<lambda>c. c = CHR '' '' \<or> c = CHR 0x09 \<or> c = CHR 0x0D) s;
          (sign, u) = (case t of [] \<Rightarrow> ([], [])
            | c # cs \<Rightarrow> if c = CHR ''-'' \<or> c = CHR ''+'' then ([c], cs) else ([], t));
          digits = takeWhile (\<lambda>c. digit_val c \<noteq> None) u
      in if digits = [] then None else atoi (sign @ digits))"

lemma read_line_shorter: "read_line s = Some (line, rest) \<Longrightarrow> length rest < length s"
proof -
  assume r: "read_line s = Some (line, rest)"
  then have n: "CHR 0x0A \<in> set s" and rest: "rest = drop 1 (dropWhile (\<lambda>c. c \<noteq> CHR 0x0A) s)"
    by (auto simp: read_line_def split: if_splits)
  have "dropWhile (\<lambda>c. c \<noteq> CHR 0x0A) s \<noteq> []" using n by (auto simp: dropWhile_eq_Nil_conv)
  then have "length rest < length (dropWhile (\<lambda>c. c \<noteq> CHR 0x0A) s)" by (simp add: rest)
  also have "\<dots> \<le> length s" by (rule length_dropWhile_le)
  finally show ?thesis .
qed

function read_headers :: "string \<Rightarrow> int \<Rightarrow> (string, int \<times> string) outcome" where
  "read_headers s contentLength =
     (case read_line s of
        None \<Rightarrow> Err ''failed to read header: EOF''
      | Some (line0, rest) \<Rightarrow>
          let line = trim_space line0 in
          if line = [] then Ok (contentLength, rest)
          else if has_prefix line length_header
          then (case scan_int (drop (length length_header) line) of
                  None \<Rightarrow> Err ''invalid Content-Length''
                | Some n \<Rightarrow> read_headers rest n)
          else read_headers rest contentLength)"
  by pat_completeness auto
termination
  by (relation "measure (\<lambda>(s, n). length s)") (auto dest: read_line_shorter)

declare read_headers.simps [simp del]

text \<open>The content: \<open>make\<close> panics on a negative length and above the address space of 48 bits.\<close>

definition read_frame :: "string \<Rightarrow> (string, string \<times> string) outcome" where
  "read_frame s = obind (read_headers s 0) (\<lambda>(n, rest).
     if n < 0 \<or> n > 2 ^ 48 then Panic ''makeslice: len out of range''
     else if int (length rest) < n then Err ''failed to read content: unexpected EOF''
     else Ok (take (nat n) rest, drop (nat n) rest))"

fun read_frames :: "nat \<Rightarrow> string \<Rightarrow> (string, string list \<times> string) outcome" where
  "read_frames 0 s = Ok ([], s)"
| "read_frames (Suc k) s = obind (read_frame s) (\<lambda>(d, rest).
     obind (read_frames k rest) (\<lambda>(ds, rest'). Ok (d # ds, rest')))"

definition ReadMessage ::
  "(string \<Rightarrow> lsp_message option) \<Rightarrow> string \<Rightarrow> (string, lsp_message \<times> string) outcome" where
  "ReadMessage unmarshal s = obind (read_frame s) (\<lambda>(content, rest).
     case unmarshal content of
       None \<Rightarrow> Err ''failed to unmarshal message''
     | Some msg \<Rightarrow> Ok (msg, rest))"

section \<open>The client\<close>

text \<open>
  A call that registered its channel and waits, or has yet to write its request. \<open>lc_Read\<close> and
  \<open>lc_Returned\<close> record the messages that were read and what the calls returned.
\<close>

record lsp_call =
  lk_ID :: int
  lk_Chan :: nat
  lk_Request :: lsp_message
  lk_Written :: bool

record lsp_client =
  lc_NextID :: int
  lc_Handlers :: "(int, nat) gomap"
  lc_Chans :: "lsp_message chan list"
  lc_Calls :: "lsp_call list"
  lc_Sent :: "lsp_message list"
  lc_Spawned :: "(string \<times> string) list"
  lc_Read :: "lsp_message list"
  lc_Returned :: "(int \<times> (string, string) outcome) list"
  lc_Reading :: bool
  lc_Panic :: "string option"

definition NewLspClient :: lsp_client where
  "NewLspClient = \<lparr>lc_NextID = 0, lc_Handlers = [], lc_Chans = [], lc_Calls = [], lc_Sent = [], lc_Spawned = [],
     lc_Read = [], lc_Returned = [], lc_Reading = True, lc_Panic = None\<rparr>"

definition wrap32 :: "int \<Rightarrow> int" where
  "wrap32 i = (i + 2 ^ 31) mod 2 ^ 32 - 2 ^ 31"

text \<open>
  \<open>WriteMessage\<close>: a fault of the pipe loses the message. The code writes header and data one after
  the other and without a lock: a fault between the two, which leaves a header without its data in
  the pipe, and writers that interleave there are not modelled.
\<close>

definition write_message :: "string option \<Rightarrow> lsp_message \<Rightarrow> lsp_client \<Rightarrow> string option \<times> lsp_client" where
  "write_message fault msg c = (case fault of
     Some e \<Rightarrow> (Some (''failed to write header: '' @ e), c)
   | None \<Rightarrow> (None, c\<lparr>lc_Sent := lc_Sent c @ [msg]\<rparr>))"

text \<open>The handlers of requests of the server: a result to be marshalled, or an error.\<close>

type_synonym server_handlers = "(string, string \<Rightarrow> (string, (string, string) outcome) outcome) gomap"

definition empty_response :: "int \<Rightarrow> lsp_message" where
  "empty_response i = \<lparr>lm_JSONRPC = ''2.0'', lm_ID = i, lm_Method = [], lm_Params = [], lm_Result = [], lm_Error = None\<rparr>"

definition server_response :: "server_handlers \<Rightarrow> lsp_message \<Rightarrow> (string, lsp_message) outcome" where
  "server_response handlers msg =
     (let response = empty_response (lm_ID msg) in
      case map_of handlers (lm_Method msg) of
        None \<Rightarrow> Ok (response\<lparr>lm_Error := Some \<lparr>le_Code = - 32601,
           le_Message = ''method not found: '' @ lm_Method msg\<rparr>\<rparr>)
      | Some handler \<Rightarrow>
          (case handler (lm_Params msg) of
             Panic e \<Rightarrow> Panic e
           | Err e \<Rightarrow> Ok (response\<lparr>lm_Error := Some \<lparr>le_Code = - 32603, le_Message = e\<rparr>\<rparr>)
           | Ok (Ok raw) \<Rightarrow> Ok (response\<lparr>lm_Result := raw\<rparr>)
           | Ok (Err e) \<Rightarrow> Ok (response\<lparr>lm_Error := Some \<lparr>le_Code = - 32603,
                le_Message = ''failed to marshal response: '' @ e\<rparr>\<rparr>)
           | Ok (Panic e) \<Rightarrow> Panic e))"

text \<open>The body of the reading loop for a message that was read; a panic takes the client down.\<close>

definition handle_message ::
  "server_handlers \<Rightarrow> string list \<Rightarrow> string option \<Rightarrow> lsp_message \<Rightarrow> lsp_client \<Rightarrow> lsp_client" where
  "handle_message handlers notifications fault msg c0 =
     (let c = c0\<lparr>lc_Read := lc_Read c0 @ [msg]\<rparr> in
      if lm_Method msg \<noteq> [] \<and> lm_ID msg \<noteq> 0
      then (case server_response handlers msg of
              Ok response \<Rightarrow> snd (write_message fault response c)
            | Err e \<Rightarrow> c
            | Panic e \<Rightarrow> c\<lparr>lc_Panic := Some e\<rparr>)
      else if lm_Method msg \<noteq> []
      then (if lm_Method msg \<in> set notifications
            then c\<lparr>lc_Spawned := lc_Spawned c @ [(lm_Method msg, lm_Params msg)]\<rparr> else c)
      else if lm_ID msg \<noteq> 0
      then (case map_of (lc_Handlers c) (lm_ID msg) of
              None \<Rightarrow> c
            | Some ch \<Rightarrow>
                (case obind (try_send msg ch (lc_Chans c)) (close_chan ch) of
                   Ok chans \<Rightarrow> c\<lparr>lc_Chans := chans\<rparr>
                 | Err e \<Rightarrow> c
                 | Panic e \<Rightarrow> c\<lparr>lc_Panic := Some e\<rparr>))
      else c)"

section \<open>Calls\<close>

text \<open>\<open>Call\<close> up to the registration of its channel.\<close>

definition begin_call :: "string \<Rightarrow> (string, string) outcome \<Rightarrow> lsp_client \<Rightarrow> lsp_client" where
  "begin_call method params c0 =
     (let i = wrap32 (lc_NextID c0 + 1); c = c0\<lparr>lc_NextID := i\<rparr> in
      case NewRequest i method params of
        Err e \<Rightarrow> c\<lparr>lc_Returned := lc_Returned c @ [(i, Err (''failed to create request: '' @ e))]\<rparr>
      | Panic e \<Rightarrow> c\<lparr>lc_Panic := Some e\<rparr>
      | Ok msg \<Rightarrow>
          c\<lparr>lc_Chans := lc_Chans c @ [make_chan 1],
            lc_Handlers := map_put i (length (lc_Chans c)) (lc_Handlers c),
            lc_Calls := lc_Calls c @ [\<lparr>lk_ID = i, lk_Chan = length (lc_Chans c), lk_Request = msg, lk_Written = False\<rparr>]\<rparr>)"

text \<open>The deferred deletion takes whatever the identifier stands for.\<close>

definition end_call :: "nat \<Rightarrow> (string, string) outcome \<Rightarrow> lsp_client \<Rightarrow> lsp_client" where
  "end_call j result c =
     (let k = lc_Calls c ! j in
      c\<lparr>lc_Handlers := AList.delete (lk_ID k) (lc_Handlers c),
        lc_Calls := take j (lc_Calls c) @ drop (Suc j) (lc_Calls c),
        lc_Returned := lc_Returned c @ [(lk_ID k, result)]\<rparr>)"

definition write_call :: "string option \<Rightarrow> nat \<Rightarrow> lsp_client \<Rightarrow> lsp_client" where
  "write_call fault j c =
     (let k = lc_Calls c ! j in
      case write_message fault (lk_Request k) c of
        (Some e, c1) \<Rightarrow> end_call j (Err (''failed to send request: '' @ e)) c1
      | (None, c1) \<Rightarrow> c1\<lparr>lc_Calls := (lc_Calls c1)[j := k\<lparr>lk_Written := True\<rparr>]\<rparr>)"

definition call_result :: "lsp_message \<Rightarrow> (string, string) outcome" where
  "call_result resp = (case lm_Error resp of
     Some e \<Rightarrow> Err (''request failed: '' @ le_Message e @ '' (code: '' @ show_int (le_Code e) @ '')'')
   | None \<Rightarrow> Ok (lm_Result resp))"

text \<open>Marshalling reports its errors and does not panic.\<close>

inductive lsp_step :: "server_handlers \<Rightarrow> string list \<Rightarrow> lsp_client \<Rightarrow> lsp_client \<Rightarrow> bool"
  for handlers notifications where
  l_begin: "lc_Panic c = None \<Longrightarrow> \<not> is_panic params \<Longrightarrow>
    lsp_step handlers notifications c (begin_call method params c)"
| l_write: "lc_Panic c = None \<Longrightarrow> j < length (lc_Calls c) \<Longrightarrow> \<not> lk_Written (lc_Calls c ! j) \<Longrightarrow>
    lsp_step handlers notifications c (write_call fault j c)"
| l_receive: "lc_Panic c = None \<Longrightarrow> j < length (lc_Calls c) \<Longrightarrow> lk_Written (lc_Calls c ! j) \<Longrightarrow>
    receive_chan (lk_Chan (lc_Calls c ! j)) (lc_Chans c) = Some (resp, chans) \<Longrightarrow>
    lsp_step handlers notifications c (end_call j (call_result resp) (c\<lparr>lc_Chans := chans\<rparr>))"
| l_read: "lc_Panic c = None \<Longrightarrow> lc_Reading c \<Longrightarrow>
    lsp_step handlers notifications c (handle_message handlers notifications fault msg c)"
| l_fail: "lc_Panic c = None \<Longrightarrow> lc_Reading c \<Longrightarrow>
    lsp_step handlers notifications c (c\<lparr>lc_Reading := False\<rparr>)"
| l_notify: "lc_Panic c = None \<Longrightarrow> NewNotification method params = Ok msg \<Longrightarrow>
    lsp_step handlers notifications c (snd (write_message fault msg c))"

end
