(* ===== verification/Persistent_Shell.thy ===== *)
theory Persistent_Shell
  imports Bash_Tool Lsp_Transport
begin

text \<open>
  The shell behind the tool, \<open>internal/llm/tools/shell/shell.go\<close>: the one instance and when it is
  replaced, the text a command is wrapped in, the polling for its end, and what comes back. What the
  operating system answers is an argument: whether the process starts, whether writing to it fails,
  what each poll finds, and what the four files of a command hold at the end.
\<close>

section \<open>Quoting\<close>

definition single_quote :: char where
  "single_quote = CHR 0x27"

definition backslash :: char where
  "backslash = CHR 0x5C"

definition shellQuote :: "string \<Rightarrow> string" where
  "shellQuote s = single_quote # concat (map (\<lambda>c. if c = single_quote
     then [single_quote, backslash, single_quote, single_quote] else [c]) s) @ [single_quote]"

text \<open>The command is evaluated with its output redirected; then its status is written.\<close>

record command_files =
  cf_Stdout :: string
  cf_Stderr :: string
  cf_Status :: string
  cf_Cwd :: string

definition full_command :: "command_files \<Rightarrow> string \<Rightarrow> string" where
  "full_command f command =
     nl @ ''eval '' @ shellQuote command @ '' < /dev/null > '' @ shellQuote (cf_Stdout f) @ '' 2> '' @
     shellQuote (cf_Stderr f) @ nl @ ''EXEC_EXIT_CODE=$?'' @ nl @ ''pwd > '' @ shellQuote (cf_Cwd f) @ nl @
     ''echo $EXEC_EXIT_CODE > '' @ shellQuote (cf_Status f) @ nl"

section \<open>The instance\<close>

text \<open>
  The goroutine that waits for the process clears \<open>isAlive\<close> and then closes the queue; nothing sets
  either back.
\<close>

record persistent_shell =
  ps_Alive :: bool
  ps_Closed :: bool
  ps_Cwd :: string

record shell_global =
  sg_Done :: bool
  sg_Instance :: "persistent_shell option"

definition newPersistentShell :: "bool \<Rightarrow> string \<Rightarrow> persistent_shell option" where
  "newPersistentShell started cwd =
     (if started then Some \<lparr>ps_Alive = True, ps_Closed = False, ps_Cwd = cwd\<rparr> else None)"

definition GetPersistentShell ::
  "(nat \<Rightarrow> bool) \<Rightarrow> string \<Rightarrow> shell_global \<Rightarrow> persistent_shell option \<times> shell_global" where
  "GetPersistentShell started workingDir g =
     (let first = (if sg_Done g then sg_Instance g else newPersistentShell (started 0) workingDir);
          inst = (case first of
             None \<Rightarrow> newPersistentShell (started 1) workingDir
           | Some s \<Rightarrow> if ps_Alive s then Some s else newPersistentShell (started 1) (ps_Cwd s))
      in (inst, \<lparr>sg_Done = True, sg_Instance = inst\<rparr>))"

definition process_ended :: "persistent_shell \<Rightarrow> persistent_shell" where
  "process_ended s = s\<lparr>ps_Alive := False\<rparr>"

definition queue_closed :: "persistent_shell \<Rightarrow> persistent_shell" where
  "queue_closed s = s\<lparr>ps_Closed := True\<rparr>"

section \<open>A command\<close>

text \<open>
  One round of the poll: the context is done, or 10 ms have passed, the status file has or has not a
  content, and so much time is gone. The answer of the loop is whether the command was interrupted.
\<close>

datatype poll = PollCanceled | PollTick bool int

fun wait_done :: "int \<Rightarrow> poll list \<Rightarrow> bool option" where
  "wait_done timeout [] = None"
| "wait_done timeout (PollCanceled # ps) = Some True"
| "wait_done timeout (PollTick status elapsed # ps) =
     (if status then Some False
      else if timeout > 0 \<and> elapsed > timeout then Some True
      else wait_done timeout ps)"

record command_io =
  ci_WriteError :: "string option"
  ci_Polls :: "poll list"
  ci_Stdout :: string
  ci_Stderr :: string
  ci_Status :: string
  ci_Cwd :: string

definition exit_code :: "string \<Rightarrow> bool \<Rightarrow> int" where
  "exit_code status interrupted =
     (if status \<noteq> [] then (case scan_int status of Some n \<Rightarrow> n | None \<Rightarrow> 0)
      else if interrupted then 143 else 0)"

text \<open>No result: the polls so far did not end the command. \<open>Err\<close> is the error of the result.\<close>

definition execCommand ::
  "command_io \<Rightarrow> int \<Rightarrow> persistent_shell \<Rightarrow> ((string, shell_result) outcome \<times> persistent_shell) option" where
  "execCommand io timeout s =
     (if \<not> ps_Alive s then Some (Err ''shell is not alive'', s)
      else (case ci_WriteError io of
          Some e \<Rightarrow> Some (Err e, s)
        | None \<Rightarrow> (case wait_done timeout (ci_Polls io) of
            None \<Rightarrow> None
          | Some interrupted \<Rightarrow> Some
              (Ok \<lparr>sh_Stdout = ci_Stdout io,
                   sh_Stderr = (if ci_Status io = [] \<and> interrupted
                     then ci_Stderr io @ nl @ ''Command execution timed out or was interrupted'' else ci_Stderr io),
                   sh_ExitCode = exit_code (ci_Status io) interrupted, sh_Interrupted = interrupted\<rparr>,
               if ci_Cwd io \<noteq> [] then s\<lparr>ps_Cwd := trim_space (ci_Cwd io)\<rparr> else s))))"

text \<open>
  \<open>Exec\<close> on what \<open>GetPersistentShell\<close> returned. Between its check and the send, and again until the
  command's turn comes, the process may end: \<open>meanwhile\<close> and \<open>later\<close> say what happened to the shell.
\<close>

definition shell_Exec ::
  "(persistent_shell \<Rightarrow> persistent_shell) \<Rightarrow> (persistent_shell \<Rightarrow> persistent_shell) \<Rightarrow> command_io \<Rightarrow> int \<Rightarrow>
   persistent_shell option \<Rightarrow> ((string, shell_result) outcome \<times> persistent_shell option) option" where
  "shell_Exec meanwhile later io timeout inst =
     (case inst of
        None \<Rightarrow> Some (Panic ''invalid memory address or nil pointer dereference'', None)
      | Some s \<Rightarrow>
          if \<not> ps_Alive s then Some (Err ''shell is not alive'', inst)
          else (let s1 = meanwhile s in
            if ps_Closed s1 then Some (Panic ''send on closed channel'', Some s1)
            else (case execCommand io timeout (later s1) of
                None \<Rightarrow> None
              | Some (r, s2) \<Rightarrow> Some (r, Some s2))))"

section \<open>What the shell reads\<close>

text \<open>
  A word as a POSIX shell reads it, of the characters that quoting produces: in single quotes every
  character stands for itself, a backslash outside takes the next one, and a blank ends the word.
\<close>

fun sh_word :: "bool \<Rightarrow> string \<Rightarrow> (string \<times> string) option" where
  "sh_word True [] = None"
| "sh_word True (c # s) =
     (if c = single_quote then sh_word False s
      else map_option (\<lambda>(w, rest). (c # w, rest)) (sh_word True s))"
| "sh_word False [] = Some ([], [])"
| "sh_word False (c # s) =
     (if c = single_quote then sh_word True s
      else if c = backslash then
        (case s of [] \<Rightarrow> None | d # s' \<Rightarrow> map_option (\<lambda>(w, rest). (d # w, rest)) (sh_word False s'))
      else if c = CHR '' '' \<or> [c] = nl then Some ([], c # s) else None)"

lemma sh_word_in_quotes:
  "sh_word True (concat (map (\<lambda>c. if c = single_quote then [single_quote, backslash, single_quote, single_quote] else [c]) s)
     @ single_quote # CHR '' '' # rest) = Some (s, CHR '' '' # rest)"
  by (induction s) (auto simp: single_quote_def backslash_def)

text \<open>The word after \<open>eval\<close> is the command, whatever characters it has: it cannot end its quotes.\<close>

lemma shellQuote_is_one_word: "sh_word False (shellQuote s @ CHR '' '' # rest) = Some (s, CHR '' '' # rest)"
  by (simp add: shellQuote_def sh_word_in_quotes)

lemma evaluated_command:
  "\<exists>rest. sh_word False (drop 6 (full_command f command)) = Some (command, rest)"
  using shellQuote_is_one_word [of command] by (auto simp: full_command_def nl_def)

section \<open>What comes back\<close>

text \<open>A shell that is asked for is alive, or none could be started.\<close>

lemma GetPersistentShell_alive:
  "fst (GetPersistentShell started wd g) = Some s \<Longrightarrow> ps_Alive s"
  "fst (GetPersistentShell started wd g) = None \<Longrightarrow> \<not> started 1"
  by (auto simp: GetPersistentShell_def newPersistentShell_def Let_def split: option.splits if_splits)

text \<open>The panics that \<open>Exec\<close> can have: no shell, or one that ended between the check and the send.\<close>

lemma shell_Exec_panics:
  "(\<exists>e w. shell_Exec meanwhile later io timeout inst = Some (Panic e, w)) \<longleftrightarrow>
     inst = None \<or> (\<exists>s. inst = Some s \<and> ps_Alive s \<and> ps_Closed (meanwhile s))"
  by (cases inst) (auto simp: shell_Exec_def execCommand_def Let_def split: option.splits)

text \<open>With a timeout, a poll after it ends the wait, so a command comes back.\<close>

lemma wait_done_timeout:
  "0 < timeout \<Longrightarrow> PollTick status elapsed \<in> set ps \<Longrightarrow> timeout < elapsed \<Longrightarrow> wait_done timeout ps \<noteq> None"
proof (induction ps)
  case (Cons p ps)
  then show ?case by (cases p) auto
qed simp

lemma shell_Exec_returns:
  assumes "0 < timeout" and "PollTick status elapsed \<in> set (ci_Polls io)" and "timeout < elapsed"
  shows "shell_Exec meanwhile later io timeout inst \<noteq> None"
  using wait_done_timeout [OF assms] by (auto simp: shell_Exec_def execCommand_def Let_def split: option.splits)

end
