(* ===== verification/Lsp_Transport_Properties.thy ===== *)
theory Lsp_Transport_Properties
  imports Lsp_Transport Go_Fields
begin

text \<open>Frames come back as they were written; what the calls return, when the client panics, and which calls never return.\<close>

section \<open>Frames\<close>

lemma read_line_append:
  assumes "CHR 0x0A \<notin> set line"
  shows "read_line (line @ CHR 0x0A # rest) = Some (line, rest)"
  using assms by (induction line) (auto simp: read_line_def split: if_splits)

lemma digit_plain: "digit_val c \<noteq> None \<Longrightarrow> plain_char c"
  by (auto simp: digit_val_def plain_char_def Let_def split: if_splits)

lemma show_nat_chars: "c \<in> set (show_nat n) \<Longrightarrow> plain_char c"
  using show_nat_digits digit_plain by blast

lemma strip_right_cr: "strip_runes (map rev white_space) (CHR 0x0D # s) = strip_runes (map rev white_space) s"
  by (simp add: strip_runes.simps [of "map rev white_space" "CHR 0x0D # s"]) (simp add: white_space_def)

lemma trim_cr:
  assumes "s \<noteq> []" and "plain_char (hd s)" and "plain_char (last s)"
  shows "trim_space (s @ [CHR 0x0D]) = s"
proof -
  obtain c cs where "s = c # cs" using assms(1) by (cases s) auto
  then have "trim_left_space (s @ [CHR 0x0D]) = s @ [CHR 0x0D]" using assms(2) trim_left_plain by simp
  moreover have "strip_runes (map rev white_space) (rev s) = rev s"
    using assms(1,3) strip_plain [OF white_space_not_plain(2)] by (cases s rule: rev_cases) auto
  ultimately show ?thesis by (simp add: trim_space_def trim_right_space_def strip_right_cr)
qed

lemma trim_only_cr: "trim_space [CHR 0x0D] = []"
  by code_simp

lemma scan_show_nat: "int n < 2 ^ 63 \<Longrightarrow> scan_int (show_nat n) = Some (int n)"
proof -
  assume n: "int n < 2 ^ 63"
  obtain c s where cs: "show_nat n = c # s" using show_nat_nonempty by (cases "show_nat n") auto
  have c: "digit_val c \<noteq> None" using show_nat_digits [of c n] cs by simp
  then have plain: "plain_char c" and sign: "c \<noteq> CHR ''-''" "c \<noteq> CHR ''+''"
    by (auto simp: digit_plain digit_val_def Let_def)
  have "dropWhile (\<lambda>c. c = CHR '' '' \<or> c = CHR 0x09 \<or> c = CHR 0x0D) (c # s) = c # s"
    using plain by (auto simp: plain_char_def)
  moreover have "takeWhile (\<lambda>c. digit_val c \<noteq> None) (c # s) = c # s"
    using show_nat_digits [of _ n] cs by (simp add: takeWhile_eq_all_conv)
  ultimately show ?thesis
    using atoi_show_nat [OF n] sign by (simp add: scan_int_def cs)
qed

lemma read_frame_write:
  assumes "length d \<le> 2 ^ 48"
  shows "read_frame (write_frame d @ s) = Ok (d, s)"
proof -
  let ?n = "length d"
  define line where "line = length_header @ show_nat ?n"
  obtain c cs where sh: "show_nat ?n = c # cs" using show_nat_nonempty by (cases "show_nat ?n") auto
  have last: "last line \<in> set (show_nat ?n)" by (simp add: line_def sh)
  have plain: "plain_char (hd line)" by (simp add: line_def length_header_def plain_char_def)
  have nonl: "CHR 0x0A \<notin> set line"
    using show_nat_chars [of "CHR 0x0A" ?n] by (auto simp: line_def length_header_def plain_char_def)
  have trim: "trim_space (line @ [CHR 0x0D]) = line"
    by (rule trim_cr) (use plain show_nat_chars [OF last] in \<open>simp_all add: line_def sh\<close>)
  have first: "read_line (write_frame d @ s) = Some (line @ [CHR 0x0D], crlf @ d @ s)"
    using read_line_append [of "line @ [CHR 0x0D]" "crlf @ d @ s"] nonl
    by (simp add: write_frame_def line_def crlf_def show_int_def)
  have second: "read_line (crlf @ d @ s) = Some ([CHR 0x0D], d @ s)"
    using read_line_append [of "[CHR 0x0D]" "d @ s"] by (simp add: crlf_def)
  have n: "scan_int (show_nat ?n) = Some (int ?n)"
  proof (rule scan_show_nat)
    have "int ?n \<le> int (2 ^ 48)" using assms by (rule of_nat_mono)
    then show "int ?n < 2 ^ 63" by simp
  qed
  have "read_headers (crlf @ d @ s) (int ?n) = Ok (int ?n, d @ s)"
    by (simp add: read_headers.simps [of "crlf @ d @ s"] second trim_only_cr)
  moreover have "line \<noteq> []" "has_prefix line length_header" "drop (length length_header) line = show_nat ?n"
    by (simp_all add: line_def sh)
  ultimately have "read_headers (write_frame d @ s) 0 = Ok (int ?n, d @ s)"
    by (simp add: read_headers.simps [of "write_frame d @ s"] first trim n)
  then show ?thesis using assms by (simp add: read_frame_def)
qed

text \<open>
  Property C11. Messages of at most \<open>2^48\<close> bytes that are written one after the other are read back
  one after the other, whatever bytes they consist of and whatever follows.
\<close>

theorem written_messages_are_read:
  assumes "list_all (\<lambda>d. length d \<le> 2 ^ 48) ds"
  shows "read_frames (length ds) (concat (map write_frame ds) @ s) = Ok (ds, s)"
  using assms by (induction ds) (simp_all add: read_frame_write)

theorem written_messages_are_read_witness:
  "read_frames 2 (write_frame [CHR 0x0A, CHR ''{''] @ write_frame [] @ ''rest'') = Ok ([[CHR 0x0A, CHR ''{''], []], ''rest'')"
proof -
  have short: "list_all (\<lambda>d. length d \<le> 2 ^ 48) [[CHR 0x0A, CHR ''{''], []]" by simp
  from written_messages_are_read [OF short, of "''rest''"] show ?thesis
    by (simp add: numeral_2_eq_2 del: read_frames.simps)
qed

section \<open>What the calls return\<close>

definition is_response :: "int \<Rightarrow> lsp_message \<Rightarrow> bool" where
  "is_response i m \<longleftrightarrow> lm_ID m = i \<and> lm_Method m = []"

text \<open>A channel of a call: open and empty, or closed after a response to the call was put into it.\<close>

definition chan_ok :: "lsp_message list \<Rightarrow> int \<Rightarrow> lsp_message chan \<Rightarrow> bool" where
  "chan_ok msgs i ch \<longleftrightarrow> ch_cap ch = 1 \<and> (\<not> ch_closed ch \<longrightarrow> ch_queue ch = []) \<and>
     (ch_closed ch \<longrightarrow> (\<exists>m \<in> set msgs. is_response i m)) \<and>
     (\<forall>m \<in> set (ch_queue ch). is_response i m \<and> m \<in> set msgs)"

definition calls_ok :: "lsp_client \<Rightarrow> bool" where
  "calls_ok c \<longleftrightarrow> distinct (map lk_Chan (lc_Calls c)) \<and>
     (\<forall>k \<in> set (lc_Calls c). lk_Chan k < length (lc_Chans c) \<and> chan_ok (lc_Read c) (lk_ID k) (lc_Chans c ! lk_Chan k))"

definition handlers_ok :: "lsp_client \<Rightarrow> bool" where
  "handlers_ok c \<longleftrightarrow> (\<forall>i ch. map_of (lc_Handlers c) i = Some ch \<longrightarrow>
     (\<exists>k \<in> set (lc_Calls c). lk_ID k = i \<and> lk_Chan k = ch))"

definition result_ok :: "lsp_message list \<Rightarrow> int \<Rightarrow> (string, string) outcome \<Rightarrow> bool" where
  "result_ok msgs i r \<longleftrightarrow> (\<exists>m \<in> set msgs. is_response i m \<and> r = call_result m) \<or>
     (\<exists>e. r = Err (''failed to create request: '' @ e)) \<or> (\<exists>e. r = Err (''failed to send request: '' @ e))"

definition results_ok :: "lsp_client \<Rightarrow> bool" where
  "results_ok c \<longleftrightarrow> (\<forall>(i, r) \<in> set (lc_Returned c). result_ok (lc_Read c) i r)"

definition answered_twice :: "int \<Rightarrow> lsp_client \<Rightarrow> bool" where
  "answered_twice i c \<longleftrightarrow> 2 \<le> length (filter (is_response i) (lc_Read c))"

text \<open>The handlers of the client do not panic.\<close>

definition quiet_handlers :: "server_handlers \<Rightarrow> bool" where
  "quiet_handlers handlers \<longleftrightarrow> (\<forall>msg. \<not> is_panic (server_response handlers msg))"

definition lsp_ok :: "lsp_client \<Rightarrow> bool" where
  "lsp_ok c \<longleftrightarrow> calls_ok c \<and> handlers_ok c \<and> results_ok c \<and> (lc_Panic c = None \<or> (\<exists>i. answered_twice i c))"

lemma lsp_okD:
  assumes "lsp_ok c"
  shows "calls_ok c" "handlers_ok c" "results_ok c" "lc_Panic c = None \<or> (\<exists>i. answered_twice i c)"
  using assms by (simp_all add: lsp_ok_def)

lemma chan_ok_mono: "chan_ok msgs i ch \<Longrightarrow> set msgs \<subseteq> set msgs' \<Longrightarrow> chan_ok msgs' i ch"
  unfolding chan_ok_def by blast

lemma result_ok_mono: "result_ok msgs i r \<Longrightarrow> set msgs \<subseteq> set msgs' \<Longrightarrow> result_ok msgs' i r"
  unfolding result_ok_def by blast

lemma new_client_ok: "lsp_ok NewLspClient"
  by (simp add: lsp_ok_def calls_ok_def handlers_ok_def results_ok_def NewLspClient_def)

lemma write_message_ok: "lsp_ok c \<Longrightarrow> lsp_ok (snd (write_message fault msg c))"
  by (simp add: write_message_def lsp_ok_def calls_ok_def handlers_ok_def results_ok_def answered_twice_def split: option.split)

section \<open>Calls that begin and end\<close>

lemma begin_call_ok:
  assumes "lsp_ok c" and "\<not> is_panic params"
  shows "lsp_ok (begin_call meth params c)"
proof (cases params)
  case (Ok p)
  let ?c = "begin_call meth params c"
  have new: "chan_ok msgs i (make_chan 1)" for msgs i by (simp add: chan_ok_def make_chan_def)
  have "calls_ok ?c"
    using lsp_okD(1) [OF assms(1)] new
    by (auto simp: begin_call_def Let_def NewRequest_def Ok calls_ok_def nth_append)
  moreover have "handlers_ok ?c"
    using lsp_okD(2) [OF assms(1)]
    by (auto simp: begin_call_def Let_def NewRequest_def Ok handlers_ok_def map_of_put split: if_splits)
  moreover have "results_ok ?c" and "lc_Panic ?c = None \<or> (\<exists>i. answered_twice i ?c)"
    using lsp_okD(3,4) [OF assms(1)]
    by (simp_all add: begin_call_def Let_def NewRequest_def Ok results_ok_def answered_twice_def)
  ultimately show ?thesis by (simp add: lsp_ok_def)
next
  case (Err e)
  then show ?thesis
    using assms(1)
    by (auto simp: begin_call_def Let_def NewRequest_def lsp_ok_def calls_ok_def handlers_ok_def
        results_ok_def answered_twice_def result_ok_def)
qed (use assms(2) in simp)

lemma remove_nth_subset: "set (take j xs @ drop (Suc j) xs) \<subseteq> set xs"
  by (auto dest: in_set_takeD in_set_dropD)

lemma remove_nth_other:
  assumes "x \<in> set xs" and "j < length xs" and "x \<noteq> xs ! j"
  shows "x \<in> set (take j xs @ drop (Suc j) xs)"
proof -
  have "x \<in> set (take j xs @ xs ! j # drop (Suc j) xs)"
    using assms(1) unfolding id_take_nth_drop [OF assms(2), symmetric] .
  then show ?thesis using assms(3) by simp
qed

lemma end_call_ok:
  assumes "lsp_ok c" and "j < length (lc_Calls c)" and "result_ok (lc_Read c) (lk_ID (lc_Calls c ! j)) r"
  shows "lsp_ok (end_call j r c)"
proof -
  let ?c = "end_call j r c" and ?k = "lc_Calls c ! j"
  have calls: "set (lc_Calls ?c) \<subseteq> set (lc_Calls c)"
    unfolding end_call_def Let_def by simp (use remove_nth_subset [of j "lc_Calls c"] in simp)
  have "distinct (map lk_Chan (lc_Calls ?c))"
  proof -
    have "distinct (map lk_Chan (take j (lc_Calls c) @ ?k # drop (Suc j) (lc_Calls c)))"
      using lsp_okD(1) [OF assms(1)] assms(2) by (simp only: id_take_nth_drop [symmetric] calls_ok_def)
    then show ?thesis by (auto simp: end_call_def Let_def)
  qed
  then have "calls_ok ?c"
    using lsp_okD(1) [OF assms(1)] calls by (auto simp: calls_ok_def end_call_def Let_def dest!: subsetD)
  moreover have "handlers_ok ?c"
    unfolding handlers_ok_def
  proof (intro allI impI)
    fix i ch assume "map_of (lc_Handlers ?c) i = Some ch"
    then have i: "i \<noteq> lk_ID ?k" and "map_of (lc_Handlers c) i = Some ch"
      by (auto simp: end_call_def Let_def delete_conv' split: if_splits)
    then obtain k where k: "k \<in> set (lc_Calls c)" "lk_ID k = i" "lk_Chan k = ch"
      using lsp_okD(2) [OF assms(1)] unfolding handlers_ok_def by blast
    then have "k \<in> set (lc_Calls ?c)"
      using i remove_nth_other [of k "lc_Calls c" j] assms(2) by (auto simp: end_call_def Let_def)
    then show "\<exists>k \<in> set (lc_Calls ?c). lk_ID k = i \<and> lk_Chan k = ch" using k by blast
  qed
  moreover have "results_ok ?c"
    using lsp_okD(3) [OF assms(1)] assms(3) by (auto simp: results_ok_def end_call_def Let_def)
  moreover have "lc_Panic ?c = None \<or> (\<exists>i. answered_twice i ?c)"
    using lsp_okD(4) [OF assms(1)] by (simp add: end_call_def Let_def answered_twice_def)
  ultimately show ?thesis by (simp add: lsp_ok_def)
qed

section \<open>Messages that are read\<close>

text \<open>Reading a message without an effect on channels, calls or results.\<close>

lemma read_only_ok:
  assumes "lsp_ok c" and "lc_Panic c = None" and "lc_Chans c' = lc_Chans c" and "lc_Calls c' = lc_Calls c"
    and "lc_Handlers c' = lc_Handlers c" and "lc_Returned c' = lc_Returned c" and "lc_Panic c' = None"
    and "lc_Read c' = lc_Read c @ [msg]"
  shows "lsp_ok c'"
proof -
  have more: "set (lc_Read c) \<subseteq> set (lc_Read c')" by (auto simp: assms(8))
  have "calls_ok c'"
    using lsp_okD(1) [OF assms(1)] chan_ok_mono [OF _ more] by (auto simp: calls_ok_def assms)
  moreover have "handlers_ok c'" using lsp_okD(2) [OF assms(1)] by (simp add: handlers_ok_def assms)
  moreover have "results_ok c'"
    using lsp_okD(3) [OF assms(1)] result_ok_mono [OF _ more] by (auto simp: results_ok_def assms)
  ultimately show ?thesis using assms(7) by (simp add: lsp_ok_def)
qed

text \<open>A response: into the open channel of its call, or into a closed one, which panics.\<close>

lemma deliver_ok:
  assumes "lsp_ok c" and "lc_Panic c = None" and "map_of (lc_Handlers c) i = Some ch" and "is_response i msg"
    and still: "\<not> ch_closed (lc_Chans c ! ch)"
  shows "lsp_ok ((c\<lparr>lc_Read := lc_Read c @ [msg]\<rparr>)
      \<lparr>lc_Chans := (lc_Chans c)[ch := (offer msg (lc_Chans c ! ch))\<lparr>ch_closed := True\<rparr>]\<rparr>)" (is "lsp_ok ?c")
proof -
  obtain k where k: "k \<in> set (lc_Calls c)" "lk_ID k = i" "lk_Chan k = ch"
    using lsp_okD(2) [OF assms(1)] assms(3) unfolding handlers_ok_def by blast
  have more: "set (lc_Read c) \<subseteq> set (lc_Read ?c)" by auto
  have calls: "distinct (map lk_Chan (lc_Calls c))"
    and each: "\<And>k. k \<in> set (lc_Calls c) \<Longrightarrow> lk_Chan k < length (lc_Chans c) \<and>
      chan_ok (lc_Read c) (lk_ID k) (lc_Chans c ! lk_Chan k)"
    using lsp_okD(1) [OF assms(1)] unfolding calls_ok_def by blast+
  have empty: "ch_queue (lc_Chans c ! ch) = []" "ch_cap (lc_Chans c ! ch) = 1"
    using each [OF k(1)] still unfolding k(3) chan_ok_def by simp_all
  have "chan_ok (lc_Read ?c) (lk_ID q) (lc_Chans ?c ! lk_Chan q)" if q: "q \<in> set (lc_Calls c)" for q
  proof (cases "lk_Chan q = ch")
    case True
    then have "q = k" using calls k q by (auto simp: distinct_map inj_on_def)
    then show ?thesis using each [OF q] True k empty assms(4) by (simp add: chan_ok_def offer_def)
  next
    case False
    then show ?thesis using each [OF q] chan_ok_mono [OF _ more] by simp
  qed
  then have "calls_ok ?c" using calls each unfolding calls_ok_def by simp
  moreover have "handlers_ok ?c" using lsp_okD(2) [OF assms(1)] by (simp add: handlers_ok_def)
  moreover have "results_ok ?c"
    using lsp_okD(3) [OF assms(1)] result_ok_mono [OF _ more] by (auto simp: results_ok_def)
  ultimately show ?thesis using assms(2) by (simp add: lsp_ok_def)
qed

lemma second_response:
  assumes "lsp_ok c" and "map_of (lc_Handlers c) i = Some ch" and "ch_closed (lc_Chans c ! ch)"
  shows "\<exists>m \<in> set (lc_Read c). is_response i m"
proof -
  obtain k where "k \<in> set (lc_Calls c)" "lk_ID k = i" "lk_Chan k = ch"
    using lsp_okD(2) [OF assms(1)] assms(2) unfolding handlers_ok_def by blast
  then show ?thesis using lsp_okD(1) [OF assms(1)] assms(3) unfolding calls_ok_def chan_ok_def by blast
qed

lemma handler_chan:
  assumes "lsp_ok c" and "map_of (lc_Handlers c) i = Some ch"
  shows "ch < length (lc_Chans c)"
  using lsp_okD(1,2) [OF assms(1)] assms(2) unfolding calls_ok_def handlers_ok_def by blast

lemma panic_ok:
  assumes "lsp_ok c" and "m \<in> set (lc_Read c)" and "is_response i m" and "is_response i msg"
  shows "lsp_ok ((c\<lparr>lc_Read := lc_Read c @ [msg]\<rparr>)\<lparr>lc_Panic := Some e\<rparr>)" (is "lsp_ok ?c")
proof -
  have more: "set (lc_Read c) \<subseteq> set (lc_Read ?c)" by auto
  obtain x xs where "filter (is_response i) (lc_Read c) = x # xs"
    using assms(2,3) by (cases "filter (is_response i) (lc_Read c)") (auto simp: filter_empty_conv)
  then have "answered_twice i ?c" using assms(4) by (simp add: answered_twice_def)
  moreover have "calls_ok ?c"
    using lsp_okD(1) [OF assms(1)] chan_ok_mono [OF _ more] by (auto simp: calls_ok_def)
  moreover have "handlers_ok ?c" using lsp_okD(2) [OF assms(1)] by (simp add: handlers_ok_def)
  moreover have "results_ok ?c"
    using lsp_okD(3) [OF assms(1)] result_ok_mono [OF _ more] by (auto simp: results_ok_def)
  ultimately show ?thesis unfolding lsp_ok_def by blast
qed

lemma handle_message_ok:
  assumes "lsp_ok c" and "lc_Panic c = None" and "quiet_handlers handlers"
  shows "lsp_ok (handle_message handlers notifications fault msg c)"
proof -
  let ?read = "c\<lparr>lc_Read := lc_Read c @ [msg]\<rparr>"
  have read: "lsp_ok ?read" by (rule read_only_ok [OF assms(1,2)]) (use assms(2) in simp_all)
  consider (request) "lm_Method msg \<noteq> []" "lm_ID msg \<noteq> 0" | (notification) "lm_Method msg \<noteq> []" "lm_ID msg = 0"
    | (response) "lm_Method msg = []" "lm_ID msg \<noteq> 0" | (other) "lm_Method msg = []" "lm_ID msg = 0" by blast
  then show ?thesis
  proof cases
    case request
    then show ?thesis
      using assms(3) write_message_ok [OF read] read
      by (auto simp: handle_message_def Let_def quiet_handlers_def is_panic_iff split: outcome.split)
  next
    case notification
    have "lsp_ok (?read\<lparr>lc_Spawned := lc_Spawned c @ [(lm_Method msg, lm_Params msg)]\<rparr>)"
      by (rule read_only_ok [OF assms(1,2)]) (use assms(2) in simp_all)
    then show ?thesis using notification read by (simp add: handle_message_def Let_def)
  next
    case response
    then have r: "is_response (lm_ID msg) msg" by (simp add: is_response_def)
    show ?thesis
    proof (cases "map_of (lc_Handlers c) (lm_ID msg)")
      case None
      then show ?thesis using response read by (simp add: handle_message_def Let_def)
    next
      case (Some ch)
      have len: "ch < length (lc_Chans c)" by (rule handler_chan [OF assms(1) Some])
      show ?thesis
      proof (cases "ch_closed (lc_Chans c ! ch)")
        case True
        obtain m where "m \<in> set (lc_Read c)" "is_response (lm_ID msg) m"
          using second_response [OF assms(1) Some True] by blast
        from panic_ok [OF assms(1) this r] show ?thesis
          using response Some True len by (simp add: handle_message_def Let_def try_send_def)
      next
        case False
        from deliver_ok [OF assms(1,2) Some r False] show ?thesis
          using response Some False len by (simp add: handle_message_def Let_def try_send_def close_chan_def offer_def)
      qed
    qed
  qed (use read in \<open>simp add: handle_message_def\<close>)
qed

section \<open>Runs\<close>

lemma receive_ok:
  assumes "lsp_ok c" and "j < length (lc_Calls c)" and "lc_Panic c = None"
    and "receive_chan (lk_Chan (lc_Calls c ! j)) (lc_Chans c) = Some (resp, chans)"
  shows "lsp_ok (c\<lparr>lc_Chans := chans\<rparr>)" and "result_ok (lc_Read c) (lk_ID (lc_Calls c ! j)) (call_result resp)"
proof -
  let ?k = "lc_Calls c ! j" and ?ch = "lk_Chan (lc_Calls c ! j)"
  have calls: "distinct (map lk_Chan (lc_Calls c))"
    and each: "\<And>k. k \<in> set (lc_Calls c) \<Longrightarrow> lk_Chan k < length (lc_Chans c) \<and>
      chan_ok (lc_Read c) (lk_ID k) (lc_Chans c ! lk_Chan k)"
    using lsp_okD(1) [OF assms(1)] unfolding calls_ok_def by blast+
  have k: "?k \<in> set (lc_Calls c)" using assms(2) by simp
  obtain rest where q: "ch_queue (lc_Chans c ! ?ch) = resp # rest" "chans = (lc_Chans c)[?ch := (lc_Chans c ! ?ch)\<lparr>ch_queue := rest\<rparr>]"
    using assms(4) by (auto simp: receive_chan_def split: if_splits list.splits)
  show "result_ok (lc_Read c) (lk_ID ?k) (call_result resp)"
    using each [OF k] q(1) by (auto simp: chan_ok_def result_ok_def)
  have "chan_ok (lc_Read c) (lk_ID r) (chans ! lk_Chan r)" if r: "r \<in> set (lc_Calls c)" for r
  proof (cases "lk_Chan r = ?ch")
    case True
    then have "r = ?k" using calls k r by (auto simp: distinct_map inj_on_def)
    then show ?thesis using each [OF r] q by (auto simp: chan_ok_def)
  next
    case False
    then show ?thesis using each [OF r] q(2) by simp
  qed
  then have "calls_ok (c\<lparr>lc_Chans := chans\<rparr>)" using calls each q(2) unfolding calls_ok_def by simp
  then show "lsp_ok (c\<lparr>lc_Chans := chans\<rparr>)"
    using lsp_okD(2,3) [OF assms(1)] assms(3) by (simp add: lsp_ok_def handlers_ok_def results_ok_def)
qed

lemma same_keys_ok:
  assumes "lsp_ok c" and "map lk_ID calls = map lk_ID (lc_Calls c)" and "map lk_Chan calls = map lk_Chan (lc_Calls c)"
  shows "lsp_ok (c\<lparr>lc_Sent := sent, lc_Calls := calls\<rparr>)"
proof -
  have len: "length calls = length (lc_Calls c)" using assms(2) by (metis length_map)
  have at: "lk_ID (calls ! n) = lk_ID (lc_Calls c ! n)" "lk_Chan (calls ! n) = lk_Chan (lc_Calls c ! n)"
    if "n < length calls" for n
    using that len assms(2,3) by (metis nth_map)+
  have "calls_ok (c\<lparr>lc_Sent := sent, lc_Calls := calls\<rparr>)"
    using lsp_okD(1) [OF assms(1)] assms(3) len at by (auto simp: calls_ok_def in_set_conv_nth all_set_conv_all_nth)
  moreover have "handlers_ok (c\<lparr>lc_Sent := sent, lc_Calls := calls\<rparr>)"
    using lsp_okD(2) [OF assms(1)] len at by (simp add: handlers_ok_def Bex_def in_set_conv_nth) metis
  ultimately show ?thesis
    using lsp_okD(3,4) [OF assms(1)] by (simp add: lsp_ok_def results_ok_def answered_twice_def)
qed

lemma write_call_ok:
  assumes "lsp_ok c" and "j < length (lc_Calls c)"
  shows "lsp_ok (write_call fault j c)"
proof (cases fault)
  case (Some e)
  show ?thesis
    using end_call_ok [OF assms, of "Err (''failed to send request: '' @ ''failed to write header: '' @ e)"]
    by (simp add: write_call_def Let_def write_message_def Some result_ok_def)
next
  case None
  let ?calls = "(lc_Calls c)[j := (lc_Calls c ! j)\<lparr>lk_Written := True\<rparr>]"
  have "map lk_ID ?calls = map lk_ID (lc_Calls c)" "map lk_Chan ?calls = map lk_Chan (lc_Calls c)"
    using list_update_id [of "map lk_ID (lc_Calls c)" j] list_update_id [of "map lk_Chan (lc_Calls c)" j] assms(2)
    by (simp_all add: map_update)
  then show ?thesis
    using same_keys_ok [OF assms(1)] by (simp add: write_call_def Let_def write_message_def None)
qed

inductive lsp_reachable :: "server_handlers \<Rightarrow> string list \<Rightarrow> lsp_client \<Rightarrow> bool"
  for handlers notifications where
  lsp_start: "lsp_reachable handlers notifications NewLspClient"
| lsp_next: "lsp_reachable handlers notifications c \<Longrightarrow> lsp_step handlers notifications c c' \<Longrightarrow>
    lsp_reachable handlers notifications c'"

lemma lsp_step_ok:
  assumes "lsp_step handlers notifications c c'" and "quiet_handlers handlers" and "lsp_ok c"
  shows "lsp_ok c'"
  using assms(1)
proof cases
  case (l_begin params meth)
  then show ?thesis using begin_call_ok [OF assms(3)] by simp
next
  case (l_write j fault)
  then show ?thesis using write_call_ok [OF assms(3)] by simp
next
  case (l_receive j resp chans)
  have "lsp_ok (c\<lparr>lc_Chans := chans\<rparr>)" and "result_ok (lc_Read c) (lk_ID (lc_Calls c ! j)) (call_result resp)"
    using receive_ok [OF assms(3)] l_receive by blast+
  then show ?thesis using end_call_ok [of "c\<lparr>lc_Chans := chans\<rparr>" j "call_result resp"] l_receive by simp
next
  case (l_read fault msg)
  then show ?thesis using handle_message_ok [OF assms(3) _ assms(2)] by simp
next
  case l_fail
  then show ?thesis
    using assms(3) by (simp add: lsp_ok_def calls_ok_def handlers_ok_def results_ok_def)
next
  case (l_notify meth params msg fault)
  then show ?thesis using write_message_ok [OF assms(3)] by simp
qed

lemma lsp_reachable_ok:
  assumes "lsp_reachable handlers notifications c" and "quiet_handlers handlers"
  shows "lsp_ok c"
  using assms(1) by induction (auto simp: new_client_ok intro: lsp_step_ok [OF _ assms(2)])

text \<open>
  Property C10. Whatever a call returns is the result of a response with its own identifier that was
  read, or the error of creating or sending the request: calls never get each other's responses.
\<close>

theorem calls_return_their_response:
  assumes "lsp_reachable handlers notifications c" and "quiet_handlers handlers" and "(i, r) \<in> set (lc_Returned c)"
  shows "result_ok (lc_Read c) i r"
  using lsp_okD(3) [OF lsp_reachable_ok [OF assms(1,2)]] assms(3) by (auto simp: results_ok_def)

text \<open>
  The client panics only if a server sent two responses with one identifier.
\<close>

theorem panic_needs_second_response:
  assumes "lsp_reachable handlers notifications c" and "quiet_handlers handlers" and "lc_Panic c \<noteq> None"
  shows "\<exists>i. 2 \<le> length (filter (is_response i) (lc_Read c))"
  using lsp_okD(4) [OF lsp_reachable_ok [OF assms(1,2)]] assms(3) by (simp add: answered_twice_def)

section \<open>Calls that never return\<close>

definition stranded :: "lsp_call \<Rightarrow> lsp_client \<Rightarrow> bool" where
  "stranded k c \<longleftrightarrow> \<not> lc_Reading c \<and> k \<in> set (lc_Calls c) \<and> lk_Written k \<and>
     lk_Chan k < length (lc_Chans c) \<and> ch_queue (lc_Chans c ! lk_Chan k) = []"

lemma stranded_end:
  assumes "stranded k c" and "j < length (lc_Calls c)" and "lc_Calls c ! j \<noteq> k"
  shows "stranded k (end_call j r c)"
  using assms remove_nth_other [of k "lc_Calls c" j] by (auto simp: stranded_def end_call_def Let_def)

lemma stranded_step:
  assumes "lsp_step handlers notifications c c'" and "stranded k c"
  shows "stranded k c'"
  using assms(1)
proof cases
  case (l_begin params meth)
  then show ?thesis
    using assms(2) by (auto simp: begin_call_def NewRequest_def stranded_def nth_append Let_def split: outcome.split)
next
  case (l_write j fault)
  then have other: "lc_Calls c ! j \<noteq> k" using assms(2) by (auto simp: stranded_def)
  show ?thesis
  proof (cases fault)
    case (Some e)
    then show ?thesis
      using l_write stranded_end [OF assms(2) _ other] by (simp add: write_call_def write_message_def Let_def)
  next
    case None
    have "k \<in> set ((lc_Calls c)[j := q])" for q
      using remove_nth_other [of k "lc_Calls c" j] assms(2) other l_write
      by (auto simp: stranded_def upd_conv_take_nth_drop)
    then show ?thesis
      using l_write assms(2) None by (simp add: write_call_def write_message_def Let_def stranded_def)
  qed
next
  case (l_receive j resp chans)
  then have other: "lc_Calls c ! j \<noteq> k" and q: "ch_queue (lc_Chans c ! lk_Chan (lc_Calls c ! j)) \<noteq> []"
    using assms(2) by (auto simp: stranded_def receive_chan_def split: if_splits list.splits)
  have "stranded k (c\<lparr>lc_Chans := chans\<rparr>)"
    using assms(2) l_receive q
    by (auto simp: stranded_def receive_chan_def nth_list_update split: if_splits list.splits)
  then show ?thesis using stranded_end [of k "c\<lparr>lc_Chans := chans\<rparr>" j] other l_receive by simp
next
  case (l_read fault msg)
  then show ?thesis using assms(2) by (simp add: stranded_def)
next
  case l_fail
  then show ?thesis using assms(2) by (simp add: stranded_def)
next
  case (l_notify meth params msg fault)
  then show ?thesis using assms(2) by (simp add: write_message_def stranded_def split: option.split)
qed

text \<open>
  Property C36. Once the reading loop has ended, which any message that does not parse makes it do,
  a call whose request was written and whose response has not been delivered stays there for ever:
  nothing that can happen to the client ends it.
\<close>

theorem stopped_reader_strands_calls:
  assumes "(lsp_step handlers notifications)\<^sup>*\<^sup>* c c'" and "\<not> lc_Reading c" and "k \<in> set (lc_Calls c)"
    and "lk_Written k" and "lk_Chan k < length (lc_Chans c)" and "ch_queue (lc_Chans c ! lk_Chan k) = []"
  shows "k \<in> set (lc_Calls c')"
proof -
  have "stranded k c" using assms(2-) by (simp add: stranded_def)
  with assms(1) have "stranded k c'" by induction (auto intro: stranded_step)
  then show ?thesis by (simp add: stranded_def)
qed

section \<open>Runs on a client\<close>

definition called :: lsp_client where
  "called = write_call None 0 (begin_call ''hover'' (Ok ''{}'') NewLspClient)"

definition the_response :: lsp_message where
  "the_response = (empty_response 1)\<lparr>lm_Result := ''null''\<rparr>"

lemma called_fields:
  "lc_Panic called = None" "lc_Reading called" "length (lc_Calls called) = 1" "lk_Written (lc_Calls called ! 0)"
  "lk_Chan (lc_Calls called ! 0) = 0" "lk_ID (lc_Calls called ! 0) = 1" "lc_Chans called = [make_chan 1]"
  "lc_Handlers called = [(1, 0)]" "lc_Read called = []" "lc_Returned called = []"
  by code_simp+

lemma called_reachable: "lsp_reachable [] [] called"
proof -
  let ?c = "begin_call ''hover'' (Ok ''{}'') NewLspClient"
  have "lsp_step [] [] NewLspClient ?c" by (rule l_begin) (simp_all add: NewLspClient_def)
  then have c: "lsp_reachable [] [] ?c" by (rule lsp_next [OF lsp_start])
  have "lc_Panic ?c = None" "0 < length (lc_Calls ?c)" "\<not> lk_Written (lc_Calls ?c ! 0)" by code_simp+
  then have "lsp_step [] [] ?c called" unfolding called_def by (rule l_write)
  then show ?thesis by (rule lsp_next [OF c])
qed

definition answered :: lsp_client where
  "answered = handle_message [] [] None the_response called"

lemma answered_fields:
  "lc_Panic answered = None" "lc_Reading answered" "lc_Calls answered = lc_Calls called"
  "lc_Chans answered = [\<lparr>ch_queue = [the_response], ch_cap = 1, ch_closed = True\<rparr>]" "lc_Handlers answered = [(1, 0)]"
  by (simp_all add: answered_def handle_message_def the_response_def empty_response_def called_fields try_send_def
      close_chan_def make_chan_def offer_def Let_def)

lemma answered_reachable: "lsp_reachable [] [] answered"
  unfolding answered_def by (rule lsp_next [OF called_reachable]) (rule l_read; simp add: called_fields)

lemma no_handlers_quiet: "quiet_handlers []"
  by (simp add: quiet_handlers_def server_response_def Let_def)

theorem calls_return_their_response_witness:
  "result_ok [the_response] 1 (Ok ''null'')"
proof -
  define c where "c = end_call 0 (call_result the_response) (answered\<lparr>lc_Chans := [\<lparr>ch_queue = [], ch_cap = 1, ch_closed = True\<rparr>]\<rparr>)"
  have "lsp_step [] [] answered c"
    unfolding c_def by (rule l_receive) (simp_all add: answered_fields called_fields receive_chan_def)
  then have c: "lsp_reachable [] [] c" by (rule lsp_next [OF answered_reachable])
  have "(1, Ok ''null'') \<in> set (lc_Returned c)"
    by (simp add: c_def end_call_def Let_def answered_fields called_fields call_result_def the_response_def empty_response_def)
  then have "result_ok (lc_Read c) 1 (Ok ''null'')" by (rule calls_return_their_response [OF c no_handlers_quiet])
  moreover have "lc_Read c = [the_response]"
    by (simp add: c_def end_call_def Let_def answered_def handle_message_def called_fields the_response_def
        empty_response_def try_send_def close_chan_def make_chan_def)
  ultimately show ?thesis by simp
qed

text \<open>The second response comes before the call has taken its handler away.\<close>

theorem panic_needs_second_response_witness:
  "lc_Panic (handle_message [] [] None the_response answered) = Some ''send on closed channel'' \<and>
   (\<exists>i. 2 \<le> length (filter (is_response i) (lc_Read (handle_message [] [] None the_response answered))))"
proof -
  let ?c = "handle_message [] [] None the_response answered"
  have "lsp_reachable [] [] ?c"
    by (rule lsp_next [OF answered_reachable]) (rule l_read; simp add: answered_fields)
  moreover have panic: "lc_Panic ?c = Some ''send on closed channel''"
    by (simp add: handle_message_def the_response_def empty_response_def answered_fields try_send_def Let_def)
  ultimately show ?thesis using panic_needs_second_response [OF _ no_handlers_quiet] by simp
qed

theorem stopped_reader_strands_calls_witness:
  "lc_Calls called ! 0 \<in> set (lc_Calls (begin_call ''x'' (Ok []) (called\<lparr>lc_Reading := False\<rparr>)))"
proof (rule stopped_reader_strands_calls)
  show "(lsp_step [] [])\<^sup>*\<^sup>* (called\<lparr>lc_Reading := False\<rparr>) (begin_call ''x'' (Ok []) (called\<lparr>lc_Reading := False\<rparr>))"
    by (rule r_into_rtranclp, rule l_begin) (simp_all add: called_fields)
qed (use called_fields(3) in \<open>simp_all add: called_fields make_chan_def\<close>)

end
