(* ===== verification/Speculation.thy ===== *)
theory Speculation
  imports Disputes Convergence
begin

text \<open>
  What is done with a cohort of speculative verdicts: the faithfulness of a summary to its peers
  (\<open>internal/agency/speculative_reconcile.go\<close>), the compression of verdicts whose graphs differ in one
  node (\<open>speculative_dyad.go\<close>), and the bundle of both with the attestations and the convergence gate
  (\<open>speculative_bundle.go\<close>). Numbers and hashes are those of \<open>causal_env\<close>.
\<close>

text \<open>
  \<open>canonicalWeight\<close> of \<open>speculative_merkle.go\<close>. A weight is a real number, so it is no NaN. The
  conversion to \<open>int64\<close> cuts the fraction off; what does not fit becomes the least number, as on
  amd64 (the language leaves it open).
\<close>

definition int64_of :: "real \<Rightarrow> int" where
  "int64_of x =
     (let i = (if x \<ge> 0 then \<lfloor>x\<rfloor> else \<lceil>x\<rceil>) in if - (2 ^ 63) \<le> i \<and> i < 2 ^ 63 then i else - (2 ^ 63))"

definition roundTo6 :: "causal_env \<Rightarrow> real \<Rightarrow> real" where
  "roundTo6 E w =
     (let scaled = fmul E w 1000000;
          whole = (if scaled \<ge> 0 then int64_of (fadd E scaled (1/2)) else int64_of (fsub E scaled (1/2)))
      in fdiv E (ce_Round E (real_of_int whole)) 1000000)"

definition canonicalWeight :: "causal_env \<Rightarrow> real \<Rightarrow> string" where
  "canonicalWeight E w =
     (if w > 10 ^ 308 then ''+Inf'' else if w < - (10 ^ 308) then ''-Inf''
      else ce_Format E ''%.6f'' (roundTo6 E w))"

definition leaf_of :: "causal_env \<Rightarrow> real causal_node \<Rightarrow> string" where
  "leaf_of E = canonicalLeafHash (ce_Sha E) (ce_Lower E) (canonicalWeight E)"

definition attest :: "causal_env \<Rightarrow> int \<Rightarrow> real causal_graph option \<Rightarrow> attestation" where
  "attest E = MerkleAttest (ce_Sha E) (ce_Lower E) (canonicalWeight E)"

section \<open>Reconciliation\<close>

datatype reconciliation_status = Faithful | Drifted | Fabricated | NoStatus

record reconciliation_config =
  rc_FaithfulSupport :: real
  rc_FaithfulCoverage :: real
  rc_DriftThreshold :: real
  rc_FabricatedSupport :: real
  rc_MetaNodeMinSupport :: real
  rc_WeightTolerance :: real

record node_reconciliation =
  nr_NodeID :: string
  nr_PeerSupport :: real
  nr_RoleAgreement :: real
  nr_WeightDelta :: real
  nr_SupportingPeers :: "string list"

record reconciliation_report =
  rr_ProtocolVersion :: int
  rr_Status :: reconciliation_status
  rr_SupportScore :: real
  rr_CoverageScore :: real
  rr_DriftScore :: real
  rr_NodeReports :: "node_reconciliation list"
  rr_UnsupportedIDs :: "string list"
  rr_UncoveredIDs :: "string list"
  rr_Notes :: "string list"

record peer_graph =
  pg_AgentID :: string
  pg_Graph :: "real causal_graph option"

definition applyReconciliationDefaults :: "causal_env \<Rightarrow> reconciliation_config \<Rightarrow> reconciliation_config" where
  "applyReconciliationDefaults E cfg =
     (let or = (\<lambda>x d. if x = 0 then ce_Round E d else x) in
      \<lparr>rc_FaithfulSupport = or (rc_FaithfulSupport cfg) 0.66,
       rc_FaithfulCoverage = or (rc_FaithfulCoverage cfg) 0.50,
       rc_DriftThreshold = or (rc_DriftThreshold cfg) 0.30,
       rc_FabricatedSupport = or (rc_FabricatedSupport cfg) 0.20,
       rc_MetaNodeMinSupport = or (rc_MetaNodeMinSupport cfg) 0.34,
       rc_WeightTolerance = or (rc_WeightTolerance cfg) 0.25\<rparr>)"

text \<open>First a node with the same leaf, then one with the same role and summary and a near weight.\<close>

definition compatible :: "causal_env \<Rightarrow> real \<Rightarrow> real causal_node \<Rightarrow> real causal_node \<Rightarrow> bool" where
  "compatible E weightTol m p \<longleftrightarrow> cn_Role p = cn_Role m \<and>
     normalizeSummary (ce_Lower E) (cn_Summary p) = normalizeSummary (ce_Lower E) (cn_Summary m) \<and>
     \<not> \<bar>fsub E (cn_Weight p) (cn_Weight m)\<bar> > weightTol"

definition findCompatibleNode ::
  "causal_env \<Rightarrow> real causal_graph option \<Rightarrow> real causal_node \<Rightarrow> string \<Rightarrow> real \<Rightarrow> real causal_node option" where
  "findCompatibleNode E graph m mLeaf weightTol =
     (case find (\<lambda>p. leaf_of E p = mLeaf) (graph_nodes graph) of
        Some p \<Rightarrow> Some p
      | None \<Rightarrow> find (compatible E weightTol m) (graph_nodes graph))"

definition float_sum :: "causal_env \<Rightarrow> real list \<Rightarrow> real" where
  "float_sum E xs = foldl (fadd E) 0 xs"

definition analyzeMetaNode ::
  "causal_env \<Rightarrow> real causal_node \<Rightarrow> peer_graph list \<Rightarrow> reconciliation_config \<Rightarrow> node_reconciliation" where
  "analyzeMetaNode E mNode peers cfg =
     (let mLeaf = leaf_of E mNode;
          found = concat (map (\<lambda>p. case findCompatibleNode E (pg_Graph p) mNode mLeaf (rc_WeightTolerance cfg) of
            None \<Rightarrow> [] | Some match \<Rightarrow> [(pg_AgentID p, match)]) peers);
          supporting = sort_strings (map fst found);
          roleHits = length (filter (\<lambda>(a, match). cn_Role match = cn_Role mNode) found);
          weightDeltas = map (\<lambda>(a, match). \<bar>fsub E (cn_Weight match) (cn_Weight mNode)\<bar>) found
      in \<lparr>nr_NodeID = cn_ID mNode,
          nr_PeerSupport = fdiv E (real (length supporting)) (real (length peers)),
          nr_RoleAgreement = (if supporting \<noteq> [] then fdiv E (real roleHits) (real (length supporting)) else 0),
          nr_WeightDelta = (if weightDeltas \<noteq> []
            then fdiv E (float_sum E weightDeltas) (real (length weightDeltas)) else 0),
          nr_SupportingPeers = supporting\<rparr>)"

text \<open>The peer nodes with different leaves, each as it is met first.\<close>

fun distinct_leaves :: "causal_env \<Rightarrow> string list \<Rightarrow> real causal_node list \<Rightarrow> real causal_node list" where
  "distinct_leaves E seen [] = []"
| "distinct_leaves E seen (n # ns) =
     (if leaf_of E n \<in> set seen then distinct_leaves E seen ns
      else n # distinct_leaves E (leaf_of E n # seen) ns)"

definition computeCoverage ::
  "causal_env \<Rightarrow> real causal_graph option \<Rightarrow> peer_graph list \<Rightarrow> reconciliation_config \<Rightarrow> real \<times> string list" where
  "computeCoverage E meta peers cfg =
     (let seen = distinct_leaves E [] (concat (map (\<lambda>p. graph_nodes (pg_Graph p)) peers));
          covers = (\<lambda>n. findCompatibleNode E meta n (leaf_of E n) (rc_WeightTolerance cfg) \<noteq> None)
      in if seen = [] then (0, [])
         else (fdiv E (real (length (filter covers seen))) (real (length seen)),
               sort_strings (map cn_ID (filter (\<lambda>n. \<not> covers n) seen))))"

definition hasUnsupported :: "node_reconciliation list \<Rightarrow> real \<Rightarrow> bool" where
  "hasUnsupported reports minSupport \<longleftrightarrow> list_ex (\<lambda>r. nr_PeerSupport r < minSupport) reports"

definition empty_reconciliation :: reconciliation_report where
  "empty_reconciliation = \<lparr>rr_ProtocolVersion = 1, rr_Status = NoStatus, rr_SupportScore = 0, rr_CoverageScore = 0,
     rr_DriftScore = 0, rr_NodeReports = [], rr_UnsupportedIDs = [], rr_UncoveredIDs = [], rr_Notes = []\<rparr>"

text \<open>The ladder over a report whose scores are set.\<close>

definition status_ladder :: "reconciliation_config \<Rightarrow> bool \<Rightarrow> reconciliation_report \<Rightarrow> reconciliation_report" where
  "status_ladder cfg fabricatedFlag report =
     (if fabricatedFlag
      then report\<lparr>rr_Status := Fabricated, rr_Notes := rr_Notes report @
             [''at least one meta node has no peer support and no role agreement'']\<rparr>
      else if rr_SupportScore report \<ge> rc_FaithfulSupport cfg \<and> rr_CoverageScore report \<ge> rc_FaithfulCoverage cfg \<and>
              rr_DriftScore report \<le> rc_DriftThreshold cfg \<and>
              \<not> hasUnsupported (rr_NodeReports report) (rc_MetaNodeMinSupport cfg)
      then report\<lparr>rr_Status := Faithful\<rparr>
      else report\<lparr>rr_Status := Drifted, rr_Notes := rr_Notes report @
        (if rr_CoverageScore report < rc_FaithfulCoverage cfg then [''coverage below faithful threshold''] else []) @
        (if rr_DriftScore report > rc_DriftThreshold cfg then [''weight drift above threshold''] else []) @
        (if hasUnsupported (rr_NodeReports report) (rc_MetaNodeMinSupport cfg)
         then [''one or more meta nodes below per-node support floor''] else [])\<rparr>)"

definition MetaReconcileWithConfig ::
  "causal_env \<Rightarrow> real causal_graph option \<Rightarrow> peer_graph list \<Rightarrow> reconciliation_config \<Rightarrow> reconciliation_report" where
  "MetaReconcileWithConfig E meta peers cfg0 =
     (let cfg = applyReconciliationDefaults E cfg0;
          validPeers = filter (\<lambda>p. graph_nodes (pg_Graph p) \<noteq> []) peers
      in if graph_nodes meta = []
         then empty_reconciliation\<lparr>rr_Status := Fabricated, rr_Notes := [''meta graph is empty; nothing to reconcile'']\<rparr>
         else if validPeers = []
         then empty_reconciliation\<lparr>rr_Status := Fabricated, rr_Notes := [''no non-empty peers; cannot validate meta'']\<rparr>
         else
           (let reports = map (\<lambda>m. analyzeMetaNode E m validPeers cfg) (graph_nodes meta);
                drifting = filter (\<lambda>r. nr_PeerSupport r > 0) reports;
                unsupported = filter (\<lambda>r. nr_PeerSupport r < rc_FabricatedSupport cfg) reports;
                (coverage, uncovered) = computeCoverage E meta validPeers cfg
            in status_ladder cfg (list_ex (\<lambda>r. nr_RoleAgreement r = 0) unsupported)
                 (empty_reconciliation\<lparr>rr_NodeReports := reports,
                    rr_UnsupportedIDs := map nr_NodeID unsupported,
                    rr_SupportScore := fdiv E (float_sum E (map nr_PeerSupport reports)) (real (length reports)),
                    rr_DriftScore := (if drifting \<noteq> []
                      then fdiv E (float_sum E (map nr_WeightDelta drifting)) (real (length drifting)) else 0),
                    rr_CoverageScore := coverage, rr_UncoveredIDs := uncovered\<rparr>)))"

definition MetaReconcile ::
  "causal_env \<Rightarrow> real causal_graph option \<Rightarrow> peer_graph list \<Rightarrow> reconciliation_report" where
  "MetaReconcile E meta peers = MetaReconcileWithConfig E meta peers
     \<lparr>rc_FaithfulSupport = 0, rc_FaithfulCoverage = 0, rc_DriftThreshold = 0, rc_FabricatedSupport = 0,
      rc_MetaNodeMinSupport = 0, rc_WeightTolerance = 0\<rparr>"

definition IsAcceptable :: "reconciliation_report \<Rightarrow> bool" where
  "IsAcceptable r \<longleftrightarrow> rr_Status r = Faithful \<or> rr_Status r = Drifted"

section \<open>Dyads\<close>

record 'r labeled_verdict =
  lv_ID :: string
  lv_Verdict :: "'r gist_verdict"

record node_diff =
  nd_NodeID :: string
  nd_OldRole :: string
  nd_NewRole :: string
  nd_OldWeight :: "real option"
  nd_NewWeight :: "real option"
  nd_OldSummary :: string
  nd_NewSummary :: string

record dyad_delta =
  dd_ProtocolVersion :: int
  dd_BaseVerdictID :: string
  dd_SiblingVerdictID :: string
  dd_LeafReplaced :: string
  dd_LeafIntroduced :: string
  dd_NodeMutation :: "node_diff option"
  dd_NodeAdded :: "real causal_node option"
  dd_NodeRemoved :: "string option"

record dyad_report =
  dy_ProtocolVersion :: int
  dy_SlotsBefore :: int
  dy_SlotsAfter :: int
  dy_Deltas :: "dyad_delta list"
  dy_UnpairedIDs :: "string list"

definition nodeForLeaf :: "causal_env \<Rightarrow> real causal_graph option \<Rightarrow> string \<Rightarrow> real causal_node option" where
  "nodeForLeaf E graph leaf = find (\<lambda>n. leaf_of E n = leaf) (graph_nodes graph)"

definition nodeDiff :: "real causal_node \<Rightarrow> real causal_node \<Rightarrow> node_diff" where
  "nodeDiff base sib =
     \<lparr>nd_NodeID = cn_ID base,
      nd_OldRole = (if cn_Role base \<noteq> cn_Role sib then cn_Role base else []),
      nd_NewRole = (if cn_Role base \<noteq> cn_Role sib then cn_Role sib else []),
      nd_OldWeight = (if cn_Weight base \<noteq> cn_Weight sib then Some (cn_Weight base) else None),
      nd_NewWeight = (if cn_Weight base \<noteq> cn_Weight sib then Some (cn_Weight sib) else None),
      nd_OldSummary = (if cn_Summary base \<noteq> cn_Summary sib then cn_Summary base else []),
      nd_NewSummary = (if cn_Summary base \<noteq> cn_Summary sib then cn_Summary sib else [])\<rparr>"

definition buildDyadDelta ::
  "causal_env \<Rightarrow> 'r labeled_verdict \<Rightarrow> attestation \<Rightarrow> 'r labeled_verdict \<Rightarrow> attestation \<Rightarrow> dyad_delta option" where
  "buildDyadDelta E base baseAtt sibling sibAtt =
     (let baseLeaves = at_LeafHashes baseAtt; sibLeaves = at_LeafHashes sibAtt;
          missingFromSib = remdups (filter (\<lambda>l. l \<notin> set sibLeaves) baseLeaves);
          extraInSib = remdups (filter (\<lambda>l. l \<notin> set baseLeaves) sibLeaves);
          baseGraph = gv_CausalGraph (lv_Verdict base); sibGraph = gv_CausalGraph (lv_Verdict sibling);
          delta = \<lparr>dd_ProtocolVersion = 1, dd_BaseVerdictID = lv_ID base, dd_SiblingVerdictID = lv_ID sibling,
            dd_LeafReplaced = [], dd_LeafIntroduced = [], dd_NodeMutation = None, dd_NodeAdded = None,
            dd_NodeRemoved = None\<rparr>
      in if at_LeafCount baseAtt = 0 \<or> at_LeafCount sibAtt = 0 \<or> baseLeaves = [] \<or> sibLeaves = [] then None
         else case (missingFromSib, extraInSib) of
           ([m], [x]) \<Rightarrow>
             if at_LeafCount baseAtt \<noteq> at_LeafCount sibAtt then None
             else (case (nodeForLeaf E baseGraph m, nodeForLeaf E sibGraph x) of
                 (Some baseNode, Some sibNode) \<Rightarrow>
                   if cn_ID baseNode \<noteq> cn_ID sibNode then None
                   else Some (delta\<lparr>dd_LeafReplaced := m, dd_LeafIntroduced := x,
                          dd_NodeMutation := Some (nodeDiff baseNode sibNode)\<rparr>)
               | _ \<Rightarrow> None)
         | ([], [x]) \<Rightarrow>
             if at_LeafCount sibAtt \<noteq> at_LeafCount baseAtt + 1 then None
             else (case nodeForLeaf E sibGraph x of
                 None \<Rightarrow> None
               | Some sibNode \<Rightarrow> Some (delta\<lparr>dd_LeafIntroduced := x, dd_NodeAdded := Some sibNode\<rparr>))
         | ([m], []) \<Rightarrow>
             if at_LeafCount sibAtt \<noteq> at_LeafCount baseAtt - 1 then None
             else (case nodeForLeaf E baseGraph m of
                 None \<Rightarrow> None
               | Some baseNode \<Rightarrow> Some (delta\<lparr>dd_LeafReplaced := m, dd_NodeRemoved := Some (cn_ID baseNode)\<rparr>))
         | _ \<Rightarrow> None)"

text \<open>The time of an attestation is not looked at.\<close>

definition verdict_attest :: "causal_env \<Rightarrow> 'r labeled_verdict \<Rightarrow> attestation" where
  "verdict_attest E v = attest E 0 (gv_CausalGraph (lv_Verdict v))"

definition dyad_of :: "causal_env \<Rightarrow> 'r labeled_verdict \<Rightarrow> 'r labeled_verdict \<Rightarrow> dyad_delta option" where
  "dyad_of E base sibling = buildDyadDelta E base (verdict_attest E base) sibling (verdict_attest E sibling)"

text \<open>The first partner among the verdicts that are left, and the others.\<close>

fun find_partner ::
  "causal_env \<Rightarrow> 'r labeled_verdict \<Rightarrow> 'r labeled_verdict list \<Rightarrow> (dyad_delta \<times> 'r labeled_verdict list) option" where
  "find_partner E v [] = None"
| "find_partner E v (w # ws) =
     (case dyad_of E v w of
        Some delta \<Rightarrow> Some (delta, ws)
      | None \<Rightarrow> map_option (\<lambda>(delta, rest). (delta, w # rest)) (find_partner E v ws))"

lemma find_partner_shorter: "find_partner E v ws = Some (delta, rest) \<Longrightarrow> length ws = Suc (length rest)"
  by (induction ws arbitrary: rest) (auto split: option.splits)

function dyad_loop ::
  "causal_env \<Rightarrow> 'r labeled_verdict list \<Rightarrow> 'r labeled_verdict list \<times> dyad_delta list \<times> string list" where
  "dyad_loop E [] = ([], [], [])"
| "dyad_loop E (v # vs) =
     (case find_partner E v vs of
        None \<Rightarrow> (case dyad_loop E vs of (bases, deltas, unpaired) \<Rightarrow> (v # bases, deltas, lv_ID v # unpaired))
      | Some (delta, rest) \<Rightarrow>
          (case dyad_loop E rest of (bases, deltas, unpaired) \<Rightarrow> (v # bases, delta # deltas, unpaired)))"
  by pat_completeness auto
termination
  by (relation "measure (\<lambda>(E, vs). length vs)") (auto dest: find_partner_shorter)

definition DyadCompress ::
  "causal_env \<Rightarrow> ('r labeled_verdict list \<Rightarrow> 'r labeled_verdict list) \<Rightarrow> 'r labeled_verdict list \<Rightarrow>
   'r labeled_verdict list \<times> dyad_report" where
  "DyadCompress E arrange verdicts =
     (if length verdicts < 2
      then (verdicts, \<lparr>dy_ProtocolVersion = 1, dy_SlotsBefore = int (length verdicts),
        dy_SlotsAfter = int (length verdicts), dy_Deltas = [], dy_UnpairedIDs = sort_strings (map lv_ID verdicts)\<rparr>)
      else (case dyad_loop E (arrange verdicts) of
        (bases, deltas, unpaired) \<Rightarrow>
          (bases, \<lparr>dy_ProtocolVersion = 1, dy_SlotsBefore = int (length verdicts),
            dy_SlotsAfter = int (length bases), dy_Deltas = deltas, dy_UnpairedIDs = sort_strings unpaired\<rparr>)))"

definition mutate_node :: "node_diff \<Rightarrow> real causal_node \<Rightarrow> real causal_node" where
  "mutate_node d n =
     (let n1 = (if nd_NewRole d \<noteq> [] then n\<lparr>cn_Role := nd_NewRole d\<rparr> else n);
          n2 = (case nd_NewWeight d of None \<Rightarrow> n1 | Some w \<Rightarrow> n1\<lparr>cn_Weight := w\<rparr>)
      in if nd_NewSummary d \<noteq> [] then n2\<lparr>cn_Summary := nd_NewSummary d\<rparr> else n2)"

text \<open>The first node with the identifier; None if there is none.\<close>

fun update_first :: "('a \<Rightarrow> bool) \<Rightarrow> ('a \<Rightarrow> 'a list) \<Rightarrow> 'a list \<Rightarrow> 'a list option" where
  "update_first P f [] = None"
| "update_first P f (x # xs) = (if P x then Some (f x @ xs) else map_option ((#) x) (update_first P f xs))"

definition hydrate_nodes :: "dyad_delta \<Rightarrow> real causal_node list \<Rightarrow> (string, real causal_node list) outcome" where
  "hydrate_nodes delta nodes =
     (case dd_NodeMutation delta of
        Some d \<Rightarrow> (case update_first (\<lambda>n. cn_ID n = nd_NodeID d) (\<lambda>n. [mutate_node d n]) nodes of
            None \<Rightarrow> Err ''dyad hydrate: mutation target node not found'' | Some ns \<Rightarrow> Ok ns)
      | None \<Rightarrow>
          (case dd_NodeAdded delta of
             Some n \<Rightarrow> Ok (nodes @ [n])
           | None \<Rightarrow>
               (case dd_NodeRemoved delta of
                  Some i \<Rightarrow> (case update_first (\<lambda>n. cn_ID n = i) (\<lambda>n. []) nodes of
                      None \<Rightarrow> Err ''dyad hydrate: removal target node not found'' | Some ns \<Rightarrow> Ok ns)
                | None \<Rightarrow> Err ''dyad hydrate: delta has no mutation, addition, or removal'')))"

definition DyadHydrate ::
  "causal_env \<Rightarrow> 'r labeled_verdict \<Rightarrow> dyad_delta \<Rightarrow> (string, 'r labeled_verdict) outcome" where
  "DyadHydrate E base delta =
     (case gv_CausalGraph (lv_Verdict base) of
        None \<Rightarrow> Err ''dyad hydrate: base verdict has no causal graph''
      | Some g \<Rightarrow> obind (hydrate_nodes delta (cg_Nodes g)) (\<lambda>nodes.
          Ok \<lparr>lv_ID = dd_SiblingVerdictID delta,
              lv_Verdict = SyncCausalChain E ((lv_Verdict base)\<lparr>gv_CausalGraph := Some (g\<lparr>cg_Nodes := nodes\<rparr>)\<rparr>)\<rparr>))"

section \<open>The bundle\<close>

record speculative_peer =
  sp_AgentID :: string
  sp_Verdict :: string
  sp_Confidence :: real
  sp_Graph :: "real causal_graph option"
  sp_Attestation :: attestation
  sp_InCohort :: bool

record speculative_meta =
  sm_AgentID :: string
  sm_Verdict :: string
  sm_Confidence :: real
  sm_Graph :: "real causal_graph option"
  sm_Attestation :: attestation

record speculative_bundle =
  sb_ProtocolVersion :: int
  sb_CohortID :: string
  sb_Peers :: "speculative_peer list"
  sb_Meta :: "speculative_meta option"
  sb_Convergence :: "convergence_report option"
  sb_Reconciliation :: "reconciliation_report option"
  sb_Dyads :: "dyad_report option"

definition derivedCohortID :: "causal_env \<Rightarrow> peer_attestation list \<Rightarrow> string" where
  "derivedCohortID E peers =
     (if peers = [] then ''cohort-empty''
      else ''cohort-'' @ hex_encode (take 8 (ce_Sha E
        (concat (map (\<lambda>r. r @ NUL) (sort_strings (map (\<lambda>p. at_Root (pa_Attestation p)) peers)))))))"

text \<open>The clock is read at every attestation: \<open>now k\<close> at the k-th.\<close>

definition BuildSpeculativeBundle ::
  "causal_env \<Rightarrow> (nat \<Rightarrow> int) \<Rightarrow> ('r labeled_verdict list \<Rightarrow> 'r labeled_verdict list) \<Rightarrow> string \<Rightarrow>
   'r labeled_verdict list \<Rightarrow> 'r labeled_verdict option \<Rightarrow> speculative_bundle option" where
  "BuildSpeculativeBundle E now arrange cohortID0 verdicts metaVerdict =
     (if verdicts = [] then None
      else
        (let graph = (\<lambda>lv. gv_CausalGraph (lv_Verdict lv));
             attestations = map (\<lambda>(k, lv). \<lparr>pa_AgentID = lv_ID lv, pa_Attestation = attest E (now k) (graph lv)\<rparr>)
               (enumerate 0 verdicts);
             convergence = MerkleConverge (\<lambda>a b. fdiv E (of_int a) (of_int b)) (ce_Round E 0.66) attestations;
             consensus = ConsensusBucketAgents convergence;
             peers = map (\<lambda>(lv, p). \<lparr>sp_AgentID = lv_ID lv, sp_Verdict = gv_Verdict (lv_Verdict lv),
               sp_Confidence = gv_Confidence (lv_Verdict lv), sp_Graph = CloneGraph (graph lv),
               sp_Attestation = pa_Attestation p, sp_InCohort = (lv_ID lv \<in> set consensus)\<rparr>) (zip verdicts attestations);
             (reconciliation, meta) = (case metaVerdict of
                 None \<Rightarrow> (None, None)
               | Some m \<Rightarrow> if graph m = None then (None, None)
                   else (Some (MetaReconcile E (graph m)
                          (map (\<lambda>lv. \<lparr>pg_AgentID = lv_ID lv, pg_Graph = graph lv\<rparr>) verdicts)),
                         Some \<lparr>sm_AgentID = lv_ID m, sm_Verdict = gv_Verdict (lv_Verdict m),
                           sm_Confidence = gv_Confidence (lv_Verdict m), sm_Graph = CloneGraph (graph m),
                           sm_Attestation = attest E (now (length verdicts)) (graph m)\<rparr>));
             trimmed = trim_space cohortID0
         in Some \<lparr>sb_ProtocolVersion = 1,
              sb_CohortID = (if trimmed = [] then derivedCohortID E attestations else trimmed),
              sb_Peers = peers, sb_Meta = meta, sb_Convergence = Some convergence,
              sb_Reconciliation = reconciliation, sb_Dyads = Some (snd (DyadCompress E arrange verdicts))\<rparr>))"

definition ParseSpeculativeBundle ::
  "(string \<Rightarrow> speculative_bundle option) \<Rightarrow> string \<Rightarrow> (string, speculative_bundle option) outcome" where
  "ParseSpeculativeBundle unmarshal raw =
     (let trimmed = trim_space raw in
      if trimmed = [] \<or> trimmed = ''{}'' \<or> trimmed = ''null'' then Ok None
      else (case unmarshal trimmed of
          None \<Rightarrow> Err ''parse speculative bundle''
        | Some b \<Rightarrow>
            if sb_ProtocolVersion b = 0 \<and> sb_Peers b = [] \<and> sb_Meta b = None \<and> sb_Convergence b = None \<and>
               sb_Reconciliation b = None \<and> sb_Dyads b = None
            then Ok None else Ok (Some b)))"

definition CohortAgentIDs :: "speculative_bundle option \<Rightarrow> string list" where
  "CohortAgentIDs b = (case b of None \<Rightarrow> [] | Some b \<Rightarrow> map sp_AgentID (sb_Peers b))"

definition HeadlineStatus :: "speculative_bundle option \<Rightarrow> string" where
  "HeadlineStatus bundle =
     (case bundle of
        None \<Rightarrow> ''unknown''
      | Some b \<Rightarrow>
          (case map_option cr_Status (sb_Convergence b) of
             Some Divergent \<Rightarrow> ''divergent''
           | Some Partial \<Rightarrow> ''partial''
           | _ \<Rightarrow>
               (case sb_Reconciliation b of
                  None \<Rightarrow> ''converged''
                | Some r \<Rightarrow>
                    if IsAcceptable r then ''converged''
                    else (case rr_Status r of
                        Fabricated \<Rightarrow> ''fabricated'' | Drifted \<Rightarrow> ''drifted'' | _ \<Rightarrow> ''converged''))))"

end
