(* ===== verification/Speculation_Properties.thy ===== *)
theory Speculation_Properties
  imports Speculation Shapley_Properties
begin

text \<open>When a summary is fabricated, what the scores can be, and what a compressed verdict comes back as.\<close>

section \<open>Reconciliation\<close>

lemma findCompatibleNode_None:
  "findCompatibleNode E graph m mLeaf tol = None \<longleftrightarrow>
   (\<forall>p \<in> set (graph_nodes graph). leaf_of E p \<noteq> mLeaf \<and> \<not> compatible E tol m p)"
proof (cases "find (\<lambda>p. leaf_of E p = mLeaf) (graph_nodes graph)")
  case None
  then have "\<forall>p \<in> set (graph_nodes graph). leaf_of E p \<noteq> mLeaf"
    by (auto simp: find_None_iff)
  then show ?thesis unfolding findCompatibleNode_def None option.case
    by (auto simp: find_None_iff)
next
  case (Some p)
  then have "p \<in> set (graph_nodes graph)" "leaf_of E p = mLeaf"
    by (auto simp: find_Some_iff)
  with Some show ?thesis by (auto simp: findCompatibleNode_def)
qed

lemma findCompatibleNode_role:
  assumes "findCompatibleNode E graph m (leaf_of E m) tol = Some p"
    and "\<And>q. q \<in> set (graph_nodes graph) \<Longrightarrow> leaf_of E q = leaf_of E m \<Longrightarrow> cn_Role q = cn_Role m"
  shows "cn_Role p = cn_Role m"
  using assms(1) assms(2) [of p]
  by (auto simp: findCompatibleNode_def find_Some_iff compatible_def split: option.splits)

definition found_peers :: "causal_env \<Rightarrow> real causal_node \<Rightarrow> peer_graph list \<Rightarrow> real \<Rightarrow> (string \<times> real causal_node) list" where
  "found_peers E m peers tol = concat (map (\<lambda>p. case findCompatibleNode E (pg_Graph p) m (leaf_of E m) tol of
     None \<Rightarrow> [] | Some match \<Rightarrow> [(pg_AgentID p, match)]) peers)"

lemma found_peers_empty:
  "found_peers E m peers tol = [] \<longleftrightarrow>
   list_all (\<lambda>p. findCompatibleNode E (pg_Graph p) m (leaf_of E m) tol = None) peers"
  by (induction peers) (simp_all add: found_peers_def split: option.split)

lemma found_peers_length: "length (found_peers E m peers tol) \<le> length peers"
  by (induction peers) (auto simp: found_peers_def split: option.split)

text \<open>The leaf of the node determines its role.\<close>

definition roles_agree :: "causal_env \<Rightarrow> real causal_node \<Rightarrow> peer_graph list \<Rightarrow> bool" where
  "roles_agree E m peers \<longleftrightarrow> (\<forall>p \<in> set peers. \<forall>q \<in> set (graph_nodes (pg_Graph p)).
     leaf_of E q = leaf_of E m \<longrightarrow> cn_Role q = cn_Role m)"

lemma found_peers_role:
  assumes "roles_agree E m peers" and "(a, match) \<in> set (found_peers E m peers tol)"
  shows "cn_Role match = cn_Role m"
proof -
  obtain p where "p \<in> set peers" "findCompatibleNode E (pg_Graph p) m (leaf_of E m) tol = Some match"
    using assms(2) by (auto simp: found_peers_def split: option.splits)
  then show ?thesis using findCompatibleNode_role assms(1) unfolding roles_agree_def by blast
qed

lemma sort_strings_empty [simp]: "sort_strings xs = [] \<longleftrightarrow> xs = []"
  by (metis length_sort_strings length_0_conv)

lemma analyze_support:
  "nr_PeerSupport (analyzeMetaNode E m peers cfg) =
     fdiv E (real (length (found_peers E m peers (rc_WeightTolerance cfg)))) (real (length peers))"
  by (simp add: analyzeMetaNode_def found_peers_def Let_def)

lemma analyze_agreement:
  assumes "roles_agree E m peers" and "ce_Round E 1 = 1"
  shows "nr_RoleAgreement (analyzeMetaNode E m peers cfg) =
    (if found_peers E m peers (rc_WeightTolerance cfg) = [] then 0 else 1)"
proof -
  let ?f = "found_peers E m peers (rc_WeightTolerance cfg)"
  have "filter (\<lambda>(a, match). cn_Role match = cn_Role m) ?f = ?f"
    using found_peers_role [OF assms(1)] by (auto intro: filter_True)
  moreover have "nr_RoleAgreement (analyzeMetaNode E m peers cfg) =
      (if ?f = [] then 0 else fdiv E (real (length (filter (\<lambda>(a, match). cn_Role match = cn_Role m) ?f))) (real (length ?f)))"
    unfolding analyzeMetaNode_def Let_def found_peers_def [symmetric] by simp
  ultimately show ?thesis by (simp add: fdiv_def assms(2))
qed

text \<open>The node has neither a node with its leaf nor a compatible one in any peer.\<close>

definition unsupported_node :: "causal_env \<Rightarrow> real \<Rightarrow> peer_graph list \<Rightarrow> real causal_node \<Rightarrow> bool" where
  "unsupported_node E tol peers m \<longleftrightarrow> list_all (\<lambda>p. list_all (\<lambda>q. leaf_of E q \<noteq> leaf_of E m \<and> \<not> compatible E tol m q)
     (graph_nodes (pg_Graph p))) peers"

lemma found_valid_peers:
  "found_peers E m (filter (\<lambda>p. graph_nodes (pg_Graph p) \<noteq> []) peers) tol = [] \<longleftrightarrow> unsupported_node E tol peers m"
  by (induction peers)
    (auto simp: found_peers_empty unsupported_node_def findCompatibleNode_None list_all_iff)

lemma status_ladder_fabricated: "rr_Status (status_ladder cfg flag report) = Fabricated \<longleftrightarrow> flag"
  by (simp add: status_ladder_def)


lemma defaults_fabricated:
  "rc_FabricatedSupport (applyReconciliationDefaults E cfg) =
     (if rc_FabricatedSupport cfg = 0 then ce_Round E 0.20 else rc_FabricatedSupport cfg)"
  by (simp add: applyReconciliationDefaults_def)

text \<open>
  Property C18. A meta verdict is refused as fabricated exactly when it is empty or one of its nodes
  has no counterpart (same leaf, or same role and summary and a weight within the tolerance) in any
  peer; one node supported by a single peer, however many peers deny it, is never fabricated.
  Leaf hashes are taken to determine the role, and the small rational numbers to be exact.\<close>

theorem fabricated_iff_unsupported:
  assumes "list_all (\<lambda>m. roles_agree E m peers) (graph_nodes meta)"
    and "ce_Round E 0 = 0" and "ce_Round E 1 = 1" and "0 < ce_Round E 0.20"
  shows "rr_Status (MetaReconcile E meta peers) = Fabricated \<longleftrightarrow>
    graph_nodes meta = [] \<or>
    list_ex (unsupported_node E (ce_Round E 0.25) peers) (graph_nodes meta)"
proof -
  define cfg where "cfg = applyReconciliationDefaults E
    \<lparr>rc_FaithfulSupport = 0, rc_FaithfulCoverage = 0, rc_DriftThreshold = 0, rc_FabricatedSupport = 0,
      rc_MetaNodeMinSupport = 0, rc_WeightTolerance = 0\<rparr>"
  define valid where "valid = filter (\<lambda>p. graph_nodes (pg_Graph p) \<noteq> []) peers"
  have cfg: "rc_FabricatedSupport cfg = ce_Round E 0.20" "rc_WeightTolerance cfg = ce_Round E 0.25"
    by (simp_all add: cfg_def applyReconciliationDefaults_def)
  have agree: "roles_agree E m valid" if "m \<in> set (graph_nodes meta)" for m
    using assms(1) that by (auto simp: roles_agree_def valid_def list_all_iff)
  have found: "found_peers E m valid tol = [] \<longleftrightarrow> unsupported_node E tol peers m" for m tol
    by (simp add: valid_def found_valid_peers)
  have report: "nr_PeerSupport (analyzeMetaNode E m valid cfg) < rc_FabricatedSupport cfg \<and>
      nr_RoleAgreement (analyzeMetaNode E m valid cfg) = 0 \<longleftrightarrow>
      unsupported_node E (ce_Round E 0.25) peers m" if "m \<in> set (graph_nodes meta)" for m
    using agree [OF that] found [of m "ce_Round E 0.25"] assms(2,3,4)
    by (cases "found_peers E m valid (ce_Round E 0.25) = []") (auto simp: analyze_support analyze_agreement cfg fdiv_def)
  have none: "valid = [] \<Longrightarrow> unsupported_node E tol peers m" for tol m
    by (auto simp: valid_def unsupported_node_def filter_empty_conv list_all_iff)
  show ?thesis
    using report none [of "ce_Round E 0.25"]
    unfolding MetaReconcile_def MetaReconcileWithConfig_def Let_def cfg_def [symmetric] valid_def [symmetric]
    by (auto simp: status_ladder_fabricated list_ex_iff split: prod.split)
       (metis list.set_intros(1) neq_Nil_conv)+
qed


theorem fabricated_iff_unsupported_witness:
  "rr_Status (MetaReconcile exact_env (Some \<lparr>cg_ProtocolVersion = 1, cg_Nodes = [plain_node ''a'' ''outcome'' 1]\<rparr>)
     [\<lparr>pg_AgentID = ''p'', pg_Graph = Some \<lparr>cg_ProtocolVersion = 1, cg_Nodes = [plain_node ''b'' ''evidence'' 1]\<rparr>\<rparr>]) =
   Fabricated"
proof -
  let ?meta = "Some \<lparr>cg_ProtocolVersion = 1, cg_Nodes = [plain_node ''a'' ''outcome'' 1]\<rparr>"
  let ?peers = "[\<lparr>pg_AgentID = ''p'', pg_Graph = Some \<lparr>cg_ProtocolVersion = 1, cg_Nodes = [plain_node ''b'' ''evidence'' 1]\<rparr>\<rparr>]"
  have leaves: "leaf_of exact_env (plain_node ''b'' ''evidence'' 1) \<noteq> leaf_of exact_env (plain_node ''a'' ''outcome'' 1)" (is "?p \<noteq> ?q")
  proof
    assume "?p = ?q"
    then have "hex_decode ?p = hex_decode ?q" by simp
    then show False
      by (simp add: leaf_of_def canonicalLeafHash_def leaf_preimage_def exact_env_def plain_node_def writeNUL_def)
  qed
  show ?thesis
    using fabricated_iff_unsupported [of exact_env ?peers ?meta] leaves
    by (simp add: roles_agree_def graph_nodes_def exact_env_def unsupported_node_def compatible_def plain_node_def)
qed


text \<open>Sums of rounded numbers, where rounding keeps order and small naturals.\<close>

lemma float_sum_le:
  assumes "mono (ce_Round E)" and "\<And>k. k \<le> length xs \<Longrightarrow> ce_Round E (real k) = real k"
    and "\<And>x. x \<in> set xs \<Longrightarrow> 0 \<le> x \<and> x \<le> 1"
  shows "0 \<le> float_sum E xs \<and> float_sum E xs \<le> real (length xs)"
  using assms(2,3)
proof (induction xs rule: rev_induct)
  case Nil
  then show ?case by (simp add: float_sum_def)
next
  case (snoc x xs)
  have IH: "0 \<le> float_sum E xs" "float_sum E xs \<le> real (length xs)"
    using snoc by auto
  have exact: "ce_Round E 0 = 0" "ce_Round E (real (Suc (length xs))) = real (Suc (length xs))"
    using snoc.prems(1) [of 0] snoc.prems(1) [of "Suc (length xs)"] by auto
  have "0 \<le> x" "x \<le> 1" using snoc.prems(2) [of x] by auto
  then have "ce_Round E 0 \<le> ce_Round E (float_sum E xs + x)"
      "ce_Round E (float_sum E xs + x) \<le> ce_Round E (real (Suc (length xs)))"
    using IH monoD [OF assms(1)] by simp_all
  then show ?case using exact by (simp add: float_sum_def fadd_def)
qed

lemma fdiv_unit:
  assumes "mono (ce_Round E)" and "ce_Round E 0 = 0" and "ce_Round E 1 = 1" and "0 \<le> a" and "a \<le> b"
  shows "0 \<le> fdiv E a b \<and> fdiv E a b \<le> 1"
proof -
  have "0 \<le> a / b" "a / b \<le> 1" using assms(4,5) by (auto simp: divide_le_eq_1)
  then show ?thesis using monoD [OF assms(1)] assms(2,3) unfolding fdiv_def by metis
qed

lemma coverage_unit:
  assumes "mono (ce_Round E)" and "ce_Round E 0 = 0" and "ce_Round E 1 = 1"
    and "computeCoverage E meta peers cfg = (c, u)"
  shows "0 \<le> c \<and> c \<le> 1"
  using assms(4) fdiv_unit [OF assms(1-3)]
  by (auto simp: computeCoverage_def Let_def length_filter_le split: if_splits)

lemma status_ladder_scores:
  "rr_SupportScore (status_ladder cfg flag r) = rr_SupportScore r"
  "rr_CoverageScore (status_ladder cfg flag r) = rr_CoverageScore r"
  by (simp_all add: status_ladder_def)

text \<open>
  Property C37. Whatever the meta verdict, the peers and the configuration, the support and the
  coverage reported are fractions between 0 and 1, when rounding is monotone and exact on the
  naturals up to the number of meta nodes.\<close>

theorem scores_are_fractions:
  assumes "mono (ce_Round E)"
    and "\<And>k. k \<le> max 1 (length (graph_nodes meta)) \<Longrightarrow> ce_Round E (real k) = real k"
  shows "0 \<le> rr_SupportScore (MetaReconcileWithConfig E meta peers cfg) \<and>
    rr_SupportScore (MetaReconcileWithConfig E meta peers cfg) \<le> 1 \<and>
    0 \<le> rr_CoverageScore (MetaReconcileWithConfig E meta peers cfg) \<and>
    rr_CoverageScore (MetaReconcileWithConfig E meta peers cfg) \<le> 1"
proof -
  have exact: "ce_Round E 0 = 0" "ce_Round E 1 = 1"
    using assms(2) [of 0] assms(2) [of 1] by auto
  note unit = fdiv_unit [OF assms(1) exact]
  have support: "0 \<le> nr_PeerSupport (analyzeMetaNode E m ps c) \<and> nr_PeerSupport (analyzeMetaNode E m ps c) \<le> 1" for m ps c
    by (simp add: analyze_support unit found_peers_length)
  have sum: "0 \<le> float_sum E (map (\<lambda>m. nr_PeerSupport (analyzeMetaNode E m ps c)) (graph_nodes meta)) \<and>
      float_sum E (map (\<lambda>m. nr_PeerSupport (analyzeMetaNode E m ps c)) (graph_nodes meta)) \<le>
        real (length (map (\<lambda>m. nr_PeerSupport (analyzeMetaNode E m ps c)) (graph_nodes meta)))" for ps c
    by (rule float_sum_le [OF assms(1)]) (use assms(2) support in auto)
  have total: "0 \<le> fdiv E (float_sum E (map (\<lambda>m. nr_PeerSupport (analyzeMetaNode E m ps c)) (graph_nodes meta)))
        (real (length (graph_nodes meta))) \<and>
      fdiv E (float_sum E (map (\<lambda>m. nr_PeerSupport (analyzeMetaNode E m ps c)) (graph_nodes meta)))
        (real (length (graph_nodes meta))) \<le> 1" for ps c
    using sum [of ps c] by (intro unit) simp_all
  show ?thesis
    using total coverage_unit [OF assms(1) exact]
    by (simp add: MetaReconcileWithConfig_def Let_def status_ladder_scores empty_reconciliation_def comp_def
        split: prod.split)
qed

theorem scores_are_fractions_witness:
  "rr_SupportScore (MetaReconcileWithConfig exact_env (Some \<lparr>cg_ProtocolVersion = 1, cg_Nodes = [plain_node ''a'' ''outcome'' 1]\<rparr>)
     [\<lparr>pg_AgentID = ''p'', pg_Graph = None\<rparr>] (applyReconciliationDefaults exact_env
       \<lparr>rc_FaithfulSupport = 0, rc_FaithfulCoverage = 0, rc_DriftThreshold = 0, rc_FabricatedSupport = 0,
        rc_MetaNodeMinSupport = 0, rc_WeightTolerance = 0\<rparr>)) \<le> 1"
  by (rule conjunct1 [OF conjunct2 [OF scores_are_fractions]]) (simp_all add: exact_env_def mono_def)

section \<open>Dyads\<close>

abbreviation verdict_nodes :: "'r labeled_verdict \<Rightarrow> real causal_node list" where
  "verdict_nodes v \<equiv> graph_nodes (gv_CausalGraph (lv_Verdict v))"

abbreviation verdict_leaves :: "causal_env \<Rightarrow> 'r labeled_verdict \<Rightarrow> string list" where
  "verdict_leaves E v \<equiv> map (leaf_of E) (verdict_nodes v)"

lemma verdict_attest_eq:
  "verdict_attest E v = (if verdict_nodes v = []
     then \<lparr>at_ProtocolVersion = MerkleAttestProtocolVersion, at_Root = emptyMerkleRoot (ce_Sha E),
            at_LeafCount = 0, at_LeafHashes = [], at_GraphSize = 0, at_AttestedAt = 0\<rparr>
     else \<lparr>at_ProtocolVersion = MerkleAttestProtocolVersion,
            at_Root = merkleRootFromSortedLeaves (ce_Sha E) (sort_strings (verdict_leaves E v)),
            at_LeafCount = int (length (verdict_nodes v)), at_LeafHashes = sort_strings (verdict_leaves E v),
            at_GraphSize = int (length (verdict_nodes v)), at_AttestedAt = 0\<rparr>)"
  by (simp add: verdict_attest_def attest_def MerkleAttest_def MerkleAttestWithConfig_def graph_nodes_def
      leaf_of_def Let_def)

lemma verdict_attest_mset:
  assumes "mset (verdict_leaves E v) = mset (verdict_leaves E w)"
  shows "verdict_attest E v = verdict_attest E w"
proof -
  have "length (verdict_leaves E v) = length (verdict_leaves E w)"
    using assms by (rule mset_eq_length)
  moreover have "sort_strings (verdict_leaves E v) = sort_strings (verdict_leaves E w)"
    using assms by (simp only: sort_strings_eq_iff)
  ultimately show ?thesis by (simp add: verdict_attest_eq del: sort_strings_eq_iff) auto
qed

lemma nodeForLeaf_SomeD:
  "nodeForLeaf E g l = Some n \<Longrightarrow> n \<in> set (graph_nodes g) \<and> leaf_of E n = l"
  by (auto simp: nodeForLeaf_def find_Some_iff)

lemma update_first_split:
  assumes "distinct (map cn_ID nodes)" and "n \<in> set nodes"
  shows "\<exists>xs ys. nodes = xs @ n # ys \<and> update_first (\<lambda>k. cn_ID k = cn_ID n) f nodes = Some (xs @ f n @ ys)"
  using assms
proof (induction nodes)
  case (Cons k nodes)
  show ?case
  proof (cases "k = n")
    case True
    then show ?thesis by (intro exI [of _ "[]"] exI [of _ nodes]) simp
  next
    case False
    then have "n \<in> set nodes" and "cn_ID k \<noteq> cn_ID n" using Cons.prems by auto
    then obtain xs ys where "nodes = xs @ n # ys"
        "update_first (\<lambda>k. cn_ID k = cn_ID n) f nodes = Some (xs @ f n @ ys)"
      using Cons by auto
    then show ?thesis
      using \<open>cn_ID k \<noteq> cn_ID n\<close> by (intro exI [of _ "k # xs"] exI [of _ ys]) simp
  qed
qed simp

text \<open>The three shapes of a delta.\<close>

lemma dyad_cases:
  assumes "dyad_of E base sib = Some delta"
  obtains (mutation) b s where "b \<in> set (verdict_nodes base)" "s \<in> set (verdict_nodes sib)" "cn_ID b = cn_ID s"
      "set (verdict_leaves E base) - set (verdict_leaves E sib) = {leaf_of E b}"
      "set (verdict_leaves E sib) - set (verdict_leaves E base) = {leaf_of E s}"
      "dd_NodeMutation delta = Some (nodeDiff b s)" "dd_SiblingVerdictID delta = lv_ID sib"
  | (addition) s where "s \<in> set (verdict_nodes sib)"
      "set (verdict_leaves E base) - set (verdict_leaves E sib) = {}"
      "set (verdict_leaves E sib) - set (verdict_leaves E base) = {leaf_of E s}"
      "dd_NodeMutation delta = None" "dd_NodeAdded delta = Some s" "dd_SiblingVerdictID delta = lv_ID sib"
  | (removal) b where "b \<in> set (verdict_nodes base)"
      "set (verdict_leaves E base) - set (verdict_leaves E sib) = {leaf_of E b}"
      "set (verdict_leaves E sib) - set (verdict_leaves E base) = {}"
      "dd_NodeMutation delta = None" "dd_NodeAdded delta = None" "dd_NodeRemoved delta = Some (cn_ID b)"
      "dd_SiblingVerdictID delta = lv_ID sib"
proof -
  let ?B = "sort_strings (verdict_leaves E base)" and ?S = "sort_strings (verdict_leaves E sib)"
  have ne: "verdict_nodes base \<noteq> []" "verdict_nodes sib \<noteq> []"
    using assms by (auto simp: dyad_of_def buildDyadDelta_def verdict_attest_eq Let_def split: if_splits)
  define mb where "mb = remdups (filter (\<lambda>l. l \<notin> set ?S) ?B)"
  define ms where "ms = remdups (filter (\<lambda>l. l \<notin> set ?B) ?S)"
  have sets: "set mb = set (verdict_leaves E base) - set (verdict_leaves E sib)"
      "set ms = set (verdict_leaves E sib) - set (verdict_leaves E base)"
    by (auto simp: mb_def ms_def)
  have leaves: "at_LeafHashes (verdict_attest E base) = ?B" "at_LeafHashes (verdict_attest E sib) = ?S"
    using ne by (simp_all add: verdict_attest_eq)
  note body = assms [unfolded dyad_of_def buildDyadDelta_def Let_def leaves, folded mb_def ms_def]
  consider (M) m x where "mb = [m]" "ms = [x]" | (A) x where "mb = []" "ms = [x]"
    | (R) m where "mb = [m]" "ms = []"
    using body
    by (cases mb; cases "tl mb"; cases ms; cases "tl ms") (simp_all split: if_splits)
  then show thesis
  proof cases
    case M
    then obtain b s where n: "nodeForLeaf E (gv_CausalGraph (lv_Verdict base)) m = Some b"
        "nodeForLeaf E (gv_CausalGraph (lv_Verdict sib)) x = Some s" "cn_ID b = cn_ID s"
        "dd_NodeMutation delta = Some (nodeDiff b s)" "dd_SiblingVerdictID delta = lv_ID sib"
      using body by (auto split: if_splits option.splits)
    show thesis
      using mutation [of b s] n sets M nodeForLeaf_SomeD [OF n(1)] nodeForLeaf_SomeD [OF n(2)] by simp
  next
    case A
    then obtain s where n: "nodeForLeaf E (gv_CausalGraph (lv_Verdict sib)) x = Some s"
        "dd_NodeMutation delta = None" "dd_NodeAdded delta = Some s" "dd_SiblingVerdictID delta = lv_ID sib"
      using body by (auto split: if_splits option.splits)
    show thesis using addition [of s] n sets A nodeForLeaf_SomeD [OF n(1)] by simp
  next
    case R
    then obtain b where n: "nodeForLeaf E (gv_CausalGraph (lv_Verdict base)) m = Some b"
        "dd_NodeMutation delta = None" "dd_NodeAdded delta = None" "dd_NodeRemoved delta = Some (cn_ID b)"
        "dd_SiblingVerdictID delta = lv_ID sib"
      using body by (auto split: if_splits option.splits)
    show thesis using removal [of b] n sets R nodeForLeaf_SomeD [OF n(1)] by simp
  qed
qed

lemma mutate_nodeDiff:
  fixes b s :: "real causal_node"
  assumes "cn_ID b = cn_ID s" and "cn_Parents b = cn_Parents s" and "cn_AtomRefs b = cn_AtomRefs s"
    and "cn_Meta b = cn_Meta s" and "cn_Role s \<noteq> []" and "cn_Summary s \<noteq> []"
  shows "mutate_node (nodeDiff b s) b = s"
  using assms by (intro causal_node.equality) (simp_all add: mutate_node_def nodeDiff_def Let_def)

lemma hydrate_graph:
  assumes "verdict_nodes base \<noteq> []" and "hydrate_nodes delta (verdict_nodes base) = Ok ns"
  shows "\<exists>v. DyadHydrate E base delta = Ok v \<and> lv_ID v = dd_SiblingVerdictID delta \<and> verdict_nodes v = ns \<and>
    gv_Verdict (lv_Verdict v) = gv_Verdict (lv_Verdict base)"
proof -
  obtain g where g: "gv_CausalGraph (lv_Verdict base) = Some g"
    using assms(1) by (cases "gv_CausalGraph (lv_Verdict base)") (auto simp: graph_nodes_def)
  then have "hydrate_nodes delta (cg_Nodes g) = Ok ns" using assms(2) by (simp add: graph_nodes_def)
  then show ?thesis by (simp add: DyadHydrate_def SyncCausalChain_def graph_nodes_def g)
qed

lemma kept_leaves:
  assumes "distinct (xs @ m # ys)" and "set (xs @ m # ys) - S = {m}"
  shows "m \<notin> S" and "set xs \<union> set ys \<subseteq> S"
proof -
  show "m \<notin> S" using assms(2) by blast
  show "set xs \<union> set ys \<subseteq> S"
  proof
    fix y assume y: "y \<in> set xs \<union> set ys"
    then have "y \<noteq> m" "y \<in> set (xs @ m # ys)" using assms(1) by auto
    then show "y \<in> S" using assms(2) by blast
  qed
qed

lemma swapped_leaves:
  assumes "distinct (xs @ m # ys)" and "set (xs @ m # ys) - S = {m}" and "S - set (xs @ m # ys) = {x}"
  shows "distinct (xs @ x # ys)" and "set (xs @ x # ys) = S"
proof -
  note kept = kept_leaves [OF assms(1,2)]
  have x: "x \<in> S" "x \<notin> set (xs @ m # ys)" using assms(3) by blast+
  show "distinct (xs @ x # ys)" using x(2) assms(1) by simp
  have "S \<subseteq> insert x (set (xs @ m # ys))" using assms(3) by blast
  then show "set (xs @ x # ys) = S" using kept x(1) by auto
qed

lemma dropped_leaves:
  assumes "distinct (xs @ m # ys)" and "set (xs @ m # ys) - S = {m}" and "S - set (xs @ m # ys) = {}"
  shows "distinct (xs @ ys)" and "set (xs @ ys) = S"
proof -
  note kept = kept_leaves [OF assms(1,2)]
  show "distinct (xs @ ys)" using assms(1) by simp
  have "S \<subseteq> set (xs @ m # ys)" using assms(3) by blast
  then show "set (xs @ ys) = S" using kept by auto
qed

text \<open>
  Property C19. Hydrating the delta a pair was compressed to gives a verdict with the sibling's
  identifier and Merkle attestation, when both verdicts have distinct leaves, the base distinct node
  identifiers, and nodes of the two with the same identifier have the same parents, atom references
  and metadata, and a role and a summary in the sibling.\<close>

theorem dyad_hydrates_sibling:
  assumes "dyad_of E base sib = Some delta"
    and "distinct (map (leaf_of E) (graph_nodes (gv_CausalGraph (lv_Verdict base))))"
    and "distinct (map (leaf_of E) (graph_nodes (gv_CausalGraph (lv_Verdict sib))))"
    and "distinct (map cn_ID (graph_nodes (gv_CausalGraph (lv_Verdict base))))"
    and "\<And>b s. \<lbrakk>b \<in> set (graph_nodes (gv_CausalGraph (lv_Verdict base)));
        s \<in> set (graph_nodes (gv_CausalGraph (lv_Verdict sib))); cn_ID b = cn_ID s\<rbrakk> \<Longrightarrow>
      cn_Parents b = cn_Parents s \<and> cn_AtomRefs b = cn_AtomRefs s \<and> cn_Meta b = cn_Meta s \<and>
      cn_Role s \<noteq> [] \<and> cn_Summary s \<noteq> []"
  shows "\<exists>v. DyadHydrate E base delta = Ok v \<and> lv_ID v = lv_ID sib \<and>
    verdict_attest E v = verdict_attest E sib"
proof -
  have "\<exists>ns. hydrate_nodes delta (verdict_nodes base) = Ok ns \<and>
      distinct (map (leaf_of E) ns) \<and> leaf_of E ` set ns = leaf_of E ` set (verdict_nodes sib)"
    using assms(1)
  proof (cases rule: dyad_cases)
    case (mutation b s)
    obtain xs ys where split: "verdict_nodes base = xs @ b # ys"
        "update_first (\<lambda>k. cn_ID k = cn_ID b) (\<lambda>n. [mutate_node (nodeDiff b s) n]) (verdict_nodes base) =
           Some (xs @ [mutate_node (nodeDiff b s) b] @ ys)"
      using update_first_split [OF assms(4) mutation(1)] by blast
    have "mutate_node (nodeDiff b s) b = s"
      using assms(5) [OF mutation(1-3)] mutation(3) by (simp add: mutate_nodeDiff)
    moreover have "nd_NodeID (nodeDiff b s) = cn_ID b" by (simp add: nodeDiff_def)
    ultimately have hydrated: "hydrate_nodes delta (verdict_nodes base) = Ok (xs @ s # ys)"
      using split(2) mutation(6) by (simp add: hydrate_nodes_def)
    let ?xs = "map (leaf_of E) xs" and ?ys = "map (leaf_of E) ys"
    have base: "distinct (?xs @ leaf_of E b # ?ys)"
        "set (?xs @ leaf_of E b # ?ys) - set (verdict_leaves E sib) = {leaf_of E b}"
        "set (verdict_leaves E sib) - set (?xs @ leaf_of E b # ?ys) = {leaf_of E s}"
      using assms(2) mutation(4,5) by (simp_all add: split(1))
    show ?thesis
      using hydrated swapped_leaves [OF base] by (intro exI [of _ "xs @ s # ys"]) (simp add: image_Un)
  next
    case (addition s)
    then show ?thesis using assms(2) by (auto simp: hydrate_nodes_def)
  next
    case (removal b)
    obtain xs ys where split: "verdict_nodes base = xs @ b # ys"
        "update_first (\<lambda>k. cn_ID k = cn_ID b) (\<lambda>n. []) (verdict_nodes base) = Some (xs @ [] @ ys)"
      using update_first_split [OF assms(4) removal(1)] by blast
    then have hydrated: "hydrate_nodes delta (verdict_nodes base) = Ok (xs @ ys)"
      using removal(4,5,6) by (simp add: hydrate_nodes_def)
    let ?xs = "map (leaf_of E) xs" and ?ys = "map (leaf_of E) ys"
    have base: "distinct (?xs @ leaf_of E b # ?ys)"
        "set (?xs @ leaf_of E b # ?ys) - set (verdict_leaves E sib) = {leaf_of E b}"
        "set (verdict_leaves E sib) - set (?xs @ leaf_of E b # ?ys) = {}"
      using assms(2) removal(2,3) by (simp_all add: split(1))
    show ?thesis
      using hydrated dropped_leaves [OF base] by (intro exI [of _ "xs @ ys"]) (simp add: image_Un)
  qed
  then obtain ns where ns: "hydrate_nodes delta (verdict_nodes base) = Ok ns" "distinct (map (leaf_of E) ns)"
      "leaf_of E ` set ns = leaf_of E ` set (verdict_nodes sib)" by blast
  have "verdict_nodes base \<noteq> []"
    using assms(1) by (auto simp: dyad_of_def buildDyadDelta_def verdict_attest_eq)
  moreover have sibling: "dd_SiblingVerdictID delta = lv_ID sib"
    using assms(1) by (rule dyad_cases)
  ultimately obtain v where v: "DyadHydrate E base delta = Ok v"
      "lv_ID v = lv_ID sib" "verdict_nodes v = ns"
    using hydrate_graph [OF _ ns(1)] by metis
  have "mset (verdict_leaves E v) = mset (verdict_leaves E sib)"
    using ns v(3) assms(3) by (subst set_eq_iff_mset_eq_distinct [symmetric]) simp_all
  then show ?thesis using v verdict_attest_mset by blast
qed

definition one_node_verdict :: "string \<Rightarrow> string \<Rightarrow> real causal_node \<Rightarrow> unit labeled_verdict" where
  "one_node_verdict i t n = \<lparr>lv_ID = i, lv_Verdict = \<lparr>gv_Verdict = t, gv_Confidence = 0, gv_CausalChain = [],
     gv_CausalGraph = Some \<lparr>cg_ProtocolVersion = 1, cg_Nodes = [n]\<rparr>, gv_OpenQuestions = [], gv_ExecutionIntent = [],
     gv_RiskLevel = [], gv_Degraded = False, gv_DegradedReason = [], gv_PearlPlan = None, gv_Attribution = [],
     gv_Rest = ()\<rparr>\<rparr>"

lemma one_node_nodes [simp]: "verdict_nodes (one_node_verdict i t n) = [n]"
  by (simp add: one_node_verdict_def graph_nodes_def)

lemma one_node_fields [simp]:
  "lv_ID (one_node_verdict i t n) = i" "gv_Verdict (lv_Verdict (one_node_verdict i t n)) = t"
  by (simp_all add: one_node_verdict_def)

lemma sort_strings_single [simp]: "sort_strings [x] = [x]"
  by (simp add: sort_strings_def)

lemma dyad_one_node:
  assumes "leaf_of E b \<noteq> leaf_of E s" and "cn_ID b = cn_ID s"
  shows "dyad_of E (one_node_verdict i t b) (one_node_verdict j u s) = Some
    \<lparr>dd_ProtocolVersion = 1, dd_BaseVerdictID = i, dd_SiblingVerdictID = j, dd_LeafReplaced = leaf_of E b,
     dd_LeafIntroduced = leaf_of E s, dd_NodeMutation = Some (nodeDiff b s), dd_NodeAdded = None,
     dd_NodeRemoved = None\<rparr>"
  using assms by (simp add: dyad_of_def buildDyadDelta_def verdict_attest_eq nodeForLeaf_def)

definition told_node :: "string \<Rightarrow> string list \<Rightarrow> real causal_node" where
  "told_node r ps = (plain_node ''a'' r 1)\<lparr>cn_Summary := ''s'', cn_Parents := ps\<rparr>"

lemma told_leaves:
  "leaf_of exact_env (told_node ''outcome'' []) \<noteq> leaf_of exact_env (told_node ''evidence'' [])"
  "leaf_of exact_env (told_node ''outcome'' []) \<noteq> leaf_of exact_env (told_node ''outcome'' [''q''])"
proof -
  have decode: "leaf_of exact_env m = leaf_of exact_env n \<Longrightarrow>
      leaf_preimage to_lower_ascii (canonicalWeight exact_env) m = leaf_preimage to_lower_ascii (canonicalWeight exact_env) n" for m n
    unfolding leaf_of_def canonicalLeafHash_def exact_env_def
    by (drule arg_cong [where f = hex_decode]) simp
  show "leaf_of exact_env (told_node ''outcome'' []) \<noteq> leaf_of exact_env (told_node ''evidence'' [])"
    by (auto dest!: decode simp: leaf_preimage_def told_node_def plain_node_def writeNUL_def)
  show "leaf_of exact_env (told_node ''outcome'' []) \<noteq> leaf_of exact_env (told_node ''outcome'' [''q''])"
    by (auto dest!: decode simp: leaf_preimage_def told_node_def plain_node_def writeNUL_def sortedJoin_def NUL_def)
qed

theorem dyad_hydrates_sibling_witness:
  "\<exists>delta v. DyadHydrate exact_env (one_node_verdict ''i'' ''t'' (told_node ''outcome'' [])) delta = Ok v \<and>
     lv_ID v = ''j'' \<and>
     verdict_attest exact_env v = verdict_attest exact_env (one_node_verdict ''j'' ''t'' (told_node ''evidence'' []))"
proof -
  have "cn_ID (told_node ''outcome'' []) = cn_ID (told_node ''evidence'' [])" by (simp add: told_node_def plain_node_def)
  from dyad_hydrates_sibling [OF dyad_one_node [OF told_leaves(1) this, of "''i''" "''t''" "''j''" "''t''"]]
  show ?thesis by (auto simp: told_node_def plain_node_def)
qed

text \<open>
  A delta keeps neither the sibling's text nor the parents of its node: two verdicts
  that say ''yes'' and ''no'' over a node with other parents are compressed to the first, and what is
  hydrated for the second has the first one's text and leaf.\<close>

theorem dyad_drops_text_and_parents:
  "\<exists>delta v.
     DyadCompress exact_env (\<lambda>vs. vs) [one_node_verdict ''i'' ''yes'' (told_node ''outcome'' []),
       one_node_verdict ''j'' ''no'' (told_node ''outcome'' [''q''])] =
       ([one_node_verdict ''i'' ''yes'' (told_node ''outcome'' [])],
        \<lparr>dy_ProtocolVersion = 1, dy_SlotsBefore = 2, dy_SlotsAfter = 1, dy_Deltas = [delta], dy_UnpairedIDs = []\<rparr>) \<and>
     DyadHydrate exact_env (one_node_verdict ''i'' ''yes'' (told_node ''outcome'' [])) delta = Ok v \<and>
     lv_ID v = ''j'' \<and> gv_Verdict (lv_Verdict v) = ''yes'' \<and>
     verdict_attest exact_env v \<noteq> verdict_attest exact_env (one_node_verdict ''j'' ''no'' (told_node ''outcome'' [''q'']))"
proof -
  let ?b = "told_node ''outcome'' []" and ?s = "told_node ''outcome'' [''q'']"
  have "cn_ID ?b = cn_ID ?s" by (simp add: told_node_def plain_node_def)
  note delta = dyad_one_node [OF told_leaves(2) this, of "''i''" "''yes''" "''j''" "''no''"]
  have mutated: "mutate_node (nodeDiff ?b ?s) ?b = ?b" "nd_NodeID (nodeDiff ?b ?s) = cn_ID ?b"
    by (simp_all add: mutate_node_def nodeDiff_def told_node_def plain_node_def)
  obtain d where d: "dyad_of exact_env (one_node_verdict ''i'' ''yes'' ?b) (one_node_verdict ''j'' ''no'' ?s) = Some d"
      "dd_NodeMutation d = Some (nodeDiff ?b ?s)" "dd_SiblingVerdictID d = ''j''"
    using delta by simp
  have "hydrate_nodes d (verdict_nodes (one_node_verdict ''i'' ''yes'' ?b)) = Ok [?b]"
    using mutated d(2) by (simp add: hydrate_nodes_def)
  then obtain v where v: "DyadHydrate exact_env (one_node_verdict ''i'' ''yes'' ?b) d = Ok v" "lv_ID v = ''j''"
      "verdict_nodes v = [?b]" "gv_Verdict (lv_Verdict v) = ''yes''"
    using hydrate_graph [of "one_node_verdict ''i'' ''yes'' ?b" d "[?b]" exact_env] d(3) by auto
  have "verdict_attest exact_env v \<noteq> verdict_attest exact_env (one_node_verdict ''j'' ''no'' ?s)"
    using told_leaves(2) v(3) by (simp add: verdict_attest_eq)
  moreover have "DyadCompress exact_env (\<lambda>vs. vs) [one_node_verdict ''i'' ''yes'' ?b, one_node_verdict ''j'' ''no'' ?s] =
      ([one_node_verdict ''i'' ''yes'' ?b],
       \<lparr>dy_ProtocolVersion = 1, dy_SlotsBefore = 2, dy_SlotsAfter = 1, dy_Deltas = [d], dy_UnpairedIDs = []\<rparr>)"
    by (simp add: DyadCompress_def d(1))
  ultimately show ?thesis using v by blast
qed

section \<open>The headline\<close>

text \<open>
  The headline of a bundle never says that the meta verdict drifted, although its last
  case is there for that: a drifted bundle whose cohort is not split reads ''converged''.\<close>

theorem headline_hides_drift:
  "HeadlineStatus bundle \<noteq> ''drifted'' \<and>
   HeadlineStatus (Some \<lparr>sb_ProtocolVersion = v, sb_CohortID = c, sb_Peers = ps, sb_Meta = m, sb_Convergence = None,
     sb_Reconciliation = Some (empty_reconciliation\<lparr>rr_Status := Drifted\<rparr>), sb_Dyads = ds\<rparr>) = ''converged''"
  by (auto simp: HeadlineStatus_def IsAcceptable_def split: option.split convergence_status.split
      reconciliation_status.split)

end
