(* ===== verification/Actor_Runtime.thy ===== *)
theory Actor_Runtime
  imports Ledger Kernel Event_Bus Scheduler
begin

text \<open>
  What an actor does with a signal: \<open>processActorSignal\<close> of \<open>internal/agency/daemon.go\<close> reads the
  ledger, asks the kernel, runs the actor, and commits and announces what the kernel allows; the
  handler of \<open>daemon_actor.go\<close> is the one of the actor processes. The office is the ledger and the
  memory bus. What was given to \<open>Publish\<close>, and the calls of \<open>Handle\<close>, are kept for the statements.
  The \<open>k\<close>-th access to the ledger has the answers \<open>ev k\<close>, and the clock reads \<open>now k\<close> then.
\<close>

section \<open>The office\<close>

record office =
  of_Disk :: ledger_disk
  of_Bus :: mem_bus
  of_Published :: "wake_signal list"
  of_Woken :: "(observation_snapshot \<times> wake_signal) list"

text \<open>The actor's answer may differ from call to call.\<close>

record actor =
  aa_Identity :: agent_identity
  aa_Tools :: "string list"
  aa_Handle :: "nat \<Rightarrow> observation_snapshot \<Rightarrow> wake_signal \<Rightarrow> (string, action_proposal list) outcome"

definition OrganizationChannel :: "string \<Rightarrow> string" where
  "OrganizationChannel organizationID = ''agency.org.'' @ organizationID"

definition ApprovalChannel :: "string \<Rightarrow> string" where
  "ApprovalChannel organizationID = ''agency.approval.'' @ organizationID"

definition BulletinChannel :: "string \<Rightarrow> string" where
  "BulletinChannel organizationID = ''agency.bulletin.'' @ organizationID"

definition bus_Publish :: "wake_signal \<Rightarrow> office \<Rightarrow> (string, unit) outcome \<times> office" where
  "bus_Publish signal w =
     (case mem_Publish signal (of_Bus w) of
        Ok b \<Rightarrow> (Ok (), w\<lparr>of_Bus := b, of_Published := of_Published w @ [signal]\<rparr>)
      | Err e \<Rightarrow> (Err e, w)
      | Panic e \<Rightarrow> (Panic e, w))"

section \<open>An embedded actor\<close>

definition actor_observation ::
  "int \<Rightarrow> string \<Rightarrow> actor \<Rightarrow> context_snapshot \<Rightarrow> wake_signal \<Rightarrow> observation_snapshot" where
  "actor_observation now sharedWorkplace actor snapshot signal =
     \<lparr>os_OrganizationID = sn_OrganizationID snapshot, os_Actor = aa_Identity actor,
      os_LedgerSequence = sn_LedgerSequence snapshot, os_PendingTasks = [], os_RecentSignals = [signal],
      os_Resources = \<lparr>rst_SharedWorkplace = sharedWorkplace, rst_AvailableTools = aa_Tools actor, rst_Metadata = []\<rparr>,
      os_CurrentTime = Some now, os_Metadata = [(''scope'', ''default'')]\<rparr>"

definition refused_entry :: "int \<Rightarrow> agent_identity \<Rightarrow> wake_signal \<Rightarrow> kernel_decision \<Rightarrow> ledger_entry" where
  "refused_entry now identity signal decision = zero_ledger_entry
     \<lparr>le_OrganizationID := ai_OrganizationID identity, le_Kind := LedgerEntrySignal,
      le_ActorID := ai_ID identity, le_Signal := Some signal, le_Decision := Some decision,
      le_CommittedAt := now\<rparr>"

definition fill_proposal :: "int \<Rightarrow> agent_identity \<Rightarrow> action_proposal \<Rightarrow> action_proposal" where
  "fill_proposal now identity p =
     p\<lparr>ap_ProposedAt := (if ap_ProposedAt p = 0 then now else ap_ProposedAt p),
       ap_ActorID := (if ap_ActorID p = [] then ai_ID identity else ap_ActorID p),
       ap_OrganizationID := (if ap_OrganizationID p = [] then ai_OrganizationID identity else ap_OrganizationID p)\<rparr>"

definition action_entry :: "int \<Rightarrow> agent_identity \<Rightarrow> action_proposal \<Rightarrow> kernel_decision \<Rightarrow> ledger_entry" where
  "action_entry now identity p decision = zero_ledger_entry
     \<lparr>le_OrganizationID := ap_OrganizationID p, le_Kind := LedgerEntryAction, le_ActorID := ai_ID identity,
      le_Action := Some p, le_Decision := Some decision, le_CommittedAt := now\<rparr>"

definition action_broadcast :: "int \<Rightarrow> agent_identity \<Rightarrow> wake_signal \<Rightarrow> action_proposal \<Rightarrow> wake_signal" where
  "action_broadcast now identity signal p =
     \<lparr>ws_ID = ws_ID signal, ws_OrganizationID = ap_OrganizationID p, ws_ActorID = [],
      ws_Channel = OrganizationChannel (ap_OrganizationID p), ws_Kind = SignalBroadcast,
      ws_Payload = [(''entryKind'', LedgerEntryAction), (''actorId'', ai_ID identity), (''action'', ap_Type p)],
      ws_CreatedAt = now\<rparr>"

text \<open>The loop over the proposals: an entry that cannot be appended is not announced.\<close>

fun commit_proposals ::
  "codec \<Rightarrow> (nat \<Rightarrow> env) \<Rightarrow> (nat \<Rightarrow> int) \<Rightarrow> agency_constitution \<Rightarrow> agent_identity \<Rightarrow> wake_signal \<Rightarrow> nat \<Rightarrow>
   action_proposal list \<Rightarrow> office \<Rightarrow> (string, unit) outcome \<times> office" where
  "commit_proposals cx ev now constitution identity signal k [] w = (Ok (), w)"
| "commit_proposals cx ev now constitution identity signal k (p # ps) w =
     (let p = fill_proposal (now k) identity p;
          decision = ValidateAction (now k) constitution identity p
      in case Append cx (ev k) (action_entry (now k) identity p decision) (of_Disk w) of
           (Panic e, d) \<Rightarrow> (Panic e, w\<lparr>of_Disk := d\<rparr>)
         | (Err e, d) \<Rightarrow> commit_proposals cx ev now constitution identity signal (k + 1) ps (w\<lparr>of_Disk := d\<rparr>)
         | (Ok c, d) \<Rightarrow>
             if kd_Accepted decision
             then (case bus_Publish (action_broadcast (now k) identity signal p) (w\<lparr>of_Disk := d\<rparr>) of
                 (Panic e, w') \<Rightarrow> (Panic e, w')
               | (_, w') \<Rightarrow> commit_proposals cx ev now constitution identity signal (k + 1) ps w')
             else commit_proposals cx ev now constitution identity signal (k + 1) ps (w\<lparr>of_Disk := d\<rparr>))"

definition processActorSignal ::
  "codec \<Rightarrow> (nat \<Rightarrow> env) \<Rightarrow> (nat \<Rightarrow> int) \<Rightarrow> string \<Rightarrow> agency_constitution \<Rightarrow> actor \<Rightarrow> wake_signal \<Rightarrow> office \<Rightarrow>
   (string, unit) outcome \<times> office" where
  "processActorSignal cx ev now sharedWorkplace constitution actor signal w =
     (let identity = aa_Identity actor in
      case LatestSnapshot cx (ev 0) (ai_OrganizationID identity) (of_Disk w) of
        Err e \<Rightarrow> (Ok (), w)
      | Panic e \<Rightarrow> (Panic e, w)
      | Ok snapshot \<Rightarrow>
          let observation = actor_observation (now 0) sharedWorkplace actor snapshot signal;
              decision = ValidateObservation (now 0) constitution observation
          in if \<not> kd_Accepted decision
             then (case Append cx (ev 1) (refused_entry (now 1) identity signal decision) (of_Disk w) of
                 (Panic e, d) \<Rightarrow> (Panic e, w\<lparr>of_Disk := d\<rparr>)
               | (_, d) \<Rightarrow> (Ok (), w\<lparr>of_Disk := d\<rparr>))
             else
               (let w' = w\<lparr>of_Woken := of_Woken w @ [(observation, signal)]\<rparr> in
                case aa_Handle actor (length (of_Woken w)) observation signal of
                  Err e \<Rightarrow> (Ok (), w')
                | Panic e \<Rightarrow> (Panic e, w')
                | Ok proposals \<Rightarrow> commit_proposals cx ev now constitution identity signal 1 proposals w'))"

text \<open>
  The loop of the runtime over one of the actor's channels. A receive that finds nothing waits: then
  the rounds end, and the number of rounds done is the first component.
\<close>

fun actor_loop ::
  "codec \<Rightarrow> (nat \<Rightarrow> nat \<Rightarrow> env) \<Rightarrow> (nat \<Rightarrow> nat \<Rightarrow> int) \<Rightarrow> string \<Rightarrow> agency_constitution \<Rightarrow> actor \<Rightarrow> nat \<Rightarrow> nat \<Rightarrow>
   office \<Rightarrow> nat \<times> office" where
  "actor_loop cx ev now sharedWorkplace constitution actor ch 0 w = (0, w)"
| "actor_loop cx ev now sharedWorkplace constitution actor ch (Suc n) w =
     (case receive_chan ch (mb_chans (of_Bus w)) of
        None \<Rightarrow> (0, w)
      | Some (signal, cs) \<Rightarrow>
          (case processActorSignal cx (ev n) (now n) sharedWorkplace constitution actor signal
                  (w\<lparr>of_Bus := (of_Bus w)\<lparr>mb_chans := cs\<rparr>\<rparr>) of
             (Panic e, w') \<Rightarrow> (1, w')
           | (_, w') \<Rightarrow>
               (case actor_loop cx ev now sharedWorkplace constitution actor ch n w' of (k, w'') \<Rightarrow> (Suc k, w''))))"

section \<open>An actor process\<close>

text \<open>
  What the language model and the GIST core make of an observation, as the handler uses it: the
  model's text with its provider, and the texts read off the verdict.
\<close>

record inference =
  nf_Text :: string
  nf_Provider :: string
  nf_ModelID :: string
  nf_Confidence :: string
  nf_Verdict :: string
  nf_Risk :: string
  nf_TraceID :: "string option"
  nf_Reason :: string
  nf_Intent :: string
  nf_RoutedProvider :: string
  nf_RoutedModel :: string

record actor_spec =
  sc_Identity :: agent_identity
  sc_Tools :: "string list"
  sc_ActionConstraints :: "string list"
  sc_SharedWorkplace :: string

definition shouldProcessActorSignal :: "string \<Rightarrow> wake_signal \<Rightarrow> bool" where
  "shouldProcessActorSignal actorID signal \<longleftrightarrow>
     \<not> (ws_Kind signal = SignalBroadcast \<or> ws_Kind signal = SignalReview) \<and>
     \<not> (ws_ActorID signal = actorID \<and>
        map_get_or [] (ws_Payload signal) ''entrySource'' \<in> {''actor.daemon.broadcast'', ''actor.daemon.approval''})"

text \<open>A role that the constitution does not have is made up from the actor's own capabilities.\<close>

definition with_role :: "actor_spec \<Rightarrow> agency_constitution \<Rightarrow> agency_constitution" where
  "with_role spec c =
     (let role = ai_Role (sc_Identity spec) in
      if map_of (ac_Roles c) role \<noteq> None then c
      else c\<lparr>ac_Roles := map_put role (zero_role_spec\<lparr>rs_Name := role, rs_Mission := role,
             rs_AllowedActions := sc_ActionConstraints spec, rs_ObservationScopes := [''default''],
             rs_ToolBindings := sc_Tools spec, rs_CanSpawnAgents := False\<rparr>) (ac_Roles c)\<rparr>)"

definition daemon_observation ::
  "int \<Rightarrow> string \<Rightarrow> actor_spec \<Rightarrow> context_snapshot \<Rightarrow> wake_signal \<Rightarrow> observation_snapshot" where
  "daemon_observation now workplace spec snapshot signal =
     \<lparr>os_OrganizationID = ai_OrganizationID (sc_Identity spec), os_Actor = sc_Identity spec,
      os_LedgerSequence = sn_LedgerSequence snapshot, os_PendingTasks = [], os_RecentSignals = [signal],
      os_Resources = \<lparr>rst_SharedWorkplace = workplace, rst_AvailableTools = sc_Tools spec, rst_Metadata = []\<rparr>,
      os_CurrentTime = Some now, os_Metadata = [(''scope'', ''default''), (''entrySource'', ''actor.daemon'')]\<rparr>"

definition performance_signal ::
  "string \<Rightarrow> int \<Rightarrow> agent_identity \<Rightarrow> wake_signal \<Rightarrow> inference \<Rightarrow> wake_signal" where
  "performance_signal uid now identity signal r =
     (let injection = map_get_or [] (ws_Payload signal) ''prompt_injection'' in
      \<lparr>ws_ID = uid, ws_OrganizationID = ai_OrganizationID identity, ws_ActorID = ai_ID identity,
       ws_Channel = BulletinChannel (ai_OrganizationID identity), ws_Kind = SignalProjection,
       ws_Payload = [(''directive'', if injection = [] then ws_Kind signal @ '':'' @ ws_ID signal else injection),
         (''output'', nf_Text r), (''score'', nf_Confidence r), (''signalId'', ws_ID signal),
         (''provider'', nf_Provider r), (''modelId'', nf_ModelID r), (''actorId'', ai_ID identity)],
       ws_CreatedAt = now\<rparr>)"

text \<open>The proposal has no identifier, and nothing gives it one. \<open>enc\<close> is the JSON text of a string.\<close>

definition daemon_proposal ::
  "(string \<Rightarrow> json_text) \<Rightarrow> int \<Rightarrow> agent_identity \<Rightarrow> wake_signal \<Rightarrow> inference \<Rightarrow> action_proposal" where
  "daemon_proposal enc now identity signal r = zero_action_proposal
     \<lparr>ap_OrganizationID := ai_OrganizationID identity, ap_ActorID := ai_ID identity, ap_Type := ActionBroadcast,
      ap_ProposedAt := now,
      ap_Payload := map (\<lambda>(k, v). (k, enc v))
        [(''message'', nf_Text r), (''signalKind'', ws_Kind signal), (''signalID'', ws_ID signal),
         (''actorRole'', ai_Role identity), (''provider'', nf_Provider r), (''model'', nf_ModelID r),
         (''executionIntent'', nf_Intent r), (''gistVerdict'', nf_Verdict r), (''gistRisk'', nf_Risk r),
         (''gistTraceId'', case nf_TraceID r of None \<Rightarrow> [] | Some t \<Rightarrow> t), (''gistReason'', nf_Reason r),
         (''entrySource'', ''actor.daemon.routed'')]\<rparr>"

definition daemon_entry :: "int \<Rightarrow> agent_identity \<Rightarrow> action_proposal \<Rightarrow> ledger_entry" where
  "daemon_entry now identity p = zero_ledger_entry
     \<lparr>le_OrganizationID := ap_OrganizationID p, le_Kind := LedgerEntryAction, le_ActorID := ai_ID identity,
      le_Action := Some p, le_CommittedAt := now\<rparr>"

definition daemon_broadcast :: "inference \<Rightarrow> action_proposal \<Rightarrow> wake_signal" where
  "daemon_broadcast r p =
     \<lparr>ws_ID = ap_ID p, ws_OrganizationID = ap_OrganizationID p, ws_ActorID = ap_ActorID p,
      ws_Channel = OrganizationChannel (ap_OrganizationID p), ws_Kind = SignalBroadcast,
      ws_Payload = [(''message'', nf_Text r), (''actorId'', ap_ActorID p), (''proposalId'', ap_ID p),
        (''entrySource'', ''actor.daemon.broadcast'')],
      ws_CreatedAt = ap_ProposedAt p\<rparr>"

definition daemon_approval :: "inference \<Rightarrow> action_proposal \<Rightarrow> wake_signal" where
  "daemon_approval r p =
     \<lparr>ws_ID = ap_ID p, ws_OrganizationID = ap_OrganizationID p, ws_ActorID = ap_ActorID p,
      ws_Channel = ApprovalChannel (ap_OrganizationID p), ws_Kind = SignalReview,
      ws_Payload = [(''proposalId'', ap_ID p), (''actorId'', ap_ActorID p), (''actionType'', ap_Type p),
        (''target'', ap_Target p), (''gistVerdict'', nf_Verdict r), (''gistRisk'', nf_Risk r),
        (''gistTraceId'', case nf_TraceID r of None \<Rightarrow> [] | Some t \<Rightarrow> t), (''gistReason'', nf_Reason r),
        (''entrySource'', ''actor.daemon.approval'')],
      ws_CreatedAt = ap_ProposedAt p\<rparr>"

text \<open>Three publications and one entry; errors are dropped, a panic ends the process.\<close>

fun publish_all :: "wake_signal list \<Rightarrow> office \<Rightarrow> (string, unit) outcome \<times> office" where
  "publish_all [] w = (Ok (), w)"
| "publish_all (s # ss) w = (case bus_Publish s w of
     (Panic e, w') \<Rightarrow> (Panic e, w')
   | (_, w') \<Rightarrow> publish_all ss w')"

definition daemon_act ::
  "codec \<Rightarrow> env \<Rightarrow> string \<Rightarrow> int \<Rightarrow> (string \<Rightarrow> json_text) \<Rightarrow> agent_identity \<Rightarrow> wake_signal \<Rightarrow> inference \<Rightarrow>
   office \<Rightarrow> (string, unit) outcome \<times> office" where
  "daemon_act cx ev uid now enc identity signal r w =
     (let p = daemon_proposal enc now identity signal r in
      case publish_all [performance_signal uid now identity signal r] w of
        (Ok _, w1) \<Rightarrow>
          (case Append cx ev (daemon_entry now identity p) (of_Disk w1) of
             (Panic e, d) \<Rightarrow> (Panic e, w1\<lparr>of_Disk := d\<rparr>)
           | (_, d) \<Rightarrow> publish_all [daemon_broadcast r p, daemon_approval r p] (w1\<lparr>of_Disk := d\<rparr>))
      | (Err e, w1) \<Rightarrow> (Err e, w1)
      | (Panic e, w1) \<Rightarrow> (Panic e, w1))"

definition lifecycle_snapshot ::
  "int \<Rightarrow> actor_spec \<Rightarrow> string \<Rightarrow> str_map \<Rightarrow> context_snapshot" where
  "lifecycle_snapshot now spec source metadata = zero_context_snapshot
     \<lparr>sn_OrganizationID := ai_OrganizationID (sc_Identity spec), sn_Actors := [sc_Identity spec],
      sn_UpdatedAt := now,
      sn_Metadata := map_put ''actorId'' (ai_ID (sc_Identity spec)) (map_put ''entrySource'' source metadata)\<rparr>"

definition appendActorLifecycle ::
  "codec \<Rightarrow> env \<Rightarrow> int \<Rightarrow> actor_spec \<Rightarrow> string \<Rightarrow> str_map \<Rightarrow> office \<Rightarrow> (string, unit) outcome \<times> office" where
  "appendActorLifecycle cx ev now spec source metadata w =
     (case AppendSnapshot cx ev (lifecycle_snapshot now spec source metadata) (of_Disk w) of
        (Ok c, d) \<Rightarrow> (Ok (), w\<lparr>of_Disk := d\<rparr>)
      | (Err e, d) \<Rightarrow> (Err e, w\<lparr>of_Disk := d\<rparr>)
      | (Panic e, d) \<Rightarrow> (Panic e, w\<lparr>of_Disk := d\<rparr>))"

definition signal_metadata :: "actor_spec \<Rightarrow> wake_signal \<Rightarrow> kernel_decision \<Rightarrow> inference option \<Rightarrow> str_map" where
  "signal_metadata spec signal decision r =
     [(''entrySource'', ''actor.daemon.signal''), (''actorId'', ai_ID (sc_Identity spec)),
      (''signalKind'', ws_Kind signal), (''signalChannel'', ws_Channel signal),
      (''accepted'', if kd_Accepted decision then ''true'' else ''false''), (''reason'', kd_Reason decision)] @
     (case r of None \<Rightarrow> []
      | Some r \<Rightarrow> [(''gistVerdict'', nf_Verdict r), (''gistConfidence'', nf_Confidence r), (''gistRisk'', nf_Risk r)] @
          (case nf_TraceID r of None \<Rightarrow> [] | Some t \<Rightarrow> [(''gistTraceId'', t)]) @
          [(''routingProvider'', nf_RoutedProvider r), (''routingModel'', nf_RoutedModel r), (''proposalCount'', ''1'')])"

definition daemon_handle ::
  "codec \<Rightarrow> (nat \<Rightarrow> env) \<Rightarrow> string \<Rightarrow> int \<Rightarrow> (string \<Rightarrow> json_text) \<Rightarrow> string \<Rightarrow>
   (observation_snapshot \<Rightarrow> wake_signal \<Rightarrow> role_spec \<Rightarrow> inference) \<Rightarrow> agency_constitution \<Rightarrow> actor_spec \<Rightarrow>
   wake_signal \<Rightarrow> office \<Rightarrow> (string, unit) outcome \<times> office" where
  "daemon_handle cx ev uid now enc workplace think constitution0 spec signal w =
     (let identity = sc_Identity spec in
      if \<not> shouldProcessActorSignal (ai_ID identity) signal then (Ok (), w)
      else (case LatestSnapshot cx (ev 0) (ai_OrganizationID identity) (of_Disk w) of
          Err e \<Rightarrow> (Err e, w)
        | Panic e \<Rightarrow> (Panic e, w)
        | Ok snapshot \<Rightarrow>
            let observation = daemon_observation now
                  (if trim_space workplace \<noteq> [] then trim_space workplace else trim_space (sc_SharedWorkplace spec))
                  spec snapshot signal;
                constitution = with_role spec constitution0;
                decision = ValidateObservation now constitution observation
            in if \<not> kd_Accepted decision
               then appendActorLifecycle cx (ev 2) now spec ''actor.daemon.signal''
                      (signal_metadata spec signal decision None) w
               else
                 (let role = map_get_or zero_role_spec (ac_Roles constitution) (ai_Role identity);
                      r = think observation signal role;
                      w' = w\<lparr>of_Woken := of_Woken w @ [(observation, signal)]\<rparr>
                  in case daemon_act cx (ev 1) uid now enc identity signal r w' of
                       (Panic e, w2) \<Rightarrow> (Panic e, w2)
                     | (_, w2) \<Rightarrow> appendActorLifecycle cx (ev 2) now spec ''actor.daemon.signal''
                         (signal_metadata spec signal decision (Some r)) w2)))"

end
