(* ===== verification/Actor_Runtime_Properties.thy ===== *)
theory Actor_Runtime_Properties
  imports Actor_Runtime Ledger_Properties
begin

text \<open>
  What an actor brings about: which actions are announced, that an embedded actor keeps waking itself,
  and what the actor processes do instead.
\<close>

section \<open>The ledger behind an announcement\<close>

text \<open>An entries file without an unfinished line, and writes that put down a whole line or nothing.\<close>

definition whole_lines :: "ledger_disk \<Rightarrow> bool" where
  "whole_lines d \<longleftrightarrow> (\<exists>f. ld_entries d = Some f \<and> ef_tail f = NoTail)"

definition whole_writes :: "(nat \<Rightarrow> env) \<Rightarrow> bool" where
  "whole_writes ev \<longleftrightarrow> (\<forall>k. ev_write (ev k) = WriteAll \<or> ev_write (ev k) = WriteNothing)"

definition disk_lines :: "ledger_disk \<Rightarrow> file_line set" where
  "disk_lines d = (case ld_entries d of None \<Rightarrow> {} | Some f \<Rightarrow> set (ef_lines f))"

lemma Append_never_panics: "fst (Append cx ev e d) \<noteq> Panic m"
  using replay_never_panics [of cx ev d] appendLocked_never_panics
  by (auto simp: Append_def split: outcome.split)

lemma Append_whole:
  assumes "Append cx ev e d = (r, d')" and "whole_lines d" and "ev_write ev = WriteAll \<or> ev_write ev = WriteNothing"
  shows "whole_lines d' \<and> disk_lines d \<subseteq> disk_lines d' \<and>
    (\<forall>c. r = Ok c \<longrightarrow> (\<exists>n. EntryLine (sealed_entry cx ev n e) \<in> disk_lines d'))"
proof (cases "replayLocked cx ev d")
  case (Ok es)
  have app: "appendLocked cx ev (int (length es) + 1) e d = (r, d')"
    using assms(1) Ok by (simp add: Append_def)
  then show ?thesis
  proof (cases rule: appendLocked_cases)
    case (wrote f f' r')
    then show ?thesis
      using assms(2,3)
      by (auto simp: whole_lines_def disk_lines_def write_entry_def Let_def) (rule exI, rule disjI1, rule refl)
  qed (use assms in auto)
qed (use assms in \<open>auto simp: Append_def replay_never_panics\<close>)

text \<open>
  A signal announces an action that the constitution permits and that the ledger holds with the
  kernel's acceptance.
\<close>

definition announces ::
  "agency_constitution \<Rightarrow> agent_identity \<Rightarrow> wake_signal \<Rightarrow> office \<Rightarrow> wake_signal \<Rightarrow> bool" where
  "announces constitution identity signal w s \<longleftrightarrow> (\<exists>t p e.
     s = action_broadcast t identity signal p \<and> action_policy constitution identity p \<and>
     EntryLine e \<in> disk_lines (of_Disk w) \<and> le_Action e = Some p \<and>
     le_Decision e = Some (acceptedDecision t))"

lemma announces_mono:
  "announces c i signal w s \<Longrightarrow> disk_lines (of_Disk w) \<subseteq> disk_lines (of_Disk w') \<Longrightarrow> announces c i signal w' s"
  unfolding announces_def by blast

lemma accepted_decision:
  "kd_Accepted (ValidateAction now c i p) \<Longrightarrow>
   ValidateAction now c i p = acceptedDecision now \<and> action_policy c i p"
  using ValidateAction_shape [of now i c p] ValidateAction_accepts [of now c i p]
  by (auto simp: decided_def)

lemma sealed_action [simp]:
  "le_Action (sealed_entry cx ev n e) = le_Action e" "le_Decision (sealed_entry cx ev n e) = le_Decision e"
  by (simp_all add: sealed_entry_def fill_entry_def Let_def)

text \<open>The state after the loop, relative to the one before.\<close>

definition advanced ::
  "agency_constitution \<Rightarrow> agent_identity \<Rightarrow> wake_signal \<Rightarrow> office \<Rightarrow> office \<Rightarrow> bool" where
  "advanced c i signal w w' \<longleftrightarrow> whole_lines (of_Disk w') \<and> disk_lines (of_Disk w) \<subseteq> disk_lines (of_Disk w') \<and>
     (\<exists>ss. of_Published w' = of_Published w @ ss \<and> list_all (announces c i signal w') ss)"

lemma advanced_refl: "whole_lines (of_Disk w) \<Longrightarrow> advanced c i signal w w"
  by (simp add: advanced_def)

lemma advanced_trans:
  assumes "advanced c i signal w w1" and "advanced c i signal w1 w2" shows "advanced c i signal w w2"
proof -
  obtain ss ss' where "of_Published w1 = of_Published w @ ss" "list_all (announces c i signal w1) ss"
      "of_Published w2 = of_Published w1 @ ss'" "list_all (announces c i signal w2) ss'"
    using assms by (auto simp: advanced_def)
  moreover have "list_all (announces c i signal w2) ss"
    using calculation(2) assms(2) announces_mono by (fastforce simp: advanced_def list_all_iff)
  ultimately show ?thesis using assms by (auto simp: advanced_def)
qed

lemma advanced_disk:
  "whole_lines d \<Longrightarrow> disk_lines (of_Disk w) \<subseteq> disk_lines d \<Longrightarrow> advanced c i signal w (w\<lparr>of_Disk := d\<rparr>)"
  by (simp add: advanced_def)

lemma bus_Publish_disk [simp]: "of_Disk (snd (bus_Publish s w)) = of_Disk w"
  by (simp add: bus_Publish_def split: outcome.split)

lemma bus_Publish_list:
  "of_Published (snd (bus_Publish s w)) = of_Published w \<or>
   of_Published (snd (bus_Publish s w)) = of_Published w @ [s]"
  by (simp add: bus_Publish_def split: outcome.split)

lemma commit_advances:
  assumes "whole_lines (of_Disk w)" and "whole_writes ev"
  shows "advanced constitution identity signal w
    (snd (commit_proposals cx ev now constitution identity signal k ps w))"
  using assms(1)
proof (induction ps arbitrary: k w)
  case Nil
  then show ?case by (simp add: advanced_refl)
next
  case (Cons p ps)
  define q where "q = fill_proposal (now k) identity p"
  define decision where "decision = ValidateAction (now k) constitution identity q"
  obtain r d where app: "Append cx (ev k) (action_entry (now k) identity q decision) (of_Disk w) = (r, d)"
    by fastforce
  have whole: "whole_lines d" "disk_lines (of_Disk w) \<subseteq> disk_lines d"
      "r = Ok c \<Longrightarrow> \<exists>n. EntryLine (sealed_entry cx (ev k) n (action_entry (now k) identity q decision)) \<in> disk_lines d" for c
    using Append_whole [OF app Cons.prems] assms(2) by (auto simp: whole_writes_def)
  let ?w = "w\<lparr>of_Disk := d\<rparr>"
  have d: "advanced constitution identity signal w ?w" using whole(1,2) by (rule advanced_disk)
  have IH: "advanced constitution identity signal w1
      (snd (commit_proposals cx ev now constitution identity signal (k + 1) ps w1))"
    if "whole_lines (of_Disk w1)" for w1
    using Cons.IH that .
  let ?rest = "\<lambda>w1. commit_proposals cx ev now constitution identity signal (k + 1) ps w1"
  let ?s = "action_broadcast (now k) identity signal q"
  have step: "commit_proposals cx ev now constitution identity signal k (p # ps) w =
    (case r of Panic e \<Rightarrow> (Panic e, ?w) | Err e \<Rightarrow> ?rest ?w
     | Ok c \<Rightarrow> if kd_Accepted decision
         then (case bus_Publish ?s ?w of (Panic e, w') \<Rightarrow> (Panic e, w') | (_, w') \<Rightarrow> ?rest w')
         else ?rest ?w)"
    unfolding commit_proposals.simps(2) Let_def q_def [symmetric] decision_def [symmetric] app prod.case
    by (rule outcome.case_cong) (rule refl)+
  show ?case
  proof (cases "(\<exists>c. r = Ok c) \<and> kd_Accepted decision")
    case True
    then obtain c where c: "r = Ok c" by blast
    obtain r1 w1 where pub: "bus_Publish ?s ?w = (r1, w1)" by fastforce
    have disk: "of_Disk w1 = d" using pub bus_Publish_disk [of ?s ?w] by simp
    obtain n where "EntryLine (sealed_entry cx (ev k) n (action_entry (now k) identity q decision)) \<in> disk_lines d"
      using whole(3) [OF c] by blast
    moreover have "decision = acceptedDecision (now k) \<and> action_policy constitution identity q"
      using True accepted_decision unfolding decision_def by blast
    ultimately have "announces constitution identity signal w1 ?s"
      unfolding announces_def disk by (intro exI conjI) (auto simp: action_entry_def)
    then have w1: "advanced constitution identity signal w w1"
      using bus_Publish_list [of ?s ?w] pub disk whole(1,2) by (auto simp: advanced_def)
    have "snd (commit_proposals cx ev now constitution identity signal k (p # ps) w) \<in> {w1, snd (?rest w1)}"
      unfolding step c using True pub by (cases r1) simp_all
    moreover have "advanced constitution identity signal w (snd (?rest w1))"
      using w1 by (rule advanced_trans) (rule IH, simp add: disk whole(1))
    ultimately show ?thesis using w1 by (metis insertE singletonD)
  next
    case False
    then have "snd (commit_proposals cx ev now constitution identity signal k (p # ps) w) \<in> {?w, snd (?rest ?w)}"
      unfolding step by (cases r) simp_all
    moreover have "advanced constitution identity signal w (snd (?rest ?w))"
      using d by (rule advanced_trans) (rule IH, simp add: whole(1))
    ultimately show ?thesis using d by (metis insertE singletonD)
  qed
qed

text \<open>
  Property C22. Whatever an embedded actor proposes, only what the kernel allows is announced: every
  signal published while it handles one announces an action that the constitution permits to it and
  that stands in the ledger with the kernel's acceptance; and the actor is run only on an observation
  the constitution permits. Writes to the ledger may fail; they are taken to be whole or nothing.\<close>

theorem announced_actions_are_permitted:
  assumes "processActorSignal cx ev now workplace constitution actor signal w = (r, w')"
    and "whole_lines (of_Disk w)" and "whole_writes ev"
  shows "(\<exists>ss. of_Published w' = of_Published w @ ss \<and>
      list_all (announces constitution (aa_Identity actor) signal w') ss) \<and>
    (of_Woken w' = of_Woken w \<or> (\<exists>obs. of_Woken w' = of_Woken w @ [(obs, signal)] \<and> observation_policy constitution obs))"
proof -
  let ?i = "aa_Identity actor"
  have advanced: "advanced constitution ?i signal w1 (snd (commit_proposals cx ev now constitution ?i signal k ps w1))"
    if "of_Disk w1 = of_Disk w" for k ps w1
    using commit_advances assms(2,3) that by metis
  have woken: "of_Woken (snd (commit_proposals cx ev now constitution ?i signal k ps w1)) = of_Woken w1" for k ps w1
    by (induction ps arbitrary: k w1) (auto simp: Let_def bus_Publish_def split: outcome.split prod.split)
  show ?thesis
  proof (cases "LatestSnapshot cx (ev 0) (ai_OrganizationID ?i) (of_Disk w)")
    case (Ok snapshot)
    define obs where "obs = actor_observation (now 0) workplace actor snapshot signal"
    define decision where "decision = ValidateObservation (now 0) constitution obs"
    note run = assms(1) [unfolded processActorSignal_def Let_def Ok outcome.case, folded obs_def, folded decision_def]
    show ?thesis
    proof (cases "kd_Accepted decision")
      case True
      then have "observation_policy constitution obs"
        using ValidateObservation_shape [of "now 0" obs constitution] ValidateObservation_accepts [of "now 0" constitution obs]
        by (auto simp: decided_def decision_def)
      moreover define w1 where "w1 = w\<lparr>of_Woken := of_Woken w @ [(obs, signal)]\<rparr>"
      moreover have "w' = w1 \<or> (\<exists>ps. w' = snd (commit_proposals cx ev now constitution ?i signal 1 ps w1))"
        using run True by (auto simp: w1_def split: outcome.splits) (metis snd_conv)
      moreover have "of_Published w1 = of_Published w" by (simp add: w1_def)
      ultimately show ?thesis
        using advanced [of w1] woken by (auto simp: advanced_def w1_def)
    next
      case False
      then show ?thesis using run by (auto split: prod.splits outcome.splits)
    qed
  qed (use assms(1) in \<open>auto simp: processActorSignal_def Let_def\<close>)
qed

section \<open>An actor that wakes itself\<close>

text \<open>No snapshot of the organization in the ledger names another one.\<close>

definition own_snapshot :: "string \<Rightarrow> ledger_entry \<Rightarrow> bool" where
  "own_snapshot org e \<longleftrightarrow> (case le_Snapshot e of None \<Rightarrow> True | Some s \<Rightarrow> sn_OrganizationID s \<in> {[], org})"

definition own_snapshots :: "string \<Rightarrow> ledger_entry list \<Rightarrow> bool" where
  "own_snapshots org es \<longleftrightarrow> list_all (\<lambda>e. le_OrganizationID e = org \<longrightarrow> own_snapshot org e) es"

lemma applyVoiceEvent_org [simp]: "sn_OrganizationID (applyVoiceEvent st v) = sn_OrganizationID st"
  by (simp add: applyVoiceEvent_def Let_def)

lemma mergeSnapshot_org [simp]:
  "sn_OrganizationID (mergeSnapshot st src) =
     (if sn_OrganizationID src \<noteq> [] then sn_OrganizationID src else sn_OrganizationID st)"
  by (simp add: mergeSnapshot_def)

lemma applyLedgerEntry_org:
  assumes "own_snapshot (sn_OrganizationID st) e"
  shows "sn_OrganizationID (applyLedgerEntry st e) = sn_OrganizationID st"
proof -
  have "sn_OrganizationID (applyLedgerEntry st e) = sn_OrganizationID
      (case le_Snapshot e of Some src \<Rightarrow> mergeSnapshot st src | None \<Rightarrow> st)"
    unfolding applyLedgerEntry_def Let_def
    by (cases "le_Signal e"; cases "le_Publication e"; cases "le_Voice e") simp_all
  then show ?thesis using assms by (cases "le_Snapshot e") (auto simp: own_snapshot_def)
qed

lemma snapshot_loop_org:
  "own_snapshots org es \<Longrightarrow> sn_OrganizationID st = org \<Longrightarrow> sn_OrganizationID (snapshot_loop org st es) = org"
proof (induction es arbitrary: st)
  case (Cons e es)
  then show ?case using applyLedgerEntry_org [of st e] by (simp add: own_snapshots_def)
qed simp

lemma clean_snapshot_org:
  assumes "clean cx d es" and "fault_free ev" and "own_snapshots org es"
  obtains s where "LatestSnapshot cx ev org d = Ok s" "sn_OrganizationID s = org"
proof -
  have "replayLocked cx ev d = Ok es"
    using assms(1,2) by (rule clean_replayLocked)
  moreover have "sn_OrganizationID (snapshot_loop org (zero_context_snapshot\<lparr>sn_OrganizationID := org\<rparr>) es) = org"
    using assms(3) by (rule snapshot_loop_org) simp
  ultimately have "\<exists>s. LatestSnapshot cx ev org d = Ok s \<and> sn_OrganizationID s = org"
    by (simp add: LatestSnapshot_def Let_def)
  then show ?thesis using that by blast
qed

text \<open>The actor answers every signal with one action that it is allowed.\<close>

definition talkative :: "agency_constitution \<Rightarrow> actor \<Rightarrow> bool" where
  "talkative constitution actor \<longleftrightarrow> (\<forall>n obs signal. \<exists>p. aa_Handle actor n obs signal = Ok [p] \<and>
     (\<forall>t. action_policy constitution (aa_Identity actor) (fill_proposal t (aa_Identity actor) p)))"

text \<open>
  The entries of its actions, sealed with any number up to \<open>m\<close> at a time of the run, fit a line of the
  ledger.
\<close>

definition short_actions ::
  "codec \<Rightarrow> (nat \<Rightarrow> nat \<Rightarrow> env) \<Rightarrow> (nat \<Rightarrow> nat \<Rightarrow> int) \<Rightarrow> actor \<Rightarrow> nat \<Rightarrow> bool" where
  "short_actions cx ev now actor m \<longleftrightarrow> (\<forall>i n obs signal p seq.
     aa_Handle actor n obs signal = Ok [p] \<longrightarrow> seq \<in> {1..m} \<longrightarrow>
     json_len cx (sealed_entry cx (ev i 1) (int seq) (action_entry (now i 1) (aa_Identity actor)
       (fill_proposal (now i 1) (aa_Identity actor) p) (acceptedDecision (now i 1)))) < max_token)"

text \<open>
  The office is open, the ledger readable, the channel is subscribed to the organization's signals, and
  what waits in it is of the organization.
\<close>

definition awake :: "codec \<Rightarrow> agent_identity \<Rightarrow> nat \<Rightarrow> nat \<Rightarrow> office \<Rightarrow> bool" where
  "awake cx identity ch m w \<longleftrightarrow>
     (\<exists>es. clean cx (of_Disk w) es \<and> own_snapshots (ai_OrganizationID identity) es \<and> length es = m) \<and>
     mem_inv (of_Bus w) \<and> \<not> mb_closed (of_Bus w) \<and>
     ch \<in> set (mem_group (of_Bus w) (OrganizationChannel (ai_OrganizationID identity))) \<and>
     ch_queue (mb_chans (of_Bus w) ! ch) \<noteq> [] \<and>
     list_all (\<lambda>s. ws_OrganizationID s \<in> {[], ai_OrganizationID identity}) (ch_queue (mb_chans (of_Bus w) ! ch))"

definition may_observe :: "agency_constitution \<Rightarrow> agent_identity \<Rightarrow> bool" where
  "may_observe constitution identity \<longleftrightarrow> ai_ID identity \<noteq> [] \<and> ai_OrganizationID identity \<noteq> [] \<and>
     (case map_of (ac_Roles constitution) (ai_Role identity) of None \<Rightarrow> False
      | Some role \<Rightarrow> rs_ObservationScopes role = [] \<or> ''default'' \<in> set (rs_ObservationScopes role))"

lemma may_observe_policy:
  assumes "may_observe constitution (aa_Identity actor)"
    and "sn_OrganizationID snapshot = ai_OrganizationID (aa_Identity actor)"
    and "ws_OrganizationID signal \<in> {[], ai_OrganizationID (aa_Identity actor)}"
  shows "ValidateObservation t constitution (actor_observation t' workplace actor snapshot signal) = acceptedDecision t"
  using assms unfolding ValidateObservation_accepts
  by (auto simp: may_observe_def observation_policy_def actor_observation_def map_get_or_def split: option.splits)

text \<open>What an actor announces, whatever signal it answers and whenever.\<close>

definition own_announcement :: "agent_identity \<Rightarrow> wake_signal \<Rightarrow> bool" where
  "own_announcement identity s \<longleftrightarrow> ws_Kind s = SignalBroadcast \<and>
     ws_Channel s = OrganizationChannel (ai_OrganizationID identity) \<and>
     map_of (ws_Payload s) ''entryKind'' = Some LedgerEntryAction \<and>
     map_of (ws_Payload s) ''actorId'' = Some (ai_ID identity)"

text \<open>The next two lemmas are one round: the bus and the ledger separately.\<close>

lemma receive_and_announce:
  assumes "mem_inv b" and "\<not> mb_closed b" and "ch \<in> set (mem_group b c)"
    and "ch_queue (mb_chans b ! ch) = signal # rest"
  obtains cs where "receive_chan ch (mb_chans b) = Some (signal, cs)"
    "\<And>s. ws_Channel s = c \<Longrightarrow> \<exists>b'. mem_Publish s (b\<lparr>mb_chans := cs\<rparr>) = Ok b' \<and> mem_inv b' \<and>
      \<not> mb_closed b' \<and> ch \<in> set (mem_group b' c) \<and> ch_queue (mb_chans b' ! ch) = rest @ [s]"
proof -
  have there: "ch < length (mb_chans b)" "\<not> ch_closed (mb_chans b ! ch)"
    using registered_mem [OF mem_group_registered [OF assms(1)] assms(3)] by auto
  define cs where "cs = (mb_chans b)[ch := (mb_chans b ! ch)\<lparr>ch_queue := rest\<rparr>]"
  have recv: "receive_chan ch (mb_chans b) = Some (signal, cs)"
    using there assms(4) by (simp add: receive_chan_def cs_def)
  define b1 where "b1 = b\<lparr>mb_chans := cs\<rparr>"
  have b1: "mem_inv b1" "\<not> mb_closed b1" "mem_group b1 c' = mem_group b c'" "ch_queue (mb_chans b1 ! ch) = rest" for c'
    using mem_inv_Receive [OF assms(1), of ch] recv assms(2) there
    by (simp_all add: b1_def mem_Receive_def cs_def)
  have room: "length rest < ch_cap (mb_chans b1 ! ch)"
  proof -
    have "length (signal # rest) \<le> ch_cap (mb_chans b ! ch)"
      using assms(1,4) there by (auto simp: mem_inv_def bounded_queues_def list_all_length)
    then show ?thesis using there by (simp add: b1_def cs_def)
  qed
  have "\<exists>b'. mem_Publish s b1 = Ok b' \<and> mem_inv b' \<and> \<not> mb_closed b' \<and> ch \<in> set (mem_group b' c) \<and>
      ch_queue (mb_chans b' ! ch) = rest @ [s]" if s: "ws_Channel s = c" for s
  proof -
    define b2 where "b2 = b1\<lparr>mb_chans := offered s (mem_group b1 (ws_Channel s)) (mb_chans b1)\<rparr>"
    have pub: "mem_Publish s b1 = Ok b2" unfolding b2_def using b1(1,2) by (rule mem_Publish_eq)
    have "ch_queue (mb_chans b2 ! ch) = rest @ [s]"
      using there room b1(3,4) assms(3) s by (simp add: b2_def b1_def cs_def offer_def)
    then show ?thesis
      using pub mem_inv_Publish [OF b1(1) pub] b1(2,3) assms(3) by (simp add: b2_def)
  qed
  then show thesis using that [OF recv] by (simp add: b1_def)
qed

lemma awake_round:
  assumes "awake cx (aa_Identity actor) ch m w" and "\<And>k. fault_free (ev i k)"
    and "short_actions cx ev now actor (Suc m)"
    and "may_observe constitution (aa_Identity actor)" and "talkative constitution actor"
  obtains signal cs obs s w' rest where "ch_queue (mb_chans (of_Bus w) ! ch) = signal # rest"
    "receive_chan ch (mb_chans (of_Bus w)) = Some (signal, cs)"
    "processActorSignal cx (ev i) (now i) workplace constitution actor signal
       (w\<lparr>of_Bus := (of_Bus w)\<lparr>mb_chans := cs\<rparr>\<rparr>) = (Ok (), w')"
    "awake cx (aa_Identity actor) ch (Suc m) w'"
    "ch_queue (mb_chans (of_Bus w') ! ch) = rest @ [s]" "own_announcement (aa_Identity actor) s"
    "of_Published w' = of_Published w @ [s]" "of_Woken w' = of_Woken w @ [(obs, signal)]"
proof -
  let ?i = "aa_Identity actor" and ?t = "now i (Suc 0)" and ?e = "ev i (Suc 0)"
  let ?org = "ai_OrganizationID ?i"
  let ?b = "of_Bus w"
  obtain es where es: "clean cx (of_Disk w) es" "own_snapshots ?org es" "length es = m"
      and inv: "mem_inv ?b" "\<not> mb_closed ?b"
      and ch: "ch \<in> set (mem_group ?b (OrganizationChannel ?org))"
      and q: "ch_queue (mb_chans ?b ! ch) \<noteq> []"
        "list_all (\<lambda>s. ws_OrganizationID s \<in> {[], ?org}) (ch_queue (mb_chans ?b ! ch))"
    using assms(1) by (auto simp: awake_def)
  obtain signal rest where sig: "ch_queue (mb_chans ?b ! ch) = signal # rest"
    using q(1) by (cases "ch_queue (mb_chans ?b ! ch)") auto
  obtain cs where recv: "receive_chan ch (mb_chans ?b) = Some (signal, cs)"
    and bus: "\<And>s. ws_Channel s = OrganizationChannel ?org \<Longrightarrow> \<exists>b'. mem_Publish s (?b\<lparr>mb_chans := cs\<rparr>) = Ok b' \<and>
      mem_inv b' \<and> \<not> mb_closed b' \<and> ch \<in> set (mem_group b' (OrganizationChannel ?org)) \<and>
      ch_queue (mb_chans b' ! ch) = rest @ [s]"
    using receive_and_announce [OF inv ch sig] by blast
  define w1 where "w1 = w\<lparr>of_Bus := ?b\<lparr>mb_chans := cs\<rparr>\<rparr>"
  obtain snapshot where snap: "LatestSnapshot cx (ev i 0) ?org (of_Disk w) = Ok snapshot" "sn_OrganizationID snapshot = ?org"
    using clean_snapshot_org [OF es(1) assms(2) es(2)] by blast
  define obs where "obs = actor_observation (now i 0) workplace actor snapshot signal"
  have obs: "ValidateObservation (now i 0) constitution obs = acceptedDecision (now i 0)"
    unfolding obs_def using assms(4) snap(2) q(2) sig by (intro may_observe_policy) simp_all
  obtain p where p: "aa_Handle actor (length (of_Woken w)) obs signal = Ok [p]"
      "\<And>t. action_policy constitution ?i (fill_proposal t ?i p)"
    using assms(5) unfolding talkative_def by blast
  define q' where "q' = fill_proposal ?t ?i p"
  have decision: "ValidateAction ?t constitution ?i q' = acceptedDecision ?t"
    unfolding q'_def ValidateAction_accepts by (rule p(2))
  have qorg: "ap_OrganizationID q' = ?org" using p(2) [of ?t] by (simp add: q'_def action_policy_def)
  define e where "e = action_entry ?t ?i q' (acceptedDecision ?t)"
  define d where "d = snd (Append cx ?e e (of_Disk w))"
  obtain c where app: "Append cx ?e e (of_Disk w) = (Ok c, d)"
    using clean_append(1) [OF es(1) assms(2), of "Suc 0" e] unfolding d_def by blast
  define s where "s = action_broadcast ?t ?i signal q'"
  have s: "ws_Channel s = OrganizationChannel ?org" "own_announcement ?i s" "ws_OrganizationID s = ?org"
    by (simp_all add: s_def action_broadcast_def qorg own_announcement_def)
  obtain b2 where b2: "mem_Publish s (?b\<lparr>mb_chans := cs\<rparr>) = Ok b2" "mem_inv b2" "\<not> mb_closed b2"
      "ch \<in> set (mem_group b2 (OrganizationChannel ?org))" "ch_queue (mb_chans b2 ! ch) = rest @ [s]"
    using bus [OF s(1)] by blast
  define w' where "w' = w\<lparr>of_Bus := b2, of_Disk := d, of_Published := of_Published w @ [s],
      of_Woken := of_Woken w @ [(obs, signal)]\<rparr>"
  have run: "processActorSignal cx (ev i) (now i) workplace constitution actor signal w1 = (Ok (), w')"
    by (simp add: processActorSignal_def w1_def snap(1) Let_def obs p(1) decision app b2(1) bus_Publish_def w'_def
        flip: obs_def q'_def e_def s_def)
  have short: "json_len cx (sealed_entry cx ?e (int (length es) + 1) e) < max_token"
    using assms(3) p(1) es(3) unfolding short_actions_def e_def q'_def
    by (metis One_nat_def add.commute atLeastAtMost_iff le_refl of_nat_Suc plus_1_eq_Suc le_add1)
  have "awake cx ?i ch (Suc m) w'"
    unfolding awake_def
  proof (intro conjI)
    have "own_snapshots ?org (es @ [sealed_entry cx ?e (int (length es) + 1) e])"
      using es(2) by (simp add: own_snapshots_def own_snapshot_def e_def action_entry_def zero_ledger_entry_def)
    then show "\<exists>es. clean cx (of_Disk w') es \<and> own_snapshots ?org es \<and> length es = Suc m"
      using clean_append(2) [OF es(1) assms(2) short] es(3)
      by (intro exI [of _ "es @ [sealed_entry cx ?e (int (length es) + 1) e]"]) (simp add: w'_def d_def)
  qed (use b2 q(2) sig s(3) in \<open>simp_all add: w'_def\<close>)
  then show thesis
    using that [OF sig recv] run b2(5) s(2) by (simp add: w1_def w'_def)
qed

text \<open>
  Property C38. An embedded actor that answers every signal with one action it is allowed never comes to
  rest, when no file operation of its run fails and the entries of its actions fit a line of the ledger:
  the broadcast that announces an action is delivered to the actor's own subscription to the
  organization's channel. After one signal its loop handles as many as it is given time for; every
  round publishes one announcement of its own, and behind the signals that waited at the start it
  handles these announcements, in their order.\<close>

theorem embedded_actor_wakes_itself:
  assumes "awake cx (aa_Identity actor) ch m w" and "\<And>i k. fault_free (ev i k)"
    and "short_actions cx ev now actor (m + n)"
    and "may_observe constitution (aa_Identity actor)" and "talkative constitution actor"
    and "actor_loop cx ev now workplace constitution actor ch n w = (k, w')"
  shows "k = n \<and> (\<exists>ss handled. of_Published w' = of_Published w @ ss \<and> length ss = n \<and>
    list_all (own_announcement (aa_Identity actor)) ss \<and> of_Woken w' = of_Woken w @ handled \<and>
    map snd handled = take n (ch_queue (mb_chans (of_Bus w) ! ch) @ ss))"
  using assms(1,3,6)
proof (induction n arbitrary: w k m)
  case (Suc n)
  have short: "short_actions cx ev now actor (Suc m)"
    using Suc.prems(2) by (auto simp: short_actions_def)
  obtain signal cs obs s w1 rest where round: "ch_queue (mb_chans (of_Bus w) ! ch) = signal # rest"
    "receive_chan ch (mb_chans (of_Bus w)) = Some (signal, cs)"
    "processActorSignal cx (ev n) (now n) workplace constitution actor signal
       (w\<lparr>of_Bus := (of_Bus w)\<lparr>mb_chans := cs\<rparr>\<rparr>) = (Ok (), w1)"
    "awake cx (aa_Identity actor) ch (Suc m) w1" "ch_queue (mb_chans (of_Bus w1) ! ch) = rest @ [s]"
    "own_announcement (aa_Identity actor) s"
    "of_Published w1 = of_Published w @ [s]" "of_Woken w1 = of_Woken w @ [(obs, signal)]"
    by (rule awake_round [where ev = ev and i = n and now = now and workplace = workplace,
          OF Suc.prems(1) assms(2) short assms(4,5)])
  obtain j where j: "actor_loop cx ev now workplace constitution actor ch n w1 = (j, w')" "k = Suc j"
    using Suc.prems(3) round(2,3) by (auto split: prod.splits)
  have "short_actions cx ev now actor (Suc m + n)" using Suc.prems(2) by simp
  from Suc.IH [OF round(4) this j(1)] obtain ss handled where rest: "j = n"
    "of_Published w' = of_Published w1 @ ss" "length ss = n" "list_all (own_announcement (aa_Identity actor)) ss"
    "of_Woken w' = of_Woken w1 @ handled" "map snd handled = take n ((rest @ [s]) @ ss)"
    unfolding round(5) by blast
  show ?case
    using rest round j(2) by (intro conjI exI [of _ "s # ss"] exI [of _ "(obs, signal) # handled"]) simp_all
qed simp

text \<open>The witnesses: an actor that broadcasts whenever it is woken, and one signal in its channel.\<close>

definition speaker :: actor where
  "speaker = \<lparr>aa_Identity = zero_agent_identity\<lparr>ai_ID := ''a'', ai_Role := ''worker'', ai_OrganizationID := ''org''\<rparr>,
     aa_Tools = [], aa_Handle = (\<lambda>n obs signal. Ok [zero_action_proposal\<lparr>ap_Type := ActionBroadcast\<rparr>])\<rparr>"

definition open_office :: office where
  "open_office = \<lparr>of_Disk = new_ledger_disk,
     of_Bus = \<lparr>mb_subs = [(OrganizationChannel ''org'', [0])], mb_closed = False,
       mb_chans = [(make_chan 32)\<lparr>ch_queue := [zero_wake_signal\<lparr>ws_OrganizationID := ''org''\<rparr>]\<rparr>],
       mb_watchers = [(0, OrganizationChannel ''org'')]\<rparr>,
     of_Published = [], of_Woken = []\<rparr>"

definition open_constitution :: agency_constitution where
  "open_constitution = zero_agency_constitution\<lparr>ac_Roles := [(''worker'', zero_role_spec)]\<rparr>"

lemma speaker_identity [simp]:
  "ai_ID (aa_Identity speaker) = ''a''" "ai_Role (aa_Identity speaker) = ''worker''"
  "ai_OrganizationID (aa_Identity speaker) = ''org''"
  by (simp_all add: speaker_def)

lemma open_office_awake: "awake (fixed_codec 100) (aa_Identity speaker) 0 0 open_office"
  using clean_new [of "fixed_codec 100"]
  by (auto intro!: exI [of _ "[]"] simp: awake_def open_office_def mem_inv_def wf_map_def bounded_queues_def registered_def
      mem_registered_def mem_group_def map_get_or_def make_chan_def own_snapshots_def zero_wake_signal_def)

lemma speaker_ready:
  "may_observe open_constitution (aa_Identity speaker)" "talkative open_constitution speaker"
  by (simp_all add: may_observe_def open_constitution_def talkative_def action_policy_def role_permits_def
      zero_role_spec_def zero_action_proposal_def fill_proposal_def requiresTarget_def speaker_def)

theorem embedded_actor_wakes_itself_witness:
  "\<exists>w' ss handled. actor_loop (fixed_codec 100) (\<lambda>n k. quiet) (\<lambda>n k. 5) ''/w'' open_constitution speaker 0 1000 open_office = (1000, w') \<and>
     of_Published w' = ss \<and> of_Woken w' = handled \<and>
     map snd handled = take 1000 ((zero_wake_signal\<lparr>ws_OrganizationID := ''org''\<rparr>) # ss)"
proof -
  obtain k w' where run: "actor_loop (fixed_codec 100) (\<lambda>n k. quiet) (\<lambda>n k. 5) ''/w'' open_constitution speaker 0 1000 open_office = (k, w')"
    by fastforce
  have "short_actions (fixed_codec 100) (\<lambda>n k. quiet) (\<lambda>n k. 5) speaker (0 + 1000)"
    by (simp add: short_actions_def max_token_def)
  from embedded_actor_wakes_itself [OF open_office_awake quiet_fault_free this speaker_ready run]
  show ?thesis using run by (auto simp: open_office_def)
qed

theorem announced_actions_are_permitted_witness:
  "\<exists>r w'. processActorSignal (fixed_codec 100) (\<lambda>k. quiet) (\<lambda>k. 5) ''/w'' open_constitution speaker
       zero_wake_signal open_office = (r, w') \<and>
     (\<exists>ss. of_Published w' = of_Published open_office @ ss \<and>
       list_all (announces open_constitution (aa_Identity speaker) zero_wake_signal w') ss)"
proof -
  obtain r w' where run: "processActorSignal (fixed_codec 100) (\<lambda>k. quiet) (\<lambda>k. 5) ''/w'' open_constitution speaker
       zero_wake_signal open_office = (r, w')" by fastforce
  have "whole_lines (of_Disk open_office)" "whole_writes (\<lambda>k. quiet)"
    by (simp_all add: open_office_def whole_lines_def whole_writes_def new_ledger_disk_def)
  from announced_actions_are_permitted [OF run this] run show ?thesis by blast
qed

section \<open>Actor processes\<close>

lemma publish_all_list:
  "\<exists>ss. of_Published (snd (publish_all xs w)) = of_Published w @ ss \<and> set ss \<subseteq> set xs"
proof (induction xs arbitrary: w)
  case (Cons x xs)
  obtain r1 w1 where pub: "bus_Publish x w = (r1, w1)" by fastforce
  obtain s1 where s1: "of_Published w1 = of_Published w @ s1" "set s1 \<subseteq> {x}"
    using bus_Publish_list [of x w] pub by fastforce
  obtain s2 where s2: "of_Published (snd (publish_all xs w1)) = of_Published w1 @ s2" "set s2 \<subseteq> set xs"
    using Cons.IH by blast
  show ?case
  proof (cases "is_panic r1")
    case True
    then show ?thesis using pub s1 by (auto simp: is_panic_iff)
  next
    case False
    then show ?thesis
      using pub s1 s2 by (intro exI [of _ "s1 @ s2"]) (auto simp: is_panic_iff split: outcome.split)
  qed
qed simp

lemma lifecycle_published [simp]:
  "of_Published (snd (appendActorLifecycle cx ev now spec source m w)) = of_Published w"
  by (simp add: appendActorLifecycle_def split: prod.split outcome.split)

lemma daemon_act_list:
  "\<exists>ss. of_Published (snd (daemon_act cx ev uid now enc identity signal r w)) = of_Published w @ ss \<and>
     set ss \<subseteq> {performance_signal uid now identity signal r,
       daemon_broadcast r (daemon_proposal enc now identity signal r),
       daemon_approval r (daemon_proposal enc now identity signal r)}"
proof -
  let ?p = "daemon_proposal enc now identity signal r"
  let ?f = "performance_signal uid now identity signal r"
  obtain r1 w1 where first: "publish_all [?f] w = (r1, w1)" by fastforce
  obtain s1 where s1: "of_Published w1 = of_Published w @ s1" "set s1 \<subseteq> {?f}"
    using publish_all_list [of "[?f]" w] first by auto
  obtain r2 d where app: "Append cx ev (daemon_entry now identity ?p) (of_Disk w1) = (r2, d)" by fastforce
  obtain s2 where s2: "of_Published (snd (publish_all [daemon_broadcast r ?p, daemon_approval r ?p] (w1\<lparr>of_Disk := d\<rparr>))) =
      of_Published w1 @ s2" "set s2 \<subseteq> {daemon_broadcast r ?p, daemon_approval r ?p}"
    using publish_all_list [of "[daemon_broadcast r ?p, daemon_approval r ?p]" "w1\<lparr>of_Disk := d\<rparr>"] by auto
  have "snd (daemon_act cx ev uid now enc identity signal r w) \<in>
      {w1, w1\<lparr>of_Disk := d\<rparr>, snd (publish_all [daemon_broadcast r ?p, daemon_approval r ?p] (w1\<lparr>of_Disk := d\<rparr>))}"
    unfolding daemon_act_def Let_def first by (auto simp: app split: outcome.split)
  then have "of_Published (snd (daemon_act cx ev uid now enc identity signal r w)) \<in>
      {of_Published w @ s1, of_Published w @ (s1 @ s2)}"
    using s1(1) s2(1) by auto
  then show ?thesis using s1(2) s2(2) by auto
qed

text \<open>
  Property C39. The actor processes do not answer each other: whatever a process publishes while it
  handles a signal, the part of it that an actor process would act on goes to the bulletin, to which no
  process is subscribed.\<close>

theorem daemons_ignore_their_signals:
  "\<exists>ss. of_Published (snd (daemon_handle cx ev uid now enc workplace think constitution spec signal w)) =
      of_Published w @ ss \<and>
    list_all (\<lambda>s. ws_Channel s = BulletinChannel (ai_OrganizationID (sc_Identity spec)))
      (filter (shouldProcessActorSignal actorID) ss)"
proof -
  let ?i = "sc_Identity spec"
  have ok: "set ss \<subseteq> {performance_signal uid now ?i signal r,
      daemon_broadcast r (daemon_proposal enc now ?i signal r), daemon_approval r (daemon_proposal enc now ?i signal r)} \<Longrightarrow>
    list_all (\<lambda>s. ws_Channel s = BulletinChannel (ai_OrganizationID ?i)) (filter (shouldProcessActorSignal actorID) ss)"
    for ss r
    by (auto simp: list_all_iff performance_signal_def daemon_broadcast_def daemon_approval_def
        shouldProcessActorSignal_def Let_def)
  let ?good = "\<lambda>w2. of_Published w2 = of_Published w \<or>
      (\<exists>r ss. of_Published w2 = of_Published w @ ss \<and> set ss \<subseteq> {performance_signal uid now ?i signal r,
        daemon_broadcast r (daemon_proposal enc now ?i signal r), daemon_approval r (daemon_proposal enc now ?i signal r)})"
  have "?good (snd (daemon_handle cx ev uid now enc workplace think constitution spec signal w))"
  proof (cases "shouldProcessActorSignal (ai_ID ?i) signal")
    case should: True
    show ?thesis
    proof (cases "LatestSnapshot cx (ev 0) (ai_OrganizationID ?i) (of_Disk w)")
      case (Ok snapshot)
      define obs where "obs = daemon_observation now
        (if trim_space workplace \<noteq> [] then trim_space workplace else trim_space (sc_SharedWorkplace spec)) spec snapshot signal"
      define decision where "decision = ValidateObservation now (with_role spec constitution) obs"
      define r where "r = think obs signal
        (map_get_or zero_role_spec (ac_Roles (with_role spec constitution)) (ai_Role ?i))"
      define w1 where "w1 = w\<lparr>of_Woken := of_Woken w @ [(obs, signal)]\<rparr>"
      obtain q w2 where act: "daemon_act cx (ev 1) uid now enc ?i signal r w1 = (q, w2)" by fastforce
      have run: "daemon_handle cx ev uid now enc workplace think constitution spec signal w =
        (if \<not> kd_Accepted decision
         then appendActorLifecycle cx (ev 2) now spec ''actor.daemon.signal'' (signal_metadata spec signal decision None) w
         else case q of Panic e \<Rightarrow> (Panic e, w2)
           | _ \<Rightarrow> appendActorLifecycle cx (ev 2) now spec ''actor.daemon.signal''
               (signal_metadata spec signal decision (Some r)) w2)"
        unfolding daemon_handle_def Let_def Ok outcome.case obs_def [symmetric] decision_def [symmetric]
          r_def [symmetric] w1_def [symmetric] act
        by (cases q) (simp_all add: should)
      then have "of_Published (snd (daemon_handle cx ev uid now enc workplace think constitution spec signal w)) \<in>
          {of_Published w, of_Published w2}"
        by (cases q) simp_all
      moreover have "of_Published w1 = of_Published w" by (simp add: w1_def)
      ultimately show ?thesis
        using daemon_act_list [of cx "ev 1" uid now enc ?i signal r w1] act by auto
    qed (simp_all add: daemon_handle_def Let_def should)
  qed (simp add: daemon_handle_def)
  then show ?thesis
  proof (elim disjE exE conjE)
    assume "of_Published (snd (daemon_handle cx ev uid now enc workplace think constitution spec signal w)) = of_Published w"
    then show ?thesis by simp
  next
    fix r ss
    assume "of_Published (snd (daemon_handle cx ev uid now enc workplace think constitution spec signal w)) =
        of_Published w @ ss"
      and "set ss \<subseteq> {performance_signal uid now ?i signal r,
        daemon_broadcast r (daemon_proposal enc now ?i signal r), daemon_approval r (daemon_proposal enc now ?i signal r)}"
    then show ?thesis using ok by blast
  qed
qed

lemma publish_all_open:
  "mem_inv (of_Bus w) \<Longrightarrow> \<not> mb_closed (of_Bus w) \<Longrightarrow>
   \<exists>b. publish_all xs w = (Ok (), w\<lparr>of_Bus := b, of_Published := of_Published w @ xs\<rparr>) \<and>
     mem_inv b \<and> \<not> mb_closed b"
proof (induction xs arbitrary: w)
  case Nil
  then show ?case by (intro exI [of _ "of_Bus w"]) simp
next
  case (Cons x xs)
  define b where "b = (of_Bus w)\<lparr>mb_chans := offered x (mem_group (of_Bus w) (ws_Channel x)) (mb_chans (of_Bus w))\<rparr>"
  have pub: "mem_Publish x (of_Bus w) = Ok b" unfolding b_def using Cons.prems by (rule mem_Publish_eq)
  let ?w = "w\<lparr>of_Bus := b, of_Published := of_Published w @ [x]\<rparr>"
  have b: "mem_inv (of_Bus ?w)" "\<not> mb_closed (of_Bus ?w)"
    using mem_inv_Publish [OF Cons.prems(1) pub] Cons.prems(2) by (simp_all add: b_def)
  from Cons.IH [OF b] show ?case by (auto simp: bus_Publish_def pub)
qed

text \<open>
  Property C40. The actor processes ask the kernel about what they observe and not about what they do:
  on every signal that such a process acts on and may observe, on a readable ledger, an open bus and
  without file failures, it commits and announces a broadcast - also when the constitution does not let
  its role broadcast. The proposal has no identifier, so the request for approval names none.\<close>

theorem daemon_commits_forbidden_action:
  assumes "clean cx (of_Disk w) es" and "\<And>k. fault_free (ev k)"
    and "mem_inv (of_Bus w)" and "\<not> mb_closed (of_Bus w)"
    and "shouldProcessActorSignal (ai_ID (sc_Identity spec)) signal"
    and "ws_OrganizationID signal \<in> {[], ai_OrganizationID (sc_Identity spec)}"
    and "may_observe constitution (sc_Identity spec)"
    and "map_of (ac_Roles constitution) (ai_Role (sc_Identity spec)) = Some role"
  shows "\<exists>p e r w'. snd (daemon_handle cx ev uid now enc workplace think constitution spec signal w) = w' \<and>
    EntryLine e \<in> disk_lines (of_Disk w') \<and> le_Action e = Some p \<and>
    ap_Type p = ActionBroadcast \<and> le_Decision e = None \<and>
    {daemon_broadcast r p, daemon_approval r p} \<subseteq> set (of_Published w') \<and>
    map_of (ws_Payload (daemon_approval r p)) ''proposalId'' = Some [] \<and>
    (rs_AllowedActions role \<noteq> [] \<and> ActionBroadcast \<notin> set (rs_AllowedActions role) \<longrightarrow>
      \<not> action_policy constitution (sc_Identity spec) p)"
proof -
  let ?i = "sc_Identity spec"
  obtain snapshot where snap: "LatestSnapshot cx (ev 0) (ai_OrganizationID ?i) (of_Disk w) = Ok snapshot"
    using clean_snapshot [OF assms(1,2)] by blast
  have role: "with_role spec constitution = constitution" by (simp add: with_role_def assms(8))
  define obs where "obs = daemon_observation now
    (if trim_space workplace \<noteq> [] then trim_space workplace else trim_space (sc_SharedWorkplace spec)) spec snapshot signal"
  have decision: "ValidateObservation now constitution obs = acceptedDecision now"
    unfolding ValidateObservation_accepts using assms(6,7)
    by (auto simp: may_observe_def observation_policy_def obs_def daemon_observation_def map_get_or_def
        split: option.splits)
  define r where "r = think obs signal (map_get_or zero_role_spec (ac_Roles constitution) (ai_Role ?i))"
  define p where "p = daemon_proposal enc now ?i signal r"
  define w1 where "w1 = w\<lparr>of_Woken := of_Woken w @ [(obs, signal)]\<rparr>"
  have w1: "mem_inv (of_Bus w1)" "\<not> mb_closed (of_Bus w1)" using assms(3,4) by (simp_all add: w1_def)
  obtain b1 where first: "publish_all [performance_signal uid now ?i signal r] w1 =
      (Ok (), w1\<lparr>of_Bus := b1, of_Published := of_Published w1 @ [performance_signal uid now ?i signal r]\<rparr>)"
      "mem_inv b1" "\<not> mb_closed b1"
    using publish_all_open [OF w1, of "[performance_signal uid now ?i signal r]"] by blast
  define e where "e = daemon_entry now ?i p"
  define d where "d = snd (Append cx (ev 1) e (of_Disk w))"
  obtain c where app: "Append cx (ev 1) e (of_Disk w) = (Ok c, d)"
    using clean_append(1) [OF assms(1,2), of 1 e] unfolding d_def by blast
  have whole: "whole_lines (of_Disk w)" using assms(1) by (auto simp: clean_def whole_lines_def)
  have ev: "ev_write (ev k) = WriteAll" for k using assms(2) [of k] by (simp add: fault_free_def)
  obtain n where written: "whole_lines d" "EntryLine (sealed_entry cx (ev 1) n e) \<in> disk_lines d"
    using Append_whole [OF app whole] ev by auto
  define w2 where "w2 = w1\<lparr>of_Bus := b1, of_Published := of_Published w1 @ [performance_signal uid now ?i signal r],
      of_Disk := d\<rparr>"
  have w2: "mem_inv (of_Bus w2)" "\<not> mb_closed (of_Bus w2)" using first(2,3) by (simp_all add: w2_def)
  obtain b2 where second: "publish_all [daemon_broadcast r p, daemon_approval r p] w2 =
      (Ok (), w2\<lparr>of_Bus := b2, of_Published := of_Published w2 @ [daemon_broadcast r p, daemon_approval r p]\<rparr>)"
    using publish_all_open [OF w2, of "[daemon_broadcast r p, daemon_approval r p]"] by blast
  define w3 where "w3 = w2\<lparr>of_Bus := b2, of_Published := of_Published w2 @ [daemon_broadcast r p, daemon_approval r p]\<rparr>"
  have act: "daemon_act cx (ev 1) uid now enc ?i signal r w1 = (Ok (), w3)"
    unfolding daemon_act_def Let_def first(1) p_def [symmetric] e_def [symmetric]
    using app second by (simp add: w1_def w2_def w3_def)
  let ?w' = "snd (appendActorLifecycle cx (ev 2) now spec ''actor.daemon.signal''
    (signal_metadata spec signal (acceptedDecision now) (Some r)) w3)"
  have run: "snd (daemon_handle cx ev uid now enc workplace think constitution spec signal w) = ?w'"
    unfolding daemon_handle_def Let_def role snap outcome.case obs_def [symmetric] decision r_def [symmetric]
      w1_def [symmetric] act
    by (simp add: assms(5))
  have disk: "disk_lines d \<subseteq> disk_lines (of_Disk ?w')"
    using Append_whole [OF _ written(1), of cx "ev 2"] ev
    by (auto simp: appendActorLifecycle_def AppendSnapshot_def Let_def w3_def w2_def split: prod.split outcome.split)
  have "rs_AllowedActions role \<noteq> [] \<and> ActionBroadcast \<notin> set (rs_AllowedActions role) \<longrightarrow>
      \<not> action_policy constitution ?i p"
    using assms(8) by (auto simp: action_policy_def role_permits_def p_def daemon_proposal_def)
  moreover have "le_Action (sealed_entry cx (ev 1) n e) = Some p" "le_Decision (sealed_entry cx (ev 1) n e) = None"
    by (simp_all add: e_def daemon_entry_def zero_ledger_entry_def)
  moreover have "ap_Type p = ActionBroadcast" by (simp add: p_def daemon_proposal_def)
  moreover have "{daemon_broadcast r p, daemon_approval r p} \<subseteq> set (of_Published ?w')"
    by (simp add: w3_def)
  moreover have "map_of (ws_Payload (daemon_approval r p)) ''proposalId'' = Some []"
    by (simp add: daemon_approval_def p_def daemon_proposal_def zero_action_proposal_def)
  ultimately show ?thesis using run disk written(2) by blast
qed

definition coder_constitution :: agency_constitution where
  "coder_constitution = zero_agency_constitution
     \<lparr>ac_Roles := [(''worker'', zero_role_spec\<lparr>rs_AllowedActions := [ActionWriteCode]\<rparr>)]\<rparr>"

definition coder_spec :: actor_spec where
  "coder_spec = \<lparr>sc_Identity = aa_Identity speaker, sc_Tools = [], sc_ActionConstraints = [], sc_SharedWorkplace = []\<rparr>"

definition canned :: inference where
  "canned = \<lparr>nf_Text = ''done'', nf_Provider = [], nf_ModelID = [], nf_Confidence = ''0.50'', nf_Verdict = [],
     nf_Risk = [], nf_TraceID = None, nf_Reason = [], nf_Intent = [], nf_RoutedProvider = [], nf_RoutedModel = []\<rparr>"

theorem daemon_commits_forbidden_action_witness:
  "\<exists>p e w'. snd (daemon_handle (fixed_codec 100) (\<lambda>k. quiet) ''u'' 5 (\<lambda>s. s) [] (\<lambda>obs signal role. canned)
       coder_constitution coder_spec zero_wake_signal open_office) = w' \<and>
     EntryLine e \<in> disk_lines (of_Disk w') \<and> le_Action e = Some p \<and>
     \<not> action_policy coder_constitution (aa_Identity speaker) p"
proof -
  have office: "clean (fixed_codec 100) (of_Disk open_office) []" "mem_inv (of_Bus open_office)"
      "\<not> mb_closed (of_Bus open_office)"
    using open_office_awake clean_new by (simp_all add: awake_def open_office_def)
  have spec: "shouldProcessActorSignal (ai_ID (sc_Identity coder_spec)) zero_wake_signal"
      "ws_OrganizationID zero_wake_signal \<in> {[], ai_OrganizationID (sc_Identity coder_spec)}"
      "may_observe coder_constitution (sc_Identity coder_spec)"
      "map_of (ac_Roles coder_constitution) (ai_Role (sc_Identity coder_spec)) =
         Some (zero_role_spec\<lparr>rs_AllowedActions := [ActionWriteCode]\<rparr>)"
    by (simp_all add: coder_spec_def coder_constitution_def shouldProcessActorSignal_def zero_wake_signal_def
        may_observe_def zero_role_spec_def)
  have office': "\<And>k::nat. fault_free quiet" by simp
  show ?thesis
    using daemon_commits_forbidden_action [OF office(1) office' office(2,3) spec,
        of "''u''" 5 "\<lambda>s. s" "[]" "\<lambda>obs signal role. canned"]
    by (auto simp: coder_spec_def)
qed

end
