(* ===== verification/Spec2Isabelle.thy ===== *)
theory Spec2Isabelle
  imports Patch_Properties Ledger_Properties Bus_Properties Workers_Properties
    Team_Office_Properties Message_Properties Merkle_Properties Convergence_Properties
    Scheduler_Properties Permission_Properties Text_Edit_Properties
    File_History_Properties Review_Properties Causal_Chain_Properties
    Agent_Requests Patch_Tool_Properties Bash_Tool_Properties Persistent_Shell
    Lsp_Transport_Properties Speculation_Properties Actor_Runtime_Properties
begin

text \<open>
  A model of \<open>teamcode\<close>, a terminal coding agent in Go, and what its parts guarantee.

  \<^bold>\<open>The program.\<close> A session is a conversation with a language model
  (\<open>internal/llm/agent\<close>). The model's events fill a message (\<open>internal/message\<close>), its tool calls are
  run (\<open>internal/llm/tools\<close>: edit, write, patch, shell), and their results go back to it. Tools ask the
  user for permission (\<open>internal/permission\<close>), record versions of what they change
  (\<open>internal/history\<close>) and talk to language servers (\<open>internal/lsp\<close>). Rows live in a database
  (\<open>internal/db\<close>), and services tell their subscribers by a broker (\<open>internal/pubsub\<close>).
  Sessions start workers (\<open>internal/orchestration\<close>) that form a team with a task board, inboxes,
  handoffs and an office (\<open>internal/team\<close>). The agency (\<open>internal/agency\<close>) decides what workers may
  do: a kernel checks proposals against a constitution, a ledger commits them by vote and is replayed
  from its file, buses carry signals, a scheduler starts recurring work, and the GIST core weighs a
  causal graph of evidence into a verdict that is attributed, attested, disputed, reviewed and
  compared with those of a cohort.

  \<^bold>\<open>Theories and code.\<close> Definitions have the names of the Go code and follow it branch by branch.

  \<^item> Common ground. \<open>Prelude\<close>: results of calls (\<open>Ok\<close>, \<open>Err\<close>, \<open>Panic\<close>), maps, reachability and the
    locale \<open>invariant_system\<close> for step relations. \<open>Go_Strings\<close>, \<open>Go_Numbers\<close>, \<open>Go_Fields\<close>: \<open>strings\<close>,
    \<open>sort.Strings\<close>, \<open>strconv\<close>, hexadecimal. \<open>Sort_Slice\<close>: the contract of \<open>sort.Slice\<close>.
    \<open>Channels\<close>: buffered channels with their panics.
  \<^item> Patches, \<open>internal/diff/patch.go\<close>: \<open>Patch_Parse\<close> (parser and context search), \<open>Patch_Apply\<close>
    (chunks, commits), \<open>Patch_Sections\<close>, \<open>Patch_Termination\<close>, \<open>Patch_Correct\<close>; statements in
    \<open>Patch_Properties\<close>.
  \<^item> Agency core: \<open>Agency_Types\<close> (\<open>types.go\<close>), \<open>Kernel\<close> (\<open>kernel.go\<close>), \<open>Consensus\<close> (\<open>consensus.go\<close>),
    \<open>Ledger\<close> (\<open>ledger.go\<close>), \<open>Ledger_Facts\<close>, \<open>Ledger_Invariants\<close>, \<open>Ledger_Properties\<close>;
    \<open>Actor_Runtime\<close> (\<open>daemon.go\<close>, \<open>daemon_actor.go\<close>: what an actor does with a signal) and
    \<open>Actor_Runtime_Properties\<close>; \<open>Event_Bus\<close> (\<open>bus.go\<close>), \<open>Redis_Bus\<close> (\<open>redis_bus.go\<close>), \<open>Pubsub\<close> (\<open>internal/pubsub/broker.go\<close>) and
    \<open>Bus_Properties\<close>; \<open>Scheduler\<close> (\<open>scheduler.go\<close>, \<open>nested_scheduler.go\<close>) and \<open>Scheduler_Properties\<close>.
  \<^item> Verdicts: \<open>Causal_Merkle\<close> (\<open>speculative_merkle.go\<close>), \<open>Causal_Pearl\<close> (\<open>causal_graph.go\<close>,
    the Pearl loop), \<open>Shapley\<close>, \<open>Disputes\<close> (\<open>dispute.go\<close>), \<open>Adversarial_Review\<close>,
    \<open>Convergence\<close> (\<open>speculative_converge.go\<close>), \<open>Speculation\<close> (\<open>speculative_reconcile.go\<close>,
    \<open>speculative_dyad.go\<close>, \<open>speculative_bundle.go\<close>), each with a theory of properties.
  \<^item> Workers and teams: \<open>Workers\<close> (\<open>internal/orchestration/manager.go\<close>), \<open>Team_Types\<close>, \<open>Team_Store\<close>,
    \<open>Team_Store_Facts\<close>, \<open>Team_Board\<close>, \<open>Team_Handoff\<close>, \<open>Team_Members\<close>, \<open>Team_Context\<close>, \<open>Team_Inbox\<close>,
    \<open>Team_Runtime\<close>, \<open>Team_Office\<close>, \<open>Team_Snapshot\<close>: one theory per file of \<open>internal/team\<close>.
  \<^item> Conversation: \<open>Message_Content\<close>, \<open>Message_Store\<close>, \<open>Session_Store\<close>, \<open>File_History\<close> over the queries
    of \<open>internal/db\<close>; \<open>Permissions\<close>; \<open>Agent_Loop\<close> (one generation), \<open>Agent_Requests\<close> (which requests
    are active).
  \<^item> Tools: \<open>File_Tools\<close> (\<open>edit.go\<close>, \<open>write.go\<close>, \<open>file.go\<close>), \<open>Patch_Tool\<close>, \<open>Bash_Tool\<close>,
    \<open>Persistent_Shell\<close> (\<open>shell.go\<close>); \<open>Text_Edits\<close> (\<open>internal/lsp/util/edit.go\<close>), \<open>Lsp_Transport\<close> (\<open>internal/lsp/transport.go\<close>).

  \<^bold>\<open>Conventions.\<close> A Go error is \<open>Err\<close> with its text (in \<open>Agent_Loop\<close> a record that says what it
  wraps), a panic is \<open>Panic\<close>. A pointer that may be nil is an option; nil and empty slices are one
  value except where a write to a nil map panics. A map is an association list without repeated keys.
  An operation under a lock is one step; where the code leaves the lock between two accesses, the
  model has two steps. What the operating system, the database, the clock, the random numbers, the
  user and the language model answer is an argument: a record of functions (\<open>file_env\<close>, \<open>bash_env\<close>,
  \<open>agent_env\<close>, \<open>causal_env\<close>) that are asked with a counter, so that every answer may differ, faults
  included. JSON texts, SHA-256, UUIDs and Unicode case are arguments as well. \<open>sort.Slice\<close> is any
  function that returns a sorted permutation; \<open>sort.SliceStable\<close> is insertion from the right. A
  floating-point number is a real with a rounding function after every operation; statements name
  what they need of rounding. Integers wrap where the code depends on their width.

  \<^bold>\<open>Interfaces.\<close> \<open>doc_store\<close> (\<open>Team_Store_Facts\<close>) is what a team service relies on in the file
  store; every service interprets it for its document. \<open>keyed_upsert\<close> (\<open>Prelude\<close>) is the contract of
  the loops that replace the record with a key or append it, interpreted for publications, voice
  rooms, schedules, members, runtime records and tool calls. \<open>weak_lt\<close> and \<open>linear_lt\<close> (\<open>Sort_Slice\<close>)
  are what \<open>sort.Slice\<close> needs of a comparison, interpreted for the orders the code sorts by.
  \<open>invariant_system\<close> (\<open>Prelude\<close>) carries invariants through step relations, interpreted for the
  ledger, the buses, the scheduler, the permissions and the workers. \<open>file_store\<close> (\<open>Patch_Apply\<close>) is
  what applying a commit needs of the functions it is given, interpreted for those of the package
  and those of the patch tool.

  \<^bold>\<open>What is shown.\<close>

  \<^item> Patches: an update parsed without fuzz replaces exactly the lines it names; a parsed patch
    commits without panic; a context search finds the lines it was given, up to the space it is allowed
    to ignore, and tells how well; the parser returns.
  \<^item> Tools: no file changes and no command runs without a grant, apart from the commands of the
    safe list; a replacement that reports success replaced the only occurrence of its text; a patch that
    reports success has the effect of its commit; every tool call of the model is answered once.
  \<^item> Permissions: a yes goes back to an approved session, a persistent grant for the same session,
    tool, action and directory, or a grant of this request, in every interleaving.
  \<^item> Ledger and kernel: entries proposed with at most one vote of each voter have a quorum of distinct
    voters when committed, others need not; the ledger only
    grows, whatever fails; the kernel accepts what the constitution allows and nothing else, and what
    an embedded actor announces is permitted and stands in the ledger.
  \<^item> Buses and client: which steps panic, exactly; calls return the response with their identifier;
    frames written are read back, whatever their bytes.
  \<^item> Workers, teams, scheduler: lineages form a forest, outcomes are final; a task stands in one
    column; one live ticker per schedule.
  \<^item> Verdicts: attributions share out the swing of the confidence; equal roots mean equal leaves; a
    recommended action is the best one below the confounder threshold; a meta verdict is fabricated
    exactly when a node of it has no counterpart; hydration restores what is attested.
  \<^item> Streaming and history: a streamed message is what its specification computes; published file
    events tell the table up to the rows that go with a deleted session, which no event tells. A
    request whose cancel function is gone while it runs was canceled, or another took its entry.

  Statements that end in \<open>_witness\<close> apply a property to a concrete input. Some statements record
  defects: a review that always upholds, proposals that bring their own quorum, commands that panic, calls
  that never return, verdicts that compression loses, actors that wake themselves or act unchecked.

  \<^bold>\<open>Fuel.\<close> The parser takes one unit of fuel for each step of its main loop. \<open>parser_returns\<close> shows that
  as many as there are lines are enough unless a line is one that the loop never passes, in which case
  the Go code does not return either. A generation (\<open>generate\<close>) takes a unit of fuel per round, since
  the model may ask for tools for ever; its properties hold for every amount. Replays, searches and
  loops over data are structural or have measures.

  \<^bold>\<open>Limits.\<close> A failing \<open>os.WriteFile\<close> of the tools changes nothing, where the real one may truncate (the
  team store does model what is left). Symbolic links, modes and other processes that change files
  between two accesses are left out. Text is bytes; where Go ranges over runes the model says how.

  \<^bold>\<open>Not modelled.\<close> The terminal interface (\<open>internal/tui\<close>), the requests to providers over HTTP
  (\<open>internal/llm/provider\<close> and the agency's providers), the generated protocol types, the bodies of
  generated queries without logic, configuration and start-up (\<open>internal/config\<close>, \<open>internal/app\<close>,
  \<open>cmd\<close>), daemons and sockets, voice, rendering of diffs, file watchers and the scripts, pages and
  desktop parts in other languages: they are input and output, layout or glue around the parts above.
\<close>

end
